(* ===== verification/Prelude.thy ===== *)
theory Prelude
  imports
    Main
    "HOL-Library.Word"
    "HOL-Library.Multiset"
    "HOL-Library.Sublist"
    "HOL-Library.List_Lexorder"
    "HOL-Library.Char_ord"
    "HOL-Library.Product_Lexorder"
begin

text \<open>
  Shared vocabulary of the development: Rust's fixed-width integers and the arithmetic
  methods the sources call on them, \<open>Result\<close> as a sum type, decimal formatting of
  integers (used by the error messages), and the ordered maps of Rust's standard library
  (\<open>BTreeMap\<close>) as strictly sorted association lists behind a locale that states what the
  clients rely on.
\<close>

section \<open>Results\<close>

named_theorems rust_simps \<open>equations for the Rust primitives used by the models\<close>

type_synonym u8 = "8 word"
type_synonym u32 = "32 word"
type_synonym u64 = "64 word"
type_synonym i64 = int

text \<open>\<open>Result<T, E>\<close> is \<open>'e + 'a\<close> with \<open>Inl\<close> for \<open>Err\<close>; \<open>rbind\<close> is the \<open>?\<close> operator.\<close>

definition rbind :: "'e + 'a \<Rightarrow> ('a \<Rightarrow> 'e + 'b) \<Rightarrow> 'e + 'b" where
  "rbind r f = (case r of Inl e \<Rightarrow> Inl e | Inr a \<Rightarrow> f a)"

lemma rbind_Inl [simp]: "rbind (Inl e) f = Inl e"
  by (simp add: rbind_def)

lemma rbind_Inr [simp]: "rbind (Inr a) f = f a"
  by (simp add: rbind_def)

lemma rbind_eq_Inr_iff: "rbind r f = Inr b \<longleftrightarrow> (\<exists>a. r = Inr a \<and> f a = Inr b)"
  by (cases r) auto

lemma rbind_eq_Inl_iff: "rbind r f = Inl e \<longleftrightarrow> r = Inl e \<or> (\<exists>a. r = Inr a \<and> f a = Inl e)"
  by (cases r) auto

lemma rbind_InrE [elim]:
  assumes "rbind r f = Inr b"
  obtains a where "r = Inr a" and "f a = Inr b"
  using assms by (auto simp: rbind_eq_Inr_iff)

lemma case_prod_eqE:
  assumes "(case p of (x, y) \<Rightarrow> f x y) = b"
  obtains x y where "p = (x, y)" and "f x y = b"
  using assms by (cases p) auto

definition map_err :: "('e \<Rightarrow> 'd) \<Rightarrow> 'e + 'a \<Rightarrow> 'd + 'a" where
  "map_err f r = (case r of Inl e \<Rightarrow> Inl (f e) | Inr a \<Rightarrow> Inr a)"

lemma map_err_Inl [simp]: "map_err f (Inl e) = Inl (f e)"
  by (simp add: map_err_def)

lemma map_err_Inr [simp]: "map_err f (Inr a) = Inr a"
  by (simp add: map_err_def)

lemma map_err_eq_Inr_iff [simp]: "map_err f r = Inr a \<longleftrightarrow> r = Inr a"
  by (cases r) auto

definition ok_or :: "'a option \<Rightarrow> 'e \<Rightarrow> 'e + 'a" where
  "ok_or x e = (case x of None \<Rightarrow> Inl e | Some a \<Rightarrow> Inr a)"

lemma ok_or_None [simp]: "ok_or None e = Inl e"
  by (simp add: ok_or_def)

lemma ok_or_Some [simp]: "ok_or (Some a) e = Inr a"
  by (simp add: ok_or_def)

lemma ok_or_eq_Inr_iff [simp]: "ok_or x e = Inr a \<longleftrightarrow> x = Some a"
  by (cases x) auto

lemma ok_or_eq_Inl_iff [simp]: "ok_or x e = Inl d \<longleftrightarrow> x = None \<and> d = e"
  by (cases x) auto

text \<open>\<open>Option::is_none_or\<close> and \<open>Option::is_some_and\<close>.\<close>

definition is_none_or :: "'a option \<Rightarrow> ('a \<Rightarrow> bool) \<Rightarrow> bool" where
  "is_none_or x p = (case x of None \<Rightarrow> True | Some a \<Rightarrow> p a)"

definition is_some_and :: "'a option \<Rightarrow> ('a \<Rightarrow> bool) \<Rightarrow> bool" where
  "is_some_and x p = (case x of None \<Rightarrow> False | Some a \<Rightarrow> p a)"

definition unwrap_or :: "'a option \<Rightarrow> 'a \<Rightarrow> 'a" where
  "unwrap_or x d = (case x of None \<Rightarrow> d | Some a \<Rightarrow> a)"

lemma option_tests [simp]:
  "is_none_or None p" "is_none_or (Some a) p = p a"
  "\<not> is_some_and None p" "is_some_and (Some a) p = p a"
  "unwrap_or None d = d" "unwrap_or (Some a) d = a"
  by (simp_all add: is_none_or_def is_some_and_def unwrap_or_def)

text \<open>A \<open>for\<close> loop whose body may return early with an error.\<close>

fun try_fold :: "('s \<Rightarrow> 'a \<Rightarrow> 'e + 's) \<Rightarrow> 's \<Rightarrow> 'a list \<Rightarrow> 'e + 's" where
  "try_fold f s [] = Inr s"
| "try_fold f s (x # xs) = rbind (f s x) (\<lambda>s'. try_fold f s' xs)"

lemma try_fold_append: "try_fold f s (xs @ ys) = rbind (try_fold f s xs) (\<lambda>s'. try_fold f s' ys)"
  by (induction xs arbitrary: s) (auto simp: rbind_def split: sum.splits)

lemma try_fold_invariant:
  assumes "try_fold f s xs = Inr s'" and "P s"
    and "\<And>s x s'. P s \<Longrightarrow> x \<in> set xs \<Longrightarrow> f s x = Inr s' \<Longrightarrow> P s'"
  shows "P s'"
  using assms
proof (induction xs arbitrary: s)
  case Nil
  then show ?case by simp
next
  case (Cons x xs)
  from Cons.prems(1) obtain t where t: "f s x = Inr t" "try_fold f t xs = Inr s'"
    by (auto simp: rbind_eq_Inr_iff)
  show ?case
    by (rule Cons.IH [OF t(2)]) (use Cons.prems t(1) in \<open>auto\<close>)
qed

section \<open>Machine integers\<close>

definition checked_add :: "'w::len word \<Rightarrow> 'w word \<Rightarrow> 'w word option" where
  "checked_add a b = (if unat a + unat b < 2 ^ LENGTH('w) then Some (a + b) else None)"

definition saturating_add :: "'w::len word \<Rightarrow> 'w word \<Rightarrow> 'w word" where
  "saturating_add a b = (if unat a + unat b < 2 ^ LENGTH('w) then a + b else - 1)"

definition saturating_sub :: "'w::len word \<Rightarrow> 'w word \<Rightarrow> 'w word" where
  "saturating_sub a b = (if a < b then 0 else a - b)"

lemma unat_less_pow: "unat (a :: 'w::len word) < 2 ^ LENGTH('w)"
  by (rule unsigned_less)

lemma unat_minus_1: "unat (- 1 :: 'w::len word) = 2 ^ LENGTH('w) - 1"
  by (simp add: unsigned_minus_1_eq_mask mask_eq_exp_minus_1)

lemma checked_add_SomeD:
  "checked_add a b = Some c \<Longrightarrow> c = a + b \<and> unat c = unat a + unat b"
  by (auto simp: checked_add_def unat_word_ariths split: if_splits)

lemma checked_add_0 [simp]: "checked_add a 0 = Some a"
  by (simp add: checked_add_def)

lemma unat_saturating_add:
  fixes a b :: "'w::len word"
  shows "unat (saturating_add a b) = min (unat a + unat b) (2 ^ LENGTH('w) - 1)"
  by (auto simp: saturating_add_def unat_word_ariths unat_minus_1 min_def)

lemma saturating_add_ge: "a \<le> saturating_add a b"
  using unat_less_pow [of a]
  by (simp add: word_le_nat_alt unat_saturating_add del: unsigned_less)

lemma unat_saturating_add1:
  fixes a :: "'w::len word"
  assumes "a \<noteq> - 1"
  shows "unat (saturating_add a 1) = unat a + 1"
proof -
  have "unat a \<noteq> 2 ^ LENGTH('w) - 1"
    using assms by (simp add: word_unat_eq_iff unat_minus_1)
  with unat_less_pow [of a] have "unat a + 1 \<le> 2 ^ LENGTH('w) - 1"
    by linarith
  then show ?thesis
    by (simp add: unat_saturating_add min_def)
qed

lemma less_saturating_add1: "a \<noteq> - 1 \<Longrightarrow> a < saturating_add a 1"
  by (simp add: word_less_nat_alt unat_saturating_add1)

lemma unat_saturating_sub: "unat (saturating_sub a b) = unat a - unat b"
  by (auto simp: saturating_sub_def word_less_nat_alt unat_sub word_le_nat_alt)

section \<open>Decimal formatting\<close>

definition digit_char :: "nat \<Rightarrow> char" where
  "digit_char d = char_of (48 + d)"

fun show_nat :: "nat \<Rightarrow> string" where
  "show_nat n = (if n < 10 then [digit_char n] else show_nat (n div 10) @ [digit_char (n mod 10)])"

declare show_nat.simps [simp del]

definition show_word :: "'w::len word \<Rightarrow> string" where
  "show_word w = show_nat (unat w)"

section \<open>UTF-8\<close>

text \<open>
  A Rust \<open>str\<close> whose bytes matter is the list of its UTF-8 bytes; \<open>valid_utf8\<close> is the test
  \<open>str::from_utf8\<close> makes (the table of well-formed byte sequences of the Unicode standard).
\<close>

type_synonym utf8 = "u8 list"

definition utf8_tail :: "u8 \<Rightarrow> bool" where
  "utf8_tail b \<longleftrightarrow> 0x80 \<le> b \<and> b \<le> 0xBF"

definition utf8_second :: "u8 \<Rightarrow> u8 \<Rightarrow> bool" where
  "utf8_second lead b \<longleftrightarrow> utf8_tail b \<and>
     (lead = 0xE0 \<longrightarrow> 0xA0 \<le> b) \<and> (lead = 0xED \<longrightarrow> b \<le> 0x9F) \<and>
     (lead = 0xF0 \<longrightarrow> 0x90 \<le> b) \<and> (lead = 0xF4 \<longrightarrow> b \<le> 0x8F)"

definition utf8_width :: "u8 \<Rightarrow> nat" where
  "utf8_width b =
     (if b \<le> 0x7F then 1
      else if 0xC2 \<le> b \<and> b \<le> 0xDF then 2
      else if 0xE0 \<le> b \<and> b \<le> 0xEF then 3
      else if 0xF0 \<le> b \<and> b \<le> 0xF4 then 4
      else 0)"

fun valid_utf8 :: "utf8 \<Rightarrow> bool" where
  "valid_utf8 [] = True"
| "valid_utf8 (b # bs) =
     (if utf8_width b = 1 then valid_utf8 bs
      else if utf8_width b = 2
      then (case bs of c1 # rest \<Rightarrow> utf8_tail c1 \<and> valid_utf8 rest | [] \<Rightarrow> False)
      else if utf8_width b = 3
      then (case bs of c1 # c2 # rest \<Rightarrow> utf8_second b c1 \<and> utf8_tail c2 \<and> valid_utf8 rest | _ \<Rightarrow> False)
      else if utf8_width b = 4
      then (case bs of
          c1 # c2 # c3 # rest \<Rightarrow> utf8_second b c1 \<and> utf8_tail c2 \<and> utf8_tail c3 \<and> valid_utf8 rest
        | _ \<Rightarrow> False)
      else False)"

lemma valid_utf8_append: "valid_utf8 a \<Longrightarrow> valid_utf8 (a @ b) \<longleftrightarrow> valid_utf8 b"
  by (induction a rule: valid_utf8.induct) (auto split: if_splits list.splits)

lemma valid_utf8_ascii: "\<forall>b \<in> set bs. b \<le> 0x7F \<Longrightarrow> valid_utf8 bs"
  by (induction bs) (auto simp: utf8_width_def)

section \<open>Lines\<close>

text \<open>\<open>str::split\<close> at one separator, and \<open>join\<close>.\<close>

fun split_on :: "'a \<Rightarrow> 'a list \<Rightarrow> 'a list list" where
  "split_on c [] = [[]]"
| "split_on c (x # xs) =
     (if x = c then [] # split_on c xs
      else case split_on c xs of [] \<Rightarrow> [[x]] | l # ls \<Rightarrow> (x # l) # ls)"

fun join_with :: "'a \<Rightarrow> 'a list list \<Rightarrow> 'a list" where
  "join_with c [] = []"
| "join_with c [l] = l"
| "join_with c (l # ls) = l @ c # join_with c ls"

lemma split_on_not_Nil [simp]: "split_on c xs \<noteq> []"
  by (cases xs) (auto split: list.split)

lemma join_split_on: "join_with c (split_on c xs) = xs"
proof (induction xs)
  case Nil
  then show ?case by simp
next
  case (Cons x xs)
  obtain l ls where ls: "split_on c xs = l # ls"
    by (cases "split_on c xs") auto
  with Cons show ?case
    by (cases ls) auto
qed

lemma join_with_append:
  "xs \<noteq> [] \<Longrightarrow> ys \<noteq> [] \<Longrightarrow> join_with c (xs @ ys) = join_with c xs @ c # join_with c ys"
proof (induction c xs rule: join_with.induct)
  case (2 c l)
  then show ?case by (cases ys) auto
qed auto

lemma split_on_plain: "c \<notin> set l \<Longrightarrow> split_on c l = [l]"
  by (induction l) auto

lemma split_on_Cons_line: "c \<notin> set l \<Longrightarrow> split_on c (l @ c # xs) = l # split_on c xs"
  by (induction l) auto

lemma split_on_join: "ls \<noteq> [] \<Longrightarrow> \<forall>l \<in> set ls. c \<notin> set l \<Longrightarrow> split_on c (join_with c ls) = ls"
  by (induction c ls rule: join_with.induct) (auto simp: split_on_plain split_on_Cons_line)

lemma split_on_lines: "l \<in> set (split_on c xs) \<Longrightarrow> c \<notin> set l"
proof (induction xs arbitrary: l)
  case (Cons x xs)
  then show ?case by (auto split: if_splits list.splits)
qed simp

section \<open>Ordered maps\<close>

text \<open>
  The interface of \<open>BTreeMap\<close> that the sources use: \<open>get\<close>, \<open>insert\<close>, \<open>remove\<close> and
  iteration in ascending key order.
\<close>

locale ordered_map =
  fixes get :: "'m \<Rightarrow> 'k::linorder \<Rightarrow> 'v option"
    and ins :: "'k \<Rightarrow> 'v \<Rightarrow> 'm \<Rightarrow> 'm"
    and del :: "'k \<Rightarrow> 'm \<Rightarrow> 'm"
    and elems :: "'m \<Rightarrow> ('k \<times> 'v) list"
    and emp :: 'm
    and ok :: "'m \<Rightarrow> bool"
  assumes emp_ok: "ok emp" and emp_get: "get emp k = None"
    and ins_ok: "ok m \<Longrightarrow> ok (ins k v m)"
    and ins_get: "ok m \<Longrightarrow> get (ins k v m) = (get m)(k \<mapsto> v)"
    and del_ok: "ok m \<Longrightarrow> ok (del k m)"
    and del_get: "ok m \<Longrightarrow> get (del k m) = (get m)(k := None)"
    and elems_get: "ok m \<Longrightarrow> get m = map_of (elems m)"
    and elems_sorted: "ok m \<Longrightarrow> sorted_wrt (<) (map fst (elems m))"
begin

lemma elems_distinct: "ok m \<Longrightarrow> distinct (map fst (elems m))"
  using elems_sorted strict_sorted_iff by blast

lemma mem_elems_iff: "ok m \<Longrightarrow> (k, v) \<in> set (elems m) \<longleftrightarrow> get m k = Some v"
  by (simp add: elems_get elems_distinct)

lemma mem_values_iff: "ok m \<Longrightarrow> v \<in> snd ` set (elems m) \<longleftrightarrow> (\<exists>k. get m k = Some v)"
  by (auto simp: image_iff mem_elems_iff Bex_def split_paired_Ex)

lemma finite_dom_get: "ok m \<Longrightarrow> finite (dom (get m))"
  by (simp add: elems_get finite_dom_map_of)

lemma ins_ins_same: "ok m \<Longrightarrow> get (ins k v (ins k w m)) = get (ins k v m)"
  by (simp add: ins_ok ins_get)

lemma ins_ins_commute:
  "ok m \<Longrightarrow> k \<noteq> l \<Longrightarrow> get (ins k v (ins l w m)) = get (ins l w (ins k v m))"
  by (simp add: ins_ok ins_get fun_upd_twist)

end

text \<open>The instance: association lists with strictly ascending keys.\<close>

type_synonym ('k, 'v) btree_map = "('k \<times> 'v) list"

abbreviation bt_get :: "('k, 'v) btree_map \<Rightarrow> 'k \<Rightarrow> 'v option" where
  "bt_get m \<equiv> map_of m"

fun bt_insert :: "'k::linorder \<Rightarrow> 'v \<Rightarrow> ('k, 'v) btree_map \<Rightarrow> ('k, 'v) btree_map" where
  "bt_insert k v [] = [(k, v)]"
| "bt_insert k v ((l, w) # m) =
     (if k < l then (k, v) # (l, w) # m
      else if l < k then (l, w) # bt_insert k v m
      else (k, v) # m)"

definition bt_remove :: "'k \<Rightarrow> ('k, 'v) btree_map \<Rightarrow> ('k, 'v) btree_map" where
  "bt_remove k m = filter (\<lambda>(l, w). l \<noteq> k) m"

definition bt_contains :: "('k, 'v) btree_map \<Rightarrow> 'k \<Rightarrow> bool" where
  "bt_contains m k = (bt_get m k \<noteq> None)"

definition bt_values :: "('k, 'v) btree_map \<Rightarrow> 'v list" where
  "bt_values m = map snd m"

definition bt_ok :: "('k::linorder, 'v) btree_map \<Rightarrow> bool" where
  "bt_ok m = sorted_wrt (<) (map fst m)"

lemma bt_contains_iff [simp]: "bt_contains m k \<longleftrightarrow> k \<in> dom (bt_get m)"
  by (auto simp: bt_contains_def)

lemma fst_bt_insert: "fst ` set (bt_insert k v m) = insert k (fst ` set m)"
proof (induction m)
  case (Cons p m)
  then show ?case
    by (cases p) auto
qed simp

lemma bt_get_insert: "bt_get (bt_insert k v m) = (bt_get m)(k \<mapsto> v)"
proof (induction m)
  case (Cons p m)
  then show ?case
    by (cases p) (auto simp: fun_eq_iff)
qed simp

lemma bt_ok_insert: "bt_ok m \<Longrightarrow> bt_ok (bt_insert k v m)"
  unfolding bt_ok_def
proof (induction m)
  case (Cons p m)
  show ?case
  proof (cases p)
    case (Pair l w)
    with Cons fst_bt_insert [of k v m] show ?thesis
      by (auto simp: image_iff)
  qed
qed simp

lemma bt_get_remove: "bt_get (bt_remove k m) = (bt_get m)(k := None)"
  by (induction m) (auto simp: bt_remove_def fun_eq_iff)

lemma sorted_wrt_map_filter: "sorted_wrt P (map f xs) \<Longrightarrow> sorted_wrt P (map f (filter Q xs))"
  by (induction xs) auto

lemma bt_ok_remove: "bt_ok m \<Longrightarrow> bt_ok (bt_remove k m)"
  by (simp add: bt_ok_def bt_remove_def sorted_wrt_map_filter)

interpretation bt: ordered_map bt_get bt_insert bt_remove "\<lambda>m. m" "[]" bt_ok
  by unfold_locales
    (simp_all add: bt_ok_insert bt_get_insert bt_ok_remove bt_get_remove, simp_all add: bt_ok_def)

lemmas bt_simps = bt.emp_ok bt.ins_ok bt.ins_get bt.del_ok bt.del_get

lemma mem_bt_values_iff: "bt_ok m \<Longrightarrow> v \<in> set (bt_values m) \<longleftrightarrow> (\<exists>k. bt_get m k = Some v)"
  using bt.mem_values_iff [of m v] by (simp add: bt_values_def)

lemma bt_values_insert_last:
  "(\<forall>l \<in> fst ` set m. l < k) \<Longrightarrow> bt_insert k v m = m @ [(k, v)]"
  by (induction m) auto

section \<open>Lists sorted by a key\<close>

lemma sort_key_strict:
  assumes "distinct (map f xs)"
  shows "sorted_wrt (<) (map f (sort_key f xs))"
proof -
  have "distinct (map f (sort_key f xs))"
    using assms by (metis distinct_map distinct_sort set_sort)
  then show ?thesis
    by (simp add: strict_sorted_iff)
qed

lemma sort_key_perm:
  "mset xs = mset ys \<Longrightarrow> inj_on f (set xs) \<Longrightarrow> sort_key f xs = sort_key f ys"
  by (rule sort_key_inj_key_eq) simp_all

end
