(* ===== verification/Session_Types.thy ===== *)
theory Session_Types
  imports Prelude
begin

text \<open>
  The data model of the durable session: provider messages (\<open>pi-ai/src/types.rs\<close>), agent
  messages (\<open>pi-agent/src/message.rs\<close>), entries (\<open>session/entry.rs\<close>), lane state
  (\<open>session/lane_state.rs\<close>) and errors (\<open>session/error.rs\<close>).

  \<^item> \<open>'j\<close> stands for \<open>serde_json::Value\<close>, which the session stores and returns without
    looking into it; the encodings the session layer asks serde for are fields of the record
    \<open>serde\<close>, a parameter of the operations that use them.
  \<^item> \<open>'f\<close> stands for \<open>f64\<close>; only addition and the default zero are used, through the type
    classes \<open>plus\<close> and \<open>zero\<close>, so that no law of exact arithmetic is assumed.
  \<^item> The fields whose type has a single value (\<open>kind\<close> and \<open>role\<close> tags) are left out.
  \<^item> Identifier newtypes over \<open>String\<close> are \<open>string\<close>: the sources compare them as strings.
\<close>

section \<open>Identifiers\<close>

type_synonym entry_id = string
type_synonym operation_id = string
type_synonym usage_id = string
type_synonym lane_name = string

section \<open>Provider messages\<close>

datatype stop_reason =
  Sr_Stop | Sr_Length | Sr_ToolUse | Sr_Pending | Sr_Deferred | Sr_Error | Sr_Aborted

record text_content =
  tc_text :: string
  tc_text_signature :: "string option"

record thinking_content =
  th_thinking :: string
  th_thinking_signature :: "string option"
  th_redacted :: "bool option"

record image_content =
  ic_data :: string
  ic_mime_type :: string

record 'j tool_call =
  tl_id :: string
  tl_name :: string
  tl_arguments :: "(string \<times> 'j) list"
  tl_thought_signature :: "string option"
  tl_namespace :: "string option"

record 'f usage_cost =
  uc_input :: 'f
  uc_output :: 'f
  uc_cache_read :: 'f
  uc_cache_write :: 'f
  uc_total :: 'f

record 'f usage =
  us_input :: u64
  us_output :: u64
  us_cache_read :: u64
  us_cache_write :: u64
  us_cache_write1h :: "u64 option"
  us_reasoning :: "u64 option"
  us_total_tokens :: u64
  us_cost :: "'f usage_cost"

definition usage_cost_default :: "'f::zero usage_cost" where
  "usage_cost_default =
     \<lparr>uc_input = 0, uc_output = 0, uc_cache_read = 0, uc_cache_write = 0, uc_total = 0\<rparr>"

definition usage_default :: "'f::zero usage" where
  "usage_default =
     \<lparr>us_input = 0, us_output = 0, us_cache_read = 0, us_cache_write = 0,
      us_cache_write1h = None, us_reasoning = None, us_total_tokens = 0,
      us_cost = usage_cost_default\<rparr>"

text \<open>A numeric diagnostic code is a \<open>serde_json::Number\<close>, carried as the JSON value it is.\<close>

datatype 'j diagnostic_code = DiagnosticString string | DiagnosticNumber 'j

record 'j diagnostic_error_info =
  de_name :: "string option"
  de_message :: string
  de_stack :: "string option"
  de_code :: "'j diagnostic_code option"

record 'j assistant_message_diagnostic =
  ad_kind :: string
  ad_timestamp :: i64
  ad_error :: "'j diagnostic_error_info option"
  ad_details :: "(string \<times> 'j) list option"

datatype user_content = UserText text_content | UserImage image_content

datatype user_message_content = UserMessageText string | UserMessageBlocks "user_content list"

datatype 'j assistant_content =
    AssistantText text_content
  | AssistantThinking thinking_content
  | AssistantToolCall "'j tool_call"

datatype tool_result_content = ToolResultText text_content | ToolResultImage image_content

datatype system_message_content =
  SystemMessageText string | SystemMessageBlocks "text_content list"

record tool_reference =
  tr_name :: string

datatype strict_mode = Prefer | Require

record grammar_variants =
  gv_openai_lark :: "string option"
  gv_openai_regex :: "string option"

datatype constrained_sampling_config = JsonSchema strict_mode | Grammar grammar_variants

datatype constrained_sampling = Disabled | Config constrained_sampling_config

record 'j tool =
  to_name :: string
  to_description :: string
  to_parameters :: 'j
  to_constrained_sampling :: "constrained_sampling option"

record 'j system_message =
  sm_content :: system_message_content
  sm_sections :: "(string \<times> string option) list option"
  sm_tools_added :: "'j tool list option"
  sm_tools_removed :: "tool_reference list option"
  sm_timestamp :: i64

record user_message =
  um_content :: user_message_content
  um_timestamp :: i64

record ('j, 'f) deferred_handle =
  dh_provider :: string
  dh_model_id :: string
  dh_api :: string
  dh_id :: string
  dh_expires_at :: "'f option"
  dh_poll_after_ms :: "'f option"
  dh_data :: "'j option"

record ('j, 'f) assistant_message =
  am_content :: "'j assistant_content list"
  am_api :: string
  am_provider :: string
  am_model :: string
  am_response_model :: "string option"
  am_response_id :: "string option"
  am_provider_thinking_level :: "string option"
  am_diagnostics :: "'j assistant_message_diagnostic list option"
  am_usage :: "'f usage"
  am_stop_reason :: stop_reason
  am_deferred :: "('j, 'f) deferred_handle option"
  am_error_message :: "string option"
  am_raw_stop_reason :: "string option"
  am_end_turn :: "bool option"
  am_timestamp :: i64

definition assistant_message_new ::
  "string \<Rightarrow> string \<Rightarrow> string \<Rightarrow> i64 \<Rightarrow> ('j, 'f::zero) assistant_message" where
  "assistant_message_new api provider model timestamp =
     \<lparr>am_content = [], am_api = api, am_provider = provider, am_model = model,
      am_response_model = None, am_response_id = None, am_provider_thinking_level = None,
      am_diagnostics = None, am_usage = usage_default, am_stop_reason = Sr_Stop,
      am_deferred = None, am_error_message = None, am_raw_stop_reason = None,
      am_end_turn = None, am_timestamp = timestamp\<rparr>"

record 'j tool_result_message =
  rm_tool_call_id :: string
  rm_tool_name :: string
  rm_content :: "tool_result_content list"
  rm_details :: "'j option"
  rm_added_tool_names :: "string list option"
  rm_is_error :: bool
  rm_timestamp :: i64

datatype ('j, 'f) llm_message =
    System "'j system_message"
  | User user_message
  | Assistant "('j, 'f) assistant_message"
  | ToolResult "'j tool_result_message"

section \<open>Agent messages\<close>

record 'j custom_agent_message =
  cm_role :: string
  cm_payload :: "(string \<times> 'j) list"

definition custom_agent_message_new ::
  "string \<Rightarrow> (string \<times> 'j) list \<Rightarrow> 'j custom_agent_message" where
  "custom_agent_message_new role payload =
     \<lparr>cm_role = role, cm_payload = filter (\<lambda>(k, v). k \<noteq> ''role'') payload\<rparr>"

datatype ('j, 'f) agent_message =
    Llm "('j, 'f) llm_message"
  | CustomMessage "'j custom_agent_message"

fun agent_message_role :: "('j, 'f) agent_message \<Rightarrow> string" where
  "agent_message_role (Llm (System m)) = ''system''"
| "agent_message_role (Llm (User m)) = ''user''"
| "agent_message_role (Llm (Assistant m)) = ''assistant''"
| "agent_message_role (Llm (ToolResult m)) = ''toolResult''"
| "agent_message_role (CustomMessage m) = cm_role m"

fun as_llm :: "('j, 'f) agent_message \<Rightarrow> ('j, 'f) llm_message option" where
  "as_llm (Llm m) = Some m"
| "as_llm (CustomMessage m) = None"

definition default_convert_to_llm ::
  "('j, 'f) agent_message list \<Rightarrow> ('j, 'f) llm_message list" where
  "default_convert_to_llm messages = List.map_filter as_llm messages"

definition user_text_content :: "string \<Rightarrow> image_content list \<Rightarrow> user_message_content" where
  "user_text_content text images =
     (if images = [] then UserMessageText text
      else UserMessageBlocks
        (UserText \<lparr>tc_text = text, tc_text_signature = None\<rparr> # map UserImage images))"

text \<open>\<open>user_text\<close> reads the clock; the time is an argument here.\<close>

definition user_text :: "string \<Rightarrow> image_content list \<Rightarrow> i64 \<Rightarrow> ('j, 'f) agent_message" where
  "user_text text images now =
     Llm (User \<lparr>um_content = user_text_content text images, um_timestamp = now\<rparr>)"

section \<open>Errors\<close>

datatype storage_error_code =
  NotFound | InvalidHeader | VersionMismatch | Corrupt | Io | Closed | Aborted

text \<open>The cause of a storage failure is kept as the text it displays.\<close>

record storage_failure =
  sf_code :: storage_error_code
  sf_message :: string
  sf_source :: "string option"

definition storage_failure_new :: "storage_error_code \<Rightarrow> string \<Rightarrow> storage_failure" where
  "storage_failure_new code message = \<lparr>sf_code = code, sf_message = message, sf_source = None\<rparr>"

fun storage_error_code_name :: "storage_error_code \<Rightarrow> string" where
  "storage_error_code_name NotFound = ''not_found''"
| "storage_error_code_name InvalidHeader = ''invalid_header''"
| "storage_error_code_name VersionMismatch = ''version_mismatch''"
| "storage_error_code_name Corrupt = ''corrupt''"
| "storage_error_code_name Io = ''io''"
| "storage_error_code_name Closed = ''closed''"
| "storage_error_code_name Aborted = ''aborted''"

datatype session_error =
    Invariant string
  | InvalidBranch lane_name string
  | BranchExists lane_name
  | PendingAssistantMessage
  | UnknownTarget entry_id
  | Backend storage_failure

text \<open>The \<open>Display\<close> form of an error, used as the cause of the failures the backends wrap.\<close>

fun session_error_text :: "session_error \<Rightarrow> string" where
  "session_error_text (Invariant m) = ''session invariant violated: '' @ m"
| "session_error_text (InvalidBranch branch reason) = ''invalid branch '' @ branch @ '': '' @ reason"
| "session_error_text (BranchExists branch) = ''branch already exists: '' @ branch"
| "session_error_text PendingAssistantMessage = ''assistant message is still pending and cannot be committed''"
| "session_error_text (UnknownTarget i) = ''unknown target entry: '' @ i"
| "session_error_text (Backend f) = storage_error_code_name (sf_code f) @ '': '' @ sf_message f"

section \<open>Entries\<close>

record entry_base =
  eb_id :: entry_id
  eb_parent_id :: "entry_id option"
  eb_seq :: u64
  eb_timestamp :: i64
  eb_custom_type :: "string option"

datatype ('j, 'f) entry =
    EntryMessage entry_base "('j, 'f) agent_message" bool
  | EntryCompaction entry_base string "('j, 'f) agent_message list" u64 "'j option" "'f usage option" bool
  | EntryBranchSummary entry_base "entry_id option" string "'j option" "'f usage option" bool
  | EntryCustom entry_base string "'j option"

datatype entry_type = Et_Message | Et_Compaction | Et_BranchSummary | Et_Custom

fun base_of :: "('j, 'f) entry \<Rightarrow> entry_base" where
  "base_of (EntryMessage base _ _) = base"
| "base_of (EntryCompaction base _ _ _ _ _ _) = base"
| "base_of (EntryBranchSummary base _ _ _ _ _) = base"
| "base_of (EntryCustom base _ _) = base"

definition entry_id :: "('j, 'f) entry \<Rightarrow> entry_id" where
  "entry_id e = eb_id (base_of e)"

definition entry_parent_id :: "('j, 'f) entry \<Rightarrow> entry_id option" where
  "entry_parent_id e = eb_parent_id (base_of e)"

definition entry_seq :: "('j, 'f) entry \<Rightarrow> u64" where
  "entry_seq e = eb_seq (base_of e)"

definition entry_timestamp :: "('j, 'f) entry \<Rightarrow> i64" where
  "entry_timestamp e = eb_timestamp (base_of e)"

fun type_of_entry :: "('j, 'f) entry \<Rightarrow> entry_type" where
  "type_of_entry (EntryMessage _ _ _) = Et_Message"
| "type_of_entry (EntryCompaction _ _ _ _ _ _ _) = Et_Compaction"
| "type_of_entry (EntryBranchSummary _ _ _ _ _ _) = Et_BranchSummary"
| "type_of_entry (EntryCustom _ _ _) = Et_Custom"

fun entry_message :: "('j, 'f) entry \<Rightarrow> ('j, 'f) agent_message option" where
  "entry_message (EntryMessage _ m _) = Some m"
| "entry_message (EntryCompaction _ _ _ _ _ _ _) = None"
| "entry_message (EntryBranchSummary _ _ _ _ _ _) = None"
| "entry_message (EntryCustom _ _ _) = None"

fun entry_custom_type :: "('j, 'f) entry \<Rightarrow> string option" where
  "entry_custom_type (EntryCustom _ custom_type _) = Some custom_type"
| "entry_custom_type (EntryMessage base _ _) = eb_custom_type base"
| "entry_custom_type (EntryCompaction base _ _ _ _ _ _) = eb_custom_type base"
| "entry_custom_type (EntryBranchSummary base _ _ _ _ _) = eb_custom_type base"

datatype ('j, 'f) new_entry_body =
    BodyMessage "('j, 'f) agent_message" bool
  | BodyCompaction string "('j, 'f) agent_message list" u64 "'j option" "'f usage option" bool
  | BodyBranchSummary "entry_id option" string "'j option" "'f usage option" bool
  | BodyCustom string "'j option"

record ('j, 'f) new_entry =
  ne_id :: entry_id
  ne_parent_id :: "entry_id option"
  ne_body :: "('j, 'f) new_entry_body"

fun materialize_body :: "entry_base \<Rightarrow> ('j, 'f) new_entry_body \<Rightarrow> ('j, 'f) entry" where
  "materialize_body base (BodyMessage message terminate) = EntryMessage base message terminate"
| "materialize_body base (BodyCompaction summary tail tokens details usage from_hook) =
     EntryCompaction base summary tail tokens details usage from_hook"
| "materialize_body base (BodyBranchSummary from_id summary details usage from_hook) =
     EntryBranchSummary base from_id summary details usage from_hook"
| "materialize_body base (BodyCustom custom_type data) = EntryCustom base custom_type data"

definition materialize :: "('j, 'f) new_entry \<Rightarrow> u64 \<Rightarrow> i64 \<Rightarrow> ('j, 'f) entry" where
  "materialize ne seq timestamp =
     materialize_body
       \<lparr>eb_id = ne_id ne, eb_parent_id = ne_parent_id ne, eb_seq = seq,
        eb_timestamp = timestamp, eb_custom_type = None\<rparr>
       (ne_body ne)"

lemma base_of_materialize_body [simp]: "base_of (materialize_body b body) = b"
  by (cases body) simp_all

lemma materialize_sel [simp]:
  "entry_id (materialize ne seq ts) = ne_id ne"
  "entry_parent_id (materialize ne seq ts) = ne_parent_id ne"
  "entry_seq (materialize ne seq ts) = seq"
  "entry_timestamp (materialize ne seq ts) = ts"
  by (simp_all add: materialize_def entry_id_def entry_parent_id_def entry_seq_def
      entry_timestamp_def)

text \<open>
  The pending-message test that both commit validation and branch appends make: an assistant
  message whose stop reason is \<open>Pending\<close>.
\<close>

fun pending_assistant :: "('j, 'f) new_entry_body \<Rightarrow> bool" where
  "pending_assistant (BodyMessage (Llm (Assistant m)) _) = (am_stop_reason m = Sr_Pending)"
| "pending_assistant _ = False"

definition settled_assistant_message_new ::
  "('j, 'f) assistant_message \<Rightarrow> unit + ('j, 'f) assistant_message" where
  "settled_assistant_message_new m = (if am_stop_reason m = Sr_Pending then Inl () else Inr m)"

section \<open>Lane state\<close>

datatype inbox_item_kind = Steer | FollowUp | NextRun | WriteItem

record inbox_item =
  ii_entry_id :: entry_id
  ii_kind :: inbox_item_kind

record lane_state =
  ls_current_operation_id :: "operation_id option"
  ls_last_operation_id :: "operation_id option"
  ls_inbox :: "inbox_item list"

definition lane_state_default :: lane_state where
  "lane_state_default =
     \<lparr>ls_current_operation_id = None, ls_last_operation_id = None, ls_inbox = []\<rparr>"

section \<open>The serde encodings the session layer uses\<close>

text \<open>
  \<open>serde_json::to_value\<close> and \<open>from_value\<close> at the types the session layer uses them with.
  Errors are the text of \<open>serde_json::Error\<close>. \<open>serde_tip_ok\<close> states what the session relies
  on: encoding a branch tip succeeds and decoding it gives the tip back.
\<close>

record 'j serde =
  sd_tip_to_value :: "entry_id option \<Rightarrow> string + 'j"
  sd_tip_from_value :: "'j \<Rightarrow> string + entry_id option"
  sd_lane_state_to_value :: "lane_state \<Rightarrow> string + 'j"
  sd_string_value :: "string \<Rightarrow> 'j"
  sd_string_from_value :: "'j \<Rightarrow> string + string"

definition serde_tip_ok :: "'j serde \<Rightarrow> bool" where
  "serde_tip_ok sd \<longleftrightarrow>
     (\<forall>tip. \<exists>j. sd_tip_to_value sd tip = Inr j \<and> sd_tip_from_value sd j = Inr tip)"

definition serde_lane_state_ok :: "'j serde \<Rightarrow> bool" where
  "serde_lane_state_ok sd \<longleftrightarrow> (\<exists>j. sd_lane_state_to_value sd lane_state_default = Inr j)"

definition serde_string_ok :: "'j serde \<Rightarrow> bool" where
  "serde_string_ok sd \<longleftrightarrow> (\<forall>s. sd_string_from_value sd (sd_string_value sd s) = Inr s)"

end
