(* ===== verification/Session_Address.thy ===== *)
theory Session_Address
  imports Session_Types
begin

text \<open>
  Durable addresses (\<open>session/address.rs\<close>) and the query types of the storage scans
  (\<open>session/scan.rs\<close>). The address helpers join identifiers with \<open>:\<close>; the lemmas show that
  the prefixes used for cleanup select exactly the slots of one operation, provided operation
  ids do not contain the separator, which admission checks.
\<close>

section \<open>Addresses\<close>

datatype address_kind = Ak_Value | Ak_List

text \<open>\<open>Value<T>\<close> and \<open>ValueList<T>\<close>: the type parameter is a phantom.\<close>

record value_address =
  va_namespace :: string
  va_key :: string

record value_list_address =
  vl_namespace :: string
  vl_key :: string

record raw_address =
  ra_namespace :: string
  ra_key :: string
  ra_kind :: address_kind

datatype invalid_address = InvalidAddress

definition nul :: char where
  "nul = CHR 0x00"

definition validate :: "string \<Rightarrow> string \<Rightarrow> invalid_address + unit" where
  "validate namespace key =
     (if namespace = [] \<or> nul \<in> set namespace \<or> nul \<in> set key then Inl InvalidAddress else Inr ())"

definition value_new :: "string \<Rightarrow> string \<Rightarrow> invalid_address + value_address" where
  "value_new namespace key =
     rbind (validate namespace key) (\<lambda>_. Inr \<lparr>va_namespace = namespace, va_key = key\<rparr>)"

definition value_list_new :: "string \<Rightarrow> string \<Rightarrow> invalid_address + value_list_address" where
  "value_list_new namespace key =
     rbind (validate namespace key) (\<lambda>_. Inr \<lparr>vl_namespace = namespace, vl_key = key\<rparr>)"

definition raw_value :: "string \<Rightarrow> string \<Rightarrow> raw_address" where
  "raw_value namespace key = \<lparr>ra_namespace = namespace, ra_key = key, ra_kind = Ak_Value\<rparr>"

definition raw_list :: "string \<Rightarrow> string \<Rightarrow> raw_address" where
  "raw_list namespace key = \<lparr>ra_namespace = namespace, ra_key = key, ra_kind = Ak_List\<rparr>"

definition erase_value :: "value_address \<Rightarrow> raw_address" where
  "erase_value a = raw_value (va_namespace a) (va_key a)"

definition erase_list :: "value_list_address \<Rightarrow> raw_address" where
  "erase_list a = raw_list (vl_namespace a) (vl_key a)"

definition address :: "string \<Rightarrow> string \<Rightarrow> value_address" where
  "address namespace key = \<lparr>va_namespace = namespace, va_key = key\<rparr>"

definition list_address :: "string \<Rightarrow> string \<Rightarrow> value_list_address" where
  "list_address namespace key = \<lparr>vl_namespace = namespace, vl_key = key\<rparr>"

definition branch_tip :: "string \<Rightarrow> value_address" where
  "branch_tip branch = address ''pi.branch.tip'' branch"

definition branch_tip_inventory_prefix :: value_address where
  "branch_tip_inventory_prefix = address ''pi.branch.tip'' []"

definition lane_config :: "lane_name \<Rightarrow> value_address" where
  "lane_config lane = address ''pi.lane.config'' lane"

definition lane_state_address :: "lane_name \<Rightarrow> value_address" where
  "lane_state_address lane = address ''pi.lane.state'' lane"

definition operation_result :: "operation_id \<Rightarrow> value_address" where
  "operation_result op = address ''pi.result'' op"

definition operation_meta :: "operation_id \<Rightarrow> value_address" where
  "operation_meta op = address ''pi.op.meta'' op"

definition operation_state :: "operation_id \<Rightarrow> value_address" where
  "operation_state op = address ''pi.op.state'' op"

definition operation_tool_args :: "operation_id \<Rightarrow> string \<Rightarrow> u32 \<Rightarrow> value_address" where
  "operation_tool_args op step source_index =
     address ''pi.op.tool_args'' (op @ '':'' @ step @ '':'' @ show_word source_index)"

definition operation_tool_memo :: "operation_id \<Rightarrow> entry_id \<Rightarrow> string \<Rightarrow> value_address" where
  "operation_tool_memo op invocation name = address ''pi.op.tool_memo'' (op @ '':'' @ invocation @ '':'' @ name)"

definition operation_preparation :: "operation_id \<Rightarrow> string \<Rightarrow> value_address" where
  "operation_preparation op task = address ''pi.op.preparation'' (op @ '':'' @ task)"

definition operation_tool_args_prefix :: "operation_id \<Rightarrow> string option \<Rightarrow> value_address" where
  "operation_tool_args_prefix op step =
     address ''pi.op.tool_args''
       (case step of None \<Rightarrow> op @ '':'' | Some s \<Rightarrow> op @ '':'' @ s @ '':'')"

definition operation_tool_memo_prefix :: "operation_id \<Rightarrow> entry_id option \<Rightarrow> value_address" where
  "operation_tool_memo_prefix op invocation =
     address ''pi.op.tool_memo''
       (case invocation of None \<Rightarrow> op @ '':'' | Some i \<Rightarrow> op @ '':'' @ i @ '':'')"

definition operation_preparation_prefix :: "operation_id \<Rightarrow> value_address" where
  "operation_preparation_prefix op = address ''pi.op.preparation'' (op @ '':'')"

definition pending_entry :: "entry_id \<Rightarrow> value_address" where
  "pending_entry entry = address ''pi.pending.entry'' entry"

definition pending_tool_output :: "operation_id \<Rightarrow> entry_id \<Rightarrow> value_address" where
  "pending_tool_output op invocation = address ''pi.pending.tool_output'' (op @ '':'' @ invocation)"

definition pending_tool_output_prefix :: "operation_id \<Rightarrow> value_address" where
  "pending_tool_output_prefix op = address ''pi.pending.tool_output'' (op @ '':'')"

definition pending_assistant_frames :: "operation_id \<Rightarrow> entry_id \<Rightarrow> value_list_address" where
  "pending_assistant_frames op response =
     list_address ''pi.pending.assistant_frame'' (op @ '':'' @ response)"

definition session_name :: value_address where
  "session_name = address ''pi.session.name'' []"

definition entry_label :: "entry_id \<Rightarrow> value_address" where
  "entry_label entry = address ''pi.entry.label'' entry"

lemma address_sel [simp]:
  "va_namespace (address ns k) = ns" "va_key (address ns k) = k"
  "vl_namespace (list_address ns k) = ns" "vl_key (list_address ns k) = k"
  by (simp_all add: address_def list_address_def)

lemma erase_sel [simp]:
  "ra_namespace (erase_value a) = va_namespace a" "ra_key (erase_value a) = va_key a"
  "ra_namespace (erase_list l) = vl_namespace l" "ra_key (erase_list l) = vl_key l"
  by (simp_all add: erase_value_def erase_list_def raw_value_def raw_list_def)

lemma validate_Inr_iff:
  "validate ns k = Inr u \<longleftrightarrow> ns \<noteq> [] \<and> nul \<notin> set ns \<and> nul \<notin> set k"
  by (simp add: validate_def)

section \<open>Scans\<close>

datatype scan_order = Asc | Desc

record entry_cursor =
  ec_seq :: u64

record branch_scan =
  bs_start :: "entry_id option"
  bs_stop_at_type :: "entry_type option"
  bs_stop_at_id :: "entry_id option"
  bs_entry_type :: "entry_type option"
  bs_custom_type :: "string option"
  bs_order :: "scan_order option"
  bs_limit :: "u32 option"
  bs_cursor :: "entry_cursor option"

record storage_branch_scan =
  sb_start :: entry_id
  sb_stop_at_type :: "entry_type option"
  sb_stop_at_id :: "entry_id option"
  sb_entry_type :: "entry_type option"
  sb_custom_type :: "string option"
  sb_order :: "scan_order option"
  sb_limit :: "u32 option"
  sb_cursor :: "entry_cursor option"

record entry_query =
  eq_entry_type :: "entry_type option"
  eq_custom_type :: "string option"
  eq_order :: "scan_order option"
  eq_limit :: "u32 option"
  eq_cursor :: "entry_cursor option"

record entry_scan =
  es_from_seq :: "u64 option"
  es_to_seq :: "u64 option"
  es_order :: "scan_order option"
  es_limit :: "u32 option"
  es_entry_type :: "entry_type option"
  es_custom_type :: "string option"

record usage_scan =
  uq_from_seq :: "u64 option"
  uq_to_seq :: "u64 option"
  uq_order :: "scan_order option"
  uq_limit :: "u32 option"

definition branch_scan_default :: branch_scan where
  "branch_scan_default =
     \<lparr>bs_start = None, bs_stop_at_type = None, bs_stop_at_id = None, bs_entry_type = None,
      bs_custom_type = None, bs_order = None, bs_limit = None, bs_cursor = None\<rparr>"

definition entry_query_default :: entry_query where
  "entry_query_default =
     \<lparr>eq_entry_type = None, eq_custom_type = None, eq_order = None, eq_limit = None,
      eq_cursor = None\<rparr>"

record entry_structure =
  et_id :: entry_id
  et_parent_id :: "entry_id option"
  et_seq :: u64
  et_timestamp :: i64
  et_entry_type :: entry_type
  et_custom_type :: "string option"

definition entry_structure_from :: "('j, 'f) entry \<Rightarrow> entry_structure" where
  "entry_structure_from e =
     \<lparr>et_id = entry_id e, et_parent_id = entry_parent_id e, et_seq = entry_seq e,
      et_timestamp = entry_timestamp e, et_entry_type = type_of_entry e,
      et_custom_type = entry_custom_type e\<rparr>"

record 'j raw_stored_value =
  rv_namespace :: string
  rv_key :: string
  rv_kind :: address_kind
  rv_value :: 'j
  rv_seq :: u64

record 'j raw_list_element =
  rl_seq :: u64
  rl_value :: 'j

text \<open>The wire spelling of branch scan orders.\<close>

definition branch_order_serialize :: "scan_order option \<Rightarrow> string option" where
  "branch_order_serialize order =
     map_option (\<lambda>x. case x of Asc \<Rightarrow> ''oldestFirst'' | Desc \<Rightarrow> ''newestFirst'') order"

definition branch_order_deserialize :: "string option \<Rightarrow> string + scan_order option" where
  "branch_order_deserialize order =
     (case order of
        None \<Rightarrow> Inr None
      | Some s \<Rightarrow>
          if s = ''oldestFirst'' then Inr (Some Asc)
          else if s = ''newestFirst'' then Inr (Some Desc)
          else Inl ''invalid branch scan order'')"

section \<open>List read windows\<close>

record list_cursor =
  lc_seq :: u64

record list_read_options =
  lo_cursor :: "list_cursor option"
  lo_order :: "scan_order option"
  lo_limit :: "u32 option"

record resolved_list_read_options =
  ro_cursor :: "list_cursor option"
  ro_order :: scan_order
  ro_limit :: u32

definition list_read_options_default :: list_read_options where
  "list_read_options_default = \<lparr>lo_cursor = None, lo_order = None, lo_limit = None\<rparr>"

definition LIST_READ_DEFAULT_LIMIT :: u32 where
  "LIST_READ_DEFAULT_LIMIT = 1000"

definition LIST_READ_MAX_LIMIT :: u32 where
  "LIST_READ_MAX_LIMIT = 10000"

definition resolve_list_read_options ::
  "list_read_options option \<Rightarrow> invalid_address + resolved_list_read_options" where
  "resolve_list_read_options options =
     (let options = unwrap_or options list_read_options_default;
          limit = unwrap_or (lo_limit options) LIST_READ_DEFAULT_LIMIT
      in if limit = 0 then Inl InvalidAddress
         else Inr \<lparr>ro_cursor = lo_cursor options,
                   ro_order = unwrap_or (lo_order options) Asc,
                   ro_limit = min limit LIST_READ_MAX_LIMIT\<rparr>)"

text \<open>The limit the entry, usage and branch scans apply.\<close>

definition scan_limit :: "u32 option \<Rightarrow> nat" where
  "scan_limit limit = unat (min (unwrap_or limit LIST_READ_DEFAULT_LIMIT) LIST_READ_MAX_LIMIT)"

lemma scan_limit_le: "scan_limit limit \<le> 10000"
proof -
  have "min (unwrap_or limit LIST_READ_DEFAULT_LIMIT) LIST_READ_MAX_LIMIT \<le> (10000 :: u32)"
    by (simp add: LIST_READ_MAX_LIMIT_def)
  then show ?thesis
    by (simp add: scan_limit_def word_le_nat_alt)
qed

lemma resolve_limit_bounds:
  assumes "resolve_list_read_options options = Inr r"
  shows "0 < unat (ro_limit r) \<and> unat (ro_limit r) \<le> 10000"
proof -
  from assms obtain l where l: "l \<noteq> 0" "ro_limit r = min l LIST_READ_MAX_LIMIT"
    by (auto simp: resolve_list_read_options_def Let_def split: if_splits)
  have "ro_limit r \<noteq> 0" and "ro_limit r \<le> 10000"
    using l by (auto simp: LIST_READ_MAX_LIMIT_def min_def)
  then show ?thesis
    by (simp add: word_le_nat_alt word_unat_eq_iff)
qed

section \<open>Composite keys\<close>

text \<open>A key built from an operation id and the separator determines the operation id.\<close>

lemma prefix_sep_iff:
  assumes "c \<notin> set xs" and "c \<notin> set ys"
  shows "prefix (xs @ [c]) (ys @ c # zs) \<longleftrightarrow> xs = ys"
  using assms
proof (induction xs arbitrary: ys)
  case Nil
  then show ?case by (cases ys) auto
next
  case (Cons x xs)
  then show ?case by (cases ys) auto
qed

end
