(* ===== verification/Session_Write.thy ===== *)
theory Session_Write
  imports Session_Address
begin

text \<open>
  Proposed and committed writes and the two batch validators every backend shares
  (\<open>session/write.rs\<close>). \<open>batch_ok\<close> and \<open>replay_ok\<close> state the admission rules declaratively;
  the validators are shown to accept exactly the batches that satisfy them.
\<close>

section \<open>Writes\<close>

datatype 'j value_write = ValueSet string string 'j | ValueDelete string string

datatype 'j list_write = ListAppend string string 'j | ListDelete string string

record ('j, 'f) usage_row =
  ur_id :: usage_id
  ur_seq :: u64
  ur_usage :: "'f usage"
  ur_entry_id :: "entry_id option"
  ur_adjustment :: bool
  ur_details :: "'j option"

record ('j, 'f) new_usage_row =
  nu_id :: usage_id
  nu_usage :: "'f usage"
  nu_entry_id :: "entry_id option"
  nu_adjustment :: bool
  nu_details :: "'j option"

datatype ('j, 'f) session_write =
    WriteEntry "('j, 'f) new_entry"
  | WriteUsage "('j, 'f) new_usage_row"
  | WriteValue "'j value_write"
  | WriteList "'j list_write"

text \<open>The typed write builders take the result of encoding the value with serde.\<close>

definition set_value :: "value_address \<Rightarrow> string + 'j \<Rightarrow> session_error + ('j, 'f) session_write" where
  "set_value addr encoded =
     rbind (map_err (\<lambda>e. Invariant (''value serialization failed: '' @ e)) encoded)
       (\<lambda>v. Inr (WriteValue (ValueSet (va_namespace addr) (va_key addr) v)))"

definition delete_value :: "value_address \<Rightarrow> ('j, 'f) session_write" where
  "delete_value addr = WriteValue (ValueDelete (va_namespace addr) (va_key addr))"

definition append_list :: "value_list_address \<Rightarrow> string + 'j \<Rightarrow> session_error + ('j, 'f) session_write" where
  "append_list addr encoded =
     rbind (map_err (\<lambda>e. Invariant (''list element serialization failed: '' @ e)) encoded)
       (\<lambda>v. Inr (WriteList (ListAppend (vl_namespace addr) (vl_key addr) v)))"

definition delete_list :: "value_list_address \<Rightarrow> ('j, 'f) session_write" where
  "delete_list addr = WriteList (ListDelete (vl_namespace addr) (vl_key addr))"

record 'f session_stats =
  ss_message_count :: u64
  ss_usage :: "'f usage"

definition session_stats_default :: "'f::zero session_stats" where
  "session_stats_default = \<lparr>ss_message_count = 0, ss_usage = usage_default\<rparr>"

record 'f commit_result =
  cr_first_seq :: u64
  cr_seqs :: "u64 list"
  cr_timestamp :: i64
  cr_stats :: "'f session_stats"

datatype 'j committed_value_write =
  CommittedSet u64 string string 'j | CommittedValueDelete u64 string string

datatype 'j committed_list_write =
  CommittedAppend u64 string string 'j | CommittedListDelete u64 string string

datatype ('j, 'f) committed_write =
    CommittedEntry "('j, 'f) entry"
  | CommittedUsage "('j, 'f) usage_row"
  | CommittedValue "'j committed_value_write"
  | CommittedList "'j committed_list_write"

fun committed_seq :: "('j, 'f) committed_write \<Rightarrow> u64" where
  "committed_seq (CommittedEntry e) = entry_seq e"
| "committed_seq (CommittedUsage row) = ur_seq row"
| "committed_seq (CommittedValue (CommittedSet seq _ _ _)) = seq"
| "committed_seq (CommittedValue (CommittedValueDelete seq _ _)) = seq"
| "committed_seq (CommittedList (CommittedAppend seq _ _ _)) = seq"
| "committed_seq (CommittedList (CommittedListDelete seq _ _)) = seq"

section \<open>Commit validation\<close>

text \<open>The trait \<open>CommittedIdView\<close>.\<close>

record committed_id_view =
  cv_contains_id :: "string \<Rightarrow> bool"
  cv_contains_entry_id :: "entry_id \<Rightarrow> bool"
  cv_next_seq :: u64

definition u64_try_from :: "nat \<Rightarrow> u64 option" where
  "u64_try_from n = (if n < 2 ^ 64 then Some (of_nat n) else None)"

definition sequence_overflow :: session_error where
  "sequence_overflow = Invariant ''sequence overflow''"

text \<open>The sequence of the write at position \<open>index\<close>: two checked conversions.\<close>

definition seq_at :: "u64 \<Rightarrow> nat \<Rightarrow> session_error + u64" where
  "seq_at first_seq index =
     rbind (ok_or (u64_try_from index) sequence_overflow)
       (\<lambda>i. ok_or (checked_add first_seq i) sequence_overflow)"

fun validate_committed_loop ::
  "committed_id_view \<Rightarrow> u64 \<Rightarrow> nat \<Rightarrow> string set \<Rightarrow> string set \<Rightarrow> ('j, 'f) session_write list
    \<Rightarrow> session_error + unit" where
  "validate_committed_loop existing first_seq index batch_ids batch_entry_ids [] = Inr ()"
| "validate_committed_loop existing first_seq index batch_ids batch_entry_ids (w # ws) =
     rbind (seq_at first_seq index) (\<lambda>_.
       case w of
         WriteEntry entry \<Rightarrow>
           let eid = ne_id entry in
           if cv_contains_id existing eid \<or> eid \<in> batch_ids
           then Inl (Invariant (''duplicate entry id '' @ eid))
           else (case ne_parent_id entry of
               Some parent \<Rightarrow>
                 if \<not> cv_contains_entry_id existing parent \<and> parent \<notin> batch_entry_ids
                 then Inl (Invariant (''missing parent id '' @ parent))
                 else if pending_assistant (ne_body entry) then Inl PendingAssistantMessage
                 else validate_committed_loop existing first_seq (Suc index)
                        (insert eid batch_ids) (insert eid batch_entry_ids) ws
             | None \<Rightarrow>
                 if pending_assistant (ne_body entry) then Inl PendingAssistantMessage
                 else validate_committed_loop existing first_seq (Suc index)
                        (insert eid batch_ids) (insert eid batch_entry_ids) ws)
       | WriteUsage row \<Rightarrow>
           let uid = nu_id row in
           if cv_contains_id existing uid \<or> uid \<in> batch_ids
           then Inl (Invariant (''duplicate usage id '' @ uid))
           else validate_committed_loop existing first_seq (Suc index)
                  (insert uid batch_ids) batch_entry_ids ws
       | WriteValue _ \<Rightarrow>
           validate_committed_loop existing first_seq (Suc index) batch_ids batch_entry_ids ws
       | WriteList _ \<Rightarrow>
           validate_committed_loop existing first_seq (Suc index) batch_ids batch_entry_ids ws)"

definition validate_committed_writes ::
  "('j, 'f) session_write list \<Rightarrow> u64 \<Rightarrow> committed_id_view \<Rightarrow> session_error + unit" where
  "validate_committed_writes writes first_seq existing =
     (if first_seq \<noteq> cv_next_seq existing
      then Inl (Invariant (''commit starts at sequence '' @ show_word first_seq @ '', expected ''
                  @ show_word (cv_next_seq existing)))
      else validate_committed_loop existing first_seq 0 {} {} writes)"

section \<open>Materialization\<close>

fun commit_one :: "u64 \<Rightarrow> i64 \<Rightarrow> ('j, 'f) session_write \<Rightarrow> ('j, 'f) committed_write" where
  "commit_one seq timestamp (WriteEntry entry) = CommittedEntry (materialize entry seq timestamp)"
| "commit_one seq timestamp (WriteUsage row) =
     CommittedUsage \<lparr>ur_id = nu_id row, ur_seq = seq, ur_usage = nu_usage row,
       ur_entry_id = nu_entry_id row, ur_adjustment = nu_adjustment row,
       ur_details = nu_details row\<rparr>"
| "commit_one seq timestamp (WriteValue (ValueSet namespace key v)) =
     CommittedValue (CommittedSet seq namespace key v)"
| "commit_one seq timestamp (WriteValue (ValueDelete namespace key)) =
     CommittedValue (CommittedValueDelete seq namespace key)"
| "commit_one seq timestamp (WriteList (ListAppend namespace key v)) =
     CommittedList (CommittedAppend seq namespace key v)"
| "commit_one seq timestamp (WriteList (ListDelete namespace key)) =
     CommittedList (CommittedListDelete seq namespace key)"

fun commit_writes_loop ::
  "u64 \<Rightarrow> i64 \<Rightarrow> nat \<Rightarrow> ('j, 'f) session_write list
    \<Rightarrow> session_error + (('j, 'f) committed_write list \<times> u64 list)" where
  "commit_writes_loop first_seq timestamp index [] = Inr ([], [])"
| "commit_writes_loop first_seq timestamp index (w # ws) =
     rbind (seq_at first_seq index) (\<lambda>seq.
       rbind (commit_writes_loop first_seq timestamp (Suc index) ws) (\<lambda>(committed, seqs).
         Inr (commit_one seq timestamp w # committed, seq # seqs)))"

definition commit_writes ::
  "('j, 'f) session_write list \<Rightarrow> u64 \<Rightarrow> i64
    \<Rightarrow> session_error + (('j, 'f) committed_write list \<times> u64 list)" where
  "commit_writes writes first_seq timestamp = commit_writes_loop first_seq timestamp 0 writes"

section \<open>Replay validation\<close>

fun validate_replayed_loop ::
  "committed_id_view \<Rightarrow> u64 \<Rightarrow> string set \<Rightarrow> string set \<Rightarrow> ('j, 'f) committed_write list
    \<Rightarrow> session_error + unit" where
  "validate_replayed_loop existing previous_seq batch_ids batch_entry_ids [] = Inr ()"
| "validate_replayed_loop existing previous_seq batch_ids batch_entry_ids (w # ws) =
     (let seq = committed_seq w in
      if seq \<le> previous_seq
      then Inl (Invariant (''non-monotonic storage sequence '' @ show_word seq))
      else case w of
          CommittedEntry entry \<Rightarrow>
            let eid = entry_id entry in
            if cv_contains_id existing eid \<or> eid \<in> batch_ids
            then Inl (Invariant (''duplicate entry or usage id '' @ eid))
            else (case entry_parent_id entry of
                Some parent \<Rightarrow>
                  if \<not> cv_contains_entry_id existing parent \<and> parent \<notin> batch_entry_ids
                  then Inl (Invariant (''missing parent entry '' @ parent))
                  else validate_replayed_loop existing seq (insert eid batch_ids)
                         (insert eid batch_entry_ids) ws
              | None \<Rightarrow>
                  validate_replayed_loop existing seq (insert eid batch_ids)
                    (insert eid batch_entry_ids) ws)
        | CommittedUsage row \<Rightarrow>
            let uid = ur_id row in
            if cv_contains_id existing uid \<or> uid \<in> batch_ids
            then Inl (Invariant (''duplicate entry or usage id '' @ uid))
            else validate_replayed_loop existing seq (insert uid batch_ids) batch_entry_ids ws
        | CommittedValue _ \<Rightarrow> validate_replayed_loop existing seq batch_ids batch_entry_ids ws
        | CommittedList _ \<Rightarrow> validate_replayed_loop existing seq batch_ids batch_entry_ids ws)"

definition validate_replayed_writes ::
  "('j, 'f) committed_write list \<Rightarrow> committed_id_view \<Rightarrow> session_error + unit" where
  "validate_replayed_writes writes existing =
     validate_replayed_loop existing (saturating_sub (cv_next_seq existing) 1) {} {} writes"

section \<open>The admission rules, declaratively\<close>

fun write_id :: "('j, 'f) session_write \<Rightarrow> string option" where
  "write_id (WriteEntry e) = Some (ne_id e)"
| "write_id (WriteUsage r) = Some (nu_id r)"
| "write_id (WriteValue v) = None"
| "write_id (WriteList l) = None"

fun write_entry_id :: "('j, 'f) session_write \<Rightarrow> entry_id option" where
  "write_entry_id (WriteEntry e) = Some (ne_id e)"
| "write_entry_id (WriteUsage r) = None"
| "write_entry_id (WriteValue v) = None"
| "write_entry_id (WriteList l) = None"

definition write_ids :: "('j, 'f) session_write list \<Rightarrow> string list" where
  "write_ids ws = List.map_filter write_id ws"

definition write_entry_ids :: "('j, 'f) session_write list \<Rightarrow> entry_id list" where
  "write_entry_ids ws = List.map_filter write_entry_id ws"

text \<open>
  A batch is admissible when its sequences fit into 64 bits, its ids are fresh and pairwise
  distinct, every parent is a stored entry or an entry written earlier in the batch, and no
  assistant message is pending.
\<close>

definition batch_ok :: "committed_id_view \<Rightarrow> u64 \<Rightarrow> ('j, 'f) session_write list \<Rightarrow> bool" where
  "batch_ok v first_seq ws \<longleftrightarrow>
     (ws \<noteq> [] \<longrightarrow> unat first_seq + length ws \<le> 2 ^ 64) \<and>
     distinct (write_ids ws) \<and>
     (\<forall>i \<in> set (write_ids ws). \<not> cv_contains_id v i) \<and>
     (\<forall>pre e post p. ws = pre @ WriteEntry e # post \<and> ne_parent_id e = Some p \<longrightarrow>
        cv_contains_entry_id v p \<or> p \<in> set (write_entry_ids pre)) \<and>
     (\<forall>e. WriteEntry e \<in> set ws \<longrightarrow> \<not> pending_assistant (ne_body e))"

fun committed_id :: "('j, 'f) committed_write \<Rightarrow> string option" where
  "committed_id (CommittedEntry e) = Some (entry_id e)"
| "committed_id (CommittedUsage r) = Some (ur_id r)"
| "committed_id (CommittedValue v) = None"
| "committed_id (CommittedList l) = None"

fun committed_entry_id :: "('j, 'f) committed_write \<Rightarrow> entry_id option" where
  "committed_entry_id (CommittedEntry e) = Some (entry_id e)"
| "committed_entry_id (CommittedUsage r) = None"
| "committed_entry_id (CommittedValue v) = None"
| "committed_entry_id (CommittedList l) = None"

definition committed_ids :: "('j, 'f) committed_write list \<Rightarrow> string list" where
  "committed_ids ws = List.map_filter committed_id ws"

definition committed_entry_ids :: "('j, 'f) committed_write list \<Rightarrow> entry_id list" where
  "committed_entry_ids ws = List.map_filter committed_entry_id ws"

definition replay_ok :: "committed_id_view \<Rightarrow> ('j, 'f) committed_write list \<Rightarrow> bool" where
  "replay_ok v ws \<longleftrightarrow>
     sorted_wrt (<) (saturating_sub (cv_next_seq v) 1 # map committed_seq ws) \<and>
     distinct (committed_ids ws) \<and>
     (\<forall>i \<in> set (committed_ids ws). \<not> cv_contains_id v i) \<and>
     (\<forall>pre e post p. ws = pre @ CommittedEntry e # post \<and> entry_parent_id e = Some p \<longrightarrow>
        cv_contains_entry_id v p \<or> p \<in> set (committed_entry_ids pre))"

section \<open>Lemmas\<close>

lemma map_filter_Cons [simp]:
  "List.map_filter f (x # xs) =
     (case f x of None \<Rightarrow> List.map_filter f xs | Some y \<Rightarrow> y # List.map_filter f xs)"
  by (simp add: List.map_filter_def split: option.split)

lemma map_filter_Nil [simp]: "List.map_filter f [] = []"
  by (simp add: List.map_filter_def)

lemma map_filter_append [simp]:
  "List.map_filter f (xs @ ys) = List.map_filter f xs @ List.map_filter f ys"
  by (simp add: List.map_filter_def)

lemma set_map_filter: "set (List.map_filter f xs) = {y. \<exists>x \<in> set xs. f x = Some y}"
  by (induction xs) (auto split: option.splits)

lemma seq_at_Inr_iff:
  "seq_at first index = Inr s \<longleftrightarrow> unat first + index < 2 ^ 64 \<and> s = first + of_nat index"
proof
  assume "seq_at first index = Inr s"
  then obtain i where i: "u64_try_from index = Some i" "checked_add first i = Some s"
    by (auto simp: seq_at_def)
  then have "i = of_nat index" "index < 2 ^ 64"
    by (auto simp: u64_try_from_def split: if_splits)
  with i show "unat first + index < 2 ^ 64 \<and> s = first + of_nat index"
    by (auto simp: checked_add_def unat_of_nat split: if_splits)
next
  assume "unat first + index < 2 ^ 64 \<and> s = first + of_nat index"
  then show "seq_at first index = Inr s"
    by (auto simp: seq_at_def u64_try_from_def checked_add_def unat_of_nat)
qed

lemma seq_at_Inr [simp]: "unat first + index < 2 ^ 64 \<Longrightarrow> seq_at first index = Inr (first + of_nat index)"
  by (simp add: seq_at_Inr_iff)

lemma unat_seq_at: "unat first + index < 2 ^ 64 \<Longrightarrow> unat (first + of_nat index :: u64) = unat first + index"
  by (simp add: unat_word_ariths unat_of_nat)

lemma seq_at_overflow: "\<not> unat first + index < 2 ^ 64 \<Longrightarrow> \<exists>e. seq_at first index = Inl e"
  by (metis seq_at_Inr_iff obj_sumE)

text \<open>The parent rule, one write at a time: the form the loop checks.\<close>

lemma split_rule_Cons:
  "(\<forall>pre e post p. w # ws = pre @ C e # post \<and> par e = Some p \<longrightarrow> K p \<or> p \<in> set (List.map_filter g pre)) \<longleftrightarrow>
   (\<forall>e p. w = C e \<and> par e = Some p \<longrightarrow> K p) \<and>
   (\<forall>pre e post p. ws = pre @ C e # post \<and> par e = Some p \<longrightarrow>
      (K p \<or> g w = Some p) \<or> p \<in> set (List.map_filter g pre))"
  (is "?L \<longleftrightarrow> ?A \<and> ?B")
proof (intro iffI conjI)
  assume L: ?L
  show ?A
    using L by (metis append_Nil empty_iff empty_set map_filter_Nil)
  show ?B
  proof (intro allI impI)
    fix pre e post p
    assume "ws = pre @ C e # post \<and> par e = Some p"
    then have "w # ws = (w # pre) @ C e # post" "par e = Some p"
      by auto
    with L have "K p \<or> p \<in> set (List.map_filter g (w # pre))"
      by blast
    then show "(K p \<or> g w = Some p) \<or> p \<in> set (List.map_filter g pre)"
      by (auto split: option.splits)
  qed
next
  assume R: "?A \<and> ?B"
  show ?L
  proof (intro allI impI)
    fix pre e post p
    assume E: "w # ws = pre @ C e # post \<and> par e = Some p"
    show "K p \<or> p \<in> set (List.map_filter g pre)"
    proof (cases pre)
      case Nil
      with E R show ?thesis by auto
    next
      case (Cons w' pre')
      with E have "ws = pre' @ C e # post \<and> par e = Some p" "w' = w"
        by auto
      with R have "(K p \<or> g w = Some p) \<or> p \<in> set (List.map_filter g pre')"
        by blast
      with Cons \<open>w' = w\<close> show ?thesis
        by (auto split: option.splits)
    qed
  qed
qed

definition loop_ok ::
  "committed_id_view \<Rightarrow> u64 \<Rightarrow> nat \<Rightarrow> string set \<Rightarrow> string set \<Rightarrow> ('j, 'f) session_write list \<Rightarrow> bool" where
  "loop_ok v first index ids eids ws \<longleftrightarrow>
     (ws \<noteq> [] \<longrightarrow> unat first + index + length ws \<le> 2 ^ 64) \<and>
     distinct (write_ids ws) \<and>
     (\<forall>i \<in> set (write_ids ws). \<not> cv_contains_id v i \<and> i \<notin> ids) \<and>
     (\<forall>pre e post p. ws = pre @ WriteEntry e # post \<and> ne_parent_id e = Some p \<longrightarrow>
        (cv_contains_entry_id v p \<or> p \<in> eids) \<or> p \<in> set (List.map_filter write_entry_id pre)) \<and>
     (\<forall>e. WriteEntry e \<in> set ws \<longrightarrow> \<not> pending_assistant (ne_body e))"

lemma loop_ok_Nil [simp]: "loop_ok v first index ids eids []"
  by (simp add: loop_ok_def write_ids_def)

lemma loop_ok_Cons:
  "loop_ok v first index ids eids (w # ws) \<longleftrightarrow>
     unat first + index < 2 ^ 64 \<and>
     (case write_id w of None \<Rightarrow> True | Some i \<Rightarrow> \<not> cv_contains_id v i \<and> i \<notin> ids) \<and>
     (\<forall>e p. w = WriteEntry e \<and> ne_parent_id e = Some p \<longrightarrow> cv_contains_entry_id v p \<or> p \<in> eids) \<and>
     (\<forall>e. w = WriteEntry e \<longrightarrow> \<not> pending_assistant (ne_body e)) \<and>
     loop_ok v first (Suc index) (ids \<union> set_option (write_id w))
       (eids \<union> set_option (write_entry_id w)) ws"
proof -
  have len: "(w # ws \<noteq> [] \<longrightarrow> unat first + index + length (w # ws) \<le> 2 ^ 64) \<longleftrightarrow>
      unat first + index < 2 ^ 64 \<and> (ws \<noteq> [] \<longrightarrow> unat first + Suc index + length ws \<le> 2 ^ 64)"
    by (cases ws) auto
  have eid: "(p \<in> eids \<union> set_option (write_entry_id w)) = (p \<in> eids \<or> write_entry_id w = Some p)" for p
    by auto
  show ?thesis
    unfolding loop_ok_def len split_rule_Cons eid
    by (cases "write_id w") (auto simp: write_ids_def)
qed

lemma validate_committed_loop_iff:
  "validate_committed_loop v first index ids eids ws = Inr () \<longleftrightarrow> loop_ok v first index ids eids ws"
proof (induction ws arbitrary: index ids eids)
  case Nil
  then show ?case by simp
next
  case (Cons w ws)
  show ?case
  proof (cases "unat first + index < 2 ^ 64")
    case False
    then obtain e where "seq_at first index = Inl e"
      using seq_at_overflow by blast
    with False show ?thesis
      by (simp add: loop_ok_Cons)
  next
    case True
    then show ?thesis
      by (cases w) (auto simp: loop_ok_Cons Cons.IH Let_def split: option.splits)
  qed
qed

lemma validate_committed_iff:
  "validate_committed_writes ws first v = Inr () \<longleftrightarrow> first = cv_next_seq v \<and> batch_ok v first ws"
proof -
  have "loop_ok v first 0 {} {} ws \<longleftrightarrow> batch_ok v first ws"
    unfolding loop_ok_def batch_ok_def write_entry_ids_def by simp
  then show ?thesis
    by (auto simp: validate_committed_writes_def validate_committed_loop_iff)
qed

lemma commit_writes_loop_ok:
  assumes "ws \<noteq> [] \<longrightarrow> unat first + index + length ws \<le> 2 ^ 64"
  shows "commit_writes_loop first ts index ws =
     Inr (map (\<lambda>(i, w). commit_one (first + of_nat i) ts w) (enumerate index ws),
          map (\<lambda>i. first + of_nat i) [index ..< index + length ws])"
  using assms
proof (induction ws arbitrary: index)
  case Nil
  then show ?case by simp
next
  case (Cons w ws)
  have "unat first + index < 2 ^ 64"
    using Cons.prems by simp
  moreover have "ws \<noteq> [] \<longrightarrow> unat first + Suc index + length ws \<le> 2 ^ 64"
    using Cons.prems by auto
  ultimately show ?case
    by (simp add: Cons.IH upt_conv_Cons del: upt_Suc)
qed

lemma commit_writes_ok:
  assumes "batch_ok v first ws"
  shows "commit_writes ws first ts =
     Inr (map (\<lambda>(i, w). commit_one (first + of_nat i) ts w) (enumerate 0 ws),
          map (\<lambda>i. first + of_nat i) [0 ..< length ws])"
  using commit_writes_loop_ok [of ws first 0 ts] assms
  by (simp add: commit_writes_def batch_ok_def)

lemma commit_one_simps [simp]:
  "committed_seq (commit_one seq ts w) = seq"
  "committed_id (commit_one seq ts w) = write_id w"
  "committed_entry_id (commit_one seq ts w) = write_entry_id w"
  by (cases "(seq, ts, w)" rule: commit_one.cases; simp)+

definition replay_loop_ok ::
  "committed_id_view \<Rightarrow> u64 \<Rightarrow> string set \<Rightarrow> string set \<Rightarrow> ('j, 'f) committed_write list \<Rightarrow> bool" where
  "replay_loop_ok v prev ids eids ws \<longleftrightarrow>
     sorted_wrt (<) (prev # map committed_seq ws) \<and>
     distinct (committed_ids ws) \<and>
     (\<forall>i \<in> set (committed_ids ws). \<not> cv_contains_id v i \<and> i \<notin> ids) \<and>
     (\<forall>pre e post p. ws = pre @ CommittedEntry e # post \<and> entry_parent_id e = Some p \<longrightarrow>
        (cv_contains_entry_id v p \<or> p \<in> eids) \<or> p \<in> set (List.map_filter committed_entry_id pre))"

lemma replay_loop_ok_Nil [simp]: "replay_loop_ok v prev ids eids []"
  by (simp add: replay_loop_ok_def committed_ids_def)

lemma sorted_wrt_less_Cons2:
  "sorted_wrt (<) (x # y # zs) \<longleftrightarrow> x < (y::'a::linorder) \<and> sorted_wrt (<) (y # zs)"
  by auto

lemma replay_loop_ok_Cons:
  "replay_loop_ok v prev ids eids (w # ws) \<longleftrightarrow>
     prev < committed_seq w \<and>
     (case committed_id w of None \<Rightarrow> True | Some i \<Rightarrow> \<not> cv_contains_id v i \<and> i \<notin> ids) \<and>
     (\<forall>e p. w = CommittedEntry e \<and> entry_parent_id e = Some p \<longrightarrow>
        cv_contains_entry_id v p \<or> p \<in> eids) \<and>
     replay_loop_ok v (committed_seq w) (ids \<union> set_option (committed_id w))
       (eids \<union> set_option (committed_entry_id w)) ws"
proof -
  have eid: "(p \<in> eids \<union> set_option (committed_entry_id w)) =
      (p \<in> eids \<or> committed_entry_id w = Some p)" for p
    by auto
  have sorted: "sorted_wrt (<) (prev # map committed_seq (w # ws)) \<longleftrightarrow>
      prev < committed_seq w \<and> sorted_wrt (<) (committed_seq w # map committed_seq ws)"
    by (simp only: list.map sorted_wrt_less_Cons2)
  show ?thesis
    unfolding replay_loop_ok_def split_rule_Cons eid sorted
    by (cases "committed_id w") (auto simp: committed_ids_def simp del: sorted_wrt.simps)
qed

lemma validate_replayed_loop_iff:
  "validate_replayed_loop v prev ids eids ws = Inr () \<longleftrightarrow> replay_loop_ok v prev ids eids ws"
proof (induction ws arbitrary: prev ids eids)
  case Nil
  then show ?case by simp
next
  case (Cons w ws)
  then show ?case
    by (cases w) (auto simp: replay_loop_ok_Cons Let_def not_le split: option.splits)
qed

lemma validate_replayed_iff: "validate_replayed_writes ws v = Inr () \<longleftrightarrow> replay_ok v ws"
  unfolding validate_replayed_writes_def validate_replayed_loop_iff replay_loop_ok_def
    replay_ok_def committed_entry_ids_def
  by simp

text \<open>What a commit materializes can be replayed against the view it was committed to.\<close>

lemma map_filter_commit:
  assumes "\<And>s t w. f (commit_one s t w) = g w"
  shows "List.map_filter f (map (\<lambda>(i, w). commit_one (h i) ts w) (enumerate k ws)) = List.map_filter g ws"
proof (induction ws arbitrary: k)
  case Nil
  then show ?case by simp
next
  case (Cons w ws)
  then show ?case
    by (auto simp: assms split: option.split)
qed

lemma enumerate_append: "enumerate k (xs @ ys) = enumerate k xs @ enumerate (k + length xs) ys"
  by (induction xs arbitrary: k) simp_all

lemma committed_split:
  assumes "map (\<lambda>(i, w). commit_one (h i) ts w) (enumerate k ws) = pre @ CommittedEntry e # post"
  obtains pre' ne post' where
    "ws = pre' @ WriteEntry ne # post'" "entry_parent_id e = ne_parent_id ne"
    "pre = map (\<lambda>(i, w). commit_one (h i) ts w) (enumerate k pre')"
proof -
  let ?c = "\<lambda>(i, w). commit_one (h i) ts w"
  define n where "n = length pre"
  have n: "n < length ws"
    using arg_cong [OF assms, of length] by (simp add: n_def)
  define pre' w post' where "pre' = take n ws" and "w = ws ! n" and "post' = drop (Suc n) ws"
  have ws: "ws = pre' @ w # post'"
    using n by (simp add: pre'_def w_def post'_def id_take_nth_drop)
  have len: "length pre = length (map ?c (enumerate k pre'))"
    using n by (simp add: pre'_def n_def)
  have split: "map ?c (enumerate k pre') @ commit_one (h (k + length pre')) ts w #
      map ?c (enumerate (Suc (k + length pre')) post') = pre @ CommittedEntry e # post"
    using assms by (simp add: ws enumerate_append)
  then have pre: "pre = map ?c (enumerate k pre')"
    and hd: "commit_one (h (k + length pre')) ts w = CommittedEntry e"
    using len by (simp_all add: append_eq_append_conv)
  from hd obtain ne where "w = WriteEntry ne" "e = materialize ne (h (k + length pre')) ts"
    by (cases "(h (k + length pre'), ts, w)" rule: commit_one.cases) auto
  with ws pre show thesis
    by (intro that) auto
qed

lemma sorted_seqs:
  assumes "unat (p::u64) < unat first + index" and "ws \<noteq> [] \<longrightarrow> unat first + index + length ws \<le> 2 ^ 64"
  shows "sorted_wrt (<) (p # map committed_seq
    (map (\<lambda>(i, w). commit_one (first + of_nat i) ts w) (enumerate index ws)))"
  using assms
proof (induction ws arbitrary: p index)
  case Nil
  then show ?case by simp
next
  case (Cons w ws)
  have fit: "unat first + index < 2 ^ 64"
    using Cons.prems(2) by simp
  have tl: "ws \<noteq> [] \<longrightarrow> unat first + Suc index + length ws \<le> 2 ^ 64"
    using Cons.prems(2) by auto
  have u: "unat (first + of_nat index :: u64) = unat first + index"
    by (rule unat_seq_at [OF fit])
  have "p < first + of_nat index"
    using Cons.prems(1) u by (simp add: word_less_nat_alt)
  moreover have "sorted_wrt (<) ((first + of_nat index) # map committed_seq
      (map (\<lambda>(i, w). commit_one (first + of_nat i) ts w) (enumerate (Suc index) ws)))"
    using u tl by (intro Cons.IH) simp_all
  ultimately show ?case
    by (simp only: enumerate_simps list.map sorted_wrt_less_Cons2 prod.case commit_one_simps)
qed

lemma committed_replay_ok:
  assumes ok: "batch_ok v (cv_next_seq v) ws" and pos: "cv_next_seq v \<noteq> 0"
    and c: "commit_writes ws (cv_next_seq v) ts = Inr (cs, seqs)"
  shows "replay_ok v cs"
proof -
  let ?n = "cv_next_seq v"
  have cs: "cs = map (\<lambda>(i, w). commit_one (?n + of_nat i) ts w) (enumerate 0 ws)"
    using commit_writes_ok [OF ok, of ts] c by simp
  have "0 < unat ?n"
    using pos by (simp add: word_unat_eq_iff)
  then have "unat (saturating_sub ?n 1) < unat ?n + 0"
    by (simp add: unat_saturating_sub)
  moreover have "ws \<noteq> [] \<longrightarrow> unat ?n + 0 + length ws \<le> 2 ^ 64"
    using ok by (simp add: batch_ok_def)
  ultimately have "sorted_wrt (<) (saturating_sub ?n 1 # map committed_seq cs)"
    unfolding cs by (rule sorted_seqs)
  moreover have ids: "committed_ids cs = write_ids ws"
    by (simp add: cs committed_ids_def write_ids_def map_filter_commit)
  moreover have "cv_contains_entry_id v p \<or> p \<in> set (committed_entry_ids pre)"
    if split: "cs = pre @ CommittedEntry e # post" and p: "entry_parent_id e = Some p" for pre e post p
  proof -
    obtain pre' ne post' where "ws = pre' @ WriteEntry ne # post'" "ne_parent_id ne = Some p"
      "pre = map (\<lambda>(i, w). commit_one (?n + of_nat i) ts w) (enumerate 0 pre')"
      using split p unfolding cs by (elim committed_split) simp
    with ok show ?thesis
      by (auto simp: batch_ok_def committed_entry_ids_def write_entry_ids_def map_filter_commit)
  qed
  ultimately show ?thesis
    using ok by (auto simp: replay_ok_def batch_ok_def simp del: sorted_wrt.simps)
qed

end
