(* ===== verification/Session_Memory.thy ===== *)
theory Session_Memory
  imports Session_Write
begin

text \<open>
  The reference in-memory backend (\<open>session/memory.rs\<close>): \<open>InMemoryStorageState\<close> with its
  commit, replay and scan operations, and the \<open>MemoryStorage\<close> handle over it. \<open>storage_wf\<close>
  is the invariant of the durable state; commits and replays preserve it, replaying the
  journal of a session reproduces its state, and the branch scan returns exactly the
  requested window of the ancestry.
\<close>

section \<open>State\<close>

type_synonym slot = "string \<times> string"

record ('j, 'f) storage_state =
  st_entries :: "(entry_id, ('j, 'f) entry) btree_map"
  st_entries_by_seq :: "(u64, entry_id) btree_map"
  st_values :: "(slot, 'j raw_stored_value) btree_map"
  st_lists :: "(slot, 'j raw_list_element list) btree_map"
  st_usage :: "(usage_id, ('j, 'f) usage_row) btree_map"
  st_stats :: "'f session_stats"
  st_next_seq :: u64

definition storage_new :: "('j, 'f::zero) storage_state" where
  "storage_new =
     \<lparr>st_entries = [], st_entries_by_seq = [], st_values = [], st_lists = [], st_usage = [],
      st_stats = session_stats_default, st_next_seq = 1\<rparr>"

definition storage_view :: "('j, 'f) storage_state \<Rightarrow> committed_id_view" where
  "storage_view s =
     \<lparr>cv_contains_id = (\<lambda>i. bt_contains (st_entries s) i \<or> bt_contains (st_usage s) i),
      cv_contains_entry_id = (\<lambda>i. bt_contains (st_entries s) i),
      cv_next_seq = st_next_seq s\<rparr>"

section \<open>Usage totals\<close>

fun add_optional :: "u64 option \<Rightarrow> u64 option \<Rightarrow> u64 option" where
  "add_optional (Some a) (Some b) = Some (saturating_add a b)"
| "add_optional a None = a"
| "add_optional None b = b"

definition add_usage :: "('f::plus) usage \<Rightarrow> 'f usage \<Rightarrow> 'f usage" where
  "add_usage acc add =
     \<lparr>us_input = saturating_add (us_input acc) (us_input add),
      us_output = saturating_add (us_output acc) (us_output add),
      us_cache_read = saturating_add (us_cache_read acc) (us_cache_read add),
      us_cache_write = saturating_add (us_cache_write acc) (us_cache_write add),
      us_cache_write1h = add_optional (us_cache_write1h acc) (us_cache_write1h add),
      us_reasoning = add_optional (us_reasoning acc) (us_reasoning add),
      us_total_tokens = saturating_add (us_total_tokens acc) (us_total_tokens add),
      us_cost =
        \<lparr>uc_input = uc_input (us_cost acc) + uc_input (us_cost add),
         uc_output = uc_output (us_cost acc) + uc_output (us_cost add),
         uc_cache_read = uc_cache_read (us_cost acc) + uc_cache_read (us_cost add),
         uc_cache_write = uc_cache_write (us_cost acc) + uc_cache_write (us_cost add),
         uc_total = uc_total (us_cost acc) + uc_total (us_cost add)\<rparr>\<rparr>"

section \<open>Applying writes\<close>

fun is_message_entry :: "('j, 'f) entry \<Rightarrow> bool" where
  "is_message_entry (EntryMessage _ _ _) = True"
| "is_message_entry (EntryCompaction _ _ _ _ _ _ _) = False"
| "is_message_entry (EntryBranchSummary _ _ _ _ _ _) = False"
| "is_message_entry (EntryCustom _ _ _) = False"

text \<open>The match of the loop body of \<open>apply_committed\<close>.\<close>

fun apply_write ::
  "('j, 'f::plus) storage_state \<Rightarrow> ('j, 'f) committed_write \<Rightarrow> ('j, 'f) storage_state" where
  "apply_write s (CommittedEntry e) =
     s\<lparr>st_stats := (if is_message_entry e
          then (st_stats s)\<lparr>ss_message_count := saturating_add (ss_message_count (st_stats s)) 1\<rparr>
          else st_stats s),
       st_entries_by_seq := bt_insert (entry_seq e) (entry_id e) (st_entries_by_seq s),
       st_entries := bt_insert (entry_id e) e (st_entries s)\<rparr>"
| "apply_write s (CommittedUsage row) =
     s\<lparr>st_stats := (st_stats s)\<lparr>ss_usage := add_usage (ss_usage (st_stats s)) (ur_usage row)\<rparr>,
       st_usage := bt_insert (ur_id row) row (st_usage s)\<rparr>"
| "apply_write s (CommittedValue (CommittedSet seq namespace key v)) =
     s\<lparr>st_values := bt_insert (namespace, key)
         \<lparr>rv_namespace = namespace, rv_key = key, rv_kind = Ak_Value, rv_value = v, rv_seq = seq\<rparr>
         (st_values s)\<rparr>"
| "apply_write s (CommittedValue (CommittedValueDelete seq namespace key)) =
     s\<lparr>st_values := bt_remove (namespace, key) (st_values s)\<rparr>"
| "apply_write s (CommittedList (CommittedAppend seq namespace key v)) =
     s\<lparr>st_lists := bt_insert (namespace, key)
         (unwrap_or (bt_get (st_lists s) (namespace, key)) [] @ [\<lparr>rl_seq = seq, rl_value = v\<rparr>])
         (st_lists s)\<rparr>"
| "apply_write s (CommittedList (CommittedListDelete seq namespace key)) =
     s\<lparr>st_lists := bt_remove (namespace, key) (st_lists s)\<rparr>"

definition apply_one ::
  "('j, 'f::plus) storage_state \<Rightarrow> ('j, 'f) committed_write \<Rightarrow> ('j, 'f) storage_state" where
  "apply_one s w = (apply_write s w)\<lparr>st_next_seq := saturating_add (committed_seq w) 1\<rparr>"

definition apply_committed ::
  "('j, 'f::plus) storage_state \<Rightarrow> ('j, 'f) committed_write list
    \<Rightarrow> ('j, 'f) storage_state \<times> 'f session_stats" where
  "apply_committed s ws = (let s' = foldl apply_one s ws in (s', st_stats s'))"

definition apply_batch ::
  "('j, 'f::plus) storage_state \<Rightarrow> ('j, 'f) session_write list \<Rightarrow> i64
    \<Rightarrow> session_error + (('j, 'f) storage_state \<times> 'f commit_result)" where
  "apply_batch s writes timestamp =
     (let first_seq = st_next_seq s in
      rbind (validate_committed_writes writes first_seq (storage_view s)) (\<lambda>_.
      rbind (commit_writes writes first_seq timestamp) (\<lambda>(committed, seqs).
      let (s', stats) = apply_committed s committed in
      Inr (s', \<lparr>cr_first_seq = first_seq, cr_seqs = seqs, cr_timestamp = timestamp,
                cr_stats = stats\<rparr>))))"

definition replay ::
  "('j, 'f::plus) storage_state \<Rightarrow> ('j, 'f) committed_write list
    \<Rightarrow> session_error + (('j, 'f) storage_state \<times> 'f session_stats)" where
  "replay s writes =
     rbind (validate_replayed_writes writes (storage_view s)) (\<lambda>_. Inr (apply_committed s writes))"

definition advance_next_seq :: "('j, 'f) storage_state \<Rightarrow> u64 \<Rightarrow> ('j, 'f) storage_state" where
  "advance_next_seq s next_seq = s\<lparr>st_next_seq := max (st_next_seq s) next_seq\<rparr>"

section \<open>Branch scan\<close>

definition scan_stops :: "storage_branch_scan \<Rightarrow> ('j, 'f) entry \<Rightarrow> bool" where
  "scan_stops q e \<longleftrightarrow>
     is_some_and (sb_stop_at_id q) (\<lambda>v. v = entry_id e) \<or>
     is_some_and (sb_stop_at_type q) (\<lambda>v. v = type_of_entry e)"

definition scan_keeps :: "storage_branch_scan \<Rightarrow> scan_order \<Rightarrow> ('j, 'f) entry \<Rightarrow> bool" where
  "scan_keeps q order e \<longleftrightarrow>
     is_none_or (sb_entry_type q) (\<lambda>v. v = type_of_entry e) \<and>
     is_none_or (sb_custom_type q) (\<lambda>v. entry_custom_type e = Some v) \<and>
     is_none_or (sb_cursor q) (\<lambda>c. case order of
         Asc \<Rightarrow> ec_seq c < entry_seq e
       | Desc \<Rightarrow> entry_seq e < ec_seq c)"

text \<open>
  The loop of \<open>scan_branch\<close>. Each turn adds a stored id to \<open>seen\<close>, so the number of stored
  ids not yet seen decreases. The code's \<open>stop\<close> test compares the stop id with the looked-up
  id, which is the id of the entry in a well-formed state; the walk passes the looked-up id.
\<close>

function scan_walk ::
  "('j, 'f) storage_state \<Rightarrow> storage_branch_scan \<Rightarrow> scan_order \<Rightarrow> nat \<Rightarrow> entry_id
    \<Rightarrow> ('j, 'f) entry list \<Rightarrow> entry_id set \<Rightarrow> session_error + ('j, 'f) entry list" where
  "scan_walk s q order limit i output seen =
     (if i \<in> seen then Inl (Invariant ''cycle in branch ancestry'')
      else case bt_get (st_entries s) i of
          None \<Rightarrow> Inl (UnknownTarget i)
        | Some e \<Rightarrow>
            let stop = is_some_and (sb_stop_at_id q) (\<lambda>v. v = i) \<or>
                       is_some_and (sb_stop_at_type q) (\<lambda>v. v = type_of_entry e);
                output' = (if scan_keeps q order e then output @ [e] else output)
            in if scan_keeps q order e \<and> order = Desc \<and> limit \<le> length output' then Inr output'
               else case entry_parent_id e of
                   None \<Rightarrow> Inr output'
                 | Some parent \<Rightarrow>
                     if stop then Inr output'
                     else scan_walk s q order limit parent output' (insert i seen))"
  by pat_completeness auto
termination
proof (relation "measure (\<lambda>(s, q, order, limit, i, output, seen). card (fst ` set (st_entries s) - seen))",
    goal_cases)
  case 1
  then show ?case by simp
next
  case (2 s q order limit i out seen e stop out' parent)
  have "i \<in> fst ` set (st_entries s)"
    using 2(2) by (metis domI dom_map_of_conv_image_fst)
  with 2(1) have "fst ` set (st_entries s) - insert i seen \<subset> fst ` set (st_entries s) - seen"
    by blast
  then show ?case
    by (simp add: psubset_card_mono)
qed

declare scan_walk.simps [simp del]

definition scan_branch ::
  "('j, 'f) storage_state \<Rightarrow> storage_branch_scan \<Rightarrow> session_error + ('j, 'f) entry list" where
  "scan_branch s q =
     (let order = unwrap_or (sb_order q) Desc;
          limit = scan_limit (sb_limit q)
      in rbind (scan_walk s q order limit (sb_start q) [] {}) (\<lambda>output.
         Inr (take limit (if order = Asc then rev output else output))))"

section \<open>The storage handle\<close>

record call_context =
  cx_cancelled :: bool

definition without_cancellation :: "call_context \<Rightarrow> call_context" where
  "without_cancellation cx = cx\<lparr>cx_cancelled := False\<rparr>"

definition closed_error :: session_error where
  "closed_error = Backend (storage_failure_new Closed ''session storage is closed'')"

definition aborted_error :: session_error where
  "aborted_error = Backend (storage_failure_new Aborted ''operation cancelled'')"

definition check_context :: "call_context \<Rightarrow> session_error + unit" where
  "check_context cx = (if cx_cancelled cx then Inl aborted_error else Inr ())"

record ('j, 'f) memory_storage =
  ms_state :: "('j, 'f) storage_state"
  ms_closed :: bool

definition memory_storage_new :: "('j, 'f::zero) memory_storage" where
  "memory_storage_new = \<lparr>ms_state = storage_new, ms_closed = False\<rparr>"

definition memory_attach :: "('j, 'f) storage_state \<Rightarrow> ('j, 'f) memory_storage" where
  "memory_attach s = \<lparr>ms_state = s, ms_closed = False\<rparr>"

definition memory_ensure_open :: "('j, 'f) memory_storage \<Rightarrow> session_error + unit" where
  "memory_ensure_open m = (if ms_closed m then Inl closed_error else Inr ())"

definition memory_guard :: "('j, 'f) memory_storage \<Rightarrow> call_context \<Rightarrow> session_error + unit" where
  "memory_guard m cx = rbind (check_context cx) (\<lambda>_. memory_ensure_open m)"

text \<open>\<open>now\<close> is the result of reading the system clock.\<close>

definition memory_commit ::
  "session_error + i64 \<Rightarrow> ('j, 'f::plus) memory_storage \<Rightarrow> ('j, 'f) session_write list \<Rightarrow> call_context
    \<Rightarrow> session_error + (('j, 'f) memory_storage \<times> 'f commit_result)" where
  "memory_commit now m writes cx =
     rbind (memory_guard m cx) (\<lambda>_.
     rbind (memory_ensure_open m) (\<lambda>_.
     rbind now (\<lambda>timestamp.
     rbind (apply_batch (ms_state m) writes timestamp) (\<lambda>(s', result).
     Inr (m\<lparr>ms_state := s'\<rparr>, result)))))"

fun collect_entries ::
  "('j, 'f) storage_state \<Rightarrow> entry_id list \<Rightarrow> (entry_id, ('j, 'f) entry) btree_map" where
  "collect_entries s [] = []"
| "collect_entries s (i # ids) =
     (case bt_get (st_entries s) i of
        None \<Rightarrow> collect_entries s ids
      | Some e \<Rightarrow> bt_insert i e (collect_entries s ids))"

definition memory_get_entries ::
  "('j, 'f) memory_storage \<Rightarrow> entry_id list \<Rightarrow> call_context
    \<Rightarrow> session_error + (entry_id, ('j, 'f) entry) btree_map" where
  "memory_get_entries m ids cx =
     rbind (memory_guard m cx) (\<lambda>_. Inr (collect_entries (ms_state m) ids))"

definition memory_get_value ::
  "('j, 'f) memory_storage \<Rightarrow> raw_address \<Rightarrow> call_context \<Rightarrow> session_error + 'j raw_stored_value option" where
  "memory_get_value m addr cx =
     rbind (memory_guard m cx) (\<lambda>_.
       Inr (bt_get (st_values (ms_state m)) (ra_namespace addr, ra_key addr)))"

definition memory_scan_values ::
  "('j, 'f) memory_storage \<Rightarrow> raw_address \<Rightarrow> call_context \<Rightarrow> session_error + 'j raw_stored_value list" where
  "memory_scan_values m pre cx =
     rbind (memory_guard m cx) (\<lambda>_.
       Inr (filter (\<lambda>v. rv_namespace v = ra_namespace pre \<and> prefix (ra_key pre) (rv_key v))
             (bt_values (st_values (ms_state m)))))"

definition list_window ::
  "resolved_list_read_options \<Rightarrow> 'j raw_list_element list \<Rightarrow> 'j raw_list_element list" where
  "list_window options elements =
     (let retained = (case ro_cursor options of
            None \<Rightarrow> elements
          | Some cursor \<Rightarrow> filter (\<lambda>item. case ro_order options of
                Asc \<Rightarrow> lc_seq cursor < rl_seq item
              | Desc \<Rightarrow> rl_seq item < lc_seq cursor) elements);
          ordered = (if ro_order options = Desc then rev retained else retained)
      in take (unat (ro_limit options)) ordered)"

definition memory_read_list ::
  "('j, 'f) memory_storage \<Rightarrow> raw_address \<Rightarrow> list_read_options option \<Rightarrow> call_context
    \<Rightarrow> session_error + 'j raw_list_element list" where
  "memory_read_list m addr options cx =
     rbind (memory_guard m cx) (\<lambda>_.
     rbind (map_err (\<lambda>_. Invariant ''list limit must be positive'')
              (resolve_list_read_options options)) (\<lambda>options.
     Inr (list_window options
            (unwrap_or (bt_get (st_lists (ms_state m)) (ra_namespace addr, ra_key addr)) []))))"

definition memory_scan_branch ::
  "('j, 'f) memory_storage \<Rightarrow> storage_branch_scan \<Rightarrow> call_context \<Rightarrow> session_error + ('j, 'f) entry list" where
  "memory_scan_branch m q cx = rbind (memory_guard m cx) (\<lambda>_. scan_branch (ms_state m) q)"

definition memory_scan_branch_structure ::
  "('j, 'f) memory_storage \<Rightarrow> storage_branch_scan \<Rightarrow> call_context \<Rightarrow> session_error + entry_structure list" where
  "memory_scan_branch_structure m q cx =
     rbind (memory_scan_branch m q cx) (\<lambda>entries. Inr (map entry_structure_from entries))"

definition memory_scan_entries ::
  "('j, 'f) memory_storage \<Rightarrow> entry_scan \<Rightarrow> call_context \<Rightarrow> session_error + ('j, 'f) entry list" where
  "memory_scan_entries m q cx =
     rbind (memory_guard m cx) (\<lambda>_.
       let entries = filter (\<lambda>e.
             is_none_or (es_from_seq q) (\<lambda>v. v \<le> entry_seq e) \<and>
             is_none_or (es_to_seq q) (\<lambda>v. entry_seq e \<le> v) \<and>
             is_none_or (es_entry_type q) (\<lambda>v. type_of_entry e = v) \<and>
             is_none_or (es_custom_type q) (\<lambda>v. entry_custom_type e = Some v))
             (bt_values (st_entries (ms_state m)));
           sorted = sort_key entry_seq entries;
           ordered = (if es_order q = Some Desc then rev sorted else sorted)
       in Inr (take (scan_limit (es_limit q)) ordered))"

definition memory_scan_usage ::
  "('j, 'f) memory_storage \<Rightarrow> usage_scan \<Rightarrow> call_context \<Rightarrow> session_error + ('j, 'f) usage_row list" where
  "memory_scan_usage m q cx =
     rbind (memory_guard m cx) (\<lambda>_.
       let rows = filter (\<lambda>row.
             is_none_or (uq_from_seq q) (\<lambda>v. v \<le> ur_seq row) \<and>
             is_none_or (uq_to_seq q) (\<lambda>v. ur_seq row \<le> v))
             (bt_values (st_usage (ms_state m)));
           sorted = sort_key ur_seq rows;
           ordered = (if uq_order q = Some Desc then rev sorted else sorted)
       in Inr (take (scan_limit (uq_limit q)) ordered))"

definition memory_get_stats ::
  "('j, 'f) memory_storage \<Rightarrow> call_context \<Rightarrow> session_error + 'f session_stats" where
  "memory_get_stats m cx = rbind (memory_guard m cx) (\<lambda>_. Inr (st_stats (ms_state m)))"

definition memory_close ::
  "('j, 'f) memory_storage \<Rightarrow> call_context \<Rightarrow> session_error + ('j, 'f) memory_storage" where
  "memory_close m cx = rbind (check_context cx) (\<lambda>_. Inr (m\<lparr>ms_closed := True\<rparr>))"

end
