(* ===== verification/Session_Storage_Inv.thy ===== *)
theory Session_Storage_Inv
  imports Session_Memory
begin

text \<open>
  The invariant of the durable state and its preservation by commit and replay; journal
  recovery: replaying everything a session ever committed rebuilds its state.
\<close>

section \<open>The invariant\<close>

definition keys_ok :: "('j, 'f) storage_state \<Rightarrow> bool" where
  "keys_ok s \<longleftrightarrow>
     bt_ok (st_entries s) \<and> bt_ok (st_entries_by_seq s) \<and> bt_ok (st_values s) \<and>
     bt_ok (st_lists s) \<and> bt_ok (st_usage s) \<and>
     (\<forall>i e. bt_get (st_entries s) i = Some e \<longrightarrow> entry_id e = i) \<and>
     (\<forall>i r. bt_get (st_usage s) i = Some r \<longrightarrow> ur_id r = i) \<and>
     (\<forall>ns k v. bt_get (st_values s) (ns, k) = Some v \<longrightarrow>
        rv_namespace v = ns \<and> rv_key v = k \<and> rv_kind v = Ak_Value)"

definition bounds_ok :: "('j, 'f) storage_state \<Rightarrow> bool" where
  "bounds_ok s \<longleftrightarrow>
     st_next_seq s \<noteq> 0 \<and>
     (\<forall>i e. bt_get (st_entries s) i = Some e \<longrightarrow> 0 < entry_seq e \<and> entry_seq e < st_next_seq s) \<and>
     (\<forall>i r. bt_get (st_usage s) i = Some r \<longrightarrow> 0 < ur_seq r \<and> ur_seq r < st_next_seq s) \<and>
     (\<forall>n v. bt_get (st_values s) n = Some v \<longrightarrow> rv_seq v < st_next_seq s) \<and>
     (\<forall>n l. bt_get (st_lists s) n = Some l \<longrightarrow>
        sorted_wrt (<) (map rl_seq l) \<and> (\<forall>x \<in> set l. rl_seq x < st_next_seq s))"

definition unique_ok :: "('j, 'f) storage_state \<Rightarrow> bool" where
  "unique_ok s \<longleftrightarrow>
     (\<forall>i r j r'. bt_get (st_usage s) i = Some r \<and> bt_get (st_usage s) j = Some r' \<and>
        ur_seq r = ur_seq r' \<longrightarrow> i = j) \<and>
     (\<forall>i e j r. bt_get (st_entries s) i = Some e \<and> bt_get (st_usage s) j = Some r \<longrightarrow>
        entry_seq e \<noteq> ur_seq r)"

definition index_ok :: "('j, 'f) storage_state \<Rightarrow> bool" where
  "index_ok s \<longleftrightarrow>
     (\<forall>n i. bt_get (st_entries_by_seq s) n = Some i \<longleftrightarrow>
        (\<exists>e. bt_get (st_entries s) i = Some e \<and> entry_seq e = n))"

definition parents_ok :: "('j, 'f) storage_state \<Rightarrow> bool" where
  "parents_ok s \<longleftrightarrow>
     (\<forall>i e p. bt_get (st_entries s) i = Some e \<and> entry_parent_id e = Some p \<longrightarrow>
        (\<exists>pe. bt_get (st_entries s) p = Some pe \<and> entry_seq pe < entry_seq e))"

definition ids_ok :: "('j, 'f) storage_state \<Rightarrow> bool" where
  "ids_ok s \<longleftrightarrow> dom (bt_get (st_entries s)) \<inter> dom (bt_get (st_usage s)) = {}"

definition storage_wf :: "('j, 'f) storage_state \<Rightarrow> bool" where
  "storage_wf s \<longleftrightarrow> keys_ok s \<and> bounds_ok s \<and> unique_ok s \<and> index_ok s \<and> parents_ok s \<and> ids_ok s"

lemmas wf_defs = storage_wf_def keys_ok_def bounds_ok_def unique_ok_def index_ok_def
  parents_ok_def ids_ok_def

lemma storage_wf_new: "storage_wf storage_new"
  by (simp add: wf_defs storage_new_def bt.emp_ok)

section \<open>One write\<close>

text \<open>What both validators guarantee of the next write.\<close>

definition admissible :: "('j, 'f) storage_state \<Rightarrow> ('j, 'f) committed_write \<Rightarrow> bool" where
  "admissible s w \<longleftrightarrow>
     st_next_seq s \<le> committed_seq w \<and> committed_seq w \<noteq> - 1 \<and>
     (\<forall>i. committed_id w = Some i \<longrightarrow> \<not> cv_contains_id (storage_view s) i) \<and>
     (\<forall>e p. w = CommittedEntry e \<and> entry_parent_id e = Some p \<longrightarrow>
        cv_contains_entry_id (storage_view s) p)"

lemma view_sel [simp]:
  "cv_contains_id (storage_view s) i \<longleftrightarrow>
     i \<in> dom (bt_get (st_entries s)) \<or> i \<in> dom (bt_get (st_usage s))"
  "cv_contains_entry_id (storage_view s) i \<longleftrightarrow> i \<in> dom (bt_get (st_entries s))"
  "cv_next_seq (storage_view s) = st_next_seq s"
  by (simp_all add: storage_view_def)

lemma apply_one_next [simp]: "st_next_seq (apply_one s w) = saturating_add (committed_seq w) 1"
  by (simp add: apply_one_def)

lemma admissible_next:
  assumes "admissible s w"
  shows "committed_seq w < st_next_seq (apply_one s w)" "st_next_seq s \<le> committed_seq w"
    "st_next_seq s < st_next_seq (apply_one s w)"
  using assms less_saturating_add1 [of "committed_seq w"]
  by (auto simp: admissible_def intro: le_less_trans)

lemma keys_ok_apply:
  assumes "keys_ok s"
  shows "keys_ok (apply_one s w)"
  using assms
  by (cases "(s, w)" rule: apply_write.cases)
    (auto simp: keys_ok_def apply_one_def bt_simps split: if_splits)

lemma entries_apply_one:
  "bt_get (st_entries (apply_one s w)) =
     (case w of CommittedEntry e \<Rightarrow> (bt_get (st_entries s))(entry_id e \<mapsto> e) | _ \<Rightarrow> bt_get (st_entries s))"
  by (cases "(s, w)" rule: apply_write.cases) (simp_all add: apply_one_def bt_get_insert)

lemma usage_apply_one:
  "bt_get (st_usage (apply_one s w)) =
     (case w of CommittedUsage r \<Rightarrow> (bt_get (st_usage s))(ur_id r \<mapsto> r) | _ \<Rightarrow> bt_get (st_usage s))"
  by (cases "(s, w)" rule: apply_write.cases) (simp_all add: apply_one_def bt_get_insert)

lemma values_apply_one:
  "bt_get (st_values (apply_one s w)) =
     (case w of
        CommittedValue (CommittedSet seq ns k v) \<Rightarrow> (bt_get (st_values s))((ns, k) \<mapsto>
          \<lparr>rv_namespace = ns, rv_key = k, rv_kind = Ak_Value, rv_value = v, rv_seq = seq\<rparr>)
      | CommittedValue (CommittedValueDelete seq ns k) \<Rightarrow> (bt_get (st_values s))((ns, k) := None)
      | _ \<Rightarrow> bt_get (st_values s))"
  by (cases "(s, w)" rule: apply_write.cases) (simp_all add: apply_one_def bt_get_insert bt_get_remove)

lemma lists_apply_one:
  "bt_get (st_lists (apply_one s w)) =
     (case w of
        CommittedList (CommittedAppend seq ns k v) \<Rightarrow> (bt_get (st_lists s))((ns, k) \<mapsto>
          unwrap_or (bt_get (st_lists s) (ns, k)) [] @ [\<lparr>rl_seq = seq, rl_value = v\<rparr>])
      | CommittedList (CommittedListDelete seq ns k) \<Rightarrow> (bt_get (st_lists s))((ns, k) := None)
      | _ \<Rightarrow> bt_get (st_lists s))"
  by (cases "(s, w)" rule: apply_write.cases) (simp_all add: apply_one_def bt_get_insert bt_get_remove)

lemma bounds_mono:
  assumes "bounds_ok s" and "st_next_seq s \<le> n"
  shows "bt_get (st_entries s) i = Some e \<Longrightarrow> entry_seq e < n"
    and "bt_get (st_usage s) i = Some r \<Longrightarrow> ur_seq r < n"
    and "bt_get (st_values s) k = Some v \<Longrightarrow> rv_seq v < n"
    and "bt_get (st_lists s) k = Some l \<Longrightarrow> x \<in> set l \<Longrightarrow> rl_seq x < n"
  using assms unfolding bounds_ok_def by (meson less_le_trans)+

lemma bounds_listD: "bounds_ok s \<Longrightarrow> bt_get (st_lists s) k = Some l \<Longrightarrow> sorted_wrt (<) (map rl_seq l)"
  unfolding bounds_ok_def by blast

lemma bounds_ok_apply:
  assumes s: "bounds_ok s" and a: "admissible s w"
  shows "bounds_ok (apply_one s w)"
proof -
  let ?s = "apply_one s w"
  have n: "st_next_seq s \<le> st_next_seq ?s" "committed_seq w < st_next_seq ?s" "st_next_seq ?s \<noteq> 0"
    using admissible_next [OF a] by auto
  note old = bounds_mono [OF s n(1)]
  note new = bounds_mono [OF s admissible_next(2) [OF a]]
  have pos: "0 < committed_seq w"
    using s admissible_next(2) [OF a] by (auto simp: bounds_ok_def word_gt_0 intro: less_le_trans)
  have "0 < entry_seq e \<and> entry_seq e < st_next_seq ?s" if "bt_get (st_entries ?s) i = Some e" for i e
    using that old(1) n(2) pos s
    by (cases w) (auto simp: bounds_ok_def entries_apply_one simp del: apply_one_next split: if_splits)
  moreover have "0 < ur_seq r \<and> ur_seq r < st_next_seq ?s" if "bt_get (st_usage ?s) i = Some r" for i r
    using that old(2) n(2) pos s
    by (cases w) (auto simp: bounds_ok_def usage_apply_one simp del: apply_one_next split: if_splits)
  moreover have "rv_seq v < st_next_seq ?s" if "bt_get (st_values ?s) k = Some v" for k v
    using that old(3) n(2)
    by (auto simp: values_apply_one simp del: apply_one_next
        split: if_splits committed_write.splits committed_value_write.splits)
  moreover have "sorted_wrt (<) (map rl_seq l) \<and> (\<forall>x \<in> set l. rl_seq x < st_next_seq ?s)"
    if l: "bt_get (st_lists ?s) k = Some l" for k l
  proof (cases "bt_get (st_lists s) k = Some l")
    case True
    with bounds_listD [OF s] old(4) show ?thesis
      by blast
  next
    case False
    with l obtain seq v ns key where w: "w = CommittedList (CommittedAppend seq ns key v)"
      and k: "k = (ns, key)"
      and l': "l = unwrap_or (bt_get (st_lists s) k) [] @ [\<lparr>rl_seq = seq, rl_value = v\<rparr>]"
      by (auto simp: lists_apply_one split: if_splits committed_write.splits committed_list_write.splits)
    show ?thesis
    proof (cases "bt_get (st_lists s) k")
      case None
      with l' w n(2) show ?thesis by simp
    next
      case (Some l0)
      moreover have "sorted_wrt (<) (map rl_seq l0)"
        using s Some by (rule bounds_listD)
      ultimately show ?thesis
        using l' w n(2) old(4) new(4) by (auto simp: sorted_wrt_append simp del: apply_one_next)
    qed
  qed
  ultimately show ?thesis
    using n(3) unfolding bounds_ok_def by blast
qed

lemma unique_ok_apply:
  assumes b: "bounds_ok s" and u: "unique_ok s" and a: "admissible s w"
  shows "unique_ok (apply_one s w)"
proof -
  note new = bounds_mono [OF b admissible_next(2) [OF a], THEN less_imp_neq]
  show ?thesis
  proof (cases w)
    case (CommittedEntry e)
    then show ?thesis
      using u new(2) unfolding unique_ok_def
      by (auto simp: entries_apply_one usage_apply_one dest!: sym [of "entry_seq e"])
  next
    case (CommittedUsage r)
    have "ur_seq r' \<noteq> ur_seq r" if "bt_get (st_usage s) j = Some r'" for j r'
      using new(2) [OF that] CommittedUsage by simp
    moreover have "entry_seq e \<noteq> ur_seq r" if "bt_get (st_entries s) j = Some e" for j e
      using new(1) [OF that] CommittedUsage by simp
    ultimately show ?thesis
      using u CommittedUsage unfolding unique_ok_def
      by (simp add: entries_apply_one usage_apply_one) metis
  qed (use u in \<open>simp_all only: unique_ok_def entries_apply_one usage_apply_one
      committed_write.case\<close>)
qed

lemma index_ok_apply:
  assumes "keys_ok s" and "bounds_ok s" and "index_ok s" and "admissible s w"
  shows "index_ok (apply_one s w)"
proof -
  have lt: "\<And>x. x < st_next_seq s \<Longrightarrow> x \<noteq> committed_seq w"
    using admissible_next(2) [OF assms(4)] by auto
  show ?thesis
  proof (cases w)
    case (CommittedEntry e)
    have fresh: "bt_get (st_entries s) (entry_id e) = None"
      using assms(4) CommittedEntry by (auto simp: admissible_def)
    show ?thesis
      unfolding index_ok_def
    proof (intro allI)
      fix n i
      show "bt_get (st_entries_by_seq (apply_one s w)) n = Some i \<longleftrightarrow>
          (\<exists>e'. bt_get (st_entries (apply_one s w)) i = Some e' \<and> entry_seq e' = n)"
        using assms(1-3) fresh lt unfolding keys_ok_def bounds_ok_def index_ok_def
        by (cases "i = entry_id e"; cases "n = entry_seq e")
          (auto simp: apply_one_def CommittedEntry bt_simps)
    qed
  next
    case (CommittedUsage r)
    then show ?thesis
      using assms(3) by (simp add: index_ok_def apply_one_def)
  next
    case (CommittedValue v)
    then show ?thesis
      using assms(3) by (cases v) (simp_all add: index_ok_def apply_one_def)
  next
    case (CommittedList l)
    then show ?thesis
      using assms(3) by (cases l) (simp_all add: index_ok_def apply_one_def)
  qed
qed

lemma parents_ok_apply:
  assumes "bounds_ok s" and "parents_ok s" and "admissible s w"
  shows "parents_ok (apply_one s w)"
proof (cases w)
  case (CommittedEntry e)
  have lt: "\<And>x. x < st_next_seq s \<Longrightarrow> x < entry_seq e"
    using admissible_next(2) [OF assms(3)] CommittedEntry by (auto intro: less_le_trans)
  have fresh: "bt_get (st_entries s) (entry_id e) = None"
    and par: "entry_parent_id e = Some p \<Longrightarrow> \<exists>pe. bt_get (st_entries s) p = Some pe" for p
    using assms(3) CommittedEntry by (auto simp: admissible_def)
  show ?thesis
    unfolding parents_ok_def
  proof (intro allI impI)
    fix i e' p
    assume h: "bt_get (st_entries (apply_one s w)) i = Some e' \<and> entry_parent_id e' = Some p"
    show "\<exists>pe. bt_get (st_entries (apply_one s w)) p = Some pe \<and> entry_seq pe < entry_seq e'"
    proof (cases "i = entry_id e")
      case True
      with h CommittedEntry have e': "e' = e"
        by (simp add: entries_apply_one)
      with par h obtain pe where pe: "bt_get (st_entries s) p = Some pe"
        by blast
      then have "entry_seq pe < entry_seq e"
        using assms(1) lt by (auto simp: bounds_ok_def)
      with pe fresh e' CommittedEntry show ?thesis
        by (auto simp: entries_apply_one)
    next
      case False
      with h CommittedEntry have "bt_get (st_entries s) i = Some e'"
        by (simp add: entries_apply_one)
      with h assms(2) obtain pe where "bt_get (st_entries s) p = Some pe" "entry_seq pe < entry_seq e'"
        unfolding parents_ok_def by blast
      with fresh CommittedEntry show ?thesis
        by (auto simp: entries_apply_one)
    qed
  qed
qed (use assms(2) in \<open>simp_all only: parents_ok_def entries_apply_one committed_write.case\<close>)

lemma ids_ok_apply:
  assumes "ids_ok s" and "admissible s w"
  shows "ids_ok (apply_one s w)"
  using assms
  by (cases w) (auto simp: ids_ok_def admissible_def entries_apply_one usage_apply_one)

lemma storage_wf_apply_one: "storage_wf s \<Longrightarrow> admissible s w \<Longrightarrow> storage_wf (apply_one s w)"
  by (simp add: storage_wf_def keys_ok_apply bounds_ok_apply unique_ok_apply
      index_ok_apply parents_ok_apply ids_ok_apply)

section \<open>Replay\<close>

text \<open>No write has the largest sequence number, after which \<open>next_seq\<close> saturates.\<close>

definition no_max :: "('j, 'f) committed_write list \<Rightarrow> bool" where
  "no_max ws \<longleftrightarrow> (\<forall>w \<in> set ws. committed_seq w \<noteq> - 1)"

lemma no_max_simps [simp]:
  "no_max []" "no_max (w # ws) \<longleftrightarrow> committed_seq w \<noteq> - 1 \<and> no_max ws"
  "no_max (ws @ vs) \<longleftrightarrow> no_max ws \<and> no_max vs"
  by (auto simp: no_max_def)

lemma saturating_sub_add1: "x \<noteq> - 1 \<Longrightarrow> saturating_sub (saturating_add x 1) 1 = (x :: u64)"
  by (simp add: word_unat_eq_iff unat_saturating_sub unat_saturating_add1)

lemma view_apply_one:
  "cv_contains_id (storage_view (apply_one s w)) i \<longleftrightarrow>
     cv_contains_id (storage_view s) i \<or> committed_id w = Some i"
  "cv_contains_entry_id (storage_view (apply_one s w)) i \<longleftrightarrow>
     cv_contains_entry_id (storage_view s) i \<or> committed_entry_id w = Some i"
  by (cases w; auto simp: entries_apply_one usage_apply_one)+

lemma replay_loop_ok_view:
  assumes "\<And>i. cv_contains_id v' i \<longleftrightarrow> cv_contains_id v i \<or> i \<in> ids"
    and "\<And>i. cv_contains_entry_id v' i \<longleftrightarrow> cv_contains_entry_id v i \<or> i \<in> eids"
  shows "replay_loop_ok v' prev {} {} ws \<longleftrightarrow> replay_loop_ok v prev ids eids ws"
  unfolding replay_loop_ok_def assms by (simp del: sorted_wrt.simps)

lemma replay_ok_loop: "replay_ok v ws \<longleftrightarrow> replay_loop_ok v (saturating_sub (cv_next_seq v) 1) {} {} ws"
  unfolding replay_ok_def replay_loop_ok_def committed_entry_ids_def by simp

lemma prev_less_iff: "n \<noteq> 0 \<Longrightarrow> saturating_sub n 1 < m \<longleftrightarrow> n \<le> (m :: u64)"
  by (auto simp: word_less_nat_alt word_le_nat_alt unat_saturating_sub word_unat_eq_iff)

lemma replay_ok_Cons:
  assumes "st_next_seq s \<noteq> 0" and "committed_seq w \<noteq> - 1"
  shows "replay_ok (storage_view s) (w # ws) \<longleftrightarrow>
    admissible s w \<and> replay_ok (storage_view (apply_one s w)) ws"
proof -
  have "replay_loop_ok (storage_view s) (committed_seq w) ({} \<union> set_option (committed_id w))
      ({} \<union> set_option (committed_entry_id w)) ws \<longleftrightarrow>
    replay_loop_ok (storage_view (apply_one s w)) (committed_seq w) {} {} ws"
    by (intro replay_loop_ok_view [symmetric]) (auto simp: view_apply_one simp del: view_sel)
  then show ?thesis
    using assms
    by (auto simp: replay_ok_loop replay_loop_ok_Cons admissible_def prev_less_iff
        saturating_sub_add1 simp del: sorted_wrt.simps split: option.splits)
qed

lemma storage_wf_next: "storage_wf s \<Longrightarrow> st_next_seq s \<noteq> 0"
  by (simp add: storage_wf_def bounds_ok_def)

lemma storage_wf_foldl:
  assumes "storage_wf s" and "replay_ok (storage_view s) ws" and "no_max ws"
  shows "storage_wf (foldl apply_one s ws)"
  using assms
proof (induction ws arbitrary: s)
  case Nil
  then show ?case by simp
next
  case (Cons w ws)
  then have "admissible s w" "replay_ok (storage_view (apply_one s w)) ws"
    using replay_ok_Cons storage_wf_next by (metis no_max_simps(2))+
  with Cons show ?case
    by (simp add: storage_wf_apply_one)
qed

lemma replay_ok_append:
  assumes "storage_wf s" and "no_max xs"
  shows "replay_ok (storage_view s) (xs @ ys) \<longleftrightarrow>
    replay_ok (storage_view s) xs \<and> replay_ok (storage_view (foldl apply_one s xs)) ys"
  using assms
proof (induction xs arbitrary: s)
  case Nil
  then show ?case by (simp add: replay_ok_def committed_ids_def)
next
  case (Cons w xs)
  show ?case
  proof (cases "admissible s w")
    case True
    then have "storage_wf (apply_one s w)"
      using Cons.prems(1) by (simp add: storage_wf_apply_one)
    with Cons True show ?thesis
      by (simp add: replay_ok_Cons storage_wf_next)
  next
    case False
    with Cons show ?thesis
      by (simp add: replay_ok_Cons storage_wf_next)
  qed
qed

lemma replay_Inr_iff:
  "replay s ws = Inr r \<longleftrightarrow> replay_ok (storage_view s) ws \<and> r = apply_committed s ws"
  by (auto simp: replay_def rbind_eq_Inr_iff validate_replayed_iff)

section \<open>Commit\<close>

lemma apply_batch_Inr_iff:
  "apply_batch s ws ts = Inr (s', r) \<longleftrightarrow>
     batch_ok (storage_view s) (st_next_seq s) ws \<and>
     s' = foldl apply_one s (map (\<lambda>(i, w). commit_one (st_next_seq s + of_nat i) ts w) (enumerate 0 ws)) \<and>
     r = \<lparr>cr_first_seq = st_next_seq s,
          cr_seqs = map (\<lambda>i. st_next_seq s + of_nat i) [0..<length ws],
          cr_timestamp = ts, cr_stats = st_stats s'\<rparr>"
proof (cases "batch_ok (storage_view s) (st_next_seq s) ws")
  case True
  then show ?thesis
    using commit_writes_ok [OF True, of ts]
    by (auto simp: apply_batch_def rbind_eq_Inr_iff validate_committed_iff apply_committed_def Let_def)
next
  case False
  then show ?thesis
    by (auto simp: apply_batch_def rbind_eq_Inr_iff validate_committed_iff Let_def)
qed

lemma apply_batch_commit:
  assumes "apply_batch s ws ts = Inr (s', r)" and "storage_wf s"
  obtains cs where "commit_writes ws (st_next_seq s) ts = Inr (cs, cr_seqs r)"
    and "s' = foldl apply_one s cs" and "replay_ok (storage_view s) cs"
proof -
  let ?cs = "map (\<lambda>(i, w). commit_one (st_next_seq s + of_nat i) ts w) (enumerate 0 ws)"
  from assms(1) have ok: "batch_ok (storage_view s) (st_next_seq s) ws"
    and s': "s' = foldl apply_one s ?cs"
    and c: "commit_writes ws (st_next_seq s) ts = Inr (?cs, cr_seqs r)"
    by (auto simp: apply_batch_Inr_iff commit_writes_ok)
  have "replay_ok (storage_view s) ?cs"
    using committed_replay_ok [of "storage_view s"] ok c storage_wf_next [OF assms(2)] by simp
  with c s' show thesis
    by (rule that)
qed

lemma no_max_commit:
  assumes "commit_writes ws first ts = Inr (cs, seqs)" and "unat first + length ws < 2 ^ 64"
  shows "no_max cs"
proof -
  have cs: "cs = map (\<lambda>(i, w). commit_one (first + of_nat i) ts w) (enumerate 0 ws)"
    using assms commit_writes_loop_ok [of ws first 0 ts] by (simp add: commit_writes_def)
  have "committed_seq c \<noteq> - 1" if "c \<in> set cs" for c
  proof -
    from that obtain i w where i: "i < length ws" "c = commit_one (first + of_nat i) ts w"
      by (auto simp: cs in_set_enumerate_eq)
    have "unat (first + of_nat i :: u64) = unat first + i"
      using i assms(2) by (intro unat_seq_at) simp
    then have "unat (committed_seq c) < 2 ^ 64 - 1"
      using i assms(2) by simp
    then show ?thesis
      by (auto simp: word_unat_eq_iff unat_minus_1)
  qed
  then show ?thesis
    by (simp add: no_max_def)
qed

lemma storage_wf_apply_batch:
  assumes "storage_wf s" and "apply_batch s ws ts = Inr (s', r)"
    and "unat (st_next_seq s) + length ws < 2 ^ 64"
  shows "storage_wf s'"
proof -
  obtain cs where c: "commit_writes ws (st_next_seq s) ts = Inr (cs, cr_seqs r)"
    and s': "s' = foldl apply_one s cs" and ok: "replay_ok (storage_view s) cs"
    using assms(2,1) by (rule apply_batch_commit)
  show ?thesis
    unfolding s' using assms(1) ok no_max_commit [OF c assms(3)] by (rule storage_wf_foldl)
qed

lemma next_seq_foldl:
  assumes "ws \<noteq> []"
  shows "st_next_seq (foldl apply_one s ws) = saturating_add (committed_seq (last ws)) 1"
  using assms by (induction ws rule: rev_induct) simp_all

lemma next_seq_apply_batch:
  assumes "apply_batch s ws ts = Inr (s', r)" and "unat (st_next_seq s) + length ws < 2 ^ 64"
  shows "unat (st_next_seq s') = unat (st_next_seq s) + length ws"
proof (cases ws rule: rev_cases)
  case Nil
  with assms show ?thesis by (simp add: apply_batch_Inr_iff)
next
  case (snoc vs w)
  let ?last = "st_next_seq s + of_nat (length vs)"
  have "st_next_seq s' = saturating_add ?last 1"
    using assms(1) by (simp add: apply_batch_Inr_iff next_seq_foldl snoc enumerate_append)
  moreover have "unat ?last = unat (st_next_seq s) + length vs"
    using assms(2) by (intro unat_seq_at) (simp add: snoc)
  ultimately show ?thesis
    using assms(2) by (simp add: snoc unat_saturating_add)
qed

section \<open>Journal recovery\<close>

text \<open>
  The journal of a session: the committed writes of a sequence of successful batches, in
  order. Durable backends append exactly these records.
\<close>

fun commit_journal ::
  "('j, 'f::plus) storage_state \<Rightarrow> (('j, 'f) session_write list \<times> i64) list
    \<Rightarrow> session_error + (('j, 'f) storage_state \<times> ('j, 'f) committed_write list)" where
  "commit_journal s [] = Inr (s, [])"
| "commit_journal s ((ws, ts) # bs) =
     rbind (apply_batch s ws ts) (\<lambda>(s', _).
     rbind (commit_writes ws (st_next_seq s) ts) (\<lambda>(cs, _).
     rbind (commit_journal s' bs) (\<lambda>(s'', log). Inr (s'', cs @ log))))"

lemma commit_journal_replay:
  assumes "storage_wf s" and "commit_journal s bs = Inr (s', log)" and "no_max log"
  shows "replay_ok (storage_view s) log \<and> s' = foldl apply_one s log \<and> storage_wf s'"
  using assms
proof (induction bs arbitrary: s log)
  case Nil
  then show ?case by (simp add: replay_ok_def committed_ids_def)
next
  case (Cons b bs)
  obtain ws ts where b: "b = (ws, ts)" by (cases b)
  from Cons.prems(2) b obtain s1 r cs seqs log' where
      a: "apply_batch s ws ts = Inr (s1, r)" and c: "commit_writes ws (st_next_seq s) ts = Inr (cs, seqs)"
      and j: "commit_journal s1 bs = Inr (s', log')" and log: "log = cs @ log'"
    by (auto simp: rbind_eq_Inr_iff)
  from a Cons.prems(1) c have s1: "s1 = foldl apply_one s cs" and ok: "replay_ok (storage_view s) cs"
    by (auto elim!: apply_batch_commit)
  have nm: "no_max cs" "no_max log'"
    using Cons.prems(3) log by auto
  have wf1: "storage_wf s1"
    using storage_wf_foldl [OF Cons.prems(1) ok nm(1)] s1 by simp
  show ?case
    using Cons.IH [OF wf1 j nm(2)] replay_ok_append [OF Cons.prems(1) nm(1)] ok s1 log by auto
qed

end
