(* ===== verification/Session_Scan.thy ===== *)
theory Session_Scan
  imports Session_Storage_Inv
begin

text \<open>
  Scans over well-formed states: the branch scan against the ancestry path, the sequence
  scans against the set of stored records, and pagination of list reads.
\<close>

section \<open>Ancestry\<close>

text \<open>\<open>branch_path s i path\<close>: \<open>path\<close> lists the entries from \<open>i\<close> along parent links to a root.\<close>

inductive branch_path :: "('j, 'f) storage_state \<Rightarrow> entry_id \<Rightarrow> ('j, 'f) entry list \<Rightarrow> bool"
  for s :: "('j, 'f) storage_state" where
  root: "bt_get (st_entries s) i = Some e \<Longrightarrow> entry_parent_id e = None \<Longrightarrow> branch_path s i [e]"
| step: "bt_get (st_entries s) i = Some e \<Longrightarrow> entry_parent_id e = Some p \<Longrightarrow>
    branch_path s p path \<Longrightarrow> branch_path s i (e # path)"

inductive_cases branch_path_ConsE: "branch_path s i (e # path)"
inductive_cases branch_path_NilE [elim!]: "branch_path s i []"

lemma branch_path_hd: "branch_path s i path \<Longrightarrow> \<exists>e path'. path = e # path' \<and> bt_get (st_entries s) i = Some e"
  by (cases rule: branch_path.cases) auto

lemma branch_path_unique: "branch_path s i path \<Longrightarrow> branch_path s i path' \<Longrightarrow> path = path'"
proof (induction arbitrary: path' rule: branch_path.induct)
  case (root i e)
  from root(3) root(1,2) show ?case
    by (cases rule: branch_path.cases) auto
next
  case (step i e p path)
  from step.prems step.hyps(1,2) obtain path'' where "path' = e # path''" "branch_path s p path''"
    by (cases rule: branch_path.cases) auto
  with step.IH show ?case
    by simp
qed

lemma branch_path_exists:
  assumes "parents_ok s" and "bt_get (st_entries s) i = Some e"
  shows "\<exists>path. branch_path s i path"
  using assms(2)
proof (induction "unat (entry_seq e)" arbitrary: i e rule: less_induct)
  case less
  show ?case
  proof (cases "entry_parent_id e")
    case None
    with less.prems show ?thesis
      by (blast intro: branch_path.root)
  next
    case (Some p)
    with assms(1) less.prems obtain pe where "bt_get (st_entries s) p = Some pe" "entry_seq pe < entry_seq e"
      unfolding parents_ok_def by blast
    then obtain path where "branch_path s p path"
      using less.hyps by (auto simp: word_less_nat_alt)
    with less.prems Some show ?thesis
      by (blast intro: branch_path.step)
  qed
qed

lemma branch_path_stored:
  assumes "branch_path s i path" and "keys_ok s" and "e \<in> set path"
  shows "bt_get (st_entries s) (entry_id e) = Some e"
  using assms by (induction rule: branch_path.induct) (auto simp: keys_ok_def)

lemma branch_path_sorted:
  assumes "branch_path s i path" and "parents_ok s"
  shows "sorted_wrt (\<lambda>a b. entry_seq b < entry_seq a) path"
  using assms
proof (induction rule: branch_path.induct)
  case (root i e)
  then show ?case by simp
next
  case (step i e p path)
  obtain pe path' where path: "path = pe # path'" and pe: "bt_get (st_entries s) p = Some pe"
    using branch_path_hd [OF step.hyps(3)] by blast
  have "entry_seq pe < entry_seq e"
    using step.hyps(1,2) step.prems pe unfolding parents_ok_def by fastforce
  with step.IH [OF step.prems] show ?case
    by (auto simp: path)
qed

lemma branch_path_distinct:
  assumes "branch_path s i path" and "parents_ok s" and "keys_ok s"
  shows "distinct (map entry_id path)"
proof -
  have "inj_on entry_id (set path)"
    using branch_path_stored [OF assms(1,3)] by (metis inj_onI option.inject)
  moreover have "distinct path"
    using branch_path_sorted [OF assms(1,2)] by (induction path) auto
  ultimately show ?thesis
    by (simp add: distinct_map)
qed

section \<open>The branch scan\<close>

text \<open>The part of a path a scan visits: up to and including the first stop entry.\<close>

fun upto_stop :: "('a \<Rightarrow> bool) \<Rightarrow> 'a list \<Rightarrow> 'a list" where
  "upto_stop stop [] = []"
| "upto_stop stop (e # es) = (if stop e then [e] else e # upto_stop stop es)"

definition scan_result :: "storage_branch_scan \<Rightarrow> ('j, 'f) entry list \<Rightarrow> ('j, 'f) entry list" where
  "scan_result q path =
     (let order = unwrap_or (sb_order q) Desc;
          kept = filter (scan_keeps q order) (upto_stop (scan_stops q) path)
      in take (scan_limit (sb_limit q)) (if order = Asc then rev kept else kept))"

lemma scan_walk_path:
  assumes "branch_path s i path" and "keys_ok s" and "distinct (map entry_id path)"
    and "seen \<inter> entry_id ` set path = {}"
  shows "\<exists>r. scan_walk s q order limit i out seen = Inr r \<and>
     take limit r = take limit (out @ filter (scan_keeps q order) (upto_stop (scan_stops q) path)) \<and>
     (order = Asc \<longrightarrow> r = out @ filter (scan_keeps q order) (upto_stop (scan_stops q) path))"
  using assms
proof (induction arbitrary: out seen rule: branch_path.induct)
  case (root i e)
  then have i: "entry_id e = i" "i \<notin> seen"
    by (auto simp: keys_ok_def)
  with root show ?case
    by (subst scan_walk.simps) (auto simp: Let_def)
next
  case (step i e p path)
  then have i: "entry_id e = i" "i \<notin> seen"
    by (auto simp: keys_ok_def)
  let ?keep = "scan_keeps q order e" and ?stop = "scan_stops q e"
  let ?out = "if ?keep then out @ [e] else out"
  have stop: "(is_some_and (sb_stop_at_id q) (\<lambda>v. v = i) \<or>
      is_some_and (sb_stop_at_type q) (\<lambda>v. v = type_of_entry e)) \<longleftrightarrow> ?stop"
    by (simp add: scan_stops_def i)
  have unfold: "scan_walk s q order limit i out seen =
      (if ?keep \<and> order = Desc \<and> limit \<le> length ?out then Inr ?out
       else if ?stop then Inr ?out else scan_walk s q order limit p ?out (insert i seen))"
    using i(2) step.hyps(1,2) by (subst scan_walk.simps) (auto simp: Let_def stop simp del: length_append)
  have IH: "\<exists>r. scan_walk s q order limit p ?out (insert i seen) = Inr r \<and>
     take limit r = take limit (?out @ filter (scan_keeps q order) (upto_stop (scan_stops q) path)) \<and>
     (order = Asc \<longrightarrow> r = ?out @ filter (scan_keeps q order) (upto_stop (scan_stops q) path))"
    using step.prems i by (intro step.IH) auto
  show ?case
  proof (cases "?keep \<and> order = Desc \<and> limit \<le> length ?out")
    case True
    then have "limit - length out \<le> 1" by auto
    with True show ?thesis
      unfolding unfold by (cases "limit - length out") auto
  next
    case False
    show ?thesis
      using IH unfolding unfold if_not_P [OF False] by (cases ?stop; cases ?keep) auto
  qed
qed

lemma scan_branch_path:
  assumes "storage_wf s" and "branch_path s (sb_start q) path"
  shows "scan_branch s q = Inr (scan_result q path)"
proof -
  let ?order = "unwrap_or (sb_order q) Desc" and ?limit = "scan_limit (sb_limit q)"
  have k: "keys_ok s" and p: "parents_ok s"
    using assms(1) by (simp_all add: storage_wf_def)
  obtain r where r: "scan_walk s q ?order ?limit (sb_start q) [] {} = Inr r"
    "take ?limit r = take ?limit (filter (scan_keeps q ?order) (upto_stop (scan_stops q) path))"
    "?order = Asc \<longrightarrow> r = filter (scan_keeps q ?order) (upto_stop (scan_stops q) path)"
    using scan_walk_path [OF assms(2) k branch_path_distinct [OF assms(2) p k], of "{}" q ?order ?limit "[]"]
    by auto
  then show ?thesis
    by (auto simp: scan_branch_def scan_result_def Let_def)
qed

section \<open>Sequence scans\<close>

lemma memory_guard_Inr [simp]:
  "memory_guard m cx = Inr u \<longleftrightarrow> \<not> cx_cancelled cx \<and> \<not> ms_closed m"
  by (simp add: memory_guard_def check_context_def memory_ensure_open_def)

lemma entry_seq_inj:
  assumes "index_ok s" and "keys_ok s"
  shows "inj_on entry_seq (set (bt_values (st_entries s)))"
proof (rule inj_onI)
  fix a b
  assume h: "a \<in> set (bt_values (st_entries s))" "b \<in> set (bt_values (st_entries s))" "entry_seq a = entry_seq b"
  then obtain i j where "bt_get (st_entries s) i = Some a" "bt_get (st_entries s) j = Some b"
    using assms(2) by (auto simp: mem_bt_values_iff keys_ok_def)
  moreover from this have "i = j"
    using assms(1) h(3) unfolding index_ok_def by (metis option.inject)
  ultimately show "a = b"
    by simp
qed

lemma distinct_bt_values:
  assumes "bt_ok m" and "\<And>k v. bt_get m k = Some v \<Longrightarrow> f v = k"
  shows "distinct (bt_values m)"
proof -
  have "map f (bt_values m) = map fst m"
    using assms bt.mem_elems_iff [OF assms(1)] by (auto simp: bt_values_def)
  then show ?thesis
    using bt.elems_distinct [OF assms(1)] by (metis distinct_map)
qed

section \<open>List pagination\<close>

lemma list_window_next:
  assumes sorted: "sorted_wrt (<) (map rl_seq xs)" and n: "n < length xs" and n0: "0 < n"
  shows "filter (\<lambda>x. rl_seq (xs ! (n - 1)) < rl_seq x) xs = drop n xs"
proof -
  have split: "xs = take n xs @ drop n xs" by simp
  have lt: "rl_seq (xs ! i) < rl_seq (xs ! j)" if "i < j" "j < length xs" for i j
    using sorted that by (auto simp: sorted_wrt_iff_nth_less)
  have "filter (\<lambda>x. rl_seq (xs ! (n - 1)) < rl_seq x) (take n xs) = []"
  proof -
    have "\<not> rl_seq (xs ! (n - 1)) < rl_seq x" if "x \<in> set (take n xs)" for x
    proof -
      from that obtain i where i: "i < n" "x = xs ! i"
        using n by (auto simp: in_set_conv_nth)
      then have "i = n - 1 \<or> i < n - 1" by linarith
      then show ?thesis
        using i n lt [of i "n - 1"] less_trans [OF diff_less [OF zero_less_one n0] n]
        by (metis less_asym less_irrefl)
    qed
    then show ?thesis by (simp add: filter_empty_conv)
  qed
  moreover have "filter (\<lambda>x. rl_seq (xs ! (n - 1)) < rl_seq x) (drop n xs) = drop n xs"
  proof -
    have "rl_seq (xs ! (n - 1)) < rl_seq x" if "x \<in> set (drop n xs)" for x
    proof -
      from that obtain i where "i < length xs - n" "x = xs ! (n + i)"
        by (auto simp: in_set_conv_nth)
      then show ?thesis
        using n0 lt [of "n - 1" "n + i"] by auto
    qed
    then show ?thesis by (simp add: filter_id_conv)
  qed
  ultimately show ?thesis
    by (subst split) (simp only: filter_append append_Nil)
qed

end
