(* ===== verification/Session_Fork.thy ===== *)
theory Session_Fork
  imports Session_Scan
begin

text \<open>
  Forking a session (\<open>session/fork.rs\<close>, the fork parts of \<open>session/memory.rs\<close>, the fork
  options of \<open>session/traits.rs\<close> and the branch-name check of \<open>session/backed.rs\<close>).

  The hash map of source entries is an association list built in the order of the snapshot;
  hash sets are sets. The code collects the selected entries in hash order and sorts them by
  sequence, rejecting equal sequences, so the hash order does not show.
\<close>

section \<open>Options and snapshots\<close>

datatype fork_position = Before | At

datatype fork_options =
    ForkBranch lane_name "entry_id option" fork_position "string option"
  | ForkTree "string option"

record ('j, 'f) fork_source_snapshot =
  fs_entries :: "('j, 'f) entry list"
  fs_values :: "'j raw_stored_value list"
  fs_usage :: "('j, 'f) usage_row list"
  fs_entries_complete :: bool

record ('j, 'f) fork_destination_snapshot =
  fd_entries :: "('j, 'f) entry list"
  fd_values :: "'j raw_stored_value list"
  fd_usage :: "('j, 'f) usage_row list"
  fd_next_seq :: u64

definition validate_branch_name :: "lane_name \<Rightarrow> session_error + unit" where
  "validate_branch_name name =
     (if name = [] then Inl (InvalidBranch name ''branch name must not be empty'')
      else if nul \<in> set name
      then Inl (InvalidBranch name (''branch name must not contain '' @ [CHR 0x5C] @ ''u0000''))
      else Inr ())"

definition snapshot_for_fork :: "('j, 'f) storage_state \<Rightarrow> ('j, 'f) fork_source_snapshot" where
  "snapshot_for_fork s =
     \<lparr>fs_entries = sort_key entry_seq (bt_values (st_entries s)),
      fs_values = bt_values (st_values s),
      fs_usage = sort_key ur_seq (bt_values (st_usage s)),
      fs_entries_complete = True\<rparr>"

section \<open>Reading the source\<close>

definition corrupt_tip :: "string \<Rightarrow> session_error" where
  "corrupt_tip error =
     Backend \<lparr>sf_code = Corrupt, sf_message = ''stored branch tip decode failed'',
              sf_source = Some error\<rparr>"

definition value_for ::
  "'j raw_stored_value list \<Rightarrow> string \<Rightarrow> string \<Rightarrow> 'j raw_stored_value option" where
  "value_for vs namespace key =
     List.find (\<lambda>stored. rv_namespace stored = namespace \<and> rv_key stored = key) vs"

fun tip_values_loop ::
  "'j serde \<Rightarrow> string set \<Rightarrow> 'j raw_stored_value list
    \<Rightarrow> session_error + (string \<times> entry_id option) list" where
  "tip_values_loop sd seen [] = Inr []"
| "tip_values_loop sd seen (stored # rest) =
     (if rv_kind stored \<noteq> Ak_Value
      then Inl (Invariant (''branch tip '' @ rv_key stored @ '' is not a scalar value''))
      else if rv_key stored \<in> seen
      then Inl (Invariant (''duplicate source branch tip '' @ rv_key stored))
      else rbind (map_err corrupt_tip (sd_tip_from_value sd (rv_value stored))) (\<lambda>tip.
           rbind (tip_values_loop sd (insert (rv_key stored) seen) rest) (\<lambda>tips.
           Inr ((rv_key stored, tip) # tips))))"

definition tip_values ::
  "'j serde \<Rightarrow> 'j raw_stored_value list \<Rightarrow> session_error + (string \<times> entry_id option) list" where
  "tip_values sd vs =
     tip_values_loop sd {} (filter (\<lambda>stored. rv_namespace stored = ''pi.branch.tip'') vs)"

definition check_lane_value ::
  "string set \<Rightarrow> unit \<Rightarrow> 'j raw_stored_value \<Rightarrow> session_error + unit" where
  "check_lane_value tip_keys _ stored =
     (if (rv_namespace stored = ''pi.lane.config'' \<or> rv_namespace stored = ''pi.lane.state'') \<and>
         rv_key stored \<notin> tip_keys
      then Inl (Invariant (''source session branch '' @ rv_key stored @ '' is missing branch.tip''))
      else Inr ())"

definition check_tip ::
  "('j, 'f) fork_source_snapshot \<Rightarrow> (entry_id \<times> ('j, 'f) entry) list \<Rightarrow> fork_options
    \<Rightarrow> unit \<Rightarrow> string \<times> entry_id option \<Rightarrow> session_error + unit" where
  "check_tip source entries options _ bt =
     (let branch = fst bt; tip = snd bt;
          configuration = value_for (fs_values source) ''pi.lane.config'' branch;
          state = value_for (fs_values source) ''pi.lane.state'' branch
      in if (configuration \<noteq> None) \<noteq> (state \<noteq> None)
         then Inl (Invariant (''source session branch '' @ branch @ '' has incomplete lane state''))
         else if (case options of ForkBranch requested _ _ _ \<Rightarrow> requested = branch \<and> configuration = None
                  | ForkTree _ \<Rightarrow> False)
         then Inl (Invariant (''source branch '' @ branch @ '' is not a configured AgentLane''))
         else if (fs_entries_complete source \<or> (case options of ForkTree _ \<Rightarrow> True | ForkBranch _ _ _ _ \<Rightarrow> False)) \<and>
                 is_some_and tip (\<lambda>t. map_of entries t = None)
         then Inl (Invariant (''source session branch '' @ branch @ '' has an unknown tip''))
         else Inr ())"

definition validate_source_snapshot ::
  "('j, 'f) fork_source_snapshot \<Rightarrow> (entry_id \<times> ('j, 'f) entry) list
    \<Rightarrow> (string \<times> entry_id option) list \<Rightarrow> fork_options \<Rightarrow> session_error + unit" where
  "validate_source_snapshot source entries tips options =
     rbind (try_fold (check_lane_value (fst ` set tips)) () (fs_values source)) (\<lambda>_.
     try_fold (check_tip source entries options) () tips)"

section \<open>Selecting entries\<close>

lemma visited_less:
  assumes "i \<notin> visited" and "map_of entries i = Some e"
  shows "card (fst ` set entries - insert i visited) < card (fst ` set entries - visited)"
proof -
  have "i \<in> fst ` set entries"
    using assms(2) by (metis domI dom_map_of_conv_image_fst)
  with assms(1) have "fst ` set entries - insert i visited \<subset> fst ` set entries - visited"
    by blast
  then show ?thesis
    by (simp add: psubset_card_mono)
qed

text \<open>
  The loop that walks the source branch from its tip. \<open>found\<close>, \<open>selected\<close> and
  \<open>destination_tip\<close> are the loop's variables; \<open>visited\<close> grows with every turn.
\<close>

function select_walk ::
  "(entry_id \<times> ('j, 'f) entry) list \<Rightarrow> entry_id option \<Rightarrow> fork_position \<Rightarrow> entry_id option
    \<Rightarrow> entry_id set \<Rightarrow> bool \<Rightarrow> entry_id set \<Rightarrow> entry_id option
    \<Rightarrow> session_error + (bool \<times> entry_id set \<times> entry_id option)" where
  "select_walk entries requested position None visited found selected destination_tip =
     Inr (found, selected, destination_tip)"
| "select_walk entries requested position (Some current_id) visited found selected destination_tip =
     (if current_id \<in> visited then Inl (Invariant ''cycle in source branch ancestry'')
      else case map_of entries current_id of
          None \<Rightarrow> Inl (Invariant (''corrupt source branch: missing parent '' @ current_id))
        | Some entry \<Rightarrow>
            if Some (entry_id entry) = requested
            then select_walk entries requested position (entry_parent_id entry)
                   (insert current_id visited) True
                   (if position = At then insert (entry_id entry) selected else selected)
                   (case position of Before \<Rightarrow> entry_parent_id entry | At \<Rightarrow> Some (entry_id entry))
            else select_walk entries requested position (entry_parent_id entry)
                   (insert current_id visited) found
                   (if found then insert (entry_id entry) selected else selected)
                   destination_tip)"
  by pat_completeness auto

termination
  by (relation "measure (\<lambda>(entries, requested, position, current, visited, found, selected, tip).
        card (fst ` set entries - visited))") (auto simp: visited_less)

declare select_walk.simps(2) [simp del]

definition select_contents ::
  "(entry_id \<times> ('j, 'f) entry) list \<Rightarrow> (string \<times> entry_id option) list \<Rightarrow> fork_options
    \<Rightarrow> session_error + (entry_id set \<times> (string \<times> entry_id option) list)" where
  "select_contents entries tips options =
     (case options of
        ForkTree _ \<Rightarrow> Inr (fst ` set entries, tips)
      | ForkBranch branch entry position _ \<Rightarrow>
          rbind (ok_or (map_option snd (List.find (\<lambda>(name, _). name = branch) tips))
                   (Invariant (''unknown source branch '' @ branch))) (\<lambda>source_tip.
          let requested = (case entry of Some i \<Rightarrow> Some i | None \<Rightarrow> source_tip) in
          rbind (select_walk entries requested position source_tip {} (requested = None) {} None)
            (\<lambda>(found, selected, destination_tip).
          if \<not> found
          then Inl (Invariant (''fork entry '' @ unwrap_or requested ''null'' @
                      '' is not on source branch '' @ branch))
          else Inr (selected, [(branch, destination_tip)]))))"

section \<open>Building the destination\<close>

definition push_value ::
  "'j raw_stored_value list \<times> u64 \<Rightarrow> string \<Rightarrow> string \<Rightarrow> 'j
    \<Rightarrow> session_error + ('j raw_stored_value list \<times> u64)" where
  "push_value vn namespace key v =
     (let (vs, seq) = vn in
      rbind (ok_or (checked_add seq 1) sequence_overflow) (\<lambda>next_seq.
      Inr (vs @ [\<lparr>rv_namespace = namespace, rv_key = key, rv_kind = Ak_Value, rv_value = v,
                  rv_seq = seq\<rparr>], next_seq)))"

datatype fork_scope = ScopeBranch | ScopeTree

definition copy_disposition ::
  "string \<Rightarrow> string \<Rightarrow> fork_scope \<Rightarrow> entry_id set \<Rightarrow> session_error + bool" where
  "copy_disposition namespace key scope selected =
     (if namespace = ''pi.session.name'' then Inr True
      else if namespace = ''pi.entry.label'' then Inr (scope = ScopeTree \<or> key \<in> selected)
      else if namespace = ''pi.branch.tip'' \<or> namespace = ''pi.lane.config'' \<or> namespace = ''pi.lane.state''
      then Inr False
      else if namespace = ''pi.result'' \<or> prefix ''pi.op.'' namespace \<or> prefix ''pi.pending.'' namespace
      then Inr False
      else if namespace = ''pi'' \<or> prefix ''pi.'' namespace
      then Inl (Invariant (''unknown reserved fork namespace '' @ namespace))
      else Inr (scope = ScopeTree))"

text \<open>The body of the loop over destination tips; \<open>copy_step\<close> is the body of the copy loop.\<close>

definition tip_step ::
  "'j serde \<Rightarrow> 'j raw_stored_value list \<Rightarrow> 'j raw_stored_value list \<times> u64
    \<Rightarrow> string \<times> entry_id option \<Rightarrow> session_error + ('j raw_stored_value list \<times> u64)" where
  "tip_step sd source_values vn bt =
     (let branch = fst bt; tip = snd bt in
      rbind (map_err (\<lambda>e. Invariant (''branch tip serialization failed: '' @ e)) (sd_tip_to_value sd tip))
        (\<lambda>tip_value.
      rbind (push_value vn ''pi.branch.tip'' branch tip_value) (\<lambda>vn.
      case value_for source_values ''pi.lane.config'' branch of
        None \<Rightarrow> Inr vn
      | Some configuration \<Rightarrow>
          rbind (push_value vn ''pi.lane.config'' branch (rv_value configuration)) (\<lambda>vn.
          rbind (map_err (\<lambda>e. Invariant (''lane state serialization failed: '' @ e))
                   (sd_lane_state_to_value sd lane_state_default)) (\<lambda>state.
          push_value vn ''pi.lane.state'' branch state)))))"

definition copy_step ::
  "fork_scope \<Rightarrow> entry_id set \<Rightarrow> 'j raw_stored_value list \<times> u64 \<Rightarrow> 'j raw_stored_value
    \<Rightarrow> session_error + ('j raw_stored_value list \<times> u64)" where
  "copy_step scope selected vn stored =
     rbind (copy_disposition (rv_namespace stored) (rv_key stored) scope selected) (\<lambda>copy.
     if copy then push_value vn (rv_namespace stored) (rv_key stored) (rv_value stored) else Inr vn)"

fun collect_source_entries ::
  "entry_id set \<Rightarrow> ('j, 'f) entry list \<Rightarrow> session_error + (entry_id \<times> ('j, 'f) entry) list" where
  "collect_source_entries seen [] = Inr []"
| "collect_source_entries seen (e # es) =
     (if entry_id e \<in> seen then Inl (Invariant (''duplicate source entry id '' @ entry_id e))
      else rbind (collect_source_entries (insert (entry_id e) seen) es) (\<lambda>m. Inr ((entry_id e, e) # m)))"

definition check_sequence :: "u64 set \<Rightarrow> ('j, 'f) entry \<Rightarrow> session_error + u64 set" where
  "check_sequence seen e =
     (if entry_seq e \<in> seen
      then Inl (Invariant (''duplicate source entry sequence '' @ show_word (entry_seq e)))
      else Inr (insert (entry_seq e) seen))"

text \<open>\<open>Iterator::max\<close> with \<open>unwrap_or(0)\<close>.\<close>

definition max_seq :: "u64 list \<Rightarrow> u64" where
  "max_seq xs = foldl max 0 xs"

definition create_fork_snapshot ::
  "'j serde \<Rightarrow> ('j, 'f) fork_source_snapshot \<Rightarrow> fork_options
    \<Rightarrow> session_error + ('j, 'f) fork_destination_snapshot" where
  "create_fork_snapshot sd source options =
     rbind (case options of ForkBranch branch _ _ _ \<Rightarrow> validate_branch_name branch | ForkTree _ \<Rightarrow> Inr ()) (\<lambda>_.
     rbind (collect_source_entries {} (fs_entries source)) (\<lambda>source_entries.
     rbind (tip_values sd (fs_values source)) (\<lambda>tips.
     rbind (validate_source_snapshot source source_entries tips options) (\<lambda>_.
     rbind (select_contents source_entries tips options) (\<lambda>(selected, destination_tips).
     let entries = sort_key entry_seq (filter (\<lambda>e. entry_id e \<in> selected) (fs_entries source)) in
     rbind (try_fold check_sequence {} entries) (\<lambda>_.
     let scope = (case options of ForkBranch _ _ _ _ \<Rightarrow> ScopeBranch | ForkTree _ \<Rightarrow> ScopeTree);
         max_usage_seq = (if scope = ScopeTree then max_seq (map ur_seq (fs_usage source)) else 0) in
     rbind (ok_or (checked_add (max (max_seq (map entry_seq entries)) max_usage_seq) 1) sequence_overflow)
       (\<lambda>next_seq.
     rbind (try_fold (tip_step sd (fs_values source)) ([], next_seq) destination_tips) (\<lambda>vn.
     rbind (try_fold (copy_step scope selected) vn (fs_values source)) (\<lambda>(vs, next_seq).
     Inr \<lparr>fd_entries = entries, fd_values = vs,
          fd_usage = (if scope = ScopeTree then fs_usage source else []),
          fd_next_seq = next_seq\<rparr>)))))))))"

definition stored_write :: "'j raw_stored_value \<Rightarrow> ('j, 'f) committed_write" where
  "stored_write stored =
     CommittedValue (CommittedSet (rv_seq stored) (rv_namespace stored) (rv_key stored) (rv_value stored))"

definition fork_snapshot_writes ::
  "('j, 'f) fork_destination_snapshot \<Rightarrow> ('j, 'f) committed_write list" where
  "fork_snapshot_writes d =
     sort_key committed_seq
       (map CommittedEntry (fd_entries d) @ map stored_write (fd_values d) @ map CommittedUsage (fd_usage d))"

definition from_fork_snapshot ::
  "('j, 'f::{plus,zero}) fork_destination_snapshot \<Rightarrow> session_error + ('j, 'f) storage_state" where
  "from_fork_snapshot d =
     rbind (replay storage_new (fork_snapshot_writes d)) (\<lambda>(s, _).
     Inr (advance_next_seq s (fd_next_seq d)))"

definition memory_capture_fork_source ::
  "('j, 'f) memory_storage \<Rightarrow> call_context \<Rightarrow> session_error + ('j, 'f) fork_source_snapshot" where
  "memory_capture_fork_source m cx =
     rbind (memory_guard m cx) (\<lambda>_. Inr (snapshot_for_fork (ms_state m)))"

section \<open>Sequence numbers of reconstructed values\<close>

text \<open>The values pushed so far carry the consecutive sequences from \<open>start\<close> to the next one.\<close>

definition numbered :: "u64 \<Rightarrow> 'j raw_stored_value list \<times> u64 \<Rightarrow> bool" where
  "numbered start vn \<longleftrightarrow>
     start \<le> snd vn \<and> map (unat \<circ> rv_seq) (fst vn) = [unat start ..< unat (snd vn)]"

lemma push_value_Inr_iff:
  "push_value (vs, n) ns k v = Inr vn \<longleftrightarrow>
     unat n + 1 < 2 ^ 64 \<and>
     vn = (vs @ [\<lparr>rv_namespace = ns, rv_key = k, rv_kind = Ak_Value, rv_value = v, rv_seq = n\<rparr>], n + 1)"
  by (auto simp: push_value_def rbind_eq_Inr_iff checked_add_def)

lemma numbered_push:
  assumes "numbered start vn" and "push_value vn ns k v = Inr vn'"
  shows "numbered start vn'"
proof -
  obtain vs n where vn: "vn = (vs, n)" by (cases vn)
  have n: "unat (n + 1) = unat n + 1"
    using assms(2) unfolding vn push_value_Inr_iff by (simp add: unat_word_ariths)
  have "start \<le> n + 1"
    using assms(1) n by (simp add: vn numbered_def word_le_nat_alt)
  then show ?thesis
    using assms n unfolding vn push_value_Inr_iff numbered_def
    by (auto simp: word_le_nat_alt upt_Suc_append)
qed

text \<open>What every push keeps, the two loop bodies keep.\<close>

lemma tip_step_invariant:
  assumes step: "tip_step sd src vn bt = Inr vn'" and vn: "P vn"
    and push: "\<And>vn ns k v vn'. P vn \<Longrightarrow> ns \<in> {''pi.branch.tip'', ''pi.lane.config'', ''pi.lane.state''} \<Longrightarrow>
      push_value vn ns k v = Inr vn' \<Longrightarrow> P vn'"
  shows "P vn'"
proof -
  from step obtain t vn1 where t: "push_value vn ''pi.branch.tip'' (fst bt) t = Inr vn1"
    and rest: "(case value_for src ''pi.lane.config'' (fst bt) of None \<Rightarrow> Inr vn1
      | Some c \<Rightarrow> rbind (push_value vn1 ''pi.lane.config'' (fst bt) (rv_value c)) (\<lambda>vn.
          rbind (map_err (\<lambda>e. Invariant (''lane state serialization failed: '' @ e))
                   (sd_lane_state_to_value sd lane_state_default)) (\<lambda>state.
          push_value vn ''pi.lane.state'' (fst bt) state))) = Inr vn'"
    unfolding tip_step_def Let_def by (elim rbind_InrE) blast
  have P1: "P vn1"
    by (rule push [OF vn _ t]) simp
  show ?thesis
  proof (cases "value_for src ''pi.lane.config'' (fst bt)")
    case None
    with rest P1 show ?thesis by simp
  next
    case (Some c)
    with rest obtain vn2 st where c: "push_value vn1 ''pi.lane.config'' (fst bt) (rv_value c) = Inr vn2"
      and st: "push_value vn2 ''pi.lane.state'' (fst bt) st = Inr vn'"
      by (auto simp: rbind_eq_Inr_iff)
    have "P vn2"
      by (rule push [OF P1 _ c]) simp
    then show ?thesis
      by (rule push [OF _ _ st]) simp
  qed
qed

lemma copy_step_invariant:
  assumes "copy_step scope sel vn v = Inr vn'" and "P vn"
    and "\<And>vn'. copy_disposition (rv_namespace v) (rv_key v) scope sel = Inr True \<Longrightarrow>
      push_value vn (rv_namespace v) (rv_key v) (rv_value v) = Inr vn' \<Longrightarrow> P vn'"
  shows "P vn'"
proof -
  from assms(1) obtain b where b: "copy_disposition (rv_namespace v) (rv_key v) scope sel = Inr b"
    and "(if b then push_value vn (rv_namespace v) (rv_key v) (rv_value v) else Inr vn) = Inr vn'"
    unfolding copy_step_def by (elim rbind_InrE)
  with assms(2,3) show ?thesis
    by (cases b) auto
qed

lemma numbered_tip_step:
  "tip_step sd src vn bt = Inr vn' \<Longrightarrow> numbered start vn \<Longrightarrow> numbered start vn'"
  by (erule tip_step_invariant) (auto intro: numbered_push)

lemma numbered_copy_step:
  "copy_step scope sel vn v = Inr vn' \<Longrightarrow> numbered start vn \<Longrightarrow> numbered start vn'"
  by (erule copy_step_invariant) (auto intro: numbered_push)

lemma numbered_mem:
  assumes "numbered start (vs, n)" and "v \<in> set vs"
  shows "start \<le> rv_seq v \<and> rv_seq v < n"
proof -
  have "unat (rv_seq v) \<in> set (map (unat \<circ> rv_seq) vs)"
    using assms(2) by force
  also have "map (unat \<circ> rv_seq) vs = [unat start ..< unat n]"
    using assms(1) by (simp add: numbered_def)
  finally have "unat (rv_seq v) \<in> {unat start ..< unat n}"
    by simp
  then show ?thesis
    by (simp add: word_le_nat_alt word_less_nat_alt)
qed

lemma numbered_distinct:
  assumes "numbered start (vs, n)"
  shows "distinct (map rv_seq vs)"
proof -
  have "distinct (map unat (map rv_seq vs))"
    using assms by (simp add: numbered_def)
  then show ?thesis
    by (simp only: distinct_map)
qed

section \<open>Which values are copied\<close>

definition transient_namespace :: "string \<Rightarrow> bool" where
  "transient_namespace ns \<longleftrightarrow> ns = ''pi.result'' \<or> prefix ''pi.op.'' ns \<or> prefix ''pi.pending.'' ns"

definition known_namespace :: "string \<Rightarrow> bool" where
  "known_namespace ns \<longleftrightarrow>
     ns \<in> {''pi.session.name'', ''pi.entry.label'', ''pi.branch.tip'', ''pi.lane.config'', ''pi.lane.state''} \<or>
     transient_namespace ns \<or> \<not> (ns = ''pi'' \<or> prefix ''pi.'' ns)"

lemma copy_disposition_known: "(\<exists>b. copy_disposition ns k scope sel = Inr b) \<longleftrightarrow> known_namespace ns"
  unfolding copy_disposition_def known_namespace_def transient_namespace_def
  by (simp add: ex_bool_eq split: if_split) blast

lemma copy_disposition_transient: "copy_disposition ns k scope sel = Inr True \<Longrightarrow> \<not> transient_namespace ns"
  unfolding copy_disposition_def by (auto simp: transient_namespace_def split: if_split_asm)

definition durable_only :: "'j raw_stored_value list \<times> u64 \<Rightarrow> bool" where
  "durable_only vn \<longleftrightarrow> (\<forall>v \<in> set (fst vn). \<not> transient_namespace (rv_namespace v) \<and> rv_kind v = Ak_Value)"

lemma durable_only_push:
  "durable_only vn \<Longrightarrow> \<not> transient_namespace ns \<Longrightarrow> push_value vn ns k v = Inr vn' \<Longrightarrow> durable_only vn'"
  by (cases vn) (auto simp: push_value_Inr_iff durable_only_def)

lemma lane_namespaces_durable:
  "\<not> transient_namespace ''pi.branch.tip''" "\<not> transient_namespace ''pi.lane.config''"
  "\<not> transient_namespace ''pi.lane.state''"
  by (auto simp: transient_namespace_def)

lemma durable_only_tip_step:
  "tip_step sd src vn bt = Inr vn' \<Longrightarrow> durable_only vn \<Longrightarrow> durable_only vn'"
  by (erule tip_step_invariant, assumption, rule durable_only_push) (use lane_namespaces_durable in auto)

lemma durable_only_copy_step:
  "copy_step scope sel vn v = Inr vn' \<Longrightarrow> durable_only vn \<Longrightarrow> durable_only vn'"
  by (erule copy_step_invariant) (auto intro: durable_only_push dest: copy_disposition_transient)

section \<open>The selected ancestry\<close>

text \<open>
  The part of a branch a fork keeps: from the requested entry (\<open>At\<close>) or from its parent
  (\<open>Before\<close>) down to the root.
\<close>

definition fork_cut :: "fork_position \<Rightarrow> entry_id \<Rightarrow> ('j, 'f) entry list \<Rightarrow> ('j, 'f) entry list" where
  "fork_cut position r path =
     (let rest = dropWhile (\<lambda>e. entry_id e \<noteq> r) path in
      case position of At \<Rightarrow> rest | Before \<Rightarrow> tl rest)"

definition path_tip :: "('j, 'f) entry list \<Rightarrow> entry_id option" where
  "path_tip path = (case path of [] \<Rightarrow> None | e # _ \<Rightarrow> Some (entry_id e))"

lemma select_walk_Some:
  assumes "current_id \<notin> visited" and "map_of entries current_id = Some entry"
  shows "select_walk entries requested position (Some current_id) visited found selected tip =
     (if Some (entry_id entry) = requested
      then select_walk entries requested position (entry_parent_id entry)
             (insert current_id visited) True
             (if position = At then insert (entry_id entry) selected else selected)
             (case position of Before \<Rightarrow> entry_parent_id entry | At \<Rightarrow> Some (entry_id entry))
      else select_walk entries requested position (entry_parent_id entry)
             (insert current_id visited) found
             (if found then insert (entry_id entry) selected else selected) tip)"
  using assms by (simp add: select_walk.simps(2))

lemma branch_path_tip:
  assumes "branch_path s i path" and "keys_ok s"
  shows "path_tip path = Some i"
  using branch_path_hd [OF assms(1)] assms(2) by (auto simp: path_tip_def keys_ok_def)

text \<open>After the requested entry was found, the rest of the branch is selected.\<close>

lemma select_walk_found:
  assumes "branch_path s i path" and "keys_ok s" and "map_of entries = bt_get (st_entries s)"
    and "distinct (map entry_id path)" and "visited \<inter> entry_id ` set path = {}"
    and "r \<notin> entry_id ` set path"
  shows "select_walk entries (Some r) position (Some i) visited True selected tip =
     Inr (True, selected \<union> entry_id ` set path, tip)"
  using assms
proof (induction arbitrary: visited selected rule: branch_path.induct)
  case (root i e)
  then have i: "entry_id e = i" by (simp add: keys_ok_def)
  with root show ?case
    by (simp add: select_walk_Some)
next
  case (step i e p path)
  then have i: "entry_id e = i" by (simp add: keys_ok_def)
  have "select_walk entries (Some r) position (Some p) (insert i visited) True (insert i selected) tip =
      Inr (True, insert i selected \<union> entry_id ` set path, tip)"
    using step.prems i by (intro step.IH) auto
  moreover have "i \<noteq> r" "i \<notin> visited"
    using step.prems i by auto
  ultimately show ?case
    using step.hyps step.prems(2) i by (simp add: select_walk_Some)
qed

lemma select_walk_path:
  assumes "branch_path s i path" and "keys_ok s" and "map_of entries = bt_get (st_entries s)"
    and "distinct (map entry_id path)" and "visited \<inter> entry_id ` set path = {}"
  shows "select_walk entries (Some r) position (Some i) visited False {} None =
     (if r \<in> entry_id ` set path
      then Inr (True, entry_id ` set (fork_cut position r path), path_tip (fork_cut position r path))
      else Inr (False, {}, None))"
  using assms
proof (induction arbitrary: visited rule: branch_path.induct)
  case (root i e)
  then have i: "entry_id e = i" by (simp add: keys_ok_def)
  with root show ?case
    by (cases position) (auto simp: select_walk_Some fork_cut_def path_tip_def)
next
  case (step i e p path)
  then have i: "entry_id e = i" by (simp add: keys_ok_def)
  show ?case
  proof (cases "r = i")
    case True
    have tip: "path_tip path = Some p"
      using step.hyps(3) step.prems(1) by (rule branch_path_tip)
    have "select_walk entries (Some i) position (Some p) (insert i visited) True sel t =
        Inr (True, sel \<union> entry_id ` set path, t)" for sel t
      using step.prems i step.hyps(3) by (intro select_walk_found [where s = s]) auto
    with step.hyps step.prems i tip show ?thesis
      by (cases position) (auto simp: True select_walk_Some fork_cut_def path_tip_def)
  next
    case False
    have "select_walk entries (Some r) position (Some p) (insert i visited) False {} None =
       (if r \<in> entry_id ` set path
        then Inr (True, entry_id ` set (fork_cut position r path), path_tip (fork_cut position r path))
        else Inr (False, {}, None))"
      using step.prems i by (intro step.IH) auto
    with step.hyps step.prems i False show ?thesis
      by (simp add: select_walk_Some fork_cut_def)
  qed
qed

section \<open>Replaying a snapshot\<close>

lemma mset_map_filter:
  "mset (List.map_filter f xs) = image_mset (the \<circ> f) (filter_mset (\<lambda>x. f x \<noteq> None) (mset xs))"
  by (simp add: List.map_filter_def)

lemma distinct_map_filter_mset:
  assumes "mset xs = mset ys"
  shows "distinct (List.map_filter f xs) \<longleftrightarrow> distinct (List.map_filter f ys)"
proof -
  have "mset (List.map_filter f xs) = mset (List.map_filter f ys)"
    using assms by (simp add: mset_map_filter)
  then show ?thesis
    by (metis mset_eq_imp_distinct_iff)
qed

lemma replay_ok_sorted:
  fixes ws :: "('j, 'f::zero) committed_write list"
  assumes seqs: "distinct (map committed_seq ws)" and pos: "\<And>w. w \<in> set ws \<Longrightarrow> 0 < committed_seq w"
    and ids: "distinct (committed_ids ws)"
    and closed: "\<And>e p. CommittedEntry e \<in> set ws \<Longrightarrow> entry_parent_id e = Some p \<Longrightarrow>
      \<exists>pe. CommittedEntry pe \<in> set ws \<and> entry_id pe = p \<and> entry_seq pe < entry_seq e"
  shows "replay_ok (storage_view (storage_new :: ('j, 'f) storage_state)) (sort_key committed_seq ws)"
proof -
  let ?ws = "sort_key committed_seq ws"
  have sorted: "sorted_wrt (<) (map committed_seq ?ws)"
    by (rule sort_key_strict [OF seqs])
  have first: "saturating_sub (1 :: u64) 1 = 0"
    by (simp add: saturating_sub_def)
  have "p \<in> set (committed_entry_ids pre)"
    if split: "?ws = pre @ CommittedEntry e # post" and p: "entry_parent_id e = Some p" for pre e post p
  proof -
    have "CommittedEntry e \<in> set ws"
      using arg_cong [OF split, of set] by simp
    then obtain pe where pe: "CommittedEntry pe \<in> set ws" "entry_id pe = p" "entry_seq pe < entry_seq e"
      using closed p by blast
    have "CommittedEntry pe \<in> set ?ws"
      using pe(1) by simp
    moreover have "CommittedEntry pe \<notin> set (CommittedEntry e # post)"
    proof
      assume "CommittedEntry pe \<in> set (CommittedEntry e # post)"
      moreover have "\<forall>w \<in> set post. entry_seq e < committed_seq w"
        using sorted unfolding split by (simp add: sorted_wrt_append)
      ultimately show False
        using pe(3) by auto
    qed
    ultimately have "CommittedEntry pe \<in> set pre"
      unfolding split by simp
    then show ?thesis
      using pe(2) by (force simp: committed_entry_ids_def set_map_filter)
  qed
  moreover have "distinct (committed_ids ?ws)"
    using ids distinct_map_filter_mset [of ?ws ws committed_id]
    unfolding committed_ids_def by (metis mset_sort)
  moreover have "sorted_wrt (<) (0 # map committed_seq ?ws)"
    using sorted pos by simp
  ultimately show ?thesis
    unfolding replay_ok_def by (simp add: storage_new_def first)
qed

section \<open>The source snapshot of a well-formed state\<close>

lemma map_key_values:
  assumes "bt_ok m" and "\<And>k v. bt_get m k = Some v \<Longrightarrow> f v = k"
  shows "map f (bt_values m) = map fst m"
  using assms bt.mem_elems_iff [OF assms(1)] by (auto simp: bt_values_def)

lemma distinct_key_values:
  assumes "bt_ok m" and "\<And>k v. bt_get m k = Some v \<Longrightarrow> f v = k"
  shows "distinct (map f (bt_values m))"
  using map_key_values [OF assms] bt.elems_distinct [OF assms(1)] by simp

lemma fs_sel [simp]:
  "fs_entries (snapshot_for_fork s) = sort_key entry_seq (bt_values (st_entries s))"
  "fs_values (snapshot_for_fork s) = bt_values (st_values s)"
  "fs_usage (snapshot_for_fork s) = sort_key ur_seq (bt_values (st_usage s))"
  "fs_entries_complete (snapshot_for_fork s)"
  by (simp_all add: snapshot_for_fork_def)

lemma collect_source_entries_ok:
  "distinct (map entry_id es) \<Longrightarrow> seen \<inter> entry_id ` set es = {} \<Longrightarrow>
   collect_source_entries seen es = Inr (map (\<lambda>e. (entry_id e, e)) es)"
  by (induction es arbitrary: seen) auto

lemma mem_entries:
  "storage_wf s \<Longrightarrow> e \<in> set (bt_values (st_entries s)) \<longleftrightarrow> bt_get (st_entries s) (entry_id e) = Some e"
  by (auto simp: storage_wf_def keys_ok_def mem_bt_values_iff)

lemma mem_usage:
  "storage_wf s \<Longrightarrow> r \<in> set (bt_values (st_usage s)) \<longleftrightarrow> bt_get (st_usage s) (ur_id r) = Some r"
  by (auto simp: storage_wf_def keys_ok_def mem_bt_values_iff)

lemma distinct_entry_ids: "storage_wf s \<Longrightarrow> distinct (map entry_id (bt_values (st_entries s)))"
  by (intro distinct_key_values) (auto simp: storage_wf_def keys_ok_def)

lemma distinct_usage_ids: "storage_wf s \<Longrightarrow> distinct (map ur_id (bt_values (st_usage s)))"
  by (intro distinct_key_values) (auto simp: storage_wf_def keys_ok_def)

lemma inj_entry_seq: "storage_wf s \<Longrightarrow> inj_on entry_seq (set (bt_values (st_entries s)))"
  by (intro entry_seq_inj) (auto simp: storage_wf_def)

lemma inj_usage_seq:
  assumes "storage_wf s"
  shows "inj_on ur_seq (set (bt_values (st_usage s)))"
proof (rule inj_onI)
  fix a b
  assume "a \<in> set (bt_values (st_usage s))" "b \<in> set (bt_values (st_usage s))" "ur_seq a = ur_seq b"
  then show "a = b"
    using assms unfolding mem_usage [OF assms] storage_wf_def unique_ok_def by (metis option.inject)
qed

lemma collect_snapshot:
  assumes "storage_wf s"
  shows "collect_source_entries {} (fs_entries (snapshot_for_fork s)) =
     Inr (map (\<lambda>e. (entry_id e, e)) (fs_entries (snapshot_for_fork s)))"
proof (rule collect_source_entries_ok)
  show "distinct (map entry_id (fs_entries (snapshot_for_fork s)))"
    using distinct_entry_ids [OF assms] by (simp add: distinct_map)
qed simp

lemma option_eqI: "(\<And>e. x = Some e \<longleftrightarrow> y = Some e) \<Longrightarrow> x = y"
  by (cases x; cases y) auto

lemma map_of_snapshot:
  assumes "storage_wf s"
  shows "map_of (map (\<lambda>e. (entry_id e, e)) (fs_entries (snapshot_for_fork s))) = bt_get (st_entries s)"
  (is "map_of ?m = _")
proof
  fix i
  have d: "distinct (map fst ?m)"
    using distinct_entry_ids [OF assms] by (simp add: distinct_map comp_def)
  have k: "entry_id e = j" if "bt_get (st_entries s) j = Some e" for j e
    using assms that by (simp add: storage_wf_def keys_ok_def)
  have "map_of ?m i = Some e \<longleftrightarrow> bt_get (st_entries s) i = Some e" for e
  proof -
    have "map_of ?m i = Some e \<longleftrightarrow> entry_id e = i \<and> e \<in> set (bt_values (st_entries s))"
      unfolding map_of_eq_Some_iff [OF d] unfolding fs_sel(1) set_map set_sort image_iff by blast
    also have "\<dots> \<longleftrightarrow> bt_get (st_entries s) i = Some e"
      unfolding mem_entries [OF assms] using k by blast
    finally show ?thesis .
  qed
  then show "map_of ?m i = bt_get (st_entries s) i"
    by (rule option_eqI)
qed

section \<open>What a successful fork contains\<close>

lemma max_seq_ge: "x \<in> set xs \<Longrightarrow> x \<le> max_seq xs"
proof -
  have "x \<in> set xs \<Longrightarrow> x \<le> foldl max a xs" and "a \<le> foldl max a xs" for a
    by (induction xs arbitrary: a) (auto intro: order_trans [OF max.cobounded1] order_trans [OF max.cobounded2])
  then show "x \<in> set xs \<Longrightarrow> x \<le> max_seq xs"
    by (simp add: max_seq_def)
qed

lemma max_seq_less: "max_seq (map f xs) < n \<Longrightarrow> x \<in> set xs \<Longrightarrow> f x < n"
  using max_seq_ge [of "f x" "map f xs"] by auto

definition option_scope :: "fork_options \<Rightarrow> fork_scope" where
  "option_scope options = (case options of ForkBranch _ _ _ _ \<Rightarrow> ScopeBranch | ForkTree _ \<Rightarrow> ScopeTree)"

lemma create_fork_snapshotE:
  assumes "create_fork_snapshot sd src options = Inr d"
  obtains ses tips sel dtips n0 vn where
    "collect_source_entries {} (fs_entries src) = Inr ses"
    "tip_values sd (fs_values src) = Inr tips"
    "select_contents ses tips options = Inr (sel, dtips)"
    "fd_entries d = sort_key entry_seq (filter (\<lambda>e. entry_id e \<in> sel) (fs_entries src))"
    "fd_usage d = (if option_scope options = ScopeTree then fs_usage src else [])"
    "checked_add (max (max_seq (map entry_seq (fd_entries d))) (max_seq (map ur_seq (fd_usage d)))) 1 = Some n0"
    "try_fold (tip_step sd (fs_values src)) ([], n0) dtips = Inr vn"
    "try_fold (copy_step (option_scope options) sel) vn (fs_values src) = Inr (fd_values d, fd_next_seq d)"
proof -
  let ?entries = "\<lambda>sel. sort_key entry_seq (filter (\<lambda>e. entry_id e \<in> sel) (fs_entries src))"
  from assms obtain u ses tips u' sel dtips u'' n0 vn vs n where
    1: "collect_source_entries {} (fs_entries src) = Inr ses"
      "tip_values sd (fs_values src) = Inr tips"
      "select_contents ses tips options = Inr (sel, dtips)"
    and 2: "ok_or (checked_add (max (max_seq (map entry_seq (?entries sel)))
        (if option_scope options = ScopeTree then max_seq (map ur_seq (fs_usage src)) else 0)) 1)
        sequence_overflow = Inr n0"
    and 3: "try_fold (tip_step sd (fs_values src)) ([], n0) dtips = Inr vn"
      "try_fold (copy_step (option_scope options) sel) vn (fs_values src) = Inr (vs, n)"
    and 4: "Inr \<lparr>fd_entries = ?entries sel, fd_values = vs,
        fd_usage = (if option_scope options = ScopeTree then fs_usage src else []),
        fd_next_seq = n\<rparr> = (Inr d :: session_error + _)"
    unfolding create_fork_snapshot_def option_scope_def [symmetric] Let_def
    by (elim rbind_InrE case_prod_eqE) (rule that; assumption | simp only:)+
  have d: "d = \<lparr>fd_entries = ?entries sel, fd_values = vs,
      fd_usage = (if option_scope options = ScopeTree then fs_usage src else []), fd_next_seq = n\<rparr>"
    using 4 by simp
  have "checked_add (max (max_seq (map entry_seq (fd_entries d))) (max_seq (map ur_seq (fd_usage d)))) 1 = Some n0"
    using 2 by (auto simp: d max_seq_def [of "[]"] split: if_splits)
  with 1 3 show thesis
    by (intro that) (simp_all add: d)
qed

text \<open>
  Value sequences are consecutive from one above every copied entry and usage row, end just
  below the high-water mark, and no copied value is transient.
\<close>

lemma fork_values:
  assumes "create_fork_snapshot sd src options = Inr d"
  shows "\<exists>n0. numbered n0 (fd_values d, fd_next_seq d) \<and>
      (\<forall>e \<in> set (fd_entries d). entry_seq e < n0) \<and> (\<forall>u \<in> set (fd_usage d). ur_seq u < n0) \<and> 0 < n0"
    and "durable_only (fd_values d, fd_next_seq d)"
proof -
  from assms obtain ses tips sel dtips n0 vn where
    n0: "checked_add (max (max_seq (map entry_seq (fd_entries d))) (max_seq (map ur_seq (fd_usage d)))) 1 = Some n0"
    and tip: "try_fold (tip_step sd (fs_values src)) ([], n0) dtips = Inr vn"
    and copy: "try_fold (copy_step (option_scope options) sel) vn (fs_values src) = Inr (fd_values d, fd_next_seq d)"
    by (rule create_fork_snapshotE)
  let ?m = "max (max_seq (map entry_seq (fd_entries d))) (max_seq (map ur_seq (fd_usage d)))"
  have "?m < n0"
    using checked_add_SomeD [OF n0, THEN conjunct2] by (simp only: word_less_nat_alt unsigned_1 less_add_one)
  then have "\<forall>e \<in> set (fd_entries d). entry_seq e < n0" "\<forall>u \<in> set (fd_usage d). ur_seq u < n0" "0 < n0"
    by (auto intro: max_seq_less simp: word_gt_0)
  moreover have "numbered n0 vn"
    using tip by (rule try_fold_invariant) (auto simp: numbered_def [of n0 "([], n0)"] intro: numbered_tip_step)
  then have "numbered n0 (fd_values d, fd_next_seq d)"
    using copy by (rule_tac try_fold_invariant) (auto intro: numbered_copy_step)
  ultimately show "\<exists>n0. numbered n0 (fd_values d, fd_next_seq d) \<and>
      (\<forall>e \<in> set (fd_entries d). entry_seq e < n0) \<and> (\<forall>u \<in> set (fd_usage d). ur_seq u < n0) \<and> 0 < n0"
    by blast
  have "durable_only vn"
    using tip by (rule try_fold_invariant) (auto simp: durable_only_def [of "([], n0)"] intro: durable_only_tip_step)
  then show "durable_only (fd_values d, fd_next_seq d)"
    using copy by (rule_tac try_fold_invariant) (auto intro: durable_only_copy_step)
qed

section \<open>Branch forks keep the ancestry\<close>

lemma branch_path_suffix:
  assumes "branch_path s i path" and "keys_ok s" and "suffix suf path" and "suf \<noteq> []"
  shows "branch_path s (entry_id (hd suf)) suf"
  using assms
proof (induction rule: branch_path.induct)
  case (root i e)
  then have "suf = [e]" by (auto simp: suffix_Cons)
  moreover have "entry_id e = i" using root by (simp add: keys_ok_def)
  ultimately show ?case
    using root.hyps by (simp add: branch_path.root)
next
  case (step i e p path)
  have "entry_id e = i" using step by (simp add: keys_ok_def)
  with step show ?case
    by (cases "suf = e # path") (auto simp: suffix_Cons intro: branch_path.step)
qed

lemma branch_path_closed:
  assumes "branch_path s i path" and "keys_ok s" and "parents_ok s"
    and "e \<in> set path" and "entry_parent_id e = Some p"
  shows "\<exists>pe \<in> set path. entry_id pe = p \<and> entry_seq pe < entry_seq e"
  using assms
proof (induction rule: branch_path.induct)
  case (root i e')
  then show ?case by simp
next
  case (step i e' q path)
  show ?case
  proof (cases "e = e'")
    case True
    with step have q: "q = p" by simp
    obtain pe where pe: "bt_get (st_entries s) p = Some pe" "pe \<in> set path"
      using branch_path_hd [OF step.hyps(3)] q by auto
    then have "entry_id pe = p"
      using step.prems(1) by (simp add: keys_ok_def)
    moreover have "entry_seq pe < entry_seq e"
      using step.hyps(1,2) step.prems(2) pe(1) True q unfolding parents_ok_def by fastforce
    ultimately show ?thesis
      using pe(2) by auto
  next
    case False
    then have "e \<in> set path" using step.prems by simp
    with step show ?thesis by auto
  qed
qed

lemma fork_cut_suffix: "suffix (fork_cut position r path) path"
proof -
  have 1: "suffix (dropWhile (\<lambda>e. entry_id e \<noteq> r) path) path"
    by (rule suffix_dropWhile)
  have "suffix (tl xs) xs" for xs :: "('a, 'b) entry list"
    by (cases xs) (auto simp: suffix_ConsI)
  then have "suffix (tl (dropWhile (\<lambda>e. entry_id e \<noteq> r) path)) path"
    using 1 by (rule suffix_order.trans)
  with 1 show ?thesis
    by (simp add: fork_cut_def Let_def split: fork_position.split)
qed

lemma select_contents_branch:
  assumes wf: "storage_wf s"
    and sel: "select_contents (map (\<lambda>e. (entry_id e, e)) (fs_entries (snapshot_for_fork s))) tips
      (ForkBranch b entry position new_id) = Inr (sel, dtips)"
  obtains "List.find (\<lambda>(name, _). name = b) tips = Some (b, None)" "entry = None" "sel = {}" "dtips = [(b, None)]"
  | t path r where "List.find (\<lambda>(name, _). name = b) tips = Some (b, Some t)"
      "r = unwrap_or entry t" "branch_path s t path" "r \<in> entry_id ` set path"
      "sel = entry_id ` set (fork_cut position r path)"
      "dtips = [(b, path_tip (fork_cut position r path))]"
proof -
  let ?ses = "map (\<lambda>e. (entry_id e, e)) (fs_entries (snapshot_for_fork s))"
  have k: "keys_ok s" and p: "parents_ok s"
    using wf by (simp_all add: storage_wf_def)
  from sel obtain tip found tip' where
    find: "map_option snd (List.find (\<lambda>(name, _). name = b) tips) = Some tip" and
    walk: "select_walk ?ses (case entry of Some i \<Rightarrow> Some i | None \<Rightarrow> tip) position tip {}
       ((case entry of Some i \<Rightarrow> Some i | None \<Rightarrow> tip) = None) {} None = Inr (found, sel, tip')"
    and found: "found" "dtips = [(b, tip')]"
    unfolding select_contents_def Let_def fork_options.case
    by (elim rbind_InrE case_prod_eqE) (auto split: if_split_asm)
  from find have find': "List.find (\<lambda>(name, _). name = b) tips = Some (b, tip)"
    by (auto simp: find_Some_iff)
  show thesis
  proof (cases tip)
    case None
    with walk found have "entry = None" "sel = {}" "dtips = [(b, None)]"
      by (auto split: option.splits)
    with find' None that(1) show thesis by simp
  next
    case (Some t)
    define r where "r = unwrap_or entry t"
    have req: "(case entry of Some i \<Rightarrow> Some i | None \<Rightarrow> tip) = Some r"
      by (simp add: r_def Some split: option.split)
    have walk2: "select_walk ?ses (Some r) position (Some t) {} False {} None = Inr (found, sel, tip')"
      using walk unfolding req by (simp add: Some)
    obtain e where e: "bt_get (st_entries s) t = Some e"
      using walk2
      by (cases "bt_get (st_entries s) t") (auto simp: select_walk.simps(2) map_of_snapshot [OF wf, simplified])
    obtain path where path: "branch_path s t path"
      using branch_path_exists [OF p e] by blast
    note walk' = select_walk_path [OF path k map_of_snapshot [OF wf] branch_path_distinct [OF path p k], of "{}" r position]
    have "r \<in> entry_id ` set path \<and> sel = entry_id ` set (fork_cut position r path) \<and>
        tip' = path_tip (fork_cut position r path)"
      using walk2 found(1) walk' by (simp split: if_split_asm)
    with find' found(2) path r_def Some that(2) show thesis by blast
  qed
qed

text \<open>The entries of the destination, oldest first.\<close>

lemma sort_key_idem: "sort_key f (sort_key f xs) = sort_key f xs"
  by (simp add: sort_key_id_if_sorted)

lemma sort_filter_path:
  assumes wf: "storage_wf s" and path: "branch_path s t path" and suf: "suffix kept path"
  shows "sort_key entry_seq (filter (\<lambda>e. entry_id e \<in> entry_id ` set kept) (bt_values (st_entries s))) = rev kept"
    (is "sort_key _ ?xs = _")
proof -
  have k: "keys_ok s" and p: "parents_ok s"
    using wf by (simp_all add: storage_wf_def)
  have sub: "set kept \<subseteq> set path"
    using suf by (rule set_mono_suffix)
  have stored: "bt_get (st_entries s) (entry_id e) = Some e" if "e \<in> set kept" for e
    using branch_path_stored [OF path k] that sub by blast
  have sorted: "sorted_wrt (\<lambda>a b. entry_seq b < entry_seq a) kept"
    using branch_path_sorted [OF path p] suf by (auto simp: suffix_def sorted_wrt_append)
  have "set ?xs = set (rev kept)"
    using stored by (auto simp: mem_entries [OF wf])
  moreover have "distinct ?xs"
    using distinct_entry_ids [OF wf] by (simp add: distinct_map)
  moreover have "distinct (rev kept)"
    using branch_path_distinct [OF path p k] suf by (auto simp: suffix_def distinct_map)
  ultimately have "mset ?xs = mset (rev kept)"
    using set_eq_iff_mset_eq_distinct by blast
  moreover have "inj_on entry_seq (set ?xs)"
    using inj_entry_seq [OF wf] by (auto intro: inj_on_subset)
  ultimately have "sort_key entry_seq ?xs = sort_key entry_seq (rev kept)"
    by (rule sort_key_perm)
  also have "sorted (map entry_seq (rev kept))"
    unfolding sorted_wrt_map sorted_wrt_rev using sorted
    by (rule sorted_wrt_mono_rel [rotated]) simp
  then have "sort_key entry_seq (rev kept) = rev kept"
    by (rule sort_key_id_if_sorted)
  finally show ?thesis .
qed

lemma fork_entries_tree:
  assumes "storage_wf s" and "create_fork_snapshot sd (snapshot_for_fork s) (ForkTree new_id) = Inr d"
  shows "fd_entries d = sort_key entry_seq (bt_values (st_entries s)) \<and>
    fd_usage d = sort_key ur_seq (bt_values (st_usage s))"
proof -
  from assms(2) obtain ses tips sel dtips where
    c: "collect_source_entries {} (fs_entries (snapshot_for_fork s)) = Inr ses" and
    sel: "select_contents ses tips (ForkTree new_id) = Inr (sel, dtips)" and
    es: "fd_entries d = sort_key entry_seq (filter (\<lambda>e. entry_id e \<in> sel) (fs_entries (snapshot_for_fork s)))" and
    us: "fd_usage d = (if option_scope (ForkTree new_id) = ScopeTree then fs_usage (snapshot_for_fork s) else [])"
    by (rule create_fork_snapshotE)
  have "sel = entry_id ` set (bt_values (st_entries s))"
    using sel c collect_snapshot [OF assms(1)] by (auto simp: select_contents_def image_image)
  then have "filter (\<lambda>e. entry_id e \<in> sel) (fs_entries (snapshot_for_fork s)) = fs_entries (snapshot_for_fork s)"
    by (simp add: filter_id_conv)
  with es us show ?thesis
    by (simp add: option_scope_def sort_key_idem)
qed

lemma fork_entries_branch:
  assumes "storage_wf s"
    and "create_fork_snapshot sd (snapshot_for_fork s) (ForkBranch b entry position new_id) = Inr d"
  obtains tips where "tip_values sd (bt_values (st_values s)) = Inr tips"
      "List.find (\<lambda>(name, _). name = b) tips = Some (b, None)" "fd_entries d = []"
  | tips t path r where "tip_values sd (bt_values (st_values s)) = Inr tips"
      "List.find (\<lambda>(name, _). name = b) tips = Some (b, Some t)"
      "r = unwrap_or entry t" "branch_path s t path" "r \<in> entry_id ` set path"
      "fd_entries d = rev (fork_cut position r path)"
proof -
  from assms(2) obtain ses tips sel dtips where
    c: "collect_source_entries {} (fs_entries (snapshot_for_fork s)) = Inr ses" and
    tips: "tip_values sd (fs_values (snapshot_for_fork s)) = Inr tips" and
    sel: "select_contents ses tips (ForkBranch b entry position new_id) = Inr (sel, dtips)" and
    es: "fd_entries d = sort_key entry_seq (filter (\<lambda>e. entry_id e \<in> sel) (fs_entries (snapshot_for_fork s)))"
    by (rule create_fork_snapshotE)
  have "ses = map (\<lambda>e. (entry_id e, e)) (fs_entries (snapshot_for_fork s))"
    using c collect_snapshot [OF assms(1)] by simp
  note sel' = sel [unfolded this]
  show thesis
  proof (rule select_contents_branch [OF assms(1) sel'])
    assume "List.find (\<lambda>(name, _). name = b) tips = Some (b, None)" "sel = {}"
    with tips es show thesis
      by (intro that(1)) simp_all
  next
    fix t path r
    assume h: "List.find (\<lambda>(name, _). name = b) tips = Some (b, Some t)" "r = unwrap_or entry t"
      "branch_path s t path" "r \<in> entry_id ` set path" "sel = entry_id ` set (fork_cut position r path)"
    have "fd_entries d = rev (fork_cut position r path)"
      using es unfolding fs_sel(1) filter_sort sort_key_idem
      unfolding h(5) sort_filter_path [OF assms(1) h(3) fork_cut_suffix] .
    with tips h show thesis
      by (intro that(2)) simp_all
  qed
qed

lemma fork_entries_sub:
  assumes "storage_wf s" and "create_fork_snapshot sd (snapshot_for_fork s) options = Inr d"
  shows "distinct (fd_entries d)" and "set (fd_entries d) \<subseteq> set (bt_values (st_entries s))"
    and "e \<in> set (fd_entries d) \<Longrightarrow> entry_parent_id e = Some p \<Longrightarrow>
      \<exists>pe \<in> set (fd_entries d). entry_id pe = p \<and> entry_seq pe < entry_seq e"
proof -
  from assms(2) obtain sel where
    es: "fd_entries d = sort_key entry_seq (filter (\<lambda>e. entry_id e \<in> sel) (fs_entries (snapshot_for_fork s)))"
    by (rule create_fork_snapshotE)
  then show "distinct (fd_entries d)"
    using distinct_entry_ids [OF assms(1)] by (simp add: distinct_map)
  show "set (fd_entries d) \<subseteq> set (bt_values (st_entries s))"
    using es by auto
  assume e: "e \<in> set (fd_entries d)" and par: "entry_parent_id e = Some p"
  have k: "keys_ok s" and p: "parents_ok s"
    using assms(1) by (simp_all add: storage_wf_def)
  show "\<exists>pe \<in> set (fd_entries d). entry_id pe = p \<and> entry_seq pe < entry_seq e"
  proof (cases options)
    case (ForkTree new_id)
    with fork_entries_tree [OF assms(1)] assms(2)
    have all: "set (fd_entries d) = set (bt_values (st_entries s))" by simp
    with e have "bt_get (st_entries s) (entry_id e) = Some e"
      by (simp add: mem_entries [OF assms(1)])
    with p par obtain pe where "bt_get (st_entries s) p = Some pe" "entry_seq pe < entry_seq e"
      unfolding parents_ok_def by blast
    moreover from this have "entry_id pe = p"
      using k by (simp add: keys_ok_def)
    ultimately show ?thesis
      unfolding all by (auto simp: mem_entries [OF assms(1)])
  next
    case (ForkBranch b entry position new_id)
    with assms(2) have d: "create_fork_snapshot sd (snapshot_for_fork s) (ForkBranch b entry position new_id) = Inr d"
      by simp
    show ?thesis
    proof (rule fork_entries_branch [OF assms(1) d])
      assume "fd_entries d = []"
      with e show ?thesis by simp
    next
      fix t path r
      assume path: "branch_path s t path" and cut: "fd_entries d = rev (fork_cut position r path)"
      with e have "branch_path s (entry_id (hd (fork_cut position r path))) (fork_cut position r path)"
        by (intro branch_path_suffix [OF path k fork_cut_suffix]) auto
      from branch_path_closed [OF this k p _ par] e cut show ?thesis
        by simp
    qed
  qed
qed

section \<open>The destination state\<close>

lemma entries_foldl:
  assumes "distinct (committed_entry_ids ws)"
  shows "bt_get (st_entries (foldl apply_one s ws)) i = Some e \<longleftrightarrow>
     CommittedEntry e \<in> set ws \<and> entry_id e = i \<or>
     bt_get (st_entries s) i = Some e \<and> i \<notin> set (committed_entry_ids ws)"
  using assms
proof (induction ws arbitrary: s)
  case Nil
  then show ?case by (simp add: committed_entry_ids_def)
next
  case (Cons w ws)
  have notin: "CommittedEntry e \<notin> set ws" if "entry_id e \<notin> set (committed_entry_ids ws)" for e
    using that by (force simp: committed_entry_ids_def set_map_filter)
  show ?case
  proof (cases w)
    case (CommittedEntry e')
    with Cons.prems have "distinct (committed_entry_ids ws)" "entry_id e' \<notin> set (committed_entry_ids ws)"
      by (simp_all add: committed_entry_ids_def)
    with Cons.IH [of "apply_one s w"] CommittedEntry notin show ?thesis
      by (auto simp: entries_apply_one committed_entry_ids_def)
  qed (use Cons in \<open>auto simp: entries_apply_one committed_entry_ids_def\<close>)
qed

lemma usage_foldl:
  assumes "distinct (committed_ids ws)"
  shows "bt_get (st_usage (foldl apply_one s ws)) i = Some r \<longleftrightarrow>
     CommittedUsage r \<in> set ws \<and> ur_id r = i \<or>
     bt_get (st_usage s) i = Some r \<and> (\<forall>r'. CommittedUsage r' \<in> set ws \<longrightarrow> ur_id r' \<noteq> i)"
  using assms
proof (induction ws arbitrary: s)
  case Nil
  then show ?case by simp
next
  case (Cons w ws)
  show ?case
  proof (cases w)
    case (CommittedUsage r')
    with Cons.prems have "distinct (committed_ids ws)" "ur_id r' \<notin> set (committed_ids ws)"
      by (simp_all add: committed_ids_def)
    moreover from this have "\<forall>q. CommittedUsage q \<in> set ws \<longrightarrow> ur_id q \<noteq> ur_id r'"
      by (force simp: committed_ids_def set_map_filter)
    ultimately show ?thesis
      using Cons.IH [of "apply_one s w"] CommittedUsage by (auto simp: usage_apply_one)
  qed (use Cons in \<open>auto simp: usage_apply_one committed_ids_def\<close>)
qed

lemma distinct_entry_ids_committed: "distinct (committed_ids ws) \<Longrightarrow> distinct (committed_entry_ids ws)"
proof (induction ws)
  case Nil
  then show ?case by (simp add: committed_entry_ids_def)
next
  case (Cons w ws)
  have "set (committed_entry_ids ws) \<subseteq> set (committed_ids ws)"
  proof
    fix i
    assume "i \<in> set (committed_entry_ids ws)"
    then obtain v where v: "v \<in> set ws" "committed_entry_id v = Some i"
      by (auto simp: committed_entry_ids_def set_map_filter)
    from v(2) have "committed_id v = Some i"
      by (cases v) simp_all
    with v(1) show "i \<in> set (committed_ids ws)"
      unfolding committed_ids_def set_map_filter by blast
  qed
  with Cons show ?case
    by (cases w) (auto simp: committed_entry_ids_def committed_ids_def)
qed

lemma committed_ids_append [simp]: "committed_ids (xs @ ys) = committed_ids xs @ committed_ids ys"
  by (simp add: committed_ids_def)

lemma committed_ids_map [simp]:
  "committed_ids (map CommittedEntry es) = map entry_id es"
  "committed_ids (map stored_write vs) = []"
  "committed_ids (map CommittedUsage us) = map ur_id us"
  unfolding committed_ids_def stored_write_def by (induction es, simp_all, induction vs, simp_all, induction us, simp_all)

lemma next_seq_update:
  "keys_ok (s\<lparr>st_next_seq := m\<rparr>) \<longleftrightarrow> keys_ok s" "unique_ok (s\<lparr>st_next_seq := m\<rparr>) \<longleftrightarrow> unique_ok s"
  "index_ok (s\<lparr>st_next_seq := m\<rparr>) \<longleftrightarrow> index_ok s" "parents_ok (s\<lparr>st_next_seq := m\<rparr>) \<longleftrightarrow> parents_ok s"
  "ids_ok (s\<lparr>st_next_seq := m\<rparr>) \<longleftrightarrow> ids_ok s"
  by (simp_all add: keys_ok_def unique_ok_def index_ok_def parents_ok_def ids_ok_def)

lemma storage_wf_advance: "storage_wf s \<Longrightarrow> storage_wf (advance_next_seq s n)"
proof -
  assume wf: "storage_wf s"
  have le: "st_next_seq s \<le> max (st_next_seq s) n"
    by simp
  have nz: "max (st_next_seq s) n \<noteq> 0"
    using storage_wf_next [OF wf] le by (metis word_le_0_iff)
  have "bounds_ok (advance_next_seq s n)"
    using wf le nz unfolding storage_wf_def bounds_ok_def advance_next_seq_def
    by (auto simp: less_le_trans [OF _ le] word_gt_0 [symmetric] intro: less_le_trans)
  with wf show ?thesis
    by (simp add: storage_wf_def next_seq_update advance_next_seq_def)
qed

text \<open>
  The writes of a fork of a well-formed state satisfy the replay rules, so building the
  destination never fails, and the destination holds exactly the copied records.
\<close>

lemma fork_writes_ok:
  fixes s :: "('j, 'f::{plus,zero}) storage_state"
  assumes wf: "storage_wf s" and d: "create_fork_snapshot sd (snapshot_for_fork s) options = Inr d"
  defines "ws \<equiv> map CommittedEntry (fd_entries d) @ map stored_write (fd_values d) @ map CommittedUsage (fd_usage d)"
  shows "distinct (map committed_seq ws)" and "w \<in> set ws \<Longrightarrow> 0 < committed_seq w \<and> committed_seq w < fd_next_seq d"
    and "distinct (committed_ids ws)"
proof -
  obtain n0 where num: "numbered n0 (fd_values d, fd_next_seq d)"
    and e0: "\<forall>e \<in> set (fd_entries d). entry_seq e < n0" and u0: "\<forall>u \<in> set (fd_usage d). ur_seq u < n0"
    and n0: "0 < n0"
    using fork_values(1) [OF d] by blast
  have le: "n0 \<le> fd_next_seq d"
    using num by (simp add: numbered_def)
  note es = fork_entries_sub(1,2) [OF wf d]
  have us: "distinct (fd_usage d)" "set (fd_usage d) \<subseteq> set (bt_values (st_usage s))"
  proof -
    have "fd_usage d = fs_usage (snapshot_for_fork s) \<or> fd_usage d = []"
      using d by (elim create_fork_snapshotE) (metis (full_types))
    then show "distinct (fd_usage d)" "set (fd_usage d) \<subseteq> set (bt_values (st_usage s))"
      using distinct_usage_ids [OF wf] by (auto simp: distinct_map)
  qed
  have eget: "bt_get (st_entries s) (entry_id e) = Some e" if "e \<in> set (fd_entries d)" for e
    using that es(2) mem_entries [OF wf] by blast
  have uget: "bt_get (st_usage s) (ur_id u) = Some u" if "u \<in> set (fd_usage d)" for u
    using that us(2) mem_usage [OF wf] by blast
  have pos: "0 < entry_seq e" if "e \<in> set (fd_entries d)" for e
    using eget [OF that] wf unfolding storage_wf_def bounds_ok_def by blast
  have upos: "0 < ur_seq u" if "u \<in> set (fd_usage d)" for u
    using uget [OF that] wf unfolding storage_wf_def bounds_ok_def by blast
  have ne: "entry_seq e \<noteq> ur_seq u" if "e \<in> set (fd_entries d)" "u \<in> set (fd_usage d)" for e u
    using eget [OF that(1)] uget [OF that(2)] wf unfolding storage_wf_def unique_ok_def by blast
  have ne_id: "entry_id e \<noteq> ur_id u" if "e \<in> set (fd_entries d)" "u \<in> set (fd_usage d)" for e u
    using eget [OF that(1)] uget [OF that(2)] wf unfolding storage_wf_def ids_ok_def by force
  have seq: "committed_seq (stored_write v) = rv_seq v" for v :: "'j raw_stored_value"
    by (simp add: stored_write_def)
  have maps: "map committed_seq ws = map entry_seq (fd_entries d) @ map rv_seq (fd_values d) @ map ur_seq (fd_usage d)"
    by (simp add: ws_def comp_def seq)
  have "inj_on entry_seq (set (fd_entries d))" "inj_on ur_seq (set (fd_usage d))"
    using inj_on_subset [OF inj_entry_seq [OF wf] es(2)] inj_on_subset [OF inj_usage_seq [OF wf] us(2)] .
  then show "distinct (map committed_seq ws)"
    unfolding maps using es(1) us(1) numbered_distinct [OF num] numbered_mem [OF num] e0 u0 ne
    by (auto simp: distinct_map) (metis leD)+
  show "0 < committed_seq w \<and> committed_seq w < fd_next_seq d" if "w \<in> set ws"
  proof -
    have "committed_seq w \<in> set (map committed_seq ws)"
      using that by simp
    then show ?thesis
      unfolding maps using pos upos e0 u0 le n0 numbered_mem [OF num]
      by (auto intro: less_le_trans)
  qed
  have "distinct (map entry_id (fd_entries d))" "distinct (map ur_id (fd_usage d))"
    using es us distinct_entry_ids [OF wf] distinct_usage_ids [OF wf]
    by (auto simp: distinct_map intro: inj_on_subset)
  then show "distinct (committed_ids ws)"
    using ne_id by (auto simp: ws_def)
qed

lemma fork_replay:
  fixes s :: "('j, 'f::{plus,zero}) storage_state"
  assumes wf: "storage_wf s" and d: "create_fork_snapshot sd (snapshot_for_fork s) options = Inr d"
  obtains s' where "from_fork_snapshot d = Inr s'" "storage_wf s'" "st_next_seq s' = fd_next_seq d"
    "s' = advance_next_seq (foldl apply_one storage_new (fork_snapshot_writes d)) (fd_next_seq d)"
    "\<And>i e. bt_get (st_entries s') i = Some e \<longleftrightarrow> e \<in> set (fd_entries d) \<and> entry_id e = i"
    "\<And>i r. bt_get (st_usage s') i = Some r \<longleftrightarrow> r \<in> set (fd_usage d) \<and> ur_id r = i"
proof -
  let ?ws = "map CommittedEntry (fd_entries d) @ map stored_write (fd_values d) @ map CommittedUsage (fd_usage d)"
  let ?sorted = "fork_snapshot_writes d"
  note ok = fork_writes_ok [OF wf d]
  have set: "set ?sorted = set ?ws"
    by (simp add: fork_snapshot_writes_def)
  have entry: "CommittedEntry e \<in> set ?ws \<longleftrightarrow> e \<in> set (fd_entries d)" for e
    by (auto simp: stored_write_def)
  have usage: "CommittedUsage r \<in> set ?ws \<longleftrightarrow> r \<in> set (fd_usage d)" for r
    by (auto simp: stored_write_def)
  have rok: "replay_ok (storage_view (storage_new :: ('j, 'f) storage_state)) ?sorted"
    unfolding fork_snapshot_writes_def
  proof (rule replay_ok_sorted)
    fix e p
    assume "CommittedEntry e \<in> set ?ws" "entry_parent_id e = Some p"
    then show "\<exists>pe. CommittedEntry pe \<in> set ?ws \<and> entry_id pe = p \<and> entry_seq pe < entry_seq e"
      unfolding entry using fork_entries_sub(3) [OF wf d] by blast
  qed (use ok in auto)
  have no_max: "no_max ?sorted"
    unfolding no_max_def set using ok(2) by (metis order.strict_implies_not_eq order_le_less_trans word_order.extremum)
  define t where "t = foldl apply_one storage_new ?sorted"
  have wft: "storage_wf t"
    unfolding t_def using storage_wf_new rok no_max by (rule storage_wf_foldl)
  have "from_fork_snapshot d = Inr (advance_next_seq t (fd_next_seq d))"
    using rok by (simp add: from_fork_snapshot_def replay_def validate_replayed_iff [THEN iffD2] apply_committed_def t_def Let_def)
  moreover have "st_next_seq t \<le> fd_next_seq d"
  proof (cases "?sorted = []")
    case True
    then show ?thesis
      using fork_values(1) [OF d] by (auto simp: t_def storage_new_def numbered_def word_le_nat_alt word_less_nat_alt)
  next
    case False
    then have "last ?sorted \<in> set ?ws"
      using set last_in_set by blast
    then have "committed_seq (last ?sorted) < fd_next_seq d"
      using ok(2) by blast
    then have "unat (committed_seq (last ?sorted)) + 1 \<le> unat (fd_next_seq d)"
      by (simp add: word_less_nat_alt)
    then show ?thesis
      using False unat_less_pow [of "fd_next_seq d"]
      by (simp add: t_def next_seq_foldl word_le_nat_alt unat_saturating_add)
  qed
  then have "st_next_seq (advance_next_seq t (fd_next_seq d)) = fd_next_seq d"
    by (simp add: advance_next_seq_def max_def)
  moreover have ids: "distinct (committed_ids ?sorted)"
    using rok by (simp add: replay_ok_def)
  have new: "bt_get (st_entries storage_new) i = None" "bt_get (st_usage storage_new) j = None" for i j
    by (simp_all add: storage_new_def)
  have "bt_get (st_entries t) i = Some e \<longleftrightarrow> e \<in> set (fd_entries d) \<and> entry_id e = i" for i e
    unfolding t_def entries_foldl [OF distinct_entry_ids_committed [OF ids]] set entry new by simp
  moreover have "bt_get (st_usage t) i = Some r \<longleftrightarrow> r \<in> set (fd_usage d) \<and> ur_id r = i" for i r
    unfolding t_def usage_foldl [OF ids] set usage new by simp
  ultimately show thesis
    using storage_wf_advance [OF wft] unfolding t_def
    by (intro that) (assumption | simp add: advance_next_seq_def)+
qed

end
