(* ===== verification/Session_Ids.thy ===== *)
theory Session_Ids
  imports Session_Types
begin

text \<open>
  The UUIDv7 generator (\<open>session/ids.rs\<close>). The clock reading, the random seed and the text
  form of a UUID come from outside (the system clock and the \<open>uuid\<close> crate) and are fields of
  the record \<open>id_env\<close>. The generator's process-wide state is threaded explicitly; it can
  change although the call fails (the ordinary timestamp is recorded before the sequence is
  drawn).
\<close>

section \<open>Generator\<close>

definition MAX_UUID_V7_TIMESTAMP :: u64 where
  "MAX_UUID_V7_TIMESTAMP = 0x0000ffffffffffff"

definition MAX_SEQUENCE :: u64 where
  "MAX_SEQUENCE = push_bit 41 1 - 1"

definition RANDOM_SEQUENCE_MASK :: u64 where
  "RANDOM_SEQUENCE_MASK = push_bit 40 1 - 1"

record generator_state =
  gs_last_ordinary_timestamp :: "u64 option"
  gs_sequence :: "u64 option"

definition generator_default :: generator_state where
  "generator_default = \<lparr>gs_last_ordinary_timestamp = None, gs_sequence = None\<rparr>"

record id_env =
  ie_current_millis :: "session_error + u64"
  ie_random_sequence :: u64
  ie_format :: "u64 \<Rightarrow> u32 \<Rightarrow> u64 \<Rightarrow> string"

definition supplied_timestamp :: "u64 \<Rightarrow> u64" where
  "supplied_timestamp requested = requested"

definition ordinary_timestamp :: "generator_state \<Rightarrow> u64 \<Rightarrow> u64 \<times> generator_state" where
  "ordinary_timestamp g requested =
     (let effective = (case gs_last_ordinary_timestamp g of
            None \<Rightarrow> requested | Some previous \<Rightarrow> max previous requested)
      in (effective, g\<lparr>gs_last_ordinary_timestamp := Some effective\<rparr>))"

definition next_sequence :: "generator_state \<Rightarrow> u64 \<Rightarrow> (session_error + u64) \<times> generator_state" where
  "next_sequence g random_sequence =
     (case gs_sequence g of
        None \<Rightarrow>
          let sequence = and random_sequence RANDOM_SEQUENCE_MASK
          in (Inr sequence, g\<lparr>gs_sequence := Some sequence\<rparr>)
      | Some sequence \<Rightarrow>
          if sequence = MAX_SEQUENCE
          then (Inl (Invariant ''UUIDv7 generator sequence exhausted''), g)
          else (Inr (sequence + 1), g\<lparr>gs_sequence := Some (sequence + 1)\<rparr>))"

text \<open>Signed decimal formatting of the rejected timestamp.\<close>

definition show_int :: "int \<Rightarrow> string" where
  "show_int i = (if i < 0 then ''-'' @ show_nat (nat (- i)) else show_nat (nat i))"

definition invalid_timestamp :: "int \<Rightarrow> session_error" where
  "invalid_timestamp timestamp =
     Invariant (''UUIDv7 timestamp must be an integer between 0 and '' @
       show_word MAX_UUID_V7_TIMESTAMP @ '', got '' @ show_int timestamp)"

definition validate_timestamp :: "u64 \<Rightarrow> session_error + unit" where
  "validate_timestamp timestamp =
     (if MAX_UUID_V7_TIMESTAMP < timestamp then Inl (invalid_timestamp (uint timestamp)) else Inr ())"

text \<open>\<open>u64::try_from\<close> on an \<open>i64\<close>.\<close>

definition u64_of_i64 :: "i64 \<Rightarrow> u64 option" where
  "u64_of_i64 v = (if 0 \<le> v then Some (word_of_int v) else None)"

definition requested_timestamp :: "id_env \<Rightarrow> i64 option \<Rightarrow> session_error + u64" where
  "requested_timestamp env timestamp_ms =
     rbind (case timestamp_ms of
        Some v \<Rightarrow> ok_or (u64_of_i64 v) (invalid_timestamp v)
      | None \<Rightarrow> ie_current_millis env) (\<lambda>requested.
     rbind (validate_timestamp requested) (\<lambda>_. Inr requested))"

definition next_string ::
  "id_env \<Rightarrow> generator_state \<Rightarrow> i64 option \<Rightarrow> (session_error + string) \<times> generator_state" where
  "next_string env g timestamp_ms =
     (case requested_timestamp env timestamp_ms of
        Inl e \<Rightarrow> (Inl e, g)
      | Inr requested \<Rightarrow>
          let (timestamp, g) = (case timestamp_ms of
                 Some _ \<Rightarrow> (supplied_timestamp requested, g)
               | None \<Rightarrow> ordinary_timestamp g requested);
              (drawn, g) = next_sequence g (ie_random_sequence env)
          in case drawn of
               Inl e \<Rightarrow> (Inl e, g)
             | Inr sequence \<Rightarrow>
                 let seconds = timestamp div 1000;
                     subsec_millis = (ucast (timestamp mod 1000) :: u32);
                     subsec_nanos = subsec_millis * 1000000
                 in (Inr (ie_format env seconds subsec_nanos sequence), g))"

section \<open>Runs of the generator\<close>

text \<open>A sequence of calls, each with its own environment; the issued ids in order.\<close>

fun run_generator ::
  "generator_state \<Rightarrow> (id_env \<times> i64 option) list \<Rightarrow> string list \<times> generator_state" where
  "run_generator g [] = ([], g)"
| "run_generator g ((env, ts) # calls) =
     (let (r, g') = next_string env g ts;
          (ids, g'') = run_generator g' calls
      in (case r of Inl e \<Rightarrow> ids | Inr i \<Rightarrow> i # ids, g''))"

definition sequence_ok :: "generator_state \<Rightarrow> bool" where
  "sequence_ok g \<longleftrightarrow> (case gs_sequence g of None \<Rightarrow> True | Some s \<Rightarrow> s \<le> MAX_SEQUENCE)"

lemma masks: "unat MAX_SEQUENCE = 2 ^ 41 - 1" "unat RANDOM_SEQUENCE_MASK = 2 ^ 40 - 1"
  by (simp_all add: MAX_SEQUENCE_def RANDOM_SEQUENCE_MASK_def)

lemma random_sequence_le: "unat (and r RANDOM_SEQUENCE_MASK) < 2 ^ 40"
proof -
  have "and r RANDOM_SEQUENCE_MASK \<le> RANDOM_SEQUENCE_MASK"
    by (rule word_and_le1)
  then show ?thesis
    by (simp add: word_le_nat_alt masks)
qed

text \<open>One draw: the state stays in range and a drawn sequence exceeds every earlier one.\<close>

lemma next_sequence_step:
  assumes "sequence_ok g" and "next_sequence g r = (res, g')"
  shows "sequence_ok g'"
    and "\<And>q. res = Inr q \<Longrightarrow> gs_sequence g' = Some q \<and> (\<forall>p. gs_sequence g = Some p \<longrightarrow> unat q = unat p + 1)"
    and "\<And>e. res = Inl e \<Longrightarrow> g' = g \<and> gs_sequence g = Some MAX_SEQUENCE"
proof -
  show "sequence_ok g'"
  proof (cases "gs_sequence g")
    case None
    then show ?thesis
      using assms(2) random_sequence_le [of r]
      by (auto simp: next_sequence_def sequence_ok_def Let_def word_le_nat_alt masks)
  next
    case (Some p)
    show ?thesis
    proof (cases "p = MAX_SEQUENCE")
      case True
      then show ?thesis
        using assms Some by (simp add: next_sequence_def)
    next
      case False
      then have "p < MAX_SEQUENCE"
        using assms(1) Some by (simp add: sequence_ok_def)
      then have "unat (p + 1) = unat p + 1" "unat p + 1 \<le> unat MAX_SEQUENCE"
        by (simp_all add: word_less_nat_alt masks unat_word_ariths)
      then show ?thesis
        using assms(2) Some False by (auto simp: next_sequence_def sequence_ok_def word_le_nat_alt)
    qed
  qed
  show "gs_sequence g' = Some q \<and> (\<forall>p. gs_sequence g = Some p \<longrightarrow> unat q = unat p + 1)" if "res = Inr q" for q
  proof -
    have "unat (p + 1) = unat p + 1" if "gs_sequence g = Some p" "p \<noteq> MAX_SEQUENCE" for p
    proof -
      have "p < MAX_SEQUENCE"
        using assms(1) that by (simp add: sequence_ok_def)
      then show ?thesis
        by (simp add: word_less_nat_alt masks unat_word_ariths)
    qed
    then show ?thesis
      using assms(2) that by (auto simp: next_sequence_def Let_def split: option.splits if_splits)
  qed
  show "g' = g \<and> gs_sequence g = Some MAX_SEQUENCE" if "res = Inl e" for e
    using assms(2) that by (auto simp: next_sequence_def Let_def split: option.splits if_splits)
qed

lemma ordinary_timestamp_sequence [simp]:
  "ordinary_timestamp g requested = (t, g') \<Longrightarrow> gs_sequence g' = gs_sequence g"
  by (auto simp: ordinary_timestamp_def Let_def)

lemma sequence_ok_cong: "gs_sequence g' = gs_sequence g \<Longrightarrow> sequence_ok g' = sequence_ok g"
  by (simp add: sequence_ok_def)

lemma next_string_step:
  assumes ok: "sequence_ok g" and call: "next_string env g ts = (res, g')"
  shows "sequence_ok g' \<and>
    (\<forall>i. res = Inr i \<longrightarrow> (\<exists>s n q. i = ie_format env s n q \<and> gs_sequence g' = Some q \<and>
       (\<forall>p. gs_sequence g = Some p \<longrightarrow> p < q))) \<and>
    (\<forall>e. res = Inl e \<longrightarrow> gs_sequence g' = gs_sequence g)"
proof (cases "requested_timestamp env ts")
  case (Inl e)
  with assms show ?thesis by (auto simp: next_string_def)
next
  case (Inr requested)
  define tg where "tg = (case ts of Some _ \<Rightarrow> (supplied_timestamp requested, g) | None \<Rightarrow> ordinary_timestamp g requested)"
  obtain t g1 where tg: "tg = (t, g1)" by (cases tg)
  obtain drawn g2 where draw: "next_sequence g1 (ie_random_sequence env) = (drawn, g2)"
    by (cases "next_sequence g1 (ie_random_sequence env)")
  have same: "gs_sequence g1 = gs_sequence g"
    using tg by (cases ts) (auto simp: tg_def)
  have ok1: "sequence_ok g1"
    using ok sequence_ok_cong [OF same] by simp
  note step = next_sequence_step [OF ok1 draw]
  have eq: "next_string env g ts = (case drawn of Inl e \<Rightarrow> (Inl e, g2)
      | Inr q \<Rightarrow> (Inr (ie_format env (t div 1000) ((ucast (t mod 1000) :: u32) * 1000000) q), g2))"
    using tg draw Inr by (cases ts; cases drawn) (simp_all add: next_string_def tg_def Let_def)
  show ?thesis
  proof (cases drawn)
    case (Inl e)
    then show ?thesis
      using call eq step(1) step(3) [OF Inl] same by auto
  next
    case (Inr q)
    have "p < q" if "gs_sequence g = Some p" for p
      using step(2) [OF Inr] same that by (simp add: word_less_nat_alt)
    then show ?thesis
      using call eq Inr step(1) step(2) [OF Inr] by auto
  qed
qed

lemma run_generator_sequences:
  assumes "sequence_ok g" and "run_generator g calls = (ids, g')" and "\<forall>(env, ts) \<in> set calls. ie_format env = fmt"
  shows "\<exists>qs. sorted_wrt (<) qs \<and> (\<forall>q \<in> set qs. q \<le> MAX_SEQUENCE \<and> (\<forall>p. gs_sequence g = Some p \<longrightarrow> p < q)) \<and>
    list_all2 (\<lambda>i q. \<exists>s n. i = fmt s n q) ids qs"
  using assms
proof (induction calls arbitrary: g ids)
  case Nil
  then show ?case by auto
next
  case (Cons c calls)
  obtain env ts where c: "c = (env, ts)" by (cases c)
  obtain r g1 where step: "next_string env g ts = (r, g1)" by (cases "next_string env g ts")
  obtain ids1 where rest: "run_generator g1 calls = (ids1, g')"
    and ids: "ids = (case r of Inl e \<Rightarrow> ids1 | Inr i \<Rightarrow> i # ids1)"
    using Cons.prems(2) c step by (cases "run_generator g1 calls") (auto simp: Let_def)
  note n = next_string_step [OF Cons.prems(1) step]
  then have "sequence_ok g1" by blast
  moreover have fmt: "ie_format env = fmt" "\<forall>(env, ts) \<in> set calls. ie_format env = fmt"
    using Cons.prems(3) c by auto
  ultimately obtain qs where qs: "sorted_wrt (<) qs"
      "\<forall>q \<in> set qs. q \<le> MAX_SEQUENCE \<and> (\<forall>p. gs_sequence g1 = Some p \<longrightarrow> p < q)"
      "list_all2 (\<lambda>i q. \<exists>s n. i = fmt s n q) ids1 qs"
    using Cons.IH rest by blast
  show ?case
  proof (cases r)
    case (Inl e)
    with n qs ids show ?thesis by auto
  next
    case (Inr i)
    with n obtain s k q where q: "i = fmt s k q" "gs_sequence g1 = Some q"
        "\<forall>p. gs_sequence g = Some p \<longrightarrow> p < q"
      using fmt by auto
    moreover have "q \<le> MAX_SEQUENCE"
      using n q(2) by (simp add: sequence_ok_def)
    ultimately have "sorted_wrt (<) (q # qs)"
      "\<forall>q' \<in> set (q # qs). q' \<le> MAX_SEQUENCE \<and> (\<forall>p. gs_sequence g = Some p \<longrightarrow> p < q')"
      using qs by (auto intro: less_trans)
    moreover have "list_all2 (\<lambda>i q. \<exists>s n. i = fmt s n q) ids (q # qs)"
      using qs(3) ids Inr q(1) by auto
    ultimately show ?thesis by blast
  qed
qed

text \<open>
  What the generator relies on: the text of a UUID built with a 41-bit counter determines the
  counter.
\<close>

definition format_keeps_sequence :: "(u64 \<Rightarrow> u32 \<Rightarrow> u64 \<Rightarrow> string) \<Rightarrow> bool" where
  "format_keeps_sequence fmt \<longleftrightarrow>
     (\<forall>s n q s' n' q'. q \<le> MAX_SEQUENCE \<and> q' \<le> MAX_SEQUENCE \<and> fmt s n q = fmt s' n' q' \<longrightarrow> q = q')"

lemma run_generator_distinct:
  assumes "sequence_ok g" and "run_generator g calls = (ids, g')"
    and "\<forall>(env, ts) \<in> set calls. ie_format env = fmt" and fmt: "format_keeps_sequence fmt"
  shows "distinct ids"
proof -
  obtain qs where qs: "sorted_wrt (<) qs" "\<forall>q \<in> set qs. q \<le> MAX_SEQUENCE"
    "list_all2 (\<lambda>i q. \<exists>s n. i = fmt s n q) ids qs"
    using run_generator_sequences [OF assms(1-3)] by blast
  have "distinct qs"
    using qs(1) strict_sorted_iff by blast
  with qs(3,2) show ?thesis
  proof (induction ids qs rule: list_all2_induct)
    case (Cons i rest q qs)
    have "i \<notin> set rest"
    proof
      assume "i \<in> set rest"
      then obtain q' where "q' \<in> set qs" "\<exists>s n. i = fmt s n q'"
        using Cons.hyps(2) unfolding list_all2_conv_all_nth in_set_conv_nth by (metis nth_mem)
      with Cons.hyps(1) Cons.prems fmt show False
        unfolding format_keeps_sequence_def by (metis distinct.simps(2) list.set_intros)
    qed
    with Cons show ?case by simp
  qed simp
qed

end
