(* ===== verification/Session_Backed.thy ===== *)
theory Session_Backed
  imports Session_Fork Session_Ids
begin

text \<open>
  \<open>StorageBackedSession\<close>, its mutation guard and its branch handles (\<open>session/backed.rs\<close>),
  over any backend. The trait \<open>Storage\<close> (\<open>session/traits.rs\<close>) is the record \<open>storage_ops\<close> of
  its methods; \<open>IdGenerator\<close> is a function on a generator state. Every operation takes the
  session and returns its result together with the session afterwards, also when it fails.
  Operations run one at a time here, so a lock request is granted at once; the orderings that
  the lock and the closed flag allow are the subject of \<open>Session_Lifecycle\<close>.
\<close>

section \<open>Sequencing\<close>

text \<open>
  A fallible step on a state: \<open>eop\<close> for any error type, \<open>op\<close> for the session layer's errors.
\<close>

type_synonym ('e, 's, 'a) eop = "'s \<Rightarrow> ('e + 'a) \<times> 's"

type_synonym ('s, 'a) op = "(session_error, 's, 'a) eop"

definition op_return :: "'a \<Rightarrow> ('e, 's, 'a) eop" where
  "op_return a = (\<lambda>s. (Inr a, s))"

definition op_fail :: "'e \<Rightarrow> ('e, 's, 'a) eop" where
  "op_fail e = (\<lambda>s. (Inl e, s))"

text \<open>A step that only reads the state and may fail.\<close>

definition op_read :: "('s \<Rightarrow> 'e + 'a) \<Rightarrow> ('e, 's, 'a) eop" where
  "op_read f = (\<lambda>s. (f s, s))"

definition op_bind :: "('e, 's, 'a) eop \<Rightarrow> ('a \<Rightarrow> ('e, 's, 'b) eop) \<Rightarrow> ('e, 's, 'b) eop" where
  "op_bind m f = (\<lambda>s. case m s of (Inl e, s') \<Rightarrow> (Inl e, s') | (Inr a, s') \<Rightarrow> f a s')"

lemma op_simps [simp]:
  "op_return a s = (Inr a, s)" "op_fail e s = (Inl e, s)" "op_read f s = (f s, s)"
  by (simp_all add: op_return_def op_fail_def op_read_def)

lemma op_bind_Inl [simp]: "m s = (Inl e, s') \<Longrightarrow> op_bind m f s = (Inl e, s')"
  by (simp add: op_bind_def)

lemma op_bind_Inr [simp]: "m s = (Inr a, s') \<Longrightarrow> op_bind m f s = f a s'"
  by (simp add: op_bind_def)

lemma op_bind_InrE:
  assumes "op_bind m f s = (Inr b, t)"
  obtains a s' where "m s = (Inr a, s')" and "f a s' = (Inr b, t)"
  using assms by (auto simp: op_bind_def split: prod.splits sum.splits)

section \<open>The backend interface\<close>

record ('m, 'j, 'f) storage_ops =
  so_commit :: "('j, 'f) session_write list \<Rightarrow> call_context \<Rightarrow> ('m, 'f commit_result) op"
  so_get_entries :: "'m \<Rightarrow> entry_id list \<Rightarrow> call_context \<Rightarrow> session_error + (entry_id, ('j, 'f) entry) btree_map"
  so_get_value :: "'m \<Rightarrow> raw_address \<Rightarrow> call_context \<Rightarrow> session_error + 'j raw_stored_value option"
  so_scan_values :: "'m \<Rightarrow> raw_address \<Rightarrow> call_context \<Rightarrow> session_error + 'j raw_stored_value list"
  so_read_list :: "'m \<Rightarrow> raw_address \<Rightarrow> list_read_options option \<Rightarrow> call_context \<Rightarrow> session_error + 'j raw_list_element list"
  so_scan_branch :: "'m \<Rightarrow> storage_branch_scan \<Rightarrow> call_context \<Rightarrow> session_error + ('j, 'f) entry list"
  so_scan_branch_structure :: "'m \<Rightarrow> storage_branch_scan \<Rightarrow> call_context \<Rightarrow> session_error + entry_structure list"
  so_scan_entries :: "'m \<Rightarrow> entry_scan \<Rightarrow> call_context \<Rightarrow> session_error + ('j, 'f) entry list"
  so_scan_usage :: "'m \<Rightarrow> usage_scan \<Rightarrow> call_context \<Rightarrow> session_error + ('j, 'f) usage_row list"
  so_get_stats :: "'m \<Rightarrow> call_context \<Rightarrow> session_error + 'f session_stats"
  so_close :: "call_context \<Rightarrow> ('m, unit) op"

text \<open>The methods of \<open>MemoryStorage\<close>, \<open>now\<close> being the clock reading at the commit.\<close>

definition memory_ops :: "session_error + i64 \<Rightarrow> (('j, 'f::plus) memory_storage, 'j, 'f) storage_ops" where
  "memory_ops now =
     \<lparr>so_commit = (\<lambda>writes cx m. case memory_commit now m writes cx of
          Inl e \<Rightarrow> (Inl e, m) | Inr (m', r) \<Rightarrow> (Inr r, m')),
      so_get_entries = memory_get_entries, so_get_value = memory_get_value,
      so_scan_values = memory_scan_values, so_read_list = memory_read_list,
      so_scan_branch = memory_scan_branch, so_scan_branch_structure = memory_scan_branch_structure,
      so_scan_entries = memory_scan_entries, so_scan_usage = memory_scan_usage,
      so_get_stats = memory_get_stats,
      so_close = (\<lambda>cx m. case memory_close m cx of Inl e \<Rightarrow> (Inl e, m) | Inr m' \<Rightarrow> (Inr (), m'))\<rparr>"

section \<open>The session\<close>

record session_metadata =
  md_id :: string
  md_created_at :: i64
  md_storage_version :: u32
  md_cwd :: "string option"
  md_parent_session_id :: "string option"
  md_legacy_parent_session_path :: "string option"

text \<open>
  \<open>bk_close_result\<close> is the result the close operation published, if one was started;
  \<open>bk_hook\<close> says whether the close callback is still installed and \<open>bk_callbacks\<close> counts how
  often it ran.
\<close>

record ('m, 'g) backed_session =
  bk_metadata :: session_metadata
  bk_storage :: 'm
  bk_generator :: 'g
  bk_closed :: bool
  bk_close_result :: "(session_error + unit) option"
  bk_hook :: bool
  bk_callbacks :: nat

definition session_new :: "session_metadata \<Rightarrow> 'm \<Rightarrow> 'g \<Rightarrow> bool \<Rightarrow> ('m, 'g) backed_session" where
  "session_new metadata storage generator on_close =
     \<lparr>bk_metadata = metadata, bk_storage = storage, bk_generator = generator, bk_closed = False,
      bk_close_result = None, bk_hook = on_close, bk_callbacks = 0\<rparr>"

definition session_ensure_open :: "('m, 'g) backed_session \<Rightarrow> session_error + unit" where
  "session_ensure_open s = (if bk_closed s then Inl closed_error else Inr ())"

definition session_guard :: "call_context \<Rightarrow> ('m, 'g) backed_session \<Rightarrow> session_error + unit" where
  "session_guard cx s = rbind (check_context cx) (\<lambda>_. session_ensure_open s)"

definition session_get_entries ::
  "('m, 'j, 'f) storage_ops \<Rightarrow> ('m, 'g) backed_session \<Rightarrow> entry_id list \<Rightarrow> call_context
    \<Rightarrow> session_error + (entry_id, ('j, 'f) entry) btree_map" where
  "session_get_entries ops s ids cx =
     rbind (session_guard cx s) (\<lambda>_. so_get_entries ops (bk_storage s) ids cx)"

definition session_get_stats ::
  "('m, 'j, 'f) storage_ops \<Rightarrow> ('m, 'g) backed_session \<Rightarrow> call_context \<Rightarrow> session_error + 'f session_stats" where
  "session_get_stats ops s cx = rbind (session_guard cx s) (\<lambda>_. so_get_stats ops (bk_storage s) cx)"

definition session_get_value_json ::
  "('m, 'j, 'f) storage_ops \<Rightarrow> ('m, 'g) backed_session \<Rightarrow> raw_address \<Rightarrow> call_context
    \<Rightarrow> session_error + 'j raw_stored_value option" where
  "session_get_value_json ops s addr cx =
     rbind (session_guard cx s) (\<lambda>_. so_get_value ops (bk_storage s) addr cx)"

definition session_scan_values_json ::
  "('m, 'j, 'f) storage_ops \<Rightarrow> ('m, 'g) backed_session \<Rightarrow> raw_address \<Rightarrow> call_context
    \<Rightarrow> session_error + 'j raw_stored_value list" where
  "session_scan_values_json ops s pre cx =
     rbind (session_guard cx s) (\<lambda>_. so_scan_values ops (bk_storage s) pre cx)"

definition session_read_list_json ::
  "('m, 'j, 'f) storage_ops \<Rightarrow> ('m, 'g) backed_session \<Rightarrow> raw_address \<Rightarrow> list_read_options option
    \<Rightarrow> call_context \<Rightarrow> session_error + 'j raw_list_element list" where
  "session_read_list_json ops s addr options cx =
     rbind (session_guard cx s) (\<lambda>_. so_read_list ops (bk_storage s) addr options cx)"

definition session_scan_branch ::
  "('m, 'j, 'f) storage_ops \<Rightarrow> ('m, 'g) backed_session \<Rightarrow> storage_branch_scan \<Rightarrow> call_context
    \<Rightarrow> session_error + ('j, 'f) entry list" where
  "session_scan_branch ops s q cx =
     rbind (session_guard cx s) (\<lambda>_. so_scan_branch ops (bk_storage s) q cx)"

section \<open>Typed reads\<close>

text \<open>
  \<open>SessionReaderExt\<close>: decoding layered on a raw read. The raw read and the decoder
  (\<open>serde_json::from_value\<close> at the value's type) are arguments.
\<close>

definition corrupt_value :: "string \<Rightarrow> session_error" where
  "corrupt_value error =
     Backend \<lparr>sf_code = Corrupt, sf_message = ''stored value decode failed'', sf_source = Some error\<rparr>"

definition corrupt_message :: "string \<Rightarrow> session_error" where
  "corrupt_message message = Backend (storage_failure_new Corrupt message)"

record 'a stored_value =
  sv_address :: value_address
  sv_value :: 'a
  sv_seq :: u64

record 'a list_element =
  le_seq :: u64
  le_value :: 'a

definition typed_get_value ::
  "(raw_address \<Rightarrow> session_error + 'j raw_stored_value option) \<Rightarrow> ('j \<Rightarrow> string + 'a)
    \<Rightarrow> value_address \<Rightarrow> session_error + 'a stored_value option" where
  "typed_get_value get_json decode addr =
     rbind (get_json (erase_value addr)) (\<lambda>raw.
     case raw of
       None \<Rightarrow> Inr None
     | Some raw \<Rightarrow>
         rbind (map_err corrupt_value (decode (rv_value raw))) (\<lambda>v.
         Inr (Some \<lparr>sv_address = addr, sv_value = v, sv_seq = rv_seq raw\<rparr>)))"

fun collect_results :: "('a \<Rightarrow> 'e + 'b) \<Rightarrow> 'a list \<Rightarrow> 'e + 'b list" where
  "collect_results f [] = Inr []"
| "collect_results f (x # xs) = rbind (f x) (\<lambda>y. rbind (collect_results f xs) (\<lambda>ys. Inr (y # ys)))"

definition typed_scan_values ::
  "(raw_address \<Rightarrow> session_error + 'j raw_stored_value list) \<Rightarrow> ('j \<Rightarrow> string + 'a)
    \<Rightarrow> value_address \<Rightarrow> session_error + 'a stored_value list" where
  "typed_scan_values scan_json decode pre =
     rbind (scan_json (erase_value pre)) (collect_results (\<lambda>raw.
       rbind (map_err corrupt_value (decode (rv_value raw))) (\<lambda>v.
       rbind (map_err (\<lambda>_. corrupt_message ''stored address is invalid'')
                (value_new (va_namespace pre) (rv_key raw))) (\<lambda>addr.
       Inr \<lparr>sv_address = addr, sv_value = v, sv_seq = rv_seq raw\<rparr>))))"

definition typed_read_list ::
  "(raw_address \<Rightarrow> session_error + 'j raw_list_element list) \<Rightarrow> ('j \<Rightarrow> string + 'a)
    \<Rightarrow> value_list_address \<Rightarrow> session_error + 'a list_element list" where
  "typed_read_list read_json decode addr =
     rbind (read_json (erase_list addr)) (collect_results (\<lambda>raw.
       map_err corrupt_value (case decode (rl_value raw) of
          Inl e \<Rightarrow> Inl e | Inr v \<Rightarrow> Inr \<lparr>le_seq = rl_seq raw, le_value = v\<rparr>)))"

section \<open>Reads of the session\<close>

definition session_get_entry ::
  "('m, 'j, 'f) storage_ops \<Rightarrow> ('m, 'g) backed_session \<Rightarrow> entry_id \<Rightarrow> call_context
    \<Rightarrow> session_error + ('j, 'f) entry option" where
  "session_get_entry ops s i cx =
     rbind (session_get_entries ops s [i] cx) (\<lambda>entries. Inr (bt_get entries i))"

definition session_get_name ::
  "('m, 'j, 'f) storage_ops \<Rightarrow> 'j serde \<Rightarrow> ('m, 'g) backed_session \<Rightarrow> call_context
    \<Rightarrow> session_error + string option" where
  "session_get_name ops sd s cx =
     rbind (typed_get_value (\<lambda>a. session_get_value_json ops s a cx) (sd_string_from_value sd) session_name)
       (\<lambda>stored. Inr (map_option sv_value stored))"

definition session_get_label ::
  "('m, 'j, 'f) storage_ops \<Rightarrow> 'j serde \<Rightarrow> ('m, 'g) backed_session \<Rightarrow> entry_id \<Rightarrow> call_context
    \<Rightarrow> session_error + string option" where
  "session_get_label ops sd s target cx =
     rbind (typed_get_value (\<lambda>a. session_get_value_json ops s a cx) (sd_string_from_value sd) (entry_label target))
       (\<lambda>stored. Inr (map_option sv_value stored))"

definition session_find_entries ::
  "('m, 'j, 'f) storage_ops \<Rightarrow> ('m, 'g) backed_session \<Rightarrow> entry_query option \<Rightarrow> call_context
    \<Rightarrow> session_error + ('j, 'f) entry list" where
  "session_find_entries ops s query cx =
     rbind (session_guard cx s) (\<lambda>_.
     let query = unwrap_or query entry_query_default;
         order = unwrap_or (eq_order query) Desc;
         (from_seq, to_seq) = (case eq_cursor query of
             None \<Rightarrow> (None, None)
           | Some cursor \<Rightarrow> (case order of
               Asc \<Rightarrow> (Some (saturating_add (ec_seq cursor) 1), None)
             | Desc \<Rightarrow> (None, Some (saturating_sub (ec_seq cursor) 1))))
     in so_scan_entries ops (bk_storage s)
          \<lparr>es_from_seq = from_seq, es_to_seq = to_seq, es_order = Some order,
           es_limit = eq_limit query, es_entry_type = eq_entry_type query,
           es_custom_type = eq_custom_type query\<rparr> cx)"

definition first_of :: "'a list \<Rightarrow> 'a option" where
  "first_of xs = (case xs of [] \<Rightarrow> None | x # _ \<Rightarrow> Some x)"

definition session_find_entry ::
  "('m, 'j, 'f) storage_ops \<Rightarrow> ('m, 'g) backed_session \<Rightarrow> entry_query option \<Rightarrow> call_context
    \<Rightarrow> session_error + ('j, 'f) entry option" where
  "session_find_entry ops s query cx =
     (let query = unwrap_or query entry_query_default;
          query = query\<lparr>eq_limit := Some (case eq_limit query of None \<Rightarrow> 1 | Some limit \<Rightarrow> min limit 1)\<rparr>
      in rbind (session_find_entries ops s (Some query) cx) (\<lambda>entries. Inr (first_of entries)))"

section \<open>Mutations\<close>

text \<open>Admission is checked before and after the lock is taken.\<close>

definition begin_mutation :: "call_context \<Rightarrow> (('m, 'g) backed_session, unit) op" where
  "begin_mutation cx =
     op_bind (op_read (session_guard cx)) (\<lambda>_.
     op_bind (op_read session_ensure_open) (\<lambda>_.
     op_read (\<lambda>_. check_context cx)))"

definition on_storage :: "('m, 'a) op \<Rightarrow> (('m, 'g) backed_session, 'a) op" where
  "on_storage f = (\<lambda>s. let (r, m) = f (bk_storage s) in (r, s\<lparr>bk_storage := m\<rparr>))"

definition mutation_commit ::
  "('m, 'j, 'f) storage_ops \<Rightarrow> ('j, 'f) session_write list \<Rightarrow> call_context
    \<Rightarrow> (('m, 'g) backed_session, 'f commit_result) op" where
  "mutation_commit ops writes cx =
     op_bind (op_read (\<lambda>_. check_context cx)) (\<lambda>_.
     on_storage (so_commit ops writes (without_cancellation cx)))"

definition mutation_get_value ::
  "('m, 'j, 'f) storage_ops \<Rightarrow> ('j \<Rightarrow> string + 'a) \<Rightarrow> value_address \<Rightarrow> call_context
    \<Rightarrow> (('m, 'g) backed_session, 'a stored_value option) op" where
  "mutation_get_value ops decode addr cx =
     op_read (\<lambda>s. typed_get_value (\<lambda>a. so_get_value ops (bk_storage s) a cx) decode addr)"

definition mutation_get_entries ::
  "('m, 'j, 'f) storage_ops \<Rightarrow> entry_id list \<Rightarrow> call_context
    \<Rightarrow> (('m, 'g) backed_session, (entry_id, ('j, 'f) entry) btree_map) op" where
  "mutation_get_entries ops ids cx = op_read (\<lambda>s. so_get_entries ops (bk_storage s) ids cx)"

definition generate_id :: "('g \<Rightarrow> i64 option \<Rightarrow> (session_error + string) \<times> 'g) \<Rightarrow> (('m, 'g) backed_session, string) op" where
  "generate_id gen = (\<lambda>s. let (r, g) = gen (bk_generator s) None in (r, s\<lparr>bk_generator := g\<rparr>))"

definition unknown_branch :: "lane_name \<Rightarrow> session_error" where
  "unknown_branch name = Invariant (''unknown branch: '' @ name)"

definition append_to_branch ::
  "('m, 'j, 'f) storage_ops \<Rightarrow> ('g \<Rightarrow> i64 option \<Rightarrow> (session_error + string) \<times> 'g) \<Rightarrow> 'j serde
    \<Rightarrow> lane_name \<Rightarrow> ('j, 'f) new_entry_body \<Rightarrow> call_context \<Rightarrow> (('m, 'g) backed_session, entry_id) op" where
  "append_to_branch ops gen sd name body cx =
     op_bind (op_read session_ensure_open) (\<lambda>_.
     if pending_assistant body then op_fail PendingAssistantMessage
     else
       op_bind (generate_id gen) (\<lambda>i.
       op_bind (begin_mutation cx) (\<lambda>_.
       op_bind (mutation_get_value ops (sd_tip_from_value sd) (branch_tip name) cx) (\<lambda>stored.
       op_bind (op_read (\<lambda>_. ok_or stored (unknown_branch name))) (\<lambda>stored.
       op_bind (op_read (\<lambda>_. set_value (branch_tip name) (sd_tip_to_value sd (Some i)))) (\<lambda>tip_write.
       op_bind (mutation_commit ops
         [WriteEntry \<lparr>ne_id = i, ne_parent_id = sv_value stored, ne_body = body\<rparr>, tip_write] cx) (\<lambda>_.
       op_return i)))))))"

definition create_branch ::
  "('m, 'j, 'f) storage_ops \<Rightarrow> 'j serde \<Rightarrow> lane_name \<Rightarrow> entry_id option \<Rightarrow> call_context
    \<Rightarrow> (('m, 'g) backed_session, lane_name) op" where
  "create_branch ops sd name at cx =
     op_bind (op_read session_ensure_open) (\<lambda>_.
     op_bind (op_read (\<lambda>_. validate_branch_name name)) (\<lambda>_.
     op_bind (begin_mutation cx) (\<lambda>_.
     op_bind (mutation_get_value ops (sd_tip_from_value sd) (branch_tip name) cx) (\<lambda>stored.
     if stored \<noteq> None then op_fail (BranchExists name)
     else
       op_bind (case at of
           None \<Rightarrow> op_return ()
         | Some i \<Rightarrow>
             op_bind (mutation_get_entries ops [i] cx) (\<lambda>entries.
             if entries = [] then op_fail (UnknownTarget i) else op_return ())) (\<lambda>_.
       op_bind (op_read (\<lambda>_. set_value (branch_tip name) (sd_tip_to_value sd at))) (\<lambda>tip_write.
       op_bind (mutation_commit ops [tip_write] cx) (\<lambda>_.
       op_return name)))))))"

definition session_branch ::
  "('m, 'j, 'f) storage_ops \<Rightarrow> 'j serde \<Rightarrow> ('m, 'g) backed_session \<Rightarrow> lane_name \<Rightarrow> call_context
    \<Rightarrow> session_error + lane_name option" where
  "session_branch ops sd s name cx =
     rbind (validate_branch_name name) (\<lambda>_.
     rbind (typed_get_value (\<lambda>a. session_get_value_json ops s a cx) (sd_tip_from_value sd) (branch_tip name))
       (\<lambda>stored. case stored of None \<Rightarrow> Inr None | Some _ \<Rightarrow> Inr (Some name)))"

text \<open>The single-write methods.\<close>

definition commit_single ::
  "('m, 'j, 'f) storage_ops \<Rightarrow> ('j, 'f) session_write \<Rightarrow> call_context \<Rightarrow> (('m, 'g) backed_session, unit) op" where
  "commit_single ops w cx =
     op_bind (begin_mutation cx) (\<lambda>_.
     op_bind (mutation_commit ops [w] cx) (\<lambda>_. op_return ()))"

definition set_value_json ::
  "('m, 'j, 'f) storage_ops \<Rightarrow> raw_address \<Rightarrow> 'j \<Rightarrow> call_context \<Rightarrow> (('m, 'g) backed_session, unit) op" where
  "set_value_json ops addr v cx = commit_single ops (WriteValue (ValueSet (ra_namespace addr) (ra_key addr) v)) cx"

definition delete_value_json ::
  "('m, 'j, 'f) storage_ops \<Rightarrow> raw_address \<Rightarrow> call_context \<Rightarrow> (('m, 'g) backed_session, unit) op" where
  "delete_value_json ops addr cx = commit_single ops (WriteValue (ValueDelete (ra_namespace addr) (ra_key addr))) cx"

definition append_list_json ::
  "('m, 'j, 'f) storage_ops \<Rightarrow> raw_address \<Rightarrow> 'j \<Rightarrow> call_context \<Rightarrow> (('m, 'g) backed_session, unit) op" where
  "append_list_json ops addr v cx = commit_single ops (WriteList (ListAppend (ra_namespace addr) (ra_key addr) v)) cx"

definition delete_list_json ::
  "('m, 'j, 'f) storage_ops \<Rightarrow> raw_address \<Rightarrow> call_context \<Rightarrow> (('m, 'g) backed_session, unit) op" where
  "delete_list_json ops addr cx = commit_single ops (WriteList (ListDelete (ra_namespace addr) (ra_key addr))) cx"

definition set_name ::
  "('m, 'j, 'f) storage_ops \<Rightarrow> 'j serde \<Rightarrow> string option \<Rightarrow> call_context \<Rightarrow> (('m, 'g) backed_session, unit) op" where
  "set_name ops sd name cx =
     (case name of
        Some n \<Rightarrow> set_value_json ops (erase_value session_name) (sd_string_value sd n) cx
      | None \<Rightarrow> delete_value_json ops (erase_value session_name) cx)"

definition set_label ::
  "('m, 'j, 'f) storage_ops \<Rightarrow> 'j serde \<Rightarrow> entry_id \<Rightarrow> string option \<Rightarrow> call_context
    \<Rightarrow> (('m, 'g) backed_session, unit) op" where
  "set_label ops sd target label cx =
     (case label of
        Some l \<Rightarrow> set_value_json ops (erase_value (entry_label target)) (sd_string_value sd l) cx
      | None \<Rightarrow> delete_value_json ops (erase_value (entry_label target)) cx)"

section \<open>Close\<close>

text \<open>
  The task \<open>CloseState::start\<close> spawns: close the backend with a context that cannot be
  cancelled, run the callback if it is still installed, publish the result. \<open>start\<close> spawns it
  once; later calls return the published result.
\<close>

definition close_task :: "('m, 'j, 'f) storage_ops \<Rightarrow> call_context \<Rightarrow> (('m, 'g) backed_session, unit) op" where
  "close_task ops cx = (\<lambda>s.
     let (result, m) = so_close ops (without_cancellation cx) (bk_storage s)
     in (result, s\<lparr>bk_storage := m,
                   bk_callbacks := (if bk_hook s then bk_callbacks s + 1 else bk_callbacks s),
                   bk_hook := False,
                   bk_close_result := Some result\<rparr>))"

definition session_close :: "('m, 'j, 'f) storage_ops \<Rightarrow> call_context \<Rightarrow> (('m, 'g) backed_session, unit) op" where
  "session_close ops cx =
     op_bind (op_read (\<lambda>_. check_context cx)) (\<lambda>_ s.
     let s = s\<lparr>bk_closed := True\<rparr> in
     case bk_close_result s of
       Some result \<Rightarrow> (result, s)
     | None \<Rightarrow> close_task ops cx s)"

section \<open>Branch handles\<close>

definition get_tip_id ::
  "('m, 'j, 'f) storage_ops \<Rightarrow> 'j serde \<Rightarrow> ('m, 'g) backed_session \<Rightarrow> lane_name \<Rightarrow> call_context
    \<Rightarrow> session_error + entry_id option" where
  "get_tip_id ops sd s name cx =
     rbind (typed_get_value (\<lambda>a. session_get_value_json ops s a cx) (sd_tip_from_value sd) (branch_tip name))
       (\<lambda>stored. ok_or (map_option sv_value stored) (unknown_branch name))"

definition branch_find_entries ::
  "('m, 'j, 'f) storage_ops \<Rightarrow> 'j serde \<Rightarrow> ('m, 'g) backed_session \<Rightarrow> lane_name \<Rightarrow> branch_scan option
    \<Rightarrow> call_context \<Rightarrow> session_error + ('j, 'f) entry list" where
  "branch_find_entries ops sd s name query cx =
     (let query = unwrap_or query branch_scan_default in
      rbind (case bs_start query of Some start \<Rightarrow> Inr (Some start) | None \<Rightarrow> get_tip_id ops sd s name cx) (\<lambda>start.
      case start of
        None \<Rightarrow> Inr []
      | Some start \<Rightarrow>
          session_scan_branch ops s
            \<lparr>sb_start = start, sb_stop_at_type = bs_stop_at_type query, sb_stop_at_id = bs_stop_at_id query,
             sb_entry_type = bs_entry_type query, sb_custom_type = bs_custom_type query,
             sb_order = Some (unwrap_or (bs_order query) Desc), sb_limit = bs_limit query,
             sb_cursor = bs_cursor query\<rparr> cx))"

definition branch_find_entry ::
  "('m, 'j, 'f) storage_ops \<Rightarrow> 'j serde \<Rightarrow> ('m, 'g) backed_session \<Rightarrow> lane_name \<Rightarrow> branch_scan option
    \<Rightarrow> call_context \<Rightarrow> session_error + ('j, 'f) entry option" where
  "branch_find_entry ops sd s name query cx =
     (let query = unwrap_or query branch_scan_default;
          query = query\<lparr>bs_limit := Some (case bs_limit query of None \<Rightarrow> 1 | Some limit \<Rightarrow> min limit 1)\<rparr>
      in rbind (branch_find_entries ops sd s name (Some query) cx) (\<lambda>entries. Inr (first_of entries)))"

definition append_message ::
  "('m, 'j, 'f) storage_ops \<Rightarrow> ('g \<Rightarrow> i64 option \<Rightarrow> (session_error + string) \<times> 'g) \<Rightarrow> 'j serde
    \<Rightarrow> lane_name \<Rightarrow> ('j, 'f) agent_message \<Rightarrow> call_context \<Rightarrow> (('m, 'g) backed_session, entry_id) op" where
  "append_message ops gen sd name message cx = append_to_branch ops gen sd name (BodyMessage message False) cx"

definition append_custom_entry ::
  "('m, 'j, 'f) storage_ops \<Rightarrow> ('g \<Rightarrow> i64 option \<Rightarrow> (session_error + string) \<times> 'g) \<Rightarrow> 'j serde
    \<Rightarrow> lane_name \<Rightarrow> string \<Rightarrow> 'j option \<Rightarrow> call_context \<Rightarrow> (('m, 'g) backed_session, entry_id) op" where
  "append_custom_entry ops gen sd name custom_type data cx =
     append_to_branch ops gen sd name (BodyCustom custom_type data) cx"

end
