(* ===== verification/Session_Contract.thy ===== *)
theory Session_Contract
  imports Session_Backed
begin

text \<open>
  The contract between a session and its backend, as a locale: what \<open>Storage\<close> promises of
  \<open>commit\<close>, \<open>get_value\<close> and \<open>get_entries\<close>, stated over the slots and entries a backend holds.
  The session's own guarantees (appending moves exactly one tip, branches are created once,
  failures change nothing) are proved from the contract alone, and the in-memory backend is
  shown to satisfy it.
\<close>

section \<open>Effect of a batch on slots and entries\<close>

fun value_effect :: "(slot \<rightharpoonup> 'j) \<Rightarrow> ('j, 'f) session_write \<Rightarrow> (slot \<rightharpoonup> 'j)" where
  "value_effect vs (WriteValue (ValueSet ns k v)) = vs((ns, k) \<mapsto> v)"
| "value_effect vs (WriteValue (ValueDelete ns k)) = vs((ns, k) := None)"
| "value_effect vs (WriteEntry e) = vs"
| "value_effect vs (WriteUsage r) = vs"
| "value_effect vs (WriteList l) = vs"

fun entry_effect ::
  "(entry_id \<rightharpoonup> entry_id option \<times> ('j, 'f) new_entry_body) \<Rightarrow> ('j, 'f) session_write
    \<Rightarrow> (entry_id \<rightharpoonup> entry_id option \<times> ('j, 'f) new_entry_body)" where
  "entry_effect es (WriteEntry e) = es(ne_id e \<mapsto> (ne_parent_id e, ne_body e))"
| "entry_effect es (WriteUsage r) = es"
| "entry_effect es (WriteValue v) = es"
| "entry_effect es (WriteList l) = es"

fun entry_body :: "('j, 'f) entry \<Rightarrow> ('j, 'f) new_entry_body" where
  "entry_body (EntryMessage _ message terminate) = BodyMessage message terminate"
| "entry_body (EntryCompaction _ summary tail tokens details usage from_hook) =
     BodyCompaction summary tail tokens details usage from_hook"
| "entry_body (EntryBranchSummary _ from_id summary details usage from_hook) =
     BodyBranchSummary from_id summary details usage from_hook"
| "entry_body (EntryCustom _ custom_type data) = BodyCustom custom_type data"

lemma entry_body_materialize [simp]: "entry_body (materialize ne seq ts) = ne_body ne"
  by (cases "ne_body ne") (simp_all add: materialize_def)

definition entry_content :: "('j, 'f) entry \<Rightarrow> entry_id option \<times> ('j, 'f) new_entry_body" where
  "entry_content e = (entry_parent_id e, entry_body e)"

definition tip_slot :: "lane_name \<Rightarrow> slot" where
  "tip_slot name = (''pi.branch.tip'', name)"

lemma tip_slot_eq [simp]: "tip_slot a = tip_slot b \<longleftrightarrow> a = b"
  by (simp add: tip_slot_def)

lemma branch_tip_sel [simp]:
  "va_namespace (branch_tip name) = ''pi.branch.tip''" "va_key (branch_tip name) = name"
  by (simp_all add: branch_tip_def)

lemma serde_tip_roundtrip:
  "serde_tip_ok sd \<Longrightarrow> sd_tip_to_value sd tip = Inr j \<Longrightarrow> sd_tip_from_value sd j = Inr tip"
  unfolding serde_tip_ok_def by (metis sum.inject(2))

section \<open>Failure atomicity\<close>

text \<open>
  \<open>keeps g m\<close>: the step \<open>m\<close> never changes the part \<open>g\<close> of the state; \<open>failure_keeps g m\<close>: it
  does not change it when it fails. The collection composes them along \<open>op_bind\<close>.
\<close>

definition keeps :: "('s \<Rightarrow> 'b) \<Rightarrow> ('e, 's, 'a) eop \<Rightarrow> bool" where
  "keeps g m \<longleftrightarrow> (\<forall>s. g (snd (m s)) = g s)"

definition failure_keeps :: "('s \<Rightarrow> 'b) \<Rightarrow> ('e, 's, 'a) eop \<Rightarrow> bool" where
  "failure_keeps g m \<longleftrightarrow> (\<forall>s e s'. m s = (Inl e, s') \<longrightarrow> g s' = g s)"

definition never_fails :: "('e, 's, 'a) eop \<Rightarrow> bool" where
  "never_fails m \<longleftrightarrow> (\<forall>s e s'. m s \<noteq> (Inl e, s'))"

named_theorems keeps_rules \<open>composition of state-preserving steps\<close>

lemma keeps_basic [keeps_rules]:
  "keeps g (op_return a)" "keeps g (op_fail e)" "keeps g (op_read f)"
  by (simp_all add: keeps_def)

lemma keeps_bind [keeps_rules]: "keeps g m \<Longrightarrow> (\<And>a. keeps g (f a)) \<Longrightarrow> keeps g (op_bind m f)"
  by (auto simp: keeps_def op_bind_def split: prod.split sum.split) (metis snd_conv)+

lemma keeps_if [keeps_rules]: "keeps g a \<Longrightarrow> keeps g b \<Longrightarrow> keeps g (if c then a else b)"
  by simp

lemma keeps_option [keeps_rules]:
  "keeps g a \<Longrightarrow> (\<And>x. keeps g (f x)) \<Longrightarrow> keeps g (case c of None \<Rightarrow> a | Some x \<Rightarrow> f x)"
  by (simp split: option.split)

lemma keeps_begin [keeps_rules]: "keeps g (begin_mutation cx)"
  unfolding begin_mutation_def by (rule keeps_rules)+

lemma keeps_generate [keeps_rules]: "keeps (\<lambda>s. core (bk_storage s)) (generate_id gen)"
  by (auto simp: keeps_def generate_id_def Let_def split: prod.split)

lemma failure_keeps_basic [keeps_rules]: "failure_keeps g (op_fail e)" "failure_keeps g (op_return a)"
  by (simp_all add: failure_keeps_def)

lemma failure_keeps_bind [keeps_rules]:
  "keeps g m \<Longrightarrow> (\<And>a. failure_keeps g (f a)) \<Longrightarrow> failure_keeps g (op_bind m f)"
  by (auto simp: failure_keeps_def keeps_def op_bind_def split: prod.splits sum.splits) (metis snd_conv)+

lemma failure_keeps_if [keeps_rules]:
  "failure_keeps g a \<Longrightarrow> failure_keeps g b \<Longrightarrow> failure_keeps g (if c then a else b)"
  by simp

lemma failure_keeps_last:
  "failure_keeps g m \<Longrightarrow> (\<And>a. never_fails (f a)) \<Longrightarrow> failure_keeps g (op_bind m f)"
  by (auto simp: failure_keeps_def never_fails_def op_bind_def split: prod.splits sum.splits)

lemma never_fails_return [simp]: "never_fails (op_return a)"
  by (simp add: never_fails_def)

text \<open>Unfolding the admission steps of an operation.\<close>

lemma op_bind_read: "op_bind (op_read g) f s = (case g s of Inl e \<Rightarrow> (Inl e, s) | Inr a \<Rightarrow> f a s)"
  by (simp add: op_bind_def split: sum.split)

lemma op_bind_begin:
  "op_bind (begin_mutation cx) f s =
     (if cx_cancelled cx then (Inl aborted_error, s) else if bk_closed s then (Inl closed_error, s) else f () s)"
  by (simp add: begin_mutation_def op_bind_def session_guard_def check_context_def session_ensure_open_def)

lemma op_bind_return: "op_bind m (\<lambda>_. op_return x) s = (Inr y, t) \<longleftrightarrow> y = x \<and> (\<exists>r. m s = (Inr r, t))"
  by (auto simp: op_bind_def split: prod.split sum.split)

section \<open>The contract\<close>

locale storage_contract =
  fixes ops :: "('m, 'j, 'f) storage_ops"
    and live :: "'m \<Rightarrow> bool"
    and val :: "'m \<Rightarrow> slot \<rightharpoonup> 'j"
    and ent :: "'m \<Rightarrow> entry_id \<rightharpoonup> entry_id option \<times> ('j, 'f) new_entry_body"
    and view :: "'m \<Rightarrow> committed_id_view"
    and core :: "'m \<Rightarrow> 'c"
  assumes get_value_live: "live m \<Longrightarrow> \<not> cx_cancelled cx \<Longrightarrow>
      \<exists>v. so_get_value ops m a cx = Inr v \<and> map_option rv_value v = val m (ra_namespace a, ra_key a)"
    and get_value_dead: "\<not> live m \<Longrightarrow> \<exists>e. so_get_value ops m a cx = Inl e"
    and get_entries_live: "live m \<Longrightarrow> \<not> cx_cancelled cx \<Longrightarrow>
      \<exists>es. so_get_entries ops m ids cx = Inr es \<and>
        (\<forall>i. map_option entry_content (bt_get es i) = (if i \<in> set ids then ent m i else None))"
    and commit_ok: "so_commit ops ws cx m = (Inr r, m') \<Longrightarrow>
      live m \<and> live m' \<and> batch_ok (view m) (cv_next_seq (view m)) ws \<and>
      val m' = foldl value_effect (val m) ws \<and> ent m' = foldl entry_effect (ent m) ws"
    and commit_fail: "so_commit ops ws cx m = (Inl e, m') \<Longrightarrow> core m' = core m"
    and core_obs: "core m' = core m \<Longrightarrow> live m' = live m \<and> val m' = val m \<and> ent m' = ent m"
    and view_entries: "cv_contains_entry_id (view m) i \<longleftrightarrow> ent m i \<noteq> None"
    and view_ids: "ent m i \<noteq> None \<Longrightarrow> cv_contains_id (view m) i"
begin

lemma on_storage_Inr:
  "on_storage f s = (Inr r, s') \<Longrightarrow> \<exists>m. f (bk_storage s) = (Inr r, m) \<and> s' = s\<lparr>bk_storage := m\<rparr>"
  by (auto simp: on_storage_def Let_def split: prod.splits)

lemma mutation_commit_Inr:
  assumes "mutation_commit ops ws cx s = (Inr r, s')"
  shows "\<exists>m. so_commit ops ws (without_cancellation cx) (bk_storage s) = (Inr r, m) \<and> s' = s\<lparr>bk_storage := m\<rparr>"
  using assms on_storage_Inr unfolding mutation_commit_def by (elim op_bind_InrE) fastforce

lemma mutation_commit_Inl:
  assumes "mutation_commit ops ws cx s = (Inl e, s')"
  shows "core (bk_storage s') = core (bk_storage s)"
proof (cases "cx_cancelled cx")
  case True
  then show ?thesis
    using assms by (simp add: mutation_commit_def op_bind_def check_context_def)
next
  case False
  then have "on_storage (so_commit ops ws (without_cancellation cx)) s = (Inl e, s')"
    using assms by (simp add: mutation_commit_def op_bind_def check_context_def)
  then show ?thesis
    by (auto simp: on_storage_def Let_def split: prod.splits dest: commit_fail)
qed

lemma begin_mutation_Inr:
  "begin_mutation cx s = (Inr u, s') \<longleftrightarrow> s' = s \<and> \<not> cx_cancelled cx \<and> \<not> bk_closed s"
  by (auto simp: begin_mutation_def op_bind_def session_guard_def check_context_def session_ensure_open_def)

lemma begin_mutation_state: "begin_mutation cx s = (res, s') \<Longrightarrow> s' = s"
  by (auto simp: begin_mutation_def op_bind_def session_guard_def check_context_def session_ensure_open_def
      split: if_splits)

lemma typed_get_value_live:
  assumes "live m" and "\<not> cx_cancelled cx"
  shows "map_err (\<lambda>_. ()) (typed_get_value (\<lambda>a. so_get_value ops m a cx) dec a) = Inr None \<longleftrightarrow>
       val m (va_namespace a, va_key a) = None"
    and "typed_get_value (\<lambda>a. so_get_value ops m a cx) dec a = Inr (Some sv) \<Longrightarrow>
       \<exists>j. val m (va_namespace a, va_key a) = Some j \<and> dec j = Inr (sv_value sv)"
    and "val m (va_namespace a, va_key a) = Some j \<Longrightarrow> dec j = Inr x \<Longrightarrow>
       \<exists>sv. typed_get_value (\<lambda>a. so_get_value ops m a cx) dec a = Inr (Some sv) \<and> sv_value sv = x"
proof -
  obtain v where v: "so_get_value ops m (erase_value a) cx = Inr v"
    "val m (va_namespace a, va_key a) = map_option rv_value v"
    using get_value_live [OF assms, of "erase_value a"] by auto
  show "map_err (\<lambda>_. ()) (typed_get_value (\<lambda>a. so_get_value ops m a cx) dec a) = Inr None \<longleftrightarrow>
       val m (va_namespace a, va_key a) = None"
    using v by (cases v) (auto simp: typed_get_value_def rbind_eq_Inr_iff)
  show "\<exists>j. val m (va_namespace a, va_key a) = Some j \<and> dec j = Inr (sv_value sv)"
    if "typed_get_value (\<lambda>a. so_get_value ops m a cx) dec a = Inr (Some sv)"
    using that v by (cases v) (auto simp: typed_get_value_def rbind_eq_Inr_iff)
  show "\<exists>sv. typed_get_value (\<lambda>a. so_get_value ops m a cx) dec a = Inr (Some sv) \<and> sv_value sv = x"
    if "val m (va_namespace a, va_key a) = Some j" "dec j = Inr x"
    using that v by (cases v) (auto simp: typed_get_value_def)
qed

lemma typed_get_value_absent:
  "live m \<Longrightarrow> \<not> cx_cancelled cx \<Longrightarrow>
   typed_get_value (\<lambda>a. so_get_value ops m a cx) dec a = Inr None \<longleftrightarrow> val m (va_namespace a, va_key a) = None"
  using typed_get_value_live(1) by simp

lemma typed_get_value_Inr_live:
  "typed_get_value (\<lambda>a. so_get_value ops m a cx) dec a = Inr x \<Longrightarrow> live m"
  using get_value_dead [of m "erase_value a" cx]
  by (cases "live m") (auto simp: typed_get_value_def rbind_eq_Inr_iff)

lemma commit_return_keeps:
  "failure_keeps (\<lambda>s. core (bk_storage s)) (op_bind (mutation_commit ops ws cx) (\<lambda>_. op_return x))"
  by (rule failure_keeps_last) (auto simp: failure_keeps_def dest: mutation_commit_Inl)

lemma append_fail_storage: "failure_keeps (\<lambda>s. core (bk_storage s)) (append_to_branch ops gen sd name body cx)"
  unfolding append_to_branch_def mutation_get_value_def
  by (rule commit_return_keeps | rule keeps_rules | assumption)+

lemma create_branch_fail_storage: "failure_keeps (\<lambda>s. core (bk_storage s)) (create_branch ops sd name target cx)"
  unfolding create_branch_def mutation_get_value_def mutation_get_entries_def
  by (rule commit_return_keeps | rule keeps_rules | assumption)+

lemma commit_single_fail_storage: "failure_keeps (\<lambda>s. core (bk_storage s)) (commit_single ops w cx)"
  unfolding commit_single_def
  by (rule commit_return_keeps | rule keeps_rules | assumption)+

text \<open>A successful append adds one entry on the old tip and moves that tip, nothing else.\<close>

lemma append_effect:
  assumes "append_to_branch ops gen sd name body cx s = (Inr i, s')"
  obtains j tip j' where
    "val (bk_storage s) (tip_slot name) = Some j" "sd_tip_from_value sd j = Inr tip"
    "sd_tip_to_value sd (Some i) = Inr j'"
    "val (bk_storage s') = (val (bk_storage s))(tip_slot name \<mapsto> j')"
    "ent (bk_storage s') = (ent (bk_storage s))(i \<mapsto> (tip, body))"
    "ent (bk_storage s) i = None" "live (bk_storage s')" "bk_closed s' = bk_closed s" "\<not> bk_closed s"
proof -
  from assms obtain s1 s2 stored sv w r where
    open': "session_ensure_open s = Inr ()" and
    gen: "generate_id gen s = (Inr i, s1)" and
    beg: "begin_mutation cx s1 = (Inr (), s2)" and
    get: "typed_get_value (\<lambda>a. so_get_value ops (bk_storage s2) a cx) (sd_tip_from_value sd) (branch_tip name) = Inr stored" and
    sv: "stored = Some sv" and
    w: "set_value (branch_tip name) (sd_tip_to_value sd (Some i)) = Inr w" and
    commit: "mutation_commit ops [WriteEntry \<lparr>ne_id = i, ne_parent_id = sv_value sv, ne_body = body\<rparr>, w] cx s2 = (Inr r, s')"
    unfolding append_to_branch_def mutation_get_value_def
    by (auto elim!: op_bind_InrE split: if_split_asm)
  have s2: "s2 = s1" "\<not> cx_cancelled cx"
    using beg by (simp_all add: begin_mutation_Inr)
  have st: "bk_storage s2 = bk_storage s" "bk_closed s2 = bk_closed s"
    using gen s2 by (auto simp: generate_id_def Let_def split: prod.splits)
  have live: "live (bk_storage s)"
    using typed_get_value_Inr_live [OF get] st by simp
  obtain j where j: "val (bk_storage s) (tip_slot name) = Some j" "sd_tip_from_value sd j = Inr (sv_value sv)"
    using typed_get_value_live(2) [OF live s2(2), of "sd_tip_from_value sd" "branch_tip name" sv] get
    unfolding sv st by (auto simp: tip_slot_def)
  obtain j' where j': "sd_tip_to_value sd (Some i) = Inr j'" and w': "w = WriteValue (ValueSet ''pi.branch.tip'' name j')"
    using w by (auto simp: set_value_def rbind_eq_Inr_iff)
  obtain m where m: "so_commit ops [WriteEntry \<lparr>ne_id = i, ne_parent_id = sv_value sv, ne_body = body\<rparr>, w]
      (without_cancellation cx) (bk_storage s) = (Inr r, m)" and s': "s' = s2\<lparr>bk_storage := m\<rparr>"
    using mutation_commit_Inr [OF commit] st by auto
  note c = commit_ok [OF m]
  have "ent (bk_storage s) i = None"
  proof (rule ccontr)
    assume "ent (bk_storage s) i \<noteq> None"
    then have "cv_contains_id (view (bk_storage s)) i"
      by (rule view_ids)
    then show False
      using c by (simp add: batch_ok_def write_ids_def)
  qed
  with c j j' w' s' st open' show thesis
    by (intro that [of j "sv_value sv" j'])
      (auto simp: tip_slot_def session_ensure_open_def split: if_split_asm)
qed

text \<open>Reading a tip through the session.\<close>

lemma get_tip_id_live:
  assumes "\<not> bk_closed s" and "\<not> cx_cancelled cx" and "live (bk_storage s)"
    and "val (bk_storage s) (tip_slot name) = Some j" and "sd_tip_from_value sd j = Inr tip"
  shows "get_tip_id ops sd s name cx = Inr tip"
proof -
  have eq: "(\<lambda>a. session_get_value_json ops s a cx) = (\<lambda>a. so_get_value ops (bk_storage s) a cx)"
    using assms(1,2)
    by (simp add: session_get_value_json_def session_guard_def check_context_def session_ensure_open_def)
  show ?thesis
    using typed_get_value_live(3) [OF assms(3,2), of "branch_tip name" j "sd_tip_from_value sd" tip] assms(4,5)
    by (auto simp: get_tip_id_def eq tip_slot_def)
qed

lemma get_tip_id_unknown:
  assumes "\<not> bk_closed s" and "\<not> cx_cancelled cx" and "live (bk_storage s)"
    and "val (bk_storage s) (tip_slot name) = None"
  shows "get_tip_id ops sd s name cx = Inl (unknown_branch name)"
proof -
  have eq: "(\<lambda>a. session_get_value_json ops s a cx) = (\<lambda>a. so_get_value ops (bk_storage s) a cx)"
    using assms(1,2)
    by (simp add: session_get_value_json_def session_guard_def check_context_def session_ensure_open_def)
  show ?thesis
    using typed_get_value_absent [OF assms(3,2), of "sd_tip_from_value sd" "branch_tip name"] assms(4)
    by (simp add: get_tip_id_def eq tip_slot_def)
qed

lemma append_then_tip:
  assumes app: "append_to_branch ops gen sd name body cx s = (Inr i, s')" and sd: "serde_tip_ok sd"
    and cx': "\<not> cx_cancelled cx'"
  shows "get_tip_id ops sd s' name cx' = Inr (Some i)"
    and "other \<noteq> name \<Longrightarrow> val (bk_storage s') (tip_slot other) = val (bk_storage s) (tip_slot other)"
proof -
  obtain j' where j': "sd_tip_to_value sd (Some i) = Inr j'"
    "val (bk_storage s') = (val (bk_storage s))(tip_slot name \<mapsto> j')" "live (bk_storage s')" "\<not> bk_closed s'"
    using app by (rule append_effect) auto
  moreover from this have "sd_tip_from_value sd j' = Inr (Some i)"
    using serde_tip_roundtrip [OF sd] by blast
  ultimately show "get_tip_id ops sd s' name cx' = Inr (Some i)"
    using cx' by (intro get_tip_id_live [where j = j']) simp_all
  show "val (bk_storage s') (tip_slot other) = val (bk_storage s) (tip_slot other)" if "other \<noteq> name"
    using j'(2) that by simp
qed

lemma create_branch_effect:
  assumes "create_branch ops sd name target cx s = (Inr n, s')"
  obtains j where "n = name" "val (bk_storage s) (tip_slot name) = None"
    "\<And>i. target = Some i \<Longrightarrow> ent (bk_storage s) i \<noteq> None" "sd_tip_to_value sd target = Inr j"
    "val (bk_storage s') = (val (bk_storage s))(tip_slot name \<mapsto> j)"
    "ent (bk_storage s') = ent (bk_storage s)" "live (bk_storage s')" "\<not> bk_closed s'"
    "validate_branch_name name = Inr ()"
proof -
  let ?chk = "case target of None \<Rightarrow> op_return ()
         | Some i \<Rightarrow>
             op_bind (mutation_get_entries ops [i] cx) (\<lambda>entries.
             if entries = [] then op_fail (UnknownTarget i) else op_return ())"
  note body = assms [unfolded create_branch_def mutation_get_value_def]
  have open': "\<not> bk_closed s" and s2: "\<not> cx_cancelled cx"
    and name: "validate_branch_name name = Inr ()"
    using body by (auto simp: op_bind_begin op_bind_read session_ensure_open_def split: if_split_asm sum.split_asm)
  obtain stored where
    get0: "typed_get_value (\<lambda>a. so_get_value ops (bk_storage s) a cx) (sd_tip_from_value sd) (branch_tip name) = Inr stored"
    using body open' s2 name by (auto simp: op_bind_begin session_ensure_open_def op_bind_read split: sum.split_asm)
  have stored: "stored = None"
    using body open' s2 name get0
    by (cases stored) (simp_all add: op_bind_begin session_ensure_open_def op_bind_read)
  note get = get0 [unfolded stored]
  have rest: "op_bind ?chk (\<lambda>_.
       op_bind (op_read (\<lambda>_. set_value (branch_tip name) (sd_tip_to_value sd target))) (\<lambda>tip_write.
       op_bind (mutation_commit ops [tip_write] cx) (\<lambda>_. op_return name))) s = (Inr n, s')"
    using body open' s2 name get by (simp add: op_bind_begin session_ensure_open_def op_bind_read)
  obtain s3 where chk: "?chk s = (Inr (), s3)"
    and rest': "op_bind (op_read (\<lambda>_. set_value (branch_tip name) (sd_tip_to_value sd target))) (\<lambda>tip_write.
       op_bind (mutation_commit ops [tip_write] cx) (\<lambda>_. op_return name)) s3 = (Inr n, s')"
    using rest by (rule op_bind_InrE) simp
  obtain w :: "('j, 'f) session_write" where w: "set_value (branch_tip name) (sd_tip_to_value sd target) = Inr w"
    using rest' by (auto simp: op_bind_read split: sum.split_asm)
  obtain r where commit: "mutation_commit ops [w] cx s3 = (Inr r, s')" and n: "n = name"
    using rest' w by (auto simp: op_bind_read op_bind_return split: sum.split_asm)
  have live: "live (bk_storage s)"
    using typed_get_value_Inr_live [OF get] .
  have absent: "val (bk_storage s) (tip_slot name) = None"
    using typed_get_value_absent [OF live s2, of "sd_tip_from_value sd" "branch_tip name"] get
    by (simp add: tip_slot_def)
  have chk': "s3 = s \<and> (\<forall>i. target = Some i \<longrightarrow> ent (bk_storage s) i \<noteq> None)"
  proof (cases target)
    case None
    with chk show ?thesis by simp
  next
    case (Some i)
    obtain es where es: "so_get_entries ops (bk_storage s) [i] cx = Inr es"
      and cont: "\<And>k. map_option entry_content (bt_get es k) = (if k \<in> set [i] then ent (bk_storage s) k else None)"
      using get_entries_live [OF live s2, of "[i]"] by blast
    have other: "k \<noteq> i \<Longrightarrow> bt_get es k = None" for k
      using cont [of k] by simp
    have "es \<noteq> []" "s3 = s"
      using chk Some es by (auto simp: mutation_get_entries_def op_bind_def split: if_split_asm)
    moreover from this have "bt_get es i \<noteq> None"
      using other by (cases es) (force split: if_split_asm)+
    ultimately show ?thesis
      using cont [of i] Some by (metis list.set_intros(1) option.inject option.map_disc_iff)
  qed
  obtain j where j: "sd_tip_to_value sd target = Inr j" and w': "w = WriteValue (ValueSet ''pi.branch.tip'' name j)"
    using w by (auto simp: set_value_def rbind_eq_Inr_iff)
  obtain m where m: "so_commit ops [w] (without_cancellation cx) (bk_storage s) = (Inr r, m)" and s': "s' = s\<lparr>bk_storage := m\<rparr>"
    using mutation_commit_Inr [OF commit] chk' by auto
  show thesis
    using n absent chk' j commit_ok [OF m] w' s' name open'
    by (intro that [of j]) (auto simp: tip_slot_def session_ensure_open_def split: if_split_asm)
qed

lemma create_branch_exists:
  assumes "\<not> bk_closed s" and "\<not> cx_cancelled cx" and "live (bk_storage s)" and "validate_branch_name name = Inr ()"
    and "val (bk_storage s) (tip_slot name) = Some j" and "sd_tip_from_value sd j = Inr tip"
  shows "create_branch ops sd name target cx s = (Inl (BranchExists name), s)"
proof -
  have beg: "begin_mutation cx s = (Inr (), s)"
    using assms(1,2) by (simp add: begin_mutation_Inr)
  obtain sv where "typed_get_value (\<lambda>a. so_get_value ops (bk_storage s) a cx) (sd_tip_from_value sd) (branch_tip name) = Inr (Some sv)"
    using typed_get_value_live(3) [OF assms(3,2), of "branch_tip name" j "sd_tip_from_value sd" tip] assms(5,6)
    by (auto simp: tip_slot_def)
  then show ?thesis
    using assms(1,4) beg
    by (simp add: create_branch_def op_bind_def session_ensure_open_def mutation_get_value_def)
qed

lemma commit_single_effect:
  assumes "commit_single ops w cx s = (Inr (), s')"
  shows "val (bk_storage s') = value_effect (val (bk_storage s)) w \<and>
    ent (bk_storage s') = entry_effect (ent (bk_storage s)) w \<and> live (bk_storage s') \<and> \<not> bk_closed s'"
proof -
  from assms obtain r where beg: "begin_mutation cx s = (Inr (), s)" and "mutation_commit ops [w] cx s = (Inr r, s')"
    unfolding commit_single_def by (auto elim!: op_bind_InrE simp: begin_mutation_Inr)
  then obtain m where m: "so_commit ops [w] (without_cancellation cx) (bk_storage s) = (Inr r, m)" "s' = s\<lparr>bk_storage := m\<rparr>"
    using mutation_commit_Inr by blast
  show ?thesis
    using commit_ok [OF m(1)] m(2) beg by (simp add: begin_mutation_Inr)
qed

lemma set_name_get_name:
  assumes "set_name ops sd name cx s = (Inr (), s')" and "serde_string_ok sd" and "\<not> cx_cancelled cx'"
  shows "session_get_name ops sd s' cx' = Inr name"
proof -
  let ?w = "case name of Some n \<Rightarrow> WriteValue (ValueSet ''pi.session.name'' [] (sd_string_value sd n))
     | None \<Rightarrow> WriteValue (ValueDelete ''pi.session.name'' [])"
  have "commit_single ops ?w cx s = (Inr (), s')"
    using assms(1)
    by (cases name) (simp_all add: set_name_def set_value_json_def delete_value_json_def session_name_def)
  note c = commit_single_effect [OF this]
  have eq: "(\<lambda>a. session_get_value_json ops s' a cx') = (\<lambda>a. so_get_value ops (bk_storage s') a cx')"
    using c assms(3)
    by (simp add: session_get_value_json_def session_guard_def check_context_def session_ensure_open_def)
  have "live (bk_storage s')"
    using c by blast
  note get = typed_get_value_absent [OF this assms(3)] typed_get_value_live(3) [OF this assms(3)]
  show ?thesis
  proof (cases name)
    case None
    then have "val (bk_storage s') (''pi.session.name'', []) = None"
      using c by simp
    then show ?thesis
      using get(1) [of "sd_string_from_value sd" session_name] None
      by (simp add: session_get_name_def eq session_name_def)
  next
    case (Some n)
    then have "val (bk_storage s') (''pi.session.name'', []) = Some (sd_string_value sd n)"
      using c by simp
    then show ?thesis
      using get(2) [of session_name "sd_string_value sd n" "sd_string_from_value sd" n] Some assms(2)
      by (auto simp: session_get_name_def eq session_name_def serde_string_ok_def)
  qed
qed

end

text \<open>
  A backend that also promises progress: in a \<open>ready\<close> state it commits every admissible batch.
\<close>

locale storage_progress = storage_contract ops live val ent view core
  for ops :: "('m, 'j, 'f) storage_ops" and live val ent view and core :: "'m \<Rightarrow> 'c" +
  fixes ready :: "'m \<Rightarrow> bool"
  assumes ready_live: "ready m \<Longrightarrow> live m"
    and commit_progress: "ready m \<Longrightarrow> \<not> cx_cancelled cx \<Longrightarrow>
      batch_ok (view m) (cv_next_seq (view m)) ws \<Longrightarrow> \<exists>r m'. so_commit ops ws cx m = (Inr r, m')"
begin

lemma append_progress:
  assumes "\<not> bk_closed s" and "\<not> cx_cancelled cx" and "ready (bk_storage s)" and "\<not> pending_assistant body"
    and "gen (bk_generator s) None = (Inr i, g)" and "\<not> cv_contains_id (view (bk_storage s)) i"
    and "val (bk_storage s) (tip_slot name) = Some j" and "sd_tip_from_value sd j = Inr tip"
    and "\<And>t. tip = Some t \<Longrightarrow> ent (bk_storage s) t \<noteq> None" and "serde_tip_ok sd"
    and "unat (cv_next_seq (view (bk_storage s))) + 2 \<le> 2 ^ 64"
  shows "\<exists>s'. append_to_branch ops gen sd name body cx s = (Inr i, s')"
proof -
  obtain j' where j': "sd_tip_to_value sd (Some i) = Inr j'"
    using assms(10) by (auto simp: serde_tip_ok_def)
  define s1 where "s1 = s\<lparr>bk_generator := g\<rparr>"
  have gen: "generate_id gen s = (Inr i, s1)"
    using assms(5) by (simp add: generate_id_def s1_def)
  have st: "bk_storage s1 = bk_storage s" "bk_closed s1 = bk_closed s"
    by (simp_all add: s1_def)
  have beg: "begin_mutation cx s1 = (Inr (), s1)"
    using assms(1,2) st by (simp add: begin_mutation_Inr)
  obtain sv where sv: "typed_get_value (\<lambda>a. so_get_value ops (bk_storage s1) a cx) (sd_tip_from_value sd) (branch_tip name) = Inr (Some sv)"
    "sv_value sv = tip"
    using typed_get_value_live(3) [OF ready_live [OF assms(3)] assms(2), of "branch_tip name" j "sd_tip_from_value sd" tip] assms(7,8) st
    by (auto simp: tip_slot_def)
  let ?ws = "[WriteEntry \<lparr>ne_id = i, ne_parent_id = tip, ne_body = body\<rparr>,
     WriteValue (ValueSet ''pi.branch.tip'' name j') :: ('j, 'f) session_write]"
  have "batch_ok (view (bk_storage s)) (cv_next_seq (view (bk_storage s))) ?ws"
    unfolding batch_ok_def using assms(4,6,9,11)
    by (auto simp: write_ids_def Cons_eq_append_conv view_entries)
  moreover have "\<not> cx_cancelled (without_cancellation cx)"
    by (simp add: without_cancellation_def)
  ultimately obtain r m where m: "so_commit ops ?ws (without_cancellation cx) (bk_storage s) = (Inr r, m)"
    using commit_progress assms(3) by blast
  have "mutation_commit ops ?ws cx s1 = (Inr r, s1\<lparr>bk_storage := m\<rparr>)"
    using m st assms(2) by (simp add: mutation_commit_def op_bind_def check_context_def on_storage_def)
  then show ?thesis
    using assms(1,4) gen beg sv j'
    by (auto simp: append_to_branch_def op_bind_def session_ensure_open_def mutation_get_value_def set_value_def)
qed

end

section \<open>The in-memory backend satisfies the contract\<close>

definition mem_live :: "('j, 'f) memory_storage \<Rightarrow> bool" where
  "mem_live m = (\<not> ms_closed m)"

definition mem_val :: "('j, 'f) memory_storage \<Rightarrow> slot \<rightharpoonup> 'j" where
  "mem_val m n = map_option rv_value (bt_get (st_values (ms_state m)) n)"

definition mem_ent :: "('j, 'f) memory_storage \<Rightarrow> entry_id \<rightharpoonup> entry_id option \<times> ('j, 'f) new_entry_body" where
  "mem_ent m i = map_option entry_content (bt_get (st_entries (ms_state m)) i)"

lemma apply_commit_effect:
  "(\<lambda>n. map_option rv_value (bt_get (st_values (apply_one s (commit_one q ts w))) n)) =
     value_effect (\<lambda>n. map_option rv_value (bt_get (st_values s) n)) w"
  "(\<lambda>i. map_option entry_content (bt_get (st_entries (apply_one s (commit_one q ts w))) i)) =
     entry_effect (\<lambda>i. map_option entry_content (bt_get (st_entries s) i)) w"
  by (cases "(q, ts, w)" rule: commit_one.cases;
      auto simp: values_apply_one entries_apply_one fun_eq_iff entry_content_def)+

lemma foldl_commit_effect:
  "(\<lambda>n. map_option rv_value (bt_get (st_values (foldl apply_one s
      (map (\<lambda>(i, w). commit_one (h i) ts w) (enumerate k ws)))) n)) =
     foldl value_effect (\<lambda>n. map_option rv_value (bt_get (st_values s) n)) ws"
  "(\<lambda>i. map_option entry_content (bt_get (st_entries (foldl apply_one s
      (map (\<lambda>(i, w). commit_one (h i) ts w) (enumerate k ws)))) i)) =
     foldl entry_effect (\<lambda>i. map_option entry_content (bt_get (st_entries s) i)) ws"
  by (induction ws arbitrary: s k) (simp_all add: apply_commit_effect)

lemma collect_entries_get:
  "bt_get (collect_entries s ids) i = (if i \<in> set ids then bt_get (st_entries s) i else None)"
  by (induction ids) (auto simp: bt_get_insert split: option.split)

lemma memory_commit_Inr_iff:
  "memory_commit (Inr ts) m ws cx = Inr (m', r) \<longleftrightarrow>
     \<not> cx_cancelled cx \<and> \<not> ms_closed m \<and>
     (\<exists>s'. apply_batch (ms_state m) ws ts = Inr (s', r) \<and> m' = m\<lparr>ms_state := s'\<rparr>)"
  by (auto simp: memory_commit_def rbind_eq_Inr_iff memory_guard_def check_context_def memory_ensure_open_def)

lemma apply_batch_progress:
  "batch_ok (storage_view s) (st_next_seq s) ws \<Longrightarrow> \<exists>s' r. apply_batch s ws ts = Inr (s', r)"
  by (simp add: apply_batch_Inr_iff)

interpretation mem: storage_progress "memory_ops (Inr ts)" mem_live mem_val mem_ent "\<lambda>m. storage_view (ms_state m)" id mem_live
  for ts :: i64
proof
  fix m :: "('a, 'b) memory_storage" and a cx
  show "mem_live m \<Longrightarrow> \<not> cx_cancelled cx \<Longrightarrow>
      \<exists>v. so_get_value (memory_ops (Inr ts)) m a cx = Inr v \<and> map_option rv_value v = mem_val m (ra_namespace a, ra_key a)"
    by (simp add: memory_ops_def memory_get_value_def mem_live_def mem_val_def memory_guard_def check_context_def memory_ensure_open_def)
  show "\<not> mem_live m \<Longrightarrow> \<exists>e. so_get_value (memory_ops (Inr ts)) m a cx = Inl e"
    by (simp add: memory_ops_def memory_get_value_def mem_live_def memory_guard_def check_context_def memory_ensure_open_def)
next
  fix m :: "('a, 'b) memory_storage" and ids cx
  show "mem_live m \<Longrightarrow> \<not> cx_cancelled cx \<Longrightarrow>
      \<exists>es. so_get_entries (memory_ops (Inr ts)) m ids cx = Inr es \<and>
        (\<forall>i. map_option entry_content (bt_get es i) = (if i \<in> set ids then mem_ent m i else None))"
    by (simp add: memory_ops_def memory_get_entries_def mem_live_def mem_ent_def memory_guard_def
        check_context_def memory_ensure_open_def collect_entries_get)
next
  fix m m' :: "('a, 'b) memory_storage" and ws :: "('a, 'b) session_write list" and cx :: call_context and r
  assume "so_commit (memory_ops (Inr ts)) ws cx m = (Inr r, m')"
  then have "memory_commit (Inr ts) m ws cx = Inr (m', r)"
    by (auto simp: memory_ops_def split: sum.splits)
  then obtain s' where live: "\<not> ms_closed m" and b: "apply_batch (ms_state m) ws ts = Inr (s', r)"
    and m': "m' = m\<lparr>ms_state := s'\<rparr>"
    by (auto simp: memory_commit_Inr_iff)
  show "mem_live m \<and> mem_live m' \<and>
      batch_ok (storage_view (ms_state m)) (cv_next_seq (storage_view (ms_state m))) ws \<and>
      mem_val m' = foldl value_effect (mem_val m) ws \<and> mem_ent m' = foldl entry_effect (mem_ent m) ws"
    using b live m' foldl_commit_effect [of "ms_state m" _ ts 0 ws]
    by (simp add: apply_batch_Inr_iff mem_live_def mem_val_def [abs_def] mem_ent_def [abs_def])
next
  fix m m' :: "('a, 'b) memory_storage" and ws cx e
  show "so_commit (memory_ops (Inr ts)) ws cx m = (Inl e, m') \<Longrightarrow> id m' = id m"
    by (auto simp: memory_ops_def split: sum.splits)
next
  fix m :: "('a, 'b) memory_storage" and ws :: "('a, 'b) session_write list" and cx :: call_context
  assume "mem_live m" "\<not> cx_cancelled cx"
    "batch_ok (storage_view (ms_state m)) (cv_next_seq (storage_view (ms_state m))) ws"
  then obtain s' r where "memory_commit (Inr ts) m ws cx = Inr (m\<lparr>ms_state := s'\<rparr>, r)"
    using apply_batch_progress [of "ms_state m" ws ts] by (auto simp: memory_commit_Inr_iff mem_live_def)
  then show "\<exists>r m'. so_commit (memory_ops (Inr ts)) ws cx m = (Inr r, m')"
    by (simp add: memory_ops_def)
qed (auto simp: mem_ent_def)

end
