(* ===== verification/Session_Repo.thy ===== *)
theory Session_Repo
  imports Session_Contract
begin

text \<open>
  The in-process session repository, \<open>MemorySessionRepo\<close> of \<open>session/memory.rs\<close>.

  A repository record owns the durable state of its session; the code shares it between the
  record and the session handles through \<open>Arc<Mutex<..>>\<close>. The model keeps the state in the
  record and the flags of the current handle beside it; \<open>run_session\<close> assembles the session
  of \<open>Session_Backed\<close> from both, runs an operation on it and stores state and flags back,
  clearing the record's open flag when the close callback ran. An id reservation is dropped
  when the operation that took it returns.
\<close>

section \<open>State\<close>

record session_handle =
  hn_closed :: bool
  hn_storage_closed :: bool
  hn_close_result :: "(session_error + unit) option"
  hn_hook :: bool

record ('j, 'f) repo_record =
  rr_metadata :: session_metadata
  rr_state :: "('j, 'f) storage_state"
  rr_open :: bool
  rr_session :: "session_handle option"

record ('j, 'f) session_repo =
  rp_sessions :: "(string, ('j, 'f) repo_record) btree_map"
  rp_pending_ids :: "string set"
  rp_generator :: generator_state
  rp_closed :: bool

definition repo_new :: "generator_state \<Rightarrow> ('j, 'f) session_repo" where
  "repo_new g = \<lparr>rp_sessions = [], rp_pending_ids = {}, rp_generator = g, rp_closed = False\<rparr>"

definition STORAGE_VERSION :: u32 where
  "STORAGE_VERSION = 1"

definition repo_closed_error :: session_error where
  "repo_closed_error = Backend (storage_failure_new Closed ''session repository is closed'')"

definition session_not_found :: session_error where
  "session_not_found = Backend (storage_failure_new NotFound ''session not found'')"

definition repo_ensure_open :: "('j, 'f) session_repo \<Rightarrow> session_error + unit" where
  "repo_ensure_open r = (if rp_closed r then Inl repo_closed_error else Inr ())"

definition repo_guard :: "call_context \<Rightarrow> ('j, 'f) session_repo \<Rightarrow> session_error + unit" where
  "repo_guard cx r = rbind (check_context cx) (\<lambda>_. repo_ensure_open r)"

section \<open>Operations\<close>

definition reserve_id :: "string \<Rightarrow> (('j, 'f) session_repo, unit) op" where
  "reserve_id i = (\<lambda>r.
     if bt_contains (rp_sessions r) i \<or> i \<in> rp_pending_ids r
     then (Inl (Invariant (''session already exists: '' @ i)), r)
     else (Inr (), r\<lparr>rp_pending_ids := insert i (rp_pending_ids r)\<rparr>))"

definition with_reservation :: "string \<Rightarrow> (('j, 'f) session_repo, 'a) op \<Rightarrow> (('j, 'f) session_repo, 'a) op" where
  "with_reservation i m =
     op_bind (reserve_id i) (\<lambda>_ r.
       let (res, r') = m r in (res, r'\<lparr>rp_pending_ids := rp_pending_ids r' - {i}\<rparr>))"

definition new_handle :: session_handle where
  "new_handle = \<lparr>hn_closed = False, hn_storage_closed = False, hn_close_result = None, hn_hook = True\<rparr>"

definition make_record :: "session_metadata \<Rightarrow> ('j, 'f) storage_state \<Rightarrow> ('j, 'f) repo_record" where
  "make_record metadata state =
     \<lparr>rr_metadata = metadata, rr_state = state, rr_open = True, rr_session = Some new_handle\<rparr>"

definition insert_record :: "string \<Rightarrow> ('j, 'f) repo_record \<Rightarrow> (('j, 'f) session_repo, string) op" where
  "insert_record i rec =
     op_bind (op_read repo_ensure_open) (\<lambda>_ r.
       (Inr i, r\<lparr>rp_sessions := bt_insert i rec (rp_sessions r)\<rparr>))"

definition repo_generate :: "id_env \<Rightarrow> i64 option \<Rightarrow> (('j, 'f) session_repo, string) op" where
  "repo_generate env ts = (\<lambda>r.
     let (res, g) = next_string env (rp_generator r) ts in (res, r\<lparr>rp_generator := g\<rparr>))"

definition repo_create ::
  "id_env \<Rightarrow> session_error + i64 \<Rightarrow> session_metadata option \<Rightarrow> call_context
    \<Rightarrow> (('j, 'f::zero) session_repo, string) op" where
  "repo_create env now metadata cx =
     op_bind (op_read (repo_guard cx)) (\<lambda>_.
     op_bind (case metadata of
         Some metadata \<Rightarrow> op_return metadata
       | None \<Rightarrow>
           op_bind (op_read (\<lambda>_. now)) (\<lambda>created_at.
           op_bind (repo_generate env (Some created_at)) (\<lambda>i.
           op_return \<lparr>md_id = i, md_created_at = created_at, md_storage_version = STORAGE_VERSION,
             md_cwd = None, md_parent_session_id = None, md_legacy_parent_session_path = None\<rparr>))) (\<lambda>metadata.
     with_reservation (md_id metadata)
       (op_bind (op_read (repo_guard cx)) (\<lambda>_.
        insert_record (md_id metadata) (make_record metadata storage_new)))))"

definition repo_open :: "session_metadata \<Rightarrow> call_context \<Rightarrow> (('j, 'f) session_repo, string) op" where
  "repo_open metadata cx =
     op_bind (op_read (repo_guard cx)) (\<lambda>_.
     op_bind (op_read repo_ensure_open) (\<lambda>_.
     op_bind (op_read (\<lambda>r. ok_or (bt_get (rp_sessions r) (md_id metadata)) session_not_found)) (\<lambda>rec.
     if rr_open rec then op_fail (Invariant (''session is already open: '' @ md_id metadata))
     else (\<lambda>r. (Inr (md_id metadata),
       r\<lparr>rp_sessions := bt_insert (md_id metadata)
           (rec\<lparr>rr_open := True, rr_session := Some new_handle\<rparr>) (rp_sessions r)\<rparr>)))))"

definition repo_list :: "call_context \<Rightarrow> ('j, 'f) session_repo \<Rightarrow> session_error + session_metadata list" where
  "repo_list cx r =
     rbind (repo_guard cx r) (\<lambda>_.
     rbind (repo_ensure_open r) (\<lambda>_. Inr (map rr_metadata (bt_values (rp_sessions r)))))"

definition repo_delete :: "session_metadata \<Rightarrow> call_context \<Rightarrow> (('j, 'f) session_repo, unit) op" where
  "repo_delete metadata cx =
     op_bind (op_read (repo_guard cx)) (\<lambda>_.
     op_bind (op_read repo_ensure_open) (\<lambda>_.
     op_bind (op_read (\<lambda>r. ok_or (bt_get (rp_sessions r) (md_id metadata)) session_not_found)) (\<lambda>rec.
     if rr_open rec then op_fail (Invariant (''session is open: '' @ md_id metadata))
     else (\<lambda>r. (Inr (), r\<lparr>rp_sessions := bt_remove (md_id metadata) (rp_sessions r)\<rparr>)))))"

fun fork_option_id :: "fork_options \<Rightarrow> string option" where
  "fork_option_id (ForkBranch _ _ _ i) = i"
| "fork_option_id (ForkTree i) = i"

definition repo_fork ::
  "id_env \<Rightarrow> session_error + i64 \<Rightarrow> 'j serde \<Rightarrow> session_metadata \<Rightarrow> fork_options \<Rightarrow> call_context
    \<Rightarrow> (('j, 'f::{plus,zero}) session_repo, string) op" where
  "repo_fork env now sd source options cx =
     op_bind (op_read (repo_guard cx)) (\<lambda>_.
     op_bind (op_read (\<lambda>_. case options of ForkBranch branch _ _ _ \<Rightarrow> validate_branch_name branch | ForkTree _ \<Rightarrow> Inr ())) (\<lambda>_.
     op_bind (op_read (\<lambda>r. ok_or (bt_get (rp_sessions r) (md_id source)) session_not_found)) (\<lambda>src.
     op_bind (op_read (\<lambda>_. now)) (\<lambda>created_at.
     op_bind (case fork_option_id options of
         Some i \<Rightarrow> op_return i
       | None \<Rightarrow> repo_generate env (Some created_at)) (\<lambda>i.
     with_reservation i
       (op_bind (op_read (repo_guard cx)) (\<lambda>_.
        op_bind (op_read (\<lambda>_. memory_capture_fork_source (memory_attach (rr_state src)) cx)) (\<lambda>snapshot.
        op_bind (op_read (\<lambda>_. create_fork_snapshot sd snapshot options)) (\<lambda>destination.
        op_bind (op_read (\<lambda>_. from_fork_snapshot destination)) (\<lambda>state.
        insert_record i (make_record
          \<lparr>md_id = i, md_created_at = created_at, md_storage_version = STORAGE_VERSION,
           md_cwd = md_cwd (rr_metadata src), md_parent_session_id = Some (md_id (rr_metadata src)),
           md_legacy_parent_session_path = None\<rparr> state)))))))))))"

section \<open>Using a session of the repository\<close>

definition assemble ::
  "('j, 'f) session_repo \<Rightarrow> ('j, 'f) repo_record \<Rightarrow> session_handle
    \<Rightarrow> (('j, 'f) memory_storage, generator_state) backed_session" where
  "assemble r rec h =
     \<lparr>bk_metadata = rr_metadata rec,
      bk_storage = \<lparr>ms_state = rr_state rec, ms_closed = hn_storage_closed h\<rparr>,
      bk_generator = rp_generator r, bk_closed = hn_closed h,
      bk_close_result = hn_close_result h, bk_hook = hn_hook h, bk_callbacks = 0\<rparr>"

definition store_back ::
  "string \<Rightarrow> ('j, 'f) repo_record \<Rightarrow> (('j, 'f) memory_storage, generator_state) backed_session
    \<Rightarrow> ('j, 'f) session_repo \<Rightarrow> ('j, 'f) session_repo" where
  "store_back i rec s r =
     r\<lparr>rp_generator := bk_generator s,
       rp_sessions := bt_insert i
         (rec\<lparr>rr_state := ms_state (bk_storage s),
              rr_open := (if bk_callbacks s = 0 then rr_open rec else False),
              rr_session := Some \<lparr>hn_closed = bk_closed s, hn_storage_closed = ms_closed (bk_storage s),
                hn_close_result = bk_close_result s, hn_hook = bk_hook s\<rparr>\<rparr>) (rp_sessions r)\<rparr>"

definition run_session ::
  "string \<Rightarrow> ((('j, 'f) memory_storage, generator_state) backed_session, 'a) op
    \<Rightarrow> (('j, 'f) session_repo, 'a) op" where
  "run_session i m = (\<lambda>r.
     case bt_get (rp_sessions r) i of
       None \<Rightarrow> (Inl session_not_found, r)
     | Some rec \<Rightarrow> (case rr_session rec of
         None \<Rightarrow> (Inl closed_error, r)
       | Some h \<Rightarrow> (let (res, s) = m (assemble r rec h) in (res, store_back i rec s r))))"

text \<open>\<open>close\<close> marks the repository closed, then closes every session handle in key order.\<close>

definition close_one ::
  "session_error + i64 \<Rightarrow> call_context \<Rightarrow> ('j, 'f::plus) session_repo \<times> session_error option \<Rightarrow> string
    \<Rightarrow> ('j, 'f) session_repo \<times> session_error option" where
  "close_one now cx acc i =
     (let (r, first_error) = acc; (res, r') = run_session i (session_close (memory_ops now) cx) r
      in (r', case first_error of Some e \<Rightarrow> Some e | None \<Rightarrow> (case res of Inl e \<Rightarrow> Some e | Inr _ \<Rightarrow> None)))"

definition session_keys :: "('j, 'f) session_repo \<Rightarrow> string list" where
  "session_keys r = map fst (filter (\<lambda>(i, rec). rr_session rec \<noteq> None) (rp_sessions r))"

definition repo_close :: "session_error + i64 \<Rightarrow> call_context \<Rightarrow> (('j, 'f::plus) session_repo, unit) op" where
  "repo_close now cx =
     op_bind (op_read (\<lambda>_. check_context cx)) (\<lambda>_ r.
       let r = r\<lparr>rp_closed := True\<rparr>;
           (r', first_error) = foldl (close_one now cx) (r, None) (session_keys r)
       in (case first_error of None \<Rightarrow> Inr () | Some e \<Rightarrow> Inl e, r'))"

section \<open>Failures change no record\<close>

lemma failure_keeps_reservation [keeps_rules]:
  "failure_keeps rp_sessions m \<Longrightarrow> failure_keeps rp_sessions (with_reservation i m)"
  by (fastforce simp: failure_keeps_def with_reservation_def reserve_id_def op_bind_def Let_def
      split: prod.splits if_splits)

lemma failure_keeps_insert [keeps_rules]: "failure_keeps rp_sessions (insert_record i rec)"
  by (auto simp: failure_keeps_def insert_record_def op_bind_def repo_ensure_open_def)

lemma keeps_repo_generate [keeps_rules]: "keeps rp_sessions (repo_generate env ts)"
  by (auto simp: keeps_def repo_generate_def Let_def split: prod.split)

lemma failure_keeps_update [keeps_rules]: "failure_keeps g (\<lambda>r. (Inr a, f r))"
  by (simp add: failure_keeps_def)

lemma repo_create_failure: "failure_keeps rp_sessions (repo_create env now metadata cx)"
  unfolding repo_create_def by (rule keeps_rules)+

lemma repo_open_failure: "failure_keeps rp_sessions (repo_open metadata cx)"
  unfolding repo_open_def by (rule keeps_rules)+

lemma repo_delete_failure: "failure_keeps rp_sessions (repo_delete metadata cx)"
  unfolding repo_delete_def by (rule keeps_rules)+

lemma repo_fork_failure: "failure_keeps rp_sessions (repo_fork env now sd source options cx)"
  unfolding repo_fork_def by (rule keeps_rules)+

section \<open>Successful operations\<close>

lemma with_reservation_Inr:
  assumes "with_reservation i m r = (Inr a, r')"
  obtains r1 where "bt_get (rp_sessions r) i = None" "i \<notin> rp_pending_ids r"
    "m (r\<lparr>rp_pending_ids := insert i (rp_pending_ids r)\<rparr>) = (Inr a, r1)"
    "r' = r1\<lparr>rp_pending_ids := rp_pending_ids r1 - {i}\<rparr>"
proof -
  have fresh: "bt_get (rp_sessions r) i = None \<and> i \<notin> rp_pending_ids r"
    using assms by (auto simp: with_reservation_def reserve_id_def op_bind_def split: if_splits)
  then have "reserve_id i r = (Inr (), r\<lparr>rp_pending_ids := insert i (rp_pending_ids r)\<rparr>)"
    by (auto simp: reserve_id_def)
  with assms have "(let (res, r') = m (r\<lparr>rp_pending_ids := insert i (rp_pending_ids r)\<rparr>)
      in (res, r'\<lparr>rp_pending_ids := rp_pending_ids r' - {i}\<rparr>)) = (Inr a, r')"
    by (simp add: with_reservation_def)
  with fresh that show thesis
    by (auto simp: Let_def split: prod.splits)
qed

lemma insert_record_Inr:
  "insert_record i rec r = (Inr a, r') \<longleftrightarrow>
     a = i \<and> \<not> rp_closed r \<and> r' = r\<lparr>rp_sessions := bt_insert i rec (rp_sessions r)\<rparr>"
  by (auto simp: insert_record_def op_bind_read repo_ensure_open_def)

lemma repo_create_Inr:
  assumes "repo_create env now metadata cx r = (Inr i, r')"
  obtains meta where "md_id meta = i" "bt_get (rp_sessions r) i = None"
    "rp_sessions r' = bt_insert i (make_record meta storage_new) (rp_sessions r)"
    "rp_pending_ids r' = rp_pending_ids r" "rp_closed r' = rp_closed r" "\<not> rp_closed r"
    "\<And>md. metadata = Some md \<Longrightarrow> meta = md"
proof -
  let ?meta = "case metadata of Some metadata \<Rightarrow> op_return metadata
       | None \<Rightarrow>
           op_bind (op_read (\<lambda>_. now)) (\<lambda>created_at.
           op_bind (repo_generate env (Some created_at)) (\<lambda>i.
           op_return \<lparr>md_id = i, md_created_at = created_at, md_storage_version = STORAGE_VERSION,
             md_cwd = None, md_parent_session_id = None, md_legacy_parent_session_path = None\<rparr>))"
  from assms obtain meta r1 where m: "?meta r = (Inr meta, r1)"
    and w: "with_reservation (md_id meta) (op_bind (op_read (repo_guard cx)) (\<lambda>_.
        insert_record (md_id meta) (make_record meta storage_new))) r1 = (Inr i, r')"
    unfolding repo_create_def by (elim op_bind_InrE) (simp only: op_simps prod.inject)
  have same: "rp_sessions r1 = rp_sessions r \<and> rp_pending_ids r1 = rp_pending_ids r \<and> rp_closed r1 = rp_closed r"
    using m by (cases metadata) (auto simp: op_bind_def repo_generate_def Let_def split: prod.splits sum.splits)
  have md: "meta = md" if "metadata = Some md" for md
    using m that by simp
  from w obtain r2 where "bt_get (rp_sessions r1) (md_id meta) = None" "md_id meta \<notin> rp_pending_ids r1"
    "op_bind (op_read (repo_guard cx)) (\<lambda>_. insert_record (md_id meta) (make_record meta storage_new))
       (r1\<lparr>rp_pending_ids := insert (md_id meta) (rp_pending_ids r1)\<rparr>) = (Inr i, r2)"
    "r' = r2\<lparr>rp_pending_ids := rp_pending_ids r2 - {md_id meta}\<rparr>"
    by (rule with_reservation_Inr)
  with same md show thesis
    by (intro that [of meta]) (auto simp: op_bind_read insert_record_Inr split: sum.split_asm)
qed

lemma repo_fork_Inr:
  assumes "repo_fork env now sd source options cx r = (Inr i, r')"
  obtains src d st meta where "bt_get (rp_sessions r) (md_id source) = Some src" "bt_get (rp_sessions r) i = None"
    "create_fork_snapshot sd (snapshot_for_fork (rr_state src)) options = Inr d" "from_fork_snapshot d = Inr st"
    "md_id meta = i" "md_parent_session_id meta = Some (md_id (rr_metadata src))" "md_cwd meta = md_cwd (rr_metadata src)"
    "rp_sessions r' = bt_insert i (make_record meta st) (rp_sessions r)" "rp_closed r' = rp_closed r"
proof -
  from assms obtain src created_at k r1 where
    src: "bt_get (rp_sessions r) (md_id source) = Some src" and
    k: "(case fork_option_id options of Some i \<Rightarrow> op_return i | None \<Rightarrow> repo_generate env (Some created_at)) r = (Inr k, r1)" and
    w: "with_reservation k
       (op_bind (op_read (repo_guard cx)) (\<lambda>_.
        op_bind (op_read (\<lambda>_. memory_capture_fork_source (memory_attach (rr_state src)) cx)) (\<lambda>snapshot.
        op_bind (op_read (\<lambda>_. create_fork_snapshot sd snapshot options)) (\<lambda>destination.
        op_bind (op_read (\<lambda>_. from_fork_snapshot destination)) (\<lambda>state.
        insert_record k (make_record
          \<lparr>md_id = k, md_created_at = created_at, md_storage_version = STORAGE_VERSION,
           md_cwd = md_cwd (rr_metadata src), md_parent_session_id = Some (md_id (rr_metadata src)),
           md_legacy_parent_session_path = None\<rparr> state)))))) r1 = (Inr i, r')"
    unfolding repo_fork_def by (elim op_bind_InrE) (simp only: op_simps prod.inject ok_or_eq_Inr_iff, blast)
  have same: "rp_sessions r1 = rp_sessions r \<and> rp_closed r1 = rp_closed r"
    using k by (cases "fork_option_id options") (auto simp: repo_generate_def Let_def split: prod.splits)
  show thesis
    using w
  proof (rule with_reservation_Inr)
    fix r2
    assume free: "bt_get (rp_sessions r1) k = None" and r': "r' = r2\<lparr>rp_pending_ids := rp_pending_ids r2 - {k}\<rparr>"
      and run: "op_bind (op_read (repo_guard cx)) (\<lambda>_.
        op_bind (op_read (\<lambda>_. memory_capture_fork_source (memory_attach (rr_state src)) cx)) (\<lambda>snapshot.
        op_bind (op_read (\<lambda>_. create_fork_snapshot sd snapshot options)) (\<lambda>destination.
        op_bind (op_read (\<lambda>_. from_fork_snapshot destination)) (\<lambda>state.
        insert_record k (make_record
          \<lparr>md_id = k, md_created_at = created_at, md_storage_version = STORAGE_VERSION,
           md_cwd = md_cwd (rr_metadata src), md_parent_session_id = Some (md_id (rr_metadata src)),
           md_legacy_parent_session_path = None\<rparr> state)))))
        (r1\<lparr>rp_pending_ids := insert k (rp_pending_ids r1)\<rparr>) = (Inr i, r2)"
    from run obtain d st where d: "create_fork_snapshot sd (snapshot_for_fork (rr_state src)) options = Inr d"
      "from_fork_snapshot d = Inr st"
      and ins: "insert_record k (make_record
          \<lparr>md_id = k, md_created_at = created_at, md_storage_version = STORAGE_VERSION,
           md_cwd = md_cwd (rr_metadata src), md_parent_session_id = Some (md_id (rr_metadata src)),
           md_legacy_parent_session_path = None\<rparr> st) (r1\<lparr>rp_pending_ids := insert k (rp_pending_ids r1)\<rparr>) = (Inr i, r2)"
      by (elim op_bind_InrE)
        (auto simp: memory_capture_fork_source_def memory_attach_def rbind_eq_Inr_iff)
    then show thesis
      using src free same r' by (intro that [OF src _ d]) (auto simp: insert_record_Inr)
  qed
qed

section \<open>What session operations do to the durable state\<close>

text \<open>Everything of a session but its id generator.\<close>

definition core :: "('m, 'g) backed_session \<Rightarrow> 'm \<times> bool \<times> (session_error + unit) option \<times> bool \<times> nat" where
  "core s = (bk_storage s, bk_closed s, bk_close_result s, bk_hook s, bk_callbacks s)"

text \<open>At most one batch is applied, and no flag changes.\<close>

definition commits_once :: "((('j, 'f::plus) memory_storage, 'g) backed_session, 'a) op \<Rightarrow> bool" where
  "commits_once m \<longleftrightarrow> (\<forall>s res s'. m s = (res, s') \<longrightarrow>
     core s' = core s \<or>
     (\<exists>ws ts st c. apply_batch (ms_state (bk_storage s)) ws ts = Inr (st, c) \<and>
        core s' = core (s\<lparr>bk_storage := (bk_storage s)\<lparr>ms_state := st\<rparr>\<rparr>)))"

lemma keeps_core_generate [keeps_rules]: "keeps core (generate_id gen)"
  by (auto simp: keeps_def generate_id_def core_def Let_def split: prod.split)

lemma commits_once_keeps: "keeps core m \<Longrightarrow> commits_once m"
  by (auto simp: keeps_def commits_once_def) (metis snd_conv)

lemma core_update:
  "core s' = core s \<Longrightarrow> core (s'\<lparr>bk_storage := x\<rparr>) = core (s\<lparr>bk_storage := x\<rparr>) \<and> bk_storage s' = bk_storage s"
  by (simp add: core_def)

lemma commits_once_bind [keeps_rules]:
  assumes "keeps core m" and "\<And>a. commits_once (f a)"
  shows "commits_once (op_bind m f)"
  unfolding commits_once_def
proof (intro allI impI)
  fix s res s'
  assume r: "op_bind m f s = (res, s')"
  obtain x s1 where m: "m s = (x, s1)" by (cases "m s")
  with assms(1) have c: "core s1 = core s"
    unfolding keeps_def by (metis snd_conv)
  show "core s' = core s \<or> (\<exists>ws ts st c. apply_batch (ms_state (bk_storage s)) ws ts = Inr (st, c) \<and>
        core s' = core (s\<lparr>bk_storage := (bk_storage s)\<lparr>ms_state := st\<rparr>\<rparr>))"
  proof (cases x)
    case (Inl e)
    with r m c show ?thesis by (simp add: op_bind_def)
  next
    case (Inr a)
    with r m have "f a s1 = (res, s')" by (simp add: op_bind_def)
    with assms(2) [of a] c core_update [OF c] show ?thesis
      unfolding commits_once_def by metis
  qed
qed

lemma commits_once_if [keeps_rules]:
  "commits_once a \<Longrightarrow> commits_once b \<Longrightarrow> commits_once (if c then a else b)"
  by simp

lemma commits_once_basic [keeps_rules]: "commits_once (op_fail e)" "commits_once (op_return a)"
  by (simp_all add: commits_once_def)

lemma commits_once_commit:
  "commits_once (op_bind (mutation_commit (memory_ops now) ws cx) (\<lambda>_. op_return x))"
proof -
  have "core s' = core s \<or> (\<exists>ws ts st c. apply_batch (ms_state (bk_storage s)) ws ts = Inr (st, c) \<and>
        core s' = core (s\<lparr>bk_storage := (bk_storage s)\<lparr>ms_state := st\<rparr>\<rparr>))"
    if "mutation_commit (memory_ops now) ws cx s = (res, s')" for s s' res
  proof (cases "cx_cancelled cx \<or> (\<exists>e. memory_commit now (bk_storage s) ws (without_cancellation cx) = Inl e)")
    case True
    then have "s' = s"
      using that
      by (auto simp: mutation_commit_def op_bind_read check_context_def on_storage_def memory_ops_def Let_def
          split: if_split_asm)
    then show ?thesis by simp
  next
    case False
    then obtain m r where c: "memory_commit now (bk_storage s) ws (without_cancellation cx) = Inr (m, r)"
      by (metis obj_sumE prod.exhaust)
    then obtain ts st where "apply_batch (ms_state (bk_storage s)) ws ts = Inr (st, r)" "m = (bk_storage s)\<lparr>ms_state := st\<rparr>"
      by (auto simp: memory_commit_def rbind_eq_Inr_iff)
    moreover have "s' = s\<lparr>bk_storage := m\<rparr>"
      using that False c
      by (auto simp: mutation_commit_def op_bind_read check_context_def on_storage_def memory_ops_def Let_def)
    ultimately show ?thesis
      by blast
  qed
  then show ?thesis
    unfolding commits_once_def op_bind_def by (auto split: prod.splits sum.splits)
qed

lemma session_ops_commit_once:
  "commits_once (append_to_branch (memory_ops now) gen sd name body cx)"
  "commits_once (create_branch (memory_ops now) sd name target cx)"
  "commits_once (commit_single (memory_ops now) w cx)"
  unfolding append_to_branch_def create_branch_def commit_single_def mutation_get_value_def mutation_get_entries_def
  by (rule commits_once_commit | rule keeps_rules)+

section \<open>The repository invariant\<close>

definition record_wf :: "string \<Rightarrow> ('j, 'f) repo_record \<Rightarrow> bool" where
  "record_wf i rec \<longleftrightarrow>
     md_id (rr_metadata rec) = i \<and> storage_wf (rr_state rec) \<and>
     (\<exists>h. rr_session rec = Some h \<and> hn_closed h = (\<not> rr_open rec) \<and> hn_storage_closed h = (\<not> rr_open rec) \<and>
        hn_hook h = rr_open rec \<and> (hn_close_result h = None \<longleftrightarrow> rr_open rec))"

definition repo_wf :: "('j, 'f) session_repo \<Rightarrow> bool" where
  "repo_wf r \<longleftrightarrow> bt_ok (rp_sessions r) \<and> (\<forall>i rec. bt_get (rp_sessions r) i = Some rec \<longrightarrow> record_wf i rec)"

text \<open>No session has used the last sequence number.\<close>

definition repo_room :: "('j, 'f) session_repo \<Rightarrow> bool" where
  "repo_room r \<longleftrightarrow> (\<forall>i rec. bt_get (rp_sessions r) i = Some rec \<longrightarrow> st_next_seq (rr_state rec) \<noteq> - 1)"

lemma repo_wf_insert:
  "repo_wf r \<Longrightarrow> record_wf i rec \<Longrightarrow> rp_sessions r' = bt_insert i rec (rp_sessions r) \<Longrightarrow> repo_wf r'"
  by (auto simp: repo_wf_def bt_simps)

lemma repo_wf_same: "repo_wf r \<Longrightarrow> rp_sessions r' = rp_sessions r \<Longrightarrow> repo_wf r'"
  by (simp add: repo_wf_def)

lemma record_wf_make: "storage_wf st \<Longrightarrow> record_wf (md_id meta) (make_record meta st)"
  by (simp add: record_wf_def make_record_def new_handle_def)

lemma repo_create_wf:
  assumes "repo_wf r" and "repo_create env now metadata cx r = (res, r')"
  shows "repo_wf r'"
proof (cases res)
  case (Inl e)
  then show ?thesis
    using assms repo_create_failure unfolding failure_keeps_def by (blast intro: repo_wf_same)
next
  case (Inr i)
  then obtain meta where "md_id meta = i" "rp_sessions r' = bt_insert i (make_record meta storage_new) (rp_sessions r)"
    using assms(2) by (auto elim: repo_create_Inr)
  then show ?thesis
    using assms(1) storage_wf_new by (auto intro: repo_wf_insert record_wf_make)
qed

lemma repo_fork_wf:
  assumes "repo_wf r" and "repo_fork env now sd source options cx r = (res, r')"
  shows "repo_wf r'"
proof (cases res)
  case (Inl e)
  then show ?thesis
    using assms repo_fork_failure unfolding failure_keeps_def by (blast intro: repo_wf_same)
next
  case (Inr i)
  have run: "repo_fork env now sd source options cx r = (Inr i, r')"
    using assms(2) Inr by simp
  then obtain src d st meta where src: "bt_get (rp_sessions r) (md_id source) = Some src"
    and d: "create_fork_snapshot sd (snapshot_for_fork (rr_state src)) options = Inr d" "from_fork_snapshot d = Inr st"
    and meta: "md_id meta = i" "rp_sessions r' = bt_insert i (make_record meta st) (rp_sessions r)"
    by (rule repo_fork_Inr)
  have "storage_wf (rr_state src)"
    using assms(1) src by (auto simp: repo_wf_def record_wf_def)
  from this d(1) have "storage_wf st"
    by (rule fork_replay) (use d(2) in simp)
  then show ?thesis
    using assms(1) meta by (auto intro: repo_wf_insert record_wf_make)
qed

lemma repo_open_wf:
  assumes "repo_wf r" and "repo_open metadata cx r = (res, r')"
  shows "repo_wf r'"
proof (cases res)
  case (Inl e)
  then show ?thesis
    using assms repo_open_failure unfolding failure_keeps_def by (blast intro: repo_wf_same)
next
  case (Inr i)
  with assms(2) obtain rec where rec: "bt_get (rp_sessions r) (md_id metadata) = Some rec"
    and r': "rp_sessions r' = bt_insert (md_id metadata) (rec\<lparr>rr_open := True, rr_session := Some new_handle\<rparr>) (rp_sessions r)"
    unfolding repo_open_def by (auto simp: op_bind_read split: sum.splits if_splits)
  have "record_wf (md_id metadata) rec"
    using assms(1) rec by (simp add: repo_wf_def)
  then have "record_wf (md_id metadata) (rec\<lparr>rr_open := True, rr_session := Some new_handle\<rparr>)"
    by (auto simp: record_wf_def new_handle_def)
  with assms(1) r' show ?thesis
    by (rule_tac repo_wf_insert)
qed

lemma repo_delete_wf:
  assumes "repo_wf r" and "repo_delete metadata cx r = (res, r')"
  shows "repo_wf r'"
proof (cases res)
  case (Inl e)
  then show ?thesis
    using assms repo_delete_failure unfolding failure_keeps_def by (blast intro: repo_wf_same)
next
  case (Inr u)
  with assms(2) have "rp_sessions r' = bt_remove (md_id metadata) (rp_sessions r)"
    unfolding repo_delete_def by (auto simp: op_bind_read split: sum.splits if_splits)
  with assms(1) show ?thesis
    by (auto simp: repo_wf_def bt_simps split: if_splits)
qed

lemma run_session_cases:
  assumes "run_session i m r = (res, r')"
  obtains "r' = r"
  | rec h s where "bt_get (rp_sessions r) i = Some rec" "rr_session rec = Some h"
      "m (assemble r rec h) = (res, s)" "r' = store_back i rec s r"
proof (cases "bt_get (rp_sessions r) i")
  case None
  with assms that(1) show thesis by (simp add: run_session_def)
next
  case rec: (Some rec)
  show thesis
  proof (cases "rr_session rec")
    case None
    with assms rec that(1) show thesis by (simp add: run_session_def)
  next
    case (Some h)
    obtain res' s where m: "m (assemble r rec h) = (res', s)" by (cases "m (assemble r rec h)")
    with assms rec Some have "res = res'" "r' = store_back i rec s r"
      by (simp_all add: run_session_def)
    with rec Some m that(2) show thesis by blast
  qed
qed

lemma store_back_sessions:
  "rp_sessions (store_back i rec s r) = bt_insert i
     (rec\<lparr>rr_state := ms_state (bk_storage s),
          rr_open := (if bk_callbacks s = 0 then rr_open rec else False),
          rr_session := Some \<lparr>hn_closed = bk_closed s, hn_storage_closed = ms_closed (bk_storage s),
            hn_close_result = bk_close_result s, hn_hook = bk_hook s\<rparr>\<rparr>) (rp_sessions r)"
  by (simp add: store_back_def)

lemma room_batch:
  assumes "apply_batch s ws ts = Inr (s', c)" and "st_next_seq s' \<noteq> - 1"
  shows "unat (st_next_seq s) + length ws < 2 ^ 64"
proof (cases ws rule: rev_cases)
  case Nil
  then show ?thesis
    using unat_less_pow [of "st_next_seq s"] by simp
next
  case (snoc vs w)
  let ?last = "st_next_seq s + of_nat (length vs)"
  have "batch_ok (storage_view s) (st_next_seq s) ws"
    using assms(1) by (simp add: apply_batch_Inr_iff)
  then have fit: "unat (st_next_seq s) + length vs < 2 ^ 64"
    by (simp add: batch_ok_def snoc)
  have "st_next_seq s' = saturating_add ?last 1"
    using assms(1) by (simp add: apply_batch_Inr_iff next_seq_foldl snoc enumerate_append)
  with assms(2) have "unat ?last + 1 < 2 ^ 64"
    by (auto simp: saturating_add_def split: if_splits)
  with unat_seq_at [OF fit] show ?thesis
    by (simp add: snoc)
qed

lemma run_session_wf:
  assumes wf: "repo_wf r" and run: "run_session i m r = (res, r')" and m: "commits_once m" and room: "repo_room r'"
  shows "repo_wf r'"
  using run
proof (cases rule: run_session_cases)
  case 1
  with wf show ?thesis by simp
next
  case (2 rec h s)
  have rec: "record_wf i rec"
    using wf 2(1) by (simp add: repo_wf_def)
  let ?s0 = "assemble r rec h"
  consider "core s = core ?s0"
    | ws ts st c where "apply_batch (rr_state rec) ws ts = Inr (st, c)"
        "core s = core (?s0\<lparr>bk_storage := (bk_storage ?s0)\<lparr>ms_state := st\<rparr>\<rparr>)"
    using m 2(3) unfolding commits_once_def by (fastforce simp: assemble_def)
  then have "storage_wf (ms_state (bk_storage s)) \<and> bk_callbacks s = 0 \<and> bk_closed s = hn_closed h \<and>
      ms_closed (bk_storage s) = hn_storage_closed h \<and> bk_close_result s = hn_close_result h \<and> bk_hook s = hn_hook h"
  proof cases
    case 1
    then show ?thesis
      using rec by (auto simp: core_def assemble_def record_wf_def)
  next
    case (2 ws ts st c)
    have "\<forall>rec'. bt_get (rp_sessions r') i = Some rec' \<longrightarrow> st_next_seq (rr_state rec') \<noteq> - 1"
      using room unfolding repo_room_def by blast
    then have "st_next_seq (ms_state (bk_storage s)) \<noteq> - 1"
      using \<open>r' = store_back i rec s r\<close> by (simp add: store_back_sessions bt_get_insert)
    then have "st_next_seq st \<noteq> - 1"
      using 2(2) by (simp add: core_def)
    then have "storage_wf st"
      using storage_wf_apply_batch [OF _ 2(1) room_batch [OF 2(1)]] rec by (simp add: record_wf_def)
    with 2(2) show ?thesis
      by (auto simp: core_def assemble_def)
  qed
  then have "record_wf i (rec\<lparr>rr_state := ms_state (bk_storage s),
          rr_open := (if bk_callbacks s = 0 then rr_open rec else False),
          rr_session := Some \<lparr>hn_closed = bk_closed s, hn_storage_closed = ms_closed (bk_storage s),
            hn_close_result = bk_close_result s, hn_hook = bk_hook s\<rparr>\<rparr>)"
    using rec 2(2) by (auto simp: record_wf_def)
  then show ?thesis
    using wf 2(4) by (auto intro: repo_wf_insert simp: store_back_sessions)
qed

text \<open>Closing a session's handle releases its record and leaves its state alone.\<close>

lemma session_close_run:
  "session_close (memory_ops now) cx s = (res, s') \<Longrightarrow>
   ms_state (bk_storage s') = ms_state (bk_storage s) \<and>
   (if cx_cancelled cx then s' = s
    else bk_closed s' \<and>
      (case bk_close_result s of
         Some x \<Rightarrow> s' = s\<lparr>bk_closed := True\<rparr>
       | None \<Rightarrow> ms_closed (bk_storage s') \<and> bk_close_result s' = Some (Inr ()) \<and> \<not> bk_hook s' \<and>
           bk_callbacks s' = bk_callbacks s + (if bk_hook s then 1 else 0)))"
  by (auto simp: session_close_def op_bind_read check_context_def Let_def close_task_def memory_ops_def
      memory_close_def without_cancellation_def split: option.splits)

lemma run_close_wf:
  assumes wf: "repo_wf r" and run: "run_session i (session_close (memory_ops now) cx) r = (res, r')"
  shows "repo_wf r'"
  using run
proof (cases rule: run_session_cases)
  case 1
  with wf show ?thesis by simp
next
  case (2 rec h s)
  have rec: "record_wf i rec"
    using wf 2(1) by (simp add: repo_wf_def)
  have "record_wf i (rec\<lparr>rr_state := ms_state (bk_storage s),
          rr_open := (if bk_callbacks s = 0 then rr_open rec else False),
          rr_session := Some \<lparr>hn_closed = bk_closed s, hn_storage_closed = ms_closed (bk_storage s),
            hn_close_result = bk_close_result s, hn_hook = bk_hook s\<rparr>\<rparr>)"
    using session_close_run [OF 2(3)] rec 2(2)
    by (auto simp: record_wf_def assemble_def split: if_splits option.splits)
  then show ?thesis
    using wf 2(4) by (auto intro: repo_wf_insert simp: store_back_sessions)
qed

lemma repo_close_wf:
  assumes "repo_wf r" and "repo_close now cx r = (res, r')"
  shows "repo_wf r'"
proof -
  have one: "repo_wf (fst (close_one now cx acc i))" if "repo_wf (fst acc)" for acc :: "('a, 'b) session_repo \<times> session_error option" and i
    using that run_close_wf [of "fst acc" i now cx]
    by (auto simp: close_one_def split: prod.splits)
  have "repo_wf (fst (foldl (close_one now cx) acc keys))" if "repo_wf (fst acc)"
    for acc :: "('a, 'b) session_repo \<times> session_error option" and keys
    using that by (induction keys arbitrary: acc) (simp_all add: one)
  then have "repo_wf (fst (foldl (close_one now cx) (r\<lparr>rp_closed := True\<rparr>, None) (session_keys (r\<lparr>rp_closed := True\<rparr>))))"
    using repo_wf_same [OF assms(1), of "r\<lparr>rp_closed := True\<rparr>"] by simp
  then show ?thesis
    using assms by (auto simp: repo_close_def op_bind_def op_read_def check_context_def Let_def split: prod.splits if_splits)
qed

section \<open>Reachable repositories\<close>

text \<open>
  The steps a client can take: the repository operations, and the operations of an open
  session (any batch-committing operation, or close).
\<close>

inductive repo_step :: "('j, 'f::{plus,zero}) session_repo \<Rightarrow> ('j, 'f) session_repo \<Rightarrow> bool" where
  create: "repo_create env now metadata cx r = (res, r') \<Longrightarrow> repo_step r r'"
| open_session: "repo_open metadata cx r = (res, r') \<Longrightarrow> repo_step r r'"
| delete: "repo_delete metadata cx r = (res, r') \<Longrightarrow> repo_step r r'"
| fork: "repo_fork env now sd source options cx r = (res, r') \<Longrightarrow> repo_step r r'"
| append: "run_session i (append_to_branch (memory_ops now) (next_string env) sd name body cx) r = (res, r') \<Longrightarrow>
    repo_step r r'"
| branch: "run_session i (create_branch (memory_ops now) sd name target cx) r = (res', r') \<Longrightarrow> repo_step r r'"
| single: "run_session i (commit_single (memory_ops now) w cx) r = (res'', r') \<Longrightarrow> repo_step r r'"
| close_session: "run_session i (session_close (memory_ops now) cx) r = (res'', r') \<Longrightarrow> repo_step r r'"
| close_repo: "repo_close now cx r = (res'', r') \<Longrightarrow> repo_step r r'"

inductive repo_reachable :: "('j, 'f::{plus,zero}) session_repo \<Rightarrow> bool" where
  start: "repo_reachable (repo_new g)"
| step: "repo_reachable r \<Longrightarrow> repo_step r r' \<Longrightarrow> repo_room r' \<Longrightarrow> repo_reachable r'"

lemma repo_step_wf:
  assumes "repo_step r r'" and "repo_wf r" and "repo_room r'"
  shows "repo_wf r'"
  using assms
  by (cases rule: repo_step.cases)
    (blast intro: repo_create_wf repo_open_wf repo_delete_wf repo_fork_wf run_close_wf repo_close_wf
       run_session_wf session_ops_commit_once)+

lemma repo_reachable_inv: "repo_reachable r \<Longrightarrow> repo_wf r"
proof (induction rule: repo_reachable.induct)
  case (start g)
  then show ?case by (simp add: repo_wf_def repo_new_def bt.emp_ok)
next
  case (step r r')
  then show ?case by (blast intro: repo_step_wf)
qed

end
