(* ===== verification/Session_Samples.thy ===== *)
theory Session_Samples
  imports Session_Repo
begin

text \<open>
  Concrete inputs at which the properties of the session components are applied: a small JSON
  type with its encodings, a batch that starts a session with one configured branch of two
  entries, the state it leads to, and an id generator environment.
\<close>

datatype sample_json = SampleTip "entry_id option" | SampleText string | SampleLane lane_state

definition sample_serde :: "sample_json serde" where
  "sample_serde =
     \<lparr>sd_tip_to_value = (\<lambda>tip. Inr (SampleTip tip)),
      sd_tip_from_value = (\<lambda>j. case j of SampleTip tip \<Rightarrow> Inr tip | SampleText _ \<Rightarrow> Inl ''expected a tip''
        | SampleLane _ \<Rightarrow> Inl ''expected a tip''),
      sd_lane_state_to_value = (\<lambda>l. Inr (SampleLane l)),
      sd_string_value = SampleText,
      sd_string_from_value = (\<lambda>j. case j of SampleText t \<Rightarrow> Inr t | SampleTip _ \<Rightarrow> Inl ''expected a string''
        | SampleLane _ \<Rightarrow> Inl ''expected a string'')\<rparr>"

lemma sample_serde_ok:
  "serde_tip_ok sample_serde" "serde_lane_state_ok sample_serde" "serde_string_ok sample_serde"
  by (simp_all add: serde_tip_ok_def serde_lane_state_ok_def serde_string_ok_def sample_serde_def)

definition sample_entry :: "string \<Rightarrow> string option \<Rightarrow> (sample_json, nat) session_write" where
  "sample_entry i parent = WriteEntry \<lparr>ne_id = i, ne_parent_id = parent, ne_body = BodyCustom ''note'' None\<rparr>"

definition sample_batch :: "(sample_json, nat) session_write list" where
  "sample_batch =
     [sample_entry ''e1'' None, sample_entry ''e2'' (Some ''e1''),
      WriteUsage \<lparr>nu_id = ''u1'', nu_usage = usage_default, nu_entry_id = Some ''e2'', nu_adjustment = False, nu_details = None\<rparr>,
      WriteValue (ValueSet ''pi.branch.tip'' ''main'' (SampleTip (Some ''e2''))),
      WriteValue (ValueSet ''pi.lane.config'' ''main'' (SampleText ''model'')),
      WriteValue (ValueSet ''pi.lane.state'' ''main'' (SampleLane lane_state_default)),
      WriteValue (ValueSet ''pi.pending.entry'' ''e9'' (SampleText ''draft'')),
      WriteList (ListAppend ''notes'' ''todo'' (SampleText ''first'')),
      WriteList (ListAppend ''notes'' ''todo'' (SampleText ''second''))]"

definition sample_usage :: "(sample_json, nat) usage_row" where
  "sample_usage = \<lparr>ur_id = ''u1'', ur_seq = 3, ur_usage = usage_default, ur_entry_id = Some ''e2'',
     ur_adjustment = False, ur_details = None\<rparr>"

definition sample_note :: "string \<Rightarrow> string option \<Rightarrow> u64 \<Rightarrow> (sample_json, nat) entry" where
  "sample_note i parent seq =
     EntryCustom \<lparr>eb_id = i, eb_parent_id = parent, eb_seq = seq, eb_timestamp = 7, eb_custom_type = None\<rparr>
       ''note'' None"

definition sample_value :: "string \<Rightarrow> string \<Rightarrow> sample_json \<Rightarrow> u64 \<Rightarrow> slot \<times> sample_json raw_stored_value" where
  "sample_value ns k j seq =
     ((ns, k), \<lparr>rv_namespace = ns, rv_key = k, rv_kind = Ak_Value, rv_value = j, rv_seq = seq\<rparr>)"

definition sample_state :: "(sample_json, nat) storage_state" where
  "sample_state =
     \<lparr>st_entries = [(''e1'', sample_note ''e1'' None 1), (''e2'', sample_note ''e2'' (Some ''e1'') 2)],
      st_entries_by_seq = [(1, ''e1''), (2, ''e2'')],
      st_values =
        [sample_value ''pi.branch.tip'' ''main'' (SampleTip (Some ''e2'')) 4,
         sample_value ''pi.lane.config'' ''main'' (SampleText ''model'') 5,
         sample_value ''pi.lane.state'' ''main'' (SampleLane lane_state_default) 6,
         sample_value ''pi.pending.entry'' ''e9'' (SampleText ''draft'') 7],
      st_lists =
        [((''notes'', ''todo''), [\<lparr>rl_seq = 8, rl_value = SampleText ''first''\<rparr>, \<lparr>rl_seq = 9, rl_value = SampleText ''second''\<rparr>])],
      st_usage = [(''u1'', sample_usage)],
      st_stats = session_stats_default,
      st_next_seq = 10\<rparr>"

definition sample_result :: "nat commit_result" where
  "sample_result = \<lparr>cr_first_seq = 1, cr_seqs = [1, 2, 3, 4, 5, 6, 7, 8, 9], cr_timestamp = 7, cr_stats = session_stats_default\<rparr>"

definition sample_env :: id_env where
  "sample_env = \<lparr>ie_current_millis = Inr 1000, ie_random_sequence = 5, ie_format = (\<lambda>s n q. show_word q)\<rparr>"

definition sample_cx :: call_context where
  "sample_cx = \<lparr>cx_cancelled = False\<rparr>"

text \<open>Definitions unfolded when a property is applied to these inputs.\<close>

lemmas result_eval = rbind_def map_err_def ok_or_def unwrap_or_def is_none_or_def is_some_and_def
  checked_add_def saturating_add_def saturating_sub_def u64_try_from_def seq_at_def less_char_def

lemmas storage_eval = storage_new_def storage_view_def apply_batch_def validate_committed_writes_def commit_writes_def
  apply_committed_def apply_one_def materialize_def entry_id_def entry_parent_id_def entry_seq_def
  session_stats_default_def add_usage_def usage_default_def usage_cost_default_def
  bt_contains_def bt_remove_def bt_values_def

lemmas sample_defs = sample_batch_def sample_entry_def sample_state_def sample_usage_def sample_note_def sample_value_def
  sample_result_def

lemma sample_commit: "apply_batch storage_new sample_batch 7 = Inr (sample_state, sample_result)"
  by (simp add: result_eval storage_eval sample_defs)

lemma sample_wf: "storage_wf sample_state"
  by (rule storage_wf_apply_batch [OF storage_wf_new sample_commit]) (simp add: storage_new_def sample_batch_def)

lemma char_of_53: "char_of (53 :: nat) = CHR ''5''"
  by code_simp

end
