(* ===== verification/Storage_Properties.thy ===== *)
theory Storage_Properties
  imports Session_Samples
begin

text \<open>
  The properties of the durable session state: which batches a commit accepts, the sequence
  numbers it assigns, the invariant of the state, recovery from a journal, the scans, list
  pages and forks.
\<close>

section \<open>Commit and replay\<close>

text \<open>
  C1. Journal recovery: replaying, into a new state, the committed writes of any sequence of
  successful batches succeeds and gives back exactly the state those batches led to, statistics
  included (the last sequence number, after which \<open>next_seq\<close> saturates, is excluded).
\<close>

theorem journal_recovery:
  fixes s :: "('j, 'f::{plus,zero}) storage_state"
  assumes "commit_journal storage_new bs = Inr (s, log)" and "no_max log"
  shows "replay storage_new log = Inr (s, st_stats s)"
proof -
  have "replay_ok (storage_view (storage_new :: ('j, 'f) storage_state)) log \<and>
      s = foldl apply_one storage_new log \<and> storage_wf s"
    using storage_wf_new assms by (rule commit_journal_replay)
  then show ?thesis
    by (simp add: replay_def validate_replayed_iff [THEN iffD2] rbind_def apply_committed_def Let_def)
qed

lemma sample_log:
  "\<exists>log. commit_writes sample_batch (st_next_seq (storage_new :: (sample_json, nat) storage_state)) 7 = Inr (log, cr_seqs sample_result) \<and>
     length log = 9 \<and> no_max log"
  by (simp add: result_eval storage_eval sample_defs)

theorem journal_recovery_witness:
  "\<exists>log. commit_journal storage_new [(sample_batch, 7)] = Inr (sample_state, log) \<and>
     length log = 9 \<and> replay storage_new log = Inr (sample_state, st_stats sample_state)"
proof -
  obtain log where c: "commit_writes sample_batch (st_next_seq (storage_new :: (sample_json, nat) storage_state)) 7 =
      Inr (log, cr_seqs sample_result)" and l: "length log = 9" "no_max log"
    using sample_log by blast
  have j: "commit_journal storage_new [(sample_batch, 7)] = Inr (sample_state, log)"
    by (simp add: rbind_def sample_commit c)
  show ?thesis
    using j l(1) journal_recovery [OF j l(2)] by blast
qed

text \<open>
  C5. A commit succeeds exactly for the admissible batches: enough sequence numbers are left, the
  ids of entries and usage rows are fresh and pairwise distinct, each parent is stored or was
  written earlier in the same batch, and no assistant message is pending.
\<close>

theorem commit_accepts_exactly:
  "(\<exists>s' r. apply_batch s ws ts = Inr (s', r)) \<longleftrightarrow> batch_ok (storage_view s) (st_next_seq s) ws"
  by (simp add: apply_batch_Inr_iff)

text \<open>
  C6. The invariant of the durable state is kept by every successful commit: keys agree with the
  stored records, sequence numbers are positive, distinct and below \<open>next_seq\<close>, the sequence
  index agrees with the entries, parents are stored and older, list elements are in order, and
  no id is both an entry and a usage row. The batch has to end before the last sequence number,
  at which \<open>next_seq\<close> saturates.
\<close>

theorem commit_keeps_invariant:
  assumes "storage_wf s" and "apply_batch s ws ts = Inr (s', r)"
    and "unat (st_next_seq s) + length ws < 2 ^ 64"
  shows "storage_wf s'"
  using assms by (rule storage_wf_apply_batch)

theorem commit_keeps_invariant_witness: "storage_wf sample_state"
  using commit_keeps_invariant [OF storage_wf_new sample_commit]
  by (simp add: storage_new_def sample_batch_def)

text \<open>
  C16. The sequence numbers of a commit are fresh and gap-free: the batch gets the consecutive
  numbers from \<open>next_seq\<close> on, and \<open>next_seq\<close> moves just past them, as long as that stays below \<open>2 ^ 64\<close>.
\<close>

theorem commit_gap_free:
  assumes "apply_batch s ws ts = Inr (s', r)" and "unat (st_next_seq s) + length ws < 2 ^ 64"
  shows "cr_first_seq r = st_next_seq s \<and>
    map unat (cr_seqs r) = [unat (st_next_seq s) ..< unat (st_next_seq s) + length ws] \<and>
    unat (st_next_seq s') = unat (st_next_seq s) + length ws"
proof -
  have "unat (st_next_seq s + of_nat i) = unat (st_next_seq s) + i" if "i < length ws" for i
    using assms(2) that by (simp add: unat_word_ariths unat_of_nat)
  then have "map unat (cr_seqs r) = map (\<lambda>i. unat (st_next_seq s) + i) [0..<length ws]"
    using assms(1) by (simp add: apply_batch_Inr_iff)
  also have "\<dots> = [unat (st_next_seq s) ..< unat (st_next_seq s) + length ws]"
    by (simp add: map_add_upt add.commute)
  finally show ?thesis
    using assms(1) next_seq_apply_batch [OF assms] by (simp add: apply_batch_Inr_iff)
qed

theorem commit_gap_free_witness:
  "map unat (cr_seqs sample_result) = [1, 2, 3, 4, 5, 6, 7, 8, 9] \<and> unat (st_next_seq sample_state) = 10"
  using commit_gap_free [OF sample_commit] by (simp add: storage_new_def sample_batch_def)

text \<open>
  C15. A replay accepts exactly the logs whose sequence numbers increase from \<open>next_seq\<close> on, whose
  ids are fresh and distinct and whose parents precede their children, and it keeps the
  invariant (among logs without the last sequence number, at which \<open>next_seq\<close> saturates).
\<close>

theorem replay_keeps_invariant:
  assumes "storage_wf s" and "no_max ws"
  shows "if replay_ok (storage_view s) ws
    then \<exists>s'. replay s ws = Inr (s', st_stats s') \<and> storage_wf s'
    else \<exists>e. replay s ws = Inl e"
proof (cases "replay_ok (storage_view s) ws")
  case True
  then have "replay s ws = Inr (foldl apply_one s ws, st_stats (foldl apply_one s ws))"
    by (simp add: replay_def rbind_def validate_replayed_iff [THEN iffD2] apply_committed_def Let_def)
  with True assms show ?thesis
    by (auto intro: storage_wf_foldl)
next
  case False
  then have "validate_replayed_writes ws (storage_view s) \<noteq> Inr ()"
    by (simp add: validate_replayed_iff)
  then obtain e where "validate_replayed_writes ws (storage_view s) = Inl e"
    by (cases "validate_replayed_writes ws (storage_view s)") auto
  with False show ?thesis
    by (simp add: replay_def rbind_def)
qed

theorem replay_keeps_invariant_witness:
  "\<exists>s'. replay sample_state [CommittedEntry (sample_note ''e3'' (Some ''e2'') 12)] = Inr (s', st_stats s') \<and> storage_wf s'"
proof -
  let ?ws = "[CommittedEntry (sample_note ''e3'' (Some ''e2'') 12)]"
  have n: "no_max ?ws"
    by (simp add: sample_note_def entry_seq_def)
  have "validate_replayed_writes ?ws (storage_view sample_state) = Inr ()"
    by (simp add: validate_replayed_writes_def result_eval storage_eval sample_defs)
  with replay_keeps_invariant [OF sample_wf n] show ?thesis
    by (simp add: validate_replayed_iff)
qed

section \<open>Scans\<close>

text \<open>
  C18. A branch scan from a stored entry never fails on a well-formed state: the ancestry of the
  start entry exists, runs through strictly older entries to a root, and the scan returns the
  requested window of it (up to the stop entry, filtered, in the requested order, limited).
\<close>

theorem scan_branch_window:
  assumes "storage_wf s" and "bt_get (st_entries s) (sb_start q) = Some e"
  shows "\<exists>path. branch_path s (sb_start q) path \<and> sorted_wrt (\<lambda>a b. entry_seq b < entry_seq a) path \<and>
    scan_branch s q = Inr (scan_result q path)"
proof -
  have wf: "parents_ok s"
    using assms(1) by (simp add: storage_wf_def)
  obtain path where path: "branch_path s (sb_start q) path"
    using branch_path_exists [OF wf assms(2)] by blast
  with branch_path_sorted [OF path wf] scan_branch_path [OF assms(1) path] show ?thesis
    by blast
qed

definition sample_scan :: storage_branch_scan where
  "sample_scan = \<lparr>sb_start = ''e2'', sb_stop_at_type = None, sb_stop_at_id = None, sb_entry_type = None,
     sb_custom_type = None, sb_order = Some Asc, sb_limit = None, sb_cursor = None\<rparr>"

theorem scan_branch_window_witness:
  "\<exists>path. branch_path sample_state ''e2'' path \<and> scan_branch sample_state sample_scan = Inr (scan_result sample_scan path)"
  using scan_branch_window [OF sample_wf, of sample_scan "sample_note ''e2'' (Some ''e1'') 2"]
  by (simp add: sample_scan_def sample_state_def) blast

text \<open>The entries an entry scan asks for.\<close>

definition entry_matches :: "entry_scan \<Rightarrow> ('j, 'f) entry \<Rightarrow> bool" where
  "entry_matches q e \<longleftrightarrow>
     is_none_or (es_from_seq q) (\<lambda>v. v \<le> entry_seq e) \<and> is_none_or (es_to_seq q) (\<lambda>v. entry_seq e \<le> v) \<and>
     is_none_or (es_entry_type q) (\<lambda>v. type_of_entry e = v) \<and>
     is_none_or (es_custom_type q) (\<lambda>v. entry_custom_type e = Some v)"

text \<open>
  An entry scan is complete and in order: it returns the first \<open>limit\<close> elements of the list
  of all stored entries that match the query, each once, with strictly ascending sequence
  numbers, or strictly descending ones when asked for; the limit is at most 10000.
\<close>

theorem scan_entries_complete:
  assumes "storage_wf (ms_state m)" and "memory_scan_entries m q cx = Inr es"
  shows "\<exists>matching. set matching = {e. bt_get (st_entries (ms_state m)) (entry_id e) = Some e \<and> entry_matches q e} \<and>
    sorted_wrt (if es_order q = Some Desc then (\<lambda>a b. entry_seq b < entry_seq a) else (\<lambda>a b. entry_seq a < entry_seq b)) matching \<and>
    es = take (scan_limit (es_limit q)) matching \<and> length es \<le> 10000"
proof -
  let ?all = "bt_values (st_entries (ms_state m))"
  let ?sorted = "sort_key entry_seq (filter (entry_matches q) ?all)"
  have "distinct (map entry_seq (filter (entry_matches q) ?all))"
    using inj_entry_seq [OF assms(1)] distinct_entry_ids [OF assms(1)]
    by (auto simp: distinct_map intro: distinct_filter inj_on_subset)
  then have strict: "sorted_wrt (\<lambda>a b. entry_seq a < entry_seq b) ?sorted"
    using sort_key_strict by (simp add: sorted_wrt_map)
  let ?m = "if es_order q = Some Desc then rev ?sorted else ?sorted"
  have "set ?m = {e. bt_get (st_entries (ms_state m)) (entry_id e) = Some e \<and> entry_matches q e}"
    using mem_entries [OF assms(1)] by auto
  moreover have "es = take (scan_limit (es_limit q)) ?m"
    using assms(2) unfolding memory_scan_entries_def entry_matches_def by (auto simp: rbind_eq_Inr_iff Let_def)
  moreover have "length es \<le> 10000"
    using calculation(2) scan_limit_le [of "es_limit q"] by simp
  ultimately show ?thesis
    using strict by (intro exI [of _ ?m]) (auto simp: sorted_wrt_rev)
qed

definition sample_storage :: "(sample_json, nat) memory_storage" where
  "sample_storage = memory_attach sample_state"

lemma sample_storage_sel:
  "storage_wf (ms_state sample_storage)" "\<not> ms_closed sample_storage" "ms_state sample_storage = sample_state"
  "\<not> cx_cancelled sample_cx"
  by (simp_all add: sample_storage_def memory_attach_def sample_wf sample_cx_def)

definition sample_entry_scan :: entry_scan where
  "sample_entry_scan = \<lparr>es_from_seq = None, es_to_seq = None, es_order = Some Desc, es_limit = Some 5,
     es_entry_type = Some Et_Custom, es_custom_type = None\<rparr>"

theorem scan_entries_complete_witness:
  "\<exists>matching. set matching = {e. bt_get (st_entries sample_state) (entry_id e) = Some e \<and> entry_matches sample_entry_scan e} \<and>
     memory_scan_entries sample_storage sample_entry_scan sample_cx = Inr (take 5 matching)"
proof -
  have scan: "memory_scan_entries sample_storage sample_entry_scan sample_cx =
      Inr [sample_note ''e2'' (Some ''e1'') 2, sample_note ''e1'' None 1]"
    by (simp add: memory_scan_entries_def memory_guard_def check_context_def memory_ensure_open_def sample_storage_def
        memory_attach_def sample_entry_scan_def sample_cx_def result_eval storage_eval sample_defs scan_limit_def
        LIST_READ_DEFAULT_LIMIT_def LIST_READ_MAX_LIMIT_def)
  show ?thesis
    using scan_entries_complete [OF sample_storage_sel(1) scan] scan
    by (simp add: sample_storage_def memory_attach_def sample_entry_scan_def scan_limit_def LIST_READ_MAX_LIMIT_def) metis
qed

text \<open>
  Pages of a list: reading a list in order with a limit returns its first elements, and
  reading on with the cursor at the last element of that page returns exactly the elements that
  follow, none skipped and none repeated.
\<close>

theorem list_pages:
  assumes "storage_wf (ms_state m)" and "\<not> ms_closed m" and "\<not> cx_cancelled cx"
    and "bt_get (st_lists (ms_state m)) (ra_namespace a, ra_key a) = Some xs"
    and "0 < n" and "n \<le> LIST_READ_MAX_LIMIT" and "unat n < length xs"
  shows "memory_read_list m a (Some \<lparr>lo_cursor = None, lo_order = None, lo_limit = Some n\<rparr>) cx = Inr (take (unat n) xs) \<and>
    memory_read_list m a (Some \<lparr>lo_cursor = Some \<lparr>lc_seq = rl_seq (last (take (unat n) xs))\<rparr>, lo_order = None, lo_limit = Some n\<rparr>) cx =
      Inr (take (unat n) (drop (unat n) xs))"
proof -
  have sorted: "sorted_wrt (<) (map rl_seq xs)"
    using assms(1,4) unfolding storage_wf_def bounds_ok_def by blast
  have n0: "0 < unat n" "n \<noteq> 0"
    using assms(5) by (auto simp: unat_gt_0 word_gt_0)
  have last: "last (take (unat n) xs) = xs ! (unat n - 1)"
    using n0(1) assms(7) by (subst last_conv_nth) (auto simp: min_def)
  have guard: "memory_guard m cx = Inr ()"
    using assms(2,3) by simp
  have lim: "min n LIST_READ_MAX_LIMIT = n"
    using assms(6) by (simp add: min_def)
  show ?thesis
    using list_window_next [OF sorted assms(7) n0(1)] n0(2) assms(4)
    by (simp add: memory_read_list_def guard rbind_def map_err_def resolve_list_read_options_def lim list_window_def last
        Let_def unwrap_or_def)
qed

theorem list_pages_witness:
  "memory_read_list sample_storage (raw_list ''notes'' ''todo'')
      (Some \<lparr>lo_cursor = Some \<lparr>lc_seq = 8\<rparr>, lo_order = None, lo_limit = Some 1\<rparr>) sample_cx =
    Inr [\<lparr>rl_seq = 9, rl_value = SampleText ''second''\<rparr>]"
proof -
  let ?a = "raw_list ''notes'' ''todo''"
  let ?xs = "[\<lparr>rl_seq = 8, rl_value = SampleText ''first''\<rparr>, \<lparr>rl_seq = 9, rl_value = SampleText ''second''\<rparr>]"
  have "bt_get (st_lists (ms_state sample_storage)) (ra_namespace ?a, ra_key ?a) = Some ?xs"
    by (simp add: sample_storage_sel sample_state_def raw_list_def)
  then show ?thesis
    using list_pages [OF sample_storage_sel(1,2,4), of ?a ?xs 1] by (simp add: LIST_READ_MAX_LIMIT_def)
qed

text \<open>
  A list read never returns more than 10000 elements, returns only elements of the stored
  list, and a limit of zero is refused.
\<close>

theorem list_read_bounded:
  "case memory_read_list m a options cx of
     Inl _ \<Rightarrow> ms_closed m \<or> cx_cancelled cx \<or> (\<exists>p. options = Some p \<and> lo_limit p = Some 0)
   | Inr xs \<Rightarrow> length xs \<le> 10000 \<and>
       set xs \<subseteq> set (unwrap_or (bt_get (st_lists (ms_state m)) (ra_namespace a, ra_key a)) [])"
proof (cases "memory_guard m cx")
  case (Inl e)
  then have "ms_closed m \<or> cx_cancelled cx"
    using memory_guard_Inr [of m cx "()"] by auto
  with Inl show ?thesis by (auto simp: memory_read_list_def rbind_def)
next
  case guard: (Inr u)
  show ?thesis
  proof (cases "resolve_list_read_options options")
    case (Inl e)
    then have "\<exists>p. options = Some p \<and> lo_limit p = Some 0"
      by (auto simp: resolve_list_read_options_def list_read_options_default_def LIST_READ_DEFAULT_LIMIT_def
          unwrap_or_def split: option.splits if_splits)
    with Inl guard show ?thesis by (simp add: memory_read_list_def rbind_def map_err_def del: memory_guard_Inr)
  next
    case (Inr r)
    then have "unat (ro_limit r) \<le> 10000"
      using resolve_limit_bounds by blast
    with Inr guard show ?thesis
      by (auto simp: memory_read_list_def rbind_def map_err_def list_window_def Let_def dest!: in_set_takeD
          simp del: memory_guard_Inr split: option.splits if_splits)
  qed
qed

section \<open>Forks\<close>

text \<open>
  C17. Forking is sound: whenever a fork snapshot can be built from a well-formed state, the
  destination session can be created from it, is well formed, continues after all copied
  sequence numbers, and holds exactly the copied entries and usage rows.
\<close>

theorem fork_sound:
  fixes s :: "('j, 'f::{plus,zero}) storage_state"
  assumes "storage_wf s" and "create_fork_snapshot sd (snapshot_for_fork s) options = Inr d"
  shows "\<exists>s'. from_fork_snapshot d = Inr s' \<and> storage_wf s' \<and> st_next_seq s' = fd_next_seq d \<and>
    (\<forall>i e. bt_get (st_entries s') i = Some e \<longleftrightarrow> e \<in> set (fd_entries d) \<and> entry_id e = i) \<and>
    (\<forall>i r. bt_get (st_usage s') i = Some r \<longleftrightarrow> r \<in> set (fd_usage d) \<and> ur_id r = i)"
  using assms by (rule fork_replay) blast

definition sample_snapshot :: "(sample_json, nat) fork_destination_snapshot" where
  "sample_snapshot =
     \<lparr>fd_entries = [sample_note ''e1'' None 1],
      fd_values = map snd [sample_value ''pi.branch.tip'' ''main'' (SampleTip (Some ''e1'')) 2,
        sample_value ''pi.lane.config'' ''main'' (SampleText ''model'') 3,
        sample_value ''pi.lane.state'' ''main'' (SampleLane lane_state_default) 4],
      fd_usage = [], fd_next_seq = 5\<rparr>"

lemmas fork_eval = create_fork_snapshot_def snapshot_for_fork_def validate_branch_name_def tip_values_def
  validate_source_snapshot_def check_lane_value_def check_tip_def value_for_def select_contents_def
  check_sequence_def tip_step_def copy_step_def copy_disposition_def push_value_def max_seq_def sample_serde_def nul_def

lemma sample_fork:
  "create_fork_snapshot sample_serde (snapshot_for_fork sample_state) (ForkBranch ''main'' (Some ''e1'') At new_id) =
     Inr sample_snapshot"
  by (simp add: fork_eval select_walk.simps result_eval storage_eval sample_defs sample_snapshot_def Let_def)

theorem fork_sound_witness:
  "\<exists>s'. from_fork_snapshot sample_snapshot = Inr s' \<and> storage_wf s' \<and> st_next_seq s' = 5 \<and>
     bt_get (st_entries s') ''e1'' = Some (sample_note ''e1'' None 1)"
  using fork_sound [OF sample_wf sample_fork [of None]]
  by (auto simp: sample_snapshot_def sample_note_def entry_id_def)

text \<open>
  C28. A branch fork keeps exactly the ancestry it is asked for: the destination holds, oldest
  first, the entries of the source branch from the requested entry (or from its parent, for a
  fork \<open>Before\<close> it) down to the root, the requested entry being on that branch, and no usage
  rows.
\<close>

theorem fork_branch_ancestry:
  assumes "storage_wf s"
    and "create_fork_snapshot sd (snapshot_for_fork s) (ForkBranch b entry position new_id) = Inr d"
  shows "fd_usage d = [] \<and>
    (\<exists>tips. tip_values sd (bt_values (st_values s)) = Inr tips \<and>
      (List.find (\<lambda>(name, _). name = b) tips = Some (b, None) \<and> fd_entries d = [] \<or>
       (\<exists>t path. List.find (\<lambda>(name, _). name = b) tips = Some (b, Some t) \<and> branch_path s t path \<and>
          unwrap_or entry t \<in> entry_id ` set path \<and> fd_entries d = rev (fork_cut position (unwrap_or entry t) path))))"
proof -
  have "fd_usage d = []"
    using assms(2) by (elim create_fork_snapshotE) (simp add: option_scope_def)
  with fork_entries_branch [OF assms] show ?thesis by metis
qed

theorem fork_branch_ancestry_witness:
  "\<exists>path. branch_path sample_state ''e2'' path \<and> ''e1'' \<in> entry_id ` set path \<and>
     fd_entries sample_snapshot = rev (fork_cut At ''e1'' path)"
  using fork_branch_ancestry [OF sample_wf sample_fork [of None]]
  by (auto simp: tip_values_def sample_serde_def result_eval storage_eval sample_defs sample_snapshot_def)

text \<open>
  A tree fork copies all entries and all usage rows verbatim, in the order of their sequence
  numbers.
\<close>

theorem fork_tree_verbatim:
  assumes "storage_wf s" and "create_fork_snapshot sd (snapshot_for_fork s) (ForkTree new_id) = Inr d"
  shows "mset (fd_entries d) = mset (bt_values (st_entries s)) \<and> sorted_wrt (\<le>) (map entry_seq (fd_entries d)) \<and>
    mset (fd_usage d) = mset (bt_values (st_usage s)) \<and> sorted_wrt (\<le>) (map ur_seq (fd_usage d))"
  using fork_entries_tree [OF assms] by simp

theorem fork_tree_verbatim_witness:
  "\<exists>d. create_fork_snapshot sample_serde (snapshot_for_fork sample_state) (ForkTree None) = Inr d \<and>
     mset (fd_usage d) = {#sample_usage#}"
proof -
  have "\<exists>d. create_fork_snapshot sample_serde (snapshot_for_fork sample_state) (ForkTree None) = Inr d"
    by (simp add: fork_eval result_eval storage_eval sample_defs Let_def)
  then obtain d where d: "create_fork_snapshot sample_serde (snapshot_for_fork sample_state) (ForkTree None) = Inr d"
    by blast
  with fork_tree_verbatim [OF sample_wf d] show ?thesis
    by (simp add: sample_state_def bt_values_def)
qed

text \<open>The branch tips among a list of stored values.\<close>

definition stored_tips :: "'j raw_stored_value list \<Rightarrow> (string \<times> 'j) list" where
  "stored_tips vs = map (\<lambda>v. (rv_key v, rv_value v)) (filter (\<lambda>v. rv_namespace v = ''pi.branch.tip'') vs)"

lemma stored_tips_push:
  "push_value vn ns k j = Inr vn' \<Longrightarrow>
   stored_tips (fst vn') = stored_tips (fst vn) @ (if ns = ''pi.branch.tip'' then [(k, j)] else [])"
  by (cases vn) (auto simp: push_value_Inr_iff stored_tips_def)

lemma stored_tips_tip_step:
  assumes "tip_step sd src vn (b, tip) = Inr vn'"
  shows "\<exists>j. sd_tip_to_value sd tip = Inr j \<and> stored_tips (fst vn') = stored_tips (fst vn) @ [(b, j)]"
  using assms
  by (auto simp: tip_step_def rbind_eq_Inr_iff map_err_def dest!: stored_tips_push split: option.splits sum.splits)

lemma stored_tips_copy_step:
  assumes "copy_step scope sel vn v = Inr vn'"
  shows "stored_tips (fst vn') = stored_tips (fst vn)"
proof -
  have "copy_disposition ''pi.branch.tip'' k scope sel = Inr False" for k
    by (simp add: copy_disposition_def)
  with assms show ?thesis
    by (auto simp: copy_step_def rbind_eq_Inr_iff dest!: stored_tips_push split: if_splits)
qed

lemma stored_tips_fold:
  assumes "try_fold (tip_step sd src) vn dtips = Inr vn'"
  shows "\<exists>js. stored_tips (fst vn') = stored_tips (fst vn) @ js \<and>
    list_all2 (\<lambda>(b, tip) (b', j). b' = b \<and> sd_tip_to_value sd tip = Inr j) dtips js"
  using assms
proof (induction dtips arbitrary: vn)
  case Nil
  then show ?case by simp
next
  case (Cons bt dtips)
  obtain b tip where bt: "bt = (b, tip)" by (cases bt)
  from Cons.prems obtain vn1 where vn1: "tip_step sd src vn (b, tip) = Inr vn1" "try_fold (tip_step sd src) vn1 dtips = Inr vn'"
    by (auto simp: rbind_eq_Inr_iff bt)
  obtain j where "sd_tip_to_value sd tip = Inr j" "stored_tips (fst vn1) = stored_tips (fst vn) @ [(b, j)]"
    using stored_tips_tip_step [OF vn1(1)] by blast
  with Cons.IH [OF vn1(2)] show ?case
    by (force simp: bt)
qed

lemma fork_tips:
  assumes "create_fork_snapshot sd src options = Inr d"
  obtains ses tips sel dtips where "collect_source_entries {} (fs_entries src) = Inr ses"
    "tip_values sd (fs_values src) = Inr tips" "select_contents ses tips options = Inr (sel, dtips)"
    "list_all2 (\<lambda>(b, tip) (b', j). b' = b \<and> sd_tip_to_value sd tip = Inr j) dtips (stored_tips (fd_values d))"
    "fd_entries d = sort_key entry_seq (filter (\<lambda>e. entry_id e \<in> sel) (fs_entries src))"
proof -
  from assms obtain ses tips sel dtips n0 vn where
    c: "collect_source_entries {} (fs_entries src) = Inr ses" "tip_values sd (fs_values src) = Inr tips"
      "select_contents ses tips options = Inr (sel, dtips)" and
    e: "fd_entries d = sort_key entry_seq (filter (\<lambda>e. entry_id e \<in> sel) (fs_entries src))" and
    t: "try_fold (tip_step sd (fs_values src)) ([], n0) dtips = Inr vn" and
    v: "try_fold (copy_step (option_scope options) sel) vn (fs_values src) = Inr (fd_values d, fd_next_seq d)"
    by (rule create_fork_snapshotE)
  have "stored_tips (fst (fd_values d, fd_next_seq d)) = stored_tips (fst vn)"
    using v by (rule try_fold_invariant) (auto dest: stored_tips_copy_step)
  moreover obtain js where "stored_tips (fst vn) = js"
    "list_all2 (\<lambda>(b, tip) (b', j). b' = b \<and> sd_tip_to_value sd tip = Inr j) dtips js"
    using stored_tips_fold [OF t] by (auto simp: stored_tips_def)
  ultimately show thesis
    using that c e by auto
qed

text \<open>
  The tip of a forked branch is the newest entry that was copied: the destination session
  has the forked branch and no other, and its stored tip is the encoding of that entry's id, or
  of an empty branch when nothing was copied.
\<close>

theorem fork_branch_tip:
  assumes "storage_wf s"
    and "create_fork_snapshot sd (snapshot_for_fork s) (ForkBranch b entry position new_id) = Inr d"
  shows "\<exists>j. stored_tips (fd_values d) = [(b, j)] \<and> sd_tip_to_value sd (path_tip (rev (fd_entries d))) = Inr j"
proof -
  from assms(2) obtain tips sel dtips where
    sel: "select_contents (map (\<lambda>e. (entry_id e, e)) (fs_entries (snapshot_for_fork s))) tips (ForkBranch b entry position new_id) = Inr (sel, dtips)" and
    all: "list_all2 (\<lambda>(b, tip) (b', j). b' = b \<and> sd_tip_to_value sd tip = Inr j) dtips (stored_tips (fd_values d))" and
    e: "fd_entries d = sort_key entry_seq (filter (\<lambda>e. entry_id e \<in> sel) (bt_values (st_entries s)))"
    using collect_snapshot [OF assms(1)]
    by (elim fork_tips) (auto simp: filter_sort sort_key_idem)
  from assms(1) sel have "dtips = [(b, path_tip (rev (fd_entries d)))]"
  proof (cases rule: select_contents_branch)
    case 1
    then show ?thesis by (simp add: e path_tip_def)
  next
    case (2 t path r)
    then have "fd_entries d = rev (fork_cut position r path)"
      using sort_filter_path [OF assms(1) 2(3) fork_cut_suffix] by (simp add: e)
    with 2 show ?thesis by simp
  qed
  with all show ?thesis
    by (auto simp: list_all2_Cons1)
qed

theorem fork_branch_tip_witness:
  "stored_tips (fd_values sample_snapshot) = [(''main'', SampleTip (Some ''e1''))]"
  using fork_branch_tip [OF sample_wf sample_fork [of None]]
  by (auto simp: sample_snapshot_def path_tip_def sample_serde_def sample_note_def entry_id_def)

text \<open>
  The values of a fork get fresh consecutive sequence numbers above those of all copied
  entries and usage rows, up to the destination's \<open>next_seq\<close>; none of them lives in a transient
  namespace (operation state, pending data, operation results).
\<close>

theorem fork_values_fresh:
  assumes "create_fork_snapshot sd src options = Inr d"
  shows "\<exists>n0. map (unat \<circ> rv_seq) (fd_values d) = [unat n0 ..< unat (fd_next_seq d)] \<and>
    list_all (\<lambda>e. entry_seq e < n0) (fd_entries d) \<and> list_all (\<lambda>u. ur_seq u < n0) (fd_usage d) \<and>
    list_all (\<lambda>v. \<not> transient_namespace (rv_namespace v)) (fd_values d)"
  using fork_values [OF assms] by (auto simp: numbered_def durable_only_def list_all_iff)

theorem fork_values_fresh_witness:
  "\<exists>n0. map (unat \<circ> rv_seq) (fd_values sample_snapshot) = [unat n0 ..< 5] \<and> (1::u64) < n0"
  using fork_values_fresh [OF sample_fork [of None]]
  by (auto simp: sample_snapshot_def sample_note_def entry_seq_def)

lemma try_fold_each:
  assumes "try_fold f s xs = Inr s'" and "x \<in> set xs"
  shows "\<exists>t t'. f t x = Inr t'"
  using assms by (induction xs arbitrary: s) (auto simp: rbind_eq_Inr_iff)

text \<open>
  A fork fails when the source holds a value in a reserved namespace the fork code does not
  know: every value of a successfully forked source is in a known namespace or outside the
  reserved ones.
\<close>

theorem fork_rejects_unknown_reserved:
  assumes "rv_namespace v = ''pi'' \<or> prefix ''pi.'' (rv_namespace v)" and "\<not> known_namespace (rv_namespace v)"
    and "v \<in> set (fs_values src)"
  shows "\<exists>e. create_fork_snapshot sd src options = Inl e"
proof (cases "create_fork_snapshot sd src options")
  case (Inr d)
  then obtain sel vn where "try_fold (copy_step (option_scope options) sel) vn (fs_values src) = Inr (fd_values d, fd_next_seq d)"
    by (rule create_fork_snapshotE)
  then obtain t t' where "copy_step (option_scope options) sel t v = Inr t'"
    using try_fold_each assms(3) by metis
  then have "\<exists>b. copy_disposition (rv_namespace v) (rv_key v) (option_scope options) sel = Inr b"
    by (auto simp: copy_step_def rbind_eq_Inr_iff)
  with assms(2) show ?thesis
    by (simp add: copy_disposition_known)
qed simp

theorem fork_rejects_unknown_reserved_witness:
  "\<exists>e. create_fork_snapshot sample_serde
     \<lparr>fs_entries = [], fs_values = [snd (sample_value ''pi.future'' ''k'' (SampleText ''x'') 1)], fs_usage = [],
      fs_entries_complete = True\<rparr> (ForkTree None) = (Inl e :: session_error + (sample_json, nat) fork_destination_snapshot)"
  by (rule fork_rejects_unknown_reserved [of "snd (sample_value ''pi.future'' ''k'' (SampleText ''x'') 1)"])
    (simp_all add: sample_value_def known_namespace_def transient_namespace_def)

section \<open>The end of the sequence numbers\<close>

text \<open>A state whose next sequence number is the last one a 64-bit counter has.\<close>

definition full_state :: "(sample_json, nat) storage_state" where
  "full_state = storage_new\<lparr>st_next_seq := - 1\<rparr>"

text \<open>
  At the end of the 64-bit range sequence numbers are not fresh: after a commit that uses the
  last number, \<open>next_seq\<close> stays there, the next commit is accepted as well and its write gets
  the same sequence number.
\<close>

theorem last_sequence_reused:
  "\<exists>s1 r1 s2 r2. apply_batch full_state [sample_entry ''e1'' None] 7 = Inr (s1, r1) \<and>
     apply_batch s1 [sample_entry ''e2'' None] 8 = Inr (s2, r2) \<and>
     cr_seqs r1 = [- 1] \<and> cr_seqs r2 = cr_seqs r1 \<and> bt_get (st_entries_by_seq s2) (- 1) = Some ''e2'' \<and>
     bt_get (st_entries s2) ''e1'' \<noteq> None"
proof -
  let ?s1 = "full_state\<lparr>st_entries := [(''e1'', sample_note ''e1'' None (- 1))], st_entries_by_seq := [(- 1, ''e1'')]\<rparr>"
  have c1: "apply_batch full_state [sample_entry ''e1'' None] 7 =
      Inr (?s1, \<lparr>cr_first_seq = - 1, cr_seqs = [- 1], cr_timestamp = 7, cr_stats = st_stats ?s1\<rparr>)"
    by (simp add: full_state_def result_eval storage_eval sample_entry_def sample_note_def Let_def unat_minus_1)
  have c2: "\<exists>s2 r2. apply_batch ?s1 [sample_entry ''e2'' None] 8 = Inr (s2, r2) \<and> cr_seqs r2 = [- 1] \<and>
      bt_get (st_entries_by_seq s2) (- 1) = Some ''e2'' \<and> bt_get (st_entries s2) ''e1'' \<noteq> None"
    by (simp add: full_state_def result_eval storage_eval sample_entry_def sample_note_def Let_def unat_minus_1)
  from c1 c2 show ?thesis by fastforce
qed

end
