(* ===== verification/Session_Lifecycle.thy ===== *)
theory Session_Lifecycle
  imports Session_Types
begin

text \<open>
  Interleavings of mutations and close (\<open>begin_mutation\<close>, \<open>StorageBackedMutation::commit\<close>,
  \<open>Session::close\<close> and \<open>CloseState::start\<close> of \<open>session/backed.rs\<close>) as a step relation. Any number
  of tasks may ask for a mutation while close is called, possibly several times. A task checks
  the closed flag, waits for the mutation lock, checks again once it owns the lock, and then
  commits through a spawned task that keeps the lock until the backend has answered. Close sets
  the flag, and its task, spawned once, takes the same lock before it closes the backend. Each
  rule is one atomic action. A cancelled context may end a task at each of the code's checks;
  cancellation comes from outside, so these rules have no guard on it.
\<close>

section \<open>States\<close>

text \<open>\<open>Answered ok\<close>: the backend has answered a commit and the guard is still held;
  \<open>Finished ok\<close>: the guard is dropped and the result is returned.\<close>

datatype phase = Idle | Queued | Acquired | Held | Committing | Answered bool | Finished bool | Dropped | Rejected

datatype owner = Task nat | Closer

datatype close_phase = NotStarted | Waiting | Closing | BackendClosed | Unlocked | CalledBack | ClosePublished

record life =
  lf_closed :: bool
  lf_lock :: "owner option"
  lf_phase :: "nat \<Rightarrow> phase"
  lf_close :: close_phase
  lf_backend_closed :: bool
  lf_callbacks :: nat

definition life_init :: life where
  "life_init = \<lparr>lf_closed = False, lf_lock = None, lf_phase = (\<lambda>_. Idle), lf_close = NotStarted,
     lf_backend_closed = False, lf_callbacks = 0\<rparr>"

definition set_phase :: "life \<Rightarrow> nat \<Rightarrow> phase \<Rightarrow> life" where
  "set_phase s t p = s\<lparr>lf_phase := (lf_phase s)(t := p)\<rparr>"

section \<open>Steps\<close>

text \<open>A mutation: \<open>begin_mutation\<close> (\<open>enter\<close> to \<open>grant\<close>) and \<open>commit\<close>.\<close>

inductive mutation_step :: "life \<Rightarrow> life \<Rightarrow> bool" where
  enter: "lf_phase s t = Idle \<Longrightarrow> \<not> lf_closed s \<Longrightarrow> mutation_step s (set_phase s t Queued)"
| refuse: "lf_phase s t = Idle \<Longrightarrow> lf_closed s \<Longrightarrow> mutation_step s (set_phase s t Rejected)"
| abort_enter: "lf_phase s t = Idle \<Longrightarrow> mutation_step s (set_phase s t Rejected)"
| acquire: "lf_phase s t = Queued \<Longrightarrow> lf_lock s = None \<Longrightarrow>
    mutation_step s (set_phase (s\<lparr>lf_lock := Some (Task t)\<rparr>) t Acquired)"
| grant: "lf_phase s t = Acquired \<Longrightarrow> \<not> lf_closed s \<Longrightarrow> mutation_step s (set_phase s t Held)"
| sealed_waiter: "lf_phase s t = Acquired \<Longrightarrow> lf_closed s \<Longrightarrow>
    mutation_step s (set_phase (s\<lparr>lf_lock := None\<rparr>) t Rejected)"
| abort_waiter: "lf_phase s t = Acquired \<Longrightarrow> mutation_step s (set_phase (s\<lparr>lf_lock := None\<rparr>) t Rejected)"
| drop_guard: "lf_phase s t = Held \<Longrightarrow> mutation_step s (set_phase (s\<lparr>lf_lock := None\<rparr>) t Dropped)"
| start_commit: "lf_phase s t = Held \<Longrightarrow> mutation_step s (set_phase s t Committing)"
| backend_answer: "lf_phase s t = Committing \<Longrightarrow>
    mutation_step s (set_phase s t (Answered (\<not> lf_backend_closed s)))"
| finish_commit: "lf_phase s t = Answered ok \<Longrightarrow>
    mutation_step s (set_phase (s\<lparr>lf_lock := None\<rparr>) t (Finished ok))"

text \<open>Close: the flag, the task spawned once, the backend, the callback, the published result.\<close>

inductive close_step :: "life \<Rightarrow> life \<Rightarrow> bool" where
  seal: "close_step s (s\<lparr>lf_closed := True\<rparr>)"
| spawn: "lf_closed s \<Longrightarrow> lf_close s = NotStarted \<Longrightarrow> close_step s (s\<lparr>lf_close := Waiting\<rparr>)"
| close_lock: "lf_close s = Waiting \<Longrightarrow> lf_lock s = None \<Longrightarrow>
    close_step s (s\<lparr>lf_lock := Some Closer, lf_close := Closing\<rparr>)"
| close_backend: "lf_close s = Closing \<Longrightarrow> close_step s (s\<lparr>lf_backend_closed := True, lf_close := BackendClosed\<rparr>)"
| close_unlock: "lf_close s = BackendClosed \<Longrightarrow> close_step s (s\<lparr>lf_lock := None, lf_close := Unlocked\<rparr>)"
| close_callback: "lf_close s = Unlocked \<Longrightarrow>
    close_step s (s\<lparr>lf_callbacks := lf_callbacks s + 1, lf_close := CalledBack\<rparr>)"
| close_publish: "lf_close s = CalledBack \<Longrightarrow> close_step s (s\<lparr>lf_close := ClosePublished\<rparr>)"

definition life_step :: "life \<Rightarrow> life \<Rightarrow> bool" where
  "life_step s s' \<longleftrightarrow> mutation_step s s' \<or> close_step s s'"

inductive life_reachable :: "life \<Rightarrow> bool" where
  init: "life_reachable life_init"
| step: "life_reachable s \<Longrightarrow> life_step s s' \<Longrightarrow> life_reachable s'"

inductive_cases mutation_stepE: "mutation_step s s'"
inductive_cases close_stepE: "close_step s s'"

lemma set_phase_sel [simp]:
  "lf_closed (set_phase s t p) = lf_closed s" "lf_lock (set_phase s t p) = lf_lock s"
  "lf_phase (set_phase s t p) = (lf_phase s)(t := p)" "lf_close (set_phase s t p) = lf_close s"
  "lf_backend_closed (set_phase s t p) = lf_backend_closed s" "lf_callbacks (set_phase s t p) = lf_callbacks s"
  by (simp_all add: set_phase_def)

section \<open>Invariant\<close>

text \<open>\<open>admitted\<close>: the mutation passed the second check and may commit.\<close>

definition running :: "phase \<Rightarrow> bool" where
  "running p \<longleftrightarrow> p = Held \<or> p = Committing \<or> (\<exists>ok. p = Answered ok)"

definition owning :: "phase \<Rightarrow> bool" where
  "owning p \<longleftrightarrow> p = Acquired \<or> running p"

definition owns :: "life \<Rightarrow> nat \<Rightarrow> bool" where
  "owns s t \<longleftrightarrow> owning (lf_phase s t)"

definition admitted :: "life \<Rightarrow> nat \<Rightarrow> bool" where
  "admitted s t \<longleftrightarrow> running (lf_phase s t) \<or> (\<exists>ok. lf_phase s t = Finished ok)"

definition backend_down :: "close_phase \<Rightarrow> bool" where
  "backend_down c \<longleftrightarrow> c \<in> {BackendClosed, Unlocked, CalledBack, ClosePublished}"

definition lock_ok :: "life \<Rightarrow> bool" where
  "lock_ok s \<longleftrightarrow>
     (\<forall>t. owns s t \<longleftrightarrow> lf_lock s = Some (Task t)) \<and>
     (lf_lock s = Some Closer \<longleftrightarrow> lf_close s \<in> {Closing, BackendClosed})"

definition close_ok :: "life \<Rightarrow> bool" where
  "close_ok s \<longleftrightarrow>
     (lf_backend_closed s \<longleftrightarrow> backend_down (lf_close s)) \<and>
     (lf_close s \<noteq> NotStarted \<longrightarrow> lf_closed s) \<and>
     lf_callbacks s = (if lf_close s \<in> {CalledBack, ClosePublished} then 1 else 0)"

definition commits_ok :: "life \<Rightarrow> bool" where
  "commits_ok s \<longleftrightarrow>
     (lf_backend_closed s \<longrightarrow> (\<forall>t. \<not> running (lf_phase s t))) \<and>
     (\<forall>t. lf_phase s t \<noteq> Answered False \<and> lf_phase s t \<noteq> Finished False)"

definition life_inv :: "life \<Rightarrow> bool" where
  "life_inv s \<longleftrightarrow> lock_ok s \<and> close_ok s \<and> commits_ok s"

lemmas life_defs = lock_ok_def close_ok_def commits_ok_def owns_def owning_def running_def backend_down_def

lemma running_simps [simp]:
  "\<not> running Idle" "\<not> running Queued" "\<not> running Acquired" "running Held" "running Committing"
  "running (Answered ok)" "\<not> running (Finished ok)" "\<not> running Dropped" "\<not> running Rejected"
  by (simp_all add: running_def)

lemma owning_simps [simp]:
  "\<not> owning Idle" "\<not> owning Queued" "owning Acquired" "owning Held" "owning Committing"
  "owning (Answered ok)" "\<not> owning (Finished ok)" "\<not> owning Dropped" "\<not> owning Rejected"
  by (simp_all add: owning_def)

lemma life_inv_init: "life_inv life_init"
  by (simp add: life_inv_def life_defs life_init_def)

text \<open>A task's next phase keeps, takes or releases the lock as the phase says.\<close>

lemma lock_ok_keep:
  "lock_ok s \<Longrightarrow> owning p = owning (lf_phase s t) \<Longrightarrow> lock_ok (set_phase s t p)"
  by (auto simp: lock_ok_def owns_def)

lemma lock_ok_take:
  "lock_ok s \<Longrightarrow> lf_lock s = None \<Longrightarrow> owning p \<Longrightarrow> lock_ok (set_phase (s\<lparr>lf_lock := Some (Task t)\<rparr>) t p)"
  by (auto simp: lock_ok_def owns_def)

lemma lock_ok_release:
  assumes "lock_ok s" and "owning (lf_phase s t)" and "\<not> owning p"
  shows "lock_ok (set_phase (s\<lparr>lf_lock := None\<rparr>) t p)"
proof -
  have "lf_lock s = Some (Task t)"
    using assms(1,2) by (simp add: lock_ok_def owns_def)
  then have "\<not> owning (lf_phase s u)" if "u \<noteq> t" for u
    using assms(1) that by (simp add: lock_ok_def owns_def)
  moreover have "lf_close s \<notin> {Closing, BackendClosed}"
    using assms(1) \<open>lf_lock s = _\<close> by (simp add: lock_ok_def)
  ultimately show ?thesis
    using assms(3) by (simp add: lock_ok_def owns_def)
qed

lemmas lock_ok_moves = lock_ok_keep lock_ok_take lock_ok_release

lemma lock_ok_mutation: "mutation_step s s' \<Longrightarrow> lock_ok s \<Longrightarrow> lock_ok s'"
  by (erule mutation_stepE) (simp_all add: lock_ok_moves)

lemma lock_ok_close: "close_step s s' \<Longrightarrow> lock_ok s \<Longrightarrow> lock_ok s'"
  by (cases rule: close_step.cases) (auto simp: lock_ok_def owns_def)

lemma close_ok_mutation: "mutation_step s s' \<Longrightarrow> close_ok s \<Longrightarrow> close_ok s'"
  by (erule mutation_stepE) (simp_all add: close_ok_def)

lemma close_ok_close: "close_step s s' \<Longrightarrow> close_ok s \<Longrightarrow> close_ok s'"
  by (erule close_stepE) (simp_all add: close_ok_def backend_down_def)

lemma commits_ok_set:
  "commits_ok s \<Longrightarrow> (running p \<longrightarrow> \<not> lf_backend_closed s) \<Longrightarrow> p \<noteq> Answered False \<Longrightarrow> p \<noteq> Finished False \<Longrightarrow>
     commits_ok (set_phase s t p) \<and> commits_ok (set_phase (s\<lparr>lf_lock := l\<rparr>) t p)"
  by (auto simp: commits_ok_def)

lemma commits_ok_phase:
  "commits_ok s \<Longrightarrow> running (lf_phase s t) \<Longrightarrow> \<not> lf_backend_closed s"
  "commits_ok s \<Longrightarrow> lf_phase s t = Answered ok \<Longrightarrow> ok"
  unfolding commits_ok_def by blast (metis (full_types))

lemma commits_ok_mutation:
  assumes "mutation_step s s'" and "close_ok s" and "commits_ok s"
  shows "commits_ok s'"
proof -
  have closed: "\<not> lf_closed s \<Longrightarrow> \<not> lf_backend_closed s"
    using assms(2) by (auto simp: close_ok_def backend_down_def)
  note set = commits_ok_set [OF assms(3)]
  from assms(1) show ?thesis
  proof cases
    case (grant t)
    with set [of Held] closed show ?thesis by simp
  next
    case (start_commit t)
    with set [of Committing] commits_ok_phase(1) [OF assms(3), of t] show ?thesis by simp
  next
    case (backend_answer t)
    with set [of "Answered True"] commits_ok_phase(1) [OF assms(3), of t] show ?thesis by simp
  next
    case (finish_commit t ok)
    with set [of "Finished True"] commits_ok_phase(2) [OF assms(3), of t] show ?thesis by simp
  qed (simp_all add: set)
qed

lemma commits_ok_close: "close_step s s' \<Longrightarrow> lock_ok s \<Longrightarrow> commits_ok s \<Longrightarrow> commits_ok s'"
  by (cases rule: close_step.cases) (auto simp: lock_ok_def owns_def owning_def commits_ok_def)

lemma life_inv_step: "life_step s s' \<Longrightarrow> life_inv s \<Longrightarrow> life_inv s'"
  unfolding life_step_def life_inv_def
  by (blast intro: lock_ok_mutation lock_ok_close close_ok_mutation close_ok_close commits_ok_mutation commits_ok_close)

lemma life_inv_reachable: "life_reachable s \<Longrightarrow> life_inv s"
  by (induction rule: life_reachable.induct) (auto intro: life_inv_init life_inv_step)

section \<open>Sealing\<close>

text \<open>Once sealed, a task that has not passed the second check never does.\<close>

lemma sealed_step:
  assumes "life_step s s'" and "lf_closed s" and "\<not> admitted s t"
  shows "lf_closed s' \<and> \<not> admitted s' t"
  using assms(1) unfolding life_step_def
proof
  assume "mutation_step s s'"
  then show ?thesis
    using assms(2,3) by cases (auto simp: admitted_def split: if_splits)
next
  assume "close_step s s'"
  then show ?thesis
    using assms(2,3) by cases (auto simp: admitted_def)
qed

lemma sealed_never_admitted:
  assumes "life_step\<^sup>*\<^sup>* s s'" and "lf_closed s" and "\<not> admitted s t"
  shows "\<not> admitted s' t"
proof -
  have "lf_closed s' \<and> \<not> admitted s' t"
    using assms by (induction rule: rtranclp_induct) (auto dest: sealed_step)
  then show ?thesis by blast
qed

section \<open>Close can always finish\<close>

lemma life_stepI: "mutation_step s s' \<Longrightarrow> life_step s s'" "close_step s s' \<Longrightarrow> life_step s s'"
  by (simp_all add: life_step_def)

text \<open>The owner of the lock can release it, whatever phase it is in.\<close>

lemma owner_releases:
  assumes "lock_ok s" and "lf_lock s = Some (Task t)"
  shows "\<exists>s'. life_step\<^sup>*\<^sup>* s s' \<and> lf_lock s' = None \<and> lf_close s' = lf_close s"
proof -
  have finish: "\<exists>s'. life_step\<^sup>*\<^sup>* s s' \<and> lf_lock s' = None \<and> lf_close s' = lf_close s"
    if "lf_phase s t = Answered ok" for s :: life and ok
    using life_stepI(1) [OF finish_commit [of s t ok, OF that]]
    by (intro exI [of _ "set_phase (s\<lparr>lf_lock := None\<rparr>) t (Finished ok)"]) auto
  consider "lf_phase s t = Acquired" | "lf_phase s t = Held" | "lf_phase s t = Committing"
    | ok where "lf_phase s t = Answered ok"
    using assms by (auto simp: lock_ok_def owns_def owning_def running_def)
  then show ?thesis
  proof cases
    case 1
    then show ?thesis
      using life_stepI(1) [OF abort_waiter [OF 1]]
      by (intro exI [of _ "set_phase (s\<lparr>lf_lock := None\<rparr>) t Rejected"]) auto
  next
    case 2
    then show ?thesis
      using life_stepI(1) [OF drop_guard [OF 2]]
      by (intro exI [of _ "set_phase (s\<lparr>lf_lock := None\<rparr>) t Dropped"]) auto
  next
    case 3
    let ?s1 = "set_phase s t (Answered (\<not> lf_backend_closed s))"
    obtain s2 where "life_step\<^sup>*\<^sup>* ?s1 s2" "lf_lock s2 = None" "lf_close s2 = lf_close ?s1"
      using finish [of ?s1] by auto
    with life_stepI(1) [OF backend_answer [OF 3]] show ?thesis
      by (auto intro: converse_rtranclp_into_rtranclp)
  next
    case 4
    then show ?thesis by (rule finish)
  qed
qed

text \<open>With the lock free, the close task runs to its end.\<close>

lemma close_runs:
  assumes "lf_close s = Waiting" and "lf_lock s = None"
  shows "\<exists>s'. life_step\<^sup>*\<^sup>* s s' \<and> lf_close s' = ClosePublished"
proof -
  let ?s1 = "s\<lparr>lf_lock := Some Closer, lf_close := Closing\<rparr>"
  let ?s2 = "?s1\<lparr>lf_backend_closed := True, lf_close := BackendClosed\<rparr>"
  let ?s3 = "?s2\<lparr>lf_lock := None, lf_close := Unlocked\<rparr>"
  let ?s4 = "?s3\<lparr>lf_callbacks := lf_callbacks ?s3 + 1, lf_close := CalledBack\<rparr>"
  let ?s5 = "?s4\<lparr>lf_close := ClosePublished\<rparr>"
  have steps: "life_step s ?s1"
    using assms by (intro life_stepI(2) close_lock)
  moreover have "life_step ?s1 ?s2"
    by (intro life_stepI(2) close_backend) simp
  moreover have "life_step ?s2 ?s3"
    by (intro life_stepI(2) close_unlock) simp
  moreover have "life_step ?s3 ?s4"
    by (intro life_stepI(2) close_callback) simp
  moreover have "life_step ?s4 ?s5"
    by (intro life_stepI(2) close_publish) simp
  ultimately have "life_step\<^sup>*\<^sup>* s ?s5"
    by (blast intro: converse_rtranclp_into_rtranclp)
  then show ?thesis
    by (intro exI [of _ ?s5]) simp
qed

lemma close_can_finish:
  assumes "life_inv s" and "lf_close s = Waiting"
  shows "\<exists>s'. life_step\<^sup>*\<^sup>* s s' \<and> lf_close s' = ClosePublished"
proof (cases "lf_lock s")
  case None
  with assms(2) show ?thesis by (intro close_runs)
next
  case (Some x)
  with assms obtain t where "lf_lock s = Some (Task t)"
    by (cases x) (auto simp: life_inv_def lock_ok_def)
  with assms obtain s1 where "life_step\<^sup>*\<^sup>* s s1" "lf_lock s1 = None" "lf_close s1 = Waiting"
    using owner_releases [of s t] by (auto simp: life_inv_def)
  with close_runs [of s1] show ?thesis
    by (meson rtranclp_trans)
qed

end
