(* ===== verification/Session_Properties.thy ===== *)
theory Session_Properties
  imports Storage_Properties Session_Lifecycle
begin

text \<open>
  The properties of sessions on the in-memory backend, of the repository that holds them, of the
  interleaving of mutations with close, and of the id generator. The session properties are
  instances of the lemmas of the locale \<open>storage_contract\<close> at its interpretation \<open>mem\<close>.
\<close>

section \<open>Sample sessions\<close>

definition sample_metadata :: session_metadata where
  "sample_metadata = \<lparr>md_id = ''s1'', md_created_at = 7, md_storage_version = STORAGE_VERSION, md_cwd = None,
     md_parent_session_id = None, md_legacy_parent_session_path = None\<rparr>"

definition sample_session :: "((sample_json, nat) memory_storage, generator_state) backed_session" where
  "sample_session = session_new sample_metadata (memory_attach sample_state) generator_default True"

abbreviation sample_append ::
  "((((sample_json, nat) memory_storage, generator_state) backed_session, entry_id) op)" where
  "sample_append \<equiv>
     append_to_branch (memory_ops (Inr 9)) (next_string sample_env) sample_serde ''main'' (BodyCustom ''note'' None) sample_cx"

lemma sample_session_sel:
  "\<not> bk_closed sample_session" "mem_live (bk_storage sample_session)"
  "bk_generator sample_session = generator_default" "ms_state (bk_storage sample_session) = sample_state"
  "bk_close_result sample_session = None" "bk_hook sample_session"
  by (simp_all add: sample_session_def session_new_def mem_live_def memory_attach_def)

lemma sample_cx_live: "\<not> cx_cancelled sample_cx"
  by (simp add: sample_cx_def)

lemma sample_generates: "next_string sample_env generator_default None =
    (Inr ''5'', \<lparr>gs_last_ordinary_timestamp = Some 1000, gs_sequence = Some 5\<rparr>)"
  by (simp add: next_string_def requested_timestamp_def validate_timestamp_def ordinary_timestamp_def next_sequence_def
      sample_env_def generator_default_def rbind_def MAX_UUID_V7_TIMESTAMP_def RANDOM_SEQUENCE_MASK_def show_word_def
      digit_char_def show_nat.simps [of 5] char_of_53 Let_def)

lemma sample_tip: "mem_val (bk_storage sample_session) (tip_slot ''main'') = Some (SampleTip (Some ''e2''))"
  by (simp add: mem_val_def sample_session_sel tip_slot_def sample_state_def sample_value_def)

text \<open>The sample session is ready for an append to its branch.\<close>

lemma sample_ready:
  "\<not> cv_contains_id (storage_view (ms_state (bk_storage sample_session))) ''5''"
  "sd_tip_from_value sample_serde (SampleTip (Some ''e2'')) = Inr (Some ''e2'')"
  "Some ''e2'' = Some t \<Longrightarrow> mem_ent (bk_storage sample_session) t \<noteq> None"
  "unat (st_next_seq (ms_state (bk_storage sample_session))) + 2 \<le> 2 ^ 64"
  "next_string sample_env (bk_generator sample_session) None =
     (Inr ''5'', \<lparr>gs_last_ordinary_timestamp = Some 1000, gs_sequence = Some 5\<rparr>)"
  by (auto simp: sample_session_sel sample_state_def sample_serde_def mem_ent_def sample_generates)

lemmas sample_append_rules = sample_session_sel sample_cx_live sample_tip sample_ready sample_serde_ok

lemma sample_appended: "\<exists>s'. sample_append sample_session = (Inr ''5'', s')"
  by (rule mem.append_progress [where tip = "Some ''e2''" and j = "SampleTip (Some ''e2'')"])
    (rule sample_append_rules | simp | use sample_ready(4) in simp)+

section \<open>Sessions\<close>

text \<open>
  C21. An append that returns has moved exactly one tip: the new entry is stored under the
  returned fresh id with the former tip as its parent, the branch's tip slot now holds that id,
  and no other value and no other entry has changed.
\<close>

theorem append_moves_one_tip:
  assumes "append_to_branch (memory_ops (Inr ts)) gen sd name body cx s = (Inr i, s')"
  shows "\<exists>j tip j'. mem_val (bk_storage s) (tip_slot name) = Some j \<and> sd_tip_from_value sd j = Inr tip \<and>
    sd_tip_to_value sd (Some i) = Inr j' \<and> mem_ent (bk_storage s) i = None \<and>
    mem_val (bk_storage s') = (mem_val (bk_storage s))(tip_slot name \<mapsto> j') \<and>
    mem_ent (bk_storage s') = (mem_ent (bk_storage s))(i \<mapsto> (tip, body))"
  using assms by (rule mem.append_effect) blast

theorem append_moves_one_tip_witness:
  "\<exists>s'. sample_append sample_session = (Inr ''5'', s') \<and>
     mem_val (bk_storage s') (tip_slot ''main'') = Some (SampleTip (Some ''5'')) \<and>
     mem_ent (bk_storage s') ''5'' = Some (Some ''e2'', BodyCustom ''note'' None)"
proof -
  obtain s' where s': "sample_append sample_session = (Inr ''5'', s')"
    using sample_appended by blast
  with append_moves_one_tip [OF s'] show ?thesis
    by (auto simp: sample_tip sample_serde_def)
qed

text \<open>
  An append to an existing branch of an open session succeeds with the generated id, when
  the id is fresh, the message is settled, the stored tip decodes to nothing or to a stored
  entry, and two sequence numbers are left.
\<close>

theorem append_succeeds:
  assumes "\<not> bk_closed s" and "\<not> cx_cancelled cx" and "\<not> ms_closed (bk_storage s)" and "\<not> pending_assistant body"
    and "gen (bk_generator s) None = (Inr i, g)" and "\<not> cv_contains_id (storage_view (ms_state (bk_storage s))) i"
    and "mem_val (bk_storage s) (tip_slot name) = Some j" and "sd_tip_from_value sd j = Inr tip"
    and "\<And>t. tip = Some t \<Longrightarrow> mem_ent (bk_storage s) t \<noteq> None" and "serde_tip_ok sd"
    and "unat (st_next_seq (ms_state (bk_storage s))) + 2 \<le> 2 ^ 64"
  shows "\<exists>s'. append_to_branch (memory_ops (Inr ts)) gen sd name body cx s = (Inr i, s')"
  by (rule mem.append_progress [where tip = tip and j = j and g = g]) (use assms in \<open>auto simp: mem_live_def\<close>)

theorem append_succeeds_witness: "\<exists>s'. sample_append sample_session = (Inr ''5'', s')"
  by (rule append_succeeds [where tip = "Some ''e2''" and j = "SampleTip (Some ''e2'')"])
    (rule sample_append_rules | simp add: sample_session_def session_new_def memory_attach_def; fail)+

text \<open>
  Sessions in memory fail atomically: an append, a branch creation or a single write that returns an
  error has not changed the backend.
\<close>

theorem session_failures_atomic:
  "(append_to_branch (memory_ops (Inr ts)) gen sd name body cx s = (Inl e, s1) \<longrightarrow> bk_storage s1 = bk_storage s) \<and>
   (create_branch (memory_ops (Inr ts)) sd name target cx s = (Inl e, s2) \<longrightarrow> bk_storage s2 = bk_storage s) \<and>
   (commit_single (memory_ops (Inr ts)) w cx s = (Inl e, s3) \<longrightarrow> bk_storage s3 = bk_storage s)"
  by (intro conjI impI)
    (erule mem.append_fail_storage [unfolded failure_keeps_def id_def, rule_format]
      mem.create_branch_fail_storage [unfolded failure_keeps_def id_def, rule_format]
      mem.commit_single_fail_storage [unfolded failure_keeps_def id_def, rule_format])+

theorem session_failures_atomic_witness:
  "\<exists>s'. append_to_branch (memory_ops (Inr 9)) (next_string sample_env) sample_serde ''side'' (BodyCustom ''note'' None)
      sample_cx sample_session = (Inl (unknown_branch ''side''), s') \<and> bk_storage s' = bk_storage sample_session"
proof -
  let ?append = "append_to_branch (memory_ops (Inr 9)) (next_string sample_env) sample_serde ''side''
    (BodyCustom ''note'' None) sample_cx sample_session"
  have "fst ?append = Inl (unknown_branch ''side'')"
    using sample_ready(5) sample_session_sel(2)
    by (simp add: append_to_branch_def op_bind_def generate_id_def begin_mutation_def session_guard_def check_context_def
        session_ensure_open_def mutation_get_value_def typed_get_value_def memory_ops_def memory_get_value_def
        memory_guard_def memory_ensure_open_def mem_live_def sample_session_sel sample_cx_live rbind_def
        branch_tip_def address_def erase_value_def raw_value_def sample_state_def sample_value_def)
  then obtain s' where s': "?append = (Inl (unknown_branch ''side''), s')"
    by (metis prod.collapse)
  with session_failures_atomic [of 9 "next_string sample_env" sample_serde "''side''" "BodyCustom ''note'' None" sample_cx
      sample_session "unknown_branch ''side''" s'] show ?thesis
    by blast
qed

text \<open>
  Reading a branch's tip after an append gives the appended id, and the tips of all other
  branches are as before.
\<close>

theorem append_then_get_tip:
  assumes "append_to_branch (memory_ops (Inr ts)) gen sd name body cx s = (Inr i, s')" and "serde_tip_ok sd"
    and "\<not> cx_cancelled cx'"
  shows "get_tip_id (memory_ops (Inr ts)) sd s' name cx' = Inr (Some i) \<and>
    (other \<noteq> name \<longrightarrow> mem_val (bk_storage s') (tip_slot other) = mem_val (bk_storage s) (tip_slot other))"
  using mem.append_then_tip [OF assms] by blast

theorem append_then_get_tip_witness:
  "\<exists>s'. sample_append sample_session = (Inr ''5'', s') \<and>
     get_tip_id (memory_ops (Inr 9)) sample_serde s' ''main'' sample_cx = Inr (Some ''5'')"
proof -
  obtain s' where s': "sample_append sample_session = (Inr ''5'', s')"
    using sample_appended by blast
  with append_then_get_tip [OF s' sample_serde_ok(1) sample_cx_live] show ?thesis
    by blast
qed

text \<open>
  Creating a branch succeeds only for a valid, unused name and a stored target; it adds that
  branch with the target as its tip and changes nothing else. A name in use is refused with
  \<open>BranchExists\<close> and the session stays as it was.
\<close>

theorem create_branch_once:
  "(create_branch (memory_ops (Inr ts)) sd name target cx s = (Inr n, s') \<longrightarrow>
      (\<exists>j. mem_val (bk_storage s) (tip_slot name) = None \<and> sd_tip_to_value sd target = Inr j \<and>
         (\<forall>i. target = Some i \<longrightarrow> mem_ent (bk_storage s) i \<noteq> None) \<and> validate_branch_name name = Inr () \<and>
         mem_val (bk_storage s') = (mem_val (bk_storage s))(tip_slot name \<mapsto> j) \<and>
         mem_ent (bk_storage s') = mem_ent (bk_storage s))) \<and>
   (\<not> bk_closed s \<and> \<not> cx_cancelled cx \<and> \<not> ms_closed (bk_storage s) \<and> validate_branch_name name = Inr () \<and>
      mem_val (bk_storage s) (tip_slot name) = Some j \<and> sd_tip_from_value sd j = Inr tip \<longrightarrow>
      create_branch (memory_ops (Inr ts)) sd name target cx s = (Inl (BranchExists name), s))"
proof (intro conjI impI)
  assume "create_branch (memory_ops (Inr ts)) sd name target cx s = (Inr n, s')"
  then show "\<exists>j. mem_val (bk_storage s) (tip_slot name) = None \<and> sd_tip_to_value sd target = Inr j \<and>
      (\<forall>i. target = Some i \<longrightarrow> mem_ent (bk_storage s) i \<noteq> None) \<and> validate_branch_name name = Inr () \<and>
      mem_val (bk_storage s') = (mem_val (bk_storage s))(tip_slot name \<mapsto> j) \<and>
      mem_ent (bk_storage s') = mem_ent (bk_storage s)"
    by (rule mem.create_branch_effect) blast
next
  assume "\<not> bk_closed s \<and> \<not> cx_cancelled cx \<and> \<not> ms_closed (bk_storage s) \<and> validate_branch_name name = Inr () \<and>
      mem_val (bk_storage s) (tip_slot name) = Some j \<and> sd_tip_from_value sd j = Inr tip"
  then show "create_branch (memory_ops (Inr ts)) sd name target cx s = (Inl (BranchExists name), s)"
    by (intro mem.create_branch_exists [where j = j and tip = tip]) (auto simp: mem_live_def)
qed

theorem create_branch_once_witness:
  "create_branch (memory_ops (Inr 9)) sample_serde ''main'' None sample_cx sample_session =
     (Inl (BranchExists ''main''), sample_session)"
  using create_branch_once [of 9 sample_serde "''main''" None sample_cx sample_session "''main''" sample_session
      "SampleTip (Some ''e2'')" "Some ''e2''"] sample_session_sel sample_cx_live sample_tip sample_ready(2)
  by (simp add: mem_live_def validate_branch_name_def nul_def)

text \<open>
  The session name round-trips: after \<open>set_name\<close> has returned, \<open>get_name\<close> gives the name that
  was set, or no name when it was cleared.
\<close>

theorem set_name_roundtrip:
  assumes "set_name (memory_ops (Inr ts)) sd name cx s = (Inr (), s')" and "serde_string_ok sd" and "\<not> cx_cancelled cx'"
  shows "session_get_name (memory_ops (Inr ts)) sd s' cx' = Inr name"
  using assms by (rule mem.set_name_get_name)

lemma sample_named:
  "\<exists>s'. set_name (memory_ops (Inr 9)) sample_serde (Some ''demo'') sample_cx sample_session = (Inr (), s')"
  using sample_session_sel(2)
  by (simp add: set_name_def set_value_json_def commit_single_def mutation_commit_def op_bind_def begin_mutation_def
      session_guard_def check_context_def session_ensure_open_def on_storage_def memory_ops_def memory_commit_def
      memory_guard_def memory_ensure_open_def mem_live_def sample_session_sel sample_cx_live without_cancellation_def
      result_eval storage_eval sample_state_def sample_value_def)

theorem set_name_roundtrip_witness:
  "\<exists>s'. set_name (memory_ops (Inr 9)) sample_serde (Some ''demo'') sample_cx sample_session = (Inr (), s') \<and>
     session_get_name (memory_ops (Inr 9)) sample_serde s' sample_cx = Inr (Some ''demo'')"
proof -
  obtain s' where s': "set_name (memory_ops (Inr 9)) sample_serde (Some ''demo'') sample_cx sample_session = (Inr (), s')"
    using sample_named by blast
  with set_name_roundtrip [OF s' sample_serde_ok(3) sample_cx_live] show ?thesis
    by blast
qed

text \<open>
  A closed session refuses everything with the closed error and stays as it is: appends,
  single writes and reads; closing it again returns the published result and does not run the
  callback a second time.
\<close>

theorem closed_session_refuses:
  assumes "session_close (memory_ops now) cx s = (Inr (), s')" and "\<not> cx_cancelled cx'"
  shows "append_to_branch (memory_ops now) gen sd name body cx' s' = (Inl closed_error, s') \<and>
    create_branch (memory_ops now) sd name target cx' s' = (Inl closed_error, s') \<and>
    commit_single (memory_ops now) w cx' s' = (Inl closed_error, s') \<and>
    session_get_value_json (memory_ops now) s' a cx' = Inl closed_error \<and>
    session_close (memory_ops now) cx' s' = (Inr (), s')"
proof -
  have live: "\<not> cx_cancelled cx"
    using assms(1) by (auto simp: session_close_def op_bind_def check_context_def split: if_splits)
  have closed: "bk_closed s'" and result: "bk_close_result s' = Some (Inr ())"
    using assms(1) live session_close_run [OF assms(1)]
    by (auto simp: session_close_def op_bind_def check_context_def Let_def split: option.splits)
  have upd: "s'\<lparr>bk_closed := True\<rparr> = s'"
    using closed by simp
  show ?thesis
    using closed result upd assms(2)
    by (simp add: append_to_branch_def create_branch_def commit_single_def op_bind_def begin_mutation_def session_guard_def
        check_context_def session_ensure_open_def session_get_value_json_def session_close_def rbind_def)
qed

theorem closed_session_refuses_witness:
  "\<exists>s'. session_close (memory_ops (Inr 9)) sample_cx sample_session = (Inr (), s') \<and> sample_append s' = (Inl closed_error, s')"
proof -
  obtain s' where s': "session_close (memory_ops (Inr 9)) sample_cx sample_session = (Inr (), s')"
    by (simp add: session_close_def op_bind_def check_context_def sample_cx_live sample_session_sel close_task_def
        memory_ops_def memory_close_def without_cancellation_def rbind_def Let_def)
  with closed_session_refuses [OF s' sample_cx_live] show ?thesis
    by blast
qed

section \<open>The repository\<close>

definition sample_repo :: "(sample_json, nat) session_repo" where
  "sample_repo = \<lparr>rp_sessions = [(''s1'', make_record sample_metadata sample_state)], rp_pending_ids = {},
     rp_generator = generator_default, rp_closed = False\<rparr>"

lemma sample_created:
  "repo_create sample_env (Inr 7) (Some sample_metadata) sample_cx (repo_new generator_default :: (sample_json, nat) session_repo) =
     (Inr ''s1'', (repo_new generator_default)\<lparr>rp_sessions := [(''s1'', make_record sample_metadata storage_new)]\<rparr>)"
  by (simp add: repo_create_def op_bind_def repo_guard_def check_context_def repo_ensure_open_def sample_cx_live rbind_def
      repo_new_def with_reservation_def reserve_id_def insert_record_def sample_metadata_def bt_contains_def)

text \<open>
  C23. Whatever clients do (create, open, delete and fork sessions, append, create branches, write
  values, close sessions and the repository), every session of the repository keeps a
  well-formed state under its own id, and its handle, its backend and its open flag agree; as
  long as no session has used up its sequence numbers.
\<close>

theorem repository_invariant:
  assumes "repo_reachable r"
  shows "repo_wf r"
  using assms by (rule repo_reachable_inv)

theorem repository_invariant_witness:
  "repo_wf ((repo_new generator_default :: (sample_json, nat) session_repo)
     \<lparr>rp_sessions := [(''s1'', make_record sample_metadata storage_new)]\<rparr>)"
  by (rule repository_invariant, rule repo_reachable.step, rule repo_reachable.start,
      rule repo_step.create [OF sample_created])
    (simp add: repo_room_def make_record_def storage_new_def)

text \<open>
  Creating a session never overwrites one: on success the returned id was unused and now
  holds an open, empty session; on failure no session has changed. Other sessions are as before.
\<close>

theorem create_never_overwrites:
  assumes "repo_create env now metadata cx r = (res, r')"
  shows "case res of
      Inl e \<Rightarrow> rp_sessions r' = rp_sessions r
    | Inr i \<Rightarrow> \<exists>meta. bt_get (rp_sessions r) i = None \<and> md_id meta = i \<and>
        bt_get (rp_sessions r') = (bt_get (rp_sessions r))(i \<mapsto> make_record meta storage_new)"
proof (cases res)
  case (Inl e)
  with assms repo_create_failure [of env now metadata cx] show ?thesis
    by (auto simp: failure_keeps_def)
next
  case (Inr i)
  with assms obtain meta where "md_id meta = i" "bt_get (rp_sessions r) i = None"
    "rp_sessions r' = bt_insert i (make_record meta storage_new) (rp_sessions r)"
    by (auto elim: repo_create_Inr)
  with Inr show ?thesis by (auto simp: bt_get_insert)
qed

theorem create_never_overwrites_witness:
  "bt_get (rp_sessions (repo_new generator_default :: (sample_json, nat) session_repo)) ''s1'' = None"
  using create_never_overwrites [OF sample_created] by auto

text \<open>
  Forking a session leaves the source and every other session as they were: on success the
  only change is a new open session under an unused id, with a well-formed state, the source as
  its parent session and the source's working directory; on failure no session has changed.
\<close>

theorem fork_isolated:
  fixes r :: "('j, 'f::{plus,zero}) session_repo"
  assumes "repo_wf r" and "repo_fork env now sd source options cx r = (res, r')"
  shows "case res of
      Inl e \<Rightarrow> rp_sessions r' = rp_sessions r
    | Inr i \<Rightarrow> \<exists>src st meta. bt_get (rp_sessions r) (md_id source) = Some src \<and> bt_get (rp_sessions r) i = None \<and>
        storage_wf st \<and> md_id meta = i \<and> md_parent_session_id meta = Some (md_id (rr_metadata src)) \<and>
        md_cwd meta = md_cwd (rr_metadata src) \<and>
        bt_get (rp_sessions r') = (bt_get (rp_sessions r))(i \<mapsto> make_record meta st)"
proof (cases res)
  case (Inl e)
  with assms repo_fork_failure [of env now sd source options cx] show ?thesis
    by (auto simp: failure_keeps_def)
next
  case (Inr i)
  with assms(2) have "repo_fork env now sd source options cx r = (Inr i, r')"
    by simp
  then obtain src d st meta where src: "bt_get (rp_sessions r) (md_id source) = Some src"
    and fresh: "bt_get (rp_sessions r) i = None"
    and d: "create_fork_snapshot sd (snapshot_for_fork (rr_state src)) options = Inr d" and st: "from_fork_snapshot d = Inr st"
    and meta: "md_id meta = i" "md_parent_session_id meta = Some (md_id (rr_metadata src))" "md_cwd meta = md_cwd (rr_metadata src)"
    and r': "rp_sessions r' = bt_insert i (make_record meta st) (rp_sessions r)"
    by (rule repo_fork_Inr)
  have "storage_wf (rr_state src)"
    using assms(1) src by (auto simp: repo_wf_def record_wf_def)
  then obtain st' where "from_fork_snapshot d = Inr st'" "storage_wf st'"
    using d by (rule fork_replay)
  with st have "storage_wf st" by simp
  then have "\<exists>src st meta. bt_get (rp_sessions r) (md_id source) = Some src \<and> bt_get (rp_sessions r) i = None \<and>
        storage_wf st \<and> md_id meta = i \<and> md_parent_session_id meta = Some (md_id (rr_metadata src)) \<and>
        md_cwd meta = md_cwd (rr_metadata src) \<and>
        bt_get (rp_sessions r') = (bt_get (rp_sessions r))(i \<mapsto> make_record meta st)"
    using src fresh meta bt_get_insert [of i "make_record meta st" "rp_sessions r"] unfolding r' by blast
  with Inr show ?thesis by simp
qed

lemma sample_repo_wf: "repo_wf sample_repo"
  using record_wf_make [OF sample_wf, of sample_metadata]
  by (auto simp: repo_wf_def sample_repo_def bt_ok_def sample_metadata_def split: if_splits)

abbreviation sample_forked :: "((sample_json, nat) session_repo, string) op" where
  "sample_forked \<equiv> repo_fork sample_env (Inr 8) sample_serde sample_metadata
     (ForkBranch ''main'' (Some ''e1'') At (Some ''s2'')) sample_cx"

lemma sample_forks: "\<exists>r'. sample_forked sample_repo = (Inr ''s2'', r')"
proof -
  obtain st where st: "from_fork_snapshot sample_snapshot = Inr st"
    using sample_wf sample_fork by (rule fork_replay)
  show ?thesis
    using sample_fork [of "Some ''s2''"] st
    by (simp add: repo_fork_def op_bind_def repo_guard_def check_context_def repo_ensure_open_def sample_cx_live rbind_def
        sample_repo_def with_reservation_def reserve_id_def insert_record_def sample_metadata_def bt_contains_def
        validate_branch_name_def nul_def ok_or_def memory_capture_fork_source_def memory_guard_def memory_ensure_open_def
        memory_attach_def make_record_def)
qed

theorem fork_isolated_witness:
  "\<exists>r'. sample_forked sample_repo = (Inr ''s2'', r') \<and>
     bt_get (rp_sessions r') ''s1'' = bt_get (rp_sessions sample_repo) ''s1''"
proof -
  obtain r' where r': "sample_forked sample_repo = (Inr ''s2'', r')"
    using sample_forks by blast
  with fork_isolated [OF sample_repo_wf r'] show ?thesis
    by auto
qed

text \<open>
  Only a closed session can be opened or deleted: a successful open found the session closed
  and keeps its state and metadata; a successful delete found it closed and removes it and no
  other; on failure no session has changed.
\<close>

theorem open_delete_need_closed:
  "(repo_open metadata cx r = (res, r1) \<longrightarrow> (case res of
      Inl e \<Rightarrow> rp_sessions r1 = rp_sessions r
    | Inr i \<Rightarrow> \<exists>rec. i = md_id metadata \<and> bt_get (rp_sessions r) i = Some rec \<and> \<not> rr_open rec \<and>
        bt_get (rp_sessions r1) = (bt_get (rp_sessions r))(i \<mapsto> rec\<lparr>rr_open := True, rr_session := Some new_handle\<rparr>))) \<and>
   (repo_delete metadata cx r = (res', r2) \<longrightarrow> (case res' of
      Inl e \<Rightarrow> rp_sessions r2 = rp_sessions r
    | Inr _ \<Rightarrow> \<exists>rec. bt_get (rp_sessions r) (md_id metadata) = Some rec \<and> \<not> rr_open rec \<and>
        bt_get (rp_sessions r2) = (bt_get (rp_sessions r))(md_id metadata := None)))"
proof (intro conjI impI)
  assume opened: "repo_open metadata cx r = (res, r1)"
  show "case res of
      Inl e \<Rightarrow> rp_sessions r1 = rp_sessions r
    | Inr i \<Rightarrow> \<exists>rec. i = md_id metadata \<and> bt_get (rp_sessions r) i = Some rec \<and> \<not> rr_open rec \<and>
        bt_get (rp_sessions r1) = (bt_get (rp_sessions r))(i \<mapsto> rec\<lparr>rr_open := True, rr_session := Some new_handle\<rparr>)"
  proof (cases res)
    case (Inl e)
    with opened repo_open_failure [of metadata cx] show ?thesis
      by (auto simp: failure_keeps_def)
  next
    case (Inr i)
    with opened show ?thesis
      by (auto simp: repo_open_def op_bind_read bt_get_insert ok_or_def split: sum.splits option.splits if_splits)
  qed
next
  assume deleted: "repo_delete metadata cx r = (res', r2)"
  show "case res' of
      Inl e \<Rightarrow> rp_sessions r2 = rp_sessions r
    | Inr _ \<Rightarrow> \<exists>rec. bt_get (rp_sessions r) (md_id metadata) = Some rec \<and> \<not> rr_open rec \<and>
        bt_get (rp_sessions r2) = (bt_get (rp_sessions r))(md_id metadata := None)"
  proof (cases res')
    case (Inl e)
    with deleted repo_delete_failure [of metadata cx] show ?thesis
      by (auto simp: failure_keeps_def)
  next
    case (Inr u)
    with deleted show ?thesis
      by (auto simp: repo_delete_def op_bind_read bt_get_remove ok_or_def split: sum.splits option.splits if_splits)
  qed
qed

definition sample_closed_repo :: "(sample_json, nat) session_repo" where
  "sample_closed_repo = sample_repo\<lparr>rp_sessions := [(''s1'', (make_record sample_metadata sample_state)\<lparr>rr_open := False\<rparr>)]\<rparr>"

theorem open_delete_need_closed_witness:
  "\<exists>r2. repo_delete sample_metadata sample_cx sample_closed_repo = (Inr (), r2) \<and> bt_get (rp_sessions r2) ''s1'' = None"
proof -
  obtain r2 where r2: "repo_delete sample_metadata sample_cx sample_closed_repo = (Inr (), r2)"
    by (simp add: repo_delete_def op_bind_read repo_guard_def check_context_def repo_ensure_open_def sample_cx_live rbind_def
        sample_closed_repo_def sample_repo_def sample_metadata_def ok_or_def)
  with open_delete_need_closed [of sample_metadata sample_cx sample_closed_repo "Inl closed_error" sample_closed_repo "Inr ()" r2,
      THEN conjunct2] show ?thesis
    by (auto simp: sample_metadata_def)
qed

text \<open>
  Closing an open session and opening it again succeeds and loses nothing: the repository is
  as before, with a fresh open handle on the same durable state.
\<close>

theorem close_then_open:
  fixes r :: "('j, 'f::{plus,zero}) session_repo"
  assumes "repo_wf r" and "bt_get (rp_sessions r) (md_id metadata) = Some rec" and "rr_open rec"
    and "\<not> rp_closed r" and "\<not> cx_cancelled cx" and "\<not> cx_cancelled cx'"
  shows "\<exists>r1 r2. run_session (md_id metadata) (session_close (memory_ops now) cx) r = (Inr (), r1) \<and>
    repo_open metadata cx' r1 = (Inr (md_id metadata), r2) \<and>
    bt_get (rp_sessions r2) = (bt_get (rp_sessions r))(md_id metadata \<mapsto> rec\<lparr>rr_session := Some new_handle\<rparr>)"
proof -
  let ?i = "md_id metadata"
  obtain h where h: "rr_session rec = Some h" "\<not> hn_closed h" "\<not> hn_storage_closed h" "hn_hook h" "hn_close_result h = None"
    using assms(1-3) by (fastforce simp: repo_wf_def record_wf_def)
  let ?h = "\<lparr>hn_closed = True, hn_storage_closed = True, hn_close_result = Some (Inr ()), hn_hook = False\<rparr>"
  let ?r1 = "r\<lparr>rp_sessions := bt_insert ?i (rec\<lparr>rr_open := False, rr_session := Some ?h\<rparr>) (rp_sessions r)\<rparr>"
  have close: "run_session ?i (session_close (memory_ops now) cx) r = (Inr (), ?r1)"
    using assms(2,5) h
    by (simp add: run_session_def assemble_def session_close_def op_bind_def check_context_def close_task_def memory_ops_def
        memory_close_def without_cancellation_def store_back_def rbind_def Let_def)
  let ?r2 = "?r1\<lparr>rp_sessions := bt_insert ?i (rec\<lparr>rr_open := True, rr_session := Some new_handle\<rparr>) (rp_sessions ?r1)\<rparr>"
  have "repo_open metadata cx' ?r1 = (Inr ?i, ?r2)"
    using assms(4,6)
    by (simp add: repo_open_def op_bind_read repo_guard_def check_context_def repo_ensure_open_def rbind_def ok_or_def
        bt_get_insert)
  moreover have "rec\<lparr>rr_open := True, rr_session := Some new_handle\<rparr> = rec\<lparr>rr_session := Some new_handle\<rparr>"
    using assms(3) by simp
  ultimately show ?thesis
    using close by (intro exI [of _ ?r1] exI [of _ ?r2]) (simp add: bt_get_insert)
qed

theorem close_then_open_witness:
  "\<exists>r1 r2. run_session ''s1'' (session_close (memory_ops (Inr 9)) sample_cx) sample_repo = (Inr (), r1) \<and>
     repo_open sample_metadata sample_cx r1 = (Inr ''s1'', r2) \<and>
     bt_get (rp_sessions r2) ''s1'' = Some (make_record sample_metadata sample_state)"
proof -
  have "bt_get (rp_sessions sample_repo) (md_id sample_metadata) = Some (make_record sample_metadata sample_state)"
    by (simp add: sample_repo_def sample_metadata_def)
  from close_then_open [OF sample_repo_wf this _ _ sample_cx_live sample_cx_live, of "Inr 9"] show ?thesis
    by (auto simp: sample_repo_def make_record_def sample_metadata_def)
qed

section \<open>Mutations and close\<close>

text \<open>One task waits for the lock and one holds it when close is called; its task waits.\<close>

definition sample_life :: life where
  "sample_life = \<lparr>lf_closed = True, lf_lock = Some (Task 0), lf_phase = (\<lambda>_. Idle)(0 := Held, 1 := Queued),
     lf_close = Waiting, lf_backend_closed = False, lf_callbacks = 0\<rparr>"

lemma sample_life_reachable: "life_reachable sample_life"
proof -
  let ?s1 = "set_phase life_init 0 Queued"
  let ?s2 = "set_phase ?s1 1 Queued"
  let ?s3 = "set_phase (?s2\<lparr>lf_lock := Some (Task 0)\<rparr>) 0 Acquired"
  let ?s4 = "set_phase ?s3 0 Held"
  let ?s5 = "?s4\<lparr>lf_closed := True\<rparr>"
  let ?s6 = "?s5\<lparr>lf_close := Waiting\<rparr>"
  have "life_reachable ?s1"
    by (rule life_reachable.step [OF life_reachable.init], rule life_stepI(1), rule enter) (simp_all add: life_init_def)
  then have "life_reachable ?s2"
    by (rule life_reachable.step, intro life_stepI(1) enter) (simp_all add: life_init_def)
  then have "life_reachable ?s3"
    by (rule life_reachable.step, intro life_stepI(1) acquire) (simp_all add: life_init_def)
  then have "life_reachable ?s4"
    by (rule life_reachable.step, intro life_stepI(1) grant) (simp_all add: life_init_def)
  then have "life_reachable ?s5"
    by (rule life_reachable.step, intro life_stepI(2) seal)
  then have "life_reachable ?s6"
    by (rule life_reachable.step, intro life_stepI(2) spawn) (simp_all add: life_init_def)
  moreover have "?s6 = sample_life"
    by (simp add: sample_life_def set_phase_def life_init_def fun_eq_iff)
  ultimately show ?thesis by simp
qed

text \<open>
  C24. Mutual exclusion and an orderly close: in every interleaving at most one task holds the
  mutation lock, never together with the close task; no commit reaches a backend that has been
  closed; the close callback runs at most once, and only after the backend is closed.
\<close>

theorem mutation_exclusion:
  assumes "life_reachable s"
  shows "(owns s t \<and> owns s u \<longrightarrow> t = u) \<and> (owns s t \<longrightarrow> lf_close s \<notin> {Closing, BackendClosed}) \<and>
    lf_phase s t \<noteq> Finished False \<and> lf_callbacks s \<le> 1 \<and> (lf_callbacks s = 1 \<longrightarrow> lf_backend_closed s)"
proof -
  have inv: "lock_ok s" "close_ok s" "commits_ok s"
    using life_inv_reachable [OF assms] by (simp_all add: life_inv_def)
  have own: "owns s t \<longleftrightarrow> lf_lock s = Some (Task t)" for t
    using inv(1) by (simp add: lock_ok_def)
  have "owns s t \<longrightarrow> lf_close s \<notin> {Closing, BackendClosed}"
    using inv(1) own [of t] by (auto simp: lock_ok_def)
  moreover have "lf_phase s t \<noteq> Finished False"
    using inv(3) by (simp add: commits_ok_def)
  moreover have "lf_callbacks s \<le> 1" "lf_callbacks s = 1 \<longrightarrow> lf_backend_closed s"
    using inv(2) by (auto simp: close_ok_def backend_down_def)
  ultimately show ?thesis
    using own [of t] own [of u] by auto
qed

theorem mutation_exclusion_witness: "owns sample_life 0 \<and> \<not> owns sample_life 1 \<and> lf_close sample_life \<noteq> Closing"
  using mutation_exclusion [OF sample_life_reachable, of 0 1]
  by (simp add: owns_def sample_life_def)

text \<open>
  Once close has set its flag, a mutation that was not yet granted is never granted: waiting
  callers are turned away even when they get the lock.
\<close>

theorem sealed_waiters_rejected:
  assumes "life_step\<^sup>*\<^sup>* s s'" and "lf_closed s" and "\<not> admitted s t"
  shows "\<not> admitted s' t"
  using assms by (rule sealed_never_admitted)

theorem sealed_waiters_rejected_witness:
  "\<not> admitted (set_phase (sample_life\<lparr>lf_lock := None\<rparr>) 0 Dropped) 1"
proof (rule sealed_waiters_rejected [of sample_life])
  show "life_step\<^sup>*\<^sup>* sample_life (set_phase (sample_life\<lparr>lf_lock := None\<rparr>) 0 Dropped)"
    by (intro r_into_rtranclp life_stepI(1) drop_guard) (simp add: sample_life_def)
qed (simp_all add: sample_life_def admitted_def)

text \<open>
  Close is never stuck: in every reachable state in which the close task waits for the lock
  there is a continuation that closes the backend and publishes the result.
\<close>

theorem close_can_always_finish:
  assumes "life_reachable s" and "lf_close s = Waiting"
  shows "\<exists>s'. life_step\<^sup>*\<^sup>* s s' \<and> lf_close s' = ClosePublished \<and> lf_callbacks s' = 1"
proof -
  have inv: "life_inv s"
    using assms(1) by (rule life_inv_reachable)
  from close_can_finish [OF inv assms(2)] obtain s' where s': "life_step\<^sup>*\<^sup>* s s'" "lf_close s' = ClosePublished"
    by blast
  from s'(1) inv have "life_inv s'"
    by (induction rule: rtranclp_induct) (auto intro: life_inv_step)
  with s' show ?thesis
    by (auto simp: life_inv_def close_ok_def)
qed

theorem close_can_always_finish_witness: "\<exists>s'. life_step\<^sup>*\<^sup>* sample_life s' \<and> lf_close s' = ClosePublished"
  using close_can_always_finish [OF sample_life_reachable] by (auto simp: sample_life_def)

section \<open>Ids\<close>

text \<open>
  Ids are never repeated: over any sequence of calls, with whatever timestamps and clock
  readings, the ids the generator gives out are pairwise different, provided that the text form
  of a UUID determines the sequence field it was built from.
\<close>

theorem generated_ids_distinct:
  assumes "run_generator generator_default calls = (ids, g')"
    and "\<forall>(env, ts) \<in> set calls. ie_format env = fmt" and "format_keeps_sequence fmt"
  shows "distinct ids"
  by (rule run_generator_distinct [OF _ assms]) (simp add: sequence_ok_def generator_default_def)

text \<open>An environment whose text form writes the sequence in unary.\<close>

definition tally_env :: id_env where
  "tally_env = \<lparr>ie_current_millis = Inr 1000, ie_random_sequence = 0, ie_format = (\<lambda>s n q. replicate (unat q) CHR ''x'')\<rparr>"

lemma tally_format: "format_keeps_sequence (ie_format tally_env)"
  by (simp add: format_keeps_sequence_def tally_env_def) (metis length_replicate word_unat_eq_iff)

theorem generated_ids_distinct_witness:
  "\<exists>ids g'. run_generator generator_default [(tally_env, None), (tally_env, Some 5)] = (ids, g') \<and>
     ids = [[], ''x''] \<and> distinct ids"
proof -
  let ?calls = "[(tally_env, None), (tally_env, Some 5)]"
  obtain ids g' where run: "run_generator generator_default ?calls = (ids, g')"
    by (cases "run_generator generator_default ?calls")
  have "distinct ids"
    by (rule generated_ids_distinct [OF run _ tally_format]) simp
  moreover have "ids = [[], ''x'']"
    using run
    by (simp add: next_string_def requested_timestamp_def validate_timestamp_def ordinary_timestamp_def next_sequence_def
        supplied_timestamp_def u64_of_i64_def ok_or_def tally_env_def generator_default_def rbind_def
        MAX_UUID_V7_TIMESTAMP_def MAX_SEQUENCE_def Let_def)
  ultimately show ?thesis
    using run by blast
qed

text \<open>
  The sequence of a generator is bounded and never wraps: a draw gives a number of at most 41
  bits, the successor of the one before; the only failure is exhaustion at the largest number,
  which leaves the state as it was.
\<close>

theorem sequence_never_wraps:
  assumes "sequence_ok g" and "next_sequence g random = (res, g')"
  shows "case res of
      Inr q \<Rightarrow> q \<le> MAX_SEQUENCE \<and> gs_sequence g' = Some q \<and> (\<forall>p. gs_sequence g = Some p \<longrightarrow> unat q = unat p + 1)
    | Inl e \<Rightarrow> g' = g \<and> gs_sequence g = Some MAX_SEQUENCE"
  using next_sequence_step [OF assms] by (auto simp: sequence_ok_def split: sum.split)

theorem sequence_never_wraps_witness:
  "next_sequence \<lparr>gs_last_ordinary_timestamp = None, gs_sequence = Some MAX_SEQUENCE\<rparr> 0 =
     (Inl (Invariant ''UUIDv7 generator sequence exhausted''), \<lparr>gs_last_ordinary_timestamp = None, gs_sequence = Some MAX_SEQUENCE\<rparr>)"
proof -
  let ?g = "\<lparr>gs_last_ordinary_timestamp = None, gs_sequence = Some MAX_SEQUENCE\<rparr>"
  have "next_sequence ?g 0 = (Inl (Invariant ''UUIDv7 generator sequence exhausted''), snd (next_sequence ?g 0))"
    by (simp add: next_sequence_def)
  with sequence_never_wraps [OF _ this] show ?thesis
    by (simp add: sequence_ok_def)
qed

end
