(* ===== verification/Durable_File.thy ===== *)
theory Durable_File
  imports Session_Types
begin

text \<open>
  The file operations of the JSONL backend (\<open>harness_session/jsonl/codec.rs\<close> and
  \<open>storage.rs\<close>): publishing a complete file through a sibling temporary file, on POSIX and with
  the backup rotation used on Windows, restoring a stranded backup, and appending one line.

  A file system is a map from paths to bytes; directories are left out, since no operation
  here reads them. The environment \<open>io_env\<close> says for every call whether it fails and how many
  bytes a failing write had written. A crash is the environment in which one call and every
  later one fails, so that what is shown for all environments covers every crash point.
\<close>

section \<open>Calls\<close>

datatype io_error = Io_not_found | Io_other string

fun io_error_text :: "io_error \<Rightarrow> string" where
  "io_error_text Io_not_found = ''No such file or directory (os error 2)''"
| "io_error_text (Io_other text) = text"

datatype platform = Posix | Windows

datatype io_stage =
    Io_create_dir | Io_open_temp | Io_write_temp | Io_remove_temp
  | Io_rename_in | Io_remove_backup | Io_rename_away | Io_rename_back | Io_drop_backup
  | Io_restore_backup | Io_read
  | Io_open_append | Io_write_line | Io_write_newline

record io_env =
  io_platform :: platform
  io_fault :: "io_stage \<Rightarrow> string option"
  io_written :: nat

type_synonym fs = "string \<rightharpoonup> utf8"

type_synonym 'a io = "fs \<Rightarrow> (io_error + 'a) \<times> fs"

definition io_bind :: "'a io \<Rightarrow> ('a \<Rightarrow> 'b io) \<Rightarrow> 'b io" where
  "io_bind m f fs = (case m fs of (Inl e, fs') \<Rightarrow> (Inl e, fs') | (Inr a, fs') \<Rightarrow> f a fs')"

definition io_return :: "'a \<Rightarrow> 'a io" where
  "io_return a fs = (Inr a, fs)"

text \<open>\<open>let _ = \<dots>\<close>: the result is dropped, the effect stays.\<close>

definition io_ignore :: "'a io \<Rightarrow> unit io" where
  "io_ignore m fs = (Inr (), snd (m fs))"

definition io_call :: "io_env \<Rightarrow> io_stage \<Rightarrow> 'a io \<Rightarrow> 'a io" where
  "io_call env stage m fs =
     (case io_fault env stage of Some text \<Rightarrow> (Inl (Io_other text), fs) | None \<Rightarrow> m fs)"

definition fs_truncate :: "string \<Rightarrow> unit io" where
  "fs_truncate path fs = (Inr (), fs(path \<mapsto> []))"

definition fs_open_existing :: "string \<Rightarrow> unit io" where
  "fs_open_existing path fs = (if fs path = None then (Inl Io_not_found, fs) else (Inr (), fs))"

definition fs_remove :: "string \<Rightarrow> unit io" where
  "fs_remove path fs = (if fs path = None then (Inl Io_not_found, fs) else (Inr (), fs(path := None)))"

definition fs_rename :: "string \<Rightarrow> string \<Rightarrow> unit io" where
  "fs_rename from to fs =
     (case fs from of None \<Rightarrow> (Inl Io_not_found, fs)
      | Some content \<Rightarrow> (Inr (), (fs(from := None))(to \<mapsto> content)))"

definition fs_extend :: "string \<Rightarrow> utf8 \<Rightarrow> fs \<Rightarrow> fs" where
  "fs_extend path bytes fs = fs(path \<mapsto> (case fs path of None \<Rightarrow> [] | Some old \<Rightarrow> old) @ bytes)"

text \<open>\<open>write_all\<close> on an open file; when it fails, its last byte has not been written.\<close>

definition fs_write_all :: "io_env \<Rightarrow> io_stage \<Rightarrow> string \<Rightarrow> utf8 \<Rightarrow> unit io" where
  "fs_write_all env stage path bytes fs =
     (case io_fault env stage of
        Some text \<Rightarrow> (Inl (Io_other text), fs_extend path (take (io_written env) (butlast bytes)) fs)
      | None \<Rightarrow> (Inr (), fs_extend path bytes fs))"

text \<open>\<open>fs::read_to_string\<close> fails on a missing file and on bytes that are not UTF-8.\<close>

definition read_to_string :: "io_env \<Rightarrow> string \<Rightarrow> fs \<Rightarrow> io_error + utf8" where
  "read_to_string env path fs =
     (case io_fault env Io_read of
        Some text \<Rightarrow> Inl (Io_other text)
      | None \<Rightarrow>
          (case fs path of
             None \<Rightarrow> Inl Io_not_found
           | Some bytes \<Rightarrow>
               if valid_utf8 bytes then Inr bytes
               else Inl (Io_other ''stream did not contain valid UTF-8'')))"

section \<open>Publishing a file\<close>

definition temp_path :: "string \<Rightarrow> string" where
  "temp_path path = path @ ''.tmp''"

definition backup_path :: "string \<Rightarrow> string" where
  "backup_path path = path @ ''.bak''"

definition replace_file_posix :: "io_env \<Rightarrow> string \<Rightarrow> string \<Rightarrow> unit io" where
  "replace_file_posix env temp path = io_call env Io_rename_in (fs_rename temp path)"

definition rename_away :: "io_env \<Rightarrow> string \<Rightarrow> string \<Rightarrow> unit io" where
  "rename_away env path backup fs =
     (case io_call env Io_rename_away (fs_rename path backup) fs of
        (Inr u, fs') \<Rightarrow> (Inr (), fs')
      | (Inl Io_not_found, fs') \<Rightarrow> (Inr (), fs')
      | (Inl (Io_other text), fs') \<Rightarrow> (Inl (Io_other text), fs'))"

definition rename_in :: "io_env \<Rightarrow> string \<Rightarrow> string \<Rightarrow> string \<Rightarrow> unit io" where
  "rename_in env temp path backup fs =
     (case io_call env Io_rename_in (fs_rename temp path) fs of
        (Inr u, fs') \<Rightarrow> (Inr (), fs')
      | (Inl e, fs') \<Rightarrow>
          (Inl e, snd (io_ignore (io_call env Io_rename_back (fs_rename backup path)) fs')))"

definition replace_file_windows :: "io_env \<Rightarrow> string \<Rightarrow> string \<Rightarrow> unit io" where
  "replace_file_windows env temp path =
     (let backup = backup_path path in
      io_bind (io_ignore (io_call env Io_remove_backup (fs_remove backup))) (\<lambda>_.
      io_bind (rename_away env path backup) (\<lambda>_.
      io_bind (rename_in env temp path backup) (\<lambda>_.
      io_ignore (io_call env Io_drop_backup (fs_remove backup))))))"

definition replace_file :: "io_env \<Rightarrow> string \<Rightarrow> string \<Rightarrow> unit io" where
  "replace_file env =
     (case io_platform env of Posix \<Rightarrow> replace_file_posix env | Windows \<Rightarrow> replace_file_windows env)"

definition publish_stages :: "io_env \<Rightarrow> string \<Rightarrow> utf8 \<Rightarrow> unit io" where
  "publish_stages env path content =
     (let temp = temp_path path in
      io_bind (io_call env Io_create_dir (io_return ())) (\<lambda>_.
      io_bind (io_call env Io_open_temp (fs_truncate temp)) (\<lambda>_.
      io_bind (fs_write_all env Io_write_temp temp content) (\<lambda>_.
      replace_file env temp path))))"

definition backend_failure :: "storage_error_code \<Rightarrow> string \<Rightarrow> string option \<Rightarrow> session_error" where
  "backend_failure code message source =
     Backend \<lparr>sf_code = code, sf_message = message, sf_source = source\<rparr>"

definition publish_file_atomically ::
  "io_env \<Rightarrow> string \<Rightarrow> utf8 \<Rightarrow> fs \<Rightarrow> (session_error + unit) \<times> fs" where
  "publish_file_atomically env path content fs =
     (case publish_stages env path content fs of
        (Inr u, fs') \<Rightarrow> (Inr (), fs')
      | (Inl e, fs') \<Rightarrow>
          (Inl (backend_failure Io (''failed to publish JSONL storage '' @ path) (Some (io_error_text e))),
           snd (io_call env Io_remove_temp (fs_remove (temp_path path)) fs')))"

definition restore_stranded_backup :: "io_env \<Rightarrow> string \<Rightarrow> fs \<Rightarrow> fs" where
  "restore_stranded_backup env path fs =
     (if fs path \<noteq> None then fs
      else if fs (backup_path path) \<noteq> None
      then snd (io_call env Io_restore_backup (fs_rename (backup_path path) path) fs)
      else fs)"

section \<open>Appending a line\<close>

text \<open>
  The closure of \<open>commit_sync\<close>. Flushing a \<open>File\<close> does nothing and cannot fail.
\<close>

definition append_line :: "io_env \<Rightarrow> string \<Rightarrow> utf8 \<Rightarrow> unit io" where
  "append_line env path line =
     io_bind (io_call env Io_open_append (fs_open_existing path)) (\<lambda>_.
     io_bind (fs_write_all env Io_write_line path line) (\<lambda>_.
     fs_write_all env Io_write_newline path [10]))"

section \<open>Lemmas\<close>

definition fault_free :: "io_env \<Rightarrow> bool" where
  "fault_free env \<longleftrightarrow> io_fault env = (\<lambda>_. None)"

lemma sibling_paths [simp]:
  "temp_path path \<noteq> path" "backup_path path \<noteq> path" "path \<noteq> temp_path path" "path \<noteq> backup_path path"
  "temp_path path \<noteq> backup_path path" "backup_path path \<noteq> temp_path path"
  by (simp_all add: temp_path_def backup_path_def)

lemmas io_defs = io_bind_def io_return_def io_ignore_def io_call_def fs_truncate_def fs_open_existing_def fs_remove_def
  fs_rename_def fs_extend_def fs_write_all_def

lemmas publish_defs = publish_file_atomically_def publish_stages_def replace_file_def replace_file_posix_def
  replace_file_windows_def rename_away_def rename_in_def Let_def io_defs

lemma publish_fault_free:
  assumes "fault_free env"
  shows "\<exists>fs'. publish_file_atomically env path content fs = (Inr (), fs')"
  using assms unfolding fault_free_def
  by (cases "io_platform env"; cases "fs path"; cases "fs (backup_path path)") (simp_all add: publish_defs)

lemma publish_Inr:
  assumes "publish_file_atomically env path content fs = (Inr (), fs')"
  shows "fs' path = Some content"
  using assms
  by (cases "io_platform env")
    (auto simp: publish_defs split: option.splits if_splits sum.splits prod.splits io_error.splits)

lemma publish_posix_Inl:
  assumes "publish_file_atomically env path content fs = (Inl e, fs')" and "io_platform env = Posix"
  shows "fs' path = fs path"
  using assms by (auto simp: publish_defs split: option.splits if_splits sum.splits prod.splits)

text \<open>
  Whatever fails, the old content of a published path is never lost: the path holds the old or
  the new content, or it is absent and the backup holds the old content.
\<close>

lemma publish_keeps_old:
  assumes "publish_file_atomically env path content fs = (r, fs')" and "fs path = Some old"
  shows "fs' path = Some old \<or> fs' path = Some content \<or>
    fs' path = None \<and> fs' (backup_path path) = Some old"
  using assms
  by (cases "io_platform env")
    (auto simp: publish_defs split: option.splits if_splits sum.splits prod.splits io_error.splits)

lemma publish_Inl_keeps_old:
  assumes "publish_file_atomically env path content fs = (Inl e, fs')" and "fs path = Some old"
  shows "fs' path = Some old \<or> fs' path = None \<and> fs' (backup_path path) = Some old"
  using assms
  by (cases "io_platform env")
    (auto simp: publish_defs split: option.splits if_splits sum.splits prod.splits io_error.splits)

lemma publish_frame:
  assumes "publish_file_atomically env path content fs = (r, fs')"
    and "q \<noteq> path" and "q \<noteq> temp_path path" and "q \<noteq> backup_path path"
  shows "fs' q = fs q"
  using assms
  by (cases "io_platform env")
    (auto simp: publish_defs split: option.splits if_splits sum.splits prod.splits io_error.splits)

lemma restore_present: "fs path \<noteq> None \<Longrightarrow> restore_stranded_backup env path fs = fs"
  by (simp add: restore_stranded_backup_def)

lemma restore_backup:
  "fs path = None \<Longrightarrow> fs (backup_path path) = Some old \<Longrightarrow> io_fault env Io_restore_backup = None \<Longrightarrow>
   restore_stranded_backup env path fs path = Some old"
  by (simp add: restore_stranded_backup_def io_call_def fs_rename_def)

lemma append_line_ok:
  assumes "fs path = Some old" and "io_fault env Io_open_append = None" and "io_fault env Io_write_line = None"
    and "io_fault env Io_write_newline = None"
  shows "append_line env path line fs = (Inr (), fs(path \<mapsto> old @ line @ [10]))"
  using assms by (simp add: append_line_def io_defs)

lemma append_line_Inr:
  assumes "append_line env path line fs = (Inr u, fs')"
  obtains old where "fs path = Some old" and "fs' = fs(path \<mapsto> old @ line @ [10])"
  using assms by (auto simp: append_line_def io_defs split: option.splits if_splits)

text \<open>A failed append leaves a proper part of the record behind, without its newline.\<close>

lemma append_line_Inl:
  assumes "append_line env path line fs = (Inl e, fs')" and "fs path = Some old"
  obtains n where "fs' = fs(path \<mapsto> old @ take n line)"
proof -
  have line: "take (length line) line = line" by simp
  have "fs(path \<mapsto> old) = fs"
    using assms(2) by auto
  then have nil: "fs = fs(path \<mapsto> old @ take 0 line)" by simp
  have cut: "take k (butlast line) = take (min k (length line - 1)) line" for k
    by (simp add: butlast_conv_take take_take min.commute)
  show thesis
    using assms that [of 0] that [of "length line"] that [of "min (io_written env) (length line - 1)"] nil
    by (auto simp: append_line_def io_defs cut fun_upd_idem split: option.splits if_splits)
qed

end
