(* ===== verification/Jsonl_Codec.thy ===== *)
theory Jsonl_Codec
  imports Session_Contract Durable_File
begin

text \<open>
  The wire format of a durable session (\<open>harness_session/jsonl/codec.rs\<close>): the header line, the
  transaction lines with the checks made on what was parsed, and the split of a file into its
  complete lines.

  JSON text and \<open>serde\<close> are the record \<open>wire\<close>, a parameter of the operations: \<open>from_str\<close> at
  \<open>Value\<close>, the accessors of \<open>Value\<close> the code calls, the derived encodings of the header and of
  committed writes, the value \<open>json!\<close> makes for an import record, and \<open>jiff\<close>'s timestamp
  parser. \<open>wire_ok\<close> states the documented behaviour the
  backend relies on: the text of a value is one non-empty line of UTF-8, and decoding it gives
  the value back.
\<close>

section \<open>Headers\<close>

definition JSONL_FORMAT_VERSION :: u32 where
  "JSONL_FORMAT_VERSION = 4"

definition JSONL_STORAGE_VERSION :: u32 where
  "JSONL_STORAGE_VERSION = 1"

definition MAX_SAFE_INTEGER :: u64 where
  "MAX_SAFE_INTEGER = 9007199254740991"

record jsonl_header =
  jh_v :: u32
  jh_kind :: string
  jh_id :: string
  jh_storage_version :: u32
  jh_created_at :: i64
  jh_cwd :: string
  jh_parent_session_id :: "string option"
  jh_legacy_parent_session_path :: "string option"
  jh_next_seq :: "u64 option"

record legacy_v3_header =
  lh_kind :: string
  lh_version :: u32
  lh_id :: string
  lh_timestamp :: string
  lh_cwd :: string
  lh_parent_session :: "string option"

datatype parsed_header = V4 jsonl_header | LegacyV3 legacy_v3_header

record ('j, 'f) wire =
  wi_from_str :: "utf8 \<Rightarrow> string + 'j"
  wi_is_object :: "'j \<Rightarrow> bool"
  wi_get :: "'j \<Rightarrow> string \<Rightarrow> 'j option"
  wi_as_str :: "'j \<Rightarrow> string option"
  wi_as_u64 :: "'j \<Rightarrow> u64 option"
  wi_as_array :: "'j \<Rightarrow> 'j list option"
  wi_header_from_value :: "'j \<Rightarrow> string + jsonl_header"
  wi_header_to_string :: "jsonl_header \<Rightarrow> string + utf8"
  wi_legacy_header_from_value :: "'j \<Rightarrow> string + legacy_v3_header"
  wi_timestamp_millis :: "string \<Rightarrow> string + i64"
  wi_write_from_value :: "'j \<Rightarrow> string + ('j, 'f) committed_write"
  wi_write_to_string :: "('j, 'f) committed_write \<Rightarrow> utf8"
  wi_writes_to_string :: "('j, 'f) committed_write list \<Rightarrow> utf8"
  wi_import_details :: 'j

definition invalid_header :: "string \<Rightarrow> string option \<Rightarrow> session_error" where
  "invalid_header message source = backend_failure InvalidHeader message source"

definition get_str :: "('j, 'f) wire \<Rightarrow> 'j \<Rightarrow> string \<Rightarrow> string option" where
  "get_str w v key = Option.bind (wi_get w v key) (wi_as_str w)"

definition get_u64 :: "('j, 'f) wire \<Rightarrow> 'j \<Rightarrow> string \<Rightarrow> u64 option" where
  "get_u64 w v key = Option.bind (wi_get w v key) (wi_as_u64 w)"

text \<open>The check on a decoded version-4 header.\<close>

definition header_rejected :: "jsonl_header \<Rightarrow> bool" where
  "header_rejected h \<longleftrightarrow>
     jh_v h \<noteq> JSONL_FORMAT_VERSION \<or> jh_kind h \<noteq> ''header'' \<or> jh_storage_version h = 0 \<or>
     MAX_SAFE_INTEGER < ucast (jh_storage_version h) \<or>
     is_none_or (u64_of_i64 (jh_created_at h)) (\<lambda>created_at. MAX_SAFE_INTEGER < created_at) \<or>
     jh_next_seq h = Some 0 \<or>
     \<not> is_none_or (jh_next_seq h) (\<lambda>next_seq. next_seq \<le> MAX_SAFE_INTEGER)"

definition is_legacy_v3 :: "('j, 'f) wire \<Rightarrow> 'j \<Rightarrow> bool" where
  "is_legacy_v3 w v \<longleftrightarrow>
     get_str w v ''type'' = Some ''session'' \<and> get_u64 w v ''version'' = Some 3 \<and>
     get_str w v ''id'' \<noteq> None \<and> get_str w v ''cwd'' \<noteq> None \<and> get_str w v ''timestamp'' \<noteq> None \<and>
     is_none_or (wi_get w v ''parentSession'') (\<lambda>p. wi_as_str w p \<noteq> None)"

definition parse_header :: "('j, 'f) wire \<Rightarrow> utf8 \<Rightarrow> session_error + parsed_header" where
  "parse_header w line =
     rbind (map_err (\<lambda>e. invalid_header ''invalid JSONL session header: not valid JSON'' (Some e))
              (wi_from_str w line)) (\<lambda>v.
     if \<not> wi_is_object w v then Inl (invalid_header ''invalid JSONL session header'' None)
     else if get_str w v ''kind'' = Some ''header'' \<and> get_u64 w v ''v'' = Some (ucast JSONL_FORMAT_VERSION)
     then
       rbind (map_err (\<lambda>e. invalid_header ''invalid JSONL session header'' (Some e))
                (wi_header_from_value w v)) (\<lambda>h.
       if header_rejected h then Inl (invalid_header ''invalid JSONL session header'' None)
       else Inr (V4 h))
     else if is_legacy_v3 w v
     then
       rbind (map_err (\<lambda>e. invalid_header ''invalid legacy v3 JSONL session header'' (Some e))
                (wi_legacy_header_from_value w v)) (\<lambda>h.
       case wi_timestamp_millis w (lh_timestamp h) of
         Inl _ \<Rightarrow> Inl (invalid_header ''invalid legacy v3 JSONL session header'' None)
       | Inr _ \<Rightarrow> Inr (LegacyV3 h))
     else Inl (invalid_header ''invalid JSONL session header'' None))"

section \<open>Transactions\<close>

definition wire_corrupt :: "string \<Rightarrow> string option \<Rightarrow> session_error" where
  "wire_corrupt message source = backend_failure Corrupt message source"

definition validate_committed_wire :: "('j, 'f) committed_write \<Rightarrow> session_error + unit" where
  "validate_committed_wire write =
     (let seq = committed_seq write in
      if seq = 0 \<or> MAX_SAFE_INTEGER < seq then Inl (wire_corrupt ''invalid JSONL write seq'' None)
      else case write of
          CommittedEntry entry \<Rightarrow>
            if is_none_or (u64_of_i64 (entry_timestamp entry)) (\<lambda>timestamp. MAX_SAFE_INTEGER < timestamp)
            then Inl (wire_corrupt ''invalid JSONL entry timestamp'' None)
            else Inr ()
        | CommittedUsage _ \<Rightarrow> Inr ()
        | CommittedValue _ \<Rightarrow> Inr ()
        | CommittedList _ \<Rightarrow> Inr ())"

definition parse_write :: "('j, 'f) wire \<Rightarrow> 'j \<Rightarrow> session_error + ('j, 'f) committed_write" where
  "parse_write w v =
     rbind (map_err (\<lambda>e. wire_corrupt ''invalid JSONL transaction write'' (Some e))
              (wi_write_from_value w v)) (\<lambda>write.
     rbind (validate_committed_wire write) (\<lambda>_. Inr write))"

definition parse_transaction ::
  "('j, 'f) wire \<Rightarrow> utf8 \<Rightarrow> session_error + ('j, 'f) committed_write list" where
  "parse_transaction w line =
     rbind (map_err (\<lambda>e. wire_corrupt ''invalid JSONL transaction: not valid JSON'' (Some e))
              (wi_from_str w line)) (\<lambda>v.
     collect_results (parse_write w) (case wi_as_array w v of Some vs \<Rightarrow> vs | None \<Rightarrow> [v]))"

definition serialize_transaction :: "('j, 'f) wire \<Rightarrow> ('j, 'f) committed_write list \<Rightarrow> utf8" where
  "serialize_transaction w writes =
     (if length writes = 1 then wi_write_to_string w (hd writes) else wi_writes_to_string w writes)"

section \<open>Lines\<close>

text \<open>The part of the content before its last newline, if it has one (\<open>rfind\<close>).\<close>

definition before_last_nl :: "utf8 \<Rightarrow> utf8 option" where
  "before_last_nl content =
     (if 10 \<in> set content then Some (rev (tl (dropWhile (\<lambda>b. b \<noteq> 10) (rev content)))) else None)"

definition split_complete_lines :: "utf8 \<Rightarrow> utf8 list \<times> bool" where
  "split_complete_lines content =
     (if content \<noteq> [] \<and> last content = 10 then (split_on 10 (butlast content), False)
      else case before_last_nl content of
          None \<Rightarrow> ([], True)
        | Some complete \<Rightarrow> (split_on 10 complete, True))"

section \<open>What is relied on of serde and JSON\<close>

definition text_line :: "utf8 \<Rightarrow> bool" where
  "text_line t \<longleftrightarrow> t \<noteq> [] \<and> 10 \<notin> set t \<and> valid_utf8 t"

text \<open>
  \<open>hs\<close> and \<open>ws\<close> say which headers and writes round-trip through JSON (a write whose cost is not
  a finite number does not: JSON has no such number).
\<close>

definition wire_header_ok :: "('j, 'f) wire \<Rightarrow> jsonl_header \<Rightarrow> bool" where
  "wire_header_ok w h \<longleftrightarrow>
     (\<exists>t v. wi_header_to_string w h = Inr t \<and> text_line t \<and> wi_from_str w t = Inr v \<and>
        wi_is_object w v \<and> get_str w v ''kind'' = Some (jh_kind h) \<and>
        get_u64 w v ''v'' = Some (ucast (jh_v h)) \<and> wi_header_from_value w v = Inr h)"

definition wire_write_ok :: "('j, 'f) wire \<Rightarrow> ('j, 'f) committed_write \<Rightarrow> bool" where
  "wire_write_ok w c \<longleftrightarrow>
     text_line (wi_write_to_string w c) \<and>
     (\<exists>v. wi_from_str w (wi_write_to_string w c) = Inr v \<and> wi_as_array w v = None \<and>
        wi_write_from_value w v = Inr c)"

definition wire_writes_ok :: "('j, 'f) wire \<Rightarrow> ('j, 'f) committed_write list \<Rightarrow> bool" where
  "wire_writes_ok w cs \<longleftrightarrow>
     text_line (wi_writes_to_string w cs) \<and>
     (\<exists>v vs. wi_from_str w (wi_writes_to_string w cs) = Inr v \<and> wi_as_array w v = Some vs \<and>
        list_all2 (\<lambda>v c. wi_write_from_value w v = Inr c) vs cs)"

definition wire_ok ::
  "('j, 'f) wire \<Rightarrow> (jsonl_header \<Rightarrow> bool) \<Rightarrow> (('j, 'f) committed_write \<Rightarrow> bool) \<Rightarrow> bool" where
  "wire_ok w hs ws \<longleftrightarrow>
     (\<forall>h. hs h \<longrightarrow> wire_header_ok w h) \<and> (\<forall>c. ws c \<longrightarrow> wire_write_ok w c) \<and>
     (\<forall>cs. list_all ws cs \<longrightarrow> wire_writes_ok w cs)"

text \<open>The numbers a write may carry to be accepted again when the file is read.\<close>

definition wire_safe :: "('j, 'f) committed_write \<Rightarrow> bool" where
  "wire_safe c \<longleftrightarrow> validate_committed_wire c = Inr ()"

section \<open>Round trips\<close>

lemma collect_results_all2:
  "list_all2 (\<lambda>v c. f v = Inr c) vs cs \<Longrightarrow> collect_results f vs = Inr cs"
  by (induction rule: list_all2_induct) auto

lemma parse_serialize_transaction:
  assumes "wire_ok w hs ws" and "list_all ws cs" and "list_all wire_safe cs"
  shows "parse_transaction w (serialize_transaction w cs) = Inr cs"
proof (cases "length cs = 1")
  case True
  then obtain c where cs: "cs = [c]"
    by (auto simp: length_Suc_conv)
  with assms have "wire_write_ok w c" "wire_safe c"
    by (auto simp: wire_ok_def)
  then show ?thesis
    by (auto simp: cs serialize_transaction_def parse_transaction_def wire_write_ok_def parse_write_def wire_safe_def)
next
  case False
  from assms have "wire_writes_ok w cs"
    by (auto simp: wire_ok_def)
  then obtain v vs where v: "wi_from_str w (wi_writes_to_string w cs) = Inr v" "wi_as_array w v = Some vs"
    and all: "list_all2 (\<lambda>v c. wi_write_from_value w v = Inr c) vs cs"
    by (auto simp: wire_writes_ok_def)
  from all assms(3) have "list_all2 (\<lambda>v c. parse_write w v = Inr c) vs cs"
    by (induction rule: list_all2_induct) (auto simp: parse_write_def wire_safe_def)
  with v False show ?thesis
    by (simp add: serialize_transaction_def parse_transaction_def collect_results_all2)
qed

lemma serialize_transaction_line:
  assumes "wire_ok w hs ws" and "list_all ws cs"
  shows "text_line (serialize_transaction w cs)"
proof (cases "length cs = 1")
  case True
  then show ?thesis
    using assms by (auto simp: serialize_transaction_def wire_ok_def wire_write_ok_def length_Suc_conv)
next
  case False
  then show ?thesis
    using assms by (auto simp: serialize_transaction_def wire_ok_def wire_writes_ok_def)
qed

lemma parse_header_ok:
  assumes "wire_ok w hs ws" and "hs h" and "\<not> header_rejected h"
  obtains t where "wi_header_to_string w h = Inr t" and "text_line t" and "parse_header w t = Inr (V4 h)"
proof -
  from assms obtain t v where t: "wi_header_to_string w h = Inr t" "text_line t" "wi_from_str w t = Inr v"
    "wi_is_object w v" "get_str w v ''kind'' = Some (jh_kind h)" "get_u64 w v ''v'' = Some (ucast (jh_v h))"
    "wi_header_from_value w v = Inr h"
    by (auto simp: wire_ok_def wire_header_ok_def)
  moreover have "jh_kind h = ''header''" "jh_v h = JSONL_FORMAT_VERSION"
    using assms(3) by (auto simp: header_rejected_def)
  ultimately have "parse_header w t = Inr (V4 h)"
    using assms(3) by (simp add: parse_header_def)
  with t show thesis
    by (intro that)
qed

text \<open>The text of a file with the given complete lines.\<close>

definition file_text :: "utf8 list \<Rightarrow> utf8" where
  "file_text lines = concat (map (\<lambda>l. l @ [10]) lines)"

lemma file_text_simps [simp]:
  "file_text [] = []" "file_text (l # ls) = l @ 10 # file_text ls"
  "file_text (ls @ ls') = file_text ls @ file_text ls'"
  by (simp_all add: file_text_def)

lemma file_text_join: "ls \<noteq> [] \<Longrightarrow> file_text ls = join_with 10 ls @ [10]"
  by (induction "10 :: u8" ls rule: join_with.induct) auto

lemma valid_file_text: "list_all text_line ls \<Longrightarrow> valid_utf8 (file_text ls)"
proof (induction ls)
  case (Cons l ls)
  then have "valid_utf8 l" "valid_utf8 (10 # file_text ls)"
    by (auto simp: text_line_def utf8_width_def)
  then show ?case
    by (simp add: valid_utf8_append)
qed simp

lemma split_complete_file:
  assumes "ls \<noteq> []" and "\<forall>l \<in> set ls. 10 \<notin> set l"
  shows "split_complete_lines (file_text ls) = (ls, False)"
  using assms by (simp add: split_complete_lines_def file_text_join split_on_join)

lemma before_last_nl_append:
  "10 \<notin> set p \<Longrightarrow> before_last_nl (a @ 10 # p) = Some a"
proof -
  assume "10 \<notin> set p"
  then have "dropWhile (\<lambda>b. b \<noteq> 10) (rev p @ 10 # rev a) = 10 # rev a"
    by (subst dropWhile_append2) auto
  then show ?thesis
    by (simp add: before_last_nl_def)
qed

lemma split_torn_file:
  assumes "ls \<noteq> []" and "\<forall>l \<in> set ls. 10 \<notin> set l" and "p \<noteq> []" and "10 \<notin> set p"
  shows "split_complete_lines (file_text ls @ p) = (ls, True)"
proof -
  have "last (file_text ls @ p) \<noteq> 10"
    using assms(3,4) by (metis last_appendR last_in_set)
  moreover have "before_last_nl (file_text ls @ p) = Some (join_with 10 ls)"
    using assms by (simp add: file_text_join before_last_nl_append)
  ultimately show ?thesis
    using assms by (simp add: split_complete_lines_def split_on_join)
qed

end
