(* ===== verification/Jsonl_Storage.thy ===== *)
theory Jsonl_Storage
  imports Jsonl_Codec Session_Fork Session_Ids
begin

text \<open>
  The durable backend (\<open>harness_session/jsonl/storage.rs\<close>): creating, opening and forking session
  files, committing a batch as one appended line, the upgrade of an imported version-3 file, and
  the methods of the \<open>Storage\<close> trait. The queries run on the same \<open>InMemoryStorageState\<close> as the
  in-memory backend.

  Operations are state-passing steps over the file system, or over \<open>jsonl_world\<close> (a handle, the
  file system and the process-wide id generator). The normalization of version-3 records
  (\<open>legacy_v3.rs\<close>) enters as the record \<open>legacy\<close>.
\<close>

section \<open>State\<close>

datatype ('j, 'f) backing = Backing_V4 | Backing_V3 "'f usage" "('j, 'f) committed_write list"

record ('j, 'f) jsonl_inner =
  ji_state :: "('j, 'f) storage_state"
  ji_backing :: "('j, 'f) backing"
  ji_header :: jsonl_header

record ('j, 'f) jsonl_storage =
  js_inner :: "('j, 'f) jsonl_inner"
  js_closed :: bool
  js_active :: nat
  js_path :: string

record ('j, 'f) jsonl_world =
  jw_storage :: "('j, 'f) jsonl_storage"
  jw_fs :: fs
  jw_ids :: generator_state

record ('j, 'f) normalized_legacy =
  nl_writes :: "('j, 'f) committed_write list"
  nl_imported_usage :: "'f usage"
  nl_next_seq :: u64

record ('j, 'f) legacy =
  lg_records :: "utf8 list \<Rightarrow> session_error + ('j, 'f) normalized_legacy"
  lg_header :: "fs \<Rightarrow> string \<Rightarrow> legacy_v3_header \<Rightarrow> session_error + jsonl_header"

record jsonl_env =
  je_io :: io_env
  je_now :: i64
  je_ids :: id_env

definition io_failure :: "string \<Rightarrow> string \<Rightarrow> io_error \<Rightarrow> session_error" where
  "io_failure path action e = backend_failure Io (action @ '' '' @ path) (Some (io_error_text e))"

definition jsonl_handle :: "('j, 'f) jsonl_inner \<Rightarrow> string \<Rightarrow> ('j, 'f) jsonl_storage" where
  "jsonl_handle inner path = \<lparr>js_inner = inner, js_closed = False, js_active = 0, js_path = path\<rparr>"

definition serialize_header :: "('j, 'f) wire \<Rightarrow> jsonl_header \<Rightarrow> session_error + utf8" where
  "serialize_header w h =
     map_err (\<lambda>e. backend_failure Corrupt ''failed to serialize JSONL storage header'' (Some e))
       (wi_header_to_string w h)"

definition complete_file ::
  "('j, 'f) wire \<Rightarrow> jsonl_header \<Rightarrow> utf8 list \<Rightarrow> session_error + utf8" where
  "complete_file w h transactions =
     rbind (serialize_header w h) (\<lambda>text.
       Inr (foldl (\<lambda>content transaction. (content @ [10]) @ transaction) text transactions @ [10]))"

section \<open>Creating and opening\<close>

definition create_sync ::
  "io_env \<Rightarrow> ('j, 'f::zero) wire \<Rightarrow> string \<Rightarrow> jsonl_header \<Rightarrow> (fs, ('j, 'f) jsonl_storage) op" where
  "create_sync env w path h =
     (if jh_v h \<noteq> JSONL_FORMAT_VERSION \<or> jh_kind h \<noteq> ''header''
      then op_fail (backend_failure InvalidHeader ''invalid JSONL storage header'' None)
      else
        op_bind (op_read (\<lambda>_. complete_file w h [])) (\<lambda>content.
        op_bind (publish_file_atomically env path content) (\<lambda>_.
        op_return (jsonl_handle \<lparr>ji_state = storage_new, ji_backing = Backing_V4, ji_header = h\<rparr> path))))"

definition line_failure :: "string \<Rightarrow> nat \<Rightarrow> session_error \<Rightarrow> session_error" where
  "line_failure path index e =
     backend_failure Corrupt (''invalid JSONL storage '' @ path @ '': line '' @ show_nat (index + 1))
       (Some (session_error_text e))"

fun load_lines ::
  "('j, 'f::plus) wire \<Rightarrow> string \<Rightarrow> nat \<Rightarrow> utf8 list \<Rightarrow> ('j, 'f) storage_state
    \<Rightarrow> session_error + ('j, 'f) storage_state" where
  "load_lines w path index [] s = Inr s"
| "load_lines w path index (line # lines) s =
     rbind (map_err (line_failure path index) (parse_transaction w line)) (\<lambda>writes.
     rbind (map_err (line_failure path index) (replay s writes)) (\<lambda>(s', _).
     load_lines w path (Suc index) lines s'))"

definition header_advance :: "jsonl_header \<Rightarrow> ('j, 'f) storage_state \<Rightarrow> ('j, 'f) storage_state" where
  "header_advance h s = (case jh_next_seq h of Some next_seq \<Rightarrow> advance_next_seq s next_seq | None \<Rightarrow> s)"

definition open_v4 ::
  "io_env \<Rightarrow> ('j, 'f::{plus,zero}) wire \<Rightarrow> string \<Rightarrow> jsonl_header \<Rightarrow> utf8 list \<Rightarrow> bool
    \<Rightarrow> (fs, jsonl_header \<times> ('j, 'f) jsonl_storage) op" where
  "open_v4 env w path h lines torn =
     (if jh_storage_version h \<noteq> JSONL_STORAGE_VERSION
      then op_fail (backend_failure VersionMismatch
             (''session '' @ jh_id h @ '' uses unsupported storage version '' @ show_word (jh_storage_version h)) None)
      else
        op_bind (op_read (\<lambda>_. load_lines w path 1 (tl lines) storage_new)) (\<lambda>s.
        op_bind (if torn then publish_file_atomically env path (join_with 10 lines @ [10]) else op_return ()) (\<lambda>_.
        op_return (h, jsonl_handle
          \<lparr>ji_state = header_advance h s, ji_backing = Backing_V4, ji_header = h\<rparr> path))))"

definition open_v3 ::
  "('j, 'f::{plus,zero}) legacy \<Rightarrow> string \<Rightarrow> legacy_v3_header \<Rightarrow> utf8 list
    \<Rightarrow> (fs, jsonl_header \<times> ('j, 'f) jsonl_storage) op" where
  "open_v3 lg path h record_lines =
     op_bind (op_read (\<lambda>_. lg_records lg record_lines)) (\<lambda>normalized.
     op_bind (op_read (\<lambda>fs. lg_header lg fs path h)) (\<lambda>header.
     let target_header = header\<lparr>jh_next_seq := Some (nl_next_seq normalized)\<rparr> in
     op_bind (op_read (\<lambda>_.
       map_err (\<lambda>e. backend_failure Corrupt (''invalid legacy JSONL storage '' @ path) (Some (session_error_text e)))
         (replay storage_new (nl_writes normalized)))) (\<lambda>(s, _).
     op_return (target_header, jsonl_handle
       \<lparr>ji_state = s, ji_backing = Backing_V3 (nl_imported_usage normalized) (nl_writes normalized),
        ji_header = target_header\<rparr> path))))"

definition open_content ::
  "io_env \<Rightarrow> ('j, 'f::{plus,zero}) wire \<Rightarrow> ('j, 'f) legacy \<Rightarrow> string \<Rightarrow> utf8
    \<Rightarrow> (fs, jsonl_header \<times> ('j, 'f) jsonl_storage) op" where
  "open_content env w lg path content =
     (let (lines, torn) = split_complete_lines content in
      if lines = [] \<or> hd lines = []
      then op_fail (backend_failure InvalidHeader (''invalid JSONL storage '' @ path @ '': missing header'') None)
      else
        op_bind (op_read (\<lambda>_. map_err (\<lambda>e. backend_failure InvalidHeader
            (''invalid JSONL storage '' @ path @ '': invalid header'') (Some (session_error_text e)))
            (parse_header w (hd lines)))) (\<lambda>parsed.
        case parsed of
          V4 h \<Rightarrow> open_v4 env w path h lines torn
        | LegacyV3 h \<Rightarrow> open_v3 lg path h (tl lines)))"

definition open_sync ::
  "io_env \<Rightarrow> ('j, 'f::{plus,zero}) wire \<Rightarrow> ('j, 'f) legacy \<Rightarrow> string
    \<Rightarrow> (fs, jsonl_header \<times> ('j, 'f) jsonl_storage) op" where
  "open_sync env w lg path fs =
     op_bind (op_read (\<lambda>fs. map_err (io_failure path ''failed to read JSONL storage'') (read_to_string env path fs)))
       (open_content env w lg path)
       (restore_stranded_backup env path fs)"

definition create_from_fork_sync ::
  "io_env \<Rightarrow> ('j, 'f::{plus,zero}) wire \<Rightarrow> ('j, 'f) legacy \<Rightarrow> string \<Rightarrow> jsonl_header
    \<Rightarrow> ('j, 'f) fork_destination_snapshot \<Rightarrow> (fs, ('j, 'f) jsonl_storage) op" where
  "create_from_fork_sync env w lg path h snapshot =
     (let h' = h\<lparr>jh_next_seq := Some (fd_next_seq snapshot)\<rparr>;
          transactions = map (\<lambda>c. serialize_transaction w [c]) (fork_snapshot_writes snapshot)
      in op_bind (op_read (\<lambda>_. complete_file w h' transactions)) (\<lambda>content.
         op_bind (publish_file_atomically env path content) (\<lambda>_.
         op_bind (open_sync env w lg path) (\<lambda>(_, storage). op_return storage))))"

section \<open>Committing\<close>

definition stats_with_imported_usage ::
  "('f::plus) session_stats \<Rightarrow> ('j, 'f) backing \<Rightarrow> 'f session_stats" where
  "stats_with_imported_usage stats backing =
     (case backing of
        Backing_V3 imported_usage _ \<Rightarrow> stats\<lparr>ss_usage := add_usage (ss_usage stats) imported_usage\<rparr>
      | Backing_V4 \<Rightarrow> stats)"

definition update_inner ::
  "(('j, 'f) jsonl_inner \<Rightarrow> ('j, 'f) jsonl_inner) \<Rightarrow> ('j, 'f) jsonl_world \<Rightarrow> ('j, 'f) jsonl_world" where
  "update_inner f x = x\<lparr>jw_storage := (jw_storage x)\<lparr>js_inner := f (js_inner (jw_storage x))\<rparr>\<rparr>"

definition on_files :: "(fs, 'a) op \<Rightarrow> (('j, 'f) jsonl_world, 'a) op" where
  "on_files m x = (case m (jw_fs x) of (r, fs') \<Rightarrow> (r, x\<lparr>jw_fs := fs'\<rparr>))"

definition append_transaction ::
  "io_env \<Rightarrow> ('j, 'f) wire \<Rightarrow> string \<Rightarrow> ('j, 'f) committed_write list \<Rightarrow> (fs, unit) op" where
  "append_transaction env w path committed fs =
     (if committed = [] then (Inr (), fs)
      else case append_line env path (serialize_transaction w committed) fs of
          (Inl e, fs') \<Rightarrow> (Inl (io_failure path ''failed to append JSONL storage'' e), fs')
        | (Inr _, fs') \<Rightarrow> (Inr (), fs'))"

definition apply_world ::
  "('j, 'f::plus) committed_write list \<Rightarrow> (('j, 'f) jsonl_world, 'f session_stats) op" where
  "apply_world committed x =
     (let (s', stats) = apply_committed (ji_state (js_inner (jw_storage x))) committed
      in (Inr stats, update_inner (\<lambda>inner. inner\<lparr>ji_state := s'\<rparr>) x))"

definition next_id :: "id_env \<Rightarrow> i64 option \<Rightarrow> (('j, 'f) jsonl_world, string) op" where
  "next_id ids timestamp x =
     (case next_string ids (jw_ids x) timestamp of (r, g) \<Rightarrow> (r, x\<lparr>jw_ids := g\<rparr>))"

definition import_row :: "('j, 'f) wire \<Rightarrow> usage_id \<Rightarrow> 'f usage \<Rightarrow> ('j, 'f) session_write" where
  "import_row w usage_id imported_usage =
     WriteUsage \<lparr>nu_id = usage_id, nu_usage = imported_usage, nu_entry_id = None, nu_adjustment = True,
       nu_details = Some (wi_import_details w)\<rparr>"

definition upgrade_v3_locked ::
  "jsonl_env \<Rightarrow> ('j, 'f::plus) wire \<Rightarrow> 'f usage \<Rightarrow> ('j, 'f) committed_write list \<Rightarrow> ('j, 'f) session_write list
    \<Rightarrow> (('j, 'f) jsonl_world, 'f commit_result) op" where
  "upgrade_v3_locked env w imported_usage baseline caller_writes =
     op_bind (next_id (je_ids env) (Some (je_now env))) (\<lambda>usage_id.
     op_bind (op_read Inr) (\<lambda>x.
     let inner = js_inner (jw_storage x);
         path = js_path (jw_storage x);
         writes = import_row w usage_id imported_usage # caller_writes;
         first_seq = st_next_seq (ji_state inner)
     in
     op_bind (op_read (\<lambda>_. validate_committed_writes writes first_seq (storage_view (ji_state inner)))) (\<lambda>_.
     op_bind (op_read (\<lambda>_. commit_writes writes first_seq (je_now env))) (\<lambda>(committed, seqs).
     op_bind (op_read (\<lambda>_. seq_at first_seq (length committed))) (\<lambda>next_seq.
     let header = (ji_header inner)\<lparr>jh_next_seq := Some next_seq\<rparr>;
         transactions = map (\<lambda>c. serialize_transaction w [c]) baseline @ [serialize_transaction w committed]
     in
     op_bind (op_read (\<lambda>_. complete_file w header transactions)) (\<lambda>content.
     op_bind (on_files (publish_file_atomically (je_io env) path content)) (\<lambda>_.
     op_bind (apply_world committed) (\<lambda>stats.
     op_bind (\<lambda>x. (Inr (), update_inner (\<lambda>inner. inner\<lparr>ji_header := header, ji_backing := Backing_V4\<rparr>) x)) (\<lambda>_.
     op_return \<lparr>cr_first_seq = saturating_add first_seq 1, cr_seqs = tl seqs, cr_timestamp = je_now env,
                cr_stats = stats\<rparr>)))))))))"

definition commit_v4 ::
  "jsonl_env \<Rightarrow> ('j, 'f::plus) wire \<Rightarrow> ('j, 'f) session_write list
    \<Rightarrow> (('j, 'f) jsonl_world, 'f commit_result) op" where
  "commit_v4 env w writes =
     op_bind (op_read Inr) (\<lambda>x.
     let inner = js_inner (jw_storage x);
         path = js_path (jw_storage x);
         first_seq = st_next_seq (ji_state inner)
     in
     op_bind (op_read (\<lambda>_. validate_committed_writes writes first_seq (storage_view (ji_state inner)))) (\<lambda>_.
     op_bind (op_read (\<lambda>_. commit_writes writes first_seq (je_now env))) (\<lambda>(committed, seqs).
     op_bind (on_files (append_transaction (je_io env) w path committed)) (\<lambda>_.
     op_bind (apply_world committed) (\<lambda>stats.
     op_return \<lparr>cr_first_seq = first_seq, cr_seqs = seqs, cr_timestamp = je_now env, cr_stats = stats\<rparr>)))))"

definition commit_sync ::
  "jsonl_env \<Rightarrow> ('j, 'f::plus) wire \<Rightarrow> ('j, 'f) session_write list
    \<Rightarrow> (('j, 'f) jsonl_world, 'f commit_result) op" where
  "commit_sync env w writes x =
     (let inner = js_inner (jw_storage x) in
      case ji_backing inner of
        Backing_V3 imported_usage baseline \<Rightarrow>
          if writes = []
          then (Inr \<lparr>cr_first_seq = st_next_seq (ji_state inner), cr_seqs = [], cr_timestamp = je_now env,
                     cr_stats = stats_with_imported_usage (st_stats (ji_state inner)) (ji_backing inner)\<rparr>, x)
          else upgrade_v3_locked env w imported_usage baseline writes x
      | Backing_V4 \<Rightarrow> commit_v4 env w writes x)"

section \<open>The methods of the storage trait\<close>

definition jsonl_ensure_open :: "('j, 'f) jsonl_storage \<Rightarrow> session_error + unit" where
  "jsonl_ensure_open st = (if js_closed st then Inl closed_error else Inr ())"

definition jsonl_guard :: "('j, 'f) jsonl_storage \<Rightarrow> call_context \<Rightarrow> session_error + unit" where
  "jsonl_guard st cx = rbind (check_context cx) (\<lambda>_. jsonl_ensure_open st)"

definition jsonl_admit :: "('j, 'f) jsonl_storage \<Rightarrow> session_error + ('j, 'f) jsonl_storage" where
  "jsonl_admit st =
     (if js_closed st then Inl closed_error else Inr (st\<lparr>js_active := js_active st + 1\<rparr>))"

definition jsonl_release :: "('j, 'f) jsonl_storage \<Rightarrow> ('j, 'f) jsonl_storage" where
  "jsonl_release st = st\<lparr>js_active := js_active st - 1\<rparr>"

text \<open>\<open>commit\<close> holds a permit while the blocking task runs \<open>commit_sync\<close>.\<close>

definition jsonl_commit ::
  "jsonl_env \<Rightarrow> ('j, 'f::plus) wire \<Rightarrow> ('j, 'f) session_write list \<Rightarrow> call_context
    \<Rightarrow> (('j, 'f) jsonl_world, 'f commit_result) op" where
  "jsonl_commit env w writes cx x =
     (case rbind (check_context cx) (\<lambda>_. jsonl_admit (jw_storage x)) of
        Inl e \<Rightarrow> (Inl e, x)
      | Inr st \<Rightarrow>
          (case commit_sync env w writes (x\<lparr>jw_storage := st\<rparr>) of
             (r, x') \<Rightarrow> (r, x'\<lparr>jw_storage := jsonl_release (jw_storage x')\<rparr>)))"

definition with_state ::
  "('j, 'f) jsonl_world \<Rightarrow> call_context \<Rightarrow> (('j, 'f) storage_state \<Rightarrow> session_error + 'a) \<Rightarrow> session_error + 'a" where
  "with_state x cx f =
     rbind (jsonl_guard (jw_storage x) cx) (\<lambda>_. f (ji_state (js_inner (jw_storage x))))"

definition jsonl_get_entries ::
  "('j, 'f) jsonl_world \<Rightarrow> entry_id list \<Rightarrow> call_context \<Rightarrow> session_error + (entry_id, ('j, 'f) entry) btree_map" where
  "jsonl_get_entries x ids cx = with_state x cx (\<lambda>s. Inr (collect_entries s ids))"

definition jsonl_get_value ::
  "('j, 'f) jsonl_world \<Rightarrow> raw_address \<Rightarrow> call_context \<Rightarrow> session_error + 'j raw_stored_value option" where
  "jsonl_get_value x addr cx =
     with_state x cx (\<lambda>s. Inr (bt_get (st_values s) (ra_namespace addr, ra_key addr)))"

definition jsonl_scan_values ::
  "('j, 'f) jsonl_world \<Rightarrow> raw_address \<Rightarrow> call_context \<Rightarrow> session_error + 'j raw_stored_value list" where
  "jsonl_scan_values x pre cx =
     with_state x cx (\<lambda>s.
       Inr (filter (\<lambda>v. rv_namespace v = ra_namespace pre \<and> prefix (ra_key pre) (rv_key v)) (bt_values (st_values s))))"

definition jsonl_read_list ::
  "('j, 'f) jsonl_world \<Rightarrow> raw_address \<Rightarrow> list_read_options option \<Rightarrow> call_context
    \<Rightarrow> session_error + 'j raw_list_element list" where
  "jsonl_read_list x addr options cx =
     with_state x cx (\<lambda>s.
       rbind (map_err (\<lambda>_. Invariant ''list limit must be positive'') (resolve_list_read_options options)) (\<lambda>options.
       Inr (list_window options (unwrap_or (bt_get (st_lists s) (ra_namespace addr, ra_key addr)) []))))"

definition jsonl_scan_branch ::
  "('j, 'f) jsonl_world \<Rightarrow> storage_branch_scan \<Rightarrow> call_context \<Rightarrow> session_error + ('j, 'f) entry list" where
  "jsonl_scan_branch x q cx = with_state x cx (\<lambda>s. scan_branch s q)"

definition jsonl_scan_branch_structure ::
  "('j, 'f) jsonl_world \<Rightarrow> storage_branch_scan \<Rightarrow> call_context \<Rightarrow> session_error + entry_structure list" where
  "jsonl_scan_branch_structure x q cx =
     rbind (jsonl_scan_branch x q cx) (\<lambda>entries. Inr (map entry_structure_from entries))"

definition jsonl_scan_entries ::
  "('j, 'f) jsonl_world \<Rightarrow> entry_scan \<Rightarrow> call_context \<Rightarrow> session_error + ('j, 'f) entry list" where
  "jsonl_scan_entries x q cx =
     with_state x cx (\<lambda>s.
       let entries = filter (\<lambda>e.
             is_none_or (es_from_seq q) (\<lambda>v. v \<le> entry_seq e) \<and>
             is_none_or (es_to_seq q) (\<lambda>v. entry_seq e \<le> v) \<and>
             is_none_or (es_entry_type q) (\<lambda>v. type_of_entry e = v) \<and>
             is_none_or (es_custom_type q) (\<lambda>v. entry_custom_type e = Some v))
             (bt_values (st_entries s));
           sorted = sort_key entry_seq entries;
           ordered = (if es_order q = Some Desc then rev sorted else sorted)
       in Inr (take (scan_limit (es_limit q)) ordered))"

definition jsonl_scan_usage ::
  "('j, 'f) jsonl_world \<Rightarrow> usage_scan \<Rightarrow> call_context \<Rightarrow> session_error + ('j, 'f) usage_row list" where
  "jsonl_scan_usage x q cx =
     with_state x cx (\<lambda>s.
       let rows = filter (\<lambda>row.
             is_none_or (uq_from_seq q) (\<lambda>v. v \<le> ur_seq row) \<and>
             is_none_or (uq_to_seq q) (\<lambda>v. ur_seq row \<le> v))
             (bt_values (st_usage s));
           sorted = sort_key ur_seq rows;
           ordered = (if uq_order q = Some Desc then rev sorted else sorted)
       in Inr (take (scan_limit (uq_limit q)) ordered))"

definition jsonl_get_stats ::
  "('j, 'f::plus) jsonl_world \<Rightarrow> call_context \<Rightarrow> session_error + 'f session_stats" where
  "jsonl_get_stats x cx =
     rbind (jsonl_guard (jw_storage x) cx) (\<lambda>_.
       let inner = js_inner (jw_storage x)
       in Inr (stats_with_imported_usage (st_stats (ji_state inner)) (ji_backing inner)))"

text \<open>
  \<open>close\<close> seals the handle and then waits until no permit is held; here the calls run one after
  the other, so that none is. The theory \<open>Jsonl_Drain\<close> models the waiting.
\<close>

definition jsonl_close :: "call_context \<Rightarrow> (('j, 'f) jsonl_world, unit) op" where
  "jsonl_close cx x =
     (case check_context cx of
        Inl e \<Rightarrow> (Inl e, x)
      | Inr _ \<Rightarrow> (Inr (), x\<lparr>jw_storage := (jw_storage x)\<lparr>js_closed := True\<rparr>\<rparr>))"

definition jsonl_capture_fork_source ::
  "('j, 'f) jsonl_world \<Rightarrow> call_context \<Rightarrow> session_error + ('j, 'f) fork_source_snapshot" where
  "jsonl_capture_fork_source x cx =
     rbind (check_context cx) (\<lambda>_.
     rbind (jsonl_admit (jw_storage x)) (\<lambda>_.
     Inr (snapshot_for_fork (ji_state (js_inner (jw_storage x))))))"

definition jsonl_ops :: "jsonl_env \<Rightarrow> ('j, 'f::plus) wire \<Rightarrow> (('j, 'f) jsonl_world, 'j, 'f) storage_ops" where
  "jsonl_ops env w =
     \<lparr>so_commit = jsonl_commit env w,
      so_get_entries = jsonl_get_entries, so_get_value = jsonl_get_value,
      so_scan_values = jsonl_scan_values, so_read_list = jsonl_read_list,
      so_scan_branch = jsonl_scan_branch, so_scan_branch_structure = jsonl_scan_branch_structure,
      so_scan_entries = jsonl_scan_entries, so_scan_usage = jsonl_scan_usage,
      so_get_stats = jsonl_get_stats, so_close = jsonl_close\<rparr>"

end
