(* ===== verification/Jsonl_Durable.thy ===== *)
theory Jsonl_Durable
  imports Jsonl_Storage
begin

text \<open>
  What the durable backend guarantees of its file. \<open>durable\<close> says that reading the file again
  gives exactly the handle's state; commits keep it, a failed append leaves a file from which the
  state before the commit is recovered, and a fork or an upgraded import starts in it.
\<close>

abbreviation state_of :: "('j, 'f) jsonl_world \<Rightarrow> ('j, 'f) storage_state" where
  "state_of x \<equiv> ji_state (js_inner (jw_storage x))"

abbreviation header_of :: "('j, 'f) jsonl_world \<Rightarrow> jsonl_header" where
  "header_of x \<equiv> ji_header (js_inner (jw_storage x))"

abbreviation backing_of :: "('j, 'f) jsonl_world \<Rightarrow> ('j, 'f) backing" where
  "backing_of x \<equiv> ji_backing (js_inner (jw_storage x))"

abbreviation path_of :: "('j, 'f) jsonl_world \<Rightarrow> string" where
  "path_of x \<equiv> js_path (jw_storage x)"

section \<open>Commits, spelled out\<close>

lemma update_inner_sel [simp]:
  "js_inner (jw_storage (update_inner f x)) = f (js_inner (jw_storage x))"
  "js_closed (jw_storage (update_inner f x)) = js_closed (jw_storage x)"
  "js_active (jw_storage (update_inner f x)) = js_active (jw_storage x)"
  "js_path (jw_storage (update_inner f x)) = js_path (jw_storage x)"
  "jw_fs (update_inner f x) = jw_fs x" "jw_ids (update_inner f x) = jw_ids x"
  by (simp_all add: update_inner_def)

lemma commit_v4_Inr_iff:
  "commit_v4 env w ws x = (Inr r, x') \<longleftrightarrow>
   (\<exists>s' cs fs'. apply_batch (state_of x) ws (je_now env) = Inr (s', r) \<and>
      commit_writes ws (st_next_seq (state_of x)) (je_now env) = Inr (cs, cr_seqs r) \<and>
      append_transaction (je_io env) w (path_of x) cs (jw_fs x) = (Inr (), fs') \<and>
      x' = update_inner (\<lambda>inner. inner\<lparr>ji_state := s'\<rparr>) (x\<lparr>jw_fs := fs'\<rparr>))"
  by (auto simp: commit_v4_def op_bind_def op_read_def op_return_def on_files_def apply_world_def apply_batch_def Let_def
      rbind_def apply_committed_def split: sum.splits prod.splits)

lemma commit_v4_Inl:
  assumes "commit_v4 env w ws x = (Inl e, x')"
  shows "(x' = x \<and> (\<exists>e'. apply_batch (state_of x) ws (je_now env) = Inl e')) \<or>
    (\<exists>cs seqs fs' e'. commit_writes ws (st_next_seq (state_of x)) (je_now env) = Inr (cs, seqs) \<and> cs \<noteq> [] \<and>
      append_line (je_io env) (path_of x) (serialize_transaction w cs) (jw_fs x) = (Inl e', fs') \<and>
      x' = x\<lparr>jw_fs := fs'\<rparr>)"
  using assms
  by (auto simp: commit_v4_def op_bind_def op_read_def op_return_def on_files_def apply_world_def apply_batch_def Let_def
      rbind_def apply_committed_def append_transaction_def split: sum.splits prod.splits if_splits)

lemma permit_restored:
  "(update_inner f (x\<lparr>jw_storage := (jw_storage x)\<lparr>js_active := js_active (jw_storage x) + 1\<rparr>, jw_fs := fs\<rparr>))
     \<lparr>jw_storage := jsonl_release (jw_storage (update_inner f
        (x\<lparr>jw_storage := (jw_storage x)\<lparr>js_active := js_active (jw_storage x) + 1\<rparr>, jw_fs := fs\<rparr>)))\<rparr> =
   update_inner f (x\<lparr>jw_fs := fs\<rparr>)"
  by (simp add: update_inner_def jsonl_release_def)

lemma jsonl_commit_Inr:
  assumes "jsonl_commit env w ws cx x = (Inr r, x')" and "backing_of x = Backing_V4"
  obtains s' cs fs' where "\<not> cx_cancelled cx" "\<not> js_closed (jw_storage x)"
    "apply_batch (state_of x) ws (je_now env) = Inr (s', r)"
    "commit_writes ws (st_next_seq (state_of x)) (je_now env) = Inr (cs, cr_seqs r)"
    "append_transaction (je_io env) w (path_of x) cs (jw_fs x) = (Inr (), fs')"
    "x' = update_inner (\<lambda>inner. inner\<lparr>ji_state := s'\<rparr>) (x\<lparr>jw_fs := fs'\<rparr>)"
proof -
  let ?y = "x\<lparr>jw_storage := (jw_storage x)\<lparr>js_active := js_active (jw_storage x) + 1\<rparr>\<rparr>"
  from assms obtain y' where live: "\<not> cx_cancelled cx" "\<not> js_closed (jw_storage x)"
    and c: "commit_v4 env w ws ?y = (Inr r, y')" and x': "x' = y'\<lparr>jw_storage := jsonl_release (jw_storage y')\<rparr>"
    by (auto simp: jsonl_commit_def rbind_def check_context_def jsonl_admit_def commit_sync_def Let_def
        split: sum.splits prod.splits if_splits)
  from c obtain s' cs fs' where b: "apply_batch (state_of x) ws (je_now env) = Inr (s', r)"
    "commit_writes ws (st_next_seq (state_of x)) (je_now env) = Inr (cs, cr_seqs r)"
    "append_transaction (je_io env) w (path_of x) cs (jw_fs x) = (Inr (), fs')"
    and y': "y' = update_inner (\<lambda>inner. inner\<lparr>ji_state := s'\<rparr>) (?y\<lparr>jw_fs := fs'\<rparr>)"
    by (auto simp: commit_v4_Inr_iff)
  show thesis
    by (rule that [OF live b]) (simp only: x' y' permit_restored)
qed

lemma jsonl_commit_Inl:
  assumes "jsonl_commit env w ws cx x = (Inl e, x')" and "backing_of x = Backing_V4"
  shows "x' = x \<or>
    (\<exists>cs seqs fs' e'. commit_writes ws (st_next_seq (state_of x)) (je_now env) = Inr (cs, seqs) \<and> cs \<noteq> [] \<and>
      append_line (je_io env) (path_of x) (serialize_transaction w cs) (jw_fs x) = (Inl e', fs') \<and>
      x' = x\<lparr>jw_fs := fs'\<rparr>)"
proof -
  let ?y = "x\<lparr>jw_storage := (jw_storage x)\<lparr>js_active := js_active (jw_storage x) + 1\<rparr>\<rparr>"
  from assms consider "x' = x" |
    y' where "commit_v4 env w ws ?y = (Inl e, y')" "x' = y'\<lparr>jw_storage := jsonl_release (jw_storage y')\<rparr>"
    by (auto simp: jsonl_commit_def rbind_def check_context_def jsonl_admit_def commit_sync_def Let_def
        split: sum.splits prod.splits if_splits)
  then show ?thesis
  proof cases
    case 2
    from commit_v4_Inl [OF 2(1)] 2(2) show ?thesis
      by (auto simp: jsonl_release_def)
  qed blast
qed

section \<open>The invariant of the file\<close>

definition durable :: "('j, 'f::{plus,zero}) wire \<Rightarrow> ('j, 'f) jsonl_world \<Rightarrow> bool" where
  "durable w x \<longleftrightarrow>
     backing_of x = Backing_V4 \<and> jh_storage_version (header_of x) = JSONL_STORAGE_VERSION \<and>
     storage_wf (state_of x) \<and>
     (\<exists>t lines s. text_line t \<and> list_all text_line lines \<and> parse_header w t = Inr (V4 (header_of x)) \<and>
        jw_fs x (path_of x) = Some (file_text (t # lines)) \<and>
        load_lines w (path_of x) 1 lines storage_new = Inr s \<and> state_of x = header_advance (header_of x) s)"

lemma load_lines_append:
  "load_lines w path i (ls @ ls') s =
     rbind (load_lines w path i ls s) (\<lambda>s'. load_lines w path (i + length ls) ls' s')"
  by (induction ls arbitrary: i s) (auto simp: rbind_def split: sum.split)

lemma text_lineD: "list_all text_line ls \<Longrightarrow> \<forall>l \<in> set ls. 10 \<notin> set l"
  by (auto simp: list_all_iff text_line_def)

lemma open_content_complete:
  assumes "text_line t" and "list_all text_line lines" and "parse_header w t = Inr (V4 h)"
    and "jh_storage_version h = JSONL_STORAGE_VERSION" and "load_lines w path 1 lines storage_new = Inr s"
  shows "open_content env w lg path (file_text (t # lines)) fs =
    (Inr (h, jsonl_handle \<lparr>ji_state = header_advance h s, ji_backing = Backing_V4, ji_header = h\<rparr> path), fs)"
proof -
  have "split_complete_lines (file_text (t # lines)) = (t # lines, False)"
    using assms(1,2) text_lineD [of "t # lines"] by (intro split_complete_file) simp_all
  then show ?thesis
    using assms by (simp add: open_content_def open_v4_def text_line_def op_bind_def del: file_text_simps)
qed

lemma open_content_torn:
  assumes "text_line t" and "list_all text_line lines" and "parse_header w t = Inr (V4 h)"
    and "jh_storage_version h = JSONL_STORAGE_VERSION" and "load_lines w path 1 lines storage_new = Inr s"
    and "p \<noteq> []" and "10 \<notin> set p"
  shows "open_content env w lg path (file_text (t # lines) @ p) fs =
    (case publish_file_atomically env path (file_text (t # lines)) fs of
       (Inl e, fs') \<Rightarrow> (Inl e, fs')
     | (Inr _, fs') \<Rightarrow>
         (Inr (h, jsonl_handle \<lparr>ji_state = header_advance h s, ji_backing = Backing_V4, ji_header = h\<rparr> path), fs'))"
proof -
  have "split_complete_lines (file_text (t # lines) @ p) = (t # lines, True)"
    using assms(1,2,6,7) text_lineD [of "t # lines"] by (intro split_torn_file) simp_all
  then show ?thesis
    using assms by (simp add: open_content_def open_v4_def text_line_def op_bind_def file_text_join split: prod.splits sum.splits
        del: file_text_simps)
qed

lemma open_sync_present:
  assumes "fs path = Some bytes" and "valid_utf8 bytes" and "io_fault env Io_read = None"
  shows "open_sync env w lg path fs = open_content env w lg path bytes fs"
  using assms by (simp add: open_sync_def restore_present read_to_string_def op_bind_def)

text \<open>Opening the file of a durable session gives its state back and leaves the file as it is.\<close>

lemma open_durable:
  assumes "durable w x" and "io_fault env Io_read = None"
  shows "open_sync env w lg (path_of x) (jw_fs x) =
    (Inr (header_of x, jsonl_handle (js_inner (jw_storage x)) (path_of x)), jw_fs x)"
proof -
  from assms(1) obtain t lines s where
    V4: "backing_of x = Backing_V4" "jh_storage_version (header_of x) = JSONL_STORAGE_VERSION" and
    f: "text_line t" "list_all text_line lines" "parse_header w t = Inr (V4 (header_of x))"
      "jw_fs x (path_of x) = Some (file_text (t # lines))"
      "load_lines w (path_of x) 1 lines storage_new = Inr s" and
    st: "state_of x = header_advance (header_of x) s"
    unfolding durable_def by auto
  have valid: "valid_utf8 (file_text (t # lines))"
    using f(1,2) by (intro valid_file_text) simp
  have inner: "\<lparr>ji_state = header_advance (header_of x) s, ji_backing = Backing_V4, ji_header = header_of x\<rparr> =
      js_inner (jw_storage x)"
    using V4(1) st by (metis jsonl_inner.surjective old.unit.exhaust)
  show ?thesis
    unfolding open_sync_present [of "jw_fs x" "path_of x", OF f(4) valid assms(2)] open_content_complete [OF f(1-3) V4(2) f(5)] inner ..
qed

lemma open_torn:
  assumes "durable w x" and "fault_free env" and "p \<noteq> []" and "10 \<notin> set p" and "valid_utf8 p"
    and "jw_fs x (path_of x) = Some old" and "fs (path_of x) = Some (old @ p)"
  obtains fs' where "open_sync env w lg (path_of x) fs =
      (Inr (header_of x, jsonl_handle (js_inner (jw_storage x)) (path_of x)), fs')"
    and "fs' (path_of x) = Some old"
proof -
  from assms(1) obtain t lines s where
    V4: "backing_of x = Backing_V4" "jh_storage_version (header_of x) = JSONL_STORAGE_VERSION" and
    f: "text_line t" "list_all text_line lines" "parse_header w t = Inr (V4 (header_of x))"
      "jw_fs x (path_of x) = Some (file_text (t # lines))"
      "load_lines w (path_of x) 1 lines storage_new = Inr s" and
    st: "state_of x = header_advance (header_of x) s"
    unfolding durable_def by auto
  have old: "old = file_text (t # lines)"
    using f(4) assms(6) by simp
  have valid: "valid_utf8 (old @ p)"
    using f(1,2) assms(5) by (simp add: old valid_utf8_append valid_file_text del: file_text_simps)
  have inner: "\<lparr>ji_state = header_advance (header_of x) s, ji_backing = Backing_V4, ji_header = header_of x\<rparr> =
      js_inner (jw_storage x)"
    using V4(1) st by (metis jsonl_inner.surjective old.unit.exhaust)
  obtain fs' where pub: "publish_file_atomically env (path_of x) old fs = (Inr (), fs')"
    using publish_fault_free [OF assms(2)] by blast
  have read: "io_fault env Io_read = None"
    using assms(2) by (simp add: fault_free_def)
  have "open_sync env w lg (path_of x) fs =
      (Inr (header_of x, jsonl_handle (js_inner (jw_storage x)) (path_of x)), fs')"
    unfolding open_sync_present [of fs "path_of x", OF assms(7) valid read] unfolding old
    unfolding open_content_torn [OF f(1-3) V4(2) f(5) assms(3,4)]
    using pub by (simp add: old inner del: file_text_simps)
  then show thesis
    using publish_Inr [OF pub] by (rule that)
qed

section \<open>Commits keep the invariant\<close>

lemma apply_one_next_update: "apply_one (s\<lparr>st_next_seq := n\<rparr>) c = apply_one s c"
proof (cases c)
  case (CommittedValue v)
  then show ?thesis by (cases v) (simp_all add: apply_one_def)
next
  case (CommittedList l)
  then show ?thesis by (cases l) (simp_all add: apply_one_def)
qed (simp_all add: apply_one_def)

lemma header_advance_eq: "header_advance h s = s\<lparr>st_next_seq := st_next_seq (header_advance h s)\<rparr>"
  by (simp add: header_advance_def advance_next_seq_def split: option.split)

lemma st_next_le_advance: "st_next_seq s \<le> st_next_seq (header_advance h s)"
  by (simp add: header_advance_def advance_next_seq_def split: option.split)

lemma foldl_apply_advance:
  assumes "cs \<noteq> []"
  shows "foldl apply_one (header_advance h s) cs = foldl apply_one s cs"
  using assms by (cases cs) (simp_all, metis apply_one_next_update header_advance_eq)

lemma view_advance:
  "cv_contains_id (storage_view (header_advance h s)) = cv_contains_id (storage_view s)"
  "cv_contains_entry_id (storage_view (header_advance h s)) = cv_contains_entry_id (storage_view s)"
  "cv_next_seq (storage_view s) \<le> cv_next_seq (storage_view (header_advance h s))"
  using st_next_le_advance [of s h]
  by (simp_all add: storage_view_def header_advance_def advance_next_seq_def split: option.split)

lemma replay_ok_advance:
  assumes "replay_ok (storage_view (header_advance h s)) cs"
  shows "replay_ok (storage_view s) cs"
proof -
  have le: "saturating_sub (cv_next_seq (storage_view s)) 1 \<le> saturating_sub (cv_next_seq (storage_view (header_advance h s))) 1"
    using view_advance(3) [of s h] by (simp add: word_le_nat_alt unat_saturating_sub)
  show ?thesis
    using assms le unfolding replay_ok_def view_advance by (auto intro: le_less_trans)
qed

text \<open>
  A batch is storable when its committed writes round-trip through JSON and carry numbers the
  reader accepts.
\<close>

definition storable ::
  "(('j, 'f) committed_write \<Rightarrow> bool) \<Rightarrow> jsonl_env \<Rightarrow> ('j, 'f) storage_state \<Rightarrow> ('j, 'f) session_write list \<Rightarrow> bool" where
  "storable rt env s ws \<longleftrightarrow>
     (case commit_writes ws (st_next_seq s) (je_now env) of
        Inl _ \<Rightarrow> True | Inr (cs, _) \<Rightarrow> list_all rt cs \<and> list_all wire_safe cs)"

lemma wire_safe_seq: "wire_safe c \<Longrightarrow> unat (committed_seq c) < 2 ^ 53"
proof -
  assume "wire_safe c"
  then have "committed_seq c \<le> MAX_SAFE_INTEGER"
    by (auto simp: wire_safe_def validate_committed_wire_def Let_def split: if_splits)
  then show ?thesis
    by (simp add: word_le_nat_alt MAX_SAFE_INTEGER_def)
qed

lemma commit_room:
  assumes "apply_batch s ws ts = Inr (s', r)" and c: "commit_writes ws (st_next_seq s) ts = Inr (cs, seqs)"
    and safe: "list_all wire_safe cs" and "ws \<noteq> []"
  shows "unat (st_next_seq s) + length ws \<le> 2 ^ 53"
proof -
  obtain vs v where ws: "ws = vs @ [v]"
    using assms(4) by (cases ws rule: rev_cases) auto
  have ok: "batch_ok (storage_view s) (st_next_seq s) ws"
    using assms(1) by (simp add: apply_batch_Inr_iff)
  then have room: "unat (st_next_seq s) + length vs < 2 ^ 64"
    by (simp add: batch_ok_def ws)
  have "commit_one (st_next_seq s + of_nat (length vs)) ts v \<in> set cs"
    using commit_writes_ok [OF ok, of ts] c by (auto simp: ws enumerate_append)
  then have "wire_safe (commit_one (st_next_seq s + of_nat (length vs)) ts v)"
    using safe by (auto simp: list_all_iff)
  then have "unat (st_next_seq s + of_nat (length vs)) < 2 ^ 53"
    using wire_safe_seq by force
  then show ?thesis
    using unat_seq_at [OF room] by (simp add: ws)
qed

lemma header_advance_later:
  "st_next_seq (header_advance h s) \<le> st_next_seq s' \<Longrightarrow> header_advance h s' = s'"
  by (auto simp: header_advance_def advance_next_seq_def max_def split: option.split if_splits)

lemma replay_accepted: "replay_ok (storage_view s) cs \<Longrightarrow> replay s cs = Inr (apply_committed s cs)"
  by (simp add: replay_Inr_iff)

lemma commit_writes_length: "commit_writes ws first ts = Inr (cs, seqs) \<Longrightarrow> length cs = length ws"
proof -
  have "commit_writes_loop first ts i ws = Inr (cs, seqs) \<Longrightarrow> length cs = length ws" for i
    by (induction ws arbitrary: i cs seqs) (auto simp: rbind_eq_Inr_iff)
  then show "commit_writes ws first ts = Inr (cs, seqs) \<Longrightarrow> length cs = length ws"
    by (simp add: commit_writes_def)
qed

lemma commit_writes_Nil_iff: "commit_writes ws first ts = Inr (cs, seqs) \<Longrightarrow> cs = [] \<longleftrightarrow> ws = []"
  by (cases ws) (auto simp: commit_writes_def rbind_eq_Inr_iff)

lemma durable_commit:
  assumes d: "durable w x" and wire: "wire_ok w hs rt"
    and commit: "jsonl_commit env w ws cx x = (Inr r, x')" and st: "storable rt env (state_of x) ws"
  shows "durable w x'"
proof -
  from d obtain t lines s where
    V4: "backing_of x = Backing_V4" "jh_storage_version (header_of x) = JSONL_STORAGE_VERSION"
      "storage_wf (state_of x)" and
    f: "text_line t" "list_all text_line lines" "parse_header w t = Inr (V4 (header_of x))"
      "jw_fs x (path_of x) = Some (file_text (t # lines))"
      "load_lines w (path_of x) 1 lines storage_new = Inr s" and
    s: "state_of x = header_advance (header_of x) s"
    unfolding durable_def by auto
  obtain s' cs fs' where b: "apply_batch (state_of x) ws (je_now env) = Inr (s', r)"
    "commit_writes ws (st_next_seq (state_of x)) (je_now env) = Inr (cs, cr_seqs r)"
    "append_transaction (je_io env) w (path_of x) cs (jw_fs x) = (Inr (), fs')"
    and x': "x' = update_inner (\<lambda>inner. inner\<lparr>ji_state := s'\<rparr>) (x\<lparr>jw_fs := fs'\<rparr>)"
    using commit V4(1) by (rule jsonl_commit_Inr)
  have rep: "list_all rt cs" "list_all wire_safe cs"
    using st b(2) by (simp_all add: storable_def)
  show ?thesis
  proof (cases "ws = []")
    case True
    then have "cs = []"
      using b(2) by (simp add: commit_writes_Nil_iff)
    then have "fs' = jw_fs x" "s' = state_of x"
      using b True by (simp_all add: append_transaction_def apply_batch_Inr_iff)
    then show ?thesis
      using d by (simp add: x' durable_def)
  next
    case False
    then have ne: "cs \<noteq> []"
      using b(2) by (simp add: commit_writes_Nil_iff)
    have room: "unat (st_next_seq (state_of x)) + length ws < 2 ^ 64"
      using commit_room [OF b(1,2) rep(2) False] by simp
    let ?line = "serialize_transaction w cs"
    have line: "text_line ?line" "parse_transaction w ?line = Inr cs"
      using serialize_transaction_line [OF wire rep(1)] parse_serialize_transaction [OF wire rep] by simp_all
    have "append_line (je_io env) (path_of x) ?line (jw_fs x) = (Inr (), fs')"
      using b(3) ne by (auto simp: append_transaction_def split: prod.splits sum.splits)
    then have fs': "fs' (path_of x) = Some (file_text (t # lines @ [?line]))"
      using f(4) by (elim append_line_Inr) simp
    obtain cs' where cs': "commit_writes ws (st_next_seq (state_of x)) (je_now env) = Inr (cs', cr_seqs r)"
      "s' = foldl apply_one (state_of x) cs'" "replay_ok (storage_view (state_of x)) cs'"
      using b(1) V4(3) by (rule apply_batch_commit)
    then have fold: "s' = foldl apply_one s cs" and ok: "replay_ok (storage_view s) cs"
      using b(2) ne replay_ok_advance [of "header_of x" s cs] by (simp_all add: s foldl_apply_advance)
    have load: "load_lines w (path_of x) 1 (lines @ [?line]) storage_new = Inr s'"
      using f(5) line(2) ok by (simp add: load_lines_append replay_accepted apply_committed_def fold Let_def)
    have "st_next_seq (state_of x) \<le> st_next_seq s'"
      using next_seq_apply_batch [OF b(1) room] by (simp add: word_le_nat_alt)
    then have "header_advance (header_of x) s' = s'"
      unfolding s by (rule header_advance_later)
    moreover have "storage_wf s'"
      using V4(3) b(1) room by (rule storage_wf_apply_batch)
    ultimately show ?thesis
      using V4 f line(1) fs' load unfolding durable_def x'
      by (intro conjI exI [of _ t] exI [of _ "lines @ [?line]"] exI [of _ s']) simp_all
  qed
qed

section \<open>Interrupted commits\<close>

lemma durable_content:
  assumes "durable w x"
  obtains old where "jw_fs x (path_of x) = Some old" and "valid_utf8 old"
  using assms unfolding durable_def
  by (metis list.pred_inject(2) valid_file_text)

text \<open>
  What a failed or interrupted commit leaves in the file: the old content and a proper part of
  the new record.
\<close>

lemma torn_commit_file:
  assumes d: "durable w x" and wire: "wire_ok w hs rt"
    and commit: "jsonl_commit env w ws cx x = (Inl e, x')" and st: "storable rt env (state_of x) ws"
    and old: "jw_fs x (path_of x) = Some old"
  obtains p where "jw_storage x' = jw_storage x" and "jw_fs x' (path_of x) = Some (old @ p)" and "10 \<notin> set p"
proof -
  have V4: "backing_of x = Backing_V4"
    using d by (simp add: durable_def)
  from jsonl_commit_Inl [OF commit V4] consider "x' = x" |
    cs seqs fs' e' where "commit_writes ws (st_next_seq (state_of x)) (je_now env) = Inr (cs, seqs)"
      "append_line (je_io env) (path_of x) (serialize_transaction w cs) (jw_fs x) = (Inl e', fs')"
      "x' = x\<lparr>jw_fs := fs'\<rparr>"
    by blast
  then show thesis
  proof cases
    case 1
    then show thesis
      using old by (intro that [of "[]"]) simp_all
  next
    case 2
    from 2(2) old obtain n where n: "fs' = (jw_fs x)(path_of x \<mapsto> old @ take n (serialize_transaction w cs))"
      by (rule append_line_Inl)
    have "text_line (serialize_transaction w cs)"
      using serialize_transaction_line [OF wire] st 2(1) by (simp add: storable_def)
    then have "10 \<notin> set (take n (serialize_transaction w cs))"
      by (auto simp: text_line_def dest: in_set_takeD)
    then show thesis
      using 2(3) n by (intro that) simp_all
  qed
qed

lemma torn_commit_recovers:
  assumes d: "durable w x" and wire: "wire_ok w hs rt"
    and commit: "jsonl_commit env w ws cx x = (Inl e, x')" and st: "storable rt env (state_of x) ws"
    and ff: "fault_free env'" and valid: "jw_fs x' (path_of x) = Some bytes" "valid_utf8 bytes"
  obtains fs' where "open_sync env' w lg (path_of x) (jw_fs x') =
      (Inr (header_of x, jsonl_handle (js_inner (jw_storage x)) (path_of x)), fs')"
    and "fs' (path_of x) = jw_fs x (path_of x)"
proof -
  obtain old where old: "jw_fs x (path_of x) = Some old" "valid_utf8 old"
    using d by (rule durable_content)
  obtain p where p: "jw_fs x' (path_of x) = Some (old @ p)" "10 \<notin> set p"
    using d wire commit st old(1) by (rule torn_commit_file)
  show thesis
  proof (cases "p = []")
    case True
    have read: "io_fault env' Io_read = None"
      using ff by (simp add: fault_free_def)
    have same: "jw_fs x' (path_of x) = jw_fs x (path_of x)"
      using p old True by simp
    have "durable w (x\<lparr>jw_fs := jw_fs x'\<rparr>)"
      using d same by (simp add: durable_def)
    from open_durable [OF this read, of lg] show thesis
      using same by (intro that [of "jw_fs x'"]) simp_all
  next
    case False
    have "valid_utf8 p"
      using valid p(1) valid_utf8_append [OF old(2), of p] by simp
    with d ff False p(2) obtain fs' where "open_sync env' w lg (path_of x) (jw_fs x') =
        (Inr (header_of x, jsonl_handle (js_inner (jw_storage x)) (path_of x)), fs')" "fs' (path_of x) = Some old"
      using old(1) p(1) by (rule open_torn)
    then show thesis
      using old(1) by (intro that [of fs']) simp_all
  qed
qed

text \<open>A cut inside a character makes the whole file unreadable.\<close>

lemma open_invalid_utf8:
  assumes "fs path = Some bytes" and "\<not> valid_utf8 bytes"
  shows "\<exists>e. open_sync env w lg path fs = (Inl e, fs)"
  using assms
  by (simp add: open_sync_def restore_present read_to_string_def op_bind_def map_err_def split: option.split)

section \<open>New files\<close>

lemma foldl_lines: "foldl (\<lambda>content t. (content @ [10]) @ t) h ts @ [10] = h @ 10 # file_text ts"
  by (induction ts arbitrary: h) simp_all

lemma complete_file_ok:
  "wi_header_to_string w h = Inr t \<Longrightarrow> complete_file w h ts = Inr (file_text (t # ts))"
  using foldl_lines [of t ts] by (simp add: complete_file_def serialize_header_def)

text \<open>Loading transaction lines is replaying the log they were written from.\<close>

lemma no_max_safe: "list_all wire_safe cs \<Longrightarrow> no_max cs"
proof -
  assume "list_all wire_safe cs"
  then have "committed_seq c \<noteq> - 1" if "c \<in> set cs" for c
    using wire_safe_seq [of c] that by (auto simp: list_all_iff unat_minus_1)
  then show ?thesis
    by (auto simp: no_max_def)
qed

lemma load_batches:
  assumes "wire_ok w hs rt" and "storage_wf s" and "list_all rt (concat bs)" and "list_all wire_safe (concat bs)"
    and "replay_ok (storage_view s) (concat bs)"
  shows "load_lines w path i (map (serialize_transaction w) bs) s = Inr (foldl apply_one s (concat bs))"
  using assms(2-5)
proof (induction bs arbitrary: s i)
  case (Cons b bs)
  have nm: "no_max b"
    using Cons.prems(3) by (simp add: no_max_safe)
  then have ok: "replay_ok (storage_view s) b" "replay_ok (storage_view (foldl apply_one s b)) (concat bs)"
    using Cons.prems replay_ok_append [OF Cons.prems(1) nm] by simp_all
  have wf: "storage_wf (foldl apply_one s b)"
    using Cons.prems(1) ok(1) nm by (rule storage_wf_foldl)
  have "parse_transaction w (serialize_transaction w b) = Inr b"
    using Cons.prems by (intro parse_serialize_transaction [OF assms(1)]) auto
  then show ?case
    using Cons.IH [OF wf _ _ ok(2)] Cons.prems ok(1) by (simp add: replay_accepted apply_committed_def Let_def)
qed simp

lemma lines_of_batches:
  assumes "wire_ok w hs rt" and "list_all rt (concat bs)"
  shows "list_all text_line (map (serialize_transaction w) bs)"
  using assms by (induction bs) (auto intro: serialize_transaction_line)

text \<open>A file with a header and a log that can be replayed is durable for the state it leads to.\<close>

lemma durable_file:
  fixes w :: "('j, 'f::{plus,zero}) wire"
  assumes wire: "wire_ok w hs rt" and h: "hs h" "\<not> header_rejected h" "jh_storage_version h = JSONL_STORAGE_VERSION"
    and log: "list_all rt (concat bs)" "list_all wire_safe (concat bs)" "replay_ok (storage_view (storage_new :: ('j, 'f) storage_state)) (concat bs)"
    and t: "wi_header_to_string w h = Inr t" and inner: "js_inner st = \<lparr>ji_state = s, ji_backing = Backing_V4, ji_header = h\<rparr>"
    and s: "s = header_advance h (foldl apply_one storage_new (concat bs))"
    and fs: "fs (js_path st) = Some (file_text (t # map (serialize_transaction w) bs))"
  shows "durable w \<lparr>jw_storage = st, jw_fs = fs, jw_ids = g\<rparr>"
proof -
  have t': "text_line t" "parse_header w t = Inr (V4 h)"
    using parse_header_ok [OF wire h(1,2)] t by auto
  have "storage_wf (foldl apply_one storage_new (concat bs))"
    using storage_wf_new log(3) no_max_safe [OF log(2)] by (rule storage_wf_foldl)
  then have "storage_wf s"
    by (simp add: s header_advance_def storage_wf_advance split: option.split)
  then show ?thesis
    using t' h(3) fs s inner lines_of_batches [OF wire log(1)] load_batches [OF wire storage_wf_new log, of "js_path st" 1]
    unfolding durable_def
    by (intro conjI exI [of _ t] exI [of _ "map (serialize_transaction w) bs"]
        exI [of _ "foldl apply_one storage_new (concat bs)"]) simp_all
qed

lemma create_durable:
  assumes wire: "wire_ok w hs rt" and h: "hs h" "\<not> header_rejected h" "jh_storage_version h = JSONL_STORAGE_VERSION"
    "jh_next_seq h = None" and create: "create_sync env w path h fs = (Inr st, fs')"
  shows "durable w \<lparr>jw_storage = st, jw_fs = fs', jw_ids = g\<rparr>"
    and "st = jsonl_handle \<lparr>ji_state = storage_new, ji_backing = Backing_V4, ji_header = h\<rparr> path"
proof -
  obtain t where t: "wi_header_to_string w h = Inr t"
    using parse_header_ok [OF wire h(1,2)] by metis
  from create have st: "st = jsonl_handle \<lparr>ji_state = storage_new, ji_backing = Backing_V4, ji_header = h\<rparr> path"
    and pub: "publish_file_atomically env path (file_text [t]) fs = (Inr (), fs')"
    by (auto simp: create_sync_def complete_file_ok [OF t] op_bind_def split: if_splits prod.splits sum.splits)
  show "st = jsonl_handle \<lparr>ji_state = storage_new, ji_backing = Backing_V4, ji_header = h\<rparr> path"
    by (fact st)
  show "durable w \<lparr>jw_storage = st, jw_fs = fs', jw_ids = g\<rparr>"
    using publish_Inr [OF pub] h(4)
    by (intro durable_file [OF wire h(1-3), of "[]" t])
      (simp_all add: t st jsonl_handle_def replay_ok_def committed_ids_def header_advance_def)
qed

section \<open>Forks\<close>

lemma fork_file:
  fixes w :: "('j, 'f::{plus,zero}) wire"
  assumes wire: "wire_ok w hs rt" and h: "hs h'" "\<not> header_rejected h'" "jh_storage_version h' = JSONL_STORAGE_VERSION"
    and h': "h' = h\<lparr>jh_next_seq := Some (fd_next_seq d)\<rparr>"
    and log: "list_all rt (fork_snapshot_writes d)" "list_all wire_safe (fork_snapshot_writes d)"
    and d: "from_fork_snapshot d = Inr (s :: ('j, 'f) storage_state)" and ff: "fault_free env"
  obtains st fs' where "create_from_fork_sync env w lg path h d fs = (Inr st, fs')"
    and "st = jsonl_handle \<lparr>ji_state = s, ji_backing = Backing_V4, ji_header = h'\<rparr> path"
    and "\<And>g. durable w \<lparr>jw_storage = st, jw_fs = fs', jw_ids = g\<rparr>"
proof -
  let ?bs = "map (\<lambda>c. [c]) (fork_snapshot_writes d)"
  let ?st = "jsonl_handle \<lparr>ji_state = s, ji_backing = Backing_V4, ji_header = h'\<rparr> path"
  have bs: "concat ?bs = fork_snapshot_writes d"
    by (induction "fork_snapshot_writes d") auto
  obtain t where t: "wi_header_to_string w h' = Inr t"
    using parse_header_ok [OF wire h(1,2)] by metis
  obtain fs' where pub: "publish_file_atomically env path (file_text (t # map (serialize_transaction w) ?bs)) fs = (Inr (), fs')"
    using publish_fault_free [OF ff] by blast
  have ok: "replay_ok (storage_view (storage_new :: ('j, 'f) storage_state)) (concat ?bs)"
    and s: "s = header_advance h' (foldl apply_one storage_new (concat ?bs))"
    using d by (auto simp: bs from_fork_snapshot_def rbind_eq_Inr_iff replay_Inr_iff apply_committed_def Let_def h'
        header_advance_def)
  have dur: "durable w \<lparr>jw_storage = ?st, jw_fs = fs', jw_ids = g\<rparr>" for g
    using log ok s publish_Inr [OF pub] t
    by (intro durable_file [OF wire h, of ?bs t]) (simp_all only: bs jsonl_handle_def jsonl_storage.select_convs)
  have "io_fault env Io_read = None"
    using ff by (simp add: fault_free_def)
  from open_durable [OF dur this, of lg]
  have "open_sync env w lg path fs' = (Inr (h', ?st), fs')"
    by (simp add: jsonl_handle_def)
  then have "create_from_fork_sync env w lg path h d fs = (Inr ?st, fs')"
    using pub by (simp add: create_from_fork_sync_def h' [symmetric] complete_file_ok [OF t] op_bind_def comp_def)
  then show thesis
    using dur by (intro that) simp_all
qed

section \<open>Upgrading an imported file\<close>

lemma upgrade_Inr:
  assumes "upgrade_v3_locked env w u base ws x = (Inr r, x')"
  obtains i g s' r0 cs nxt content fs' where
    "next_string (je_ids env) (jw_ids x) (Some (je_now env)) = (Inr i, g)"
    "apply_batch (state_of x) (import_row w i u # ws) (je_now env) = Inr (s', r0)"
    "commit_writes (import_row w i u # ws) (st_next_seq (state_of x)) (je_now env) = Inr (cs, cr_seqs r0)"
    "seq_at (st_next_seq (state_of x)) (length cs) = Inr nxt"
    "complete_file w ((header_of x)\<lparr>jh_next_seq := Some nxt\<rparr>)
       (map (serialize_transaction w) (map (\<lambda>c. [c]) base @ [cs])) = Inr content"
    "publish_file_atomically (je_io env) (path_of x) content (jw_fs x) = (Inr (), fs')"
    "x' = update_inner (\<lambda>inner. \<lparr>ji_state = s', ji_backing = Backing_V4, ji_header = (header_of x)\<lparr>jh_next_seq := Some nxt\<rparr>\<rparr>)
       (x\<lparr>jw_fs := fs', jw_ids := g\<rparr>)"
    "r = \<lparr>cr_first_seq = saturating_add (st_next_seq (state_of x)) 1, cr_seqs = tl (cr_seqs r0), cr_timestamp = je_now env,
          cr_stats = st_stats s'\<rparr>"
  using assms
  by (auto simp: upgrade_v3_locked_def op_bind_def op_read_def op_return_def on_files_def apply_world_def apply_batch_def
      Let_def rbind_def apply_committed_def next_id_def update_inner_def comp_def split: sum.splits prod.splits)

text \<open>A handle on an imported file: the state is the replay of the normalized records.\<close>

definition imported :: "('j, 'f::{plus,zero}) jsonl_world \<Rightarrow> 'f usage \<Rightarrow> ('j, 'f) committed_write list \<Rightarrow> bool" where
  "imported x u base \<longleftrightarrow>
     backing_of x = Backing_V3 u base \<and> replay_ok (storage_view (storage_new :: ('j, 'f) storage_state)) base \<and>
     state_of x = foldl apply_one storage_new base"

lemma open_v3_imported:
  assumes "open_v3 lg path h lines fs = (Inr (h', st), fs')"
  shows "fs' = fs \<and> js_path st = path \<and> \<not> js_closed st \<and>
    (\<exists>u base. imported \<lparr>jw_storage = st, jw_fs = fs, jw_ids = g\<rparr> u base)"
  using assms
  by (auto simp: open_v3_def op_bind_def op_read_def op_return_def map_err_def replay_Inr_iff apply_committed_def
      imported_def jsonl_handle_def Let_def split: sum.splits prod.splits)

lemma permit_restored_ids:
  "(update_inner f (x\<lparr>jw_storage := (jw_storage x)\<lparr>js_active := js_active (jw_storage x) + 1\<rparr>, jw_fs := fs, jw_ids := g\<rparr>))
     \<lparr>jw_storage := jsonl_release (jw_storage (update_inner f
        (x\<lparr>jw_storage := (jw_storage x)\<lparr>js_active := js_active (jw_storage x) + 1\<rparr>, jw_fs := fs, jw_ids := g\<rparr>)))\<rparr> =
   update_inner f (x\<lparr>jw_fs := fs, jw_ids := g\<rparr>)"
  by (simp add: update_inner_def jsonl_release_def)

lemma jsonl_commit_upgrade:
  assumes "jsonl_commit env w ws cx x = (Inr r, x')" and "backing_of x = Backing_V3 u base" and "ws \<noteq> []"
  obtains i g s' r0 cs nxt content fs' where
    "next_string (je_ids env) (jw_ids x) (Some (je_now env)) = (Inr i, g)"
    "apply_batch (state_of x) (import_row w i u # ws) (je_now env) = Inr (s', r0)"
    "commit_writes (import_row w i u # ws) (st_next_seq (state_of x)) (je_now env) = Inr (cs, cr_seqs r0)"
    "seq_at (st_next_seq (state_of x)) (length cs) = Inr nxt"
    "complete_file w ((header_of x)\<lparr>jh_next_seq := Some nxt\<rparr>)
       (map (serialize_transaction w) (map (\<lambda>c. [c]) base @ [cs])) = Inr content"
    "publish_file_atomically (je_io env) (path_of x) content (jw_fs x) = (Inr (), fs')"
    "x' = update_inner (\<lambda>inner. \<lparr>ji_state = s', ji_backing = Backing_V4, ji_header = (header_of x)\<lparr>jh_next_seq := Some nxt\<rparr>\<rparr>)
       (x\<lparr>jw_fs := fs', jw_ids := g\<rparr>)"
    "cr_seqs r = tl (cr_seqs r0)" "cr_stats r = st_stats s'" "\<not> cx_cancelled cx" "\<not> js_closed (jw_storage x)"
proof -
  let ?y = "x\<lparr>jw_storage := (jw_storage x)\<lparr>js_active := js_active (jw_storage x) + 1\<rparr>\<rparr>"
  from assms obtain y' where live: "\<not> cx_cancelled cx" "\<not> js_closed (jw_storage x)"
    and c: "upgrade_v3_locked env w u base ws ?y = (Inr r, y')"
    and x': "x' = y'\<lparr>jw_storage := jsonl_release (jw_storage y')\<rparr>"
    by (auto simp: jsonl_commit_def rbind_def check_context_def jsonl_admit_def commit_sync_def Let_def
        split: sum.splits prod.splits if_splits)
  show thesis
    using c by (rule upgrade_Inr)
      (rule that; (simp add: x' permit_restored_ids [simplified] live; fail)?)
qed

lemma header_rejected_next:
  "\<not> header_rejected h \<Longrightarrow> n \<noteq> 0 \<Longrightarrow> n \<le> MAX_SAFE_INTEGER \<Longrightarrow> \<not> header_rejected (h\<lparr>jh_next_seq := Some n\<rparr>)"
  by (auto simp: header_rejected_def is_none_or_def)

lemma upgrade_durable:
  assumes wire: "wire_ok w hs rt" and imp: "imported x u base" and ne: "ws \<noteq> []"
    and commit: "jsonl_commit env w ws cx x = (Inr r, x')"
    and h: "hs ((header_of x)\<lparr>jh_next_seq := Some (st_next_seq (state_of x) + of_nat (length ws + 1))\<rparr>)"
      "\<not> header_rejected (header_of x)"
      "jh_storage_version (header_of x) = JSONL_STORAGE_VERSION"
    and i: "next_string (je_ids env) (jw_ids x) (Some (je_now env)) = (Inr i, g)"
    and base: "list_all rt base" "list_all wire_safe base"
    and st: "storable rt env (state_of x) (import_row w i u # ws)"
    and room: "unat (st_next_seq (state_of x)) + length ws + 1 \<le> unat MAX_SAFE_INTEGER"
  shows "durable w x'"
    and "\<exists>s' r0. apply_batch (state_of x) (import_row w i u # ws) (je_now env) = Inr (s', r0) \<and> state_of x' = s' \<and>
      cr_seqs r = tl (cr_seqs r0) \<and> cr_stats r = st_stats s'"
proof -
  have V3: "backing_of x = Backing_V3 u base"
    using imp by (simp add: imported_def)
  have ok: "replay_ok (storage_view (storage_new :: ('a, 'b) storage_state)) base"
    and state: "state_of x = foldl apply_one storage_new base"
    using imp by (simp_all add: imported_def)
  have wf: "storage_wf (state_of x)"
    unfolding state using storage_wf_new ok no_max_safe [OF base(2)] by (rule storage_wf_foldl)
  obtain i' g' s' r0 cs nxt content fs' where
    i': "next_string (je_ids env) (jw_ids x) (Some (je_now env)) = (Inr i', g')" and
    a': "apply_batch (state_of x) (import_row w i' u # ws) (je_now env) = Inr (s', r0)" and
    c': "commit_writes (import_row w i' u # ws) (st_next_seq (state_of x)) (je_now env) = Inr (cs, cr_seqs r0)" and
    n: "seq_at (st_next_seq (state_of x)) (length cs) = Inr nxt" and
    f: "complete_file w ((header_of x)\<lparr>jh_next_seq := Some nxt\<rparr>)
       (map (serialize_transaction w) (map (\<lambda>c. [c]) base @ [cs])) = Inr content" and
    pub: "publish_file_atomically (je_io env) (path_of x) content (jw_fs x) = (Inr (), fs')" and
    x': "x' = update_inner (\<lambda>inner. \<lparr>ji_state = s', ji_backing = Backing_V4, ji_header = (header_of x)\<lparr>jh_next_seq := Some nxt\<rparr>\<rparr>)
       (x\<lparr>jw_fs := fs', jw_ids := g'\<rparr>)" and
    r: "cr_seqs r = tl (cr_seqs r0)" "cr_stats r = st_stats s'"
    using commit V3 ne by (rule jsonl_commit_upgrade)
  have "i' = i"
    using i i' by simp
  note a = a' [unfolded this] and c = c' [unfolded this]
  show "\<exists>s' r0. apply_batch (state_of x) (import_row w i u # ws) (je_now env) = Inr (s', r0) \<and> state_of x' = s' \<and>
      cr_seqs r = tl (cr_seqs r0) \<and> cr_stats r = st_stats s'"
    using a r x' by simp
  obtain cs' where cs': "commit_writes (import_row w i u # ws) (st_next_seq (state_of x)) (je_now env) = Inr (cs', cr_seqs r0)"
    "s' = foldl apply_one (state_of x) cs'" "replay_ok (storage_view (state_of x)) cs'"
    using a wf by (rule apply_batch_commit)
  then have cs: "s' = foldl apply_one (state_of x) cs" "replay_ok (storage_view (state_of x)) cs"
    using c by simp_all
  let ?bs = "map (\<lambda>c. [c]) base @ [cs]"
  have bs: "concat ?bs = base @ cs"
    by (induction base) auto
  have log: "list_all rt (concat ?bs)" "list_all wire_safe (concat ?bs)"
    using base st c by (simp_all add: bs storable_def del: concat_append)
  have "replay_ok (storage_view (storage_new :: ('a, 'b) storage_state)) (base @ cs)"
    using ok cs(2) replay_ok_append [OF storage_wf_new no_max_safe [OF base(2)]] unfolding state by blast
  then have rep: "replay_ok (storage_view (storage_new :: ('a, 'b) storage_state)) (concat ?bs)"
    by (simp only: bs)
  have len: "length cs = length ws + 1"
    using commit_writes_length [OF c] by simp
  have nxt: "unat nxt = unat (st_next_seq (state_of x)) + length ws + 1"
    using n room by (auto simp: seq_at_Inr_iff len unat_seq_at simp del: of_nat_add of_nat_Suc)
  have hs: "hs ((header_of x)\<lparr>jh_next_seq := Some nxt\<rparr>)"
    using h(1) n by (simp add: seq_at_Inr_iff len)
  have room': "unat (st_next_seq (state_of x)) + length (import_row w i u # ws) < 2 ^ 64"
    using room by (simp add: MAX_SAFE_INTEGER_def)
  have s': "s' = foldl apply_one storage_new (concat ?bs)"
    by (simp only: cs(1) state bs foldl_append)
  have "unat (st_next_seq s') = unat nxt"
    using next_seq_apply_batch [OF a room'] nxt by simp
  then have adv: "s' = header_advance ((header_of x)\<lparr>jh_next_seq := Some nxt\<rparr>) (foldl apply_one storage_new (concat ?bs))"
    unfolding s' [symmetric]
    by (simp add: header_advance_def advance_next_seq_def word_unat_eq_iff [symmetric])
  have rej: "\<not> header_rejected ((header_of x)\<lparr>jh_next_seq := Some nxt\<rparr>)"
    using h(2) nxt room by (intro header_rejected_next) (auto simp: word_le_nat_alt)
  obtain t where t: "wi_header_to_string w ((header_of x)\<lparr>jh_next_seq := Some nxt\<rparr>) = Inr t"
    using parse_header_ok [OF wire hs rej] by metis
  have content: "fs' (path_of x) = Some (file_text (t # map (serialize_transaction w) ?bs))"
    using publish_Inr [OF pub] f complete_file_ok [OF t] by simp
  have "durable w \<lparr>jw_storage = jw_storage x', jw_fs = jw_fs x', jw_ids = jw_ids x'\<rparr>"
    by (rule durable_file [OF wire hs rej _ log rep t _ adv]) (simp_all add: x' h(3) content del: file_text_simps map_append)
  then show "durable w x'"
    by (simp add: durable_def)
qed

end
