(* ===== verification/Jsonl_Contract.thy ===== *)
theory Jsonl_Contract
  imports Jsonl_Durable
begin

text \<open>
  The durable backend against the in-memory one. Seen through \<open>memory_of\<close>, the queries are those
  of the in-memory backend and a commit that is not disturbed by the file system does exactly
  what an in-memory commit does. Whatever fails, the backend satisfies the contract
  \<open>storage_contract\<close> that the session layer relies on, and without faults \<open>storage_progress\<close>.
\<close>

section \<open>Refinement of the in-memory backend\<close>

definition memory_of :: "('j, 'f) jsonl_world \<Rightarrow> ('j, 'f) memory_storage" where
  "memory_of x = \<lparr>ms_state = state_of x, ms_closed = js_closed (jw_storage x)\<rparr>"

lemma memory_of_sel [simp]:
  "ms_state (memory_of x) = state_of x" "ms_closed (memory_of x) = js_closed (jw_storage x)"
  by (simp_all add: memory_of_def)

lemma with_state_memory: "with_state x cx f = rbind (memory_guard (memory_of x) cx) (\<lambda>_. f (state_of x))"
  by (simp add: with_state_def jsonl_guard_def memory_guard_def jsonl_ensure_open_def memory_ensure_open_def)

lemma reads_refine:
  "jsonl_get_entries x ids cx = memory_get_entries (memory_of x) ids cx"
  "jsonl_get_value x addr cx = memory_get_value (memory_of x) addr cx"
  "jsonl_scan_values x addr cx = memory_scan_values (memory_of x) addr cx"
  "jsonl_read_list x addr options cx = memory_read_list (memory_of x) addr options cx"
  "jsonl_scan_branch x q cx = memory_scan_branch (memory_of x) q cx"
  "jsonl_scan_branch_structure x q cx = memory_scan_branch_structure (memory_of x) q cx"
  "jsonl_scan_entries x es cx = memory_scan_entries (memory_of x) es cx"
  "jsonl_scan_usage x us cx = memory_scan_usage (memory_of x) us cx"
  by (simp_all add: jsonl_get_entries_def memory_get_entries_def jsonl_get_value_def memory_get_value_def
      jsonl_scan_values_def memory_scan_values_def jsonl_read_list_def memory_read_list_def jsonl_scan_branch_def
      memory_scan_branch_def jsonl_scan_branch_structure_def memory_scan_branch_structure_def jsonl_scan_entries_def
      memory_scan_entries_def jsonl_scan_usage_def memory_scan_usage_def with_state_memory)

lemma imported_stats:
  "jsonl_get_stats x cx = rbind (memory_get_stats (memory_of x) cx) (\<lambda>stats. Inr (stats_with_imported_usage stats (backing_of x)))"
  by (simp add: jsonl_get_stats_def memory_get_stats_def jsonl_guard_def memory_guard_def jsonl_ensure_open_def
      memory_ensure_open_def rbind_def Let_def split: sum.split)

lemma stats_refine:
  "backing_of x = Backing_V4 \<Longrightarrow> jsonl_get_stats x cx = memory_get_stats (memory_of x) cx"
  by (simp add: jsonl_get_stats_def memory_get_stats_def jsonl_guard_def memory_guard_def jsonl_ensure_open_def
      memory_ensure_open_def stats_with_imported_usage_def Let_def)

definition appends_succeed :: "io_env \<Rightarrow> bool" where
  "appends_succeed env \<longleftrightarrow>
     io_fault env Io_open_append = None \<and> io_fault env Io_write_line = None \<and> io_fault env Io_write_newline = None"

lemma jsonl_commit_dead:
  "cx_cancelled cx \<Longrightarrow> jsonl_commit env w ws cx x = (Inl aborted_error, x)"
  "\<not> cx_cancelled cx \<Longrightarrow> js_closed (jw_storage x) \<Longrightarrow> jsonl_commit env w ws cx x = (Inl closed_error, x)"
  by (simp_all add: jsonl_commit_def check_context_def jsonl_admit_def)

lemma jsonl_commit_live:
  assumes "\<not> cx_cancelled cx" and "\<not> js_closed (jw_storage x)" and "backing_of x = Backing_V4"
  shows "jsonl_commit env w ws cx x =
    (case commit_v4 env w ws (x\<lparr>jw_storage := (jw_storage x)\<lparr>js_active := js_active (jw_storage x) + 1\<rparr>\<rparr>) of
       (r, x') \<Rightarrow> (r, x'\<lparr>jw_storage := jsonl_release (jw_storage x')\<rparr>))"
  using assms by (simp add: jsonl_commit_def check_context_def jsonl_admit_def commit_sync_def Let_def)

lemma commit_v4_refused:
  assumes "apply_batch (state_of x) ws (je_now env) = Inl e"
  shows "commit_v4 env w ws x = (Inl e, x)"
  using assms
  by (cases "validate_committed_writes ws (st_next_seq (state_of x)) (storage_view (state_of x))")
    (auto simp: commit_v4_def apply_batch_def Let_def op_bind_def op_read_def rbind_def apply_committed_def
      split: sum.splits prod.splits)

lemma jsonl_commit_refused:
  assumes "\<not> cx_cancelled cx" and "\<not> js_closed (jw_storage x)" and "backing_of x = Backing_V4"
    and "apply_batch (state_of x) ws (je_now env) = Inl e"
  shows "jsonl_commit env w ws cx x = (Inl e, x)"
  unfolding jsonl_commit_live [OF assms(1-3)]
  by (subst commit_v4_refused [where e = e]) (simp_all add: assms(4) jsonl_release_def)

lemma jsonl_commit_done:
  assumes "\<not> cx_cancelled cx" and "\<not> js_closed (jw_storage x)" and "backing_of x = Backing_V4"
    and "apply_batch (state_of x) ws (je_now env) = Inr (s', r)"
    and "appends_succeed (je_io env)" and "jw_fs x (path_of x) \<noteq> None"
  shows "\<exists>fs'. jsonl_commit env w ws cx x = (Inr r, update_inner (\<lambda>inner. inner\<lparr>ji_state := s'\<rparr>) (x\<lparr>jw_fs := fs'\<rparr>))"
proof -
  let ?y = "x\<lparr>jw_storage := (jw_storage x)\<lparr>js_active := js_active (jw_storage x) + 1\<rparr>\<rparr>"
  obtain cs where cs: "commit_writes ws (st_next_seq (state_of x)) (je_now env) = Inr (cs, cr_seqs r)"
    using assms(4) commit_writes_ok by (fastforce simp: apply_batch_Inr_iff)
  obtain old where old: "jw_fs x (path_of x) = Some old"
    using assms(6) by auto
  have "\<exists>fs'. append_transaction (je_io env) w (path_of x) cs (jw_fs x) = (Inr (), fs')"
    using assms(5) append_line_ok [of "jw_fs x" "path_of x", OF old] by (simp add: append_transaction_def appends_succeed_def)
  then obtain fs' where "append_transaction (je_io env) w (path_of x) cs (jw_fs x) = (Inr (), fs')"
    by blast
  then have "commit_v4 env w ws ?y = (Inr r, update_inner (\<lambda>inner. inner\<lparr>ji_state := s'\<rparr>) (?y\<lparr>jw_fs := fs'\<rparr>))"
    using assms(4) cs by (auto simp: commit_v4_Inr_iff)
  then show ?thesis
    unfolding jsonl_commit_live [OF assms(1-3)] by (simp add: permit_restored [simplified] del: update_inner_sel) blast
qed

lemma commit_refines:
  assumes "backing_of x = Backing_V4" and "appends_succeed (je_io env)" and "jw_fs x (path_of x) \<noteq> None"
    and "jsonl_commit env w ws cx x = (res, x')"
  shows "(case memory_commit (Inr (je_now env)) (memory_of x) ws cx of
            Inl e \<Rightarrow> res = Inl e \<and> x' = x
          | Inr (m, r) \<Rightarrow> res = Inr r \<and> memory_of x' = m)"
proof (cases "cx_cancelled cx \<or> js_closed (jw_storage x)")
  case True
  then show ?thesis
    using assms(4)
    by (cases "cx_cancelled cx")
      (auto simp: jsonl_commit_dead memory_commit_def memory_guard_def check_context_def memory_ensure_open_def)
next
  case False
  then have live: "\<not> cx_cancelled cx" "\<not> js_closed (jw_storage x)"
    by simp_all
  have mem: "memory_commit (Inr (je_now env)) (memory_of x) ws cx =
      rbind (apply_batch (state_of x) ws (je_now env)) (\<lambda>(s', result). Inr ((memory_of x)\<lparr>ms_state := s'\<rparr>, result))"
    using live by (simp add: memory_commit_def memory_guard_def check_context_def memory_ensure_open_def)
  show ?thesis
  proof (cases "apply_batch (state_of x) ws (je_now env)")
    case (Inl e)
    then show ?thesis
      unfolding mem using assms(4) jsonl_commit_refused [OF live assms(1) Inl, of w] by auto
  next
    case (Inr p)
    obtain s' r where p: "p = (s', r)"
      by (cases p)
    then show ?thesis
      unfolding mem Inr
      using assms(4) jsonl_commit_done [OF live assms(1) Inr [unfolded p] assms(2,3), where w = w]
      by (auto simp: memory_of_def)
  qed
qed

section \<open>The contract\<close>

definition jsonl_live :: "('j, 'f) jsonl_world \<Rightarrow> bool" where
  "jsonl_live x \<longleftrightarrow> \<not> js_closed (jw_storage x)"

definition jsonl_val :: "('j, 'f) jsonl_world \<Rightarrow> slot \<rightharpoonup> 'j" where
  "jsonl_val x = mem_val (memory_of x)"

definition jsonl_ent :: "('j, 'f) jsonl_world \<Rightarrow> entry_id \<rightharpoonup> entry_id option \<times> ('j, 'f) new_entry_body" where
  "jsonl_ent x = mem_ent (memory_of x)"

lemma batch_ok_usage: "batch_ok v first (WriteUsage row # ws) \<Longrightarrow> batch_ok v first ws"
  unfolding batch_ok_def
proof (elim conjE, intro conjI allI impI)
  fix pre e post p
  assume par: "\<forall>pre e post p. WriteUsage row # ws = pre @ WriteEntry e # post \<and> ne_parent_id e = Some p \<longrightarrow>
      cv_contains_entry_id v p \<or> p \<in> set (write_entry_ids pre)"
    and split: "ws = pre @ WriteEntry e # post \<and> ne_parent_id e = Some p"
  then have "WriteUsage row # ws = (WriteUsage row # pre) @ WriteEntry e # post \<and> ne_parent_id e = Some p"
    by simp
  with par have "cv_contains_entry_id v p \<or> p \<in> set (write_entry_ids (WriteUsage row # pre))"
    by blast
  then show "cv_contains_entry_id v p \<or> p \<in> set (write_entry_ids pre)"
    by (simp add: write_entry_ids_def)
qed (auto simp: write_ids_def)

text \<open>The effect of a successful commit, whatever the backing.\<close>

lemma jsonl_commit_effect:
  assumes "jsonl_commit env w ws cx x = (Inr r, x')"
  shows "jsonl_live x \<and> jsonl_live x' \<and> batch_ok (storage_view (state_of x)) (cv_next_seq (storage_view (state_of x))) ws \<and>
    jsonl_val x' = foldl value_effect (jsonl_val x) ws \<and> jsonl_ent x' = foldl entry_effect (jsonl_ent x) ws"
proof (cases "backing_of x")
  case Backing_V4
  from assms this show ?thesis
  proof (rule jsonl_commit_Inr)
    fix s' cs fs'
    assume "apply_batch (state_of x) ws (je_now env) = Inr (s', r)" "\<not> js_closed (jw_storage x)"
      "x' = update_inner (\<lambda>inner. inner\<lparr>ji_state := s'\<rparr>) (x\<lparr>jw_fs := fs'\<rparr>)"
    then show ?thesis
      using foldl_commit_effect [of "state_of x" _ "je_now env" 0 ws]
      by (simp add: apply_batch_Inr_iff jsonl_live_def jsonl_val_def jsonl_ent_def mem_val_def [abs_def] mem_ent_def [abs_def])
  qed
next
  case (Backing_V3 u base)
  show ?thesis
  proof (cases "ws = []")
    case True
    then show ?thesis
      using assms Backing_V3
      by (auto simp: jsonl_commit_def rbind_def check_context_def jsonl_admit_def commit_sync_def Let_def jsonl_live_def
          batch_ok_def write_ids_def jsonl_release_def jsonl_val_def jsonl_ent_def memory_of_def split: if_splits)
  next
    case False
    from assms Backing_V3 False show ?thesis
    proof (rule jsonl_commit_upgrade)
      fix i g s' r0 cs nxt content fs'
      assume a: "apply_batch (state_of x) (import_row w i u # ws) (je_now env) = Inr (s', r0)"
        and "\<not> js_closed (jw_storage x)"
        and "x' = update_inner (\<lambda>inner. \<lparr>ji_state = s', ji_backing = Backing_V4, ji_header = (header_of x)\<lparr>jh_next_seq := Some nxt\<rparr>\<rparr>)
          (x\<lparr>jw_fs := fs', jw_ids := g\<rparr>)"
      moreover have "batch_ok (storage_view (state_of x)) (st_next_seq (state_of x)) ws"
        using a by (auto simp: apply_batch_Inr_iff import_row_def intro: batch_ok_usage)
      ultimately show ?thesis
        using foldl_commit_effect [of "state_of x" "\<lambda>i. st_next_seq (state_of x) + of_nat i" "je_now env" 0 "import_row w i u # ws"]
        by (simp add: apply_batch_Inr_iff jsonl_live_def jsonl_val_def jsonl_ent_def mem_val_def [abs_def] mem_ent_def [abs_def]
            import_row_def)
    qed
  qed
qed

text \<open>A failed commit leaves the handle as it was, whatever it did to the file.\<close>

lemma jsonl_commit_fail:
  assumes "jsonl_commit env w ws cx x = (Inl e, x')"
  shows "jw_storage x' = jw_storage x"
proof (cases "backing_of x")
  case Backing_V4
  from jsonl_commit_Inl [OF assms this] show ?thesis by auto
next
  case (Backing_V3 u base)
  then show ?thesis
    using assms
    by (auto simp: jsonl_commit_def rbind_def check_context_def jsonl_admit_def commit_sync_def Let_def jsonl_release_def
        upgrade_v3_locked_def op_bind_def op_read_def op_return_def on_files_def apply_world_def next_id_def
        split: sum.splits prod.splits if_splits)
qed

interpretation jsonl: storage_contract "jsonl_ops env w" jsonl_live jsonl_val jsonl_ent
  "\<lambda>x. storage_view (state_of x)" jw_storage
  for env :: jsonl_env and w :: "('j, 'f::plus) wire"
proof
  fix x :: "('j, 'f) jsonl_world" and a cx
  show "jsonl_live x \<Longrightarrow> \<not> cx_cancelled cx \<Longrightarrow>
      \<exists>v. so_get_value (jsonl_ops env w) x a cx = Inr v \<and> map_option rv_value v = jsonl_val x (ra_namespace a, ra_key a)"
    using mem.get_value_live [of "memory_of x"]
    by (simp add: jsonl_ops_def reads_refine jsonl_live_def jsonl_val_def mem_live_def memory_ops_def)
  show "\<not> jsonl_live x \<Longrightarrow> \<exists>e. so_get_value (jsonl_ops env w) x a cx = Inl e"
    using mem.get_value_dead [of "memory_of x"]
    by (simp add: jsonl_ops_def reads_refine jsonl_live_def mem_live_def memory_ops_def)
next
  fix x :: "('j, 'f) jsonl_world" and ids cx
  show "jsonl_live x \<Longrightarrow> \<not> cx_cancelled cx \<Longrightarrow>
      \<exists>es. so_get_entries (jsonl_ops env w) x ids cx = Inr es \<and>
        (\<forall>i. map_option entry_content (bt_get es i) = (if i \<in> set ids then jsonl_ent x i else None))"
    unfolding jsonl_ent_def
    using mem.get_entries_live [of "memory_of x", where cx = cx and ids = ids]
    by (simp add: jsonl_ops_def reads_refine jsonl_live_def jsonl_ent_def mem_live_def memory_ops_def split del: if_split)
next
  fix x x' :: "('j, 'f) jsonl_world" and ws cx r
  show "so_commit (jsonl_ops env w) ws cx x = (Inr r, x') \<Longrightarrow>
      jsonl_live x \<and> jsonl_live x' \<and> batch_ok (storage_view (state_of x)) (cv_next_seq (storage_view (state_of x))) ws \<and>
      jsonl_val x' = foldl value_effect (jsonl_val x) ws \<and> jsonl_ent x' = foldl entry_effect (jsonl_ent x) ws"
    unfolding jsonl_ops_def storage_ops.select_convs by (rule jsonl_commit_effect)
next
  fix x x' :: "('j, 'f) jsonl_world" and ws cx e
  show "so_commit (jsonl_ops env w) ws cx x = (Inl e, x') \<Longrightarrow> jw_storage x' = jw_storage x"
    by (simp add: jsonl_ops_def jsonl_commit_fail)
qed (auto simp: jsonl_live_def jsonl_val_def jsonl_ent_def memory_of_def mem_ent_def)

text \<open>The environment without faults, in which commits to a version-4 file go through.\<close>

definition no_faults :: "jsonl_env \<Rightarrow> jsonl_env" where
  "no_faults env = env\<lparr>je_io := (je_io env)\<lparr>io_fault := \<lambda>_. None\<rparr>\<rparr>"

definition jsonl_ready :: "('j, 'f) jsonl_world \<Rightarrow> bool" where
  "jsonl_ready x \<longleftrightarrow> jsonl_live x \<and> backing_of x = Backing_V4 \<and> jw_fs x (path_of x) \<noteq> None"

interpretation jsonl_fault_free: storage_progress "jsonl_ops (no_faults env) w" jsonl_live jsonl_val jsonl_ent
  "\<lambda>x. storage_view (state_of x)" jw_storage jsonl_ready
  for env :: jsonl_env and w :: "('j, 'f::plus) wire"
proof
  fix x :: "('j, 'f) jsonl_world" and ws :: "('j, 'f) session_write list" and cx :: call_context
  show "jsonl_ready x \<Longrightarrow> jsonl_live x"
    by (simp add: jsonl_ready_def)
  assume ready: "jsonl_ready x" and cx: "\<not> cx_cancelled cx"
    and ok: "batch_ok (storage_view (state_of x)) (cv_next_seq (storage_view (state_of x))) ws"
  obtain s' r where "apply_batch (state_of x) ws (je_now env) = Inr (s', r)"
    using apply_batch_progress [of "state_of x" ws "je_now env"] ok by auto
  then have "apply_batch (state_of x) ws (je_now (no_faults env)) = Inr (s', r)"
    by (simp add: no_faults_def)
  moreover have "appends_succeed (je_io (no_faults env))"
    by (simp add: appends_succeed_def no_faults_def)
  ultimately show "\<exists>r x'. so_commit (jsonl_ops (no_faults env) w) ws cx x = (Inr r, x')"
    using jsonl_commit_done [OF cx, of x ws "no_faults env" s' r, where w = w] ready
    by (auto simp: jsonl_ops_def jsonl_ready_def jsonl_live_def)
qed

section \<open>A failed append followed by another commit\<close>

text \<open>
  The handle stays open after a failed append, and the next record is appended right behind the
  unfinished one. The reader then sees one line that is the two records run together.
\<close>

lemma poisoned_file:
  assumes d: "durable w x" and t: "jw_fs x (path_of x) = Some old"
    and merged: "wi_from_str w (p @ l) = Inl e" and "p @ l \<noteq> []" and "10 \<notin> set (p @ l)" and "valid_utf8 (p @ l)"
    and fs: "fs (path_of x) = Some (old @ p @ l @ [10])" and read: "io_fault env Io_read = None"
  shows "\<exists>e. open_sync env w lg (path_of x) fs = (Inl e, fs)"
proof -
  from d obtain h lines s where
    V4: "jh_storage_version (header_of x) = JSONL_STORAGE_VERSION" and
    f: "text_line h" "list_all text_line lines" "parse_header w h = Inr (V4 (header_of x))"
      "jw_fs x (path_of x) = Some (file_text (h # lines))"
      "load_lines w (path_of x) 1 lines storage_new = Inr s"
    unfolding durable_def by auto
  have new: "text_line (p @ l)"
    using assms(4-6) by (simp add: text_line_def)
  have bytes: "fs (path_of x) = Some (file_text (h # lines @ [p @ l]))"
    using fs t f(4) by simp
  have valid: "valid_utf8 (file_text (h # lines @ [p @ l]))"
    using f(1,2) new by (intro valid_file_text) simp
  have split: "split_complete_lines (file_text (h # lines @ [p @ l])) = (h # lines @ [p @ l], False)"
    using f(1,2) new text_lineD [of "h # lines @ [p @ l]"] by (intro split_complete_file) simp_all
  have "\<exists>e. load_lines w (path_of x) 1 (lines @ [p @ l]) storage_new = Inl e"
    using f(5) merged by (simp add: load_lines_append parse_transaction_def map_err_def rbind_def)
  then show ?thesis
    unfolding open_sync_present [of fs "path_of x", OF bytes valid read]
    using split V4 f(1,3) by (auto simp: open_content_def open_v4_def text_line_def op_bind_def simp del: file_text_simps)
qed

end
