(* ===== verification/Jsonl_History.thy ===== *)
theory Jsonl_History
  imports Jsonl_Contract
begin

text \<open>
  Histories of one session file: creation or fork, then any sequence of commits that succeed, are
  refused or are cut off in the middle of the append, closing and opening again. \<open>durable\<close> is an
  invariant of all of them. Two things that can happen are left out, because \<open>durable\<close> fails after them: an
  append cut off inside a character, and another commit of the same handle after an append that failed midway.
\<close>

inductive jsonl_history ::
  "('j, 'f::{plus,zero}) wire \<Rightarrow> ('j, 'f) legacy \<Rightarrow> (jsonl_header \<Rightarrow> bool) \<Rightarrow> (('j, 'f) committed_write \<Rightarrow> bool)
    \<Rightarrow> ('j, 'f) jsonl_world \<Rightarrow> bool"
  for w lg hs rt where
  created: "create_sync io w path h fs = (Inr st, fs') \<Longrightarrow>
    hs h \<Longrightarrow> \<not> header_rejected h \<Longrightarrow> jh_storage_version h = JSONL_STORAGE_VERSION \<Longrightarrow> jh_next_seq h = None \<Longrightarrow>
    jsonl_history w lg hs rt \<lparr>jw_storage = st, jw_fs = fs', jw_ids = g\<rparr>"
| forked: "create_from_fork_sync io w lg path h d fs = (Inr st, fs') \<Longrightarrow> fault_free io \<Longrightarrow>
    from_fork_snapshot d = Inr s \<Longrightarrow>
    hs (h\<lparr>jh_next_seq := Some (fd_next_seq d)\<rparr>) \<Longrightarrow> \<not> header_rejected (h\<lparr>jh_next_seq := Some (fd_next_seq d)\<rparr>) \<Longrightarrow>
    jh_storage_version h = JSONL_STORAGE_VERSION \<Longrightarrow>
    list_all rt (fork_snapshot_writes d) \<Longrightarrow> list_all wire_safe (fork_snapshot_writes d) \<Longrightarrow>
    jsonl_history w lg hs rt \<lparr>jw_storage = st, jw_fs = fs', jw_ids = g\<rparr>"
| committed: "jsonl_history w lg hs rt x \<Longrightarrow> jsonl_commit env w ws cx x = (Inr r, x') \<Longrightarrow>
    storable rt env (state_of x) ws \<Longrightarrow> jsonl_history w lg hs rt x'"
| refused: "jsonl_history w lg hs rt x \<Longrightarrow> jsonl_commit env w ws cx x = (Inl e, x') \<Longrightarrow> jw_fs x' = jw_fs x \<Longrightarrow>
    jsonl_history w lg hs rt x'"
| closed: "jsonl_history w lg hs rt x \<Longrightarrow> jsonl_close cx x = (r, x') \<Longrightarrow> jsonl_history w lg hs rt x'"
| reopened: "jsonl_history w lg hs rt x \<Longrightarrow> open_sync io w lg (path_of x) (jw_fs x) = (Inr (h, st), fs') \<Longrightarrow>
    jsonl_history w lg hs rt (x\<lparr>jw_storage := st, jw_fs := fs'\<rparr>)"
| interrupted: "jsonl_history w lg hs rt x \<Longrightarrow> jsonl_commit env w ws cx x = (Inl e, x1) \<Longrightarrow>
    storable rt env (state_of x) ws \<Longrightarrow> jw_fs x1 (path_of x) = Some bytes \<Longrightarrow> valid_utf8 bytes \<Longrightarrow> fault_free io \<Longrightarrow>
    open_sync io w lg (path_of x) (jw_fs x1) = (Inr (h, st), fs') \<Longrightarrow>
    jsonl_history w lg hs rt (x1\<lparr>jw_storage := st, jw_fs := fs'\<rparr>)"

lemma durable_same_file:
  "durable w x \<Longrightarrow> js_inner (jw_storage x') = js_inner (jw_storage x) \<Longrightarrow> path_of x' = path_of x \<Longrightarrow>
   jw_fs x' (path_of x) = jw_fs x (path_of x) \<Longrightarrow> durable w x'"
  unfolding durable_def by simp

lemma open_sync_read: "open_sync io w lg path fs = (Inr r, fs') \<Longrightarrow> io_fault io Io_read = None"
  by (auto simp: open_sync_def op_bind_def op_read_def read_to_string_def map_err_def split: option.splits)

lemma jsonl_history_durable:
  assumes "jsonl_history w lg hs rt x" and wire: "wire_ok w hs rt"
  shows "durable w x"
  using assms(1)
proof (induction rule: jsonl_history.induct)
  case (created io path h fs st fs' g)
  then show ?case
    using create_durable(1) [OF wire] by blast
next
  case (forked io path h d fs st fs' s g)
  from forked show ?case
    by - (rule fork_file [OF wire _ _ _ refl, where d = d and s = s and env = io and h = h and lg = lg and path = path and fs = fs];
        auto)
next
  case (committed x env ws cx r x')
  then show ?case
    using durable_commit [OF _ wire] by blast
next
  case (refused x env ws cx e x')
  then show ?case
    using jsonl_commit_fail [of env w ws cx x e x'] by (auto intro: durable_same_file)
next
  case (closed x cx r x')
  then show ?case
    by (auto simp: jsonl_close_def split: sum.splits intro: durable_same_file)
next
  case (reopened x io h st fs')
  then have "(Inr (h, st), fs') = (Inr (header_of x, jsonl_handle (js_inner (jw_storage x)) (path_of x)), jw_fs x)"
    using open_durable [of w x io lg] open_sync_read [of io w lg "path_of x" "jw_fs x" "(h, st)" fs'] by simp
  then show ?case
    using reopened.IH by (auto simp: jsonl_handle_def intro: durable_same_file)
next
  case (interrupted x env ws cx e x1 bytes io h st fs')
  from torn_commit_recovers [OF interrupted.IH wire interrupted.hyps(2,3,6,4,5), of lg]
  have "st = jsonl_handle (js_inner (jw_storage x)) (path_of x)" "fs' (path_of x) = jw_fs x (path_of x)"
    using interrupted.hyps(7) by auto
  then show ?case
    using interrupted.IH by (auto simp: jsonl_handle_def intro: durable_same_file)
qed

end
