(* ===== verification/Jsonl_Samples.thy ===== *)
theory Jsonl_Samples
  imports Jsonl_History Session_Samples
begin

text \<open>
  Concrete inputs for the properties of the durable backend: a tiny wire format for the headers of
  one session and a handful of committed writes, each of which is one two-byte character.
\<close>

datatype sample_doc = DocHeader "u64 option" | DocWrite u8 | DocList utf8 | DocText string | DocNumber u64

type_synonym sample_committed = "(sample_doc, nat) committed_write"

definition sample_set :: sample_committed where
  "sample_set = CommittedValue (CommittedSet 1 ''notes'' ''todo'' (DocText ''first''))"

definition sample_delete :: "u64 \<Rightarrow> sample_committed" where
  "sample_delete seq = CommittedValue (CommittedValueDelete seq ''notes'' ''todo'')"

definition sample_import :: sample_committed where
  "sample_import = CommittedUsage \<lparr>ur_id = ''5'', ur_seq = 2, ur_usage = usage_default, ur_entry_id = None,
     ur_adjustment = True, ur_details = Some (DocText ''v3-import'')\<rparr>"

text \<open>The three slots of a lane named \<open>main\<close>.\<close>

definition sample_lane_config :: sample_committed where
  "sample_lane_config = CommittedValue (CommittedSet 1 ''pi.lane.config'' ''main'' (DocText ''config''))"

definition sample_lane_state :: sample_committed where
  "sample_lane_state = CommittedValue (CommittedSet 2 ''pi.lane.state'' ''main'' (DocText ''state''))"

definition sample_lane_tip :: sample_committed where
  "sample_lane_tip = CommittedValue (CommittedSet 3 ''pi.branch.tip'' ''main'' (DocText ''root''))"

definition doc_header :: "u64 option \<Rightarrow> jsonl_header" where
  "doc_header next_seq = \<lparr>jh_v = 4, jh_kind = ''header'', jh_id = ''s1'', jh_storage_version = 1, jh_created_at = 7,
     jh_cwd = ''/w'', jh_parent_session_id = None, jh_legacy_parent_session_path = None, jh_next_seq = next_seq\<rparr>"

definition doc_code :: "sample_committed \<Rightarrow> u8" where
  "doc_code c =
     (if c = sample_set then 0xA1 else if c = sample_delete 2 then 0xA2 else if c = sample_import then 0xA3
      else if c = sample_delete 3 then 0xA4 else if c = sample_lane_config then 0xA5
      else if c = sample_lane_state then 0xA6 else if c = sample_lane_tip then 0xA7 else 0xA0)"

definition doc_write :: "u8 \<Rightarrow> string + sample_committed" where
  "doc_write b =
     (if b = 0xA1 then Inr sample_set else if b = 0xA2 then Inr (sample_delete 2) else if b = 0xA3 then Inr sample_import
      else if b = 0xA4 then Inr (sample_delete 3) else if b = 0xA5 then Inr sample_lane_config
      else if b = 0xA6 then Inr sample_lane_state else if b = 0xA7 then Inr sample_lane_tip else Inl ''unknown write'')"

fun doc_from_str :: "utf8 \<Rightarrow> string + sample_doc" where
  "doc_from_str [] = Inl ''EOF while parsing a value''"
| "doc_from_str (b # bs) =
     (if b = 104 then Inr (DocHeader (if bs = [] then None else Some (ucast (hd bs) - 48)))
      else if b = 91 then Inr (DocList bs)
      else if b = 0xC3 \<and> length bs = 1 then Inr (DocWrite (hd bs))
      else Inl ''trailing characters'')"

fun doc_elements :: "utf8 \<Rightarrow> sample_doc list" where
  "doc_elements (a # b # bs) = DocWrite b # doc_elements bs"
| "doc_elements bs = []"

definition doc_get :: "sample_doc \<Rightarrow> string \<Rightarrow> sample_doc option" where
  "doc_get v key =
     (case v of DocHeader _ \<Rightarrow>
        (if key = ''kind'' then Some (DocText ''header'') else if key = ''v'' then Some (DocNumber 4) else None)
      | _ \<Rightarrow> None)"

definition doc_wire :: "(sample_doc, nat) wire" where
  "doc_wire =
     \<lparr>wi_from_str = doc_from_str,
      wi_is_object = (\<lambda>v. case v of DocHeader _ \<Rightarrow> True | DocWrite _ \<Rightarrow> True | _ \<Rightarrow> False),
      wi_get = doc_get,
      wi_as_str = (\<lambda>v. case v of DocText s \<Rightarrow> Some s | _ \<Rightarrow> None),
      wi_as_u64 = (\<lambda>v. case v of DocNumber n \<Rightarrow> Some n | _ \<Rightarrow> None),
      wi_as_array = (\<lambda>v. case v of DocList bs \<Rightarrow> Some (doc_elements bs) | _ \<Rightarrow> None),
      wi_header_from_value = (\<lambda>v. case v of DocHeader n \<Rightarrow> Inr (doc_header n) | _ \<Rightarrow> Inl ''expected a header''),
      wi_header_to_string = (\<lambda>h. Inr (104 # (case jh_next_seq h of None \<Rightarrow> [] | Some n \<Rightarrow> [ucast n + 48]))),
      wi_legacy_header_from_value = (\<lambda>_. Inl ''expected a session''),
      wi_timestamp_millis = (\<lambda>_. Inl ''expected a timestamp''),
      wi_write_from_value = (\<lambda>v. case v of DocWrite b \<Rightarrow> doc_write b | _ \<Rightarrow> Inl ''expected a write''),
      wi_write_to_string = (\<lambda>c. [0xC3, doc_code c]),
      wi_writes_to_string = (\<lambda>cs. 91 # concat (map (\<lambda>c. [0xC3, doc_code c]) cs)),
      wi_import_details = DocText ''v3-import''\<rparr>"

definition doc_headers :: "jsonl_header \<Rightarrow> bool" where
  "doc_headers h \<longleftrightarrow> h \<in> {doc_header None, doc_header (Some 2), doc_header (Some 4)}"

definition doc_committed :: "sample_committed \<Rightarrow> bool" where
  "doc_committed c \<longleftrightarrow> c \<in> {sample_set, sample_delete 2, sample_import, sample_delete 3,
     sample_lane_config, sample_lane_state, sample_lane_tip}"

lemma doc_distinct [simp]:
  "sample_set \<noteq> sample_delete n" "sample_delete n \<noteq> sample_set" "sample_import \<noteq> sample_delete n"
  "sample_delete n \<noteq> sample_import" "sample_set \<noteq> sample_import" "sample_import \<noteq> sample_set"
  "sample_delete m = sample_delete n \<longleftrightarrow> m = n"
  by (simp_all add: sample_set_def sample_delete_def sample_import_def)

lemma doc_lane_distinct [simp]:
  "sample_lane_config \<notin> {sample_set, sample_delete n, sample_import, sample_lane_state, sample_lane_tip}"
  "sample_lane_state \<notin> {sample_set, sample_delete n, sample_import, sample_lane_config, sample_lane_tip}"
  "sample_lane_tip \<notin> {sample_set, sample_delete n, sample_import, sample_lane_config, sample_lane_state}"
  by (simp_all add: sample_set_def sample_delete_def sample_import_def sample_lane_config_def sample_lane_state_def sample_lane_tip_def)

lemma doc_code_cases:
  assumes "doc_committed c"
  shows "doc_write (doc_code c) = Inr c" and "utf8_tail (doc_code c)" and "doc_code c \<noteq> 10"
  using assms by (auto simp: doc_committed_def doc_write_def doc_code_def utf8_tail_def)

lemma doc_list_line: "list_all doc_committed cs \<Longrightarrow> text_line (91 # concat (map (\<lambda>c. [0xC3, doc_code c]) cs))"
  by (induction cs) (auto simp: text_line_def utf8_width_def doc_code_cases)

lemma doc_list_elements: "doc_elements (concat (map (\<lambda>c. [0xC3, doc_code c]) cs)) = map (\<lambda>c. DocWrite (doc_code c)) cs"
  by (induction cs) auto

lemma doc_wire_ok: "wire_ok doc_wire doc_headers doc_committed"
proof -
  have "wire_header_ok doc_wire h" if "doc_headers h" for h
    using that
    by (auto simp: doc_headers_def wire_header_ok_def doc_wire_def doc_header_def get_str_def get_u64_def doc_get_def
        text_line_def utf8_width_def)
  moreover have "wire_write_ok doc_wire c" if "doc_committed c" for c
    using doc_code_cases [OF that]
    by (simp add: wire_write_ok_def doc_wire_def text_line_def utf8_width_def)
  moreover have "wire_writes_ok doc_wire cs" if "list_all doc_committed cs" for cs
    using that doc_list_line [OF that] doc_code_cases(1)
    by (auto simp: wire_writes_ok_def doc_wire_def doc_list_elements list_all2_conv_all_nth list_all_length)
  ultimately show ?thesis
    by (simp add: wire_ok_def)
qed

section \<open>A session file\<close>

definition doc_io :: "(io_stage \<Rightarrow> string option) \<Rightarrow> nat \<Rightarrow> io_env" where
  "doc_io faults written = \<lparr>io_platform = Posix, io_fault = faults, io_written = written\<rparr>"

abbreviation healthy :: "io_stage \<Rightarrow> string option" where
  "healthy \<equiv> \<lambda>_. None"

definition doc_env :: "(io_stage \<Rightarrow> string option) \<Rightarrow> nat \<Rightarrow> jsonl_env" where
  "doc_env faults written = \<lparr>je_io = doc_io faults written, je_now = 7, je_ids = sample_env\<rparr>"

definition doc_legacy :: "(sample_doc, nat) legacy" where
  "doc_legacy = \<lparr>lg_records = (\<lambda>_. Inl (Invariant ''no legacy records'')), lg_header = (\<lambda>_ _ _. Inl (Invariant ''no legacy header''))\<rparr>"

definition doc_handle :: "(sample_doc, nat) storage_state \<Rightarrow> (sample_doc, nat) jsonl_storage" where
  "doc_handle s = jsonl_handle \<lparr>ji_state = s, ji_backing = Backing_V4, ji_header = doc_header None\<rparr> ''s''"

definition doc_world :: "(sample_doc, nat) storage_state \<Rightarrow> utf8 \<Rightarrow> (sample_doc, nat) jsonl_world" where
  "doc_world s bytes = \<lparr>jw_storage = doc_handle s, jw_fs = [''s'' \<mapsto> bytes], jw_ids = generator_default\<rparr>"

definition doc_state :: "(sample_doc, nat) storage_state" where
  "doc_state = \<lparr>st_entries = [], st_entries_by_seq = [],
     st_values = [((''notes'', ''todo''), \<lparr>rv_namespace = ''notes'', rv_key = ''todo'', rv_kind = Ak_Value,
       rv_value = DocText ''first'', rv_seq = 1\<rparr>)],
     st_lists = [], st_usage = [], st_stats = session_stats_default, st_next_seq = 2\<rparr>"

definition doc_session :: "(sample_doc, nat) jsonl_world" where
  "doc_session = doc_world doc_state [104, 10, 0xC3, 0xA1, 10]"

definition doc_set :: "(sample_doc, nat) session_write list" where
  "doc_set = [WriteValue (ValueSet ''notes'' ''todo'' (DocText ''first''))]"

definition doc_remove :: "(sample_doc, nat) session_write list" where
  "doc_remove = [WriteValue (ValueDelete ''notes'' ''todo'')]"

lemmas doc_defs = doc_io_def doc_env_def doc_handle_def doc_world_def doc_state_def doc_set_def doc_remove_def doc_header_def
  sample_cx_def jsonl_handle_def

lemma doc_handle_sel [simp]:
  "js_path (doc_handle s) = ''s''" "js_closed (doc_handle s) = False" "ji_state (js_inner (doc_handle s)) = s"
  "ji_header (js_inner (doc_handle s)) = doc_header None" "ji_backing (js_inner (doc_handle s)) = Backing_V4"
  "jsonl_handle (js_inner (doc_handle s)) ''s'' = doc_handle s"
  by (simp_all add: doc_handle_def jsonl_handle_def)

lemma doc_create:
  "create_sync (doc_io healthy 0) doc_wire ''s'' (doc_header None) Map.empty =
     (Inr (doc_handle storage_new), [''s'' \<mapsto> [104, 10]])"
  by (simp add: create_sync_def JSONL_FORMAT_VERSION_def complete_file_def serialize_header_def doc_wire_def publish_defs
      doc_defs op_bind_def temp_path_def fun_upd_twist)

lemma doc_header_ok:
  "doc_headers (doc_header None)" "\<not> header_rejected (doc_header None)"
  "jh_storage_version (doc_header None) = JSONL_STORAGE_VERSION" "jh_next_seq (doc_header None) = None"
  by (simp_all add: doc_headers_def header_rejected_def doc_header_def JSONL_FORMAT_VERSION_def JSONL_STORAGE_VERSION_def
      MAX_SAFE_INTEGER_def u64_of_i64_def is_none_or_def)

lemma doc_empty_history: "jsonl_history doc_wire doc_legacy doc_headers doc_committed (doc_world storage_new [104, 10])"
  unfolding doc_world_def by (rule jsonl_history.created [where hs = doc_headers, OF doc_create doc_header_ok])

lemmas commit_eval = jsonl_commit_def commit_sync_def commit_v4_def check_context_def jsonl_admit_def jsonl_release_def
  on_files_def append_transaction_def apply_world_def update_inner_def serialize_transaction_def append_line_def

lemma doc_commit:
  "jsonl_commit (doc_env healthy 0) doc_wire doc_set sample_cx (doc_world storage_new [104, 10]) =
     (Inr \<lparr>cr_first_seq = 1, cr_seqs = [1], cr_timestamp = 7, cr_stats = session_stats_default\<rparr>, doc_session)"
  by (simp add: commit_eval io_defs op_bind_def doc_defs doc_session_def result_eval storage_eval doc_wire_def doc_code_def
      sample_set_def Let_def)

lemma doc_set_storable: "storable doc_committed (doc_env healthy 0) (storage_new :: (sample_doc, nat) storage_state) doc_set"
  by (simp add: storable_def doc_defs result_eval storage_eval doc_committed_def sample_set_def wire_safe_def
      validate_committed_wire_def MAX_SAFE_INTEGER_def)

lemma doc_session_history: "jsonl_history doc_wire doc_legacy doc_headers doc_committed doc_session"
proof -
  have "state_of (doc_world storage_new [104, 10]) = storage_new"
    by (simp add: doc_defs)
  then show ?thesis
    using jsonl_history.committed [OF doc_empty_history doc_commit] doc_set_storable by simp
qed

section \<open>A session file with a lane\<close>

definition lane_set :: "(sample_doc, nat) session_write list" where
  "lane_set = [WriteValue (ValueSet ''pi.lane.config'' ''main'' (DocText ''config'')),
     WriteValue (ValueSet ''pi.lane.state'' ''main'' (DocText ''state'')),
     WriteValue (ValueSet ''pi.branch.tip'' ''main'' (DocText ''root''))]"

definition lane_doc_state :: "(sample_doc, nat) storage_state" where
  "lane_doc_state = \<lparr>st_entries = [], st_entries_by_seq = [],
     st_values = [((''pi.branch.tip'', ''main''), \<lparr>rv_namespace = ''pi.branch.tip'', rv_key = ''main'', rv_kind = Ak_Value,
         rv_value = DocText ''root'', rv_seq = 3\<rparr>),
       ((''pi.lane.config'', ''main''), \<lparr>rv_namespace = ''pi.lane.config'', rv_key = ''main'', rv_kind = Ak_Value,
         rv_value = DocText ''config'', rv_seq = 1\<rparr>),
       ((''pi.lane.state'', ''main''), \<lparr>rv_namespace = ''pi.lane.state'', rv_key = ''main'', rv_kind = Ak_Value,
         rv_value = DocText ''state'', rv_seq = 2\<rparr>)],
     st_lists = [], st_usage = [], st_stats = session_stats_default, st_next_seq = 4\<rparr>"

definition lane_session :: "(sample_doc, nat) jsonl_world" where
  "lane_session = doc_world lane_doc_state [104, 10, 91, 0xC3, 0xA5, 0xC3, 0xA6, 0xC3, 0xA7, 10]"

lemma lane_commit_eval:
  "jsonl_commit (doc_env healthy 0) doc_wire lane_set sample_cx (doc_world storage_new [104, 10]) =
     (Inr \<lparr>cr_first_seq = 1, cr_seqs = [1, 2, 3], cr_timestamp = 7, cr_stats = session_stats_default\<rparr>, lane_session)"
  by (simp add: commit_eval io_defs op_bind_def doc_defs lane_session_def result_eval storage_eval doc_wire_def doc_code_def
      sample_set_def sample_delete_def sample_import_def sample_lane_config_def sample_lane_state_def sample_lane_tip_def
      lane_set_def lane_doc_state_def Let_def)

lemma lane_set_storable: "storable doc_committed (doc_env healthy 0) (storage_new :: (sample_doc, nat) storage_state) lane_set"
  by (simp add: storable_def doc_defs result_eval storage_eval doc_committed_def sample_set_def sample_delete_def sample_import_def
      sample_lane_config_def sample_lane_state_def sample_lane_tip_def lane_set_def wire_safe_def
      validate_committed_wire_def MAX_SAFE_INTEGER_def)

lemma lane_session_history: "jsonl_history doc_wire doc_legacy doc_headers doc_committed lane_session"
proof -
  have "state_of (doc_world storage_new [104, 10]) = storage_new"
    by (simp add: doc_defs)
  then show ?thesis
    using jsonl_history.committed [OF doc_empty_history lane_commit_eval] lane_set_storable by simp
qed

end
