(* ===== verification/Jsonl_Drain.thy ===== *)
theory Jsonl_Drain
  imports Prelude
begin

text \<open>
  Closing a durable storage handle while commits run (\<open>admit\<close>, \<open>ActivePermit::drop\<close> and
  \<open>close\<close> of \<open>harness_session/jsonl/storage.rs\<close>). Calls of \<open>commit\<close> take a permit under the
  admission lock; \<open>close\<close> seals the handle under the same lock and then waits on a \<open>Notify\<close> until
  no permit is held.

  Each rule of \<open>drain_step\<close> is one atomic action. \<open>dr_one\<close> and \<open>dr_all\<close> count the dropped
  permits that are about to call \<open>notify_one\<close> and \<open>notify_waiters\<close>; \<open>dr_stored\<close> is the permit a
  \<open>Notify\<close> keeps when \<open>notify_one\<close> finds nobody waiting.
\<close>

section \<open>Steps\<close>

datatype closer = Cl_idle | Cl_check | Cl_register | Cl_waiting | Cl_done

record drain_state =
  dr_closed :: bool
  dr_active :: nat
  dr_stored :: bool
  dr_one :: nat
  dr_all :: nat
  dr_closer :: "nat \<Rightarrow> closer"

definition drain_init :: drain_state where
  "drain_init = \<lparr>dr_closed = False, dr_active = 0, dr_stored = False, dr_one = 0, dr_all = 0, dr_closer = (\<lambda>_. Cl_idle)\<rparr>"

definition closer_to :: "nat \<Rightarrow> closer \<Rightarrow> drain_state \<Rightarrow> drain_state" where
  "closer_to c p s = s\<lparr>dr_closer := (dr_closer s)(c := p)\<rparr>"

definition wake_all :: "(nat \<Rightarrow> closer) \<Rightarrow> nat \<Rightarrow> closer" where
  "wake_all f c = (if f c = Cl_waiting then Cl_check else f c)"

inductive drain_step :: "drain_state \<Rightarrow> drain_state \<Rightarrow> bool" where
  admit: "\<not> dr_closed s \<Longrightarrow> drain_step s (s\<lparr>dr_active := dr_active s + 1\<rparr>)"
| release: "dr_active s = Suc (Suc n) \<Longrightarrow> drain_step s (s\<lparr>dr_active := Suc n\<rparr>)"
| release_last: "dr_active s = Suc 0 \<Longrightarrow> drain_step s (s\<lparr>dr_active := 0, dr_one := dr_one s + 1\<rparr>)"
| notify_waiter: "dr_one s = Suc n \<Longrightarrow> dr_closer s c = Cl_waiting \<Longrightarrow>
    drain_step s (closer_to c Cl_check (s\<lparr>dr_one := n, dr_all := dr_all s + 1\<rparr>))"
| notify_store: "dr_one s = Suc n \<Longrightarrow> \<forall>c. dr_closer s c \<noteq> Cl_waiting \<Longrightarrow>
    drain_step s (s\<lparr>dr_one := n, dr_all := dr_all s + 1, dr_stored := True\<rparr>)"
| notify_waiters: "dr_all s = Suc n \<Longrightarrow>
    drain_step s (s\<lparr>dr_all := n, dr_closer := wake_all (dr_closer s)\<rparr>)"
| seal: "dr_closer s c = Cl_idle \<Longrightarrow> drain_step s (closer_to c Cl_check (s\<lparr>dr_closed := True\<rparr>))"
| drained: "dr_closer s c = Cl_check \<Longrightarrow> dr_active s = 0 \<Longrightarrow> drain_step s (closer_to c Cl_done s)"
| busy: "dr_closer s c = Cl_check \<Longrightarrow> dr_active s \<noteq> 0 \<Longrightarrow> drain_step s (closer_to c Cl_register s)"
| take_stored: "dr_closer s c = Cl_register \<Longrightarrow> dr_stored s \<Longrightarrow>
    drain_step s (closer_to c Cl_check (s\<lparr>dr_stored := False\<rparr>))"
| wait: "dr_closer s c = Cl_register \<Longrightarrow> \<not> dr_stored s \<Longrightarrow> drain_step s (closer_to c Cl_waiting s)"

inductive_cases drain_stepE: "drain_step s s'"

abbreviation drain_steps :: "drain_state \<Rightarrow> drain_state \<Rightarrow> bool" where
  "drain_steps \<equiv> drain_step\<^sup>*\<^sup>*"

section \<open>A returned close\<close>

text \<open>No permit is held when a \<open>close\<close> has returned, and none is given out any more.\<close>

definition drain_inv :: "drain_state \<Rightarrow> bool" where
  "drain_inv s \<longleftrightarrow>
     (\<forall>c. dr_closer s c \<noteq> Cl_idle \<longrightarrow> dr_closed s) \<and> (\<forall>c. dr_closer s c = Cl_done \<longrightarrow> dr_active s = 0)"

lemma drain_inv_step: "drain_step s s' \<Longrightarrow> drain_inv s \<Longrightarrow> drain_inv s'"
  by (erule drain_stepE)
    (auto simp: drain_inv_def closer_to_def wake_all_def split: if_splits)

lemma drain_inv_reachable: "drain_steps drain_init s \<Longrightarrow> drain_inv s"
  by (induction rule: rtranclp_induct) (auto simp: drain_inv_step, simp add: drain_inv_def drain_init_def)

lemma done_stays:
  assumes "drain_step s s'" and "drain_inv s" and "dr_closer s c = Cl_done"
  shows "dr_closer s' c = Cl_done" and "dr_active s' = 0"
  using assms by (auto simp: drain_inv_def closer_to_def wake_all_def elim!: drain_stepE)

section \<open>One closer\<close>

text \<open>With one closer no wakeup is lost.\<close>

definition wakeup_inv :: "nat \<Rightarrow> drain_state \<Rightarrow> bool" where
  "wakeup_inv c s \<longleftrightarrow>
     (\<forall>c'. c' \<noteq> c \<longrightarrow> dr_closer s c' = Cl_idle) \<and>
     (dr_active s = 0 \<and> dr_closer s c = Cl_register \<longrightarrow> dr_stored s \<or> 0 < dr_one s) \<and>
     (dr_active s = 0 \<and> dr_closer s c = Cl_waiting \<longrightarrow> 0 < dr_one s) \<and>
     (dr_closer s c = Cl_waiting \<longrightarrow> \<not> dr_stored s)"

inductive drain_step1 :: "nat \<Rightarrow> drain_state \<Rightarrow> drain_state \<Rightarrow> bool" for c where
  "drain_step s s' \<Longrightarrow> \<forall>c'. c' \<noteq> c \<longrightarrow> dr_closer s' c' = dr_closer s c' \<Longrightarrow> drain_step1 c s s'"

lemma wakeup_inv_step: "drain_step1 c s s' \<Longrightarrow> wakeup_inv c s \<Longrightarrow> wakeup_inv c s'"
  unfolding wakeup_inv_def
  by (erule drain_step1.cases, erule drain_stepE)
    (auto simp: closer_to_def wake_all_def split: if_splits)

lemma closer_to_sel [simp]:
  "dr_closer (closer_to c p s) = (dr_closer s)(c := p)" "dr_active (closer_to c p s) = dr_active s"
  "dr_closed (closer_to c p s) = dr_closed s" "dr_stored (closer_to c p s) = dr_stored s"
  "dr_one (closer_to c p s) = dr_one s" "dr_all (closer_to c p s) = dr_all s"
  by (simp_all add: closer_to_def)

lemma release_all:
  "wakeup_inv c s \<Longrightarrow>
   \<exists>s'. drain_steps s s' \<and> wakeup_inv c s' \<and> dr_active s' = 0 \<and> dr_closer s' c = dr_closer s c"
proof (induction "dr_active s" arbitrary: s)
  case 0
  then show ?case by auto
next
  case (Suc n)
  obtain s1 where s1: "drain_step1 c s s1" "dr_active s1 = n" "dr_closer s1 = dr_closer s"
  proof (cases n)
    case 0
    then show thesis
      using Suc(2) drain_step.release_last [of s] by (intro that [of "s\<lparr>dr_active := 0, dr_one := dr_one s + 1\<rparr>"]) (auto intro: drain_step1.intros)
  next
    case (Suc m)
    then show thesis
      using \<open>Suc n = dr_active s\<close> drain_step.release [of s m]
      by (intro that [of "s\<lparr>dr_active := n\<rparr>"]) (auto intro: drain_step1.intros)
  qed
  obtain s' where s': "drain_steps s1 s'" "wakeup_inv c s'" "dr_active s' = 0" "dr_closer s' c = dr_closer s1 c"
    using Suc(1) [of s1] s1(2) wakeup_inv_step [OF s1(1) Suc(3)] by auto
  moreover have "drain_step s s1"
    using s1(1) by (auto elim: drain_step1.cases)
  ultimately show ?case
    using s1(3) by (auto intro: converse_rtranclp_into_rtranclp)
qed

lemma check_returns:
  "dr_closer s c = Cl_check \<Longrightarrow> dr_active s = 0 \<Longrightarrow> \<exists>s'. drain_steps s s' \<and> dr_closer s' c = Cl_done"
  using drain_step.drained [of s c] by (intro exI [of _ "closer_to c Cl_done s"]) auto

lemma stored_returns:
  "dr_closer s c = Cl_register \<Longrightarrow> dr_stored s \<Longrightarrow> dr_active s = 0 \<Longrightarrow>
   \<exists>s'. drain_steps s s' \<and> dr_closer s' c = Cl_done"
  using drain_step.take_stored [of s c] check_returns [of "closer_to c Cl_check (s\<lparr>dr_stored := False\<rparr>)" c]
  by (auto intro: converse_rtranclp_into_rtranclp)

lemma idle_active_returns:
  assumes inv: "wakeup_inv c s" and act: "dr_active s = 0" and sealed: "dr_closer s c \<noteq> Cl_idle"
  shows "\<exists>s'. drain_steps s s' \<and> dr_closer s' c = Cl_done"
proof (cases "dr_closer s c")
  case Cl_register
  show ?thesis
  proof (cases "dr_stored s")
    case True
    with Cl_register act show ?thesis by (intro stored_returns)
  next
    case False
    then obtain n where n: "dr_one s = Suc n"
      using inv act Cl_register by (auto simp: wakeup_inv_def gr0_conv_Suc)
    have "\<forall>c'. dr_closer s c' \<noteq> Cl_waiting"
      using inv Cl_register by (metis closer.distinct wakeup_inv_def)
    with n have "drain_step s (s\<lparr>dr_one := n, dr_all := dr_all s + 1, dr_stored := True\<rparr>)"
      by (rule drain_step.notify_store)
    with stored_returns [of "s\<lparr>dr_one := n, dr_all := dr_all s + 1, dr_stored := True\<rparr>" c] Cl_register act
    show ?thesis by (auto intro: converse_rtranclp_into_rtranclp)
  qed
next
  case Cl_waiting
  then obtain n where n: "dr_one s = Suc n"
    using inv act by (auto simp: wakeup_inv_def gr0_conv_Suc)
  from n Cl_waiting have "drain_step s (closer_to c Cl_check (s\<lparr>dr_one := n, dr_all := dr_all s + 1\<rparr>))"
    by (rule drain_step.notify_waiter)
  with check_returns [of "closer_to c Cl_check (s\<lparr>dr_one := n, dr_all := dr_all s + 1\<rparr>)" c] act
  show ?thesis by (auto intro: converse_rtranclp_into_rtranclp)
qed (use sealed act check_returns in auto)

lemma one_closer_returns:
  assumes "(drain_step1 c)\<^sup>*\<^sup>* drain_init s" and "dr_closer s c \<noteq> Cl_idle"
  shows "\<exists>s'. drain_steps s s' \<and> dr_closer s' c = Cl_done"
proof -
  have "wakeup_inv c s"
    using assms(1)
    by (induction rule: rtranclp_induct) (auto simp: wakeup_inv_step, simp add: wakeup_inv_def drain_init_def)
  then obtain s1 where "drain_steps s s1" "wakeup_inv c s1" "dr_active s1 = 0" "dr_closer s1 c = dr_closer s c"
    using release_all by blast
  with idle_active_returns [of c s1] assms(2) show ?thesis
    by (metis rtranclp_trans)
qed

section \<open>Two closers\<close>

text \<open>
  With two closers a wakeup can be lost: both have seen a held permit when it is dropped, the
  first takes the stored permit, and the second waits for a notification that never comes.
\<close>

definition stuck :: "nat \<Rightarrow> drain_state \<Rightarrow> bool" where
  "stuck c s \<longleftrightarrow> dr_closed s \<and> dr_active s = 0 \<and> dr_one s = 0 \<and> dr_all s = 0 \<and> dr_closer s c = Cl_waiting"

lemma stuck_step: "drain_step s s' \<Longrightarrow> stuck c s \<Longrightarrow> stuck c s'"
  by (erule drain_stepE) (auto simp: stuck_def)

lemma stuck_forever: "drain_steps s s' \<Longrightarrow> stuck c s \<Longrightarrow> stuck c s'"
  by (induction rule: rtranclp_induct) (auto simp: stuck_step)

definition two_closers :: "bool \<Rightarrow> nat \<Rightarrow> bool \<Rightarrow> nat \<Rightarrow> nat \<Rightarrow> closer \<Rightarrow> closer \<Rightarrow> drain_state" where
  "two_closers closed active stored one all a b =
     \<lparr>dr_closed = closed, dr_active = active, dr_stored = stored, dr_one = one, dr_all = all,
      dr_closer = (\<lambda>_. Cl_idle)(0 := a, 1 := b)\<rparr>"

lemma two_closers_run: "drain_steps drain_init (two_closers True 0 False 0 0 Cl_done Cl_waiting)"
proof -
  have eq: "drain_init = two_closers False 0 False 0 0 Cl_idle Cl_idle"
    by (simp add: drain_init_def two_closers_def fun_upd_idem)
  have "drain_step (two_closers False 0 False 0 0 Cl_idle Cl_idle) (two_closers False 1 False 0 0 Cl_idle Cl_idle)"
    using drain_step.admit [of "two_closers False 0 False 0 0 Cl_idle Cl_idle"] by (simp add: two_closers_def)
  moreover have "drain_step (two_closers False 1 False 0 0 Cl_idle Cl_idle) (two_closers True 1 False 0 0 Cl_check Cl_idle)"
    using drain_step.seal [of "two_closers False 1 False 0 0 Cl_idle Cl_idle" 0]
    by (simp add: two_closers_def closer_to_def fun_upd_twist)
  moreover have "drain_step (two_closers True 1 False 0 0 Cl_check Cl_idle) (two_closers True 1 False 0 0 Cl_check Cl_check)"
    using drain_step.seal [of "two_closers True 1 False 0 0 Cl_check Cl_idle" 1] by (simp add: two_closers_def closer_to_def)
  moreover have "drain_step (two_closers True 1 False 0 0 Cl_check Cl_check) (two_closers True 1 False 0 0 Cl_register Cl_check)"
    using drain_step.busy [of "two_closers True 1 False 0 0 Cl_check Cl_check" 0]
    by (simp add: two_closers_def closer_to_def fun_upd_twist)
  moreover have "drain_step (two_closers True 1 False 0 0 Cl_register Cl_check) (two_closers True 1 False 0 0 Cl_register Cl_register)"
    using drain_step.busy [of "two_closers True 1 False 0 0 Cl_register Cl_check" 1] by (simp add: two_closers_def closer_to_def)
  moreover have "drain_step (two_closers True 1 False 0 0 Cl_register Cl_register) (two_closers True 0 False 1 0 Cl_register Cl_register)"
    using drain_step.release_last [of "two_closers True 1 False 0 0 Cl_register Cl_register"] by (simp add: two_closers_def)
  moreover have "drain_step (two_closers True 0 False 1 0 Cl_register Cl_register) (two_closers True 0 True 0 1 Cl_register Cl_register)"
    using drain_step.notify_store [of "two_closers True 0 False 1 0 Cl_register Cl_register" 0] by (simp add: two_closers_def)
  moreover have "wake_all ((\<lambda>_. Cl_idle)(0 := Cl_register, Suc 0 := Cl_register)) =
      (\<lambda>_. Cl_idle)(0 := Cl_register, Suc 0 := Cl_register)"
    by (auto simp: wake_all_def fun_eq_iff)
  then have "drain_step (two_closers True 0 True 0 1 Cl_register Cl_register) (two_closers True 0 True 0 0 Cl_register Cl_register)"
    using drain_step.notify_waiters [of "two_closers True 0 True 0 1 Cl_register Cl_register" 0]
    by (simp add: two_closers_def)
  moreover have "drain_step (two_closers True 0 True 0 0 Cl_register Cl_register) (two_closers True 0 False 0 0 Cl_check Cl_register)"
    using drain_step.take_stored [of "two_closers True 0 True 0 0 Cl_register Cl_register" 0]
    by (simp add: two_closers_def closer_to_def fun_upd_twist)
  moreover have "drain_step (two_closers True 0 False 0 0 Cl_check Cl_register) (two_closers True 0 False 0 0 Cl_done Cl_register)"
    using drain_step.drained [of "two_closers True 0 False 0 0 Cl_check Cl_register" 0]
    by (simp add: two_closers_def closer_to_def fun_upd_twist)
  moreover have "drain_step (two_closers True 0 False 0 0 Cl_done Cl_register) (two_closers True 0 False 0 0 Cl_done Cl_waiting)"
    using drain_step.wait [of "two_closers True 0 False 0 0 Cl_done Cl_register" 1] by (simp add: two_closers_def closer_to_def)
  ultimately show ?thesis
    unfolding eq by (meson converse_rtranclp_into_rtranclp rtranclp.rtrancl_refl)
qed

end
