(* ===== verification/Jsonl_Properties.thy ===== *)
theory Jsonl_Properties
  imports Jsonl_Samples Jsonl_Drain
begin

text \<open>
  The properties of the durable backend: what is in the file is what is in memory, whatever is
  interrupted; how the backend relates to the in-memory one and to the session layer; and how a
  handle is closed.
\<close>

section \<open>Recovery\<close>

text \<open>
  C2. Recovery: take a session file that was created or forked and then saw commits that succeed or are
  refused without touching the file, closes and opens, and commits that are cut off in the middle of the
  record, where each of the latter stopped at a character boundary and the file was opened again before
  anything else was done with it. Opening it once more gives back exactly the header and the state
  of the handle, which is well formed, and leaves the file as it is. The writes are ones the encoding
  can represent, and a file that is created, not forked, has no stored sequence counter.
\<close>

theorem jsonl_recovery:
  assumes "jsonl_history w lg hs rt x" and "wire_ok w hs rt" and "io_fault io Io_read = None"
  shows "open_sync io w lg (path_of x) (jw_fs x) =
      (Inr (header_of x, jsonl_handle (js_inner (jw_storage x)) (path_of x)), jw_fs x) \<and>
    storage_wf (state_of x)"
proof -
  have "durable w x"
    using assms(1,2) by (rule jsonl_history_durable)
  with open_durable [OF this assms(3), of lg] show ?thesis
    by (simp add: durable_def)
qed

theorem jsonl_recovery_witness:
  "open_sync (doc_io healthy 0) doc_wire doc_legacy ''s'' [''s'' \<mapsto> [104, 10, 0xC3, 0xA1, 10]] =
     (Inr (doc_header None, doc_handle doc_state), [''s'' \<mapsto> [104, 10, 0xC3, 0xA1, 10]])"
  using jsonl_recovery [OF doc_session_history doc_wire_ok, of "doc_io healthy 0"]
  by (simp add: doc_session_def doc_world_def doc_io_def)

text \<open>
  C9. A commit that fails or is cut off loses nothing but itself: as long as the part of the record
  that reached the file ends at a character boundary, opening the file gives the state before the
  commit and restores the file's content from before it.
\<close>

theorem torn_commit_recovered:
  assumes "jsonl_history w lg hs rt x" and "wire_ok w hs rt"
    and "jsonl_commit env w ws cx x = (Inl e, x')" and "storable rt env (state_of x) ws"
    and "fault_free io" and "jw_fs x' (path_of x) = Some bytes" and "valid_utf8 bytes"
  shows "\<exists>fs'. open_sync io w lg (path_of x) (jw_fs x') =
      (Inr (header_of x, jsonl_handle (js_inner (jw_storage x)) (path_of x)), fs') \<and>
    fs' (path_of x) = jw_fs x (path_of x)"
  by (rule torn_commit_recovers [OF jsonl_history_durable [OF assms(1,2)] assms(2-7), of lg]) blast

definition torn_newline :: "io_stage \<Rightarrow> string option" where
  "torn_newline = (\<lambda>_. None)(Io_write_newline := Some ''no space left on device'')"

lemma doc_torn_commit:
  "jsonl_commit (doc_env torn_newline 0) doc_wire doc_remove sample_cx doc_session =
     (Inl (io_failure ''s'' ''failed to append JSONL storage'' (Io_other ''no space left on device'')),
      doc_world doc_state [104, 10, 0xC3, 0xA1, 10, 0xC3, 0xA2])"
  by (simp add: commit_eval io_defs op_bind_def doc_defs doc_session_def result_eval storage_eval doc_wire_def doc_code_def
      sample_delete_def sample_set_def Let_def torn_newline_def)

lemma doc_remove_storable: "storable doc_committed (doc_env f n) doc_state doc_remove"
  by (simp add: storable_def doc_defs result_eval storage_eval doc_committed_def sample_delete_def sample_set_def
      wire_safe_def validate_committed_wire_def MAX_SAFE_INTEGER_def)

lemma doc_session_sel [simp]:
  "jw_storage doc_session = doc_handle doc_state" "jw_fs doc_session = [''s'' \<mapsto> [104, 10, 0xC3, 0xA1, 10]]"
  by (simp_all add: doc_session_def doc_world_def)

theorem torn_commit_recovered_witness:
  "\<exists>fs'. open_sync (doc_io healthy 0) doc_wire doc_legacy ''s'' [''s'' \<mapsto> [104, 10, 0xC3, 0xA1, 10, 0xC3, 0xA2]] =
      (Inr (doc_header None, doc_handle doc_state), fs') \<and> fs' ''s'' = Some [104, 10, 0xC3, 0xA1, 10]"
proof -
  have "fault_free (doc_io healthy 0)"
    by (simp add: fault_free_def doc_io_def)
  moreover have "jw_fs (doc_world doc_state [104, 10, 0xC3, 0xA1, 10, 0xC3, 0xA2]) (path_of doc_session) =
      Some [104, 10, 0xC3, 0xA1, 10, 0xC3, 0xA2]"
    by (simp add: doc_world_def)
  moreover have "valid_utf8 [104, 10, 0xC3, 0xA1, 10, 0xC3, 0xA2]"
    by (simp add: utf8_width_def utf8_tail_def)
  ultimately show ?thesis
    using torn_commit_recovered [OF doc_session_history doc_wire_ok doc_torn_commit, of "doc_io healthy 0"] doc_remove_storable
    by (simp add: doc_world_def)
qed

text \<open>
  C37. A commit that is cut off inside a character makes the session unreadable: the part of the
  record that reached the file is not UTF-8, so every later attempt to open the file fails and
  leaves it as it is, although all earlier records are complete.
\<close>

theorem torn_character_unreadable:
  assumes "jsonl_history w lg hs rt x" and "wire_ok w hs rt"
    and "jsonl_commit env w ws cx x = (Inl e, x')"
    and "jw_fs x (path_of x) = Some old" and "jw_fs x' (path_of x) = Some (old @ p)" and "\<not> valid_utf8 p"
  shows "\<exists>e. open_sync io w lg (path_of x) (jw_fs x') = (Inl e, jw_fs x')"
proof -
  have "valid_utf8 old"
    using durable_content [OF jsonl_history_durable [OF assms(1,2)]] assms(4) by auto
  then have "\<not> valid_utf8 (old @ p)"
    using assms(6) by (simp add: valid_utf8_append)
  with assms(5) show ?thesis
    by (rule open_invalid_utf8)
qed

definition torn_line :: "io_stage \<Rightarrow> string option" where
  "torn_line = (\<lambda>_. None)(Io_write_line := Some ''no space left on device'')"

lemma doc_cut_commit:
  "jsonl_commit (doc_env torn_line 1) doc_wire doc_remove sample_cx doc_session =
     (Inl (io_failure ''s'' ''failed to append JSONL storage'' (Io_other ''no space left on device'')),
      doc_world doc_state [104, 10, 0xC3, 0xA1, 10, 0xC3])"
  by (simp add: commit_eval io_defs op_bind_def doc_defs doc_session_def result_eval storage_eval doc_wire_def doc_code_def
      sample_delete_def sample_set_def Let_def torn_line_def)

theorem torn_character_unreadable_witness:
  "\<exists>e. open_sync (doc_io healthy 0) doc_wire doc_legacy ''s'' [''s'' \<mapsto> [104, 10, 0xC3, 0xA1, 10, 0xC3]] =
     (Inl e, [''s'' \<mapsto> [104, 10, 0xC3, 0xA1, 10, 0xC3]])"
  using torn_character_unreadable [OF doc_session_history doc_wire_ok doc_cut_commit, of "[104, 10, 0xC3, 0xA1, 10]" "[0xC3]"
      "doc_io healthy 0"]
  by (simp add: doc_world_def utf8_width_def)

text \<open>
  C38. A failed append is not taken back: the next successful commit of the same handle is written right
  behind the bytes the failed one left, on the same line. When these two run together are not valid
  JSON, which is an assumption about the parser here (it holds of a complete record without its
  newline), the file can no longer be opened.
\<close>

theorem failed_append_poisons:
  assumes "jsonl_history w lg hs rt x" and "wire_ok w hs rt"
    and "jsonl_commit env w ws cx x = (Inl e, x1)" and "storable rt env (state_of x) ws"
    and "jsonl_commit env' w ws' cx' x1 = (Inr r, x2)" and "storable rt env' (state_of x) ws'"
    and "commit_writes ws' (st_next_seq (state_of x)) (je_now env') = Inr (cs, seqs)" and "cs \<noteq> []"
    and "jw_fs x (path_of x) = Some old" and "jw_fs x1 (path_of x) = Some (old @ p)" and "valid_utf8 p"
    and "wi_from_str w (p @ serialize_transaction w cs) = Inl err"
  shows "jw_fs x2 (path_of x) = Some (old @ p @ serialize_transaction w cs @ [10]) \<and> 10 \<notin> set (p @ serialize_transaction w cs) \<and>
    (\<exists>e fs'. open_sync io w lg (path_of x) (jw_fs x2) = (Inl e, fs'))"
proof -
  have d: "durable w x"
    using assms(1,2) by (rule jsonl_history_durable)
  obtain q where q: "jw_storage x1 = jw_storage x" "jw_fs x1 (path_of x) = Some (old @ q)" "10 \<notin> set q"
    using d assms(2-4,9) by (rule torn_commit_file)
  have p: "q = p"
    using q(2) assms(10) by simp
  let ?line = "serialize_transaction w cs"
  have line: "text_line ?line"
    using serialize_transaction_line [OF assms(2)] assms(6,7) by (simp add: storable_def)
  have "backing_of x1 = Backing_V4"
    using d q(1) by (simp add: durable_def)
  with assms(5) obtain fs' where app: "append_transaction (je_io env') w (path_of x) cs (jw_fs x1) = (Inr (), fs')"
    and x2: "jw_fs x2 = fs'"
    by (rule jsonl_commit_Inr) (use assms(7) q(1) in auto)
  then have "append_line (je_io env') (path_of x) ?line (jw_fs x1) = (Inr (), fs')"
    using assms(8) by (auto simp: append_transaction_def split: prod.splits sum.splits)
  then have merged: "jw_fs x2 (path_of x) = Some (old @ p @ ?line @ [10])"
    using assms(10) x2 by (elim append_line_Inr) simp
  moreover have "\<exists>e fs'. open_sync io w lg (path_of x) (jw_fs x2) = (Inl e, fs')"
  proof (cases "io_fault io Io_read")
    case (Some a)
    then show ?thesis
      by (simp add: open_sync_def op_bind_def read_to_string_def map_err_def)
  next
    case None
    then show ?thesis
      using poisoned_file [OF d assms(9,12), of "jw_fs x2" io lg] merged line assms(11) q(3) p
      by (auto simp: text_line_def valid_utf8_append)
  qed
  ultimately show ?thesis
    using line q(3) p by (simp add: text_line_def)
qed

lemma doc_second_commit:
  "\<exists>r. jsonl_commit (doc_env healthy 0) doc_wire doc_remove sample_cx
       (doc_world doc_state [104, 10, 0xC3, 0xA1, 10, 0xC3, 0xA2]) =
     (Inr r, doc_world (doc_state\<lparr>st_values := [], st_next_seq := 3\<rparr>) [104, 10, 0xC3, 0xA1, 10, 0xC3, 0xA2, 0xC3, 0xA2, 10])"
  by (simp add: commit_eval io_defs op_bind_def doc_defs result_eval storage_eval doc_wire_def doc_code_def
      sample_delete_def sample_set_def Let_def)

theorem failed_append_poisons_witness:
  "\<exists>e fs'. open_sync (doc_io healthy 0) doc_wire doc_legacy ''s''
     [''s'' \<mapsto> [104, 10, 0xC3, 0xA1, 10, 0xC3, 0xA2, 0xC3, 0xA2, 10]] = (Inl e, fs')"
proof -
  obtain r where r: "jsonl_commit (doc_env healthy 0) doc_wire doc_remove sample_cx
       (doc_world doc_state [104, 10, 0xC3, 0xA1, 10, 0xC3, 0xA2]) =
     (Inr r, doc_world (doc_state\<lparr>st_values := [], st_next_seq := 3\<rparr>) [104, 10, 0xC3, 0xA1, 10, 0xC3, 0xA2, 0xC3, 0xA2, 10])"
    using doc_second_commit by blast
  have cs: "commit_writes doc_remove (st_next_seq doc_state) (je_now (doc_env healthy 0)) = Inr ([sample_delete 2], [2])"
    by (simp add: doc_defs result_eval storage_eval sample_delete_def)
  have merged: "wi_from_str doc_wire ([0xC3, 0xA2] @ serialize_transaction doc_wire [sample_delete 2]) = Inl ''trailing characters''"
    by (simp add: doc_wire_def serialize_transaction_def)
  have "valid_utf8 [0xC3, 0xA2]"
    by (simp add: utf8_width_def utf8_tail_def)
  then show ?thesis
    using failed_append_poisons [OF doc_session_history doc_wire_ok doc_torn_commit _ r _ _ _ _ _ _ merged,
        of "[2]" "[104, 10, 0xC3, 0xA1, 10]" "doc_io healthy 0"] cs
    by (simp add: doc_remove_storable doc_world_def)
qed

text \<open>
  C19. Publishing a file is crash safe on every platform: whichever calls fail and wherever it is
  interrupted, once a stranded backup has been restored the path holds the old or the new content,
  the old one when publishing reported an error and the new one when it succeeded, and no file
  other than the path and its two siblings has changed.
\<close>

theorem publish_crash_safe:
  assumes "publish_file_atomically env path content fs = (r, fs')" and "fs path = Some old"
    and "io_fault env' Io_restore_backup = None"
  shows "restore_stranded_backup env' path fs' path \<in> {Some old, Some content} \<and>
    (r = Inr () \<longrightarrow> fs' path = Some content) \<and>
    (\<forall>e. r = Inl e \<longrightarrow> restore_stranded_backup env' path fs' path = Some old) \<and>
    (\<forall>q. q \<noteq> path \<and> q \<noteq> temp_path path \<and> q \<noteq> backup_path path \<longrightarrow> fs' q = fs q)"
proof (intro conjI allI impI)
  note restored = restore_backup [of fs' path old env', OF _ _ assms(3)]
  show "restore_stranded_backup env' path fs' path \<in> {Some old, Some content}"
    using publish_keeps_old [OF assms(1,2)] restore_present [of fs' path env'] restored by auto
  show "fs' path = Some content" if "r = Inr ()"
    using assms(1) that by (intro publish_Inr) simp
  show "restore_stranded_backup env' path fs' path = Some old" if "r = Inl e" for e
    using publish_Inl_keeps_old [of env path content fs e fs' old] assms(1,2) that restore_present [of fs' path env'] restored
    by auto
  show "fs' q = fs q" if "q \<noteq> path \<and> q \<noteq> temp_path path \<and> q \<noteq> backup_path path" for q
    using publish_frame [OF assms(1)] that by blast
qed

text \<open>A rotation that dies between the two renames strands the session in its backup.\<close>

definition dying_rotation :: io_env where
  "dying_rotation = \<lparr>io_platform = Windows,
     io_fault = (\<lambda>stage. if stage \<in> {Io_rename_in, Io_rename_back, Io_drop_backup, Io_remove_temp} then Some ''crash'' else None),
     io_written = 0\<rparr>"

theorem publish_crash_safe_witness:
  "\<exists>fs'. snd (publish_file_atomically dying_rotation ''s'' [50] [''s'' \<mapsto> [49]]) = fs' \<and> fs' ''s'' = None \<and>
     restore_stranded_backup (doc_io healthy 0) ''s'' fs' ''s'' = Some [49]"
proof -
  obtain e fs' where p: "publish_file_atomically dying_rotation ''s'' [50] [''s'' \<mapsto> [49]] = (Inl e, fs')" and "fs' ''s'' = None"
    by (simp add: publish_defs dying_rotation_def)
  with publish_crash_safe [OF p, of "[49]" "doc_io healthy 0"] show ?thesis
    by (simp add: doc_io_def)
qed

section \<open>Forks and imports\<close>

text \<open>
  C27. A fork written to a file is the fork made in memory: for every snapshot from which the
  in-memory backend can be created, creating the file succeeds and the handle has exactly that
  state, as has every handle opened on the file later.
\<close>

theorem fork_file_same_state:
  assumes "wire_ok w hs rt" and "from_fork_snapshot d = Inr s" and "fault_free io"
    and "hs (h\<lparr>jh_next_seq := Some (fd_next_seq d)\<rparr>)" and "\<not> header_rejected (h\<lparr>jh_next_seq := Some (fd_next_seq d)\<rparr>)"
    and "jh_storage_version h = JSONL_STORAGE_VERSION"
    and "list_all rt (fork_snapshot_writes d)" and "list_all wire_safe (fork_snapshot_writes d)"
  shows "\<exists>st fs'. create_from_fork_sync io w lg path h d fs = (Inr st, fs') \<and> ji_state (js_inner st) = s \<and>
    open_sync io w lg path fs' = (Inr (h\<lparr>jh_next_seq := Some (fd_next_seq d)\<rparr>, st), fs')"
proof -
  have sv: "jh_storage_version (h\<lparr>jh_next_seq := Some (fd_next_seq d)\<rparr>) = JSONL_STORAGE_VERSION"
    using assms(6) by simp
  obtain st fs' where c: "create_from_fork_sync io w lg path h d fs = (Inr st, fs')"
    and st: "st = jsonl_handle \<lparr>ji_state = s, ji_backing = Backing_V4, ji_header = h\<lparr>jh_next_seq := Some (fd_next_seq d)\<rparr>\<rparr> path"
    and dur: "durable w \<lparr>jw_storage = st, jw_fs = fs', jw_ids = generator_default\<rparr>"
    using fork_file [OF assms(1,4,5) sv refl assms(7,8,2,3)] by metis
  have "io_fault io Io_read = None"
    using assms(3) by (simp add: fault_free_def)
  from open_durable [OF dur this, of lg] c st show ?thesis
    by (auto simp: jsonl_handle_def)
qed

definition doc_snapshot :: "(sample_doc, nat) fork_destination_snapshot" where
  "doc_snapshot = \<lparr>fd_entries = [], fd_values = [\<lparr>rv_namespace = ''notes'', rv_key = ''todo'', rv_kind = Ak_Value,
     rv_value = DocText ''first'', rv_seq = 1\<rparr>], fd_usage = [], fd_next_seq = 2\<rparr>"

lemma doc_snapshot_writes: "fork_snapshot_writes doc_snapshot = [sample_set]"
  by (simp add: fork_snapshot_writes_def doc_snapshot_def stored_write_def sample_set_def)

lemma doc_snapshot_state: "from_fork_snapshot doc_snapshot = Inr doc_state"
  by (simp add: from_fork_snapshot_def doc_snapshot_writes replay_def validate_replayed_writes_def sample_set_def result_eval
      storage_eval advance_next_seq_def doc_state_def Let_def) (simp add: doc_snapshot_def)

theorem fork_file_same_state_witness:
  "\<exists>st fs'. create_from_fork_sync (doc_io healthy 0) doc_wire doc_legacy ''f'' (doc_header None) doc_snapshot Map.empty = (Inr st, fs') \<and>
     ji_state (js_inner st) = doc_state"
proof -
  have h: "(doc_header None)\<lparr>jh_next_seq := Some (fd_next_seq doc_snapshot)\<rparr> = doc_header (Some 2)"
    by (simp add: doc_header_def doc_snapshot_def)
  have "doc_headers (doc_header (Some 2))" "\<not> header_rejected (doc_header (Some 2))"
    by (simp_all add: doc_headers_def header_rejected_def doc_header_def JSONL_FORMAT_VERSION_def JSONL_STORAGE_VERSION_def
        MAX_SAFE_INTEGER_def u64_of_i64_def is_none_or_def)
  moreover have "doc_committed sample_set" "wire_safe sample_set"
    by (simp_all add: doc_committed_def wire_safe_def validate_committed_wire_def sample_set_def MAX_SAFE_INTEGER_def)
  ultimately show ?thesis
    using fork_file_same_state [OF doc_wire_ok doc_snapshot_state, of "doc_io healthy 0" "doc_header None" doc_legacy "''f''" Map.empty]
      doc_header_ok(3)
    by (auto simp: h doc_snapshot_writes fault_free_def doc_io_def)
qed

text \<open>
  C26. The first commit to an imported version-3 file upgrades it for good: the file is rewritten as
  a version-4 file from which exactly the state in memory is read again; that state is the imported
  one after one batch made of the imported usage and the caller's writes, and the caller gets the
  sequence numbers of its own writes only.
\<close>

theorem import_upgrade_durable:
  assumes "wire_ok w hs rt" and "open_v3 lg path lh lines fs = (Inr (h, st), fs1)"
    and "x = \<lparr>jw_storage = st, jw_fs = fs1, jw_ids = g0\<rparr>" and "ji_backing (js_inner st) = Backing_V3 u base"
    and "ws \<noteq> []" and "jsonl_commit env w ws cx x = (Inr r, x')"
    and "hs (h\<lparr>jh_next_seq := Some (st_next_seq (state_of x) + of_nat (length ws + 1))\<rparr>)" and "\<not> header_rejected h" and "jh_storage_version h = JSONL_STORAGE_VERSION"
    and "next_string (je_ids env) g0 (Some (je_now env)) = (Inr i, g)"
    and "list_all rt base" and "list_all wire_safe base" and "storable rt env (state_of x) (import_row w i u # ws)"
    and "unat (st_next_seq (state_of x)) + length ws + 1 \<le> unat MAX_SAFE_INTEGER"
    and "io_fault io Io_read = None"
  shows "open_sync io w lg path (jw_fs x') = (Inr (header_of x', jsonl_handle (js_inner (jw_storage x')) path), jw_fs x') \<and>
    (\<exists>r0. apply_batch (state_of x) (import_row w i u # ws) (je_now env) = Inr (state_of x', r0) \<and>
      cr_seqs r = tl (cr_seqs r0) \<and> cr_stats r = st_stats (state_of x'))"
proof -
  have st: "fs1 = fs \<and> js_path st = path \<and> (\<exists>u base. imported \<lparr>jw_storage = st, jw_fs = fs, jw_ids = g0\<rparr> u base)"
    using open_v3_imported [OF assms(2), of g0] by blast
  then have imp: "imported x u base" and path: "path_of x = path"
    using assms(3,4) by (auto simp: imported_def)
  have h: "header_of x = h"
    using assms(2,3) by (auto simp: open_v3_def op_bind_def op_read_def op_return_def jsonl_handle_def Let_def
        split: sum.splits prod.splits)
  note up = upgrade_durable [OF assms(1) imp assms(5,6), unfolded h, OF assms(7-9) _ assms(11-14)]
  have ids: "next_string (je_ids env) (jw_ids x) (Some (je_now env)) = (Inr i, g)"
    using assms(3,10) by simp
  have "path_of x' = path"
    using jsonl_commit_upgrade [OF assms(6) _ assms(5), of u base] imp path by (force simp: imported_def)
  then show ?thesis
    using open_durable [OF up(1) [OF ids] assms(15), of lg] up(2) [OF ids] by auto
qed

definition doc_import :: "(sample_doc, nat) legacy" where
  "doc_import = \<lparr>lg_records = (\<lambda>_. Inr \<lparr>nl_writes = [sample_set], nl_imported_usage = usage_default, nl_next_seq = 2\<rparr>),
     lg_header = (\<lambda>_ _ _. Inr (doc_header None))\<rparr>"

definition doc_imported :: "(sample_doc, nat) jsonl_storage" where
  "doc_imported = jsonl_handle
     \<lparr>ji_state = doc_state, ji_backing = Backing_V3 usage_default [sample_set], ji_header = doc_header (Some 2)\<rparr> ''v3''"

lemma doc_open_v3:
  "open_v3 doc_import ''v3'' lh lines fs = (Inr (doc_header (Some 2), doc_imported), fs)"
  by (simp add: open_v3_def op_bind_def doc_import_def doc_imported_def replay_def validate_replayed_writes_def sample_set_def
      result_eval storage_eval doc_state_def doc_header_def Let_def)

lemma doc_import_id: "next_string sample_env generator_default (Some 7) =
    (Inr ''5'', \<lparr>gs_last_ordinary_timestamp = None, gs_sequence = Some 5\<rparr>)"
  by (simp add: next_string_def requested_timestamp_def validate_timestamp_def supplied_timestamp_def u64_of_i64_def
      next_sequence_def sample_env_def generator_default_def rbind_def MAX_UUID_V7_TIMESTAMP_def RANDOM_SEQUENCE_MASK_def
      show_word_def digit_char_def show_nat.simps [of 5] char_of_53 Let_def)

definition doc_v3 :: "(sample_doc, nat) jsonl_world" where
  "doc_v3 = \<lparr>jw_storage = doc_imported, jw_fs = [''v3'' \<mapsto> [1, 10]], jw_ids = generator_default\<rparr>"

lemma doc_v3_sel [simp]:
  "jw_storage doc_v3 = doc_imported" "jw_ids doc_v3 = generator_default" "jw_fs doc_v3 = [''v3'' \<mapsto> [1, 10]]"
  "ji_state (js_inner doc_imported) = doc_state" "ji_backing (js_inner doc_imported) = Backing_V3 usage_default [sample_set]"
  "ji_header (js_inner doc_imported) = doc_header (Some 2)" "js_path doc_imported = ''v3''" "\<not> js_closed doc_imported"
  "st_next_seq doc_state = 2"
  by (simp_all add: doc_v3_def doc_imported_def jsonl_handle_def doc_state_def)

lemma doc_upgrade_batch:
  "commit_writes (import_row doc_wire ''5'' usage_default # doc_remove) 2 7 = Inr ([sample_import, sample_delete 3], [2, 3])"
  "validate_committed_writes (import_row doc_wire ''5'' usage_default # doc_remove) 2 (storage_view doc_state) = Inr ()"
  by (simp_all add: import_row_def doc_wire_def doc_remove_def doc_state_def sample_import_def sample_delete_def result_eval storage_eval)

lemma doc_upgrade: "\<exists>r x'. jsonl_commit (doc_env healthy 0) doc_wire doc_remove sample_cx doc_v3 = (Inr r, x')"
proof -
  have published: "complete_file doc_wire h ts = Inr c \<Longrightarrow> \<exists>fs'. publish_file_atomically (doc_io healthy 0) p c fs = (Inr (), fs')" for h ts c p fs
    using publish_fault_free [of "doc_io healthy 0" p c fs] by (simp add: fault_free_def doc_io_def)
  have complete: "\<exists>c. complete_file doc_wire h ts = Inr c" for h ts
    by (simp add: complete_file_def serialize_header_def doc_wire_def)
  obtain c where c: "complete_file doc_wire ((doc_header (Some 2))\<lparr>jh_next_seq := Some 4\<rparr>)
      (map (\<lambda>c. serialize_transaction doc_wire [c]) [sample_set] @ [serialize_transaction doc_wire [sample_import, sample_delete 3]]) = Inr c"
    using complete by blast
  obtain fs' where "publish_file_atomically (doc_io healthy 0) ''v3'' c [''v3'' \<mapsto> [1, 10]] = (Inr (), fs')"
    using published [OF c] by blast
  with c show ?thesis
    by (simp add: jsonl_commit_def check_context_def jsonl_admit_def sample_cx_def commit_sync_def upgrade_v3_locked_def
        doc_env_def next_id_def doc_import_id doc_upgrade_batch op_bind_def on_files_def apply_world_def seq_at_def
        u64_try_from_def checked_add_def doc_remove_def [symmetric] Let_def apply_committed_def)
qed

theorem import_upgrade_durable_witness:
  "\<exists>r x'. jsonl_commit (doc_env healthy 0) doc_wire doc_remove sample_cx doc_v3 = (Inr r, x') \<and>
     open_sync (doc_io healthy 0) doc_wire doc_import ''v3'' (jw_fs x') =
       (Inr (header_of x', jsonl_handle (js_inner (jw_storage x')) ''v3''), jw_fs x')"
proof -
  obtain r x' where c: "jsonl_commit (doc_env healthy 0) doc_wire doc_remove sample_cx doc_v3 = (Inr r, x')"
    using doc_upgrade by blast
  have h: "doc_headers ((doc_header (Some 2))\<lparr>jh_next_seq := Some (st_next_seq (state_of doc_v3) + of_nat (length doc_remove + 1))\<rparr>)"
    "\<not> header_rejected (doc_header (Some 2))" "jh_storage_version (doc_header (Some 2)) = JSONL_STORAGE_VERSION"
    by (simp_all add: doc_remove_def doc_headers_def header_rejected_def doc_header_def JSONL_FORMAT_VERSION_def
        JSONL_STORAGE_VERSION_def MAX_SAFE_INTEGER_def u64_of_i64_def is_none_or_def)
  have id: "next_string (je_ids (doc_env healthy 0)) generator_default (Some (je_now (doc_env healthy 0))) =
      (Inr ''5'', \<lparr>gs_last_ordinary_timestamp = None, gs_sequence = Some 5\<rparr>)"
    by (simp add: doc_env_def doc_import_id)
  have safe: "wire_safe sample_set" "wire_safe sample_import" "wire_safe (sample_delete 3)"
    by (simp_all add: wire_safe_def validate_committed_wire_def sample_set_def sample_import_def sample_delete_def MAX_SAFE_INTEGER_def)
  have base: "list_all doc_committed [sample_set]" "list_all wire_safe [sample_set]"
    by (simp_all add: safe doc_committed_def)
  have st: "storable doc_committed (doc_env healthy 0) (state_of doc_v3) (import_row doc_wire ''5'' usage_default # doc_remove)"
    using doc_upgrade_batch(1) by (simp add: storable_def doc_env_def safe doc_committed_def)
  show ?thesis
    using import_upgrade_durable [OF doc_wire_ok doc_open_v3 [of undefined "[]" "[''v3'' \<mapsto> [1, 10]]"] doc_v3_def _ _ c h id base st,
        of "doc_io healthy 0"] c
    by (simp add: doc_remove_def MAX_SAFE_INTEGER_def doc_io_def)
qed

section \<open>The durable backend as a storage\<close>

text \<open>
  C20. Apart from the file system, the durable backend is the in-memory backend: reading entries, values
  and lists and every scan give the same answer; the statistics are the same too for a version-4
  file, while an imported file that was not upgraded yet adds the usage it was imported with; and a
  commit to a version-4 file that no file operation disturbs gives the same result or the same error
  and leads to the same state.
\<close>

theorem durable_refines_memory:
  "jsonl_get_entries x ids cx = memory_get_entries (memory_of x) ids cx \<and>
   jsonl_get_value x addr cx = memory_get_value (memory_of x) addr cx \<and>
   jsonl_scan_values x addr cx = memory_scan_values (memory_of x) addr cx \<and>
   jsonl_read_list x addr options cx = memory_read_list (memory_of x) addr options cx \<and>
   jsonl_scan_branch x q cx = memory_scan_branch (memory_of x) q cx \<and>
   jsonl_scan_branch_structure x q cx = memory_scan_branch_structure (memory_of x) q cx \<and>
   jsonl_scan_entries x es cx = memory_scan_entries (memory_of x) es cx \<and>
   jsonl_scan_usage x us cx = memory_scan_usage (memory_of x) us cx \<and>
   jsonl_get_stats x cx = rbind (memory_get_stats (memory_of x) cx) (\<lambda>stats. Inr (stats_with_imported_usage stats (backing_of x))) \<and>
   (backing_of x = Backing_V4 \<longrightarrow> jsonl_get_stats x cx = memory_get_stats (memory_of x) cx) \<and>
   (backing_of x = Backing_V4 \<and> appends_succeed (je_io env) \<and> jw_fs x (path_of x) \<noteq> None \<and>
    jsonl_commit env w ws cx x = (res, x') \<longrightarrow>
      (case memory_commit (Inr (je_now env)) (memory_of x) ws cx of
         Inl e \<Rightarrow> res = Inl e \<and> x' = x
       | Inr (m, r) \<Rightarrow> res = Inr r \<and> memory_of x' = m))"
proof (intro conjI impI; (elim conjE)?)
  assume "backing_of x = Backing_V4" and "appends_succeed (je_io env)" and "jw_fs x (path_of x) \<noteq> None"
    and "jsonl_commit env w ws cx x = (res, x')"
  then show "(case memory_commit (Inr (je_now env)) (memory_of x) ws cx of
         Inl e \<Rightarrow> res = Inl e \<and> x' = x
       | Inr (m, r) \<Rightarrow> res = Inr r \<and> memory_of x' = m)"
    by (rule commit_refines)
qed (rule reads_refine imported_stats stats_refine, assumption?)+

theorem durable_refines_memory_witness:
  "\<exists>r. memory_commit (Inr 7) (memory_of (doc_world storage_new [104, 10])) doc_set sample_cx = Inr (memory_of doc_session, r)"
proof -
  have pre: "backing_of (doc_world storage_new [104, 10]) = Backing_V4 \<and> appends_succeed (je_io (doc_env healthy 0)) \<and>
      jw_fs (doc_world storage_new [104, 10]) (path_of (doc_world storage_new [104, 10])) \<noteq> None"
    by (simp add: doc_world_def appends_succeed_def doc_env_def doc_io_def)
  note step = durable_refines_memory [THEN conjunct2, THEN conjunct2, THEN conjunct2, THEN conjunct2, THEN conjunct2,
      THEN conjunct2, THEN conjunct2, THEN conjunct2, THEN conjunct2, THEN conjunct2, rule_format,
      of "doc_world storage_new [104, 10]" "doc_env healthy 0"]
  have "je_now (doc_env healthy 0) = 7"
    by (simp add: doc_env_def)
  with step [OF conjI [OF pre [THEN conjunct1] conjI [OF pre [THEN conjunct2, THEN conjunct1]
        conjI [OF pre [THEN conjunct2, THEN conjunct2] doc_commit]]]]
  show ?thesis
    by (cases "memory_commit (Inr 7) (memory_of (doc_world storage_new [104, 10])) doc_set sample_cx") auto
qed

text \<open>
  C22. Sessions on the durable backend keep the guarantees they have in memory, whatever the file
  system does: an append that returns has stored one new entry under the former tip and moved
  exactly that tip, and an append, a branch creation or a single write that fails leaves the
  handle as it was, with its state in memory; the file may have changed, it can hold an unfinished
  record then.
\<close>

theorem durable_session_contract:
  "(append_to_branch (jsonl_ops env w) gen sd name body cx s = (Inr i, s0) \<longrightarrow>
     (\<exists>j tip j'. jsonl_val (bk_storage s) (tip_slot name) = Some j \<and> sd_tip_from_value sd j = Inr tip \<and>
        sd_tip_to_value sd (Some i) = Inr j' \<and> jsonl_ent (bk_storage s) i = None \<and>
        jsonl_val (bk_storage s0) = (jsonl_val (bk_storage s))(tip_slot name \<mapsto> j') \<and>
        jsonl_ent (bk_storage s0) = (jsonl_ent (bk_storage s))(i \<mapsto> (tip, body)))) \<and>
   (append_to_branch (jsonl_ops env w) gen sd name body cx s = (Inl e, s1) \<longrightarrow>
     jw_storage (bk_storage s1) = jw_storage (bk_storage s)) \<and>
   (create_branch (jsonl_ops env w) sd name target cx s = (Inl e, s2) \<longrightarrow>
     jw_storage (bk_storage s2) = jw_storage (bk_storage s)) \<and>
   (commit_single (jsonl_ops env w) write cx s = (Inl e, s3) \<longrightarrow>
     jw_storage (bk_storage s3) = jw_storage (bk_storage s))"
proof (intro conjI impI)
  assume "append_to_branch (jsonl_ops env w) gen sd name body cx s = (Inr i, s0)"
  then show "\<exists>j tip j'. jsonl_val (bk_storage s) (tip_slot name) = Some j \<and> sd_tip_from_value sd j = Inr tip \<and>
        sd_tip_to_value sd (Some i) = Inr j' \<and> jsonl_ent (bk_storage s) i = None \<and>
        jsonl_val (bk_storage s0) = (jsonl_val (bk_storage s))(tip_slot name \<mapsto> j') \<and>
        jsonl_ent (bk_storage s0) = (jsonl_ent (bk_storage s))(i \<mapsto> (tip, body))"
    by (rule jsonl.append_effect) blast
qed (erule jsonl.append_fail_storage [unfolded failure_keeps_def, rule_format]
    jsonl.create_branch_fail_storage [unfolded failure_keeps_def, rule_format]
    jsonl.commit_single_fail_storage [unfolded failure_keeps_def, rule_format])+

definition doc_backed :: "((sample_doc, nat) jsonl_world, generator_state) backed_session" where
  "doc_backed = session_new \<lparr>md_id = ''s1'', md_created_at = 7, md_storage_version = 1, md_cwd = None, md_parent_session_id = None,
     md_legacy_parent_session_path = None\<rparr> doc_session generator_default True"

lemma doc_single_fails:
  "\<exists>e s'. commit_single (jsonl_ops (doc_env torn_line 1) doc_wire) (WriteValue (ValueDelete ''notes'' ''todo'')) sample_cx doc_backed =
     (Inl e, s') \<and> jw_fs (bk_storage s') ''s'' = Some [104, 10, 0xC3, 0xA1, 10, 0xC3]"
  using doc_cut_commit
  by (simp add: commit_single_def op_bind_def begin_mutation_def session_guard_def check_context_def session_ensure_open_def
      mutation_commit_def on_storage_def without_cancellation_def jsonl_ops_def doc_backed_def session_new_def sample_cx_def
      doc_remove_def Let_def) (simp add: doc_world_def)

theorem durable_session_contract_witness:
  "\<exists>e s'. commit_single (jsonl_ops (doc_env torn_line 1) doc_wire) (WriteValue (ValueDelete ''notes'' ''todo'')) sample_cx doc_backed =
     (Inl e, s') \<and> jw_fs (bk_storage s') ''s'' \<noteq> jw_fs (bk_storage doc_backed) ''s'' \<and>
     jw_storage (bk_storage s') = jw_storage (bk_storage doc_backed)"
proof -
  obtain e s' where s': "commit_single (jsonl_ops (doc_env torn_line 1) doc_wire) (WriteValue (ValueDelete ''notes'' ''todo''))
      sample_cx doc_backed = (Inl e, s')" "jw_fs (bk_storage s') ''s'' = Some [104, 10, 0xC3, 0xA1, 10, 0xC3]"
    using doc_single_fails by blast
  have "bk_storage doc_backed = doc_session"
    by (simp add: doc_backed_def session_new_def)
  with s' durable_session_contract [THEN conjunct2, THEN conjunct2, THEN conjunct2, rule_format, OF s'(1)] show ?thesis
    by auto
qed

section \<open>Closing a handle\<close>

text \<open>
  C25. Closing waits for the commits: in every interleaving, once a close has returned no permit is
  held and none is given out again; and when a handle has a single closer, no wakeup is lost: from
  every state in which it has sealed the handle it can still return.
\<close>

theorem close_drains:
  "(drain_steps drain_init s \<and> dr_closer s c = Cl_done \<and> drain_steps s s' \<longrightarrow>
      dr_active s' = 0 \<and> dr_closed s' \<and> dr_closer s' c = Cl_done) \<and>
   ((drain_step1 c)\<^sup>*\<^sup>* drain_init s \<and> dr_closer s c \<noteq> Cl_idle \<longrightarrow>
      (\<exists>s'. drain_steps s s' \<and> dr_closer s' c = Cl_done))"
proof (intro conjI impI; (elim conjE)?)
  assume reach: "drain_steps drain_init s" and returned: "dr_closer s c = Cl_done" and steps: "drain_steps s s'"
  have "drain_steps drain_init s'"
    using reach steps by (rule rtranclp_trans)
  then have inv: "drain_inv s'"
    by (rule drain_inv_reachable)
  have fin: "dr_closer s' c = Cl_done"
    using steps returned drain_inv_reachable [OF reach]
    by (induction rule: rtranclp_induct) (auto dest: done_stays(1) drain_inv_reachable [OF rtranclp_trans [OF reach]])
  then show "dr_active s' = 0" "dr_closed s'" "dr_closer s' c = Cl_done"
    using inv by (auto simp: drain_inv_def)
next
  assume "(drain_step1 c)\<^sup>*\<^sup>* drain_init s" and "dr_closer s c \<noteq> Cl_idle"
  then show "\<exists>s'. drain_steps s s' \<and> dr_closer s' c = Cl_done"
    by (rule one_closer_returns)
qed

theorem close_drains_witness:
  "\<exists>s'. drain_steps (closer_to 0 Cl_check (drain_init\<lparr>dr_closed := True\<rparr>)) s' \<and> dr_closer s' 0 = Cl_done"
proof -
  have "drain_step1 0 drain_init (closer_to 0 Cl_check (drain_init\<lparr>dr_closed := True\<rparr>))"
    by (intro drain_step1.intros drain_step.seal) (simp_all add: drain_init_def)
  then have "(drain_step1 0)\<^sup>*\<^sup>* drain_init (closer_to 0 Cl_check (drain_init\<lparr>dr_closed := True\<rparr>))"
    by simp
  with close_drains [THEN conjunct2, of 0 "closer_to 0 Cl_check (drain_init\<lparr>dr_closed := True\<rparr>)"] show ?thesis
    by simp
qed

text \<open>
  C39. Two concurrent closes of one handle can lose a wakeup: there is an interleaving after which
  one close has returned, no permit is held, no notification is pending, and the other close waits
  in every continuation.
\<close>

theorem concurrent_close_lost_wakeup:
  "\<exists>s. drain_steps drain_init s \<and> dr_closer s 0 = Cl_done \<and> dr_active s = 0 \<and> dr_closer s 1 = Cl_waiting \<and>
     \<not> (\<exists>s'. drain_steps s s' \<and> dr_closer s' 1 \<noteq> Cl_waiting)"
proof -
  let ?s = "two_closers True 0 False 0 0 Cl_done Cl_waiting"
  have "stuck 1 ?s"
    by (simp add: stuck_def two_closers_def)
  then have "\<not> (\<exists>s'. drain_steps ?s s' \<and> dr_closer s' 1 \<noteq> Cl_waiting)"
    using stuck_forever by (auto simp: stuck_def)
  with two_closers_run show ?thesis
    by (intro exI [of _ ?s]) (simp add: two_closers_def)
qed

end
