(* ===== verification/Agent_Queue.thy ===== *)
theory Agent_Queue
  imports Session_Types
begin

text \<open>
  The steering and follow-up queue of the agent loop (\<open>pi-agent/src/queue.rs\<close>). \<open>fifo\<close> is the
  interface the loop relies on: what is enqueued leaves in order, nothing is lost, and a drain
  of a non-empty queue releases something.
\<close>

section \<open>The queue\<close>

datatype queue_mode = QueueAll | OneAtATime

definition queue_mode_default :: queue_mode where
  "queue_mode_default = OneAtATime"

fun queue_mode_name :: "queue_mode \<Rightarrow> string" where
  "queue_mode_name QueueAll = ''all''"
| "queue_mode_name OneAtATime = ''one-at-a-time''"

record 'a pending_message_queue =
  pq_messages :: "'a list"
  pq_mode :: queue_mode

definition queue_new :: "queue_mode \<Rightarrow> 'a pending_message_queue" where
  "queue_new mode = \<lparr>pq_messages = [], pq_mode = mode\<rparr>"

definition enqueue :: "'a \<Rightarrow> 'a pending_message_queue \<Rightarrow> 'a pending_message_queue" where
  "enqueue message q = q\<lparr>pq_messages := pq_messages q @ [message]\<rparr>"

definition has_items :: "'a pending_message_queue \<Rightarrow> bool" where
  "has_items q = (pq_messages q \<noteq> [])"

definition queue_len :: "'a pending_message_queue \<Rightarrow> nat" where
  "queue_len q = length (pq_messages q)"

definition queue_is_empty :: "'a pending_message_queue \<Rightarrow> bool" where
  "queue_is_empty q = (pq_messages q = [])"

definition set_mode :: "queue_mode \<Rightarrow> 'a pending_message_queue \<Rightarrow> 'a pending_message_queue" where
  "set_mode mode q = q\<lparr>pq_mode := mode\<rparr>"

definition peek :: "'a pending_message_queue \<Rightarrow> 'a list" where
  "peek q = (case pq_mode q of
     QueueAll \<Rightarrow> pq_messages q
   | OneAtATime \<Rightarrow> (case pq_messages q of [] \<Rightarrow> [] | m # _ \<Rightarrow> [m]))"

definition drain :: "'a pending_message_queue \<Rightarrow> 'a list \<times> 'a pending_message_queue" where
  "drain q = (case pq_mode q of
     QueueAll \<Rightarrow> (pq_messages q, q\<lparr>pq_messages := []\<rparr>)
   | OneAtATime \<Rightarrow>
       if pq_messages q = [] then ([], q)
       else ([hd (pq_messages q)], q\<lparr>pq_messages := tl (pq_messages q)\<rparr>))"

definition queue_clear :: "'a pending_message_queue \<Rightarrow> 'a pending_message_queue" where
  "queue_clear q = q\<lparr>pq_messages := []\<rparr>"

section \<open>The interface\<close>

locale fifo =
  fixes enq :: "'a \<Rightarrow> 'q \<Rightarrow> 'q"
    and deq :: "'q \<Rightarrow> 'a list \<times> 'q"
    and items :: "'q \<Rightarrow> 'a list"
    and tune :: "'c \<Rightarrow> 'q \<Rightarrow> 'q"
  assumes items_enq: "items (enq x q) = items q @ [x]"
    and items_deq: "deq q = (out, q') \<Longrightarrow> items q = out @ items q'"
    and deq_progress: "deq q = (out, q') \<Longrightarrow> items q \<noteq> [] \<Longrightarrow> out \<noteq> []"
    and items_tune: "items (tune c q) = items q"
begin

fun run :: "'q \<Rightarrow> ('a + 'c option) list \<Rightarrow> 'a list \<times> 'q" where
  "run q [] = ([], q)"
| "run q (Inl x # acts) = run (enq x q) acts"
| "run q (Inr (Some c) # acts) = run (tune c q) acts"
| "run q (Inr None # acts) = (let (out, q') = deq q; (outs, q'') = run q' acts in (out @ outs, q''))"

definition offered :: "('a + 'c option) list \<Rightarrow> 'a list" where
  "offered acts = List.map_filter (\<lambda>a. case a of Inl x \<Rightarrow> Some x | Inr _ \<Rightarrow> None) acts"

lemma offered_simps [simp]:
  "offered [] = []" "offered (Inl x # acts) = x # offered acts" "offered (Inr c # acts) = offered acts"
  by (simp_all add: offered_def List.map_filter_def)

lemma run_conserves: "run q acts = (outs, q') \<Longrightarrow> outs @ items q' = items q @ offered acts"
proof (induction q acts arbitrary: outs q' rule: run.induct)
  case (4 q acts)
  obtain out q1 where d: "deq q = (out, q1)" by (cases "deq q")
  obtain outs1 q2 where r: "run q1 acts = (outs1, q2)" by (cases "run q1 acts")
  have "outs = out @ outs1" "q' = q2"
    using 4(2) d r by simp_all
  then show ?case
    using 4(1) [OF d [symmetric] _ r] items_deq [OF d] by simp
qed (simp_all add: items_enq items_tune)

text \<open>As many drains as there are items empty the queue, whatever happens to the settings.\<close>

lemma drained_after:
  "length (items q) \<le> length cs \<Longrightarrow>
   run q (concat (map (\<lambda>c. [Inr (Some c), Inr None]) cs)) = (outs, q') \<Longrightarrow> outs = items q \<and> items q' = []"
proof (induction cs arbitrary: q outs q')
  case Nil
  then show ?case by simp
next
  case (Cons c cs)
  obtain out q1 where d: "deq (tune c q) = (out, q1)" by (cases "deq (tune c q)")
  let ?rest = "concat (map (\<lambda>c. [Inr (Some c), Inr None]) cs)"
  obtain outs1 q2 where r: "run q1 ?rest = (outs1, q2)" by (cases "run q1 ?rest")
  have o: "outs = out @ outs1" "q' = q2"
    using Cons.prems(2) d r by simp_all
  have i: "items q = out @ items q1"
    using items_deq [OF d] by (simp add: items_tune)
  have "length (items q1) \<le> length cs"
  proof (cases "items q = []")
    case True
    with i show ?thesis by simp
  next
    case False
    then have "out \<noteq> []"
      using deq_progress [OF d] by (simp add: items_tune)
    then show ?thesis
      using Cons.prems(1) i by (cases out) auto
  qed
  then have "outs1 = items q1 \<and> items q2 = []"
    using Cons.IH r by blast
  with o i show ?case by simp
qed

end

lemma drain_split: "drain q = (out, q') \<Longrightarrow> pq_messages q = out @ pq_messages q'"
  by (auto simp: drain_def split: queue_mode.splits if_splits)

lemma drain_progress: "drain q = (out, q') \<Longrightarrow> pq_messages q \<noteq> [] \<Longrightarrow> out \<noteq> []"
  by (auto simp: drain_def split: queue_mode.splits if_splits)

interpretation pq: fifo enqueue drain pq_messages set_mode
  by unfold_locales (auto simp: enqueue_def set_mode_def dest: drain_split drain_progress)

lemma peek_drain: "peek q = fst (drain q)"
  by (auto simp: peek_def drain_def split: queue_mode.split list.split)

section \<open>Histories of a queue\<close>

text \<open>What the agent loop and its clients do with a queue, and what the drains hand out.\<close>

datatype 'a queue_action = Enqueue 'a | SetMode queue_mode | Drain

fun queue_run :: "'a pending_message_queue \<Rightarrow> 'a queue_action list \<Rightarrow> 'a list \<times> 'a pending_message_queue" where
  "queue_run q [] = ([], q)"
| "queue_run q (Enqueue m # acts) = queue_run (enqueue m q) acts"
| "queue_run q (SetMode mode # acts) = queue_run (set_mode mode q) acts"
| "queue_run q (Drain # acts) =
     (let (out, q') = drain q; (outs, q'') = queue_run q' acts in (out @ outs, q''))"

fun enqueued :: "'a queue_action list \<Rightarrow> 'a list" where
  "enqueued [] = []"
| "enqueued (Enqueue m # acts) = m # enqueued acts"
| "enqueued (SetMode _ # acts) = enqueued acts"
| "enqueued (Drain # acts) = enqueued acts"

fun fifo_action :: "'a queue_action \<Rightarrow> 'a + queue_mode option" where
  "fifo_action (Enqueue m) = Inl m"
| "fifo_action (SetMode mode) = Inr (Some mode)"
| "fifo_action Drain = Inr None"

lemma queue_run_fifo: "queue_run q acts = pq.run q (map fifo_action acts)"
  by (induction q acts rule: queue_run.induct) (simp_all split: prod.splits)

lemma enqueued_fifo: "enqueued acts = pq.offered (map fifo_action acts)"
  by (induction acts rule: enqueued.induct) simp_all

lemma queue_run_conserves: "queue_run q acts = (outs, q') \<Longrightarrow> outs @ pq_messages q' = pq_messages q @ enqueued acts"
  unfolding queue_run_fifo enqueued_fifo by (rule pq.run_conserves)

lemma queue_run_empties:
  fixes q :: "'a pending_message_queue"
  assumes "queue_len q \<le> length modes" and "queue_run q (concat (map (\<lambda>mode. [SetMode mode, Drain]) modes)) = (outs, q')"
  shows "outs = pq_messages q \<and> queue_is_empty q'"
proof -
  have "map fifo_action (concat (map (\<lambda>mode. [SetMode mode, Drain :: 'a queue_action]) modes)) =
      concat (map (\<lambda>mode. [Inr (Some mode), Inr None]) modes)"
    by (induction modes) simp_all
  with assms pq.drained_after [of q modes outs q'] show ?thesis
    by (simp add: queue_run_fifo queue_len_def queue_is_empty_def)
qed

end
