(* ===== verification/Harness_Gate.thy ===== *)
theory Harness_Gate
  imports Prelude
begin

text \<open>
  The admission gate of one harness drive (\<open>pi-agent/src/harness/gate.rs\<close>). The operations
  are given as functions on the shared state; \<open>gate_step\<close> gives their atomic actions as several
  threads interleave them: \<open>close\<close> publishes the closed state and cancels the token afterwards,
  and \<open>signal_abort\<close> cancels after it has released the lock. The shared cancellation future
  (\<open>'c\<close>) and the harness fault (\<open>'e\<close>) are opaque.
\<close>

section \<open>Operations\<close>

datatype ('c, 'e) gate_state = GateOpen | GateAborting 'c | GateClosed 'e

datatype ('c, 'e) gate_rejection = GateAborted 'c | GateRejectedClosed 'e

record ('c, 'e) gate_shared =
  gt_state :: "('c, 'e) gate_state"
  gt_cancelled :: bool

definition create_gate :: "('c, 'e) gate_shared" where
  "create_gate = \<lparr>gt_state = GateOpen, gt_cancelled = False\<rparr>"

text \<open>\<open>invoke\<close> runs after the check, outside the lock, and may itself use the gate.\<close>

definition admit ::
  "(('c, 'e) gate_shared \<Rightarrow> 'a \<times> ('c, 'e) gate_shared) \<Rightarrow> ('c, 'e) gate_shared
    \<Rightarrow> (('c, 'e) gate_rejection + 'a) \<times> ('c, 'e) gate_shared" where
  "admit invoke g =
     (case gt_state g of
        GateOpen \<Rightarrow> (let (a, g') = invoke g in (Inr a, g'))
      | GateAborting cancellation \<Rightarrow> (Inl (GateAborted cancellation), g)
      | GateClosed error \<Rightarrow> (Inl (GateRejectedClosed error), g))"

definition begin_abort :: "'c \<Rightarrow> ('c, 'e) gate_shared \<Rightarrow> ('c, 'e) gate_shared" where
  "begin_abort cancellation g =
     (case gt_state g of GateOpen \<Rightarrow> g\<lparr>gt_state := GateAborting cancellation\<rparr>
      | GateAborting _ \<Rightarrow> g | GateClosed _ \<Rightarrow> g)"

definition signal_abort :: "('c, 'e) gate_shared \<Rightarrow> ('c, 'e) gate_shared" where
  "signal_abort g =
     (case gt_state g of GateAborting _ \<Rightarrow> g\<lparr>gt_cancelled := True\<rparr>
      | GateOpen \<Rightarrow> g | GateClosed _ \<Rightarrow> g)"

definition gate_close :: "'e \<Rightarrow> ('c, 'e) gate_shared \<Rightarrow> ('c, 'e) gate_shared" where
  "gate_close error g =
     (case gt_state g of GateClosed _ \<Rightarrow> g
      | GateOpen \<Rightarrow> g\<lparr>gt_state := GateClosed error, gt_cancelled := True\<rparr>
      | GateAborting _ \<Rightarrow> g\<lparr>gt_state := GateClosed error, gt_cancelled := True\<rparr>)"

section \<open>Interleavings\<close>

text \<open>
  \<open>gl_pending\<close> counts the calls that have decided to cancel the token and not yet done so;
  \<open>gl_admitted\<close> counts admissions.
\<close>

record ('c, 'e) gate_life =
  gl_state :: "('c, 'e) gate_state"
  gl_cancelled :: bool
  gl_pending :: nat
  gl_admitted :: nat

definition gate_life_init :: "('c, 'e) gate_life" where
  "gate_life_init = \<lparr>gl_state = GateOpen, gl_cancelled = False, gl_pending = 0, gl_admitted = 0\<rparr>"

inductive gate_step :: "('c, 'e) gate_life \<Rightarrow> ('c, 'e) gate_life \<Rightarrow> bool" where
  admit_open: "gl_state g = GateOpen \<Longrightarrow> gate_step g (g\<lparr>gl_admitted := gl_admitted g + 1\<rparr>)"
| abort: "gl_state g = GateOpen \<Longrightarrow> gate_step g (g\<lparr>gl_state := GateAborting c\<rparr>)"
| signal_check: "gl_state g = GateAborting c \<Longrightarrow> gate_step g (g\<lparr>gl_pending := gl_pending g + 1\<rparr>)"
| close_publish: "(\<And>e'. gl_state g \<noteq> GateClosed e') \<Longrightarrow>
    gate_step g (g\<lparr>gl_state := GateClosed e, gl_pending := gl_pending g + 1\<rparr>)"
| cancel: "gl_pending g = Suc n \<Longrightarrow> gate_step g (g\<lparr>gl_cancelled := True, gl_pending := n\<rparr>)"

inductive_cases gate_stepE: "gate_step g g'"

definition gate_inv :: "('c, 'e) gate_life \<Rightarrow> bool" where
  "gate_inv g \<longleftrightarrow>
     (gl_state g = GateOpen \<longrightarrow> \<not> gl_cancelled g \<and> gl_pending g = 0) \<and>
     (\<forall>e. gl_state g = GateClosed e \<longrightarrow> gl_cancelled g \<or> 0 < gl_pending g)"

lemma gate_inv_init: "gate_inv gate_life_init"
  by (simp add: gate_inv_def gate_life_init_def)

lemma gate_inv_step: "gate_step g g' \<Longrightarrow> gate_inv g \<Longrightarrow> gate_inv g'"
  by (cases rule: gate_step.cases) (auto simp: gate_inv_def)

lemma gate_inv_steps: "gate_step\<^sup>*\<^sup>* g g' \<Longrightarrow> gate_inv g \<Longrightarrow> gate_inv g'"
  by (induction rule: rtranclp_induct) (auto intro: gate_inv_step)

text \<open>The order of the lifecycle: open, aborting, closed.\<close>

fun gate_rank :: "('c, 'e) gate_state \<Rightarrow> nat" where
  "gate_rank GateOpen = 0"
| "gate_rank (GateAborting _) = 1"
| "gate_rank (GateClosed _) = 2"

lemma gate_step_rank:
  "gate_step g g' \<Longrightarrow> gate_rank (gl_state g) \<le> gate_rank (gl_state g') \<and>
     (gate_rank (gl_state g) = gate_rank (gl_state g') \<longrightarrow> gl_state g = gl_state g') \<and>
     (gl_state g \<noteq> GateOpen \<longrightarrow> gl_admitted g' = gl_admitted g)"
  by (elim gate_stepE; cases "gl_state g") auto

lemma gate_steps_rank:
  assumes "gate_step\<^sup>*\<^sup>* g g'"
  shows "gate_rank (gl_state g) \<le> gate_rank (gl_state g') \<and>
     (gate_rank (gl_state g) = gate_rank (gl_state g') \<longrightarrow> gl_state g = gl_state g') \<and>
     (gl_state g \<noteq> GateOpen \<longrightarrow> gl_admitted g' = gl_admitted g)"
  using assms
proof (induction rule: rtranclp_induct)
  case base
  then show ?case by simp
next
  case (step g1 g2)
  from step.IH gate_step_rank [OF step.hyps(2)] show ?case
    by (cases "gl_state g"; cases "gl_state g1"; cases "gl_state g2") auto
qed

section \<open>Operations are runs of steps\<close>

text \<open>
  A gate with no cancellation under way and \<open>n\<close> admissions so far. Each operation, run to its
  end, is a run of the step relation, so the invariants of the relation hold of the operations.
\<close>

definition gate_view :: "('c, 'e) gate_shared \<Rightarrow> nat \<Rightarrow> ('c, 'e) gate_life" where
  "gate_view g n = \<lparr>gl_state = gt_state g, gl_cancelled = gt_cancelled g, gl_pending = 0, gl_admitted = n\<rparr>"

lemma begin_abort_steps: "gate_step\<^sup>*\<^sup>* (gate_view g n) (gate_view (begin_abort c g) n)"
proof (cases "gt_state g")
  case GateOpen
  then have "gate_step (gate_view g n) ((gate_view g n)\<lparr>gl_state := GateAborting c\<rparr>)"
    by (intro abort) (simp add: gate_view_def)
  with GateOpen show ?thesis
    by (simp add: begin_abort_def gate_view_def)
qed (simp_all add: begin_abort_def)

lemma signal_abort_steps: "gate_step\<^sup>*\<^sup>* (gate_view g n) (gate_view (signal_abort g) n)"
proof (cases "gt_state g")
  case (GateAborting c)
  let ?g1 = "(gate_view g n)\<lparr>gl_pending := gl_pending (gate_view g n) + 1\<rparr>"
  have "gate_step (gate_view g n) ?g1"
    using GateAborting by (intro signal_check) (simp add: gate_view_def)
  moreover have "gate_step ?g1 (?g1\<lparr>gl_cancelled := True, gl_pending := 0\<rparr>)"
    by (intro cancel) (simp add: gate_view_def)
  moreover have "?g1\<lparr>gl_cancelled := True, gl_pending := 0\<rparr> = gate_view (signal_abort g) n"
    using GateAborting by (simp add: signal_abort_def gate_view_def)
  ultimately show ?thesis by auto
qed (simp_all add: signal_abort_def)

lemma gate_close_steps: "gate_step\<^sup>*\<^sup>* (gate_view g n) (gate_view (gate_close e g) n)"
proof (cases "\<exists>e'. gt_state g = GateClosed e'")
  case False
  let ?g1 = "(gate_view g n)\<lparr>gl_state := GateClosed e, gl_pending := gl_pending (gate_view g n) + 1\<rparr>"
  have "gate_step (gate_view g n) ?g1"
    using False by (intro close_publish) (simp add: gate_view_def)
  moreover have "gate_step ?g1 (?g1\<lparr>gl_cancelled := True, gl_pending := 0\<rparr>)"
    by (intro cancel) (simp add: gate_view_def)
  moreover have "?g1\<lparr>gl_cancelled := True, gl_pending := 0\<rparr> = gate_view (gate_close e g) n"
    using False by (cases "gt_state g") (simp_all add: gate_close_def gate_view_def)
  ultimately show ?thesis by auto
qed (auto simp: gate_close_def)

text \<open>An admitted call runs its callback on a gate with one more admission.\<close>

lemma admit_steps:
  assumes "admit invoke g = (Inr a, g')" and "\<And>b g1. invoke g = (b, g1) \<Longrightarrow> gate_step\<^sup>*\<^sup>* (gate_view g (n + 1)) (gate_view g1 m)"
  shows "gate_step\<^sup>*\<^sup>* (gate_view g n) (gate_view g' m)"
proof -
  have "gt_state g = GateOpen" "invoke g = (a, g')"
    using assms(1) by (auto simp: admit_def split: gate_state.splits prod.splits)
  then have "gate_step (gate_view g n) (gate_view g (n + 1))"
    using admit_open [of "gate_view g n"] by (simp add: gate_view_def)
  from this assms(2) [OF \<open>invoke g = (a, g')\<close>] show ?thesis
    by (rule converse_rtranclp_into_rtranclp)
qed

lemma gate_inv_view: "gate_inv (gate_view create_gate 0)"
  by (simp add: gate_inv_def gate_view_def create_gate_def)

end
