(* ===== verification/Frame_Codec.thy ===== *)
theory Frame_Codec
  imports Prelude
begin

text \<open>
  Length-prefixed framing of the remote transport (\<open>pi/src/remote/framing.rs\<close>). \<open>usize\<close> is \<open>nat\<close>
  (64-bit targets: every length of a slice fits \<open>u64\<close>). \<open>frame_push\<close> is the incremental decoder,
  with \<open>None\<close> for a panic (index or subtraction out of range); \<open>split_frames\<close> is the reference:
  it parses a whole byte string at once. The decoder is shown to compute the reference on the
  bytes received so far, however they are cut into chunks, and never to panic.
\<close>

section \<open>Encoding\<close>

type_synonym bytes = "u8 list"

definition FRAME_HEADER_LENGTH :: nat where
  "FRAME_HEADER_LENGTH = 4"

definition DEFAULT_MAX_FRAME_LENGTH :: nat where
  "DEFAULT_MAX_FRAME_LENGTH = 16 * 1024 * 1024"

definition MAX_UINT32 :: nat where
  "MAX_UINT32 = 0xffffffff"

datatype frame_error =
    IncompleteHeader
  | Oversized nat nat
  | NotOneCompletePayload
  | Ended
  | Failed
  | Truncated
  | InvalidLimit nat

definition to_be_bytes :: "u32 \<Rightarrow> bytes" where
  "to_be_bytes w = [ucast (drop_bit 24 w), ucast (drop_bit 16 w), ucast (drop_bit 8 w), ucast w]"

definition from_be_bytes :: "bytes \<Rightarrow> u32" where
  "from_be_bytes bs =
     or (push_bit 24 (ucast (bs ! 0))) (or (push_bit 16 (ucast (bs ! 1)))
       (or (push_bit 8 (ucast (bs ! 2))) (ucast (bs ! 3))))"

text \<open>\<open>u32::try_from(len).unwrap_or(u32::MAX)\<close>.\<close>

definition frame_length_field :: "nat \<Rightarrow> u32" where
  "frame_length_field n = (if n < 2 ^ 32 then of_nat n else - 1)"

definition encode_frame :: "bytes \<Rightarrow> bytes" where
  "encode_frame payload = to_be_bytes (frame_length_field (length payload)) @ payload"

definition with_max :: "nat \<Rightarrow> frame_error + nat" where
  "with_max max_frame_length =
     (if max_frame_length \<le> MAX_UINT32 then Inr max_frame_length else Inl (InvalidLimit max_frame_length))"

definition resolve_max :: "nat option \<Rightarrow> frame_error + nat" where
  "resolve_max options =
     (let max = unwrap_or options DEFAULT_MAX_FRAME_LENGTH in
      if max \<le> MAX_UINT32 then Inr max else Inl (InvalidLimit max))"

definition assert_complete_frame :: "bytes \<Rightarrow> nat option \<Rightarrow> frame_error + unit" where
  "assert_complete_frame frame options =
     (if length frame < FRAME_HEADER_LENGTH then Inl IncompleteHeader
      else
        let len = unat (from_be_bytes (take 4 frame)) in
        rbind (resolve_max options) (\<lambda>max.
        if max < len then Inl (Oversized len max)
        else if length frame \<noteq> FRAME_HEADER_LENGTH + len then Inl NotOneCompletePayload
        else Inr ()))"

section \<open>The incremental decoder\<close>

datatype decoder_state = DecoderOpen | DecoderEnded | DecoderFailed

record frame_decoder =
  fr_header :: bytes
  fr_header_len :: nat
  fr_max_frame_length :: nat
  fr_payload :: bytes
  fr_expected_payload_len :: "nat option"
  fr_state :: decoder_state

definition decoder_new :: "nat option \<Rightarrow> frame_error + frame_decoder" where
  "decoder_new options =
     rbind (resolve_max options) (\<lambda>max.
       Inr \<lparr>fr_header = [0, 0, 0, 0], fr_header_len = 0, fr_max_frame_length = max,
            fr_payload = [], fr_expected_payload_len = None, fr_state = DecoderOpen\<rparr>)"

definition decoder_fail :: "frame_decoder \<Rightarrow> frame_decoder" where
  "decoder_fail d =
     d\<lparr>fr_state := DecoderFailed, fr_header_len := 0, fr_payload := [], fr_expected_payload_len := None\<rparr>"

text \<open>The header part of a turn: the bytes taken, and the decoder with its header extended.\<close>

definition take_header :: "frame_decoder \<Rightarrow> bytes \<Rightarrow> frame_decoder \<times> bytes" where
  "take_header d rest =
     (let needed = FRAME_HEADER_LENGTH - fr_header_len d;
          n = min needed (length rest)
      in (d\<lparr>fr_header := take (fr_header_len d) (fr_header d) @ take n rest @ drop (fr_header_len d + n) (fr_header d),
            fr_header_len := fr_header_len d + n\<rparr>,
          drop n rest))"

text \<open>The payload part of a turn, with \<open>expected\<close> bytes in the payload of the current frame.\<close>

definition take_payload ::
  "nat \<Rightarrow> frame_decoder \<Rightarrow> bytes \<Rightarrow> bytes list \<Rightarrow> (frame_decoder \<times> bytes \<times> bytes list) option" where
  "take_payload expected d rest frames =
     (if expected < length (fr_payload d) then None
      else
        let remaining = expected - length (fr_payload d);
            n = min (length rest) remaining;
            payload = fr_payload d @ take n rest
        in Some (if length payload = expected
                 then (d\<lparr>fr_payload := [], fr_expected_payload_len := None\<rparr>, drop n rest, frames @ [payload])
                 else (d\<lparr>fr_payload := payload\<rparr>, drop n rest, frames)))"

text \<open>
  The loop of \<open>push\<close>. \<open>rest\<close> is the part of the chunk from \<open>offset\<close> on. A turn consumes input,
  or finishes the frame at hand, or uses up a complete header.
\<close>

definition loop_rank :: "frame_decoder \<Rightarrow> nat" where
  "loop_rank d = (if fr_expected_payload_len d \<noteq> None then 2 else if 4 \<le> fr_header_len d then 1 else 0)"

definition push_turn ::
  "frame_decoder \<Rightarrow> bytes \<Rightarrow> bytes list \<Rightarrow> (frame_error \<times> frame_decoder + frame_decoder \<times> bytes \<times> bytes list) option" where
  "push_turn d rest frames =
     (case fr_expected_payload_len d of
        Some expected \<Rightarrow> map_option Inr (take_payload expected d rest frames)
      | None \<Rightarrow>
          if FRAME_HEADER_LENGTH < fr_header_len d then None
          else
            let (d, rest) = take_header d rest in
            if fr_header_len d < FRAME_HEADER_LENGTH then Some (Inr (d, rest, frames))
            else
              let frame_length = unat (from_be_bytes (fr_header d)); d = d\<lparr>fr_header_len := 0\<rparr> in
              if fr_max_frame_length d < frame_length
              then Some (Inl (Oversized frame_length (fr_max_frame_length d), decoder_fail d))
              else if frame_length = 0 then Some (Inr (d, rest, frames @ [[]]))
              else map_option Inr (take_payload frame_length
                     (d\<lparr>fr_expected_payload_len := Some frame_length, fr_payload := []\<rparr>) rest frames))"

lemma take_payload_less:
  "take_payload expected d rest frames = Some (d', rest', frames') \<Longrightarrow> fr_expected_payload_len d = Some expected \<Longrightarrow>
   rest \<noteq> [] \<Longrightarrow>
   length rest' < length rest \<or> (length rest' = length rest \<and> fr_expected_payload_len d' = None \<and>
     fr_header_len d' = fr_header_len d \<and> length (fr_payload d) = expected)"
  by (auto simp: take_payload_def Let_def min_def split: if_splits)

lemma push_turn_decreases:
  assumes "push_turn d rest frames = Some (Inr (d', rest', frames'))" and "rest \<noteq> []"
  shows "length rest' < length rest \<or> (length rest' = length rest \<and> loop_rank d' < loop_rank d)"
proof (cases "fr_expected_payload_len d")
  case (Some expected)
  then have "take_payload expected d rest frames = Some (d', rest', frames')"
    using assms(1) by (auto simp: push_turn_def)
  from take_payload_less [OF this Some assms(2)] Some show ?thesis
    by (auto simp: loop_rank_def)
next
  case None
  show ?thesis
  proof (cases "fr_header_len d = 4")
    case True
    then have th: "take_header d rest = (d\<lparr>fr_header := take 4 (fr_header d) @ drop 4 (fr_header d), fr_header_len := 4\<rparr>, rest)"
      by (simp add: take_header_def FRAME_HEADER_LENGTH_def)
    let ?n = "unat (from_be_bytes (fr_header d))"
    let ?d = "d\<lparr>fr_header_len := 0, fr_expected_payload_len := Some ?n, fr_payload := []\<rparr>"
    consider "rest' = rest" "fr_expected_payload_len d' = None" "fr_header_len d' = 0"
      | "take_payload ?n ?d rest frames = Some (d', rest', frames')" "?n \<noteq> 0"
      using assms(1) None True
      by (auto simp: push_turn_def th FRAME_HEADER_LENGTH_def Let_def split: if_splits)
    then show ?thesis
    proof cases
      case 1
      with None True show ?thesis by (simp add: loop_rank_def)
    next
      case 2
      from take_payload_less [OF 2(1) _ assms(2)] 2(2) show ?thesis by simp
    qed
  next
    case False
    have "fr_header_len d < 4"
      using assms(1) None False by (auto simp: push_turn_def FRAME_HEADER_LENGTH_def split: if_splits)
    then obtain d1 rest1 where th: "take_header d rest = (d1, rest1)" "length rest1 < length rest"
      using assms(2) by (cases "take_header d rest") (auto simp: take_header_def FRAME_HEADER_LENGTH_def Let_def)
    have "length rest' \<le> length rest1"
      using assms(1) None
      by (auto simp: push_turn_def th(1) take_payload_def Let_def split: if_splits)
    with th(2) show ?thesis by simp
  qed
qed

function push_loop ::
  "frame_decoder \<Rightarrow> bytes \<Rightarrow> bytes list \<Rightarrow> ((frame_error + bytes list) \<times> frame_decoder) option" where
  "push_loop d rest frames =
     (if rest = [] then Some (Inr frames, d)
      else case push_turn d rest frames of
          None \<Rightarrow> None
        | Some (Inl (e, d')) \<Rightarrow> Some (Inl e, d')
        | Some (Inr (d', rest', frames')) \<Rightarrow> push_loop d' rest' frames')"
  by pat_completeness auto
termination
  by (relation "measures [\<lambda>(d, rest, frames). length rest, \<lambda>(d, rest, frames). loop_rank d]")
    (auto dest: push_turn_decreases)

declare push_loop.simps [simp del]

definition frame_push :: "frame_decoder \<Rightarrow> bytes \<Rightarrow> ((frame_error + bytes list) \<times> frame_decoder) option" where
  "frame_push d chunk =
     (case fr_state d of
        DecoderEnded \<Rightarrow> Some (Inl Ended, d)
      | DecoderFailed \<Rightarrow> Some (Inl Failed, d)
      | DecoderOpen \<Rightarrow> push_loop d chunk [])"

definition frame_end :: "frame_decoder \<Rightarrow> (frame_error + unit) \<times> frame_decoder" where
  "frame_end d =
     (case fr_state d of
        DecoderEnded \<Rightarrow> (Inl Ended, d)
      | DecoderFailed \<Rightarrow> (Inl Failed, d)
      | DecoderOpen \<Rightarrow>
          if fr_header_len d \<noteq> 0 \<or> fr_expected_payload_len d \<noteq> None then (Inl Truncated, decoder_fail d)
          else (Inr (), d\<lparr>fr_state := DecoderEnded\<rparr>))"

section \<open>The reference parser\<close>

text \<open>The complete frames of a byte string and the bytes left over.\<close>

function split_frames :: "nat \<Rightarrow> bytes \<Rightarrow> frame_error + (bytes list \<times> bytes)" where
  "split_frames limit bs =
     (if length bs < 4 then Inr ([], bs)
      else
        let n = unat (from_be_bytes (take 4 bs)) in
        if limit < n then Inl (Oversized n limit)
        else if length bs < 4 + n then Inr ([], bs)
        else rbind (split_frames limit (drop (4 + n) bs)) (\<lambda>(fs, left). Inr (take n (drop 4 bs) # fs, left)))"
  by pat_completeness auto
termination
  by (relation "measure (\<lambda>(limit, bs). length bs)") auto

declare split_frames.simps [simp del]

definition prepend :: "bytes list \<Rightarrow> frame_error + (bytes list \<times> bytes) \<Rightarrow> frame_error + (bytes list \<times> bytes)" where
  "prepend fs r = rbind r (\<lambda>(gs, left). Inr (fs @ gs, left))"

lemma prepend_Nil [simp]: "prepend [] r = r"
  by (cases r) (auto simp: prepend_def)

lemma prepend_append: "prepend fs (prepend gs r) = prepend (fs @ gs) r"
  by (cases r) (auto simp: prepend_def)

lemma join_bytes:
  fixes w :: u32
  shows "or (push_bit 24 (ucast (ucast (drop_bit 24 w) :: u8))) (or (push_bit 16 (ucast (ucast (drop_bit 16 w) :: u8)))
    (or (push_bit 8 (ucast (ucast (drop_bit 8 w) :: u8))) (ucast (ucast w :: u8)))) = w"
    (is "?j = w")
proof (rule bit_word_eqI)
  fix n
  assume "n < LENGTH(32)"
  then consider "n < 8" | "8 \<le> n \<and> n < 16" | "16 \<le> n \<and> n < 24" | "24 \<le> n \<and> n < 32"
    by fastforce
  then show "bit ?j n \<longleftrightarrow> bit w n"
    by cases (auto simp: bit_simps)
qed

lemma from_to_be_bytes [simp]: "from_be_bytes (to_be_bytes w @ xs) = w" "from_be_bytes (to_be_bytes w) = w"
  by (simp_all add: from_be_bytes_def to_be_bytes_def join_bytes)

lemma length_to_be_bytes [simp]: "length (to_be_bytes w) = 4"
  by (simp add: to_be_bytes_def)

lemma split_frames_short: "length bs < 4 \<Longrightarrow> split_frames limit bs = Inr ([], bs)"
  by (subst split_frames.simps) simp

lemma split_frames_header:
  "split_frames limit (to_be_bytes w @ bs) =
     (if limit < unat w then Inl (Oversized (unat w) limit)
      else if length bs < unat w then Inr ([], to_be_bytes w @ bs)
      else prepend [take (unat w) bs] (split_frames limit (drop (unat w) bs)))"
  by (subst split_frames.simps) (simp add: Let_def prepend_def)

text \<open>Four header bytes are the encoding of the number they denote.\<close>

lemma to_from_be_bytes:
  assumes "length bs = 4"
  shows "to_be_bytes (from_be_bytes bs) = bs"
proof -
  obtain a b c d where bs: "bs = [a, b, c, d]"
    using assms by (auto simp: length_Suc_conv eval_nat_numeral)
  show ?thesis
    by (simp add: bs to_be_bytes_def from_be_bytes_def) (intro conjI bit_word_eqI; auto simp: bit_simps dest: bit_imp_le_length)
qed

section \<open>The decoder computes the reference\<close>

definition decoder_wf :: "frame_decoder \<Rightarrow> bool" where
  "decoder_wf d \<longleftrightarrow>
     fr_state d = DecoderOpen \<and> length (fr_header d) = 4 \<and> fr_header_len d < 4 \<and>
     fr_max_frame_length d \<le> MAX_UINT32 \<and>
     (case fr_expected_payload_len d of
        None \<Rightarrow> True
      | Some e \<Rightarrow> fr_header_len d = 0 \<and> length (fr_payload d) < e \<and> e \<le> fr_max_frame_length d)"

text \<open>The bytes received that belong to no complete frame yet.\<close>

definition pending_bytes :: "frame_decoder \<Rightarrow> bytes" where
  "pending_bytes d = (case fr_expected_payload_len d of
     None \<Rightarrow> take (fr_header_len d) (fr_header d)
   | Some e \<Rightarrow> to_be_bytes (of_nat e) @ fr_payload d)"

lemma unat_of_nat_u32: "n \<le> MAX_UINT32 \<Longrightarrow> unat (of_nat n :: u32) = n"
  by (simp add: unat_of_nat MAX_UINT32_def)

text \<open>What one turn of the loop owes the reference.\<close>

definition turn_ok :: "frame_decoder \<Rightarrow> bytes \<Rightarrow> bytes list \<Rightarrow> frame_error \<times> frame_decoder + frame_decoder \<times> bytes \<times> bytes list \<Rightarrow> bool" where
  "turn_ok d rest frames r =
     (case r of
        Inl (e, d') \<Rightarrow> split_frames (fr_max_frame_length d) (pending_bytes d @ rest) = Inl e \<and> fr_state d' = DecoderFailed
      | Inr (d', rest', frames') \<Rightarrow>
          decoder_wf d' \<and> fr_max_frame_length d' = fr_max_frame_length d \<and>
          (\<exists>fs. frames' = frames @ fs \<and>
             split_frames (fr_max_frame_length d) (pending_bytes d @ rest) =
               prepend fs (split_frames (fr_max_frame_length d) (pending_bytes d' @ rest'))))"

lemma take_payload_ok:
  assumes wf: "decoder_wf d" and e: "fr_expected_payload_len d = Some e"
  shows "\<exists>r. take_payload e d rest frames = Some r \<and> turn_ok d rest frames (Inr r)"
proof -
  have lt: "length (fr_payload d) < e" and le: "e \<le> MAX_UINT32" "e \<le> fr_max_frame_length d"
    using wf e by (auto simp: decoder_wf_def)
  let ?n = "min (length rest) (e - length (fr_payload d))"
  show ?thesis
  proof (cases "length (fr_payload d) + length rest < e")
    case True
    then have "?n = length rest"
      by simp
    with True e lt wf show ?thesis
      by (auto simp: take_payload_def Let_def turn_ok_def decoder_wf_def pending_bytes_def)
  next
    case False
    then have n: "?n = e - length (fr_payload d)"
      by simp
    have "split_frames (fr_max_frame_length d) (pending_bytes d @ rest) =
        prepend [fr_payload d @ take (e - length (fr_payload d)) rest]
          (split_frames (fr_max_frame_length d) (drop (e - length (fr_payload d)) rest))"
      using False lt le unfolding pending_bytes_def e
      by (simp add: split_frames_header unat_of_nat_u32)
    with False n lt e wf show ?thesis
      by (auto simp: take_payload_def Let_def turn_ok_def decoder_wf_def pending_bytes_def)
  qed
qed

lemma push_turn_ok:
  assumes wf: "decoder_wf d"
  shows "\<exists>r. push_turn d rest frames = Some r \<and> turn_ok d rest frames r"
proof (cases "fr_expected_payload_len d")
  case (Some e)
  then show ?thesis
    using take_payload_ok [OF wf Some, of rest frames] by (auto simp: push_turn_def)
next
  case None
  let ?h = "fr_header_len d"
  let ?n = "min (4 - ?h) (length rest)"
  have h: "?h < 4" "length (fr_header d) = 4"
    using wf by (simp_all add: decoder_wf_def)
  define d1 where "d1 = fst (take_header d rest)"
  have th: "take_header d rest = (d1, drop ?n rest)"
    by (simp add: d1_def take_header_def FRAME_HEADER_LENGTH_def Let_def)
  have d1: "d1 = d\<lparr>fr_header := take ?h (fr_header d) @ take ?n rest @ drop (?h + ?n) (fr_header d), fr_header_len := ?h + ?n\<rparr>"
    by (simp add: d1_def take_header_def FRAME_HEADER_LENGTH_def Let_def)
  show ?thesis
  proof (cases "?h + length rest < 4")
    case True
    then have "?n = length rest" by simp
    with True h wf None show ?thesis
      by (auto simp: push_turn_def th d1 FRAME_HEADER_LENGTH_def turn_ok_def decoder_wf_def pending_bytes_def)
  next
    case False
    then have n: "?n = 4 - ?h" by simp
    let ?hdr = "take ?h (fr_header d) @ take (4 - ?h) rest"
    define w where "w = from_be_bytes ?hdr"
    have len: "length ?hdr = 4"
      using False h by simp
    then have hdr: "?hdr = to_be_bytes w"
      by (simp add: w_def to_from_be_bytes)
    have dh: "fr_header d1 = ?hdr" "fr_header_len d1 = 4"
      using h by (simp_all add: d1 n)
    have d1s: "fr_state d1 = fr_state d" "fr_max_frame_length d1 = fr_max_frame_length d"
      "fr_expected_payload_len d1 = None" "fr_payload d1 = fr_payload d"
      using None by (simp_all add: d1)
    have d1h: "length (fr_header d1) = 4"
      using len unfolding dh(1) .
    have in': "pending_bytes d @ rest = to_be_bytes w @ drop (4 - ?h) rest"
      unfolding hdr [symmetric] by (simp add: pending_bytes_def None)
    let ?m = "fr_max_frame_length d"
    let ?d2 = "d1\<lparr>fr_header_len := 0\<rparr>"
    have turn: "push_turn d rest frames =
      (if ?m < unat w then Some (Inl (Oversized (unat w) ?m, decoder_fail ?d2))
       else if unat w = 0 then Some (Inr (?d2, drop (4 - ?h) rest, frames @ [[]]))
       else map_option Inr (take_payload (unat w)
         (?d2\<lparr>fr_expected_payload_len := Some (unat w), fr_payload := []\<rparr>) (drop (4 - ?h) rest) frames))"
      using h None dh by (simp add: push_turn_def th FRAME_HEADER_LENGTH_def n w_def d1 Let_def)
    consider "?m < unat w" | "\<not> ?m < unat w" "unat w = 0" | "\<not> ?m < unat w" "unat w \<noteq> 0"
      by blast
    then show ?thesis
    proof cases
      case 1
      then show ?thesis
        by (simp add: turn turn_ok_def in' split_frames_header decoder_fail_def)
    next
      case 2
      then have "decoder_wf ?d2" "pending_bytes ?d2 = []"
        using wf d1s d1h by (simp_all add: decoder_wf_def pending_bytes_def)
      with 2 show ?thesis
        by (simp add: turn turn_ok_def in' split_frames_header d1s)
    next
      case 3
      let ?d3 = "?d2\<lparr>fr_expected_payload_len := Some (unat w), fr_payload := []\<rparr>"
      have wf3: "decoder_wf ?d3"
        using wf 3 d1s d1h by (simp add: decoder_wf_def)
      have m3: "fr_max_frame_length ?d3 = ?m" "pending_bytes ?d3 = to_be_bytes w"
        by (simp_all add: d1s pending_bytes_def)
      obtain r where "take_payload (unat w) ?d3 (drop (4 - ?h) rest) frames = Some r"
        "turn_ok ?d3 (drop (4 - ?h) rest) frames (Inr r)"
        using take_payload_ok [OF wf3, of "unat w" "drop (4 - ?h) rest" frames] by auto
      then have "push_turn d rest frames = Some (Inr r)" "turn_ok d rest frames (Inr r)"
        using 3 m3 in' by (auto simp: turn turn_ok_def split: prod.splits)
      then show ?thesis by blast
    qed
  qed
qed

lemma pending_short:
  assumes "decoder_wf d"
  shows "split_frames (fr_max_frame_length d) (pending_bytes d) = Inr ([], pending_bytes d)"
proof (cases "fr_expected_payload_len d")
  case None
  with assms show ?thesis
    by (simp add: pending_bytes_def split_frames_short decoder_wf_def)
next
  case (Some e)
  then have "unat (of_nat e :: u32) = e" "length (fr_payload d) < e" "e \<le> fr_max_frame_length d"
    using assms by (auto simp: decoder_wf_def unat_of_nat_u32)
  with Some show ?thesis
    by (simp add: pending_bytes_def split_frames_header)
qed

lemma push_loop_ok:
  assumes "decoder_wf d"
  shows "\<exists>d'. case split_frames (fr_max_frame_length d) (pending_bytes d @ rest) of
       Inl e \<Rightarrow> push_loop d rest frames = Some (Inl e, d') \<and> fr_state d' = DecoderFailed
     | Inr (fs, left) \<Rightarrow> push_loop d rest frames = Some (Inr (frames @ fs), d') \<and> decoder_wf d' \<and>
         pending_bytes d' = left \<and> fr_max_frame_length d' = fr_max_frame_length d"
  using assms
proof (induction d rest frames rule: push_loop.induct)
  case (1 d rest frames)
  show ?case
  proof (cases "rest = []")
    case True
    with pending_short [OF 1(2)] 1(2) show ?thesis
      by (simp add: push_loop.simps)
  next
    case False
    obtain r where turn: "push_turn d rest frames = Some r" and ok: "turn_ok d rest frames r"
      using push_turn_ok [OF 1(2)] by blast
    show ?thesis
    proof (cases r)
      case (Inl ed)
      with False turn ok show ?thesis
        by (cases ed) (simp add: push_loop.simps turn_ok_def)
    next
      case (Inr x)
      obtain d1 rest1 frames1 where x: "x = (d1, rest1, frames1)" by (cases x)
      obtain fs where wf1: "decoder_wf d1" and m1: "fr_max_frame_length d1 = fr_max_frame_length d"
        and f1: "frames1 = frames @ fs"
        and sp: "split_frames (fr_max_frame_length d) (pending_bytes d @ rest) =
          prepend fs (split_frames (fr_max_frame_length d) (pending_bytes d1 @ rest1))"
        using ok Inr x by (auto simp: turn_ok_def)
      have step: "push_loop d rest frames = push_loop d1 rest1 frames1"
        using False turn Inr x by (subst push_loop.simps) simp
      note IH = 1(1) [OF False turn Inr x [symmetric] refl wf1]
      show ?thesis
        unfolding step sp using IH
        by (cases "split_frames (fr_max_frame_length d) (pending_bytes d1 @ rest1)")
          (auto simp: m1 f1 prepend_def)
    qed
  qed
qed

section \<open>Streams of chunks\<close>

text \<open>Feeding a list of chunks, stopping at the first error.\<close>

fun push_chunks :: "frame_decoder \<Rightarrow> bytes list \<Rightarrow> ((frame_error + bytes list) \<times> frame_decoder) option" where
  "push_chunks d [] = Some (Inr [], d)"
| "push_chunks d (c # cs) =
     (case frame_push d c of
        None \<Rightarrow> None
      | Some (Inl e, d') \<Rightarrow> Some (Inl e, d')
      | Some (Inr fs, d') \<Rightarrow> (case push_chunks d' cs of
          None \<Rightarrow> None
        | Some (Inl e, d'') \<Rightarrow> Some (Inl e, d'')
        | Some (Inr gs, d'') \<Rightarrow> Some (Inr (fs @ gs), d'')))"

text \<open>Parsing a prefix first and the rest afterwards gives the same frames.\<close>

lemma split_frames_append:
  "split_frames limit (xs @ ys) =
     rbind (split_frames limit xs) (\<lambda>(fs, left). prepend fs (split_frames limit (left @ ys)))"
proof (induction limit xs rule: split_frames.induct)
  case (1 limit xs)
  let ?n = "unat (from_be_bytes (take 4 xs))"
  consider "length xs < 4" | "4 \<le> length xs" "limit < ?n" | "4 \<le> length xs" "\<not> limit < ?n" "length xs < 4 + ?n"
    | "4 \<le> length xs" "\<not> limit < ?n" "4 + ?n \<le> length xs"
    by linarith
  then show ?case
  proof cases
    case 1
    then show ?thesis by (simp add: split_frames_short)
  next
    case 2
    then show ?thesis
      by (subst (1 2) split_frames.simps) (simp add: Let_def)
  next
    case 3
    then show ?thesis
      by (subst (2) split_frames.simps) (simp add: Let_def)
  next
    case 4
    then have xs: "split_frames limit xs = prepend [take ?n (drop 4 xs)] (split_frames limit (drop (4 + ?n) xs))"
      by (subst split_frames.simps) (simp add: Let_def prepend_def)
    have "split_frames limit (xs @ ys) = prepend [take ?n (drop 4 xs)] (split_frames limit (drop (4 + ?n) xs @ ys))"
      using 4 by (subst split_frames.simps) (simp add: Let_def prepend_def)
    also have "\<dots> = prepend [take ?n (drop 4 xs)] (rbind (split_frames limit (drop (4 + ?n) xs))
        (\<lambda>(fs, left). prepend fs (split_frames limit (left @ ys))))"
      using 1 4 by (simp add: Let_def)
    finally show ?thesis
      unfolding xs by (cases "split_frames limit (drop (4 + ?n) xs)") (auto simp: prepend_def rbind_def split: sum.splits)
  qed
qed

lemma frame_push_ok:
  assumes "decoder_wf d"
  shows "\<exists>d'. case split_frames (fr_max_frame_length d) (pending_bytes d @ chunk) of
       Inl e \<Rightarrow> frame_push d chunk = Some (Inl e, d') \<and> fr_state d' = DecoderFailed
     | Inr (fs, left) \<Rightarrow> frame_push d chunk = Some (Inr fs, d') \<and> decoder_wf d' \<and>
         pending_bytes d' = left \<and> fr_max_frame_length d' = fr_max_frame_length d"
proof -
  have "frame_push d chunk = push_loop d chunk []"
    using assms by (simp add: frame_push_def decoder_wf_def)
  then show ?thesis
    using push_loop_ok [OF assms, of chunk "[]"] by (simp only: append_Nil)
qed

lemma push_chunks_ok:
  assumes "decoder_wf d"
  shows "\<exists>d'. case split_frames (fr_max_frame_length d) (pending_bytes d @ concat chunks) of
       Inl e \<Rightarrow> push_chunks d chunks = Some (Inl e, d') \<and> fr_state d' = DecoderFailed
     | Inr (fs, left) \<Rightarrow> push_chunks d chunks = Some (Inr fs, d') \<and> decoder_wf d' \<and>
         pending_bytes d' = left \<and> fr_max_frame_length d' = fr_max_frame_length d"
  using assms
proof (induction chunks arbitrary: d)
  case Nil
  then show ?case
    using pending_short [OF Nil] by simp
next
  case (Cons c cs)
  let ?m = "fr_max_frame_length d"
  obtain d1 where p: "case split_frames ?m (pending_bytes d @ c) of
       Inl e \<Rightarrow> frame_push d c = Some (Inl e, d1) \<and> fr_state d1 = DecoderFailed
     | Inr (fs, left) \<Rightarrow> frame_push d c = Some (Inr fs, d1) \<and> decoder_wf d1 \<and>
         pending_bytes d1 = left \<and> fr_max_frame_length d1 = ?m"
    using frame_push_ok [OF Cons.prems] by blast
  have app: "split_frames ?m (pending_bytes d @ concat (c # cs)) =
      rbind (split_frames ?m (pending_bytes d @ c)) (\<lambda>(fs, left). prepend fs (split_frames ?m (left @ concat cs)))"
    using split_frames_append [of ?m "pending_bytes d @ c" "concat cs"] by simp
  show ?case
  proof (cases "split_frames ?m (pending_bytes d @ c)")
    case (Inl e)
    with p app show ?thesis by auto
  next
    case (Inr x)
    obtain fs left where x: "x = (fs, left)" by (cases x)
    have p': "frame_push d c = Some (Inr fs, d1)" "decoder_wf d1" "pending_bytes d1 = left" "fr_max_frame_length d1 = ?m"
      using p Inr x by simp_all
    have app': "split_frames ?m (pending_bytes d @ concat (c # cs)) =
        prepend fs (split_frames ?m (pending_bytes d1 @ concat cs))"
      using app Inr x p'(3) by simp
    show ?thesis
      unfolding app' using Cons.IH [OF p'(2)] p'(1,4)
      by (cases "split_frames ?m (pending_bytes d1 @ concat cs)") (auto simp: prepend_def)
  qed
qed

lemma decoder_new_wf:
  "decoder_new options = Inr d \<Longrightarrow> decoder_wf d \<and> pending_bytes d = [] \<and>
     fr_max_frame_length d = unwrap_or options DEFAULT_MAX_FRAME_LENGTH"
  by (auto simp: decoder_new_def rbind_eq_Inr_iff resolve_max_def Let_def decoder_wf_def pending_bytes_def
      split: if_splits)

lemma split_frames_encode:
  assumes "\<forall>p \<in> set ps. length p \<le> limit" and "limit \<le> MAX_UINT32"
  shows "split_frames limit (concat (map encode_frame ps)) = Inr (ps, [])"
  using assms
proof (induction ps)
  case Nil
  then show ?case by (simp add: split_frames_short)
next
  case (Cons p ps)
  then have "length p < 2 ^ 32" "length p \<le> limit"
    by (auto simp: MAX_UINT32_def)
  then have "unat (frame_length_field (length p)) = length p"
    by (simp add: frame_length_field_def unat_of_nat)
  with Cons show ?case
    by (simp add: encode_frame_def split_frames_header prepend_def)
qed

end
