(* ===== verification/Tool_Truncate.thy ===== *)
theory Tool_Truncate
  imports Prelude
begin

text \<open>
  Truncation of tool output (\<open>pi/src/core/tools/truncate.rs\<close>). A Rust \<open>str\<close> is the list of its
  UTF-8 bytes, since the limits count bytes and lines end at the byte 10; \<open>truncate_line_with\<close>,
  which counts UTF-16 units, works on the list of the string's code points.
\<close>

section \<open>Lines\<close>

abbreviation split_nl :: "utf8 \<Rightarrow> utf8 list" where
  "split_nl \<equiv> split_on 10"

abbreviation join_nl :: "utf8 list \<Rightarrow> utf8" where
  "join_nl \<equiv> join_with 10"

definition ends_with_nl :: "utf8 \<Rightarrow> bool" where
  "ends_with_nl content = (content \<noteq> [] \<and> last content = 10)"

definition split_lines_for_counting :: "utf8 \<Rightarrow> utf8 list" where
  "split_lines_for_counting content =
     (if content = [] then []
      else
        let lines = split_nl content
        in if ends_with_nl content then butlast lines else lines)"

section \<open>Results and limits\<close>

datatype truncated_by = ByLines | ByBytes

record truncation_result =
  tr_content :: utf8
  tr_truncated :: bool
  tr_truncated_by :: "truncated_by option"
  tr_total_lines :: nat
  tr_total_bytes :: nat
  tr_output_lines :: nat
  tr_output_bytes :: nat
  tr_last_line_partial :: bool
  tr_first_line_exceeds_limit :: bool
  tr_max_lines :: nat
  tr_max_bytes :: nat

record truncation_options =
  op_max_lines :: "nat option"
  op_max_bytes :: "nat option"

definition DEFAULT_MAX_LINES :: nat where
  "DEFAULT_MAX_LINES = 2000"

definition DEFAULT_MAX_BYTES :: nat where
  "DEFAULT_MAX_BYTES = 50 * 1024"

definition truncation_limits :: "truncation_options \<Rightarrow> nat \<times> nat" where
  "truncation_limits options =
     (unwrap_or (op_max_lines options) DEFAULT_MAX_LINES, unwrap_or (op_max_bytes options) DEFAULT_MAX_BYTES)"

definition whole_content :: "utf8 \<Rightarrow> nat \<Rightarrow> nat \<Rightarrow> truncation_result" where
  "whole_content content max_lines max_bytes =
     (let total_lines = length (split_lines_for_counting content); total_bytes = length content in
      \<lparr>tr_content = content, tr_truncated = False, tr_truncated_by = None,
       tr_total_lines = total_lines, tr_total_bytes = total_bytes,
       tr_output_lines = total_lines, tr_output_bytes = total_bytes,
       tr_last_line_partial = False, tr_first_line_exceeds_limit = False,
       tr_max_lines = max_lines, tr_max_bytes = max_bytes\<rparr>)"

section \<open>Head truncation\<close>

fun head_loop :: "nat \<Rightarrow> nat \<Rightarrow> utf8 list \<Rightarrow> nat \<Rightarrow> utf8 list \<Rightarrow> utf8 list \<times> nat \<times> truncated_by" where
  "head_loop max_bytes index output_lines output_bytes [] = (output_lines, output_bytes, ByLines)"
| "head_loop max_bytes index output_lines output_bytes (line # rest) =
     (let line_bytes = length line + (if 0 < index then 1 else 0) in
      if max_bytes < output_bytes + line_bytes then (output_lines, output_bytes, ByBytes)
      else head_loop max_bytes (index + 1) (output_lines @ [line]) (output_bytes + line_bytes) rest)"

definition truncate_head :: "utf8 \<Rightarrow> truncation_options \<Rightarrow> truncation_result" where
  "truncate_head content options =
     (let (max_lines, max_bytes) = truncation_limits options;
          total_bytes = length content;
          lines = split_lines_for_counting content;
          total_lines = length lines
      in if total_lines \<le> max_lines \<and> total_bytes \<le> max_bytes
         then whole_content content max_lines max_bytes
         else
           let first_line_bytes = (case lines of [] \<Rightarrow> 0 | line # _ \<Rightarrow> length line) in
           if max_bytes < first_line_bytes
           then \<lparr>tr_content = [], tr_truncated = True, tr_truncated_by = Some ByBytes,
                 tr_total_lines = total_lines, tr_total_bytes = total_bytes,
                 tr_output_lines = 0, tr_output_bytes = 0,
                 tr_last_line_partial = False, tr_first_line_exceeds_limit = True,
                 tr_max_lines = max_lines, tr_max_bytes = max_bytes\<rparr>
           else
             let (output_lines, output_bytes, truncated_by) = head_loop max_bytes 0 [] 0 (take max_lines lines);
                 truncated_by = (if max_lines \<le> length output_lines \<and> output_bytes \<le> max_bytes
                                 then ByLines else truncated_by);
                 kept = join_nl output_lines
             in \<lparr>tr_content = kept, tr_truncated = True, tr_truncated_by = Some truncated_by,
                 tr_total_lines = total_lines, tr_total_bytes = total_bytes,
                 tr_output_lines = length output_lines, tr_output_bytes = length kept,
                 tr_last_line_partial = False, tr_first_line_exceeds_limit = False,
                 tr_max_lines = max_lines, tr_max_bytes = max_bytes\<rparr>)"

section \<open>Tail truncation\<close>

text \<open>A continuation byte of UTF-8: \<open>byte & 0xc0 == 0x80\<close>.\<close>

definition continuation :: "u8 \<Rightarrow> bool" where
  "continuation b = (and b 0xc0 = 0x80)"

function skip_continuation :: "utf8 \<Rightarrow> nat \<Rightarrow> nat" where
  "skip_continuation bs start =
     (if start < length bs \<and> continuation (bs ! start) then skip_continuation bs (start + 1) else start)"
  by pat_completeness auto
termination
  by (relation "measure (\<lambda>(bs, start). length bs - start)") auto

declare skip_continuation.simps [simp del]

text \<open>\<open>str::get(start..)\<close>: \<open>None\<close> when \<open>start\<close> is no character boundary.\<close>

definition str_get_from :: "utf8 \<Rightarrow> nat \<Rightarrow> utf8 option" where
  "str_get_from bs start =
     (if start = 0 \<or> start = length bs \<or> (start < length bs \<and> \<not> continuation (bs ! start))
      then Some (drop start bs) else None)"

definition truncate_string_to_bytes_from_end :: "utf8 \<Rightarrow> nat \<Rightarrow> utf8" where
  "truncate_string_to_bytes_from_end content max_bytes =
     (if length content \<le> max_bytes then content
      else
        let start = skip_continuation content (length content - max_bytes)
        in unwrap_or (str_get_from content start) content)"

fun tail_loop ::
  "nat \<Rightarrow> nat \<Rightarrow> utf8 list \<Rightarrow> nat \<Rightarrow> utf8 list \<Rightarrow> utf8 list \<times> nat \<times> truncated_by \<times> bool" where
  "tail_loop max_lines max_bytes output_lines output_bytes [] = (output_lines, output_bytes, ByLines, False)"
| "tail_loop max_lines max_bytes output_lines output_bytes (line # rest) =
     (if max_lines \<le> length output_lines then (output_lines, output_bytes, ByLines, False)
      else
        let line_bytes = length line + (if output_lines \<noteq> [] then 1 else 0) in
        if max_bytes < output_bytes + line_bytes
        then (if output_lines = []
              then let truncated_line = truncate_string_to_bytes_from_end line max_bytes in
                   if truncated_line \<noteq> []
                   then (output_lines @ [truncated_line], length truncated_line, ByBytes, True)
                   else (output_lines, output_bytes, ByBytes, False)
              else (output_lines, output_bytes, ByBytes, False))
        else tail_loop max_lines max_bytes (output_lines @ [line]) (output_bytes + line_bytes) rest)"

definition truncate_tail :: "utf8 \<Rightarrow> truncation_options \<Rightarrow> truncation_result" where
  "truncate_tail content options =
     (let (max_lines, max_bytes) = truncation_limits options;
          total_bytes = length content;
          lines = split_lines_for_counting content;
          total_lines = length lines
      in if total_lines \<le> max_lines \<and> total_bytes \<le> max_bytes
         then whole_content content max_lines max_bytes
         else
           let (output_lines, output_bytes, truncated_by, last_line_partial) =
                 tail_loop max_lines max_bytes [] 0 (rev lines);
               truncated_by = (if max_lines \<le> length output_lines \<and> output_bytes \<le> max_bytes
                               then ByLines else truncated_by);
               kept = join_nl (rev output_lines)
           in \<lparr>tr_content = kept, tr_truncated = True, tr_truncated_by = Some truncated_by,
               tr_total_lines = total_lines, tr_total_bytes = total_bytes,
               tr_output_lines = length output_lines, tr_output_bytes = length kept,
               tr_last_line_partial = last_line_partial, tr_first_line_exceeds_limit = False,
               tr_max_lines = max_lines, tr_max_bytes = max_bytes\<rparr>)"

section \<open>Sizes and single lines\<close>

definition saturating_mul_u64 :: "u64 \<Rightarrow> u64 \<Rightarrow> u64" where
  "saturating_mul_u64 a b = (if unat a * unat b < 2 ^ 64 then a * b else - 1)"

definition format_scaled :: "u64 \<Rightarrow> u64 \<Rightarrow> string \<Rightarrow> string" where
  "format_scaled n unit_size suf =
     (let tenths = saturating_add (saturating_mul_u64 n 10) (unit_size div 2) div unit_size
      in show_word (tenths div 10) @ ''.'' @ show_word (tenths mod 10) @ suf)"

definition format_size :: "u64 \<Rightarrow> string" where
  "format_size n =
     (if n < 1024 then show_word n @ ''B''
      else if n < 1024 * 1024 then format_scaled n 1024 ''KB''
      else format_scaled n (1024 * 1024) ''MB'')"

definition GREP_MAX_LINE_LENGTH :: nat where
  "GREP_MAX_LINE_LENGTH = 500"

record truncated_line =
  tn_text :: "nat list"
  tn_was_truncated :: bool

definition len_utf16 :: "nat \<Rightarrow> nat" where
  "len_utf16 ch = (if ch < 0x10000 then 1 else 2)"

definition utf16_count :: "nat list \<Rightarrow> nat" where
  "utf16_count line = sum_list (map len_utf16 line)"

text \<open>The characters the loop keeps, \<open>units\<close> being the UTF-16 units kept so far.\<close>

fun keep_units :: "nat \<Rightarrow> nat \<Rightarrow> nat list \<Rightarrow> nat list" where
  "keep_units max_chars units [] = []"
| "keep_units max_chars units (ch # rest) =
     (if max_chars < units + len_utf16 ch then []
      else ch # keep_units max_chars (units + len_utf16 ch) rest)"

definition truncated_suffix :: "nat list" where
  "truncated_suffix = map of_char ''... [truncated]''"

definition truncate_line_with :: "nat list \<Rightarrow> nat \<Rightarrow> truncated_line" where
  "truncate_line_with line max_chars =
     (if utf16_count line \<le> max_chars then \<lparr>tn_text = line, tn_was_truncated = False\<rparr>
      else \<lparr>tn_text = keep_units max_chars 0 line @ truncated_suffix, tn_was_truncated = True\<rparr>)"

definition truncate_line :: "nat list \<Rightarrow> truncated_line" where
  "truncate_line line = truncate_line_with line GREP_MAX_LINE_LENGTH"

section \<open>Lines and joins\<close>

lemma prefix_join_nl: "prefix (join_nl xs) (join_nl (xs @ ys))"
  by (cases "xs = []"; cases "ys = []") (auto simp: join_with_append)

lemma suffix_join_nl: "suffix (join_nl ys) (join_nl (xs @ ys))"
  by (cases "xs = []"; cases "ys = []") (auto simp: join_with_append suffix_def)

lemma last_split_nl: "ends_with_nl bs \<Longrightarrow> last (split_nl bs) = []"
proof (induction bs)
  case Nil
  then show ?case by simp
next
  case (Cons b bs)
  obtain l ls where ls: "split_nl bs = l # ls"
    by (cases "split_nl bs") auto
  show ?case
  proof (cases "bs = []")
    case True
    with Cons show ?thesis by (simp add: ends_with_nl_def)
  next
    case False
    with Cons have "last (split_nl bs) = []"
      by (simp add: ends_with_nl_def)
    moreover have "ls \<noteq> [] \<or> b = 10"
    proof (rule ccontr)
      assume "\<not> (ls \<noteq> [] \<or> b = 10)"
      then have "l = []" "ls = []"
        using \<open>last (split_nl bs) = []\<close> ls by auto
      with ls join_split_on [of 10 bs] False show False by simp
    qed
    ultimately show ?thesis
      using ls by auto
  qed
qed

text \<open>The lines, joined again, are the content without its final newline.\<close>

definition strip_final_nl :: "utf8 \<Rightarrow> utf8" where
  "strip_final_nl content = (if ends_with_nl content then butlast content else content)"

lemma join_counted_lines: "join_nl (split_lines_for_counting content) = strip_final_nl content"
proof (cases "ends_with_nl content")
  case True
  then have ne: "content \<noteq> []" and l: "last (split_nl content) = []"
    by (auto simp: ends_with_nl_def last_split_nl)
  let ?ls = "butlast (split_nl content)"
  have split: "split_nl content = ?ls @ [[]]"
    using l by (metis append_butlast_last_id split_on_not_Nil)
  show ?thesis
  proof (cases "?ls = []")
    case True
    with split join_split_on [of 10 content] ne show ?thesis by simp
  next
    case False
    have "content = join_nl (?ls @ [[]])"
      using join_split_on [of 10 content] split by simp
    also have "\<dots> = join_nl ?ls @ [10]"
      using False by (simp add: join_with_append)
    finally have "butlast content = join_nl ?ls"
      by (metis butlast_snoc)
    with True ne \<open>ends_with_nl content\<close> show ?thesis
      by (simp add: split_lines_for_counting_def strip_final_nl_def)
  qed
next
  case False
  then show ?thesis
    by (auto simp: split_lines_for_counting_def strip_final_nl_def join_split_on)
qed

section \<open>What head truncation keeps\<close>

lemma length_join_snoc:
  "length (join_nl (out @ [line])) = length (join_nl out) + length line + (if out \<noteq> [] then 1 else 0)"
  by (cases "out = []") (simp_all add: join_with_append)

lemma head_loop_ok:
  assumes "ob = length (join_nl out)" and "ob \<le> limit"
  shows "\<exists>k \<le> length lines. \<exists>by'. head_loop limit (length out) out ob lines =
      (out @ take k lines, length (join_nl (out @ take k lines)), by') \<and>
    length (join_nl (out @ take k lines)) \<le> limit \<and>
    (k < length lines \<longrightarrow> by' = ByBytes \<and> limit < length (join_nl (out @ take (Suc k) lines))) \<and>
    (k = length lines \<longrightarrow> by' = ByLines)"
  using assms
proof (induction lines arbitrary: out ob)
  case Nil
  then show ?case by simp
next
  case (Cons line rest)
  let ?lb = "length line + (if 0 < length out then 1 else 0)"
  have snoc: "length (join_nl (out @ [line])) = ob + ?lb"
    using Cons.prems(1) by (simp add: length_join_snoc)
  show ?case
  proof (cases "limit < ob + ?lb")
    case True
    then show ?thesis
      using Cons.prems snoc by (intro exI [of _ 0]) auto
  next
    case False
    then obtain k by' where k: "k \<le> length rest" and
      run: "head_loop limit (length (out @ [line])) (out @ [line]) (ob + ?lb) rest =
        ((out @ [line]) @ take k rest, length (join_nl ((out @ [line]) @ take k rest)), by')" and
      lim: "length (join_nl ((out @ [line]) @ take k rest)) \<le> limit" and
      stop: "k < length rest \<longrightarrow> by' = ByBytes \<and> limit < length (join_nl ((out @ [line]) @ take (Suc k) rest))" and
      all: "k = length rest \<longrightarrow> by' = ByLines"
      using Cons.IH [of "ob + ?lb" "out @ [line]"] snoc by auto
    show ?thesis
      using k run lim stop all False
      by (intro exI [of _ "Suc k"] conjI exI [of _ by']) (auto simp: Let_def)
  qed
qed

lemma prefix_strip: "prefix (strip_final_nl content) content"
proof (cases "ends_with_nl content")
  case True
  then have "content \<noteq> []"
    by (simp add: ends_with_nl_def)
  then have "content = butlast content @ [last content]"
    by (rule append_butlast_last_id [symmetric])
  then have "prefix (butlast content) content"
    by (rule prefixI)
  with True show ?thesis by (simp add: strip_final_nl_def)
qed (simp add: strip_final_nl_def)

lemma truncate_head_lines:
  assumes r: "r = truncate_head content options" and limits: "truncation_limits options = (ml, mb)"
    and t: "tr_truncated r"
  defines "ls \<equiv> split_lines_for_counting content"
  obtains k where "tr_content r = join_nl (take k ls)" "tr_output_lines r = k" "k \<le> length ls" "k \<le> ml"
    "length (join_nl (take k ls)) \<le> mb" "tr_output_bytes r = length (tr_content r)"
    "k < ml \<and> k < length ls \<longrightarrow> mb < length (join_nl (take (Suc k) ls)) \<and> tr_truncated_by r = Some ByBytes"
proof -
  have big: "\<not> (length ls \<le> ml \<and> length content \<le> mb)"
    using t by (auto simp: r truncate_head_def limits whole_content_def ls_def Let_def)
  let ?first = "case ls of [] \<Rightarrow> 0 | line # _ \<Rightarrow> length line"
  show thesis
  proof (cases "mb < ?first")
    case True
    then obtain l rest where l: "ls = l # rest" "mb < length l"
      by (cases ls) auto
    have "mb < length (join_nl (take (Suc 0) ls))"
      using l by simp
    moreover have "tr_content r = [] \<and> tr_output_lines r = 0 \<and> tr_output_bytes r = 0 \<and>
        tr_truncated_by r = Some ByBytes"
      unfolding r truncate_head_def limits ls_def [symmetric] Let_def prod.case if_not_P [OF big] if_P [OF True]
      by simp
    ultimately show thesis
      by (intro that [of 0]) simp_all
  next
    case False
    obtain k by' where k: "k \<le> length (take ml ls)" and
      run: "head_loop mb 0 [] 0 (take ml ls) = (take k (take ml ls), length (join_nl (take k (take ml ls))), by')" and
      lim: "length (join_nl (take k (take ml ls))) \<le> mb" and
      stop: "k < length (take ml ls) \<longrightarrow> by' = ByBytes \<and> mb < length (join_nl (take (Suc k) (take ml ls)))"
      using head_loop_ok [of 0 "[]" mb "take ml ls"] by (simp only: append_Nil list.size join_with.simps simp_thms le0) blast
    have km: "min k ml = k" "k \<le> ml" "k \<le> length ls"
      using k by auto
    have len: "length (take k (take ml ls)) = k"
      using k by simp
    have eq: "r = \<lparr>tr_content = join_nl (take k ls), tr_truncated = True,
        tr_truncated_by = Some (if ml \<le> k \<and> length (join_nl (take k ls)) \<le> mb then ByLines else by'),
        tr_total_lines = length ls, tr_total_bytes = length content,
        tr_output_lines = k, tr_output_bytes = length (join_nl (take k ls)),
        tr_last_line_partial = False, tr_first_line_exceeds_limit = False,
        tr_max_lines = ml, tr_max_bytes = mb\<rparr>"
      using big False unfolding r truncate_head_def limits ls_def [symmetric] Let_def prod.case if_not_P [OF big]
        if_not_P [OF False] run len
      by (simp add: km)
    show thesis
    proof (rule that [of k])
      show "k < ml \<and> k < length ls \<longrightarrow> mb < length (join_nl (take (Suc k) ls)) \<and> tr_truncated_by r = Some ByBytes"
        using stop by (auto simp: eq min_def split: if_splits)
    qed (use km lim in \<open>simp_all add: eq\<close>)
  qed
qed

section \<open>What tail truncation keeps\<close>

lemma skip_continuation_bounds:
  "start \<le> length bs \<Longrightarrow> start \<le> skip_continuation bs start \<and> skip_continuation bs start \<le> length bs \<and>
     (skip_continuation bs start < length bs \<longrightarrow> \<not> continuation (bs ! skip_continuation bs start))"
proof (induction bs start rule: skip_continuation.induct)
  case (1 bs start)
  show ?case
  proof (cases "start < length bs \<and> continuation (bs ! start)")
    case True
    with 1 show ?thesis
      by (subst (1 2 3 4) skip_continuation.simps) auto
  next
    case False
    with 1(2) show ?thesis
      by (subst (1 2 3 4) skip_continuation.simps) auto
  qed
qed

lemma skip_continuation_least:
  "start \<le> j \<Longrightarrow> j < length bs \<Longrightarrow> \<not> continuation (bs ! j) \<Longrightarrow> skip_continuation bs start \<le> j"
proof (induction bs start rule: skip_continuation.induct)
  case (1 bs start)
  show ?case
  proof (cases "start < length bs \<and> continuation (bs ! start)")
    case True
    with 1 have "start + 1 \<le> j" by (cases "start = j") auto
    with 1 True show ?thesis by (subst skip_continuation.simps) simp
  next
    case False
    with 1(2) show ?thesis by (subst skip_continuation.simps) auto
  qed
qed

lemma truncate_from_end:
  "suffix (truncate_string_to_bytes_from_end content limit) content \<and>
   length (truncate_string_to_bytes_from_end content limit) \<le> limit \<and>
   (limit < length content \<and> truncate_string_to_bytes_from_end content limit \<noteq> [] \<longrightarrow>
      \<not> continuation (hd (truncate_string_to_bytes_from_end content limit)))"
proof (cases "length content \<le> limit")
  case True
  then show ?thesis by (simp add: truncate_string_to_bytes_from_end_def)
next
  case False
  let ?s = "skip_continuation content (length content - limit)"
  have b: "length content - limit \<le> ?s" "?s \<le> length content" "?s < length content \<longrightarrow> \<not> continuation (content ! ?s)"
    using skip_continuation_bounds [of "length content - limit" content] by auto
  then have "str_get_from content ?s = Some (drop ?s content)"
    by (auto simp: str_get_from_def)
  with False b show ?thesis
    by (auto simp: truncate_string_to_bytes_from_end_def suffix_drop hd_drop_conv_nth)
qed

text \<open>No longer suffix fits: one that starts at a character boundary and is longer is over the limit.\<close>

definition longest_tail :: "nat \<Rightarrow> utf8 \<Rightarrow> utf8 \<Rightarrow> bool" where
  "longest_tail limit line kept \<longleftrightarrow>
     (\<forall>t. suffix t line \<and> length kept < length t \<and> \<not> continuation (hd t) \<longrightarrow> limit < length t)"

lemma truncate_longest:
  assumes "limit < length line"
  shows "longest_tail limit line (truncate_string_to_bytes_from_end line limit)"
  unfolding longest_tail_def
proof (intro allI impI; elim conjE; rule ccontr)
  fix t
  let ?s = "skip_continuation line (length line - limit)"
  assume t: "suffix t line" "length (truncate_string_to_bytes_from_end line limit) < length t" "\<not> continuation (hd t)" "\<not> limit < length t"
  define j where "j = length line - length t"
  have j: "t = drop j line" "length line - limit \<le> j" "j < length line"
    using t(1,2,4) by (auto simp: j_def suffix_def)
  then have "?s \<le> j"
    using t(3) by (intro skip_continuation_least) (simp_all add: hd_drop_conv_nth)
  moreover have "str_get_from line ?s = Some (drop ?s line)"
    using skip_continuation_bounds [of "length line - limit" line] by (auto simp: str_get_from_def)
  ultimately show False
    using t(2) j assms by (simp add: truncate_string_to_bytes_from_end_def)
qed

text \<open>
  The loop over the lines, last line first, keeps as many whole lines as both limits allow, or the
  longest end of the last line when that line alone is too long.
\<close>

lemma tail_loop_ok:
  assumes "ob = length (join_nl (rev out))" and "ob \<le> limit" and "length out \<le> ml"
    and "tail_loop ml limit out ob lines = (out', ob', by', partial)"
  shows "(\<exists>k \<le> length lines. \<not> partial \<and> out' = out @ take k lines \<and> length out' \<le> ml \<and>
       length (join_nl (rev out')) \<le> limit \<and>
       (k < length lines \<and> length out' < ml \<longrightarrow> limit < length (join_nl (rev (out' @ [lines ! k]))) \<and>
         (out' = [] \<longrightarrow> longest_tail limit (lines ! k) []))) \<or>
     (\<exists>line. partial \<and> out = [] \<and> lines \<noteq> [] \<and> out' = [line] \<and> suffix line (hd lines) \<and> length line \<le> limit \<and> 0 < ml \<and>
       line \<noteq> [] \<and> \<not> continuation (hd line) \<and> limit < length (hd lines) \<and> longest_tail limit (hd lines) line)"
  using assms
proof (induction lines arbitrary: out ob)
  case Nil
  then show ?case by auto
next
  case (Cons line rest)
  let ?lb = "length line + (if out \<noteq> [] then 1 else 0)"
  have snoc: "length (join_nl (rev (out @ [line]))) = ob + ?lb"
    using Cons.prems(1) by (cases "out = []") (simp_all add: join_with_append [of "[line]", simplified])
  consider "ml \<le> length out" | "\<not> ml \<le> length out" "limit < ob + ?lb" | "\<not> ml \<le> length out" "\<not> limit < ob + ?lb"
    by blast
  then show ?case
  proof cases
    case 1
    with Cons.prems show ?thesis by auto
  next
    case 2
    let ?t = "truncate_string_to_bytes_from_end line limit"
    have long: "limit < length line" if "out = []"
      using 2(2) that Cons.prems(1) by simp
    show ?thesis
    proof (cases "out = [] \<and> ?t \<noteq> []")
      case True
      then have "out' = [?t]" "partial"
        using 2 Cons.prems(4) by (simp_all add: Let_def)
      then show ?thesis
        using True 2(1) truncate_from_end [of line limit] long truncate_longest [of limit line] by simp
    next
      case False
      then have "out' = out" "\<not> partial"
        using 2 Cons.prems(4) by (auto simp: Let_def split: if_split_asm)
      moreover have "longest_tail limit line []" if "out = []"
        using False that truncate_longest [OF long [OF that]] by simp
      ultimately show ?thesis
        using Cons.prems(1,2,3) 2 snoc by (intro disjI1 exI [of _ 0]) (simp del: rev_append)
    qed
  next
    case 3
    then have run: "tail_loop ml limit (out @ [line]) (ob + ?lb) rest = (out', ob', by', partial)"
      using Cons.prems(4) by (simp add: Let_def split: if_splits)
    have "out @ [line] \<noteq> []" "ob + ?lb \<le> limit" "length (out @ [line]) \<le> ml"
      using 3 by simp_all
    with Cons.IH [OF snoc [symmetric] _ _ run] obtain k where k: "k \<le> length rest" "\<not> partial" "out' = (out @ [line]) @ take k rest" "length out' \<le> ml"
      "length (join_nl (rev out')) \<le> limit" "k < length rest \<and> length out' < ml \<longrightarrow> limit < length (join_nl (rev (out' @ [rest ! k])))"
      by blast
    then show ?thesis
      by (intro disjI1 exI [of _ "Suc k"]) simp
  qed
qed

lemma keep_units_ok:
  "units \<le> limit \<Longrightarrow>
     prefix (keep_units limit units line) line \<and> units + utf16_count (keep_units limit units line) \<le> limit"
proof (induction line arbitrary: units)
  case Nil
  then show ?case by (simp add: utf16_count_def)
next
  case (Cons ch line)
  show ?case
  proof (cases "limit < units + len_utf16 ch")
    case True
    with Cons.prems show ?thesis by (simp add: utf16_count_def)
  next
    case False
    with Cons.IH [of "units + len_utf16 ch"] show ?thesis by (simp add: utf16_count_def)
  qed
qed

text \<open>
  What a truncated tail keeps: the last lines, as many as both limits allow, or, when even the last
  line is too long, the longest end of that line from a character boundary on.
\<close>

lemma truncate_tail_kept:
  assumes r: "r = truncate_tail content options" and limits: "truncation_limits options = (ml, mb)"
    and t: "tr_truncated r"
  defines "ls \<equiv> split_lines_for_counting content" and "k \<equiv> tr_output_lines r"
  shows "suffix (tr_content r) (strip_final_nl content) \<and> length (tr_content r) \<le> mb \<and>
    k \<le> ml \<and> tr_output_bytes r = length (tr_content r) \<and>
    (\<not> tr_last_line_partial r \<longrightarrow>
       k \<le> length ls \<and> tr_content r = join_nl (drop (length ls - k) ls) \<and>
       (k < length ls \<and> k < ml \<longrightarrow> mb < length (join_nl (drop (length ls - Suc k) ls)) \<and>
         (k = 0 \<longrightarrow> longest_tail mb (last ls) []))) \<and>
    (tr_last_line_partial r \<longrightarrow> k = 1 \<and> mb < length (last ls) \<and> suffix (tr_content r) (last ls) \<and>
       tr_content r \<noteq> [] \<and> \<not> continuation (hd (tr_content r)) \<and> longest_tail mb (last ls) (tr_content r))"
proof -
  have big: "\<not> (length ls \<le> ml \<and> length content \<le> mb)"
    using t by (auto simp: r truncate_tail_def limits whole_content_def ls_def Let_def)
  obtain out ob by' partial where run: "tail_loop ml mb [] 0 (rev ls) = (out, ob, by', partial)"
    by (metis prod_cases4)
  have eq: "tr_content r = join_nl (rev out) \<and> k = length out \<and>
      tr_output_bytes r = length (join_nl (rev out)) \<and> tr_last_line_partial r = partial"
    unfolding k_def r truncate_tail_def limits ls_def [symmetric] Let_def prod.case if_not_P [OF big] run by simp
  have strip: "strip_final_nl content = join_nl ls"
    by (simp add: ls_def join_counted_lines)
  from tail_loop_ok [OF _ _ _ run]
  consider (lines) n where "n \<le> length (rev ls)" "\<not> partial" "out = take n (rev ls)" "length out \<le> ml"
      "length (join_nl (rev out)) \<le> mb"
      "n < length (rev ls) \<and> length out < ml \<longrightarrow> mb < length (join_nl (rev (out @ [rev ls ! n]))) \<and>
        (out = [] \<longrightarrow> longest_tail mb (rev ls ! n) [])"
    | (part) line where "partial" "rev ls \<noteq> []" "out = [line]" "suffix line (hd (rev ls))" "length line \<le> mb" "0 < ml"
        "line \<noteq> []" "\<not> continuation (hd line)" "mb < length (hd (rev ls))" "longest_tail mb (hd (rev ls)) line"
    by (simp only: append_Nil rev.simps list.size join_with.simps simp_thms le0) blast
  then show ?thesis
  proof cases
    case lines
    then have n: "rev out = drop (length ls - n) ls" "length out = n" "n \<le> length ls"
      by (simp_all add: take_rev)
    have next_line: "rev (out @ [rev ls ! n]) = drop (length ls - Suc n) ls" if "n < length ls"
      using that n Cons_nth_drop_Suc [of "length ls - Suc n" ls] by (simp add: rev_nth Suc_diff_Suc)
    have "suffix (join_nl (rev out)) (join_nl ls)"
      using suffix_join_nl [of "drop (length ls - n) ls" "take (length ls - n) ls"] n by simp
    moreover have "n < length ls \<and> n < ml \<longrightarrow> mb < length (join_nl (drop (length ls - Suc n) ls)) \<and>
         (n = 0 \<longrightarrow> longest_tail mb (last ls) [])"
      using lines(6) n next_line by (auto simp: rev_nth last_conv_nth)
    ultimately show ?thesis
      using lines(2,4,5) n by (auto simp add: eq strip)
  next
    case part
    then have "ls = butlast ls @ [last ls]" and l: "suffix line (last ls)"
      by (simp_all add: hd_rev)
    then have "suffix (last ls) (join_nl ls)"
      using suffix_join_nl [of "[last ls]" "butlast ls"] by simp
    with l have "suffix line (join_nl ls)"
      by (rule suffix_order.order_trans)
    with part l show ?thesis by (simp add: eq strip hd_rev)
  qed
qed

lemma truncate_tail_truncated:
  "truncation_limits options = (ml, mb) \<Longrightarrow> tr_truncated (truncate_tail content options) \<longleftrightarrow>
     \<not> (length (split_lines_for_counting content) \<le> ml \<and> length content \<le> mb)"
  by (simp add: truncate_tail_def whole_content_def Let_def split: prod.split)

end
