(* ===== verification/Runtime_Properties.thy ===== *)
theory Runtime_Properties
  imports Agent_Queue Harness_Gate Frame_Codec Tool_Truncate
begin

text \<open>
  The properties of the components around the session layer: the frame codec of remote
  connections, the queue of pending messages, the gate of a harness drive, and the truncation of
  tool output.
\<close>

section \<open>Frames\<close>

text \<open>
  C33. The decoder does not depend on how the stream is cut into chunks, and it cannot panic: for
  every list of chunks it returns what the reference parser makes of their concatenation,
  namely the complete frames in order, with the unfinished rest kept, or the error for the
  first oversized frame, after which the decoder has failed.
\<close>

theorem decoder_chunk_independent:
  assumes "decoder_new options = Inr d"
  shows "\<exists>d'. push_chunks d chunks =
      Some (map_sum (\<lambda>e. e) fst (split_frames (unwrap_or options DEFAULT_MAX_FRAME_LENGTH) (concat chunks)), d') \<and>
    (case split_frames (unwrap_or options DEFAULT_MAX_FRAME_LENGTH) (concat chunks) of
       Inl e \<Rightarrow> fr_state d' = DecoderFailed
     | Inr (fs, left) \<Rightarrow> fr_state d' = DecoderOpen \<and> pending_bytes d' = left)"
proof -
  have wf: "decoder_wf d" and new: "pending_bytes d = []" "fr_max_frame_length d = unwrap_or options DEFAULT_MAX_FRAME_LENGTH"
    using decoder_new_wf [OF assms] by simp_all
  from push_chunks_ok [OF wf, of chunks] show ?thesis
    by (auto simp: new decoder_wf_def split: sum.splits prod.splits)
qed

definition sample_decoder :: frame_decoder where
  "sample_decoder = \<lparr>fr_header = [0, 0, 0, 0], fr_header_len = 0, fr_max_frame_length = 3, fr_payload = [],
     fr_expected_payload_len = None, fr_state = DecoderOpen\<rparr>"

lemma sample_decoder_new: "decoder_new (Some 3) = Inr sample_decoder"
  by (simp add: decoder_new_def resolve_max_def MAX_UINT32_def rbind_def sample_decoder_def)

theorem decoder_chunk_independent_witness:
  "\<exists>d'. push_chunks sample_decoder [[0], [0, 0], [9, 1]] = Some (Inl (Oversized 9 3), d') \<and> fr_state d' = DecoderFailed"
proof -
  have "split_frames 3 [0, 0, 0, 9, 1] = Inl (Oversized 9 3)"
    by (subst split_frames.simps) (simp add: from_be_bytes_def)
  with decoder_chunk_independent [OF sample_decoder_new, of "[[0], [0, 0], [9, 1]]"] show ?thesis
    by auto
qed

text \<open>
  C34. Frames round-trip: payloads within the limit, encoded one after the other and cut into
  chunks anywhere, come out of the decoder unchanged and in order, and the stream then ends
  cleanly.
\<close>

theorem frames_roundtrip:
  assumes "decoder_new options = Inr d" and "concat chunks = concat (map encode_frame payloads)"
    and "\<forall>p \<in> set payloads. length p \<le> unwrap_or options DEFAULT_MAX_FRAME_LENGTH"
  shows "\<exists>d'. push_chunks d chunks = Some (Inr payloads, d') \<and> frame_end d' = (Inr (), d'\<lparr>fr_state := DecoderEnded\<rparr>)"
proof -
  have wf: "decoder_wf d" and new: "pending_bytes d = []" "fr_max_frame_length d = unwrap_or options DEFAULT_MAX_FRAME_LENGTH"
    using decoder_new_wf [OF assms(1)] by simp_all
  have "fr_max_frame_length d \<le> MAX_UINT32"
    using wf by (simp add: decoder_wf_def)
  then have "split_frames (fr_max_frame_length d) (concat chunks) = Inr (payloads, [])"
    using assms(2,3) new(2) by (simp add: split_frames_encode)
  with push_chunks_ok [OF wf, of chunks] new obtain d' where
    d': "push_chunks d chunks = Some (Inr payloads, d')" "decoder_wf d'" "pending_bytes d' = []"
    by auto
  have "fr_expected_payload_len d' = None"
    using d'(2,3) by (auto simp: decoder_wf_def pending_bytes_def to_be_bytes_def split: option.splits)
  moreover from this have "fr_header_len d' = 0"
    using d'(2,3) by (auto simp: decoder_wf_def pending_bytes_def)
  ultimately have "frame_end d' = (Inr (), d'\<lparr>fr_state := DecoderEnded\<rparr>)"
    using d'(2) by (simp add: frame_end_def decoder_wf_def)
  with d'(1) show ?thesis by blast
qed

theorem frames_roundtrip_witness:
  "\<exists>d'. push_chunks sample_decoder [encode_frame [7, 8] @ [0, 0], [0, 0]] = Some (Inr [[7, 8], []], d')"
  using frames_roundtrip [OF sample_decoder_new, of "[encode_frame [7, 8] @ [0, 0], [0, 0]]" "[[7, 8], []]"]
  by (auto simp: encode_frame_def frame_length_field_def to_be_bytes_def)

section \<open>The message queue\<close>

text \<open>
  The queue loses, duplicates and reorders nothing: over any history of enqueues, mode
  changes and drains, what was drained followed by what is still queued is what was queued at
  first followed by what was enqueued. A peek shows exactly what the next drain hands out,
  which is something unless the queue is empty.
\<close>

theorem queue_conserves:
  assumes "queue_run q acts = (outs, q')"
  shows "outs @ pq_messages q' = pq_messages q @ enqueued acts \<and> peek q' = fst (drain q') \<and>
    (has_items q' \<longrightarrow> peek q' \<noteq> [])"
  using queue_run_conserves [OF assms] drain_progress [of q' "fst (drain q')" "snd (drain q')"]
  by (auto simp: peek_drain has_items_def)

theorem queue_conserves_witness:
  "queue_run (queue_new OneAtATime) [Enqueue (1::nat), Enqueue 2, Drain] = ([1], \<lparr>pq_messages = [2], pq_mode = OneAtATime\<rparr>) \<and>
   [1] @ [2] = [] @ enqueued [Enqueue (1::nat), Enqueue 2, Drain]"
proof -
  have run: "queue_run (queue_new OneAtATime) [Enqueue (1::nat), Enqueue 2, Drain] =
      ([1], \<lparr>pq_messages = [2], pq_mode = OneAtATime\<rparr>)"
    by (simp add: queue_new_def enqueue_def drain_def)
  with queue_conserves [OF run] show ?thesis
    by (simp add: queue_new_def)
qed

section \<open>The gate\<close>

text \<open>
  C35. The gate only moves from open over aborting to closed: from any state a fresh gate can get
  into under interleaved calls, once it is aborting or closed nothing more is admitted, once it
  is closed it stays closed with the same error, the token is not cancelled while the gate is
  open, and a closed gate has cancelled it or is about to.
\<close>

theorem gate_lifecycle:
  assumes "gate_step\<^sup>*\<^sup>* (gate_view create_gate 0) g" and "gate_step\<^sup>*\<^sup>* g g'"
  shows "(gl_state g = GateOpen \<longrightarrow> \<not> gl_cancelled g) \<and>
    (gl_state g \<noteq> GateOpen \<longrightarrow> gl_admitted g' = gl_admitted g \<and> gl_state g' \<noteq> GateOpen) \<and>
    (\<forall>e. gl_state g = GateClosed e \<longrightarrow> gl_state g' = GateClosed e \<and> (gl_cancelled g \<or> 0 < gl_pending g))"
proof -
  have inv: "gate_inv g"
    using assms(1) gate_inv_view by (rule gate_inv_steps)
  have rank: "gate_rank (gl_state g) \<le> gate_rank (gl_state g')"
    "gate_rank (gl_state g) = gate_rank (gl_state g') \<longrightarrow> gl_state g = gl_state g'"
    "gl_state g \<noteq> GateOpen \<longrightarrow> gl_admitted g' = gl_admitted g"
    using gate_steps_rank [OF assms(2)] by simp_all
  from inv rank show ?thesis
    by (cases "gl_state g"; cases "gl_state g'") (simp_all add: gate_inv_def)
qed

theorem gate_lifecycle_witness:
  "\<exists>g :: (nat, nat) gate_life. gate_step\<^sup>*\<^sup>* (gate_view create_gate 0) g \<and> gl_state g = GateClosed 7 \<and>
     (gl_cancelled g \<or> 0 < gl_pending g)"
proof -
  let ?g = "gate_view (gate_close 7 (create_gate :: (nat, nat) gate_shared)) 0"
  have "gate_step\<^sup>*\<^sup>* (gate_view create_gate 0) ?g"
    by (rule gate_close_steps)
  moreover from gate_lifecycle [OF this rtranclp.rtrancl_refl] have "gl_cancelled ?g \<or> 0 < gl_pending ?g"
    by (simp add: gate_view_def gate_close_def create_gate_def)
  ultimately show ?thesis
    by (intro exI [of _ ?g]) (simp add: gate_view_def gate_close_def create_gate_def)
qed

text \<open>
  Each call on the gate, run to its end, is a run of the interleaved steps: aborting,
  signalling and closing as such, and an admission with a callback that is one itself; a call
  on a gate that is not open is refused and leaves it as it is.
\<close>

theorem gate_calls_are_steps:
  "gate_step\<^sup>*\<^sup>* (gate_view g n) (gate_view (begin_abort c g) n) \<and>
   gate_step\<^sup>*\<^sup>* (gate_view g n) (gate_view (signal_abort g) n) \<and>
   gate_step\<^sup>*\<^sup>* (gate_view g n) (gate_view (gate_close e g) n) \<and>
   (case admit (\<lambda>g. (a, gate_close e (begin_abort c g))) g of
      (Inr b, g') \<Rightarrow> gt_state g = GateOpen \<and> b = a \<and> gate_step\<^sup>*\<^sup>* (gate_view g n) (gate_view g' (n + 1))
    | (Inl r, g') \<Rightarrow> gt_state g \<noteq> GateOpen \<and> g' = g)"
proof -
  let ?invoke = "\<lambda>g. (a, gate_close e (begin_abort c g))"
  have "gate_step\<^sup>*\<^sup>* (gate_view g (n + 1)) (gate_view (gate_close e (begin_abort c g)) (n + 1))"
    using begin_abort_steps gate_close_steps by (rule rtranclp_trans)
  then have "gate_step\<^sup>*\<^sup>* (gate_view g n) (gate_view g' (n + 1))" if "admit ?invoke g = (Inr b, g')" for b g'
    using that by (intro admit_steps [OF that]) auto
  then show ?thesis
    using begin_abort_steps signal_abort_steps gate_close_steps
    by (auto simp: admit_def split: gate_state.splits)
qed

section \<open>Tool output\<close>

text \<open>
  Head truncation keeps whole lines from the start, as many as fit: the result is a prefix of
  the content within both limits; it is the whole content exactly when that is within the
  limits; otherwise it consists of the first lines, and one more line would have broken a limit.
\<close>

theorem truncate_head_keeps_prefix:
  assumes "truncation_limits options = (ml, mb)" and "r = truncate_head content options"
    and "ls = split_lines_for_counting content"
  shows "prefix (tr_content r) content \<and> tr_output_bytes r = length (tr_content r) \<and>
    tr_output_bytes r \<le> mb \<and> tr_output_lines r \<le> ml \<and>
    (if length ls \<le> ml \<and> length content \<le> mb then \<not> tr_truncated r \<and> tr_content r = content
     else tr_truncated r \<and> tr_content r = join_nl (take (tr_output_lines r) ls) \<and>
       (tr_output_lines r < min ml (length ls) \<longrightarrow> mb < length (join_nl (take (tr_output_lines r + 1) ls))))"
proof (cases "length ls \<le> ml \<and> length content \<le> mb")
  case True
  then have "r = whole_content content ml mb"
    using assms by (simp add: truncate_head_def)
  with True show ?thesis
    by (simp add: whole_content_def assms(3) Let_def)
next
  case False
  then have "tr_truncated r"
    using assms by (auto simp: truncate_head_def Let_def split: prod.splits)
  with assms obtain k where k: "tr_content r = join_nl (take k ls)" "tr_output_lines r = k" "k \<le> length ls" "k \<le> ml"
    "length (join_nl (take k ls)) \<le> mb" "tr_output_bytes r = length (tr_content r)"
    "k < ml \<and> k < length ls \<longrightarrow> mb < length (join_nl (take (Suc k) ls)) \<and> tr_truncated_by r = Some ByBytes"
    using truncate_head_lines [OF assms(2,1)] by metis
  have "prefix (join_nl (take k ls)) (join_nl (take k ls @ drop k ls))"
    by (rule prefix_join_nl)
  then have "prefix (tr_content r) content"
    using prefix_strip [of content] k(1)
    by (auto simp: assms(3) join_counted_lines intro: prefix_order.order_trans)
  with False k \<open>tr_truncated r\<close> show ?thesis by simp
qed

theorem truncate_head_keeps_prefix_witness:
  "tr_content (truncate_head [97, 10, 98, 10, 99] \<lparr>op_max_lines = Some 2, op_max_bytes = None\<rparr>) = [97, 10, 98]"
proof -
  let ?o = "\<lparr>op_max_lines = Some 2, op_max_bytes = None\<rparr>"
  let ?c = "[97, 10, 98, 10, 99] :: u8 list"
  have limits: "truncation_limits ?o = (2, 51200)"
    by (simp add: truncation_limits_def DEFAULT_MAX_BYTES_def)
  have ls: "split_lines_for_counting ?c = [[97], [98], [99]]"
    by (simp add: split_lines_for_counting_def ends_with_nl_def)
  from truncate_head_keeps_prefix [OF limits refl ls [symmetric]]
  have kept: "tr_content (truncate_head ?c ?o) = join_nl (take (tr_output_lines (truncate_head ?c ?o)) [[97], [98], [99]])"
    and more: "tr_output_lines (truncate_head ?c ?o) < 2 \<longrightarrow>
      51200 < length (join_nl (take (tr_output_lines (truncate_head ?c ?o) + 1) [[97], [98], [99 :: u8]]))"
    and most: "tr_output_lines (truncate_head ?c ?o) \<le> 2"
    by (auto simp: min_def split: if_splits)
  have "tr_output_lines (truncate_head ?c ?o) = 2"
  proof (rule ccontr)
    assume "\<not> ?thesis"
    with most consider "tr_output_lines (truncate_head ?c ?o) = 0" | "tr_output_lines (truncate_head ?c ?o) = 1"
      by linarith
    then show False
      using more by cases simp_all
  qed
  with kept show ?thesis by (simp add: numeral_2_eq_2)
qed

text \<open>
  C36. Tail truncation keeps as much of the end as the limits allow. Content within both limits is
  returned as it is. Otherwise the result is within both limits and a suffix of the content without
  its final newline: the last lines, where one line more would pass a limit, or, when even the last
  line is too long, the longest end of that line that starts at a character boundary and fits (nothing,
  when none does). Such a part of a line is counted as one output line.
\<close>

theorem truncate_tail_keeps_suffix:
  assumes "truncation_limits options = (ml, mb)" and "r = truncate_tail content options"
    and "ls = split_lines_for_counting content" and "k = tr_output_lines r"
  shows "(tr_truncated r \<longleftrightarrow> \<not> (length ls \<le> ml \<and> length content \<le> mb)) \<and>
    (\<not> tr_truncated r \<longrightarrow> tr_content r = content \<and> k = length ls) \<and>
    (tr_truncated r \<longrightarrow>
       suffix (tr_content r) (strip_final_nl content) \<and> tr_output_bytes r = length (tr_content r) \<and>
       tr_output_bytes r \<le> mb \<and> k \<le> ml \<and>
       (if tr_last_line_partial r
        then k = 1 \<and> mb < length (last ls) \<and> suffix (tr_content r) (last ls) \<and> tr_content r \<noteq> [] \<and>
          \<not> continuation (hd (tr_content r)) \<and> longest_tail mb (last ls) (tr_content r)
        else k \<le> length ls \<and> tr_content r = join_nl (drop (length ls - k) ls) \<and>
          (k < length ls \<and> k < ml \<longrightarrow> mb < length (join_nl (drop (length ls - Suc k) ls)) \<and>
            (k = 0 \<longrightarrow> longest_tail mb (last ls) []))))"
proof (cases "tr_truncated r")
  case True
  with truncate_tail_kept [OF assms(2,1)] truncate_tail_truncated [OF assms(1), of content] assms(2-4) show ?thesis
    by auto
next
  case False
  with truncate_tail_truncated [OF assms(1), of content] assms show ?thesis
    by (simp add: truncate_tail_def whole_content_def Let_def)
qed

theorem truncate_tail_keeps_suffix_witness:
  "longest_tail 3 [97, 98, 0xc3, 0xa9] (tr_content (truncate_tail [97, 10, 97, 98, 0xc3, 0xa9] \<lparr>op_max_lines = None, op_max_bytes = Some 3\<rparr>)) \<and>
   tr_content (truncate_tail [97, 10, 97, 98, 0xc3, 0xa9] \<lparr>op_max_lines = None, op_max_bytes = Some 3\<rparr>) = [98, 0xc3, 0xa9]"
proof -
  let ?o = "\<lparr>op_max_lines = None, op_max_bytes = Some 3\<rparr>"
  let ?c = "[97, 10, 97, 98, 0xc3, 0xa9] :: u8 list"
  have limits: "truncation_limits ?o = (2000, 3)"
    by (simp add: truncation_limits_def DEFAULT_MAX_LINES_def)
  have ls: "split_lines_for_counting ?c = [[97], [97, 98, 0xc3, 0xa9]]"
    by (simp add: split_lines_for_counting_def ends_with_nl_def)
  have line: "truncate_string_to_bytes_from_end [97, 98, 0xc3, 0xa9] 3 = [98, 0xc3, 0xa9]"
    by (simp add: truncate_string_to_bytes_from_end_def skip_continuation.simps str_get_from_def continuation_def Let_def)
  have r: "tr_truncated (truncate_tail ?c ?o) \<and> tr_last_line_partial (truncate_tail ?c ?o) \<and>
      tr_content (truncate_tail ?c ?o) = [98, 0xc3, 0xa9]"
    unfolding truncate_tail_def limits prod.case Let_def ls by (simp add: line Let_def)
  with truncate_tail_keeps_suffix [OF limits refl refl refl, of ?c] show ?thesis
    by (simp add: ls)
qed

end
