(* ===== verification/Operation_Types.thy ===== *)
theory Operation_Types
  imports Session_Types Agent_Queue
begin

text \<open>
  The durable records of an operation: configuration captured by a step
  (\<open>session/configuration.rs\<close>), the operation state machine's leaves
  (\<open>session/operation.rs\<close>), lane configuration and queued payloads (\<open>session/lane_state.rs\<close>),
  and the results and errors of the harness boundary (\<open>harness/result.rs\<close>).
\<close>

section \<open>Configuration\<close>

record retry_policy =
  rp_enabled :: bool
  rp_max_retries :: u64
  rp_base_delay_ms :: u64

definition DEFAULT_HARNESS_RETRY_POLICY :: retry_policy where
  "DEFAULT_HARNESS_RETRY_POLICY = \<lparr>rp_enabled = True, rp_max_retries = 3, rp_base_delay_ms = 1000\<rparr>"

datatype invalid_retry_policy = InvalidRetry

definition MAX_SAFE_INTEGER :: u64 where
  "MAX_SAFE_INTEGER = 9007199254740991"

definition retry_policy_validate :: "retry_policy \<Rightarrow> invalid_retry_policy + unit" where
  "retry_policy_validate p =
     (if MAX_SAFE_INTEGER \<le> rp_max_retries p \<or> MAX_SAFE_INTEGER < rp_base_delay_ms p then Inl InvalidRetry
      else Inr ())"

record compaction_settings =
  cs_enabled :: bool
  cs_reserve_tokens :: u64
  cs_keep_recent_tokens :: u64

definition DEFAULT_COMPACTION_SETTINGS :: compaction_settings where
  "DEFAULT_COMPACTION_SETTINGS =
     \<lparr>cs_enabled = True, cs_reserve_tokens = 16384, cs_keep_recent_tokens = 20000\<rparr>"

datatype compaction_reason = Manual | Threshold | Overflow

datatype transport = Sse | Websocket | WebsocketCached | Auto

datatype cache_retention = CacheNone | CacheShort | CacheLong

datatype deferred_window = FifteenMinutes | OneHour | TwentyFourHours

datatype deferred_request = DeferredFlag bool | DeferredOptions "deferred_window option"

record 'j stream_options =
  sp_transport :: "transport option"
  sp_timeout_ms :: "u64 option"
  sp_max_retries :: "u32 option"
  sp_max_retry_delay_ms :: "u64 option"
  sp_headers :: "(string \<times> string) list option"
  sp_metadata :: "(string \<times> 'j) list option"
  sp_cache_retention :: "cache_retention option"
  sp_deferred :: "deferred_request option"

record file_operations =
  fo_read :: "string list"
  fo_written :: "string list"
  fo_edited :: "string list"

datatype ('j, 'f) structural_preparation =
  PrepCompaction (pc_messages: "('j, 'f) agent_message list") (pc_turn_prefix: "('j, 'f) agent_message list")
    (pc_retained_tail: "('j, 'f) agent_message list") (pc_is_split_turn: bool) (pc_tokens_before: u64)
    (pc_previous_summary: "string option") (pc_file_ops: file_operations) (pc_settings: compaction_settings)
| PrepBranchSummary (pb_messages: "('j, 'f) agent_message list") (pb_file_ops: file_operations)
    (pb_total_tokens: u64)

section \<open>Lane configuration and queued payloads\<close>

record model_identity =
  mi_provider :: string
  mi_model_id :: string
  mi_api :: "string option"

datatype thinking_level = Off | Minimal | Low | Medium | High | Xhigh | Max

record lane_configuration =
  lc_model :: model_identity
  lc_thinking_level :: thinking_level
  lc_active_tool_names :: "string list"

datatype ('j, 'f) pending_payload =
  PendingMessage "('j, 'f) agent_message"
| PendingCustom string "'j option"

section \<open>Operations\<close>

datatype control = Running | CancelRequested i64

fun cancel_requested :: "control \<Rightarrow> bool" where
  "cancel_requested Running = False"
| "cancel_requested (CancelRequested _) = True"

datatype operation_intent =
  IntentRun "entry_id list"
| IntentCompaction "string option"
| IntentNavigation "entry_id option" bool "string option" "string option"

record operation_meta_record =
  om_operation_id :: operation_id
  om_lane :: lane_name
  om_source_tip_id :: "entry_id option"
  om_started_at :: i64
  om_intent :: operation_intent

datatype operation_kind = KindRun | KindCompaction | KindNavigation

datatype terminal_status = Completed | Declined | Aborted | Failed

record 'j operation_error =
  oe_code :: string
  oe_message :: string
  oe_details :: "'j option"

record 'j operation_result_record =
  or_operation_id :: operation_id
  or_kind :: operation_kind
  or_status :: terminal_status
  or_error :: "'j operation_error option"
  or_from_tip_id :: "entry_id option"
  or_tip_id :: "entry_id option"
  or_started_at :: i64
  or_ended_at :: i64

datatype tool_execution_mode = Sequential | Parallel

record run_settings =
  rs_compaction :: compaction_settings
  rs_steering_mode :: queue_mode
  rs_follow_up_mode :: queue_mode
  rs_tool_execution :: tool_execution_mode

record operation_scope =
  sc_control :: control
  sc_settings :: run_settings
  sc_latest_assistant_entry_id :: "entry_id option"

datatype continuation = NeedAssistant bool | MayFinish bool

record checkpoint_data =
  cp_continuation :: continuation
  cp_trigger_entry_id :: entry_id

record normalized_retry_policy =
  nr_max_attempts :: u64
  nr_base_delay_ms :: u64

definition normalized_retry_try_from :: "retry_policy \<Rightarrow> invalid_retry_policy + normalized_retry_policy" where
  "normalized_retry_try_from p =
     rbind (retry_policy_validate p) (\<lambda>_.
     rbind (if rp_enabled p then ok_or (checked_add (rp_max_retries p) 1) InvalidRetry else Inr 1) (\<lambda>max_attempts.
     Inr \<lparr>nr_max_attempts = max_attempts, nr_base_delay_ms = rp_base_delay_ms p\<rparr>))"

record 'j generation_context =
  gc_step_id :: string
  gc_trigger_entry_id :: entry_id
  gc_configuration :: lane_configuration
  gc_stream_options :: "'j stream_options"
  gc_retry_policy :: normalized_retry_policy
  gc_overflow_recovery_used :: bool

record retry_wait =
  rw_next_attempt :: u64
  rw_not_before :: i64
  rw_error_message :: string

datatype replay_policy = Never | Safe

datatype tool_call_status = Planned | EffectPending replay_policy | OutcomeReady bool | CallCompleted bool

record tool_call_record =
  tcr_source_index :: u32
  tcr_result_entry_id :: entry_id
  tcr_status :: tool_call_status

record tool_batch =
  tb_assistant_entry_id :: entry_id
  tb_configuration :: lane_configuration
  tb_turn_id :: string
  tb_calls :: "tool_call_record list"

record 'j agent_tool_result =
  tres_content :: "tool_result_content list"
  tres_details :: 'j
  tres_added_tool_names :: "string list option"
  tres_terminate :: "bool option"

record 'j staged_tool_result =
  sg_result :: "'j agent_tool_result"
  sg_is_error :: bool

datatype result_boundary =
  ResumeCheckpoint checkpoint_data
| Finish
| CommitNavigation entry_id "string option"

record summary_task =
  st_task_id :: string
  st_reason :: "compaction_reason option"
  st_custom_instructions :: "string option"
  st_boundary :: result_boundary

record 'j summary_context =
  sx_result_entry_id :: entry_id
  sx_configuration :: lane_configuration
  sx_stream_options :: "'j stream_options"
  sx_retry_policy :: normalized_retry_policy

record 'j summary_generation =
  sn_task :: summary_task
  sn_summary_context :: "'j summary_context"

record summary_request_ref =
  sq_index :: u32
  sq_usage_id :: usage_id

record 'j deferred_scope =
  df_scope :: operation_scope
  df_step_id :: string
  df_source_entry_id :: entry_id
  df_poll :: u32
  df_configuration :: lane_configuration
  df_stream_options :: "'j stream_options"

datatype 'j op_state =
  Starting operation_scope
| Checkpoint operation_scope checkpoint_data
| AssistantReady operation_scope "'j generation_context" u64
| AssistantEffectPending operation_scope "'j generation_context" u64 entry_id usage_id u32 u32
| AssistantRetryWait operation_scope "'j generation_context" retry_wait
| Tools operation_scope tool_batch
| DeferredSuspended "'j deferred_scope"
| DeferredEffectPending "'j deferred_scope" entry_id usage_id
| SummaryDeciding operation_scope summary_task
| SummaryReady operation_scope "'j summary_generation" u64
| SummaryEffectPending operation_scope "'j summary_generation" u64 "summary_request_ref option" "usage_id list"
| SummaryRetryWait operation_scope "'j summary_generation" retry_wait
| NavigationReadyToCommit operation_scope "entry_id option" "string option"

fun state_scope :: "'j op_state \<Rightarrow> operation_scope" where
  "state_scope (Starting scope) = scope"
| "state_scope (Checkpoint scope _) = scope"
| "state_scope (AssistantReady scope _ _) = scope"
| "state_scope (AssistantEffectPending scope _ _ _ _ _ _) = scope"
| "state_scope (AssistantRetryWait scope _ _) = scope"
| "state_scope (Tools scope _) = scope"
| "state_scope (DeferredSuspended deferred) = df_scope deferred"
| "state_scope (DeferredEffectPending deferred _ _) = df_scope deferred"
| "state_scope (SummaryDeciding scope _) = scope"
| "state_scope (SummaryReady scope _ _) = scope"
| "state_scope (SummaryEffectPending scope _ _ _ _) = scope"
| "state_scope (SummaryRetryWait scope _ _) = scope"
| "state_scope (NavigationReadyToCommit scope _ _) = scope"

text \<open>Writing through \<open>scope_mut\<close>.\<close>

fun map_scope :: "(operation_scope \<Rightarrow> operation_scope) \<Rightarrow> 'j op_state \<Rightarrow> 'j op_state" where
  "map_scope f (Starting scope) = Starting (f scope)"
| "map_scope f (Checkpoint scope data) = Checkpoint (f scope) data"
| "map_scope f (AssistantReady scope context attempt) = AssistantReady (f scope) context attempt"
| "map_scope f (AssistantEffectPending scope context attempt response usage limit window) =
     AssistantEffectPending (f scope) context attempt response usage limit window"
| "map_scope f (AssistantRetryWait scope context retry) = AssistantRetryWait (f scope) context retry"
| "map_scope f (Tools scope batch) = Tools (f scope) batch"
| "map_scope f (DeferredSuspended deferred) = DeferredSuspended (deferred\<lparr>df_scope := f (df_scope deferred)\<rparr>)"
| "map_scope f (DeferredEffectPending deferred response usage) =
     DeferredEffectPending (deferred\<lparr>df_scope := f (df_scope deferred)\<rparr>) response usage"
| "map_scope f (SummaryDeciding scope task) = SummaryDeciding (f scope) task"
| "map_scope f (SummaryReady scope generation attempt) = SummaryReady (f scope) generation attempt"
| "map_scope f (SummaryEffectPending scope generation attempt request usages) =
     SummaryEffectPending (f scope) generation attempt request usages"
| "map_scope f (SummaryRetryWait scope generation retry) = SummaryRetryWait (f scope) generation retry"
| "map_scope f (NavigationReadyToCommit scope target label) = NavigationReadyToCommit (f scope) target label"

datatype operation_at =
  At_Starting | At_Checkpoint | At_AssistantReady | At_AssistantEffectPending | At_AssistantRetryWait
| At_Tools | At_DeferredSuspended | At_DeferredEffectPending | At_SummaryDeciding | At_SummaryReady
| At_SummaryEffectPending | At_SummaryRetryWait | At_NavigationReadyToCommit

fun state_at :: "'j op_state \<Rightarrow> operation_at" where
  "state_at (Starting _) = At_Starting"
| "state_at (Checkpoint _ _) = At_Checkpoint"
| "state_at (AssistantReady _ _ _) = At_AssistantReady"
| "state_at (AssistantEffectPending _ _ _ _ _ _ _) = At_AssistantEffectPending"
| "state_at (AssistantRetryWait _ _ _) = At_AssistantRetryWait"
| "state_at (Tools _ _) = At_Tools"
| "state_at (DeferredSuspended _) = At_DeferredSuspended"
| "state_at (DeferredEffectPending _ _ _) = At_DeferredEffectPending"
| "state_at (SummaryDeciding _ _) = At_SummaryDeciding"
| "state_at (SummaryReady _ _ _) = At_SummaryReady"
| "state_at (SummaryEffectPending _ _ _ _ _) = At_SummaryEffectPending"
| "state_at (SummaryRetryWait _ _ _) = At_SummaryRetryWait"
| "state_at (NavigationReadyToCommit _ _ _) = At_NavigationReadyToCommit"

record 'j operation =
  op_meta :: operation_meta_record
  op_state_of :: "'j op_state"

definition op_scope :: "'j operation \<Rightarrow> operation_scope" where
  "op_scope operation = state_scope (op_state_of operation)"

definition op_cancelled :: "'j operation \<Rightarrow> bool" where
  "op_cancelled operation = cancel_requested (sc_control (op_scope operation))"

abbreviation op_id :: "'j operation \<Rightarrow> operation_id" where
  "op_id operation \<equiv> om_operation_id (op_meta operation)"

lemma state_scope_map [simp]: "state_scope (map_scope f s) = f (state_scope s)"
  by (cases s) simp_all

lemma state_at_map [simp]: "state_at (map_scope f s) = state_at s"
  by (cases s) simp_all

fun operation_kind_of :: "operation_intent \<Rightarrow> operation_kind" where
  "operation_kind_of (IntentRun _) = KindRun"
| "operation_kind_of (IntentCompaction _) = KindCompaction"
| "operation_kind_of (IntentNavigation _ _ _ _) = KindNavigation"

section \<open>Errors and outcomes at the harness boundary\<close>

record harness_fault =
  hf_message :: string
  hf_cause :: string

datatype harness_error =
  LaneBusy lane_name operation_id operation_kind string
| OperationMismatch lane_name operation_id "operation_id option" "operation_id option" string
| NoActiveRun lane_name string
| NoActiveOperation lane_name string
| NothingToResume lane_name string
| NothingToCompact lane_name string
| InvalidMessage lane_name string string
| InvalidNavigation lane_name string string
| UnknownSkill string string
| UnknownTemplate string string
| HarnessUnknownTarget entry_id string
| InvalidLane lane_name string string
| InvalidRetryPolicy u64 u64 string
| FaultSealed string harness_fault
| HarnessClosed string

datatype ('j, 'f) drive_outcome =
  DriveSettled "'j operation_result_record"
| DriveWaitingRetry operation_id i64
| DriveWaitingDeferred operation_id "('j, 'f) deferred_handle"

record operation_admission =
  ad_operation_id :: operation_id
  ad_operation_kind :: operation_kind
  ad_started_at :: i64

record ('j, 'f) abort_request_outcome =
  ab_operation_id :: operation_id
  ab_newly_requested :: bool
  ab_steer :: "('j, 'f) agent_message list"
  ab_follow_up :: "('j, 'f) agent_message list"

datatype cancel_queued_kind = Cancelled | AlreadyConsumed | NotFound

datatype operation_status = StatusRunning | StatusOpen | StatusAborting

section \<open>Retry budgets\<close>

text \<open>A validated policy always leaves room for the first attempt, and the addition cannot overflow.\<close>

lemma retry_policy_validate_iff:
  "retry_policy_validate p = Inr u \<longleftrightarrow>
     rp_max_retries p < MAX_SAFE_INTEGER \<and> rp_base_delay_ms p \<le> MAX_SAFE_INTEGER"
  by (auto simp: retry_policy_validate_def)

lemma normalized_attempts:
  assumes "normalized_retry_try_from p = Inr n"
  shows "nr_base_delay_ms n = rp_base_delay_ms p"
    and "unat (nr_max_attempts n) = (if rp_enabled p then unat (rp_max_retries p) + 1 else 1)"
    and "1 \<le> nr_max_attempts n" and "nr_max_attempts n \<le> MAX_SAFE_INTEGER"
proof -
  from assms have lt: "rp_max_retries p < MAX_SAFE_INTEGER"
    and n: "nr_base_delay_ms n = rp_base_delay_ms p"
      "if rp_enabled p then checked_add (rp_max_retries p) 1 = Some (nr_max_attempts n) else nr_max_attempts n = 1"
    by (auto simp: normalized_retry_try_from_def rbind_eq_Inr_iff retry_policy_validate_iff ok_or_def
        split: option.splits if_splits)
  show "nr_base_delay_ms n = rp_base_delay_ms p" by (rule n)
  have small: "unat (rp_max_retries p) < 9007199254740991"
    using lt by (simp add: MAX_SAFE_INTEGER_def word_less_nat_alt)
  have sum: "unat (rp_max_retries p + 1) = unat (rp_max_retries p) + 1"
    using small by (simp add: unat_word_ariths)
  show eq: "unat (nr_max_attempts n) = (if rp_enabled p then unat (rp_max_retries p) + 1 else 1)"
    using n(2) sum by (auto simp: checked_add_def split: if_splits)
  show "1 \<le> nr_max_attempts n" "nr_max_attempts n \<le> MAX_SAFE_INTEGER"
    using eq small by (simp_all add: word_le_nat_alt MAX_SAFE_INTEGER_def)
qed

end
