(* ===== verification/Lane_Runtime.thy ===== *)
theory Lane_Runtime
  imports Operation_Types Session_Contract
begin

text \<open>
  A lane of the harness: its cached copy of the durable fields, the boundary through which it
  commits, and the helpers its procedures share (\<open>harness/runtime/support.rs\<close> and the commit part
  of \<open>harness/runtime/lane.rs\<close>). A procedure is a fallible step on \<open>lane_runtime\<close>; the session,
  the shared configuration and the fault slot of the owning harness are fields of it. Strings
  are code points below 256. Events a procedure emits to listeners are left out.
\<close>

section \<open>Encodings\<close>

text \<open>
  \<open>serde_json::to_value\<close> and \<open>from_value\<close> at one type. \<open>codec_ok\<close>: decoding what was encoded gives
  the value back.
\<close>

record ('j, 'a) codec =
  cd_to :: "'a \<Rightarrow> string + 'j"
  cd_from :: "'j \<Rightarrow> string + 'a"

definition codec_ok :: "('j, 'a) codec \<Rightarrow> bool" where
  "codec_ok c \<longleftrightarrow> (\<forall>a j. cd_to c a = Inr j \<longrightarrow> cd_from c j = Inr a)"

text \<open>
  The types a lane stores, and the three conversions between provider messages and agent
  messages, which go through JSON as well; their error is the whole message text.
\<close>

record ('j, 'f) lane_serde =
  ld_serde :: "'j serde"
  ld_state :: "('j, lane_state) codec"
  ld_config :: "('j, lane_configuration) codec"
  ld_meta :: "('j, operation_meta_record) codec"
  ld_op_state :: "('j, 'j op_state) codec"
  ld_result :: "('j, 'j operation_result_record) codec"
  ld_pending :: "('j, ('j, 'f) pending_payload) codec"
  ld_preparation :: "('j, ('j, 'f) structural_preparation) codec"
  ld_staged :: "('j, 'j staged_tool_result) codec"
  ld_args :: "('j, (string \<times> 'j) list) codec"
  ld_memo :: "('j, 'j) codec"
  ld_assistant_to :: "('j, 'f) assistant_message \<Rightarrow> string + ('j, 'f) agent_message"
  ld_assistant_of :: "('j, 'f) agent_message \<Rightarrow> ('j, 'f) assistant_message option"
  ld_tool_result_to :: "'j tool_result_message \<Rightarrow> string + ('j, 'f) agent_message"
  ld_pending_assistant :: "('j, 'f) agent_message \<Rightarrow> bool"

definition tip_codec :: "'j serde \<Rightarrow> ('j, entry_id option) codec" where
  "tip_codec sd = \<lparr>cd_to = sd_tip_to_value sd, cd_from = sd_tip_from_value sd\<rparr>"

definition string_codec :: "'j serde \<Rightarrow> ('j, string) codec" where
  "string_codec sd = \<lparr>cd_to = (\<lambda>s. Inr (sd_string_value sd s)), cd_from = sd_string_from_value sd\<rparr>"

text \<open>What the coherence of a lane with its session rests on.\<close>

definition lane_serde_ok :: "('j, 'f) lane_serde \<Rightarrow> bool" where
  "lane_serde_ok ld \<longleftrightarrow>
     serde_tip_ok (ld_serde ld) \<and> codec_ok (ld_state ld) \<and> codec_ok (ld_config ld) \<and>
     codec_ok (ld_meta ld) \<and> codec_ok (ld_op_state ld) \<and> codec_ok (ld_result ld)"

section \<open>State\<close>

record model =
  mo_id :: string
  mo_api :: string
  mo_provider :: string
  mo_context_window :: u64
  mo_max_tokens :: u64

record skill =
  sk_name :: string
  sk_content :: string
  sk_disable_model_invocation :: bool

record prompt_template =
  pt_name :: string
  pt_content :: string

text \<open>\<open>rc_projectors\<close> are the custom entry types with a registered projector.\<close>

record 'j runtime_config =
  rc_model :: model
  rc_thinking_level :: thinking_level
  rc_active_tool_names :: "string list"
  rc_tools :: "(string \<times> tool_execution_mode) list"
  rc_skills :: "skill list"
  rc_prompt_templates :: "prompt_template list"
  rc_stream_options :: "'j stream_options"
  rc_retry :: retry_policy
  rc_compaction :: compaction_settings
  rc_steering_mode :: queue_mode
  rc_follow_up_mode :: queue_mode
  rc_tool_execution :: tool_execution_mode
  rc_projectors :: "string list"

record 'j lane_data =
  la_tip :: "entry_id option"
  la_config :: lane_configuration
  la_state :: lane_state
  la_operation :: "'j operation option"
  la_last_result :: "'j operation_result_record option"

definition lane_data_new :: "lane_configuration \<Rightarrow> entry_id option \<Rightarrow> lane_state \<Rightarrow> 'j lane_data" where
  "lane_data_new config tip state =
     \<lparr>la_tip = tip, la_config = config, la_state = state, la_operation = None, la_last_result = None\<rparr>"

text \<open>
  \<open>lr_closed\<close> is the closed flag of the harness together with the sealed flag of its lanes, which
  are set together; \<open>lr_fault\<close> is the first fault; \<open>lr_abort\<close> is the cancellation token of the
  running drive's gate; \<open>lr_world\<close> is the state of everything outside the harness.
\<close>

record ('w, 'm, 'g, 'j) lane_runtime =
  lr_name :: lane_name
  lr_session :: "('m, 'g) backed_session"
  lr_data :: "'j lane_data"
  lr_config :: "'j runtime_config"
  lr_closed :: bool
  lr_fault :: "harness_fault option"
  lr_abort :: bool
  lr_world :: 'w

type_synonym ('w, 'm, 'g, 'j, 'a) lane_op = "(harness_error, ('w, 'm, 'g, 'j) lane_runtime, 'a) eop"

text \<open>A procedure that looks at the lane it starts in.\<close>

definition with_lane ::
  "(('w, 'm, 'g, 'j) lane_runtime \<Rightarrow> ('e, ('w, 'm, 'g, 'j) lane_runtime, 'a) eop)
    \<Rightarrow> ('e, ('w, 'm, 'g, 'j) lane_runtime, 'a) eop" where
  "with_lane F = (\<lambda>rt. F rt rt)"

text \<open>
  What a lane is given from outside: the encodings, the id generator, the clock, the model
  registry, the effect of other tasks while the lane waits, the text of \<open>{:?}\<close> formatting, and the
  pure planning of summaries (\<open>harness/compaction\<close>): \<open>prepare_compaction\<close>, whose error is its code
  and text, \<open>prepare_branch_entries\<close>, \<open>collect_entries_for_branch_summary\<close> with its entries and
  common ancestor, and the token estimate of the projected context.
\<close>

record ('w, 'm, 'g, 'j, 'f) lane_env =
  en_serde :: "('j, 'f) lane_serde"
  en_generator :: "'g \<Rightarrow> i64 option \<Rightarrow> (session_error + string) \<times> 'g"
  en_now :: "'w \<Rightarrow> i64 \<times> 'w"
  en_get_model :: "string \<Rightarrow> string \<Rightarrow> model option"
  en_meanwhile :: "('w, 'm, 'g, 'j) lane_runtime \<Rightarrow> ('w, 'm, 'g, 'j) lane_runtime"
  en_debug :: "string \<Rightarrow> string"
  en_prepare_compaction :: "('j, 'f) entry list \<Rightarrow> compaction_settings
    \<Rightarrow> (string \<times> string) + ('j, 'f) structural_preparation option"
  en_prepare_branch :: "('j, 'f) entry list \<Rightarrow> u64 \<Rightarrow> ('j, 'f) structural_preparation"
  en_collect_branch :: "('m, 'g) backed_session \<Rightarrow> lane_name \<Rightarrow> entry_id \<Rightarrow> entry_id \<Rightarrow> call_context
    \<Rightarrow> session_error + ('j, 'f) entry list \<times> entry_id option"
  en_context_tokens :: "('j, 'f) entry list \<Rightarrow> session_error + u64"

section \<open>The commit boundary\<close>

definition map_session_error :: "session_error \<Rightarrow> harness_error" where
  "map_session_error e = HarnessClosed (''session operation failed: '' @ session_error_text e)"

definition sealed_rejection :: "harness_fault \<Rightarrow> harness_error" where
  "sealed_rejection fault = FaultSealed (hf_message fault) fault"

definition closed_error_of :: "('w, 'm, 'g, 'j) lane_runtime \<Rightarrow> harness_error" where
  "closed_error_of rt = HarnessClosed (case lr_fault rt of
     Some fault \<Rightarrow> hf_message fault | None \<Rightarrow> ''harness is closed'')"

definition lane_ensure_open :: "('w, 'm, 'g, 'j) lane_runtime \<Rightarrow> harness_error + unit" where
  "lane_ensure_open rt =
     (if lr_closed rt
      then Inl (case lr_fault rt of Some fault \<Rightarrow> sealed_rejection fault | None \<Rightarrow> closed_error_of rt)
      else Inr ())"

text \<open>\<open>HarnessRuntime::fault\<close>: the first fault is kept and closes the harness and its lanes.\<close>

definition owner_fault :: "harness_fault \<Rightarrow> ('w, 'm, 'g, 'j) lane_runtime \<Rightarrow> ('w, 'm, 'g, 'j) lane_runtime" where
  "owner_fault fault rt =
     (case lr_fault rt of
        Some _ \<Rightarrow> rt
      | None \<Rightarrow> rt\<lparr>lr_fault := Some fault, lr_closed := True\<rparr>)"

definition stored_rejection :: "('w, 'm, 'g, 'j) lane_runtime \<Rightarrow> harness_error" where
  "stored_rejection rt =
     (case lr_fault rt of Some fault \<Rightarrow> sealed_rejection fault | None \<Rightarrow> closed_error_of rt)"

definition commit_fault :: "session_error \<Rightarrow> ('w, 'm, 'g, 'j, 'a) lane_op" where
  "commit_fault e = (\<lambda>rt.
     let text = session_error_text e;
         rt = owner_fault \<lparr>hf_message = ''session operation failed: '' @ text, hf_cause = text\<rparr> rt
     in (Inl (stored_rejection rt), rt))"

definition on_session :: "(('m, 'g) backed_session, 'a) op \<Rightarrow> ('w, 'm, 'g, 'j, 'a) lane_op" where
  "on_session f = (\<lambda>rt. let (r, s) = f (lr_session rt) in (map_err map_session_error r, rt\<lparr>lr_session := s\<rparr>))"

text \<open>The commit of a mutation guard the caller already holds; a refusal faults the harness.\<close>

definition faulting_commit ::
  "('m, 'j, 'f) storage_ops \<Rightarrow> ('j, 'f) session_write list \<Rightarrow> call_context \<Rightarrow> ('w, 'm, 'g, 'j, 'f commit_result) lane_op" where
  "faulting_commit ops writes cx = (\<lambda>rt.
     case mutation_commit ops writes cx (lr_session rt) of
       (Inr r, s) \<Rightarrow> (Inr r, rt\<lparr>lr_session := s\<rparr>)
     | (Inl e, s) \<Rightarrow> commit_fault e (rt\<lparr>lr_session := s\<rparr>))"

definition lane_commit ::
  "('m, 'j, 'f) storage_ops \<Rightarrow> ('j, 'f) session_write list \<Rightarrow> call_context \<Rightarrow> ('w, 'm, 'g, 'j, 'f commit_result) lane_op" where
  "lane_commit ops writes cx =
     op_bind (on_session (begin_mutation cx)) (\<lambda>_. faulting_commit ops writes cx)"

section \<open>Reads, clock, identifiers\<close>

definition lane_get ::
  "('m, 'j, 'f) storage_ops \<Rightarrow> ('j, 'a) codec \<Rightarrow> value_address \<Rightarrow> call_context
    \<Rightarrow> ('m, 'g) backed_session \<Rightarrow> session_error + 'a stored_value option" where
  "lane_get ops codec addr cx s = typed_get_value (\<lambda>a. session_get_value_json ops s a cx) (cd_from codec) addr"

definition lane_read :: "(('m, 'g) backed_session \<Rightarrow> session_error + 'a) \<Rightarrow> ('w, 'm, 'g, 'j, 'a) lane_op" where
  "lane_read f = op_read (\<lambda>rt. map_err map_session_error (f (lr_session rt)))"

text \<open>A read under a mutation guard: the backend is asked directly.\<close>

definition guarded_get ::
  "('m, 'j, 'f) storage_ops \<Rightarrow> ('j, 'a) codec \<Rightarrow> value_address \<Rightarrow> call_context
    \<Rightarrow> ('w, 'm, 'g, 'j, 'a stored_value option) lane_op" where
  "guarded_get ops codec addr cx = on_session (mutation_get_value ops (cd_from codec) addr cx)"

definition lane_now :: "('w, 'm, 'g, 'j, 'f) lane_env \<Rightarrow> ('w, 'm, 'g, 'j, i64) lane_op" where
  "lane_now env = (\<lambda>rt. let (t, w) = en_now env (lr_world rt) in (Inr t, rt\<lparr>lr_world := w\<rparr>))"

definition new_id :: "('w, 'm, 'g, 'j, 'f) lane_env \<Rightarrow> ('w, 'm, 'g, 'j, string) lane_op" where
  "new_id env = on_session (generate_id (en_generator env))"

definition lane_await :: "('w, 'm, 'g, 'j, 'f) lane_env \<Rightarrow> ('w, 'm, 'g, 'j, unit) lane_op" where
  "lane_await env = (\<lambda>rt. (Inr (), en_meanwhile env rt))"

definition get_data :: "('w, 'm, 'g, 'j, 'j lane_data) lane_op" where
  "get_data = op_read (\<lambda>rt. Inr (lr_data rt))"

definition get_config :: "('w, 'm, 'g, 'j, 'j runtime_config) lane_op" where
  "get_config = op_read (\<lambda>rt. Inr (lr_config rt))"

definition put_data :: "('j lane_data \<Rightarrow> 'j lane_data) \<Rightarrow> ('w, 'm, 'g, 'j, unit) lane_op" where
  "put_data f = (\<lambda>rt. (Inr (), rt\<lparr>lr_data := f (lr_data rt)\<rparr>))"

definition set_json :: "value_address \<Rightarrow> ('j, 'a) codec \<Rightarrow> 'a \<Rightarrow> session_error + ('j, 'f) session_write" where
  "set_json addr codec x = set_value addr (cd_to codec x)"

definition lane_write ::
  "value_address \<Rightarrow> ('j, 'a) codec \<Rightarrow> 'a \<Rightarrow> ('w, 'm, 'g, 'j, ('j, 'f) session_write) lane_op" where
  "lane_write addr codec x = lane_read (\<lambda>_. set_json addr codec x)"

definition lane_branch ::
  "('m, 'j, 'f) storage_ops \<Rightarrow> ('w, 'm, 'g, 'j, 'f) lane_env \<Rightarrow> call_context \<Rightarrow> ('w, 'm, 'g, 'j, lane_name) lane_op" where
  "lane_branch ops env cx = (\<lambda>rt.
     case session_branch ops (ld_serde (en_serde env)) (lr_session rt) (lr_name rt) cx of
       Inl e \<Rightarrow> (Inl (map_session_error e), rt)
     | Inr None \<Rightarrow> (Inl (InvalidLane (lr_name rt) ''branch_missing'' ''lane branch is missing from session''), rt)
     | Inr (Some branch) \<Rightarrow> (Inr branch, rt))"

text \<open>\<open>branch_entries\<close>: the whole branch, oldest first.\<close>

definition branch_entries ::
  "('m, 'j, 'f) storage_ops \<Rightarrow> ('w, 'm, 'g, 'j, 'f) lane_env \<Rightarrow> lane_name \<Rightarrow> call_context
    \<Rightarrow> ('m, 'g) backed_session \<Rightarrow> session_error + ('j, 'f) entry list" where
  "branch_entries ops env branch cx s =
     rbind (branch_find_entries ops (ld_serde (en_serde env)) s branch None cx) (\<lambda>entries. Inr (rev entries))"

section \<open>Writes\<close>

definition entry_write ::
  "entry_id \<Rightarrow> entry_id option \<Rightarrow> ('j, 'f) agent_message \<Rightarrow> bool \<Rightarrow> ('j, 'f) session_write" where
  "entry_write i parent message terminate =
     WriteEntry \<lparr>ne_id = i, ne_parent_id = parent, ne_body = BodyMessage message terminate\<rparr>"

definition custom_entry_write ::
  "entry_id \<Rightarrow> entry_id option \<Rightarrow> string \<Rightarrow> 'j option \<Rightarrow> ('j, 'f) session_write" where
  "custom_entry_write i parent custom_type data =
     WriteEntry \<lparr>ne_id = i, ne_parent_id = parent, ne_body = BodyCustom custom_type data\<rparr>"

definition pending_write :: "entry_id \<Rightarrow> inbox_item_kind \<Rightarrow> inbox_item" where
  "pending_write entry kind = \<lparr>ii_entry_id = entry, ii_kind = kind\<rparr>"

definition op_cleanup_writes :: "operation_id \<Rightarrow> entry_id option \<Rightarrow> ('j, 'f) session_write list" where
  "op_cleanup_writes op response =
     [delete_value (operation_meta op), delete_value (operation_state op)] @
     (case response of None \<Rightarrow> [] | Some r \<Rightarrow> [delete_list (pending_assistant_frames op r)])"

section \<open>Derived records\<close>

definition operation_scope_of :: "'j runtime_config \<Rightarrow> operation_scope" where
  "operation_scope_of config =
     \<lparr>sc_control = Running,
      sc_settings = \<lparr>rs_compaction = rc_compaction config, rs_steering_mode = rc_steering_mode config,
        rs_follow_up_mode = rc_follow_up_mode config, rs_tool_execution = rc_tool_execution config\<rparr>,
      sc_latest_assistant_entry_id = None\<rparr>"

definition captured_configuration :: "'j runtime_config \<Rightarrow> lane_configuration" where
  "captured_configuration config =
     \<lparr>lc_model = \<lparr>mi_provider = mo_provider (rc_model config), mi_model_id = mo_id (rc_model config),
        mi_api = Some (mo_api (rc_model config))\<rparr>,
      lc_thinking_level = rc_thinking_level config, lc_active_tool_names = rc_active_tool_names config\<rparr>"

definition normalized_retry :: "retry_policy \<Rightarrow> harness_error + normalized_retry_policy" where
  "normalized_retry policy =
     map_err (\<lambda>_. InvalidRetryPolicy (rp_max_retries policy) (rp_base_delay_ms policy)
                    ''retry policy cannot be represented safely'') (normalized_retry_try_from policy)"

definition u32_saturate :: "u64 \<Rightarrow> u32" where
  "u32_saturate x = (if unat x < 2 ^ 32 then ucast x else - 1)"

definition response_limit :: "model \<Rightarrow> u32" where
  "response_limit model = u32_saturate (mo_max_tokens model)"

definition context_window :: "model \<Rightarrow> u32" where
  "context_window model = u32_saturate (mo_context_window model)"

definition harness_invariant :: "string \<Rightarrow> harness_error" where
  "harness_invariant message = HarnessClosed (''harness invariant failed: '' @ message)"

fun read_pending ::
  "(value_address \<Rightarrow> session_error + ('j, 'f) pending_payload stored_value option) \<Rightarrow> inbox_item list
    \<Rightarrow> session_error + (inbox_item \<times> ('j, 'f) pending_payload) list" where
  "read_pending get [] = Inr []"
| "read_pending get (item # items) =
     rbind (get (pending_entry (ii_entry_id item))) (\<lambda>stored.
     case stored of
       None \<Rightarrow> Inl (Invariant (''missing pending entry '' @ ii_entry_id item))
     | Some sv \<Rightarrow> rbind (read_pending get items) (\<lambda>rest. Inr ((item, sv_value sv) # rest)))"

definition op_on_error :: "('s \<Rightarrow> 's) \<Rightarrow> ('e, 's, 'a) eop \<Rightarrow> ('e, 's, 'a) eop" where
  "op_on_error undo m = (\<lambda>s. case m s of (Inl e, s') \<Rightarrow> (Inl e, undo s') | (Inr a, s') \<Rightarrow> (Inr a, s'))"

section \<open>Inbox selection\<close>

text \<open>
  One pass over the inbox: writes and next-run items always pass, steering and follow-up items
  once each unless their mode releases all of them. Admission and the drive have one copy each.
\<close>

fun select_inbox_loop ::
  "queue_mode \<Rightarrow> queue_mode \<Rightarrow> bool \<Rightarrow> bool \<Rightarrow> inbox_item list \<Rightarrow> inbox_item list" where
  "select_inbox_loop steering follow_up steer follow [] = []"
| "select_inbox_loop steering follow_up steer follow (item # items) =
     (let allowed = (case ii_kind item of
            WriteItem \<Rightarrow> True
          | NextRun \<Rightarrow> True
          | Steer \<Rightarrow> steering = QueueAll \<or> \<not> steer
          | FollowUp \<Rightarrow> follow_up = QueueAll \<or> \<not> follow)
      in if allowed
         then item # select_inbox_loop steering follow_up (steer \<or> ii_kind item = Steer)
                       (follow \<or> ii_kind item = FollowUp) items
         else select_inbox_loop steering follow_up steer follow items)"

definition select_inbox :: "inbox_item list \<Rightarrow> queue_mode \<Rightarrow> queue_mode \<Rightarrow> inbox_item list" where
  "select_inbox inbox steering follow_up = select_inbox_loop steering follow_up False False inbox"

text \<open>The items of an inbox that were not selected, by entry id.\<close>

definition remaining_inbox :: "inbox_item list \<Rightarrow> inbox_item list \<Rightarrow> inbox_item list" where
  "remaining_inbox inbox selected = filter (\<lambda>item. ii_entry_id item \<notin> ii_entry_id ` set selected) inbox"

end
