(* ===== verification/Lane_Admission.thy ===== *)
theory Lane_Admission
  imports Lane_Runtime
begin

text \<open>
  Admission of operations, the inbox, durable cancellation and appends
  (\<open>harness/runtime/admission.rs\<close>, the input validation of \<open>support.rs\<close>, and the mutating methods
  of \<open>lane.rs\<close>). A call runs without interruption here; the code releases the lane's data between
  its durable and its cached half, and \<open>enqueue\<close> keeps the two halves apart so that both orders
  can be studied.
\<close>

section \<open>Input\<close>

definition rust_whitespace :: "char \<Rightarrow> bool" where
  "rust_whitespace c \<longleftrightarrow> (let n = of_char c :: nat in n \<in> {9..13} \<or> n \<in> {32, 133, 160})"

definition rust_control :: "char \<Rightarrow> bool" where
  "rust_control c \<longleftrightarrow> (let n = of_char c :: nat in n < 32 \<or> (127 \<le> n \<and> n < 160))"

datatype ('j, 'f) prompt_input =
  PromptText string "image_content list"
| PromptMessages "('j, 'f) agent_message list"

datatype ('j, 'f) queue_input =
  QueueText string "image_content list"
| QueueMessage "('j, 'f) agent_message"

record navigate_options =
  nv_summarize :: "bool option"
  nv_label :: "string option"
  nv_custom_instructions :: "string option"

datatype ('j, 'f) operation_request =
  RequestPrompt "operation_id option" "('j, 'f) prompt_input"
| RequestSkill "operation_id option" string "string option"
| RequestPromptTemplate "operation_id option" string "string list"
| RequestCompaction "operation_id option" "string option"
| RequestNavigation "operation_id option" "entry_id option" navigate_options

definition blank :: "string \<Rightarrow> bool" where
  "blank text = (\<forall>c \<in> set text. rust_whitespace c)"

text \<open>\<open>prompt_messages\<close>; the reason and the message of \<open>InvalidMessage\<close>. \<open>now\<close> stamps a text prompt.\<close>

definition prompt_messages ::
  "('j, 'f) lane_serde \<Rightarrow> i64 \<Rightarrow> ('j, 'f) prompt_input \<Rightarrow> (string \<times> string) + ('j, 'f) agent_message list" where
  "prompt_messages ld now input =
     (case input of
        PromptText text images \<Rightarrow>
          if blank text \<and> images = [] then Inl (''empty_prompt'', ''prompt text and images cannot both be empty'')
          else Inr [user_text text images now]
      | PromptMessages messages \<Rightarrow>
          if messages = [] then Inl (''empty_prompt'', ''prompt message list cannot be empty'')
          else if (\<exists>m \<in> set messages. agent_message_role m = ''assistant'' \<and> ld_pending_assistant ld m)
          then Inl (''pending_assistant'', ''pending assistant messages cannot be admitted'')
          else Inr messages)"

definition queue_message ::
  "('j, 'f) lane_serde \<Rightarrow> i64 \<Rightarrow> ('j, 'f) queue_input \<Rightarrow> string + ('j, 'f) agent_message" where
  "queue_message ld now input =
     (case input of
        QueueText text images \<Rightarrow>
          if blank text \<and> images = [] then Inl ''queue message cannot be empty''
          else Inr (user_text text images now)
      | QueueMessage message \<Rightarrow>
          if agent_message_role message = ''assistant'' \<and> ld_pending_assistant ld message
          then Inl ''pending assistant messages cannot be queued''
          else Inr message)"

text \<open>\<open>str::replace\<close> of a non-empty pattern: left to right, without overlaps.\<close>

function replace_all :: "string \<Rightarrow> string \<Rightarrow> string \<Rightarrow> string" where
  "replace_all pat rep text =
     (case text of
        [] \<Rightarrow> []
      | c # rest \<Rightarrow>
          if pat \<noteq> [] \<and> take (length pat) text = pat then rep @ replace_all pat rep (drop (length pat) text)
          else c # replace_all pat rep rest)"
  by pat_completeness auto
termination
  by (relation "measure (\<lambda>(pat, rep, text). length text)") auto

declare replace_all.simps [simp del]

fun expand_template :: "nat \<Rightarrow> string list \<Rightarrow> string \<Rightarrow> string" where
  "expand_template index [] text = text"
| "expand_template index (arg # args) text =
     expand_template (Suc index) args
       (replace_all (''{'' @ show_nat (Suc index) @ ''}'') arg
         (replace_all (''{'' @ show_nat index @ ''}'') arg text))"

definition skill_text :: "skill \<Rightarrow> string option \<Rightarrow> string" where
  "skill_text skill additional =
     (case additional of
        Some extra \<Rightarrow> if extra \<noteq> [] then sk_content skill @ [char_of (10::nat), char_of (10::nat)] @ extra
                      else sk_content skill
      | None \<Rightarrow> sk_content skill)"

definition validate_operation_id ::
  "('w, 'm, 'g, 'j, 'f) lane_env \<Rightarrow> operation_id \<Rightarrow> (string \<times> string) + unit" where
  "validate_operation_id env i =
     (if i = [] then Inl (''operation_id'', ''operation id cannot be empty'')
      else case find (\<lambda>c. c = CHR '':'' \<or> rust_control c) i of
          None \<Rightarrow> Inr ()
        | Some c \<Rightarrow> Inl (''operation_id'',
            if c = CHR '':'' then ''operation id '' @ en_debug env i @ '' contains reserved ':' key separator''
            else ''operation id '' @ en_debug env i @ '' contains control character '' @ en_debug env [c]))"

section \<open>Guards\<close>

definition ensure_idle :: "('w, 'm, 'g, 'j) lane_runtime \<Rightarrow> harness_error + unit" where
  "ensure_idle rt =
     (case la_operation (lr_data rt) of
        Some operation \<Rightarrow> Inl (LaneBusy (lr_name rt) (op_id operation) (operation_kind_of (om_intent (op_meta operation)))
                              ''lane already owns an operation'')
      | None \<Rightarrow> Inr ())"

definition requested_or_new ::
  "('w, 'm, 'g, 'j, 'f) lane_env \<Rightarrow> operation_id option \<Rightarrow> ('w, 'm, 'g, 'j, operation_id) lane_op" where
  "requested_or_new env requested = (case requested of Some i \<Rightarrow> op_return i | None \<Rightarrow> new_id env)"

text \<open>Every session-wide slot of an operation, read under the mutation guard.\<close>

definition operation_id_is_used ::
  "('m, 'j, 'f) storage_ops \<Rightarrow> ('w, 'm, 'g, 'j, 'f) lane_env \<Rightarrow> operation_id \<Rightarrow> call_context
    \<Rightarrow> ('w, 'm, 'g, 'j, bool) lane_op" where
  "operation_id_is_used ops env i cx =
     op_bind (guarded_get ops (ld_meta (en_serde env)) (operation_meta i) cx) (\<lambda>meta.
     if meta \<noteq> None then op_return True else
     op_bind (guarded_get ops (ld_op_state (en_serde env)) (operation_state i) cx) (\<lambda>state.
     if state \<noteq> None then op_return True else
     op_bind (guarded_get ops (ld_result (en_serde env)) (operation_result i) cx) (\<lambda>result.
     op_return (result \<noteq> None))))"

definition reuse_message :: "operation_id \<Rightarrow> string" where
  "reuse_message i =
     ''operation id '' @ i @ '' is already used by an active, durable, or settled operation''"

text \<open>\<open>reject\<close> builds the error: an invalid message, or an invalid navigation.\<close>

definition reject_operation_id_reuse ::
  "('m, 'j, 'f) storage_ops \<Rightarrow> ('w, 'm, 'g, 'j, 'f) lane_env \<Rightarrow> (lane_name \<Rightarrow> string \<Rightarrow> string \<Rightarrow> harness_error)
    \<Rightarrow> operation_id \<Rightarrow> call_context \<Rightarrow> ('w, 'm, 'g, 'j, unit) lane_op" where
  "reject_operation_id_reuse ops env reject i cx =
     op_bind (operation_id_is_used ops env i cx) (\<lambda>used.
     if used then op_read (\<lambda>rt. Inl (reject (lr_name rt) ''operation_id_reuse'' (reuse_message i)))
     else op_return ())"

text \<open>The durable lane state, the base of every write to it.\<close>

definition durable_lane_state ::
  "('m, 'j, 'f) storage_ops \<Rightarrow> ('w, 'm, 'g, 'j, 'f) lane_env \<Rightarrow> call_context \<Rightarrow> ('w, 'm, 'g, 'j, lane_state) lane_op" where
  "durable_lane_state ops env cx = with_lane (\<lambda>rt.
     op_bind (guarded_get ops (ld_state (en_serde env)) (lane_state_address (lr_name rt)) cx) (\<lambda>stored.
     op_return (case stored of None \<Rightarrow> lane_state_default | Some sv \<Rightarrow> sv_value sv)))"

definition guarded_pending ::
  "('m, 'j, 'f) storage_ops \<Rightarrow> ('w, 'm, 'g, 'j, 'f) lane_env \<Rightarrow> inbox_item list \<Rightarrow> call_context
    \<Rightarrow> ('w, 'm, 'g, 'j, (inbox_item \<times> ('j, 'f) pending_payload) list) lane_op" where
  "guarded_pending ops env items cx = lane_read (\<lambda>s.
     read_pending (\<lambda>addr. typed_get_value (\<lambda>a. so_get_value ops (bk_storage s) a cx)
                            (cd_from (ld_pending (en_serde env))) addr) items)"

definition undo_pending_admission ::
  "operation_id \<Rightarrow> ('w, 'm, 'g, 'j) lane_runtime \<Rightarrow> ('w, 'm, 'g, 'j) lane_runtime" where
  "undo_pending_admission i rt =
     (case la_operation (lr_data rt) of
        Some current \<Rightarrow> if op_id current = i then rt\<lparr>lr_data := (lr_data rt)\<lparr>la_operation := None\<rparr>\<rparr> else rt
      | None \<Rightarrow> rt)"

definition commit_admission_writes ::
  "('m, 'j, 'f) storage_ops \<Rightarrow> ('j, 'f) session_write list \<Rightarrow> call_context \<Rightarrow> ('w, 'm, 'g, 'j, unit) lane_op" where
  "commit_admission_writes ops writes cx =
     op_bind (faulting_commit ops writes cx) (\<lambda>_.
     op_read (\<lambda>rt. case lr_fault rt of Some fault \<Rightarrow> Inl (sealed_rejection fault) | None \<Rightarrow> Inr ()))"

text \<open>The reservation must still be there when the commit has landed.\<close>

definition require_reservation :: "operation_id \<Rightarrow> ('w, 'm, 'g, 'j, unit) lane_op" where
  "require_reservation i = op_read (\<lambda>rt. case la_operation (lr_data rt) of
       Some current \<Rightarrow> if op_id current = i then Inr () else Inl (closed_error_of rt)
     | None \<Rightarrow> Inl (closed_error_of rt))"

text \<open>The cached state follows the commit only while it is still the base of the commit.\<close>

definition converge_state :: "lane_state \<Rightarrow> lane_state \<Rightarrow> 'j lane_data \<Rightarrow> 'j lane_data" where
  "converge_state base next d = (if la_state d = base then d\<lparr>la_state := next\<rparr> else d)"

definition operation_meta_of ::
  "operation_id \<Rightarrow> lane_name \<Rightarrow> entry_id option \<Rightarrow> i64 \<Rightarrow> operation_intent \<Rightarrow> operation_meta_record" where
  "operation_meta_of i lane source_tip started_at intent =
     \<lparr>om_operation_id = i, om_lane = lane, om_source_tip_id = source_tip, om_started_at = started_at, om_intent = intent\<rparr>"

section \<open>Runs\<close>

definition payload_write ::
  "entry_id \<Rightarrow> entry_id option \<Rightarrow> ('j, 'f) pending_payload \<Rightarrow> ('j, 'f) session_write" where
  "payload_write i parent payload =
     (case payload of
        PendingMessage message \<Rightarrow> entry_write i parent message False
      | PendingCustom custom_type data \<Rightarrow> custom_entry_write i parent custom_type data)"

text \<open>Queued payloads become entries one below the other; each consumes its pending slot.\<close>

fun pending_writes ::
  "entry_id option \<Rightarrow> (inbox_item \<times> ('j, 'f) pending_payload) list \<Rightarrow> ('j, 'f) session_write list" where
  "pending_writes parent [] = []"
| "pending_writes parent ((item, payload) # rest) =
     payload_write (ii_entry_id item) parent payload # delete_value (pending_entry (ii_entry_id item)) #
     pending_writes (Some (ii_entry_id item)) rest"

fun last_parent :: "entry_id option \<Rightarrow> entry_id list \<Rightarrow> entry_id option" where
  "last_parent parent [] = parent"
| "last_parent parent (i # is) = last_parent (Some i) is"

fun is_message_payload :: "('j, 'f) pending_payload \<Rightarrow> bool" where
  "is_message_payload (PendingMessage _) = True"
| "is_message_payload (PendingCustom _ _) = False"

fun message_writes ::
  "('w, 'm, 'g, 'j, 'f) lane_env \<Rightarrow> entry_id option \<Rightarrow> ('j, 'f) agent_message list
    \<Rightarrow> ('w, 'm, 'g, 'j, entry_id list \<times> ('j, 'f) session_write list) lane_op" where
  "message_writes env parent [] = op_return ([], [])"
| "message_writes env parent (message # messages) =
     op_bind (new_id env) (\<lambda>i.
     op_bind (message_writes env (Some i) messages) (\<lambda>(ids, writes).
     op_return (i # ids, entry_write i parent message False # writes)))"

record ('j, 'f) prepared_run =
  pr_writes :: "('j, 'f) session_write list"
  pr_operation :: "'j operation"
  pr_next_state :: lane_state
  pr_base_state :: lane_state
  pr_tip :: "entry_id option"

definition prepare_run ::
  "('m, 'j, 'f) storage_ops \<Rightarrow> ('w, 'm, 'g, 'j, 'f) lane_env \<Rightarrow> 'j runtime_config \<Rightarrow> lane_name \<Rightarrow> operation_id
    \<Rightarrow> ('j, 'f) agent_message list \<Rightarrow> inbox_item list \<Rightarrow> i64 \<Rightarrow> entry_id option \<Rightarrow> call_context
    \<Rightarrow> ('w, 'm, 'g, 'j, ('j, 'f) prepared_run) lane_op" where
  "prepare_run ops env config name i messages selected started_at source_tip cx =
     op_bind (on_session (begin_mutation cx)) (\<lambda>_.
     op_bind (reject_operation_id_reuse ops env InvalidMessage i cx) (\<lambda>_.
     op_bind (durable_lane_state ops env cx) (\<lambda>base.
     let selected = filter (\<lambda>item. \<exists>kept \<in> set (ls_inbox base). ii_entry_id kept = ii_entry_id item) selected in
     op_bind (guarded_pending ops env selected cx) (\<lambda>pending.
     let queued = last_parent source_tip (map (\<lambda>p. ii_entry_id (fst p)) pending);
         queued_ids = map (\<lambda>p. ii_entry_id (fst p)) (filter (\<lambda>p. is_message_payload (snd p)) pending) in
     op_bind (message_writes env queued messages) (\<lambda>(ids, new_writes).
     let parent = last_parent queued ids;
         operation = \<lparr>op_meta = operation_meta_of i name source_tip started_at (IntentRun (queued_ids @ ids)),
                      op_state_of = Starting (operation_scope_of config)\<rparr>;
         next = \<lparr>ls_current_operation_id = Some i, ls_last_operation_id = ls_last_operation_id base,
                 ls_inbox = remaining_inbox (ls_inbox base) selected\<rparr> in
     op_bind (lane_write (operation_meta i) (ld_meta (en_serde env)) (op_meta operation)) (\<lambda>meta_write.
     op_bind (lane_write (operation_state i) (ld_op_state (en_serde env)) (op_state_of operation)) (\<lambda>op_write.
     op_bind (lane_write (lane_state_address name) (ld_state (en_serde env)) next) (\<lambda>state_write.
     op_bind (lane_write (branch_tip name) (tip_codec (ld_serde (en_serde env))) parent) (\<lambda>tip_write.
     op_return \<lparr>pr_writes = pending_writes source_tip pending @ new_writes @
                  [meta_write, op_write, state_write, tip_write],
                pr_operation = operation, pr_next_state = next, pr_base_state = base, pr_tip = parent\<rparr>)))))))))"

definition commit_run ::
  "('m, 'j, 'f) storage_ops \<Rightarrow> ('w, 'm, 'g, 'j, 'f) lane_env \<Rightarrow> 'j runtime_config \<Rightarrow> operation_id
    \<Rightarrow> ('j, 'f) agent_message list \<Rightarrow> inbox_item list \<Rightarrow> i64 \<Rightarrow> call_context \<Rightarrow> ('w, 'm, 'g, 'j, unit) lane_op" where
  "commit_run ops env config i messages selected started_at cx = with_lane (\<lambda>rt.
     let name = lr_name rt; source_tip = la_tip (lr_data rt);
         reserved = \<lparr>op_meta = operation_meta_of i name source_tip started_at (IntentRun []),
                     op_state_of = Starting (operation_scope_of config)\<rparr> in
     op_bind (put_data (\<lambda>d. d\<lparr>la_operation := Some reserved\<rparr>)) (\<lambda>_.
     op_bind (op_on_error (undo_pending_admission i)
       (prepare_run ops env config name i messages selected started_at source_tip cx)) (\<lambda>p.
     op_bind (commit_admission_writes ops (pr_writes p) cx) (\<lambda>_.
     op_bind (require_reservation i) (\<lambda>_.
     put_data (\<lambda>d. (converge_state (pr_base_state p) (pr_next_state p) d)
       \<lparr>la_tip := pr_tip p, la_operation := Some (pr_operation p), la_last_result := None\<rparr>))))))"

definition lane_guard_fault :: "('w, 'm, 'g, 'j, unit) lane_op" where
  "lane_guard_fault = op_read (\<lambda>rt. case lr_fault rt of Some fault \<Rightarrow> Inl (sealed_rejection fault) | None \<Rightarrow> Inr ())"

definition check_operation_id ::
  "('w, 'm, 'g, 'j, 'f) lane_env \<Rightarrow> (lane_name \<Rightarrow> string \<Rightarrow> string \<Rightarrow> harness_error) \<Rightarrow> operation_id
    \<Rightarrow> ('w, 'm, 'g, 'j, unit) lane_op" where
  "check_operation_id env reject i =
     op_read (\<lambda>rt. map_err (\<lambda>(reason, message). reject (lr_name rt) reason message) (validate_operation_id env i))"

definition accept_run ::
  "('m, 'j, 'f) storage_ops \<Rightarrow> ('w, 'm, 'g, 'j, 'f) lane_env \<Rightarrow> operation_id option \<Rightarrow> ('j, 'f) agent_message list
    \<Rightarrow> call_context \<Rightarrow> ('w, 'm, 'g, 'j, operation_admission) lane_op" where
  "accept_run ops env requested messages cx =
     (if messages = [] then op_read (\<lambda>rt. Inl (InvalidMessage (lr_name rt) ''empty_prompt'' ''run prompt cannot be empty''))
      else
        op_bind get_config (\<lambda>config.
        op_bind lane_guard_fault (\<lambda>_.
        op_bind (op_read ensure_idle) (\<lambda>_.
        op_bind (requested_or_new env requested) (\<lambda>i.
        op_bind (check_operation_id env InvalidMessage i) (\<lambda>_.
        op_bind (lane_now env) (\<lambda>started_at.
        op_bind get_data (\<lambda>d.
        op_bind (commit_run ops env config i messages
          (select_inbox (ls_inbox (la_state d)) (rc_steering_mode config) (rc_follow_up_mode config)) started_at cx) (\<lambda>_.
        op_return \<lparr>ad_operation_id = i, ad_operation_kind = KindRun, ad_started_at = started_at\<rparr>)))))))))"

section \<open>Compactions and navigations\<close>

text \<open>
  The common half of \<open>accept_compaction\<close> and \<open>commit_navigation\<close>: the operation is known, it is
  reserved, its records are committed with the lane state, and the cache follows. \<open>extra\<close> are the
  writes that come with it, before (\<open>True\<close>) or after the lane state.
\<close>

definition prepare_operation ::
  "('m, 'j, 'f) storage_ops \<Rightarrow> ('w, 'm, 'g, 'j, 'f) lane_env \<Rightarrow> (lane_name \<Rightarrow> string \<Rightarrow> string \<Rightarrow> harness_error)
    \<Rightarrow> lane_name \<Rightarrow> 'j operation \<Rightarrow> (string \<times> ('j, 'f) structural_preparation) option \<Rightarrow> bool \<Rightarrow> call_context
    \<Rightarrow> ('w, 'm, 'g, 'j, ('j, 'f) session_write list \<times> lane_state \<times> lane_state) lane_op" where
  "prepare_operation ops env reject name operation preparation first cx =
     (let i = op_id operation in
     op_bind (on_session (begin_mutation cx)) (\<lambda>_.
     op_bind (reject_operation_id_reuse ops env reject i cx) (\<lambda>_.
     op_bind (durable_lane_state ops env cx) (\<lambda>base.
     let next = base\<lparr>ls_current_operation_id := Some i\<rparr> in
     op_bind (lane_write (operation_meta i) (ld_meta (en_serde env)) (op_meta operation)) (\<lambda>meta_write.
     op_bind (lane_write (operation_state i) (ld_op_state (en_serde env)) (op_state_of operation)) (\<lambda>op_write.
     op_bind (case preparation of
         None \<Rightarrow> op_return []
       | Some (task, p) \<Rightarrow>
           op_bind (lane_write (operation_preparation i task) (ld_preparation (en_serde env)) p) (\<lambda>w. op_return [w])) (\<lambda>extra.
     op_bind (lane_write (lane_state_address name) (ld_state (en_serde env)) next) (\<lambda>state_write.
     op_return ([meta_write, op_write] @ (if first then extra @ [state_write] else [state_write] @ extra), next, base)))))))))"

definition admit_operation ::
  "('m, 'j, 'f) storage_ops \<Rightarrow> ('w, 'm, 'g, 'j, 'f) lane_env \<Rightarrow> (lane_name \<Rightarrow> string \<Rightarrow> string \<Rightarrow> harness_error)
    \<Rightarrow> 'j operation \<Rightarrow> (string \<times> ('j, 'f) structural_preparation) option \<Rightarrow> bool \<Rightarrow> call_context
    \<Rightarrow> ('w, 'm, 'g, 'j, unit) lane_op" where
  "admit_operation ops env reject operation preparation first cx = with_lane (\<lambda>rt.
     op_bind (put_data (\<lambda>d. d\<lparr>la_operation := Some operation\<rparr>)) (\<lambda>_.
     op_bind (op_on_error (undo_pending_admission (op_id operation))
       (prepare_operation ops env reject (lr_name rt) operation preparation first cx)) (\<lambda>(writes, next, base).
     op_bind (commit_admission_writes ops writes cx) (\<lambda>_.
     op_bind (require_reservation (op_id operation)) (\<lambda>_.
     put_data (\<lambda>d. (converge_state base next d)\<lparr>la_operation := Some operation\<rparr>))))))"

definition summary_task_id :: "operation_id \<Rightarrow> string" where
  "summary_task_id i = i @ '':summary''"

definition accept_compaction ::
  "('m, 'j, 'f) storage_ops \<Rightarrow> ('w, 'm, 'g, 'j, 'f) lane_env \<Rightarrow> operation_id option \<Rightarrow> string option
    \<Rightarrow> call_context \<Rightarrow> ('w, 'm, 'g, 'j, operation_admission) lane_op" where
  "accept_compaction ops env requested custom_instructions cx =
     op_bind get_config (\<lambda>config.
     op_bind (op_read ensure_idle) (\<lambda>_.
     op_bind (lane_branch ops env cx) (\<lambda>branch.
     op_bind (lane_read (branch_entries ops env branch cx)) (\<lambda>entries.
     op_bind (op_read (\<lambda>rt. case en_prepare_compaction env entries (rc_compaction config) of
         Inl (_, text) \<Rightarrow> Inl (NothingToCompact (lr_name rt) (''compaction preparation failed: '' @ text))
       | Inr None \<Rightarrow> Inl (NothingToCompact (lr_name rt) ''lane has no eligible entries to compact'')
       | Inr (Some p) \<Rightarrow> Inr p)) (\<lambda>preparation.
     op_bind (requested_or_new env requested) (\<lambda>i.
     op_bind (check_operation_id env InvalidMessage i) (\<lambda>_.
     op_bind (lane_now env) (\<lambda>started_at.
     op_bind (with_lane (\<lambda>rt.
       admit_operation ops env InvalidMessage
         \<lparr>op_meta = operation_meta_of i (lr_name rt) (la_tip (lr_data rt)) started_at (IntentCompaction custom_instructions),
          op_state_of = SummaryDeciding (operation_scope_of config)
            \<lparr>st_task_id = summary_task_id i, st_reason = Some Manual,
             st_custom_instructions = custom_instructions, st_boundary = Finish\<rparr>\<rparr>
         (Some (summary_task_id i, preparation)) True cx)) (\<lambda>_.
     op_return \<lparr>ad_operation_id = i, ad_operation_kind = KindCompaction, ad_started_at = started_at\<rparr>)))))))))"

definition navigation_branch_entries ::
  "('m, 'j, 'f) storage_ops \<Rightarrow> ('w, 'm, 'g, 'j, 'f) lane_env \<Rightarrow> entry_id option \<Rightarrow> entry_id option \<Rightarrow> call_context
    \<Rightarrow> ('w, 'm, 'g, 'j, ('j, 'f) entry list) lane_op" where
  "navigation_branch_entries ops env old_tip target cx =
     (case old_tip of
        None \<Rightarrow> op_return []
      | Some tip \<Rightarrow>
          op_bind (lane_branch ops env cx) (\<lambda>branch.
          case target of
            Some t \<Rightarrow> op_bind (lane_read (\<lambda>s. en_collect_branch env s branch tip t cx)) (\<lambda>(entries, _). op_return entries)
          | None \<Rightarrow>
              op_bind (lane_read (\<lambda>s. branch_find_entries ops (ld_serde (en_serde env)) s branch
                (Some (branch_scan_default\<lparr>bs_start := Some tip, bs_order := Some Desc\<rparr>)) cx)) (\<lambda>entries.
              op_return (rev entries))))"

definition summary_window :: "u64 \<Rightarrow> u64" where
  "summary_window window = (if window = 0 then 128000 else window)"

definition commit_navigation ::
  "('m, 'j, 'f) storage_ops \<Rightarrow> ('w, 'm, 'g, 'j, 'f) lane_env \<Rightarrow> 'j runtime_config \<Rightarrow> operation_id
    \<Rightarrow> entry_id option \<Rightarrow> navigate_options \<Rightarrow> i64 \<Rightarrow> call_context \<Rightarrow> ('w, 'm, 'g, 'j, unit) lane_op" where
  "commit_navigation ops env config i target options started_at cx = with_lane (\<lambda>rt.
     let summarize = (nv_summarize options = Some True);
         tip = la_tip (lr_data rt);
         meta = operation_meta_of i (lr_name rt) tip started_at
           (IntentNavigation target summarize (nv_label options) (nv_custom_instructions options)) in
     op_bind (if summarize
       then op_bind (navigation_branch_entries ops env tip target cx) (\<lambda>entries.
            op_return (Some (summary_task_id i, en_prepare_branch env entries
              (saturating_sub (summary_window (mo_context_window (rc_model config)))
                 (cs_reserve_tokens (rc_compaction config))))))
       else op_return None) (\<lambda>preparation.
     let state = (if summarize
           then SummaryDeciding (operation_scope_of config)
             \<lparr>st_task_id = summary_task_id i, st_reason = Some Manual,
              st_custom_instructions = nv_custom_instructions options,
              st_boundary = (case target of Some t \<Rightarrow> CommitNavigation t (nv_label options) | None \<Rightarrow> Finish)\<rparr>
           else NavigationReadyToCommit (operation_scope_of config) target (nv_label options)) in
     admit_operation ops env InvalidNavigation \<lparr>op_meta = meta, op_state_of = state\<rparr> preparation False cx))"

definition accept_navigation ::
  "('m, 'j, 'f) storage_ops \<Rightarrow> ('w, 'm, 'g, 'j, 'f) lane_env \<Rightarrow> operation_id option \<Rightarrow> entry_id option
    \<Rightarrow> navigate_options \<Rightarrow> call_context \<Rightarrow> ('w, 'm, 'g, 'j, operation_admission) lane_op" where
  "accept_navigation ops env requested target options cx =
     op_bind (case target of
         None \<Rightarrow> op_return ()
       | Some t \<Rightarrow>
           op_bind (lane_read (\<lambda>s. session_get_entry ops s t cx)) (\<lambda>entry.
           if entry = None then op_fail (HarnessUnknownTarget t ''navigation target does not exist'') else op_return ())) (\<lambda>_.
     op_bind get_config (\<lambda>config.
     op_bind (op_read ensure_idle) (\<lambda>_.
     op_bind (requested_or_new env requested) (\<lambda>i.
     op_bind (check_operation_id env InvalidNavigation i) (\<lambda>_.
     op_bind (lane_now env) (\<lambda>started_at.
     op_bind (commit_navigation ops env config i target options started_at cx) (\<lambda>_.
     op_return \<lparr>ad_operation_id = i, ad_operation_kind = KindNavigation, ad_started_at = started_at\<rparr>)))))))"

section \<open>Requests\<close>

definition accept ::
  "('m, 'j, 'f) storage_ops \<Rightarrow> ('w, 'm, 'g, 'j, 'f) lane_env \<Rightarrow> ('j, 'f) operation_request \<Rightarrow> call_context
    \<Rightarrow> ('w, 'm, 'g, 'j, operation_admission) lane_op" where
  "accept ops env request cx =
     op_bind (op_read lane_ensure_open) (\<lambda>_.
     case request of
       RequestPrompt requested prompt \<Rightarrow>
         op_bind (lane_now env) (\<lambda>now.
         op_bind (op_read (\<lambda>rt. map_err (\<lambda>(reason, message). InvalidMessage (lr_name rt) reason message)
           (prompt_messages (en_serde env) now prompt))) (\<lambda>messages.
         accept_run ops env requested messages cx))
     | RequestSkill requested name additional \<Rightarrow>
         op_bind get_config (\<lambda>config.
         case find (\<lambda>s. sk_name s = name) (rc_skills config) of
           None \<Rightarrow> op_fail (UnknownSkill name (''skill '' @ name @ '' is not configured''))
         | Some skill \<Rightarrow>
             if sk_disable_model_invocation skill
             then op_read (\<lambda>rt. Inl (InvalidMessage (lr_name rt) ''skill_disabled''
                    (''skill '' @ name @ '' does not allow model invocation'')))
             else op_bind (lane_now env) (\<lambda>now.
                  accept_run ops env requested [user_text (skill_text skill additional) [] now] cx))
     | RequestPromptTemplate requested name args \<Rightarrow>
         op_bind get_config (\<lambda>config.
         case find (\<lambda>t. pt_name t = name) (rc_prompt_templates config) of
           None \<Rightarrow> op_fail (UnknownTemplate name (''prompt template '' @ name @ '' is not configured''))
         | Some template \<Rightarrow>
             op_bind (lane_now env) (\<lambda>now.
             accept_run ops env requested [user_text (expand_template 0 args (pt_content template)) [] now] cx))
     | RequestCompaction requested custom_instructions \<Rightarrow> accept_compaction ops env requested custom_instructions cx
     | RequestNavigation requested target options \<Rightarrow> accept_navigation ops env requested target options cx)"

section \<open>The inbox\<close>

text \<open>
  \<open>enqueue\<close> in two halves: the commit under the mutation guard, which chains onto the durable
  lane state, and the convergence of the cache.
\<close>

definition enqueue_commit ::
  "('m, 'j, 'f) storage_ops \<Rightarrow> ('w, 'm, 'g, 'j, 'f) lane_env \<Rightarrow> ('j, 'f) queue_input \<Rightarrow> inbox_item_kind \<Rightarrow> call_context
    \<Rightarrow> ('w, 'm, 'g, 'j, entry_id \<times> lane_state \<times> lane_state) lane_op" where
  "enqueue_commit ops env input kind cx = with_lane (\<lambda>rt.
     op_bind (op_read lane_ensure_open) (\<lambda>_.
     op_bind (lane_now env) (\<lambda>now.
     op_bind (op_read (\<lambda>_. map_err (InvalidMessage (lr_name rt) ''invalid_queue_message'')
       (queue_message (en_serde env) now input))) (\<lambda>message.
     op_bind (new_id env) (\<lambda>i.
     op_bind (lane_write (pending_entry i) (ld_pending (en_serde env)) (PendingMessage message)) (\<lambda>pending_write'.
     op_bind (on_session (begin_mutation cx)) (\<lambda>_.
     op_bind (durable_lane_state ops env cx) (\<lambda>base.
     let next = base\<lparr>ls_inbox := ls_inbox base @ [pending_write i kind]\<rparr> in
     op_bind (lane_write (lane_state_address (lr_name rt)) (ld_state (en_serde env)) next) (\<lambda>state_write.
     op_bind (faulting_commit ops [pending_write', state_write] cx) (\<lambda>_.
     op_return (i, base, next)))))))))))"

definition enqueue_converge :: "lane_state \<Rightarrow> lane_state \<Rightarrow> ('w, 'm, 'g, 'j, unit) lane_op" where
  "enqueue_converge base next = put_data (converge_state base next)"

definition lane_enqueue ::
  "('m, 'j, 'f) storage_ops \<Rightarrow> ('w, 'm, 'g, 'j, 'f) lane_env \<Rightarrow> ('j, 'f) queue_input \<Rightarrow> inbox_item_kind \<Rightarrow> call_context
    \<Rightarrow> ('w, 'm, 'g, 'j, entry_id) lane_op" where
  "lane_enqueue ops env input kind cx =
     op_bind (enqueue_commit ops env input kind cx) (\<lambda>(i, base, next).
     op_bind (enqueue_converge base next) (\<lambda>_. op_return i))"

definition cancel_queued ::
  "('m, 'j, 'f) storage_ops \<Rightarrow> ('w, 'm, 'g, 'j, 'f) lane_env \<Rightarrow> entry_id \<Rightarrow> call_context
    \<Rightarrow> ('w, 'm, 'g, 'j, cancel_queued_kind) lane_op" where
  "cancel_queued ops env i cx = with_lane (\<lambda>rt.
     op_bind (op_read lane_ensure_open) (\<lambda>_.
     op_bind (on_session (begin_mutation cx)) (\<lambda>_.
     op_bind (durable_lane_state ops env cx) (\<lambda>base.
     if \<not> (\<exists>item \<in> set (ls_inbox base). ii_entry_id item = i)
     then op_bind (lane_read (\<lambda>s. session_get_entry ops s i cx)) (\<lambda>entry.
          op_return (if entry \<noteq> None then AlreadyConsumed else NotFound))
     else
       let next = base\<lparr>ls_inbox := filter (\<lambda>item. ii_entry_id item \<noteq> i) (ls_inbox base)\<rparr> in
       op_bind (lane_write (lane_state_address (lr_name rt)) (ld_state (en_serde env)) next) (\<lambda>state_write.
       op_bind (faulting_commit ops [delete_value (pending_entry i), state_write] cx) (\<lambda>_.
       op_bind (put_data (converge_state base next)) (\<lambda>_. op_return Cancelled)))))))"

section \<open>Cancellation\<close>

definition is_drained :: "inbox_item \<Rightarrow> bool" where
  "is_drained item \<longleftrightarrow> ii_kind item = Steer \<or> ii_kind item = FollowUp"

definition drained_messages ::
  "inbox_item_kind \<Rightarrow> (inbox_item \<times> ('j, 'f) pending_payload) list \<Rightarrow> ('j, 'f) agent_message list" where
  "drained_messages kind pending =
     List.map_filter (\<lambda>(item, payload). case payload of
         PendingMessage message \<Rightarrow> if ii_kind item = kind then Some message else None
       | PendingCustom _ _ \<Rightarrow> None) pending"

definition not_newly_requested :: "operation_id \<Rightarrow> ('j, 'f) abort_request_outcome" where
  "not_newly_requested i =
     \<lparr>ab_operation_id = i, ab_newly_requested = False, ab_steer = [], ab_follow_up = []\<rparr>"

definition request_abort ::
  "('m, 'j, 'f) storage_ops \<Rightarrow> ('w, 'm, 'g, 'j, 'f) lane_env \<Rightarrow> operation_id \<Rightarrow> call_context
    \<Rightarrow> ('w, 'm, 'g, 'j, ('j, 'f) abort_request_outcome) lane_op" where
  "request_abort ops env i cx = with_lane (\<lambda>rt.
     op_bind (op_read lane_ensure_open) (\<lambda>_.
     case la_operation (lr_data rt) of
       None \<Rightarrow> op_fail (NoActiveOperation (lr_name rt) ''lane has no active operation'')
     | Some operation \<Rightarrow>
     if op_id operation \<noteq> i
     then op_fail (OperationMismatch (lr_name rt) i (Some (op_id operation))
            (ls_last_operation_id (la_state (lr_data rt))) ''abort request does not name the current operation'')
     else if op_cancelled operation then op_return (not_newly_requested i)
     else
       op_bind (on_session (begin_mutation cx)) (\<lambda>_.
       op_bind (guarded_get ops (ld_op_state (en_serde env)) (operation_state i) cx) (\<lambda>durable.
       if (case durable of None \<Rightarrow> True | Some sv \<Rightarrow> cancel_requested (sc_control (state_scope (sv_value sv))))
       then op_return (not_newly_requested i)
       else
         op_bind (durable_lane_state ops env cx) (\<lambda>base.
         let drained = filter is_drained (ls_inbox base) in
         op_bind (guarded_pending ops env drained cx) (\<lambda>pending.
         op_bind (lane_now env) (\<lambda>now.
         let state = map_scope (\<lambda>scope. scope\<lparr>sc_control := CancelRequested now\<rparr>) (op_state_of operation);
             next = \<lparr>ls_current_operation_id = Some i, ls_last_operation_id = ls_last_operation_id base,
                     ls_inbox = remaining_inbox (ls_inbox base) drained\<rparr> in
         op_bind (lane_write (operation_state i) (ld_op_state (en_serde env)) state) (\<lambda>op_write.
         op_bind (lane_write (lane_state_address (lr_name rt)) (ld_state (en_serde env)) next) (\<lambda>state_write.
         op_bind (faulting_commit ops (map (\<lambda>p. delete_value (pending_entry (ii_entry_id (fst p)))) pending @
           [op_write, state_write]) cx) (\<lambda>_.
         op_bind (put_data (\<lambda>d. let d = converge_state base next d in
             case la_operation d of
               Some current \<Rightarrow> if op_id current = i then d\<lparr>la_operation := Some (operation\<lparr>op_state_of := state\<rparr>)\<rparr> else d
             | None \<Rightarrow> d)) (\<lambda>_.
         op_bind (\<lambda>rt. (Inr (), rt\<lparr>lr_abort := True\<rparr>)) (\<lambda>_.
         op_return \<lparr>ab_operation_id = i, ab_newly_requested = True,
                    ab_steer = drained_messages Steer pending, ab_follow_up = drained_messages FollowUp pending\<rparr>))))))))))))"

section \<open>Appends and usage\<close>

definition lane_append ::
  "('m, 'j, 'f) storage_ops \<Rightarrow> ('w, 'm, 'g, 'j, 'f) lane_env \<Rightarrow> ('j, 'f) pending_payload \<Rightarrow> call_context
    \<Rightarrow> ('w, 'm, 'g, 'j, entry_id) lane_op" where
  "lane_append ops env payload cx = with_lane (\<lambda>rt.
     op_bind (new_id env) (\<lambda>i.
     if la_operation (lr_data rt) \<noteq> None
     then
       op_bind (lane_write (pending_entry i) (ld_pending (en_serde env)) payload) (\<lambda>pending_write'.
       let next = (la_state (lr_data rt))\<lparr>ls_inbox := ls_inbox (la_state (lr_data rt)) @ [pending_write i WriteItem]\<rparr> in
       op_bind (lane_write (lane_state_address (lr_name rt)) (ld_state (en_serde env)) next) (\<lambda>state_write.
       op_bind (lane_commit ops [pending_write', state_write] cx) (\<lambda>_.
       op_bind (put_data (\<lambda>d. d\<lparr>la_state := next\<rparr>)) (\<lambda>_. op_return i))))
     else
       op_bind (lane_write (branch_tip (lr_name rt)) (tip_codec (ld_serde (en_serde env))) (Some i)) (\<lambda>tip_write.
       op_bind (lane_commit ops [payload_write i (la_tip (lr_data rt)) payload, tip_write] cx) (\<lambda>_.
       op_bind (put_data (\<lambda>d. d\<lparr>la_tip := Some i\<rparr>)) (\<lambda>_. op_return i)))))"

definition append_message_impl ::
  "('m, 'j, 'f) storage_ops \<Rightarrow> ('w, 'm, 'g, 'j, 'f) lane_env \<Rightarrow> ('j, 'f) agent_message \<Rightarrow> call_context
    \<Rightarrow> ('w, 'm, 'g, 'j, entry_id) lane_op" where
  "append_message_impl ops env message cx =
     op_bind (op_read lane_ensure_open) (\<lambda>_.
     if agent_message_role message = ''assistant'' \<and> ld_pending_assistant (en_serde env) message
     then op_read (\<lambda>rt. Inl (InvalidMessage (lr_name rt) ''pending_assistant'' ''pending assistant messages cannot be appended''))
     else lane_append ops env (PendingMessage message) cx)"

definition append_custom_impl ::
  "('m, 'j, 'f) storage_ops \<Rightarrow> ('w, 'm, 'g, 'j, 'f) lane_env \<Rightarrow> string \<Rightarrow> 'j option \<Rightarrow> call_context
    \<Rightarrow> ('w, 'm, 'g, 'j, entry_id) lane_op" where
  "append_custom_impl ops env custom_type data cx =
     op_bind (op_read lane_ensure_open) (\<lambda>_.
     if custom_type = []
     then op_read (\<lambda>rt. Inl (InvalidMessage (lr_name rt) ''empty_custom_type'' ''custom type cannot be empty''))
     else lane_append ops env (PendingCustom custom_type data) cx)"

definition record_usage ::
  "('m, 'j, 'f) storage_ops \<Rightarrow> ('w, 'm, 'g, 'j, 'f) lane_env \<Rightarrow> 'f usage \<Rightarrow> entry_id option \<Rightarrow> 'j option \<Rightarrow> call_context
    \<Rightarrow> ('w, 'm, 'g, 'j, usage_id) lane_op" where
  "record_usage ops env usage entry details cx =
     op_bind (op_read lane_ensure_open) (\<lambda>_.
     op_bind (new_id env) (\<lambda>i.
     op_bind (lane_commit ops [WriteUsage \<lparr>nu_id = i, nu_usage = usage, nu_entry_id = entry,
       nu_adjustment = False, nu_details = details\<rparr>] cx) (\<lambda>commit.
     if cr_seqs commit = [] then op_fail (HarnessClosed ''usage commit returned no sequence'') else op_return i)))"

text \<open>\<open>change\<close> is one of the setters for the model, the thinking level or the active tools.\<close>

definition set_lane_configuration ::
  "('m, 'j, 'f) storage_ops \<Rightarrow> ('w, 'm, 'g, 'j, 'f) lane_env \<Rightarrow> (lane_configuration \<Rightarrow> lane_configuration) \<Rightarrow> call_context
    \<Rightarrow> ('w, 'm, 'g, 'j, unit) lane_op" where
  "set_lane_configuration ops env change cx = with_lane (\<lambda>rt.
     op_bind (op_read lane_ensure_open) (\<lambda>_.
     let next = change (la_config (lr_data rt)) in
     case find (\<lambda>name. name \<notin> fst ` set (rc_tools (lr_config rt))) (lc_active_tool_names next) of
       Some name \<Rightarrow> op_fail (InvalidLane (lr_name rt) ''unknown_tool'' (''active tool '' @ name @ '' is not registered''))
     | None \<Rightarrow> (case la_operation (lr_data rt) of
         Some operation \<Rightarrow> op_fail (LaneBusy (lr_name rt) (op_id operation)
           (operation_kind_of (om_intent (op_meta operation))) ''lane configuration cannot change during an operation'')
       | None \<Rightarrow>
           op_bind (lane_write (lane_config (lr_name rt)) (ld_config (en_serde env)) next) (\<lambda>config_write.
           op_bind (lane_commit ops [config_write] cx) (\<lambda>_.
           put_data (\<lambda>d. d\<lparr>la_config := next\<rparr>))))))"

end
