(* ===== verification/Lane_Restore.thy ===== *)
theory Lane_Restore
  imports Lane_Admission
begin

text \<open>
  Restoring the lanes of a session (\<open>harness/runtime/restore.rs\<close>) and creating one
  (\<open>HarnessRuntime::lane\<close> of \<open>harness.rs\<close>).
\<close>

section \<open>Open operations\<close>

definition state_kind :: "operation_intent \<Rightarrow> 'j op_state \<Rightarrow> operation_kind" where
  "state_kind intent state =
     (let summary = (case intent of IntentNavigation _ True _ _ \<Rightarrow> KindNavigation | _ \<Rightarrow> KindCompaction) in
      case state of
        SummaryDeciding _ _ \<Rightarrow> summary
      | SummaryReady _ _ _ \<Rightarrow> summary
      | SummaryEffectPending _ _ _ _ _ \<Rightarrow> summary
      | SummaryRetryWait _ _ _ \<Rightarrow> summary
      | NavigationReadyToCommit _ _ _ \<Rightarrow> KindNavigation
      | _ \<Rightarrow> KindRun)"

fun kind_debug :: "operation_kind \<Rightarrow> string" where
  "kind_debug KindRun = ''Run''"
| "kind_debug KindCompaction = ''Compaction''"
| "kind_debug KindNavigation = ''Navigation''"

definition validate_state_intent :: "operation_intent \<Rightarrow> 'j op_state \<Rightarrow> session_error + unit" where
  "validate_state_intent intent state =
     (if operation_kind_of intent \<noteq> state_kind intent state
      then Inl (Invariant (''operation state does not match its '' @ kind_debug (operation_kind_of intent) @ '' intent''))
      else Inr ())"

text \<open>
  The records the lane points at are gone: either the lane state still names them, which is
  corruption, or it moved on, and the lane is restored from what it says now.
\<close>

definition reconcile_vanished_records ::
  "('m, 'j, 'f) storage_ops \<Rightarrow> ('j, 'f) lane_serde \<Rightarrow> ('m, 'g) backed_session \<Rightarrow> call_context \<Rightarrow> lane_name
    \<Rightarrow> operation_id \<Rightarrow> bool \<Rightarrow> session_error + operation_id option \<times> lane_state \<times> entry_id option" where
  "reconcile_vanished_records ops ld s cx name i meta_missing =
     rbind (lane_get ops (ld_state ld) (lane_state_address name) cx s) (\<lambda>stored.
     let fresh = (case stored of None \<Rightarrow> lane_state_default | Some sv \<Rightarrow> sv_value sv);
         next = ls_current_operation_id fresh;
         fresh = fresh\<lparr>ls_current_operation_id := None\<rparr> in
     if next = Some i
     then Inl (Invariant (''lane '' @ name @ '' references missing operation '' @
            (if meta_missing then ''metadata'' else ''state'')))
     else
       rbind (lane_get ops (tip_codec (ld_serde ld)) (branch_tip name) cx s) (\<lambda>tip.
       Inr (next, fresh, Option.bind tip sv_value)))"

fun read_open_loop ::
  "nat \<Rightarrow> ('m, 'j, 'f) storage_ops \<Rightarrow> ('j, 'f) lane_serde \<Rightarrow> ('m, 'g) backed_session \<Rightarrow> call_context \<Rightarrow> lane_name
    \<Rightarrow> operation_id \<Rightarrow> lane_state \<Rightarrow> entry_id option
    \<Rightarrow> session_error + lane_state \<times> entry_id option \<times> 'j operation option" where
  "read_open_loop 0 ops ld s cx name i state tip =
     Inl (Invariant (''lane '' @ name @ '' operation pointer kept changing during restore''))"
| "read_open_loop (Suc n) ops ld s cx name i state tip =
     rbind (lane_get ops (ld_meta ld) (operation_meta i) cx s) (\<lambda>meta.
     rbind (lane_get ops (ld_op_state ld) (operation_state i) cx s) (\<lambda>op_state.
     case (meta, op_state) of
       (Some m, Some st) \<Rightarrow>
         if om_operation_id (sv_value m) \<noteq> i \<or> om_lane (sv_value m) \<noteq> name
         then Inl (Invariant (''operation '' @ i @ '' does not belong to lane '' @ name))
         else rbind (validate_state_intent (om_intent (sv_value m)) (sv_value st)) (\<lambda>_.
              Inr (state\<lparr>ls_current_operation_id := Some i\<rparr>, tip,
                   Some \<lparr>op_meta = sv_value m, op_state_of = sv_value st\<rparr>))
     | _ \<Rightarrow>
         rbind (reconcile_vanished_records ops ld s cx name i (meta = None)) (\<lambda>(next, state, tip).
         case next of
           None \<Rightarrow> Inr (state, tip, None)
         | Some i' \<Rightarrow> read_open_loop n ops ld s cx name i' state tip)))"

definition read_open_operation ::
  "('m, 'j, 'f) storage_ops \<Rightarrow> ('j, 'f) lane_serde \<Rightarrow> ('m, 'g) backed_session \<Rightarrow> call_context \<Rightarrow> lane_name
    \<Rightarrow> lane_state \<Rightarrow> entry_id option \<Rightarrow> session_error + lane_state \<times> entry_id option \<times> 'j operation option" where
  "read_open_operation ops ld s cx name state tip =
     (case ls_current_operation_id state of
        None \<Rightarrow> Inr (state, tip, None)
      | Some i \<Rightarrow> read_open_loop 3 ops ld s cx name i (state\<lparr>ls_current_operation_id := None\<rparr>) tip)"

section \<open>Lanes\<close>

text \<open>One turn of the loop of \<open>restore_session\<close>; \<open>None\<close> is a branch without lane metadata.\<close>

definition restore_lane ::
  "('m, 'j, 'f) storage_ops \<Rightarrow> ('j, 'f) lane_serde \<Rightarrow> ('m, 'g) backed_session \<Rightarrow> call_context \<Rightarrow> lane_name
    \<Rightarrow> session_error + 'j lane_data option" where
  "restore_lane ops ld s cx name =
     rbind (lane_get ops (ld_config ld) (lane_config name) cx s) (\<lambda>config.
     case config of None \<Rightarrow> Inr None | Some config \<Rightarrow>
     rbind (lane_get ops (ld_state ld) (lane_state_address name) cx s) (\<lambda>state.
     case state of None \<Rightarrow> Inr None | Some state \<Rightarrow>
     rbind (lane_get ops (tip_codec (ld_serde ld)) (branch_tip name) cx s) (\<lambda>tip.
     rbind (read_open_operation ops ld s cx name (sv_value state) (Option.bind tip sv_value)) (\<lambda>(state, tip, operation).
     rbind (case ls_last_operation_id state of
         None \<Rightarrow> Inr None
       | Some settled \<Rightarrow> rbind (lane_get ops (ld_result ld) (operation_result settled) cx s) (\<lambda>r. Inr (map_option sv_value r))) (\<lambda>last_result.
     Inr (Some ((lane_data_new (sv_value config) tip state)\<lparr>la_operation := operation, la_last_result := last_result\<rparr>)))))))"

record open_operation =
  oo_lane :: lane_name
  oo_operation_id :: operation_id
  oo_kind :: operation_kind
  oo_started_at :: i64
  oo_aborting :: bool

definition open_operation_of :: "lane_name \<Rightarrow> 'j operation \<Rightarrow> open_operation" where
  "open_operation_of name operation =
     \<lparr>oo_lane = name, oo_operation_id = op_id operation,
      oo_kind = operation_kind_of (om_intent (op_meta operation)),
      oo_started_at = om_started_at (op_meta operation), oo_aborting = op_cancelled operation\<rparr>"

definition lane_scan_keys ::
  "('m, 'j, 'f) storage_ops \<Rightarrow> ('j, 'a) codec \<Rightarrow> value_address \<Rightarrow> call_context \<Rightarrow> ('m, 'g) backed_session
    \<Rightarrow> session_error + lane_name list" where
  "lane_scan_keys ops codec pre cx s =
     rbind (typed_scan_values (\<lambda>a. session_scan_values_json ops s a cx) (cd_from codec) pre) (\<lambda>values.
     Inr (filter (\<lambda>k. k \<noteq> []) (map (\<lambda>v. va_key (sv_address v)) values)))"

fun restore_lanes ::
  "('m, 'j, 'f) storage_ops \<Rightarrow> ('j, 'f) lane_serde \<Rightarrow> ('m, 'g) backed_session \<Rightarrow> call_context \<Rightarrow> lane_name list
    \<Rightarrow> session_error + (lane_name \<times> 'j lane_data) list \<times> open_operation list" where
  "restore_lanes ops ld s cx [] = Inr ([], [])"
| "restore_lanes ops ld s cx (name # names) =
     rbind (restore_lane ops ld s cx name) (\<lambda>lane.
     rbind (restore_lanes ops ld s cx names) (\<lambda>(lanes, opened).
     case lane of
       None \<Rightarrow> Inr (lanes, opened)
     | Some d \<Rightarrow> Inr ((name, d) # lanes, (case la_operation d of
         None \<Rightarrow> opened | Some operation \<Rightarrow> open_operation_of name operation # opened))))"

text \<open>The names of the three inventories, sorted and without duplicates as a \<open>BTreeSet\<close> has them.\<close>

definition restore_session ::
  "('m, 'j, 'f) storage_ops \<Rightarrow> ('j, 'f) lane_serde \<Rightarrow> ('m, 'g) backed_session \<Rightarrow> call_context
    \<Rightarrow> session_error + (lane_name \<times> 'j lane_data) list \<times> open_operation list" where
  "restore_session ops ld s cx =
     rbind (lane_scan_keys ops (tip_codec (ld_serde ld)) branch_tip_inventory_prefix cx s) (\<lambda>tips.
     rbind (lane_scan_keys ops (ld_config ld) (lane_config []) cx s) (\<lambda>configs.
     rbind (lane_scan_keys ops (ld_state ld) (lane_state_address []) cx s) (\<lambda>states.
     restore_lanes ops ld s cx (sort (remdups (tips @ configs @ states))))))"

section \<open>Creating a lane\<close>

definition ensure_lane_name :: "lane_name \<Rightarrow> harness_error + unit" where
  "ensure_lane_name name =
     (if name = [] \<or> nul \<in> set name
      then Inl (InvalidLane name ''invalid_name'' ''lane name must be non-empty and contain no NUL'')
      else Inr ())"

text \<open>
  The part of \<open>lane\<close> that runs when the registry does not hold the name yet, as a step on the
  session. A refused metadata commit faults the harness; the caller's error is then the stored
  fault.
\<close>

definition lane_create ::
  "('m, 'j, 'f) storage_ops \<Rightarrow> ('j, 'f) lane_serde \<Rightarrow> 'j runtime_config \<Rightarrow> lane_name \<Rightarrow> entry_id option \<Rightarrow> call_context
    \<Rightarrow> (harness_error, ('m, 'g) backed_session, 'j lane_data) eop" where
  "lane_create ops ld config name target cx =
     op_bind (op_read (\<lambda>_. ensure_lane_name name)) (\<lambda>_.
     op_bind (case target of
         None \<Rightarrow> op_return ()
       | Some t \<Rightarrow> op_bind (op_read (\<lambda>s. map_err map_session_error (session_get_entry ops s t cx))) (\<lambda>entry.
           if entry = None then op_fail (HarnessUnknownTarget t ''lane creation target does not exist'') else op_return ())) (\<lambda>_.
     op_bind (\<lambda>s. let (r, s) = create_branch ops (ld_serde ld) name target cx s in (map_err map_session_error r, s)) (\<lambda>_.
     op_bind (\<lambda>s. let (r, s) = begin_mutation cx s in (map_err map_session_error r, s)) (\<lambda>_.
     op_bind (op_read (\<lambda>_. map_err map_session_error (set_json (lane_config name) (ld_config ld) (captured_configuration config)))) (\<lambda>config_write.
     op_bind (op_read (\<lambda>_. map_err map_session_error (set_json (lane_state_address name) (ld_state ld) lane_state_default))) (\<lambda>state_write.
     op_bind (op_read (\<lambda>_. map_err map_session_error (set_json (branch_tip name) (tip_codec (ld_serde ld)) target))) (\<lambda>tip_write.
     op_bind (\<lambda>s. case mutation_commit ops [config_write, state_write, tip_write] cx s of
         (Inr r, s) \<Rightarrow> (Inr r, s)
       | (Inl e, s) \<Rightarrow> (Inl (sealed_rejection \<lparr>hf_message = ''session operation failed: '' @ session_error_text e,
           hf_cause = session_error_text e\<rparr>), s)) (\<lambda>_.
     op_return (lane_data_new (captured_configuration config) target lane_state_default)))))))))"

end
