(* ===== verification/Lane_Contract.thy ===== *)
theory Lane_Contract
  imports Lane_Restore Jsonl_Contract
begin

text \<open>
  A lane and its session agree: what the lane keeps in memory is what it would read back after
  a restart. The agreement is stated over the slots of the backend (\<open>durable_lane\<close>), the rules
  below carry it through the procedures of a lane, and restoring a lane from a session that
  agrees with it gives the same lane.
\<close>

section \<open>Agreement\<close>

definition stored :: "('j, 'a) codec \<Rightarrow> (slot \<rightharpoonup> 'j) \<Rightarrow> value_address \<Rightarrow> 'a \<Rightarrow> bool" where
  "stored c vs a x \<longleftrightarrow> (\<exists>j. vs (va_namespace a, va_key a) = Some j \<and> cd_from c j = Inr x)"

definition durable_operation ::
  "('j, 'f) lane_serde \<Rightarrow> (slot \<rightharpoonup> 'j) \<Rightarrow> lane_name \<Rightarrow> operation_id option \<Rightarrow> 'j operation option \<Rightarrow> bool" where
  "durable_operation ld vs name pointer operation \<longleftrightarrow>
     (case operation of
        None \<Rightarrow> pointer = None
      | Some operation \<Rightarrow>
          pointer = Some (op_id operation) \<and> om_lane (op_meta operation) = name \<and>
          stored (ld_meta ld) vs (operation_meta (op_id operation)) (op_meta operation) \<and>
          stored (ld_op_state ld) vs (operation_state (op_id operation)) (op_state_of operation))"

definition durable_lane :: "('j, 'f) lane_serde \<Rightarrow> (slot \<rightharpoonup> 'j) \<Rightarrow> lane_name \<Rightarrow> 'j lane_data \<Rightarrow> bool" where
  "durable_lane ld vs name d \<longleftrightarrow>
     stored (tip_codec (ld_serde ld)) vs (branch_tip name) (la_tip d) \<and>
     stored (ld_config ld) vs (lane_config name) (la_config d) \<and>
     stored (ld_state ld) vs (lane_state_address name) (la_state d) \<and>
     durable_operation ld vs name (ls_current_operation_id (la_state d)) (la_operation d)"

text \<open>
  The part of a lane the agreement talks about, \<open>val\<close> being the slots a backend holds. A lane
  whose harness has faulted may lag behind, but what is stored still describes a lane.
\<close>

record 'j lane_view =
  v_name :: lane_name
  v_data :: "'j lane_data"
  v_fault :: "harness_fault option"
  v_closed :: bool
  v_slots :: "slot \<rightharpoonup> 'j"

definition view_of :: "('m \<Rightarrow> slot \<rightharpoonup> 'j) \<Rightarrow> ('w, 'm, 'g, 'j) lane_runtime \<Rightarrow> 'j lane_view" where
  "view_of val rt = \<lparr>v_name = lr_name rt, v_data = lr_data rt, v_fault = lr_fault rt,
     v_closed = lr_closed rt, v_slots = val (bk_storage (lr_session rt))\<rparr>"

lemma view_of_sel [simp]:
  "v_name (view_of val rt) = lr_name rt" "v_data (view_of val rt) = lr_data rt"
  "v_fault (view_of val rt) = lr_fault rt" "v_closed (view_of val rt) = lr_closed rt"
  "v_slots (view_of val rt) = val (bk_storage (lr_session rt))"
  by (simp_all add: view_of_def)

section \<open>Slots of a lane\<close>

definition lane_namespaces :: "string set" where
  "lane_namespaces = {''pi.branch.tip'', ''pi.lane.config'', ''pi.lane.state'', ''pi.op.meta'', ''pi.op.state''}"

text \<open>Writes that leave the slots of every lane alone.\<close>

fun foreign_write :: "('j, 'f) session_write \<Rightarrow> bool" where
  "foreign_write (WriteValue (ValueSet ns k v)) \<longleftrightarrow> ns \<notin> lane_namespaces"
| "foreign_write (WriteValue (ValueDelete ns k)) \<longleftrightarrow> ns \<notin> lane_namespaces"
| "foreign_write (WriteEntry e) \<longleftrightarrow> True"
| "foreign_write (WriteUsage r) \<longleftrightarrow> True"
| "foreign_write (WriteList l) \<longleftrightarrow> True"

definition same_lanes :: "(slot \<rightharpoonup> 'j) \<Rightarrow> (slot \<rightharpoonup> 'j) \<Rightarrow> bool" where
  "same_lanes vs vs' \<longleftrightarrow> (\<forall>ns \<in> lane_namespaces. \<forall>k. vs (ns, k) = vs' (ns, k))"

lemma same_lanes_effect:
  "same_lanes vs vs' \<Longrightarrow> same_lanes (value_effect vs w) (value_effect vs' w)"
  by (cases "(vs, w)" rule: value_effect.cases) (auto simp: same_lanes_def)

lemma same_lanes_foreign: "foreign_write w \<Longrightarrow> same_lanes (value_effect vs w) vs"
  by (cases "(vs, w)" rule: value_effect.cases) (auto simp: same_lanes_def)

lemma same_lanes_refl [simp]: "same_lanes vs vs"
  by (simp add: same_lanes_def)

lemma same_lanes_trans: "same_lanes a b \<Longrightarrow> same_lanes b c \<Longrightarrow> same_lanes a c"
  by (simp add: same_lanes_def)

lemma same_lanes_sym: "same_lanes a b \<Longrightarrow> same_lanes b a"
  by (simp add: same_lanes_def)

lemma same_lanes_batch: "same_lanes vs vs' \<Longrightarrow> same_lanes (foldl value_effect vs ws) (foldl value_effect vs' ws)"
  by (induction ws arbitrary: vs vs') (auto intro: same_lanes_effect)

lemma same_lanes_filter:
  "same_lanes (foldl value_effect vs ws) (foldl value_effect vs (filter (\<lambda>w. \<not> foreign_write w) ws))"
proof (induction ws arbitrary: vs)
  case (Cons w ws)
  show ?case
  proof (cases "foreign_write w")
    case True
    then show ?thesis
      using same_lanes_trans [OF same_lanes_batch [OF same_lanes_foreign] Cons.IH] by simp
  next
    case False
    then show ?thesis using Cons.IH by simp
  qed
qed simp

lemma durable_operation_cong:
  "same_lanes vs vs' \<Longrightarrow> durable_operation ld vs name p operation = durable_operation ld vs' name p operation"
  by (auto simp: durable_operation_def stored_def same_lanes_def lane_namespaces_def
      operation_meta_def operation_state_def split: option.splits)

lemma durable_lane_cong: "same_lanes vs vs' \<Longrightarrow> durable_lane ld vs name d = durable_lane ld vs' name d"
  unfolding durable_lane_def
  by (simp add: durable_operation_cong)
    (auto simp: stored_def same_lanes_def lane_namespaces_def branch_tip_def lane_config_def lane_state_address_def)


lemma stored_update [simp]:
  "stored c (vs(s \<mapsto> j)) a x \<longleftrightarrow> (if s = (va_namespace a, va_key a) then cd_from c j = Inr x else stored c vs a x)"
  by (auto simp: stored_def)

lemma stored_delete [simp]:
  "stored c (vs(s := None)) a x \<longleftrightarrow> s \<noteq> (va_namespace a, va_key a) \<and> stored c vs a x"
  by (auto simp: stored_def)

lemma stored_unique: "stored c vs a x \<Longrightarrow> stored c vs a y \<Longrightarrow> x = y"
  by (auto simp: stored_def)

lemma codec_roundtrip: "codec_ok c \<Longrightarrow> cd_to c x = Inr j \<Longrightarrow> cd_from c j = Inr x"
  by (simp add: codec_ok_def)

lemma tip_roundtrip:
  "serde_tip_ok sd \<Longrightarrow> cd_to (tip_codec sd) x = Inr j \<Longrightarrow> cd_from (tip_codec sd) j = Inr x"
  by (simp add: tip_codec_def serde_tip_roundtrip)

text \<open>The addresses of a lane, by namespace and key.\<close>

lemma lane_address_sel [simp]:
  "va_namespace (lane_config n) = ''pi.lane.config''" "va_key (lane_config n) = n"
  "va_namespace (lane_state_address n) = ''pi.lane.state''" "va_key (lane_state_address n) = n"
  "va_namespace (operation_meta i) = ''pi.op.meta''" "va_key (operation_meta i) = i"
  "va_namespace (operation_state i) = ''pi.op.state''" "va_key (operation_state i) = i"
  "va_namespace (operation_result i) = ''pi.result''" "va_key (operation_result i) = i"
  "va_namespace (pending_entry e) = ''pi.pending.entry''"
  "va_namespace (pending_tool_output i e) = ''pi.pending.tool_output''"
  "va_namespace (operation_preparation i t) = ''pi.op.preparation''"
  "va_namespace (operation_tool_args i t idx) = ''pi.op.tool_args''"
  "va_namespace (operation_tool_memo i e t) = ''pi.op.tool_memo''"
  "va_namespace (entry_label e) = ''pi.entry.label''"
  by (simp_all add: lane_config_def lane_state_address_def operation_meta_def operation_state_def
      operation_result_def pending_entry_def pending_tool_output_def operation_preparation_def
      operation_tool_args_def operation_tool_memo_def entry_label_def)

lemma foreign_writes [simp]:
  "foreign_write (entry_write i p msg t)" "foreign_write (custom_entry_write i p ty dat)"
  "foreign_write (payload_write i p pl)" "foreign_write (delete_list l)"
  "foreign_write (delete_value a) \<longleftrightarrow> va_namespace a \<notin> lane_namespaces"
  by (simp_all add: entry_write_def custom_entry_write_def payload_write_def delete_list_def delete_value_def
      split: pending_payload.split)

lemma foreign_pending_writes [simp]: "list_all foreign_write (pending_writes parent pending)"
  by (induction parent pending rule: pending_writes.induct) (simp_all add: lane_namespaces_def)

lemma filter_foreign [simp]: "list_all foreign_write ws \<Longrightarrow> filter (\<lambda>w. \<not> foreign_write w) ws = []"
  by (simp add: list_all_iff filter_empty_conv)

section \<open>Carrying an invariant through a procedure\<close>

text \<open>
  \<open>carries val J v m\<close>: the step \<open>m\<close>, started in a lane whose view is \<open>v\<close>, ends in a lane whose
  view satisfies \<open>J\<close>, however it ends. The rules execute a procedure on views; where it can stop,
  \<open>J\<close> has to hold. \<open>fault_stable\<close>: recording a fault does not break \<open>J\<close>.
\<close>

definition carries ::
  "('m \<Rightarrow> slot \<rightharpoonup> 'j) \<Rightarrow> ('j lane_view \<Rightarrow> bool) \<Rightarrow> 'j lane_view \<Rightarrow> ('w, 'm, 'g, 'j, 'a) lane_op \<Rightarrow> bool" where
  "carries val J v m \<longleftrightarrow> (\<forall>rt. view_of val rt = v \<longrightarrow> J (view_of val (snd (m rt))))"

definition fault_stable :: "('j lane_view \<Rightarrow> bool) \<Rightarrow> bool" where
  "fault_stable J \<longleftrightarrow> (\<forall>v f. J v \<longrightarrow> J (v\<lparr>v_fault := Some f, v_closed := True\<rparr>))"

named_theorems carries_rules \<open>structural rules for invariants of lane procedures\<close>

lemma carriesI: "(\<And>rt. view_of val rt = v \<Longrightarrow> J (view_of val (snd (m rt)))) \<Longrightarrow> carries val J v m"
  by (simp add: carries_def)

lemma carries_silent: "keeps (view_of val) m \<Longrightarrow> J v \<Longrightarrow> carries val J v m"
  by (simp add: carries_def keeps_def)

lemma carries_return [carries_rules]: "J v \<Longrightarrow> carries val J v (op_return a)"
  and carries_fail [carries_rules]: "J v \<Longrightarrow> carries val J v (op_fail e)"
  and carries_read [carries_rules]: "J v \<Longrightarrow> carries val J v (op_read g)"
  by (simp_all add: carries_silent keeps_basic)

lemma carries_bind:
  fixes m :: "('w, 'm, 'g, 'j, 'a) lane_op"
  assumes "keeps (view_of val) m" and "J v" and "\<And>a. carries val J v (f a)"
  shows "carries val J v (op_bind m f)"
proof (rule carriesI)
  fix rt :: "('w, 'm, 'g, 'j) lane_runtime"
  assume v: "view_of val rt = v"
  obtain r rt' where m: "m rt = (r, rt')" by fastforce
  then have "view_of val rt' = v" using assms(1) v by (metis keeps_def snd_conv)
  then show "J (view_of val (snd (op_bind m f rt)))"
    using assms(2,3) m by (cases r) (auto simp: carries_def)
qed

lemma carries_seq:
  fixes m :: "('w, 'm, 'g, 'j, 'a) lane_op"
  assumes "carries val J v m" and "\<And>a v'. J v' \<Longrightarrow> carries val J v' (f a)"
  shows "carries val J v (op_bind m f)"
proof (rule carriesI)
  fix rt :: "('w, 'm, 'g, 'j) lane_runtime"
  assume v: "view_of val rt = v"
  obtain r rt' where m: "m rt = (r, rt')" by fastforce
  then have "J (view_of val rt')" using assms(1) v by (metis carries_def snd_conv)
  then show "J (view_of val (snd (op_bind m f rt)))"
    using assms(2) m by (cases r) (auto simp: carries_def)
qed

lemma carries_with [carries_rules]:
  "(\<And>rt. view_of val rt = v \<Longrightarrow> carries val J v (F rt)) \<Longrightarrow> carries val J v (with_lane F)"
  by (simp add: carries_def with_lane_def)

lemma carries_if [carries_rules]:
  "(c \<Longrightarrow> carries val J v a) \<Longrightarrow> (\<not> c \<Longrightarrow> carries val J v b) \<Longrightarrow> carries val J v (if c then a else b)"
  by simp

lemma carries_option [carries_rules]:
  "(x = None \<Longrightarrow> carries val J v a) \<Longrightarrow> (\<And>y. x = Some y \<Longrightarrow> carries val J v (f y)) \<Longrightarrow>
   carries val J v (case x of None \<Rightarrow> a | Some y \<Rightarrow> f y)"
  by (cases x) simp_all

lemma carries_let [carries_rules]: "carries val J v (f x) \<Longrightarrow> carries val J v (Let x f)"
  by (simp add: Let_def)

lemma carries_prod [carries_rules]:
  "(\<And>a b. p = (a, b) \<Longrightarrow> carries val J v (f a b)) \<Longrightarrow> carries val J v (case p of (a, b) \<Rightarrow> f a b)"
  by (cases p) simp

lemma carries_put:
  "J (v\<lparr>v_data := g (v_data v)\<rparr>) \<Longrightarrow> carries val J v (put_data g)"
  by (auto simp: carries_def put_data_def view_of_def)

lemma carries_put_bind:
  "carries val J (v\<lparr>v_data := g (v_data v)\<rparr>) (f ()) \<Longrightarrow> carries val J v (op_bind (put_data g) f)"
  by (auto simp: carries_def put_data_def view_of_def op_bind_def)

text \<open>Steps that do not touch the view.\<close>

lemma keeps_on_session:
  "keeps (\<lambda>s. val (bk_storage s)) f \<Longrightarrow> keeps (view_of val) (on_session f)"
  by (auto simp: keeps_def on_session_def view_of_def split: prod.split) (metis snd_conv)

lemma keeps_lane [keeps_rules]:
  "keeps (view_of val) (on_session (begin_mutation cx))"
  "keeps (view_of val) (new_id env)" "keeps (view_of val) (lane_now env)"
  "keeps (view_of val) (lane_read g)" "keeps (view_of val) (lane_write a c x)"
  "keeps (view_of val) (guarded_get ops c a cx)" "keeps (view_of val) get_data"
  "keeps (view_of val) get_config" "keeps (view_of val) (guarded_pending ops env items cx)"
  "keeps (view_of val) (lane_branch ops env cx)" "keeps (view_of val) lane_guard_fault"
  "keeps (view_of val) (check_operation_id env reject i)" "keeps (view_of val) (require_reservation i)"
proof -
  show "keeps (view_of val) (on_session (begin_mutation cx))"
    by (rule keeps_on_session) (rule keeps_rules)
  show "keeps (view_of val) (new_id env)"
    unfolding new_id_def
    by (rule keeps_on_session) (auto simp: keeps_def generate_id_def Let_def split: prod.split)
  show "keeps (view_of val) (lane_now env)"
    by (auto simp: keeps_def lane_now_def view_of_def split: prod.split)
  show "keeps (view_of val) (lane_branch ops env cx)"
    by (auto simp: keeps_def lane_branch_def split: sum.split option.split)
qed (simp_all add: keeps_basic lane_read_def lane_write_def guarded_get_def mutation_get_value_def
  get_data_def get_config_def guarded_pending_def lane_guard_fault_def check_operation_id_def
  require_reservation_def keeps_on_session)

lemma keeps_with [keeps_rules]: "(\<And>rt. keeps g (F rt)) \<Longrightarrow> keeps g (with_lane F)"
  by (simp add: keeps_def with_lane_def)

lemma keeps_durable_state [keeps_rules]: "keeps (view_of val) (durable_lane_state ops env cx)"
  unfolding durable_lane_state_def by (rule keeps_rules)+

lemma keeps_id_used [keeps_rules]: "keeps (view_of val) (operation_id_is_used ops env i cx)"
  unfolding operation_id_is_used_def by (rule keeps_rules)+

lemma keeps_reject [keeps_rules]: "keeps (view_of val) (reject_operation_id_reuse ops env reject i cx)"
  unfolding reject_operation_id_reuse_def by (rule keeps_rules)+

lemma keeps_case_prod [keeps_rules]:
  "(\<And>a b. keeps g (f a b)) \<Longrightarrow> keeps g (case p of (a, b) \<Rightarrow> f a b)"
  by (cases p) simp

lemma keeps_let [keeps_rules]: "keeps g (f x) \<Longrightarrow> keeps g (Let x f)"
  by (simp add: Let_def)

lemma keeps_message_writes [keeps_rules]: "keeps (view_of val) (message_writes env parent messages)"
  by (induction env parent messages rule: message_writes.induct)
    (unfold message_writes.simps, (rule keeps_rules | assumption)+)

lemma keeps_requested [keeps_rules]: "keeps (view_of val) (requested_or_new env requested)"
  unfolding requested_or_new_def by (rule keeps_rules)+

lemma keeps_navigation_entries [keeps_rules]:
  "keeps (view_of val) (navigation_branch_entries ops env old_tip target cx)"
  unfolding navigation_branch_entries_def by (rule keeps_rules)+

text \<open>A write that was encoded.\<close>

lemma carries_write [carries_rules]:
  assumes "J v" and "\<And>j. cd_to c x = Inr j \<Longrightarrow>
    carries val J v (f (WriteValue (ValueSet (va_namespace a) (va_key a) j)))"
  shows "carries val J v (op_bind (lane_write a c x) f)"
proof (cases "cd_to c x")
  case (Inl e)
  then show ?thesis
    using assms(1) by (simp add: carries_def op_bind_def lane_write_def lane_read_def set_json_def set_value_def)
next
  case (Inr j)
  then show ?thesis
    using assms by (simp add: carries_def op_bind_def lane_write_def lane_read_def set_json_def set_value_def)
qed


section \<open>Commits\<close>

lemma op_bind_assoc: "op_bind (op_bind m f) k = op_bind m (\<lambda>a. op_bind (f a) k)"
  by (rule ext) (simp add: op_bind_def split: prod.split sum.split)

lemma view_owner_fault:
  "view_of val (owner_fault fault rt) = view_of val rt \<and> lr_fault rt \<noteq> None \<or>
   (\<exists>f. view_of val (owner_fault fault rt) = (view_of val rt)\<lparr>v_fault := Some f, v_closed := True\<rparr>)"
  by (cases "lr_fault rt") (auto simp: owner_fault_def view_of_def)

context storage_contract
begin

lemma faulting_commit_ok:
  assumes "faulting_commit ops ws cx rt = (Inr c, rt')"
  shows "view_of val rt' = (view_of val rt)\<lparr>v_slots := foldl value_effect (v_slots (view_of val rt)) ws\<rparr>"
    and "lr_config rt' = lr_config rt" and "lr_closed rt' = lr_closed rt"
proof -
  obtain s where s: "mutation_commit ops ws cx (lr_session rt) = (Inr c, s)" "rt' = rt\<lparr>lr_session := s\<rparr>"
    using assms by (auto simp: faulting_commit_def commit_fault_def Let_def split: prod.splits sum.splits)
  obtain m where m: "so_commit ops ws (without_cancellation cx) (bk_storage (lr_session rt)) = (Inr c, m)"
    "s = (lr_session rt)\<lparr>bk_storage := m\<rparr>"
    using mutation_commit_Inr [OF s(1)] by auto
  show "view_of val rt' = (view_of val rt)\<lparr>v_slots := foldl value_effect (v_slots (view_of val rt)) ws\<rparr>"
    using commit_ok [OF m(1)] s(2) m(2) by (simp add: view_of_def)
  show "lr_config rt' = lr_config rt" "lr_closed rt' = lr_closed rt"
    using s(2) by simp_all
qed

lemma faulting_commit_refused:
  assumes "faulting_commit ops ws cx rt = (Inl e, rt')"
  shows "view_of val rt' = view_of val rt \<and> v_fault (view_of val rt) \<noteq> None \<or>
    (\<exists>f. view_of val rt' = (view_of val rt)\<lparr>v_fault := Some f, v_closed := True\<rparr>)"
proof -
  obtain s err where s: "mutation_commit ops ws cx (lr_session rt) = (Inl err, s)"
    "\<exists>fault. rt' = owner_fault fault (rt\<lparr>lr_session := s\<rparr>)"
    using assms by (auto simp: faulting_commit_def commit_fault_def Let_def split: prod.splits sum.splits)
  have "view_of val (rt\<lparr>lr_session := s\<rparr>) = view_of val rt"
    using core_obs [OF mutation_commit_Inl [OF s(1)]] by (simp add: view_of_def)
  then show ?thesis
    using s(2) view_owner_fault [of val _ "rt\<lparr>lr_session := s\<rparr>"] by auto
qed

lemma carries_faulting_commit:
  assumes "v_fault v \<noteq> None \<Longrightarrow> J v" and "\<And>f. J (v\<lparr>v_fault := Some f, v_closed := True\<rparr>)"
    and "\<And>c. carries val J (v\<lparr>v_slots := foldl value_effect (v_slots v) ws\<rparr>) (k c)"
  shows "carries val J v (op_bind (faulting_commit ops ws cx) k :: ('w, 'm, 'g, 'j, 'a) lane_op)"
proof (rule carriesI)
  fix rt :: "('w, 'm, 'g, 'j) lane_runtime"
  assume v: "view_of val rt = v"
  show "J (view_of val (snd (op_bind (faulting_commit ops ws cx) k rt)))"
  proof (cases "faulting_commit ops ws cx rt")
    case (Pair r rt')
    show ?thesis
    proof (cases r)
      case (Inl e)
      have "J (view_of val rt')"
        using faulting_commit_refused [OF Pair [unfolded Inl]] assms(1,2) unfolding v by auto
      with Pair Inl show ?thesis by simp
    next
      case (Inr c)
      with Pair have "view_of val rt' = v\<lparr>v_slots := foldl value_effect (v_slots v) ws\<rparr>"
        using faulting_commit_ok v by blast
      with assms(3) Pair Inr show ?thesis by (simp add: carries_def)
    qed
  qed
qed

lemma carries_commit:
  assumes "J v" and "\<And>f. J (v\<lparr>v_fault := Some f, v_closed := True\<rparr>)"
    and "\<And>c. carries val J (v\<lparr>v_slots := foldl value_effect (v_slots v) ws\<rparr>) (k c)"
  shows "carries val J v (op_bind (lane_commit ops ws cx) k :: ('w, 'm, 'g, 'j, 'a) lane_op)"
  unfolding lane_commit_def op_bind_assoc
  by (rule carries_bind) (rule keeps_rules assms carries_faulting_commit)+

text \<open>A commit followed by the update of the cache it describes.\<close>

lemma carries_commit_put [carries_rules]:
  assumes "J v" and "fault_stable J"
    and "J (v\<lparr>v_slots := foldl value_effect (v_slots v) ws, v_data := g (v_data v)\<rparr>)"
    and "\<And>v'. J v' \<Longrightarrow> carries val J v' (k ())"
  shows "carries val J v (op_bind (lane_commit ops ws cx) (\<lambda>_. op_bind (put_data g) k) :: ('w, 'm, 'g, 'j, 'a) lane_op)"
  using assms by (intro carries_commit carries_put_bind) (auto simp: fault_stable_def)

lemma carries_faulting_put [carries_rules]:
  assumes "J v" and "fault_stable J"
    and "J (v\<lparr>v_slots := foldl value_effect (v_slots v) ws, v_data := g (v_data v)\<rparr>)"
    and "\<And>v'. J v' \<Longrightarrow> carries val J v' (k ())"
  shows "carries val J v (op_bind (faulting_commit ops ws cx) (\<lambda>_. op_bind (put_data g) k) :: ('w, 'm, 'g, 'j, 'a) lane_op)"
  using assms by (intro carries_faulting_commit carries_put_bind) (auto simp: fault_stable_def)

lemma carries_commit_put_last [carries_rules]:
  assumes "J v" and "fault_stable J"
    and "J (v\<lparr>v_slots := foldl value_effect (v_slots v) ws, v_data := g (v_data v)\<rparr>)"
  shows "carries val J v (op_bind (lane_commit ops ws cx) (\<lambda>_. put_data g) :: ('w, 'm, 'g, 'j, unit) lane_op)"
  using assms by (intro carries_commit carries_put) (auto simp: fault_stable_def)

text \<open>What a guarded read returns is what is stored; the guard is only given to a live call.\<close>

lemma carries_begin [carries_rules]:
  assumes "J v" and "\<not> cx_cancelled cx \<Longrightarrow> carries val J v (f ())"
  shows "carries val J v (op_bind (on_session (begin_mutation cx)) f)"
proof (cases "cx_cancelled cx")
  case True
  then show ?thesis
    using assms(1) by (simp add: carries_def on_session_def op_bind_def begin_mutation_def session_guard_def
        check_context_def view_of_def)
next
  case False
  then show ?thesis
    using assms by (intro carries_bind keeps_lane(1)) auto
qed

lemma guarded_get_stored:
  assumes "guarded_get ops c a cx rt = (Inr got, rt')" and "\<not> cx_cancelled cx"
  shows "case got of
      None \<Rightarrow> v_slots (view_of val rt) (va_namespace a, va_key a) = None
    | Some sv \<Rightarrow> stored c (v_slots (view_of val rt)) a (sv_value sv)"
proof -
  have got: "typed_get_value (\<lambda>a. so_get_value ops (bk_storage (lr_session rt)) a cx) (cd_from c) a = Inr got"
    using assms(1) by (auto simp: guarded_get_def on_session_def mutation_get_value_def map_err_eq_Inr_iff)
  note live = typed_get_value_Inr_live [OF got]
  show ?thesis
  proof (cases got)
    case None
    then show ?thesis
      using got typed_get_value_absent [OF live assms(2), of "cd_from c" a] by simp
  next
    case (Some sv)
    then show ?thesis
      using got typed_get_value_live(2) [OF live assms(2)] by (auto simp: stored_def)
  qed
qed

lemma carries_get:
  fixes f :: "'b stored_value option \<Rightarrow> ('w, 'm, 'g, 'j, 'a) lane_op"
  assumes "J v" and nc: "\<not> cx_cancelled cx"
    and k: "\<And>got. (case got of None \<Rightarrow> v_slots v (va_namespace a, va_key a) = None
                | Some sv \<Rightarrow> stored c (v_slots v) a (sv_value sv)) \<Longrightarrow> carries val J v (f got)"
  shows "carries val J v (op_bind (guarded_get ops c a cx) f)"
proof (rule carriesI)
  fix rt :: "('w, 'm, 'g, 'j) lane_runtime"
  assume v: "view_of val rt = v"
  show "J (view_of val (snd (op_bind (guarded_get ops c a cx) f rt)))"
  proof (cases "guarded_get ops c a cx rt")
    case (Pair r rt')
    then have v': "view_of val rt' = v"
      using keeps_lane(6) [of val ops c a cx] v by (metis keeps_def snd_conv)
    show ?thesis
    proof (cases r)
      case (Inl e)
      with Pair v' assms(1) show ?thesis by simp
    next
      case (Inr got)
      have "carries val J v (f got)"
        using guarded_get_stored [of c a cx rt got rt'] Pair Inr nc unfolding v by (intro k) simp
      then show ?thesis
        using Pair Inr v' by (simp add: carries_def)
    qed
  qed
qed

lemma carries_with_bind [carries_rules]:
  "(\<And>rt. view_of val rt = v \<Longrightarrow> carries val J v (op_bind (F rt) f)) \<Longrightarrow> carries val J v (op_bind (with_lane F) f)"
  by (simp add: carries_def with_lane_def op_bind_def)

lemma op_bind_return' [simp]: "op_bind (op_return x) f = f x"
  by (rule ext) simp

lemma carries_durable_state:
  fixes f :: "lane_state \<Rightarrow> ('w, 'm, 'g, 'j, 'a) lane_op"
  assumes "J v" and "\<not> cx_cancelled cx"
    and st: "stored (ld_state (en_serde env)) (v_slots v) (lane_state_address (v_name v)) state"
    and k: "carries val J v (f state)"
  shows "carries val J v (op_bind (durable_lane_state ops env cx) f)"
  unfolding durable_lane_state_def
proof (rule carries_with_bind, unfold op_bind_assoc op_bind_return', rule carries_get)
  fix rt :: "('w, 'm, 'g, 'j) lane_runtime" and got
  assume v: "view_of val rt = v"
    and got: "case got of
        None \<Rightarrow> v_slots v (va_namespace (lane_state_address (lr_name rt)), va_key (lane_state_address (lr_name rt))) = None
      | Some sv \<Rightarrow> stored (ld_state (en_serde env)) (v_slots v) (lane_state_address (lr_name rt)) (sv_value sv)"
  have "lr_name rt = v_name v" using v by auto
  with got st have "(case got of None \<Rightarrow> lane_state_default | Some sv \<Rightarrow> sv_value sv) = state"
    by (auto simp: stored_def split: option.splits)
  with k show "carries val J v (f (case got of None \<Rightarrow> lane_state_default | Some sv \<Rightarrow> sv_value sv))"
    by simp
qed (use assms in auto)

end

section \<open>What a commit does to the agreement\<close>

text \<open>
  What is stored describes the lane as it is cached, and the open operation is in a state its
  intent allows, which \<open>validate_state_intent\<close> asks for when a lane is restored.
\<close>

definition resumable :: "'j lane_data \<Rightarrow> bool" where
  "resumable d \<longleftrightarrow> (case la_operation d of
     None \<Rightarrow> True
   | Some operation \<Rightarrow> validate_state_intent (om_intent (op_meta operation)) (op_state_of operation) = Inr ())"

text \<open>\<open>others\<close>: the lanes \<open>rest\<close> of the same session are stored as well; a call leaves them alone.\<close>

type_synonym 'j lanes = "(lane_name \<times> 'j lane_data) set"

definition others :: "('j, 'f) lane_serde \<Rightarrow> 'j lanes \<Rightarrow> lane_name \<Rightarrow> (slot \<rightharpoonup> 'j) \<Rightarrow> bool" where
  "others ld rest name vs \<longleftrightarrow> (\<forall>(n, d) \<in> rest. n \<noteq> name \<and> durable_lane ld vs n d)"

definition coherent :: "('j, 'f) lane_serde \<Rightarrow> 'j lanes \<Rightarrow> 'j lane_view \<Rightarrow> bool" where
  "coherent ld rest v \<longleftrightarrow>
     durable_lane ld (v_slots v) (v_name v) (v_data v) \<and> others ld rest (v_name v) (v_slots v) \<and>
     resumable (v_data v) \<and> (v_fault v \<noteq> None \<longrightarrow> v_closed v)"

text \<open>
  The invariant of a lane between calls. After a fault the cache may lag behind the session, but
  the lane is closed, and what is stored still describes a lane.
\<close>

definition lane_agrees :: "('j, 'f) lane_serde \<Rightarrow> 'j lanes \<Rightarrow> 'j lane_view \<Rightarrow> bool" where
  "lane_agrees ld rest v \<longleftrightarrow>
     (\<exists>d. coherent ld rest (v\<lparr>v_data := d\<rparr>)) \<and> (v_fault v = None \<longrightarrow> coherent ld rest v)"

lemma coherent_stable [simp]: "fault_stable (coherent ld rest)"
  by (simp add: fault_stable_def coherent_def)

lemma coherent_agrees: "coherent ld rest v \<Longrightarrow> lane_agrees ld rest v"
  unfolding lane_agrees_def by (metis lane_view.surjective lane_view.update_convs(2))

lemma agrees_stable [simp]: "fault_stable (lane_agrees ld rest)"
  by (auto simp: fault_stable_def lane_agrees_def coherent_def)

lemma resumable_simps [simp]:
  "resumable (d\<lparr>la_tip := t\<rparr>) = resumable d" "resumable (d\<lparr>la_config := c\<rparr>) = resumable d"
  "resumable (d\<lparr>la_state := s\<rparr>) = resumable d" "resumable (d\<lparr>la_last_result := r\<rparr>) = resumable d"
  by (simp_all add: resumable_def)

lemma state_kind_map_scope [simp]: "state_kind intent (map_scope f state) = state_kind intent state"
  by (cases state) (simp_all add: state_kind_def)

lemma validate_map_scope [simp]:
  "validate_state_intent intent (map_scope f state) = validate_state_intent intent state"
  by (simp add: validate_state_intent_def)

lemmas lane_decode = codec_roundtrip tip_roundtrip

lemmas coherent_defs = coherent_def durable_lane_def durable_operation_def

text \<open>Only the writes to lane slots matter.\<close>

lemma coherent_batch:
  assumes "filter (\<lambda>w. \<not> foreign_write w) ws = ws'"
    and "coherent ld rest (v\<lparr>v_slots := foldl value_effect (v_slots v) ws', v_data := d\<rparr>)"
  shows "coherent ld rest (v\<lparr>v_slots := foldl value_effect (v_slots v) ws, v_data := d\<rparr>)"
  using assms(2) durable_lane_cong [OF same_lanes_filter [of "v_slots v" ws], of ld]
  unfolding coherent_def others_def assms(1) by simp

lemma others_slot:
  assumes "others ld rest name vs"
  shows "others ld rest name (vs((''pi.branch.tip'', name) := x))"
    and "others ld rest name (vs((''pi.lane.config'', name) := x))"
    and "others ld rest name (vs((''pi.lane.state'', name) := x))"
  using assms
  by (cases x; fastforce simp: others_def durable_lane_def durable_operation_def split: option.splits)+

text \<open>The records of an operation belong to one lane, by their own account.\<close>

lemma others_apart:
  assumes "others ld rest name vs"
    and "\<And>n d operation. (n, d) \<in> rest \<Longrightarrow> la_operation d = Some operation \<Longrightarrow> op_id operation \<noteq> i"
  shows "others ld rest name (vs((''pi.op.meta'', i) := x))" and "others ld rest name (vs((''pi.op.state'', i) := x))"
  using assms by (cases x; fastforce simp: others_def durable_lane_def durable_operation_def split: option.splits)+

lemma others_operation:
  assumes "others ld rest name vs"
    and "stored (ld_meta ld) vs (operation_meta i) m \<and> om_lane m = name \<or> vs (''pi.op.meta'', i) = None"
  shows "others ld rest name (vs((''pi.op.meta'', i) := x))" and "others ld rest name (vs((''pi.op.state'', i) := x))"
    and "others ld rest name (vs((''pi.op.meta'', i) := x, (''pi.op.state'', i) := y))"
proof -
  have apart: "op_id operation \<noteq> i" if "(n, d) \<in> rest" "la_operation d = Some operation" for n d operation
    using assms that by (auto simp: others_def durable_lane_def durable_operation_def stored_def)
  show meta: "others ld rest name (vs((''pi.op.meta'', i) := x))"
    by (rule others_apart(1) [OF assms(1) apart])
  show "others ld rest name (vs((''pi.op.state'', i) := x))"
    by (rule others_apart(2) [OF assms(1) apart])
  show "others ld rest name (vs((''pi.op.meta'', i) := x, (''pi.op.state'', i) := y))"
    by (rule others_apart(2) [OF meta apart])
qed

lemma others_fresh:
  assumes "others ld rest name vs" and "vs (''pi.op.meta'', i) = None"
  shows "others ld rest name (vs((''pi.op.meta'', i) := x, (''pi.op.state'', i) := y))"
  using others_operation(3) [OF assms(1) disjI2, OF assms(2)] .

lemma lane_namespaces_iff [simp]:
  "''pi.branch.tip'' \<in> lane_namespaces" "''pi.lane.config'' \<in> lane_namespaces"
  "''pi.lane.state'' \<in> lane_namespaces" "''pi.op.meta'' \<in> lane_namespaces" "''pi.op.state'' \<in> lane_namespaces"
  "''pi.result'' \<notin> lane_namespaces" "''pi.pending.entry'' \<notin> lane_namespaces"
  "''pi.pending.tool_output'' \<notin> lane_namespaces" "''pi.op.preparation'' \<notin> lane_namespaces"
  "''pi.op.tool_args'' \<notin> lane_namespaces" "''pi.op.tool_memo'' \<notin> lane_namespaces"
  "''pi.entry.label'' \<notin> lane_namespaces"
  by (simp_all add: lane_namespaces_def)

lemma lane_roundtrip:
  assumes "lane_serde_ok ld"
  shows "cd_to (ld_state ld) st = Inr j \<Longrightarrow> cd_from (ld_state ld) j = Inr st"
    and "cd_to (ld_config ld) co = Inr j \<Longrightarrow> cd_from (ld_config ld) j = Inr co"
    and "cd_to (ld_meta ld) me = Inr j \<Longrightarrow> cd_from (ld_meta ld) j = Inr me"
    and "cd_to (ld_op_state ld) os = Inr j \<Longrightarrow> cd_from (ld_op_state ld) j = Inr os"
    and "cd_to (ld_result ld) re = Inr j \<Longrightarrow> cd_from (ld_result ld) j = Inr re"
    and "cd_to (tip_codec (ld_serde ld)) t = Inr j \<Longrightarrow> cd_from (tip_codec (ld_serde ld)) j = Inr t"
  using assms by (auto simp: lane_serde_ok_def codec_roundtrip tip_roundtrip)

lemma coherent_state:
  "coherent ld rest v \<Longrightarrow> stored (ld_state ld) (v_slots v) (lane_state_address (v_name v)) (la_state (v_data v))"
  by (simp add: coherent_defs)

lemma foreign_deletes [simp]:
  "list_all foreign_write (map (\<lambda>p. delete_value (pending_entry (f p))) ps :: ('j, 'f) session_write list)"
  by (simp add: list_all_iff)

lemma keeps_abort_flag [keeps_rules]: "keeps (view_of val) (\<lambda>rt. (Inr (), rt\<lparr>lr_abort := b\<rparr>))"
  by (simp add: keeps_def view_of_def)

context storage_contract
begin

lemma lane_enqueue_carries:
  fixes env :: "('w, 'm, 'g, 'j, 'f) lane_env"
  assumes ok: "lane_serde_ok (en_serde env)" and J: "coherent (en_serde env) rest v"
  shows "carries val (coherent (en_serde env) rest) v (lane_enqueue ops env input kind cx)"
proof -
  note st = coherent_state [OF J]
  show ?thesis
    unfolding lane_enqueue_def enqueue_commit_def enqueue_converge_def
    apply (rule carries_with_bind)
    apply (unfold op_bind_assoc Let_def op_bind_return' prod.case)
    by (rule J carries_rules carries_durable_state [OF _ _ st] coherent_stable | assumption | (rule carries_bind, rule keeps_rules, (rule J | assumption))
        | (rule coherent_batch, simp, use J in \<open>clarsimp simp: coherent_def converge_state_def\<close>,
           (auto simp: durable_lane_def durable_operation_def resumable_def intro: lane_roundtrip [OF ok] others_slot others_operation split: option.splits)[1]))+
qed

lemma cancel_queued_carries:
  fixes env :: "('w, 'm, 'g, 'j, 'f) lane_env"
  assumes ok: "lane_serde_ok (en_serde env)" and J: "coherent (en_serde env) rest v"
  shows "carries val (coherent (en_serde env) rest) v (cancel_queued ops env i cx)"
proof -
  note st = coherent_state [OF J]
  show ?thesis
    unfolding cancel_queued_def
    apply (rule carries_with)
    apply (unfold op_bind_assoc Let_def op_bind_return' prod.case)
    by (rule J carries_rules carries_durable_state [OF _ _ st] coherent_stable | assumption | (rule carries_bind, rule keeps_rules, (rule J | assumption))
        | (rule coherent_batch, simp, use J in \<open>clarsimp simp: coherent_def converge_state_def\<close>,
           (auto simp: durable_lane_def durable_operation_def resumable_def intro: lane_roundtrip [OF ok] others_slot others_operation split: option.splits)[1]))+
qed

lemma lane_append_carries:
  fixes env :: "('w, 'm, 'g, 'j, 'f) lane_env"
  assumes ok: "lane_serde_ok (en_serde env)" and J: "coherent (en_serde env) rest v"
  shows "carries val (coherent (en_serde env) rest) v (lane_append ops env payload cx)"
  unfolding lane_append_def
  apply (rule carries_with)
  apply (unfold op_bind_assoc Let_def op_bind_return' prod.case)
  by (rule J carries_rules coherent_stable | assumption | (rule carries_bind, rule keeps_rules, (rule J | assumption))
      | (rule coherent_batch, simp, use J in \<open>clarsimp simp: coherent_def converge_state_def\<close>,
         (auto simp: durable_lane_def durable_operation_def resumable_def intro: lane_roundtrip [OF ok] others_slot others_operation split: option.splits)[1]))+

lemma set_lane_configuration_carries:
  fixes env :: "('w, 'm, 'g, 'j, 'f) lane_env"
  assumes ok: "lane_serde_ok (en_serde env)" and J: "coherent (en_serde env) rest v"
  shows "carries val (coherent (en_serde env) rest) v (set_lane_configuration ops env change cx)"
  unfolding set_lane_configuration_def
  apply (rule carries_with)
  apply (unfold op_bind_assoc Let_def op_bind_return' prod.case)
  by (rule J carries_rules coherent_stable | assumption | (rule carries_bind, rule keeps_rules, (rule J | assumption))
      | (rule coherent_batch, simp, use J in \<open>clarsimp simp: coherent_def converge_state_def\<close>,
         (auto simp: durable_lane_def durable_operation_def resumable_def intro: lane_roundtrip [OF ok] others_slot others_operation split: option.splits)[1]))+

lemma request_abort_carries:
  fixes env :: "('w, 'm, 'g, 'j, 'f) lane_env"
  assumes ok: "lane_serde_ok (en_serde env)" and J: "coherent (en_serde env) rest v"
  shows "carries val (coherent (en_serde env) rest) v (request_abort ops env i cx)"
proof -
  note st = coherent_state [OF J]
  show ?thesis
    unfolding request_abort_def
    apply (rule carries_with)
    apply (unfold op_bind_assoc Let_def op_bind_return' prod.case)
    by (rule J carries_rules carries_durable_state [OF _ _ st] coherent_stable | assumption | (rule carries_bind, rule keeps_rules, (rule J | assumption))
        | (rule coherent_batch, simp, use J in \<open>clarsimp simp: coherent_def converge_state_def\<close>,
           (auto simp: durable_lane_def durable_operation_def resumable_def intro: lane_roundtrip [OF ok] others_slot others_operation split: option.splits)[1]))+
qed

lemma append_message_carries:
  fixes env :: "('w, 'm, 'g, 'j, 'f) lane_env"
  assumes ok: "lane_serde_ok (en_serde env)" and J: "coherent (en_serde env) rest v"
  shows "carries val (coherent (en_serde env) rest) v (append_message_impl ops env message cx)"
  unfolding append_message_impl_def
  by (rule J carries_if carries_read lane_append_carries [OF ok] | (rule carries_bind, rule keeps_rules))+

lemma append_custom_carries:
  fixes env :: "('w, 'm, 'g, 'j, 'f) lane_env"
  assumes ok: "lane_serde_ok (en_serde env)" and J: "coherent (en_serde env) rest v"
  shows "carries val (coherent (en_serde env) rest) v (append_custom_impl ops env custom_type data cx)"
  unfolding append_custom_impl_def
  by (rule J carries_if carries_read lane_append_carries [OF ok] | (rule carries_bind, rule keeps_rules))+

lemma record_usage_carries:
  fixes env :: "('w, 'm, 'g, 'j, 'f) lane_env"
  assumes J: "coherent (en_serde env) rest v"
  shows "carries val (coherent (en_serde env) rest) v (record_usage ops env usage entry details cx)"
proof -
  have "coherent (en_serde env) rest (v\<lparr>v_fault := Some f, v_closed := True\<rparr>)" for f
    using J by (simp add: coherent_def)
  then show ?thesis
    unfolding record_usage_def using J
    by (intro carries_bind keeps_rules carries_commit carries_if carries_return carries_fail) simp_all
qed

end

section \<open>Admission\<close>

text \<open>
  \<open>yields val v m Q\<close>: what \<open>m\<close> returns, started in view \<open>v\<close>, satisfies \<open>Q\<close>. The preparation of an
  admission only reads, so its effect is what it returns.
\<close>

definition yields ::
  "('m \<Rightarrow> slot \<rightharpoonup> 'j) \<Rightarrow> 'j lane_view \<Rightarrow> ('w, 'm, 'g, 'j, 'a) lane_op \<Rightarrow> ('a \<Rightarrow> bool) \<Rightarrow> bool" where
  "yields val v m Q \<longleftrightarrow> (\<forall>rt rt' a. view_of val rt = v \<longrightarrow> m rt = (Inr a, rt') \<longrightarrow> Q a)"

lemma yields_return: "Q a \<Longrightarrow> yields val v (op_return a) Q"
  by (simp add: yields_def)

lemma yields_bind:
  assumes "yields val v m P" and "keeps (view_of val) m" and "\<And>a. P a \<Longrightarrow> yields val v (f a) Q"
  shows "yields val v (op_bind m f) Q"
  using assms unfolding yields_def keeps_def op_bind_def
  by (fastforce split: prod.splits sum.splits)

lemma yields_skip:
  assumes "keeps (view_of val) m" and "\<And>a. yields val v (f a) Q"
  shows "yields val v (op_bind m f) Q"
  by (rule yields_bind [where P = "\<lambda>_. True"], simp add: yields_def) (rule assms)+

lemma yields_write:
  "yields val v (lane_write a c x) (\<lambda>w. \<exists>j. cd_to c x = Inr j \<and> w = WriteValue (ValueSet (va_namespace a) (va_key a) j))"
  by (cases "cd_to c x") (auto simp: yields_def lane_write_def lane_read_def set_json_def set_value_def)

lemma yields_message_writes:
  "yields val v (message_writes env parent messages) (\<lambda>(ids, ws). list_all foreign_write ws)"
proof (induction env parent messages rule: message_writes.induct)
  case (1 env parent)
  show ?case unfolding message_writes.simps by (rule yields_return) simp
next
  case (2 env parent message messages)
  show ?case
    unfolding message_writes.simps
    by (rule yields_skip, rule keeps_rules, rule yields_bind, rule "2", rule keeps_rules)
      (auto intro: yields_return)
qed

lemma carries_on_error:
  fixes m :: "('w, 'm, 'g, 'j, 'a) lane_op"
  assumes "keeps (view_of val) m" and "yields val v m Q"
    and "\<And>rt :: ('w, 'm, 'g, 'j) lane_runtime. view_of val rt = v \<Longrightarrow> J (view_of val (undo rt))"
    and "\<And>a. Q a \<Longrightarrow> carries val J v (f a)"
  shows "carries val J v (op_bind (op_on_error undo m) f)"
proof (rule carriesI)
  fix rt :: "('w, 'm, 'g, 'j) lane_runtime"
  assume v: "view_of val rt = v"
  obtain r rt' where m: "m rt = (r, rt')" by fastforce
  then have v': "view_of val rt' = v" using assms(1) v by (metis keeps_def snd_conv)
  show "J (view_of val (snd (op_bind (op_on_error undo m) f rt)))"
  proof (cases r)
    case (Inl e)
    with m v' assms(3) show ?thesis by (simp add: op_on_error_def op_bind_def)
  next
    case (Inr a)
    with m v assms(2) have "Q a" by (auto simp: yields_def)
    with Inr m v' assms(4) show ?thesis by (auto simp: op_on_error_def op_bind_def carries_def)
  qed
qed

context storage_contract
begin

lemma yields_begin: "yields val v (on_session (begin_mutation cx)) (\<lambda>_. \<not> cx_cancelled cx)"
  by (auto simp: yields_def on_session_def begin_mutation_def session_guard_def check_context_def op_bind_def
      split: prod.splits sum.splits if_splits)

lemma yields_get:
  assumes "\<not> cx_cancelled cx"
  shows "yields val v (guarded_get ops c a cx) (\<lambda>got. case got of
      None \<Rightarrow> v_slots v (va_namespace a, va_key a) = None | Some sv \<Rightarrow> stored c (v_slots v) a (sv_value sv))"
  unfolding yields_def using guarded_get_stored [OF _ assms] by blast

lemma yields_reject:
  assumes "\<not> cx_cancelled cx"
  shows "yields val v (reject_operation_id_reuse ops env reject i cx) (\<lambda>_. v_slots v (''pi.op.meta'', i) = None)"
proof -
  have "yields val v (operation_id_is_used ops env i cx) (\<lambda>used. used \<or> v_slots v (''pi.op.meta'', i) = None)"
    unfolding operation_id_is_used_def
    apply (rule yields_bind [OF yields_get [OF assms]], rule keeps_rules)
    subgoal for got
      by (cases got) (auto intro!: yields_skip keeps_rules yields_return)
    done
  then show ?thesis
    unfolding reject_operation_id_reuse_def
    by (rule yields_bind) (auto intro: keeps_rules yields_return simp: yields_def op_read_def)
qed

lemma yields_durable_state:
  assumes "\<not> cx_cancelled cx"
    and st: "stored (ld_state (en_serde env)) (v_slots v) (lane_state_address (v_name v)) state"
  shows "yields val v (durable_lane_state ops env cx) (\<lambda>base. base = state)"
proof -
  have "yields val v (op_bind (guarded_get ops (ld_state (en_serde env)) (lane_state_address (v_name v)) cx) (\<lambda>stored.
     op_return (case stored of None \<Rightarrow> lane_state_default | Some sv \<Rightarrow> sv_value sv))) (\<lambda>base. base = state)"
    using st by (intro yields_bind [OF yields_get [OF assms(1)]] keeps_rules yields_return)
      (auto simp: stored_def split: option.splits)
  then show ?thesis
    by (auto simp: durable_lane_state_def yields_def with_lane_def)
qed

lemma carries_check:
  fixes f :: "'a \<Rightarrow> ('w, 'm, 'g, 'j, 'b) lane_op"
  assumes "\<And>rt :: ('w, 'm, 'g, 'j) lane_runtime. view_of val rt = v \<Longrightarrow>
    (case g rt of Inl e \<Rightarrow> J v | Inr a \<Rightarrow> carries val J v (f a))"
  shows "carries val J v (op_bind (op_read g) f)"
proof (rule carriesI)
  fix rt :: "('w, 'm, 'g, 'j) lane_runtime"
  assume "view_of val rt = v"
  with assms [of rt] show "J (view_of val (snd (op_bind (op_read g) f rt)))"
    by (cases "g rt") (auto simp: op_bind_def carries_def)
qed

lemma view_undo:
  assumes "view_of val rt = v\<lparr>v_data := (v_data v)\<lparr>la_operation := Some operation\<rparr>\<rparr>" and "la_operation (v_data v) = None"
  shows "view_of val (undo_pending_admission (op_id operation) rt) = v"
  using assms by (cases v; cases "v_data v") (auto simp: undo_pending_admission_def view_of_def)

text \<open>The durable half of an admission, from the reservation on.\<close>

lemma carries_admission:
  fixes reserved :: "'j operation"
  assumes before: "coherent ld rest v" and "op_id reserved = i"
    and after: "coherent ld rest (v\<lparr>v_slots := foldl value_effect (v_slots v) ws,
      v_data := g ((v_data v)\<lparr>la_operation := Some reserved\<rparr>)\<rparr>)"
  shows "carries val (lane_agrees ld rest) (v\<lparr>v_data := (v_data v)\<lparr>la_operation := Some reserved\<rparr>\<rparr>)
    (op_bind (commit_admission_writes ops ws cx) (\<lambda>_. op_bind (require_reservation i) (\<lambda>_. put_data g))
      :: ('w, 'm, 'g, 'j, unit) lane_op)"
  unfolding commit_admission_writes_def op_bind_assoc
proof (rule carries_faulting_commit)
  let ?v = "v\<lparr>v_data := (v_data v)\<lparr>la_operation := Some reserved\<rparr>\<rparr>"
  have stays: "\<exists>d. coherent ld rest (v\<lparr>v_data := d\<rparr>)"
    using before by (intro exI [of _ "v_data v"]) simp
  then show "v_fault ?v \<noteq> None \<Longrightarrow> lane_agrees ld rest ?v"
    by (auto simp: lane_agrees_def)
  show "lane_agrees ld rest (?v\<lparr>v_fault := Some f, v_closed := True\<rparr>)" for f
    using stays by (auto simp: lane_agrees_def coherent_def)
  let ?w = "?v\<lparr>v_slots := foldl value_effect (v_slots ?v) ws\<rparr>"
  have final: "lane_agrees ld rest (?w\<lparr>v_data := g (v_data ?w)\<rparr>)"
    using coherent_agrees [OF after] by simp
  then have faulted: "v_fault ?w \<noteq> None \<Longrightarrow> lane_agrees ld rest ?w"
    by (auto simp: lane_agrees_def)
  have rest: "carries val (lane_agrees ld rest) ?w (op_bind (require_reservation i) (\<lambda>_. put_data g) :: ('w, 'm, 'g, 'j, unit) lane_op)"
    unfolding require_reservation_def
  proof (rule carries_check)
    fix rt :: "('w, 'm, 'g, 'j) lane_runtime"
    assume "view_of val rt = ?w"
    then have "la_operation (lr_data rt) = Some reserved"
      by (metis lane_data.select_convs(4) lane_data.surjective lane_data.update_convs(4)
          lane_view.select_convs(2) lane_view.surjective lane_view.update_convs(2,5) view_of_sel(2))
    then show "case (case la_operation (lr_data rt) of
        None \<Rightarrow> Inl (closed_error_of rt) | Some current \<Rightarrow> if op_id current = i then Inr () else Inl (closed_error_of rt)) of
      Inl e \<Rightarrow> lane_agrees ld rest ?w | Inr a \<Rightarrow> carries val (lane_agrees ld rest) ?w (put_data g)"
      using assms(2) carries_put [where g = g and v = ?w and J = "lane_agrees ld rest", OF final] by simp
  qed
  show "carries val (lane_agrees ld rest) ?w (op_bind (op_read (\<lambda>rt. case lr_fault rt of
      Some fault \<Rightarrow> Inl (sealed_rejection fault) | None \<Rightarrow> Inr ()))
      (\<lambda>_. op_bind (require_reservation i) (\<lambda>_. put_data g)) :: ('w, 'm, 'g, 'j, unit) lane_op)" for c
  proof (rule carries_check)
    fix rt :: "('w, 'm, 'g, 'j) lane_runtime"
    assume "view_of val rt = ?w"
    then have "lr_fault rt = v_fault ?w" by (metis view_of_sel(3))
    with faulted rest show "case (case lr_fault rt of None \<Rightarrow> Inr () | Some fault \<Rightarrow> Inl (sealed_rejection fault)) of
      Inl e \<Rightarrow> lane_agrees ld rest ?w
    | Inr a \<Rightarrow> carries val (lane_agrees ld rest) ?w (op_bind (require_reservation i) (\<lambda>_. put_data g) :: ('w, 'm, 'g, 'j, unit) lane_op)"
      by (simp split: option.split)
  qed
qed

text \<open>What the preparation of an admission returns; a run moves the tip as well.\<close>

definition admission_writes ::
  "('j, 'f) lane_serde \<Rightarrow> 'j lane_view \<Rightarrow> 'j operation \<Rightarrow> lane_state \<Rightarrow> entry_id option option
    \<Rightarrow> ('j, 'f) session_write list \<Rightarrow> bool" where
  "admission_writes ld v operation next tip ws \<longleftrightarrow>
     (\<exists>jm jo js tips. cd_to (ld_meta ld) (op_meta operation) = Inr jm \<and> cd_to (ld_op_state ld) (op_state_of operation) = Inr jo \<and>
       cd_to (ld_state ld) next = Inr js \<and> v_slots v (''pi.op.meta'', op_id operation) = None \<and>
       ls_current_operation_id next = Some (op_id operation) \<and>
       ws = [WriteValue (ValueSet ''pi.op.meta'' (op_id operation) jm),
             WriteValue (ValueSet ''pi.op.state'' (op_id operation) jo),
             WriteValue (ValueSet ''pi.lane.state'' (v_name v) js)] @ tips \<and>
       (case tip of
          None \<Rightarrow> tips = []
        | Some t \<Rightarrow> \<exists>jt. cd_to (tip_codec (ld_serde ld)) t = Inr jt \<and> tips = [WriteValue (ValueSet ''pi.branch.tip'' (v_name v) jt)]))"

lemma preparation_write:
  fixes env :: "('w, 'm, 'g, 'j, 'f) lane_env"
  shows "yields val v (case preparation of None \<Rightarrow> op_return [] | Some (task, p) \<Rightarrow>
      op_bind (lane_write (operation_preparation i task) (ld_preparation (en_serde env)) p) (\<lambda>w. op_return [w]))
      (list_all foreign_write)"
    and "keeps (view_of val) (case preparation of None \<Rightarrow> op_return [] | Some (task, p) \<Rightarrow>
      op_bind (lane_write (operation_preparation i task) (ld_preparation (en_serde env)) p) (\<lambda>w. op_return [w]))"
  by (auto intro!: yields_return yields_bind [OF yields_write] keeps_rules split: option.split)

lemma prepare_operation_yields:
  assumes st: "stored (ld_state (en_serde env)) (v_slots v) (lane_state_address (v_name v)) state"
  shows "yields val v (prepare_operation ops env reject (v_name v) operation preparation first cx)
    (\<lambda>(ws, next, base). base = state \<and>
       admission_writes (en_serde env) v operation next None (filter (\<lambda>w. \<not> foreign_write w) ws))"
  unfolding prepare_operation_def Let_def
  apply (rule yields_bind [OF yields_begin], rule keeps_rules)
  apply (rule yields_bind [OF yields_reject], assumption, rule keeps_rules)
  apply (rule yields_bind [OF yields_durable_state [OF _ st]], assumption, rule keeps_rules)
  apply (rule yields_bind [OF yields_write], rule keeps_rules)+
  apply (rule yields_bind [OF preparation_write])
  apply (rule yields_bind [OF yields_write], rule keeps_rules)
  apply (rule yields_return)
  by (auto simp: admission_writes_def)

lemma keeps_prepare_operation [keeps_rules]:
  "keeps (view_of val) (prepare_operation ops env reject name operation preparation first cx)"
  unfolding prepare_operation_def by (rule keeps_rules preparation_write)+

lemma admission_coherent:
  assumes ok: "lane_serde_ok ld" and "coherent ld rest v" and "om_lane (op_meta operation) = v_name v"
    and "validate_state_intent (om_intent (op_meta operation)) (op_state_of operation) = Inr ()"
    and "admission_writes ld v operation next tip (filter (\<lambda>w. \<not> foreign_write w) ws)"
    and "la_operation d = Some operation" and "la_state d = next" and "la_tip d = (case tip of None \<Rightarrow> la_tip (v_data v) | Some t \<Rightarrow> t)"
    and "la_config d = la_config (v_data v)"
  shows "coherent ld rest (v\<lparr>v_slots := foldl value_effect (v_slots v) ws, v_data := d\<rparr>)"
proof (rule coherent_batch [OF refl])
  show "coherent ld rest (v\<lparr>v_slots := foldl value_effect (v_slots v) (filter (\<lambda>w. \<not> foreign_write w) ws), v_data := d\<rparr>)"
    using assms
    by (cases tip)
      (auto simp: admission_writes_def coherent_def durable_lane_def durable_operation_def resumable_def
        intro: lane_roundtrip [OF ok] intro!: others_slot others_fresh)
qed

lemma admit_operation_agrees:
  fixes env :: "('w, 'm, 'g, 'j, 'f) lane_env"
  assumes ok: "lane_serde_ok (en_serde env)" and J: "coherent (en_serde env) rest v"
    and idle: "la_operation (v_data v) = None" and "om_lane (op_meta operation) = v_name v"
    and "validate_state_intent (om_intent (op_meta operation)) (op_state_of operation) = Inr ()"
  shows "carries val (lane_agrees (en_serde env) rest) v (admit_operation ops env reject operation preparation first cx)"
  unfolding admit_operation_def
proof (rule carries_with, rule carries_put_bind, rule carries_on_error)
  fix rt :: "('w, 'm, 'g, 'j) lane_runtime"
  assume "view_of val rt = v"
  then have name: "lr_name rt = v_name v" by auto
  let ?v = "v\<lparr>v_data := (v_data v)\<lparr>la_operation := Some operation\<rparr>\<rparr>"
  show "keeps (view_of val) (prepare_operation ops env reject (lr_name rt) operation preparation first cx)"
    by (rule keeps_rules)
  show "yields val ?v (prepare_operation ops env reject (lr_name rt) operation preparation first cx)
    (\<lambda>(ws, next, base). base = la_state (v_data v) \<and>
       admission_writes (en_serde env) ?v operation next None (filter (\<lambda>w. \<not> foreign_write w) ws))"
    using prepare_operation_yields [of env ?v "la_state (v_data v)"] coherent_state [OF J] name by simp
  fix rt :: "('w, 'm, 'g, 'j) lane_runtime"
  assume "view_of val rt = ?v"
  then have "view_of val (undo_pending_admission (op_id operation) rt) = v"
    by (rule view_undo [OF _ idle])
  then show "lane_agrees (en_serde env) rest (view_of val (undo_pending_admission (op_id operation) rt))"
    using coherent_agrees [OF J] by simp
next
  fix p :: "('j, 'f) session_write list \<times> lane_state \<times> lane_state"
  let ?v = "v\<lparr>v_data := (v_data v)\<lparr>la_operation := Some operation\<rparr>\<rparr>"
  assume p: "case p of (ws, next, base) \<Rightarrow> base = la_state (v_data v) \<and>
       admission_writes (en_serde env) ?v operation next None (filter (\<lambda>w. \<not> foreign_write w) ws)"
  show "carries val (lane_agrees (en_serde env) rest) ?v
    ((case p of (ws, next, base) \<Rightarrow> op_bind (commit_admission_writes ops ws cx) (\<lambda>_. op_bind (require_reservation (op_id operation))
      (\<lambda>_. put_data (\<lambda>d. (converge_state base next d)\<lparr>la_operation := Some operation\<rparr>)))) :: ('w, 'm, 'g, 'j, unit) lane_op)"
  proof (cases p)
    case (fields ws nx base)
    then have ws: "admission_writes (en_serde env) v operation nx None (filter (\<lambda>w. \<not> foreign_write w) ws)"
      and base: "base = la_state (v_data v)"
      using p by (auto simp: admission_writes_def)
    show ?thesis
      unfolding fields prod.case
      by (rule carries_admission [OF J refl], rule admission_coherent [OF ok J assms(4,5) ws])
        (simp_all add: base converge_state_def)
  qed
qed

text \<open>A run moves the tip to its last message.\<close>

definition run_of :: "lane_name \<Rightarrow> operation_id \<Rightarrow> 'j operation \<Rightarrow> bool" where
  "run_of name i operation \<longleftrightarrow> op_id operation = i \<and> om_lane (op_meta operation) = name \<and>
     validate_state_intent (om_intent (op_meta operation)) (op_state_of operation) = Inr ()"

lemma prepare_run_yields:
  assumes st: "stored (ld_state (en_serde env)) (v_slots v) (lane_state_address (v_name v)) state"
  shows "yields val v (prepare_run ops env config (v_name v) i messages selected started_at source_tip cx)
    (\<lambda>p. pr_base_state p = state \<and> run_of (v_name v) i (pr_operation p) \<and>
       admission_writes (en_serde env) v (pr_operation p) (pr_next_state p) (Some (pr_tip p))
         (filter (\<lambda>w. \<not> foreign_write w) (pr_writes p)))"
  unfolding prepare_run_def Let_def
  apply (rule yields_bind [OF yields_begin], rule keeps_rules)
  apply (rule yields_bind [OF yields_reject], assumption, rule keeps_rules)
  apply (rule yields_bind [OF yields_durable_state [OF _ st]], assumption, rule keeps_rules)
  apply (rule yields_skip, rule keeps_rules)
  apply (rule yields_bind [OF yields_message_writes], rule keeps_rules)
  subgoal for _ _ base pending p
    apply (cases p)
    apply simp
    apply (rule yields_bind [OF yields_write], rule keeps_rules)+
    by (rule yields_return)
      (auto simp: admission_writes_def run_of_def operation_meta_of_def validate_state_intent_def state_kind_def)
  done

lemma keeps_prepare_run [keeps_rules]:
  "keeps (view_of val) (prepare_run ops env config name i messages selected started_at source_tip cx)"
  unfolding prepare_run_def Let_def by (rule keeps_rules)+

lemma commit_run_agrees:
  fixes env :: "('w, 'm, 'g, 'j, 'f) lane_env"
  assumes ok: "lane_serde_ok (en_serde env)" and J: "coherent (en_serde env) rest v"
    and idle: "la_operation (v_data v) = None"
  shows "carries val (lane_agrees (en_serde env) rest) v (commit_run ops env config i messages selected started_at cx)"
  unfolding commit_run_def Let_def
proof (rule carries_with, rule carries_put_bind, rule carries_on_error)
  fix rt :: "('w, 'm, 'g, 'j) lane_runtime"
  assume rt: "view_of val rt = v"
  then have name: "lr_name rt = v_name v" by auto
  let ?r = "\<lparr>op_meta = operation_meta_of i (lr_name rt) (la_tip (lr_data rt)) started_at (IntentRun []),
    op_state_of = Starting (operation_scope_of config)\<rparr>"
  let ?v = "v\<lparr>v_data := (v_data v)\<lparr>la_operation := Some ?r\<rparr>\<rparr>"
  show "keeps (view_of val) (prepare_run ops env config (lr_name rt) i messages selected started_at (la_tip (lr_data rt)) cx)"
    by (rule keeps_rules)
  show "yields val ?v (prepare_run ops env config (lr_name rt) i messages selected started_at (la_tip (lr_data rt)) cx)
    (\<lambda>p. pr_base_state p = la_state (v_data v) \<and> run_of (v_name v) i (pr_operation p) \<and>
       admission_writes (en_serde env) ?v (pr_operation p) (pr_next_state p) (Some (pr_tip p))
         (filter (\<lambda>w. \<not> foreign_write w) (pr_writes p)))"
    using prepare_run_yields [of env ?v "la_state (v_data v)"] coherent_state [OF J] name by simp
  show "lane_agrees (en_serde env) rest (view_of val (undo_pending_admission i rt'))"
    if "view_of val rt' = ?v" for rt' :: "('w, 'm, 'g, 'j) lane_runtime"
    using view_undo [OF that idle] coherent_agrees [OF J] by (simp add: operation_meta_of_def)
  show "carries val (lane_agrees (en_serde env) rest) ?v
    (op_bind (commit_admission_writes ops (pr_writes p) cx) (\<lambda>_. op_bind (require_reservation i)
      (\<lambda>_. put_data (\<lambda>d. (converge_state (pr_base_state p) (pr_next_state p) d)
        \<lparr>la_tip := pr_tip p, la_operation := Some (pr_operation p), la_last_result := None\<rparr>))) :: ('w, 'm, 'g, 'j, unit) lane_op)"
    if p: "pr_base_state p = la_state (v_data v) \<and> run_of (v_name v) i (pr_operation p) \<and>
       admission_writes (en_serde env) ?v (pr_operation p) (pr_next_state p) (Some (pr_tip p))
         (filter (\<lambda>w. \<not> foreign_write w) (pr_writes p))" for p :: "('j, 'f) prepared_run"
  proof (rule carries_admission [OF J])
    have ws: "admission_writes (en_serde env) v (pr_operation p) (pr_next_state p) (Some (pr_tip p))
         (filter (\<lambda>w. \<not> foreign_write w) (pr_writes p))"
      using p by (simp add: admission_writes_def)
    show "coherent (en_serde env) rest (v\<lparr>v_slots := foldl value_effect (v_slots v) (pr_writes p),
      v_data := (converge_state (pr_base_state p) (pr_next_state p) ((v_data v)\<lparr>la_operation := Some ?r\<rparr>))
        \<lparr>la_tip := pr_tip p, la_operation := Some (pr_operation p), la_last_result := None\<rparr>\<rparr>)"
      by (rule admission_coherent [OF ok J _ _ ws]) (use p in \<open>simp_all add: converge_state_def run_of_def\<close>)
  qed (simp add: operation_meta_of_def)
qed

lemma carries_idle:
  assumes "J v" and "la_operation (v_data v) = None \<Longrightarrow> carries val J v (f ())"
  shows "carries val J v (op_bind (op_read ensure_idle) f :: ('w, 'm, 'g, 'j, 'a) lane_op)"
  by (rule carries_check) (use assms in \<open>auto simp: ensure_idle_def split: option.split\<close>)

lemma accept_run_agrees:
  fixes env :: "('w, 'm, 'g, 'j, 'f) lane_env"
  assumes ok: "lane_serde_ok (en_serde env)" and J: "coherent (en_serde env) rest v"
  shows "carries val (lane_agrees (en_serde env) rest) v (accept_run ops env requested messages cx)"
proof -
  note agrees = coherent_agrees [OF J]
  show ?thesis
    unfolding accept_run_def
    by (rule agrees carries_if carries_read carries_return carries_idle
        | (rule carries_bind, rule keeps_rules)
        | (rule carries_seq, rule commit_run_agrees [OF ok J]) | assumption)+
qed

lemma accept_compaction_agrees:
  fixes env :: "('w, 'm, 'g, 'j, 'f) lane_env"
  assumes ok: "lane_serde_ok (en_serde env)" and J: "coherent (en_serde env) rest v"
  shows "carries val (lane_agrees (en_serde env) rest) v (accept_compaction ops env requested custom_instructions cx)"
proof -
  note agrees = coherent_agrees [OF J]
  show ?thesis
    unfolding accept_compaction_def
    by (rule agrees carries_return carries_idle
        | (rule carries_seq, rule carries_with, rule admit_operation_agrees [OF ok J])
        | (rule carries_bind, rule keeps_rules)
        | assumption | (force simp: operation_meta_of_def validate_state_intent_def state_kind_def))+
qed

lemma commit_navigation_agrees:
  fixes env :: "('w, 'm, 'g, 'j, 'f) lane_env"
  assumes ok: "lane_serde_ok (en_serde env)" and J: "coherent (en_serde env) rest v"
    and idle: "la_operation (v_data v) = None"
  shows "carries val (lane_agrees (en_serde env) rest) v (commit_navigation ops env config i target options started_at cx)"
proof -
  note agrees = coherent_agrees [OF J]
  show ?thesis
    unfolding commit_navigation_def Let_def
    by (rule agrees idle carries_with
        | (rule carries_bind, (rule keeps_rules)+)
        | (rule admit_operation_agrees [OF ok J])
        | assumption | (force simp: operation_meta_of_def validate_state_intent_def state_kind_def))+
qed

lemma accept_navigation_agrees:
  fixes env :: "('w, 'm, 'g, 'j, 'f) lane_env"
  assumes ok: "lane_serde_ok (en_serde env)" and J: "coherent (en_serde env) rest v"
  shows "carries val (lane_agrees (en_serde env) rest) v (accept_navigation ops env requested target options cx)"
proof -
  note agrees = coherent_agrees [OF J]
  show ?thesis
    unfolding accept_navigation_def
    by (rule agrees carries_return carries_idle
        | (rule carries_bind, (rule keeps_rules)+)
        | (rule carries_seq, rule commit_navigation_agrees [OF ok J])
        | assumption)+
qed

lemma accept_agrees:
  fixes env :: "('w, 'm, 'g, 'j, 'f) lane_env"
  assumes ok: "lane_serde_ok (en_serde env)" and J: "coherent (en_serde env) rest v"
  shows "carries val (lane_agrees (en_serde env) rest) v (accept ops env request cx)"
proof -
  note agrees = coherent_agrees [OF J]
  show ?thesis
    unfolding accept_def
    apply (rule carries_bind, rule keeps_rules, rule agrees)
    by (cases request; simp only: operation_request.case;
        (rule agrees carries_option carries_if carries_read carries_fail accept_run_agrees [OF ok J]
           accept_compaction_agrees [OF ok J] accept_navigation_agrees [OF ok J] | (rule carries_bind, rule keeps_rules))+)
qed

end

section \<open>Restoring\<close>

text \<open>The result a lane shows after a restart is the one stored for its last settled operation.\<close>

definition result_readable :: "('j, 'f) lane_serde \<Rightarrow> (slot \<rightharpoonup> 'j) \<Rightarrow> operation_id option \<Rightarrow> bool" where
  "result_readable ld vs settled \<longleftrightarrow>
     (case Option.bind settled (\<lambda>i. vs (''pi.result'', i)) of None \<Rightarrow> True | Some j \<Rightarrow> \<exists>r. cd_from (ld_result ld) j = Inr r)"

definition stored_result :: "('j, 'f) lane_serde \<Rightarrow> (slot \<rightharpoonup> 'j) \<Rightarrow> operation_id option \<Rightarrow> 'j operation_result_record option" where
  "stored_result ld vs settled =
     (case Option.bind settled (\<lambda>i. vs (''pi.result'', i)) of
        None \<Rightarrow> None
      | Some j \<Rightarrow> (case cd_from (ld_result ld) j of Inl _ \<Rightarrow> None | Inr r \<Rightarrow> Some r))"

context storage_contract
begin

lemma lane_get_stored:
  assumes "\<not> bk_closed s" and "\<not> cx_cancelled cx" and "live (bk_storage s)" and "stored c (val (bk_storage s)) a x"
  shows "\<exists>sv. lane_get ops c a cx s = Inr (Some sv) \<and> sv_value sv = x"
proof -
  have eq: "(\<lambda>a. session_get_value_json ops s a cx) = (\<lambda>a. so_get_value ops (bk_storage s) a cx)"
    using assms(1,2)
    by (simp add: session_get_value_json_def session_guard_def check_context_def session_ensure_open_def)
  show ?thesis
    using assms(4) typed_get_value_live(3) [OF assms(3,2)] by (auto simp: lane_get_def eq stored_def)
qed

lemma lane_get_absent:
  assumes "\<not> bk_closed s" and "\<not> cx_cancelled cx" and "live (bk_storage s)"
    and "val (bk_storage s) (va_namespace a, va_key a) = None"
  shows "lane_get ops c a cx s = Inr None"
proof -
  have eq: "(\<lambda>a. session_get_value_json ops s a cx) = (\<lambda>a. so_get_value ops (bk_storage s) a cx)"
    using assms(1,2)
    by (simp add: session_get_value_json_def session_guard_def check_context_def session_ensure_open_def)
  show ?thesis
    using assms(4) typed_get_value_absent [OF assms(3,2), of "cd_from c" a] by (simp add: lane_get_def eq)
qed

lemma read_open_durable:
  assumes s: "\<not> bk_closed s" "\<not> cx_cancelled cx" "live (bk_storage s)"
    and "durable_operation ld (val (bk_storage s)) name (ls_current_operation_id state) operation"
    and "\<And>opn. operation = Some opn \<Longrightarrow> validate_state_intent (om_intent (op_meta opn)) (op_state_of opn) = Inr ()"
  shows "read_open_operation ops ld s cx name state tip = Inr (state, tip, operation)"
proof (cases operation)
  case None
  then show ?thesis using assms(4) by (simp add: durable_operation_def read_open_operation_def)
next
  case (Some opn)
  then have opn: "ls_current_operation_id state = Some (op_id opn)" "om_lane (op_meta opn) = name"
    and st: "stored (ld_meta ld) (val (bk_storage s)) (operation_meta (op_id opn)) (op_meta opn)"
    "stored (ld_op_state ld) (val (bk_storage s)) (operation_state (op_id opn)) (op_state_of opn)"
    using assms(4) by (auto simp: durable_operation_def)
  obtain m os where "lane_get ops (ld_meta ld) (operation_meta (op_id opn)) cx s = Inr (Some m)" "sv_value m = op_meta opn"
    "lane_get ops (ld_op_state ld) (operation_state (op_id opn)) cx s = Inr (Some os)" "sv_value os = op_state_of opn"
    using lane_get_stored [OF s st(1)] lane_get_stored [OF s st(2)] by blast
  with opn assms(5) [OF Some] Some show ?thesis
    by (simp add: read_open_operation_def eval_nat_numeral)
qed

lemma restore_durable:
  assumes s: "\<not> bk_closed s" "\<not> cx_cancelled cx" "live (bk_storage s)"
    and d: "durable_lane ld (val (bk_storage s)) name d" and "resumable d"
    and "result_readable ld (val (bk_storage s)) (ls_last_operation_id (la_state d))"
  shows "restore_lane ops ld s cx name =
    Inr (Some (d\<lparr>la_last_result := stored_result ld (val (bk_storage s)) (ls_last_operation_id (la_state d))\<rparr>))"
proof -
  obtain c st t where reads: "lane_get ops (ld_config ld) (lane_config name) cx s = Inr (Some c)" "sv_value c = la_config d"
    "lane_get ops (ld_state ld) (lane_state_address name) cx s = Inr (Some st)" "sv_value st = la_state d"
    "lane_get ops (tip_codec (ld_serde ld)) (branch_tip name) cx s = Inr (Some t)" "sv_value t = la_tip d"
    using d unfolding durable_lane_def by (meson lane_get_stored [OF s])
  have opn: "read_open_operation ops ld s cx name (la_state d) (la_tip d) = Inr (la_state d, la_tip d, la_operation d)"
    using d assms(5) by (intro read_open_durable [OF s]) (auto simp: durable_lane_def resumable_def)
  have result: "rbind (lane_get ops (ld_result ld) (operation_result i) cx s) (\<lambda>r. Inr (map_option sv_value r)) =
      Inr (stored_result ld (val (bk_storage s)) (Some i))"
    if "ls_last_operation_id (la_state d) = Some i" for i
  proof (cases "val (bk_storage s) (''pi.result'', i)")
    case None
    then show ?thesis using lane_get_absent [OF s, of "operation_result i" "ld_result ld"] by (simp add: stored_result_def)
  next
    case (Some j)
    with assms(6) that obtain r where r: "cd_from (ld_result ld) j = Inr r" by (auto simp: result_readable_def)
    with Some have "stored (ld_result ld) (val (bk_storage s)) (operation_result i) r" by (simp add: stored_def)
    with r Some show ?thesis using lane_get_stored [OF s] by (fastforce simp: stored_result_def)
  qed
  show ?thesis
    using reads opn result
    by (cases d; cases "ls_last_operation_id (la_state d)")
      (auto simp: restore_lane_def lane_data_new_def stored_result_def)
qed

text \<open>A stored operation whose state its intent does not allow stops the restore.\<close>

lemma restore_mismatch:
  assumes s: "\<not> bk_closed s" "\<not> cx_cancelled cx" "live (bk_storage s)"
    and d: "durable_lane ld (val (bk_storage s)) name d" and opn: "la_operation d = Some opn"
    and bad: "validate_state_intent (om_intent (op_meta opn)) (op_state_of opn) = Inl e"
  shows "restore_lane ops ld s cx name = Inl e"
proof -
  obtain c st t where reads: "lane_get ops (ld_config ld) (lane_config name) cx s = Inr (Some c)"
    "lane_get ops (ld_state ld) (lane_state_address name) cx s = Inr (Some st)" "sv_value st = la_state d"
    "lane_get ops (tip_codec (ld_serde ld)) (branch_tip name) cx s = Inr (Some t)"
    using d unfolding durable_lane_def by (meson lane_get_stored [OF s])
  have current: "ls_current_operation_id (la_state d) = Some (op_id opn)" "om_lane (op_meta opn) = name"
    and st: "stored (ld_meta ld) (val (bk_storage s)) (operation_meta (op_id opn)) (op_meta opn)"
    "stored (ld_op_state ld) (val (bk_storage s)) (operation_state (op_id opn)) (op_state_of opn)"
    using d opn by (auto simp: durable_lane_def durable_operation_def)
  obtain m os where "lane_get ops (ld_meta ld) (operation_meta (op_id opn)) cx s = Inr (Some m)" "sv_value m = op_meta opn"
    "lane_get ops (ld_op_state ld) (operation_state (op_id opn)) cx s = Inr (Some os)" "sv_value os = op_state_of opn"
    using lane_get_stored [OF s st(1)] lane_get_stored [OF s st(2)] by blast
  with reads current bad show ?thesis
    by (simp add: restore_lane_def read_open_operation_def eval_nat_numeral)
qed

text \<open>A new lane is stored as it is cached, and no lane of the session had its name.\<close>

lemma lane_create_durable:
  assumes ok: "lane_serde_ok ld" and create: "lane_create ops ld config name target cx s = (Inr d, s')"
    and rest: "\<forall>(n, d) \<in> rest. durable_lane ld (val (bk_storage s)) n d"
  shows "durable_lane ld (val (bk_storage s')) name d" and "others ld rest name (val (bk_storage s'))"
    and "la_operation d = None"
proof -
  obtain b s3 wc wst wt r where branch: "create_branch ops (ld_serde ld) name target cx s = (Inr b, s3)"
    and ws: "set_json (lane_config name) (ld_config ld) (captured_configuration config) = Inr wc"
      "set_json (lane_state_address name) (ld_state ld) lane_state_default = Inr wst"
      "set_json (branch_tip name) (tip_codec (ld_serde ld)) target = Inr wt"
    and commit: "mutation_commit ops [wc, wst, wt] cx s3 = (Inr r, s')"
    and d: "d = lane_data_new (captured_configuration config) target lane_state_default"
    using create unfolding lane_create_def
    by (elim op_bind_InrE)
      (auto simp: Let_def begin_mutation_Inr op_bind_def split: prod.splits sum.splits option.splits if_splits)
  obtain jc js jt where j: "cd_to (ld_config ld) (captured_configuration config) = Inr jc"
      "cd_to (ld_state ld) lane_state_default = Inr js" "cd_to (tip_codec (ld_serde ld)) target = Inr jt"
    and w: "wc = WriteValue (ValueSet ''pi.lane.config'' name jc)" "wst = WriteValue (ValueSet ''pi.lane.state'' name js)"
      "wt = WriteValue (ValueSet ''pi.branch.tip'' name jt)"
    using ws by (auto simp: set_json_def set_value_def rbind_eq_Inr_iff)
  obtain jb where absent: "val (bk_storage s) (''pi.branch.tip'', name) = None"
    and s3: "val (bk_storage s3) = (val (bk_storage s))((''pi.branch.tip'', name) \<mapsto> jb)"
    using branch by (elim create_branch_effect) (auto simp: tip_slot_def)
  have s': "val (bk_storage s') = (val (bk_storage s3))((''pi.lane.config'', name) \<mapsto> jc,
      (''pi.lane.state'', name) \<mapsto> js, (''pi.branch.tip'', name) \<mapsto> jt)"
    using mutation_commit_Inr [OF commit] commit_ok w by auto
  have "n \<noteq> name" if "(n, d) \<in> rest" for n d
    using rest that absent by (fastforce simp: durable_lane_def stored_def branch_tip_def)
  then have "others ld rest name (val (bk_storage s))"
    using rest by (auto simp: others_def)
  then show "others ld rest name (val (bk_storage s'))"
    unfolding s' s3 by (intro others_slot)
  show "durable_lane ld (val (bk_storage s')) name d"
    using j lane_roundtrip [OF ok]
    by (simp add: s' d durable_lane_def durable_operation_def lane_data_new_def lane_state_default_def)
  show "la_operation d = None"
    by (simp add: d lane_data_new_def)
qed

end

end
