(* ===== verification/Lane_Samples.thy ===== *)
theory Lane_Samples
  imports Lane_Restore Jsonl_Samples
begin

text \<open>
  A lane named \<open>main\<close> on the sample session files, and the encodings its witnesses use. An encoding
  is a table of the few values a sample stores.
\<close>

definition table_codec :: "('a \<times> 'j) list \<Rightarrow> ('j, 'a) codec" where
  "table_codec table = \<lparr>cd_to = (\<lambda>x. case map_of table x of None \<Rightarrow> Inl ''unencodable'' | Some j \<Rightarrow> Inr j),
     cd_from = (\<lambda>j. case map_of (map (\<lambda>(x, j). (j, x)) table) j of None \<Rightarrow> Inl ''invalid value'' | Some x \<Rightarrow> Inr x)\<rparr>"

lemma table_codec_ok:
  assumes "distinct (map snd table)"
  shows "codec_ok (table_codec table)"
  unfolding codec_ok_def
proof (intro allI impI)
  fix a j assume "cd_to (table_codec table) a = Inr j"
  then have aj: "map_of table a = Some j"
    by (auto simp: table_codec_def split: option.splits)
  have "(j, a) \<in> set (map (\<lambda>(x, j). (j, x)) table)"
    using map_of_SomeD [OF aj] by force
  moreover have "distinct (map fst (map (\<lambda>(x, j). (j, x)) table))"
    using assms by (simp add: comp_def case_prod_beta)
  ultimately have "map_of (map (\<lambda>(x, j). (j, x)) table) j = Some a"
    by (rule map_of_is_SomeI [rotated])
  then show "cd_from (table_codec table) j = Inr a"
    by (simp add: table_codec_def)
qed

definition doc_tip :: "entry_id option \<Rightarrow> sample_doc" where
  "doc_tip tip = DocText (case tip of None \<Rightarrow> ''root'' | Some i \<Rightarrow> CHR ''#'' # i)"

definition doc_tip_of :: "sample_doc \<Rightarrow> string + entry_id option" where
  "doc_tip_of v = (case v of
     DocText (c # i) \<Rightarrow> if c = CHR ''#'' then Inr (Some i) else if c # i = ''root'' then Inr None else Inl ''invalid tip''
   | _ \<Rightarrow> Inl ''invalid tip'')"

definition doc_serde :: "sample_doc serde" where
  "doc_serde = \<lparr>sd_tip_to_value = (\<lambda>tip. Inr (doc_tip tip)), sd_tip_from_value = doc_tip_of,
     sd_lane_state_to_value = (\<lambda>_. Inr (DocText ''state'')), sd_string_value = DocText,
     sd_string_from_value = (\<lambda>v. case v of DocText s \<Rightarrow> Inr s | _ \<Rightarrow> Inl ''invalid text'')\<rparr>"

lemma doc_serde_ok: "serde_tip_ok doc_serde"
  by (simp add: serde_tip_ok_def doc_serde_def doc_tip_def doc_tip_of_def split: option.split)

definition sample_model :: model where
  "sample_model = \<lparr>mo_id = ''m'', mo_api = ''a'', mo_provider = ''p'', mo_context_window = 1000, mo_max_tokens = 100\<rparr>"

definition sample_runtime_config :: "'j runtime_config" where
  "sample_runtime_config = \<lparr>rc_model = sample_model, rc_thinking_level = Off, rc_active_tool_names = [], rc_tools = [],
     rc_skills = [], rc_prompt_templates = [],
     rc_stream_options = \<lparr>sp_transport = None, sp_timeout_ms = None, sp_max_retries = None, sp_max_retry_delay_ms = None,
       sp_headers = None, sp_metadata = None, sp_cache_retention = None, sp_deferred = None\<rparr>,
     rc_retry = DEFAULT_HARNESS_RETRY_POLICY, rc_compaction = DEFAULT_COMPACTION_SETTINGS,
     rc_steering_mode = OneAtATime, rc_follow_up_mode = OneAtATime, rc_tool_execution = Sequential, rc_projectors = []\<rparr>"

definition queued_state :: "entry_id \<Rightarrow> lane_state" where
  "queued_state i = lane_state_default\<lparr>ls_inbox := [\<lparr>ii_entry_id = i, ii_kind = Steer\<rparr>]\<rparr>"

text \<open>The user message \<open>hi\<close>, queued.\<close>

definition sample_pending :: "(sample_doc, nat) pending_payload" where
  "sample_pending = PendingMessage (user_text ''hi'' [] 7)"

definition doc_lane_serde :: "(sample_doc, nat) lane_serde" where
  "doc_lane_serde = \<lparr>ld_serde = doc_serde,
     ld_state = table_codec [(lane_state_default, DocText ''state''), (queued_state ''5'', DocText ''queued'')],
     ld_config = table_codec [(captured_configuration (sample_runtime_config :: sample_doc runtime_config), DocText ''config'')],
     ld_meta = table_codec [], ld_op_state = table_codec [], ld_result = table_codec [],
     ld_pending = table_codec [(sample_pending, DocText ''hi'')], ld_preparation = table_codec [], ld_staged = table_codec [],
     ld_args = table_codec [], ld_memo = table_codec [],
     ld_assistant_to = (\<lambda>_. Inl ''unencodable''), ld_assistant_of = (\<lambda>_. None), ld_tool_result_to = (\<lambda>_. Inl ''unencodable''),
     ld_pending_assistant = (\<lambda>_. False)\<rparr>"

lemma doc_lane_serde_ok: "lane_serde_ok doc_lane_serde"
  by (simp add: lane_serde_ok_def doc_lane_serde_def doc_serde_ok table_codec_ok)

definition doc_lane_env :: "(unit, (sample_doc, nat) jsonl_world, generator_state, sample_doc, nat) lane_env" where
  "doc_lane_env = \<lparr>en_serde = doc_lane_serde, en_generator = next_string sample_env, en_now = (\<lambda>w. (7, w)),
     en_get_model = (\<lambda>_ _. Some sample_model), en_meanwhile = (\<lambda>rt. rt), en_debug = (\<lambda>s. s),
     en_prepare_compaction = (\<lambda>_ _. Inr None), en_prepare_branch = (\<lambda>_ _. PrepBranchSummary [] \<lparr>fo_read = [], fo_written = [], fo_edited = []\<rparr> 0),
     en_collect_branch = (\<lambda>_ _ _ _ _. Inr ([], None)), en_context_tokens = (\<lambda>_. Inr 0)\<rparr>"

definition sample_metadata :: session_metadata where
  "sample_metadata = \<lparr>md_id = ''s1'', md_created_at = 7, md_storage_version = 1, md_cwd = None, md_parent_session_id = None,
     md_legacy_parent_session_path = None\<rparr>"

definition lane_of :: "('j, 'f) jsonl_world \<Rightarrow> 'j lane_data \<Rightarrow> (unit, ('j, 'f) jsonl_world, generator_state, 'j) lane_runtime" where
  "lane_of x d = \<lparr>lr_name = ''main'', lr_session = session_new sample_metadata x generator_default True, lr_data = d,
     lr_config = sample_runtime_config, lr_closed = False, lr_fault = None, lr_abort = False, lr_world = ()\<rparr>"

definition new_lane_data :: "sample_doc lane_data" where
  "new_lane_data = lane_data_new (captured_configuration (sample_runtime_config :: sample_doc runtime_config)) None lane_state_default"

end
