(* ===== verification/Lane_Properties.thy ===== *)
theory Lane_Properties
  imports Lane_Contract Jsonl_History Lane_Samples "HOL-Library.Sublist" "HOL-Library.Multiset"
begin

text \<open>
  The properties of the lanes of a harness on a durable session: the calls a client can make keep
  every lane of the session coherent with what is stored, and a restart resumes a lane where it was.
\<close>

section \<open>The calls of a lane\<close>

datatype ('j, 'f) lane_call =
  CallAccept "('j, 'f) operation_request"
| CallEnqueue "('j, 'f) queue_input" inbox_item_kind
| CallCancelQueued entry_id
| CallAbort operation_id
| CallAppendMessage "('j, 'f) agent_message"
| CallAppendCustom string "'j option"
| CallRecordUsage "'f usage" "entry_id option" "'j option"
| CallConfigure "lane_configuration \<Rightarrow> lane_configuration"

text \<open>The lane after a call, whatever the call returns.\<close>

fun perform_call ::
  "('m, 'j, 'f) storage_ops \<Rightarrow> ('w, 'm, 'g, 'j, 'f) lane_env \<Rightarrow> call_context \<Rightarrow> ('j, 'f) lane_call
    \<Rightarrow> ('w, 'm, 'g, 'j) lane_runtime \<Rightarrow> ('w, 'm, 'g, 'j) lane_runtime" where
  "perform_call ops env cx (CallAccept request) rt = snd (accept ops env request cx rt)"
| "perform_call ops env cx (CallEnqueue input kind) rt = snd (lane_enqueue ops env input kind cx rt)"
| "perform_call ops env cx (CallCancelQueued i) rt = snd (cancel_queued ops env i cx rt)"
| "perform_call ops env cx (CallAbort i) rt = snd (request_abort ops env i cx rt)"
| "perform_call ops env cx (CallAppendMessage message) rt = snd (append_message_impl ops env message cx rt)"
| "perform_call ops env cx (CallAppendCustom custom_type data) rt = snd (append_custom_impl ops env custom_type data cx rt)"
| "perform_call ops env cx (CallRecordUsage usage entry details) rt = snd (record_usage ops env usage entry details cx rt)"
| "perform_call ops env cx (CallConfigure change) rt = snd (set_lane_configuration ops env change cx rt)"

text \<open>A closed lane ignores every call.\<close>

lemma lane_call_closed: "lr_closed rt \<Longrightarrow> perform_call ops env cx call rt = rt"
  by (cases call)
    (simp_all add: accept_def lane_enqueue_def enqueue_commit_def cancel_queued_def request_abort_def append_message_impl_def
      append_custom_impl_def record_usage_def set_lane_configuration_def op_bind_def with_lane_def lane_ensure_open_def)

context storage_contract
begin

lemma lane_call_agrees:
  fixes env :: "('w, 'm, 'g, 'j, 'f) lane_env"
  assumes ok: "lane_serde_ok (en_serde env)" and agrees: "lane_agrees (en_serde env) rest (view_of val rt)"
  shows "lane_agrees (en_serde env) rest (view_of val (perform_call ops env cx call rt))"
proof (cases "lr_fault rt")
  case (Some f)
  with agrees have "lr_closed rt" by (auto simp: lane_agrees_def coherent_def)
  with agrees show ?thesis by (simp add: lane_call_closed)
next
  case None
  with agrees have J: "coherent (en_serde env) rest (view_of val rt)" by (simp add: lane_agrees_def)
  note carried = accept_agrees [OF ok J] lane_enqueue_carries [OF ok J] cancel_queued_carries [OF ok J]
    request_abort_carries [OF ok J] append_message_carries [OF ok J] append_custom_carries [OF ok J]
    record_usage_carries [OF J] set_lane_configuration_carries [OF ok J]
  show ?thesis
    by (cases call) (use carried in \<open>auto simp: carries_def intro: coherent_agrees\<close>)
qed

end

text \<open>A history of calls, each with its file system, its surroundings and its context.\<close>

definition lane_calls ::
  "('j, 'f::plus) wire \<Rightarrow> (jsonl_env \<times> ('w, ('j, 'f) jsonl_world, 'g, 'j, 'f) lane_env \<times> call_context \<times> ('j, 'f) lane_call) list
    \<Rightarrow> ('w, ('j, 'f) jsonl_world, 'g, 'j) lane_runtime \<Rightarrow> ('w, ('j, 'f) jsonl_world, 'g, 'j) lane_runtime" where
  "lane_calls w calls rt = fold (\<lambda>(io, env, cx, call). perform_call (jsonl_ops io w) env cx call) calls rt"

lemma lane_calls_agree:
  assumes "lane_serde_ok ld" and "list_all (\<lambda>(io, env, cx, call). en_serde env = ld) calls"
    and "lane_agrees ld rest (view_of jsonl_val rt)"
  shows "lane_agrees ld rest (view_of jsonl_val (lane_calls w calls rt))"
  using assms
proof (induction calls arbitrary: rt)
  case (Cons c calls)
  then show ?case
    using jsonl.lane_call_agrees [of "fst (snd c)" rest rt] by (auto simp: lane_calls_def split: prod.splits)
qed (simp add: lane_calls_def)

lemmas lane_op_eval = op_bind_def op_read_def with_lane_def Let_def on_session_def lane_now_def new_id_def lane_write_def lane_read_def
  set_json_def set_value_def begin_mutation_def session_guard_def check_context_def session_ensure_open_def faulting_commit_def
  mutation_commit_def on_storage_def put_data_def guarded_get_def mutation_get_value_def typed_get_value_def

lemmas jsonl_eval = session_new_def jsonl_ops_def
    without_cancellation_def jsonl_get_value_def erase_value_def with_state_def raw_value_def jsonl_guard_def jsonl_ensure_open_def branch_tip_def
    address_def commit_eval io_defs doc_defs result_eval storage_eval doc_wire_def doc_code_def sample_set_def sample_delete_def sample_import_def
    sample_lane_config_def sample_lane_state_def sample_lane_tip_def

definition tip_state :: "(sample_doc, nat) storage_state" where
  "tip_state = \<lparr>st_entries = [], st_entries_by_seq = [],
     st_values = [((''pi.branch.tip'', ''main''), \<lparr>rv_namespace = ''pi.branch.tip'', rv_key = ''main'', rv_kind = Ak_Value,
         rv_value = DocText ''root'', rv_seq = 1\<rparr>)], st_lists = [], st_usage = [], st_stats = session_stats_default, st_next_seq = 2\<rparr>"

abbreviation tip_world :: "(sample_doc, nat) jsonl_world" where
  "tip_world \<equiv> doc_world tip_state [104, 10, 0xC3, 0xA0, 10]"

lemma doc_create_branch:
  "create_branch (jsonl_ops (doc_env healthy 0) doc_wire) doc_serde ''main'' None sample_cx
     (session_new sample_metadata (doc_world storage_new [104, 10]) generator_default True) =
   (Inr ''main'', session_new sample_metadata tip_world generator_default True)"
  by (simp add: lane_op_eval create_branch_def validate_branch_name_def doc_serde_def doc_tip_def nul_def tip_state_def jsonl_eval)

lemma doc_lane_create:
  "\<exists>s'. lane_create (jsonl_ops (doc_env healthy 0) doc_wire) doc_lane_serde sample_runtime_config ''main'' None sample_cx
     (session_new sample_metadata (doc_world storage_new [104, 10]) generator_default True) = (Inr new_lane_data, s')"
proof -
  have serde: "ld_serde doc_lane_serde = doc_serde"
    "cd_to (ld_state doc_lane_serde) lane_state_default = Inr (DocText ''state'')"
    "cd_to (ld_config doc_lane_serde) (captured_configuration (sample_runtime_config :: sample_doc runtime_config)) = Inr (DocText ''config'')"
    "cd_to (tip_codec doc_serde) None = Inr (DocText ''root'')"
    by (simp_all add: doc_lane_serde_def table_codec_def tip_codec_def doc_serde_def doc_tip_def)
  have "\<exists>r s'. mutation_commit (jsonl_ops (doc_env healthy 0) doc_wire)
     [WriteValue (ValueSet ''pi.lane.config'' ''main'' (DocText ''config'')), WriteValue (ValueSet ''pi.lane.state'' ''main'' (DocText ''state'')),
      WriteValue (ValueSet ''pi.branch.tip'' ''main'' (DocText ''root''))]
     sample_cx (session_new sample_metadata tip_world generator_default True) = (Inr r, s')"
    by (simp add: lane_op_eval tip_state_def jsonl_eval)
  moreover have guard: "begin_mutation sample_cx (session_new sample_metadata tip_world generator_default True) =
      (Inr (), session_new sample_metadata tip_world generator_default True)"
    by (simp add: jsonl.begin_mutation_Inr session_new_def sample_cx_def)
  ultimately show ?thesis
    unfolding lane_create_def serde
    by (auto simp: op_bind_def ensure_lane_name_def serde nul_def doc_create_branch guard set_json_def set_value_def
        branch_tip_def new_lane_data_def)
qed

text \<open>
  C7. A lane and its durable session stay coherent. From the moment a lane is created, after any
  sequence of calls (operations admitted, messages queued, cancelled and appended, aborts, usage
  records, configuration changes), and whatever the file system does in each of them: the tip,
  the configuration, the lane state and the open operation that the lane caches are exactly the ones
  stored, as long as no fault was recorded; after a fault the lane is closed, and what is stored still
  describes one lane. No call touches what is stored for another lane of the session.
\<close>

theorem lane_stays_coherent:
  assumes "lane_serde_ok ld" and "list_all (\<lambda>(io, env, cx, call). en_serde env = ld) calls"
    and create: "lane_create (jsonl_ops io w) ld config name target cx s = (Inr d, s')"
    and rest: "\<forall>(n, d) \<in> rest. durable_lane ld (jsonl_val (bk_storage s)) n d"
    and rt: "lr_name rt = name" "lr_session rt = s'" "lr_data rt = d" "lr_fault rt = None"
  shows "lane_agrees ld rest (view_of jsonl_val (lane_calls w calls rt))"
proof (rule lane_calls_agree [OF assms(1,2)])
  note new = jsonl.lane_create_durable [OF assms(1) create rest]
  show "lane_agrees ld rest (view_of jsonl_val rt)"
    using new rt by (intro coherent_agrees) (simp add: coherent_def resumable_def)
qed

theorem lane_stays_coherent_witness:
  "\<exists>s'. lane_create (jsonl_ops (doc_env healthy 0) doc_wire) doc_lane_serde sample_runtime_config ''main'' None sample_cx
     (session_new sample_metadata (doc_world storage_new [104, 10]) generator_default True) = (Inr new_lane_data, s') \<and>
   lane_agrees doc_lane_serde {} (view_of jsonl_val (lane_calls doc_wire
     [(doc_env healthy 0, doc_lane_env, sample_cx, CallEnqueue (QueueText ''hi'' []) Steer),
      (doc_env (\<lambda>_. Some ''no space left on device'') 0, doc_lane_env, sample_cx, CallCancelQueued ''5'')]
     ((lane_of tip_world new_lane_data)\<lparr>lr_session := s'\<rparr>)))"
proof -
  obtain s' where s': "lane_create (jsonl_ops (doc_env healthy 0) doc_wire) doc_lane_serde sample_runtime_config ''main'' None sample_cx
     (session_new sample_metadata (doc_world storage_new [104, 10]) generator_default True) = (Inr new_lane_data, s')"
    using doc_lane_create by blast
  then show ?thesis
    by (intro exI [of _ s'] conjI lane_stays_coherent [OF doc_lane_serde_ok _ s'])
      (simp_all add: doc_lane_env_def lane_of_def)
qed

text \<open>
  C8. A restart resumes a lane. Opening the session file of a coherent lane again, and restoring the
  lane from it, gives the lane as it was cached: its tip, its configuration, its inbox and its open
  operation in the state it was in, with the stored result of its last settled operation. The file has
  one of the histories of \<open>jsonl_history\<close>, and that stored result, if any, can be decoded.
\<close>

theorem restart_resumes_lane:
  assumes "lane_agrees ld rest (view_of jsonl_val rt)" and "lr_fault rt = None"
    and x: "x = bk_storage (lr_session rt)" "jsonl_history w lg hs committed x" "wire_ok w hs committed"
    and "io_fault io Io_read = None" and live: "\<not> cx_cancelled cx"
    and "result_readable ld (jsonl_val x) (ls_last_operation_id (la_state (lr_data rt)))"
  shows "\<exists>handle. open_sync io w lg (path_of x) (jw_fs x) = (Inr (header_of x, handle), jw_fs x) \<and>
    restore_lane (jsonl_ops env w) ld (session_new metadata (x\<lparr>jw_storage := handle\<rparr>) generator hook) cx (lr_name rt) =
      Inr (Some ((lr_data rt)\<lparr>la_last_result := stored_result ld (jsonl_val x) (ls_last_operation_id (la_state (lr_data rt)))\<rparr>))"
proof (intro exI conjI)
  let ?h = "jsonl_handle (js_inner (jw_storage x)) (path_of x)"
  let ?s = "session_new metadata (x\<lparr>jw_storage := ?h\<rparr>) generator hook"
  show "open_sync io w lg (path_of x) (jw_fs x) = (Inr (header_of x, ?h), jw_fs x)"
    using open_durable [OF jsonl_history_durable [OF x(2,3)] assms(6)] .
  have val: "jsonl_val (bk_storage ?s) = jsonl_val x" "\<not> bk_closed ?s" "jsonl_live (bk_storage ?s)"
    by (simp_all add: session_new_def jsonl_val_def memory_of_def mem_val_def fun_eq_iff jsonl_handle_def jsonl_live_def)
  have "durable_lane ld (jsonl_val x) (lr_name rt) (lr_data rt)" "resumable (lr_data rt)"
    using assms(1,2) x(1) by (auto simp: lane_agrees_def coherent_def)
  then show "restore_lane (jsonl_ops env w) ld ?s cx (lr_name rt) =
      Inr (Some ((lr_data rt)\<lparr>la_last_result := stored_result ld (jsonl_val x) (ls_last_operation_id (la_state (lr_data rt)))\<rparr>))"
    using jsonl.restore_durable [OF val(2) live val(3)] assms(8) unfolding val(1) by blast
qed

lemma lane_session_coherent: "coherent doc_lane_serde {} (view_of jsonl_val (lane_of lane_session new_lane_data))"
  by (simp add: coherent_defs others_def resumable_def view_of_def lane_of_def session_new_def new_lane_data_def lane_data_new_def
      lane_state_default_def stored_def jsonl_val_def mem_val_def lane_session_def doc_world_def lane_doc_state_def
      doc_lane_serde_def table_codec_def tip_codec_def doc_serde_def doc_tip_of_def branch_tip_def)

theorem restart_resumes_lane_witness:
  "\<exists>handle. open_sync (doc_io healthy 0) doc_wire doc_legacy ''s'' (jw_fs lane_session) =
      (Inr (doc_header None, handle), jw_fs lane_session) \<and>
    restore_lane (jsonl_ops (doc_env healthy 0) doc_wire) doc_lane_serde
      (session_new sample_metadata (lane_session\<lparr>jw_storage := handle\<rparr>) generator_default True) sample_cx ''main'' =
      Inr (Some new_lane_data)"
proof -
  let ?rt = "lane_of lane_session new_lane_data"
  have rt: "lr_name ?rt = ''main''" "lr_data ?rt = new_lane_data" "lr_fault ?rt = None" "bk_storage (lr_session ?rt) = lane_session"
    by (simp_all add: lane_of_def session_new_def)
  have none: "ls_last_operation_id (la_state new_lane_data) = None" "new_lane_data\<lparr>la_last_result := None\<rparr> = new_lane_data"
    and cx: "\<not> cx_cancelled sample_cx" "io_fault (doc_io healthy 0) Io_read = None"
    by (simp_all add: new_lane_data_def lane_data_new_def lane_state_default_def sample_cx_def doc_io_def)
  have x: "path_of lane_session = ''s''" "header_of lane_session = doc_header None"
    by (simp_all add: lane_session_def doc_world_def)
  show ?thesis
    using restart_resumes_lane [OF coherent_agrees [OF lane_session_coherent] rt(3) rt(4) [symmetric] lane_session_history doc_wire_ok
        cx(2,1), of "doc_env healthy 0" sample_metadata generator_default True]
    by (simp add: rt none x result_readable_def stored_result_def)
qed

section \<open>The inbox\<close>

text \<open>How many items of a kind one selection may release.\<close>

definition released :: "queue_mode \<Rightarrow> queue_mode \<Rightarrow> inbox_item_kind \<Rightarrow> inbox_item list \<Rightarrow> inbox_item list" where
  "released steering follow_up kind items =
     (if kind = Steer \<and> steering = OneAtATime \<or> kind = FollowUp \<and> follow_up = OneAtATime then take 1 items else items)"

lemma select_loop_kind:
  "filter (\<lambda>item. ii_kind item = kind) (select_inbox_loop steering follow_up steer follow items) =
     (if (kind = Steer \<and> steering = OneAtATime \<and> steer) \<or> (kind = FollowUp \<and> follow_up = OneAtATime \<and> follow) then []
      else released steering follow_up kind (filter (\<lambda>item. ii_kind item = kind) items))"
proof (induction items arbitrary: steer follow steering follow_up kind)
  case (Cons item items)
  show ?case
    by (cases "ii_kind item"; cases steering; cases follow_up) (auto simp: Cons.IH released_def Let_def)
qed (simp add: released_def)

lemma select_loop_subseq: "subseq (select_inbox_loop steering follow_up steer follow items) items"
  by (induction items arbitrary: steer follow) (auto simp: Let_def)

lemma remaining_complement:
  assumes "subseq selected inbox" and "distinct (map ii_entry_id inbox)"
  shows "mset selected + mset (remaining_inbox inbox selected) = mset inbox"
proof -
  have inj: "inj_on ii_entry_id (set inbox)" and d: "distinct inbox"
    using assms(2) by (auto simp: distinct_map)
  have sub: "set selected \<subseteq> set inbox" "distinct selected"
    using assms(1) d by (auto simp: subseq_conv_nths dest: in_set_nthsD)
  have "remaining_inbox inbox selected = filter (\<lambda>item. item \<notin> set selected) inbox"
    unfolding remaining_inbox_def using inj sub(1) by (intro filter_cong) (auto dest: inj_onD)
  moreover have "mset selected = mset (filter (\<lambda>item. item \<in> set selected) inbox)"
    using d sub by (intro set_eq_iff_mset_eq_distinct [THEN iffD1]) auto
  ultimately show ?thesis
    by (simp add: multiset_partition [of "mset inbox" "\<lambda>item. item \<in> set selected", symmetric] mset_filter)
qed

text \<open>
  Inbox selection: one selection of queued items keeps the order of the inbox and takes, of
  every kind, exactly the items its mode releases: all of them, or only the oldest one in
  one-at-a-time mode; writes and next-run items always pass. When the queued items have distinct
  entry ids, selected and remaining items together are the inbox, nothing lost and nothing doubled.
\<close>

theorem inbox_selection:
  "subseq (select_inbox inbox steering follow_up) inbox \<and>
   filter (\<lambda>item. ii_kind item = kind) (select_inbox inbox steering follow_up) =
     released steering follow_up kind (filter (\<lambda>item. ii_kind item = kind) inbox) \<and>
   (distinct (map ii_entry_id inbox) \<longrightarrow>
      mset (select_inbox inbox steering follow_up) + mset (remaining_inbox inbox (select_inbox inbox steering follow_up)) = mset inbox)"
  using select_loop_subseq [of steering follow_up False False inbox] remaining_complement
  by (auto simp: select_inbox_def select_loop_kind)

theorem inbox_selection_witness:
  "mset (select_inbox [pending_write ''a'' Steer, pending_write ''b'' Steer] OneAtATime QueueAll) +
   mset (remaining_inbox [pending_write ''a'' Steer, pending_write ''b'' Steer]
     (select_inbox [pending_write ''a'' Steer, pending_write ''b'' Steer] OneAtATime QueueAll)) =
   mset [pending_write ''a'' Steer, pending_write ''b'' Steer]"
  using inbox_selection [of "[pending_write ''a'' Steer, pending_write ''b'' Steer]" OneAtATime QueueAll]
  by (simp add: pending_write_def)

section \<open>Prompt templates\<close>

lemma replace_all_absent: "pat \<noteq> [] \<Longrightarrow> hd pat \<notin> set str \<Longrightarrow> replace_all pat rep str = str"
proof (induction str)
  case (Cons c str)
  then have "take (length pat) (c # str) \<noteq> pat"
    by (cases pat) auto
  with Cons show ?case by (subst replace_all.simps) simp
qed (simp add: replace_all.simps)

lemma expand_template_plain: "CHR ''{'' \<notin> set str \<Longrightarrow> expand_template index args str = str"
  by (induction args arbitrary: index) (simp_all add: replace_all_absent)

text \<open>
  A template that counts its placeholders from zero loses its second argument: because every
  argument replaces both its own and the next index, \<open>{1}\<close> always shows the first argument.
\<close>

theorem template_second_argument_lost:
  assumes "CHR ''{'' \<notin> set arg"
  shows "expand_template 0 (arg # args) ''{1}'' = arg"
proof -
  have "show_nat 0 = ''0''" "show_nat (Suc 0) = ''1''"
    by code_simp+
  moreover have "replace_all ''{0}'' arg ''{1}'' = ''{1}''" "replace_all ''{1}'' arg ''{1}'' = arg"
    by (simp_all add: replace_all.simps)
  ultimately show ?thesis
    using assms by (simp add: expand_template_plain)
qed

theorem template_second_argument_lost_witness: "expand_template 0 [''first'', ''second''] ''{1}'' = ''first''"
  using template_second_argument_lost [of "''first''" "[''second'']"] by simp

section \<open>States a restart refuses\<close>

lemma restore_lanes_Inl:
  "restore_lane ops ld s cx name = Inl e \<Longrightarrow> name \<in> set names \<Longrightarrow> \<exists>e. restore_lanes ops ld s cx names = Inl e"
proof (induction names)
  case (Cons n names)
  then show ?case
    by (cases "restore_lane ops ld s cx n") (auto simp: rbind_def split: sum.split)
qed simp

definition summarizing :: "'j op_state \<Rightarrow> bool" where
  "summarizing state \<longleftrightarrow> state_at state \<in> {At_SummaryDeciding, At_SummaryReady, At_SummaryEffectPending, At_SummaryRetryWait}"

lemma summarizing_run:
  "summarizing state \<Longrightarrow> validate_state_intent (IntentRun prompts) state = Inl (Invariant ''operation state does not match its Run intent'')"
  by (cases state) (simp_all add: summarizing_def validate_state_intent_def state_kind_def)

text \<open>
  C40. A run that compacts its own context cannot be resumed: once such a run is stored in one of the
  summary states, restoring its lane fails with an invariant error, although the session stores
  exactly what the lane had cached, and with it the restoring of every lane of the session fails.
\<close>

theorem compacting_run_not_restored:
  assumes "durable_lane ld (jsonl_val (bk_storage s)) name d" and "\<not> bk_closed s" "\<not> cx_cancelled cx" "jsonl_live (bk_storage s)"
    and "la_operation d = Some operation" and "om_intent (op_meta operation) = IntentRun prompts"
    and "summarizing (op_state_of operation)" and "name \<in> set names"
  shows "restore_lane (jsonl_ops env w) ld s cx name = Inl (Invariant ''operation state does not match its Run intent'') \<and>
    (\<exists>e. restore_lanes (jsonl_ops env w) ld s cx names = Inl e)"
proof -
  have "restore_lane (jsonl_ops env w) ld s cx name = Inl (Invariant ''operation state does not match its Run intent'')"
    using summarizing_run [OF assms(7), of prompts] by (intro jsonl.restore_mismatch [OF assms(2-4,1,5)]) (simp add: assms(6))
  with restore_lanes_Inl [OF this assms(8)] show ?thesis by simp
qed

definition compacting_operation :: "sample_doc operation" where
  "compacting_operation = \<lparr>op_meta = operation_meta_of ''r'' ''main'' None 7 (IntentRun [''p'']),
     op_state_of = SummaryDeciding (operation_scope_of (sample_runtime_config :: sample_doc runtime_config))
       \<lparr>st_task_id = ''r:compaction:p'', st_reason = Some Threshold, st_custom_instructions = None,
        st_boundary = ResumeCheckpoint \<lparr>cp_continuation = NeedAssistant False, cp_trigger_entry_id = ''p''\<rparr>\<rparr>\<rparr>"

definition compacting_data :: "sample_doc lane_data" where
  "compacting_data = new_lane_data\<lparr>la_state := lane_state_default\<lparr>ls_current_operation_id := Some ''r''\<rparr>,
     la_operation := Some compacting_operation\<rparr>"

definition compacting_serde :: "(sample_doc, nat) lane_serde" where
  "compacting_serde = doc_lane_serde\<lparr>ld_state := table_codec [(la_state compacting_data, DocText ''state'')],
     ld_meta := table_codec [(op_meta compacting_operation, DocText ''meta'')],
     ld_op_state := table_codec [(op_state_of compacting_operation, DocText ''summary'')]\<rparr>"

definition sample_slot :: "string \<Rightarrow> string \<Rightarrow> sample_doc \<Rightarrow> (string \<times> string) \<times> sample_doc raw_stored_value" where
  "sample_slot ns k v = ((ns, k), \<lparr>rv_namespace = ns, rv_key = k, rv_kind = Ak_Value, rv_value = v, rv_seq = 1\<rparr>)"

definition compacting_session :: "((sample_doc, nat) jsonl_world, generator_state) backed_session" where
  "compacting_session = session_new sample_metadata (doc_world (storage_new\<lparr>st_values :=
     [sample_slot ''pi.branch.tip'' ''main'' (DocText ''root''), sample_slot ''pi.lane.config'' ''main'' (DocText ''config''),
      sample_slot ''pi.lane.state'' ''main'' (DocText ''state''), sample_slot ''pi.op.meta'' ''r'' (DocText ''meta''),
      sample_slot ''pi.op.state'' ''r'' (DocText ''summary'')]\<rparr>) []) generator_default True"

lemma compacting_durable: "durable_lane compacting_serde (jsonl_val (bk_storage compacting_session)) ''main'' compacting_data"
  by (simp add: durable_lane_def durable_operation_def stored_def compacting_session_def session_new_def jsonl_val_def mem_val_def doc_world_def
      sample_slot_def compacting_serde_def table_codec_def compacting_data_def new_lane_data_def lane_data_new_def doc_lane_serde_def
      tip_codec_def doc_serde_def doc_tip_of_def branch_tip_def)
    (simp add: compacting_operation_def operation_meta_of_def)

theorem compacting_run_not_restored_witness:
  "\<exists>e. restore_lanes (jsonl_ops (doc_env healthy 0) doc_wire) compacting_serde compacting_session sample_cx [''main''] = Inl e"
proof -
  have "\<not> bk_closed compacting_session" "\<not> cx_cancelled sample_cx" "jsonl_live (bk_storage compacting_session)"
    by (simp_all add: compacting_session_def session_new_def sample_cx_def jsonl_live_def doc_world_def)
  moreover have "la_operation compacting_data = Some compacting_operation" "om_intent (op_meta compacting_operation) = IntentRun [''p'']"
    "summarizing (op_state_of compacting_operation)"
    by (simp_all add: compacting_data_def compacting_operation_def operation_meta_of_def summarizing_def)
  ultimately show ?thesis
    using compacting_run_not_restored [OF compacting_durable, of sample_cx compacting_operation "[''p'']" "[''main'']" "doc_env healthy 0" doc_wire]
    by simp
qed

end
