(* ===== verification/Assistant_Frames.thy ===== *)
theory Assistant_Frames
  imports Session_Types
begin

text \<open>
  Progress frames of one assistant response (\<open>pi-ai/src/assistant_message_frame.rs\<close>): the encoder
  that turns provider events into frames, and the reducer that rebuilds the message from the frames
  that were stored. The \<open>HashMap\<close>s of block states are association lists with one entry per key; the
  only loop over one (the unfinished tool calls) touches a different block with each entry.
  An encoder is not used again after an error, so an error carries no encoder.
\<close>

section \<open>Events and frames\<close>

datatype done_reason = DoneStop | DoneLength | DoneToolUse | DoneDeferred

datatype error_reason = ErrorAborted | ErrorFailed

datatype ('j, 'f) assistant_event =
  EvStart "('j, 'f) assistant_message"
| EvTextStart u64 "('j, 'f) assistant_message"
| EvTextDelta u64 string "('j, 'f) assistant_message"
| EvTextEnd u64 string "('j, 'f) assistant_message"
| EvThinkingStart u64 "('j, 'f) assistant_message"
| EvThinkingDelta u64 string "('j, 'f) assistant_message"
| EvThinkingEnd u64 string "('j, 'f) assistant_message"
| EvToolCallStart u64 "('j, 'f) assistant_message"
| EvToolCallDelta u64 string "('j, 'f) assistant_message"
| EvToolCallEnd u64 "'j tool_call" "('j, 'f) assistant_message"
| EvDone done_reason "('j, 'f) assistant_message"
| EvError error_reason "('j, 'f) assistant_message"

datatype ('j, 'f) assistant_frame =
  FrStart "('j, 'f) assistant_message"
| FrTextStart u64 text_content
| FrTextDelta u64 string
| FrTextEnd u64 string "string option"
| FrThinkingStart u64 thinking_content
| FrThinkingDelta u64 string
| FrThinkingEnd u64 string "string option" "bool option"
| FrToolCallStart u64 "'j tool_call"
| FrToolCallCheckpoint u64 string
| FrToolCallDelta u64 string
| FrToolCallEnd u64 string string "(string \<times> 'j) list" "string option" "string option"

text \<open>
  What the codec asks of JSON: \<open>parse_streaming_json\<close>, \<open>serialized_arguments\<close> (\<open>None\<close> for its error)
  and \<open>is_json_prefix\<close> on two objects. \<open>Streaming_Json\<close> has the source's functions.
\<close>

record 'j args_ops =
  ao_parse :: "string \<Rightarrow> (string \<times> 'j) list"
  ao_serialize :: "(string \<times> 'j) list \<Rightarrow> string option"
  ao_prefix :: "(string \<times> 'j) list \<Rightarrow> (string \<times> 'j) list \<Rightarrow> bool"

datatype block_kind = BkText | BkThinking | BkToolCall

fun block_kind_name :: "block_kind \<Rightarrow> string" where
  "block_kind_name BkText = ''text''"
| "block_kind_name BkThinking = ''thinking''"
| "block_kind_name BkToolCall = ''toolCall''"

fun content_kind :: "'j assistant_content \<Rightarrow> block_kind" where
  "content_kind (AssistantText _) = BkText"
| "content_kind (AssistantThinking _) = BkThinking"
| "content_kind (AssistantToolCall _) = BkToolCall"

fun event_type :: "('j, 'f) assistant_event \<Rightarrow> string" where
  "event_type (EvStart _) = ''start''"
| "event_type (EvTextStart _ _) = ''text_start''"
| "event_type (EvTextDelta _ _ _) = ''text_delta''"
| "event_type (EvTextEnd _ _ _) = ''text_end''"
| "event_type (EvThinkingStart _ _) = ''thinking_start''"
| "event_type (EvThinkingDelta _ _ _) = ''thinking_delta''"
| "event_type (EvThinkingEnd _ _ _) = ''thinking_end''"
| "event_type (EvToolCallStart _ _) = ''toolcall_start''"
| "event_type (EvToolCallDelta _ _ _) = ''toolcall_delta''"
| "event_type (EvToolCallEnd _ _ _) = ''toolcall_end''"
| "event_type (EvDone _ _) = ''done''"
| "event_type (EvError _ _) = ''error''"

fun frame_type :: "('j, 'f) assistant_frame \<Rightarrow> string" where
  "frame_type (FrStart _) = ''start''"
| "frame_type (FrTextStart _ _) = ''text_start''"
| "frame_type (FrTextDelta _ _) = ''text_delta''"
| "frame_type (FrTextEnd _ _ _) = ''text_end''"
| "frame_type (FrThinkingStart _ _) = ''thinking_start''"
| "frame_type (FrThinkingDelta _ _) = ''thinking_delta''"
| "frame_type (FrThinkingEnd _ _ _ _) = ''thinking_end''"
| "frame_type (FrToolCallStart _ _) = ''toolcall_start''"
| "frame_type (FrToolCallCheckpoint _ _) = ''toolcall_checkpoint''"
| "frame_type (FrToolCallDelta _ _) = ''toolcall_delta''"
| "frame_type (FrToolCallEnd _ _ _ _ _ _) = ''toolcall_end''"

text \<open>A frame error is its message.\<close>

definition frame_index_limit :: u64 where
  "frame_index_limit = 9007199254740991"

definition checked_index :: "u64 \<Rightarrow> string + nat" where
  "checked_index i =
     (if frame_index_limit < i then Inl (''Invalid assistant message frame contentIndex: '' @ show_word i)
      else Inr (unat i))"

definition event_block :: "('j, 'f) assistant_message \<Rightarrow> u64 \<Rightarrow> string \<Rightarrow> string + 'j assistant_content" where
  "event_block partial i ty =
     rbind (checked_index i) (\<lambda>n.
     if n < length (am_content partial) then Inr (am_content partial ! n)
     else Inl (ty @ '' event has no content block at index '' @ show_word i))"

section \<open>The encoder\<close>

datatype encoder_state = EncText | EncThinking | EncToolCall bool string string

fun encoder_kind :: "encoder_state \<Rightarrow> block_kind" where
  "encoder_kind EncText = BkText"
| "encoder_kind EncThinking = BkThinking"
| "encoder_kind (EncToolCall _ _ _) = BkToolCall"

record frame_encoder =
  fe_started :: bool
  fe_terminal :: bool
  fe_blocks :: "(u64, encoder_state) btree_map"
  fe_next_content_index :: u64

definition frame_encoder_new :: frame_encoder where
  "frame_encoder_new = \<lparr>fe_started = False, fe_terminal = False, fe_blocks = [], fe_next_content_index = 0\<rparr>"

type_synonym ('j, 'f) encoded = "string + ('j, 'f) assistant_frame option \<times> frame_encoder"

definition start_block :: "u64 \<Rightarrow> encoder_state \<Rightarrow> frame_encoder \<Rightarrow> string + frame_encoder" where
  "start_block i state enc =
     rbind (checked_index i) (\<lambda>_.
     if bt_contains (fe_blocks enc) i
     then Inl (''Assistant message block '' @ show_word i @ '' starts more than once'')
     else if i \<noteq> fe_next_content_index enc
     then Inl (''Cannot start assistant message block at index '' @ show_word i @ '': expected '' @
       show_word (fe_next_content_index enc))
     else Inr (enc\<lparr>fe_blocks := bt_insert i state (fe_blocks enc),
       fe_next_content_index := fe_next_content_index enc + 1\<rparr>))"

definition encoder_block :: "u64 \<Rightarrow> block_kind \<Rightarrow> frame_encoder \<Rightarrow> string + encoder_state" where
  "encoder_block i kind enc =
     rbind (checked_index i) (\<lambda>_.
     case bt_get (fe_blocks enc) i of
       None \<Rightarrow> Inl (''Assistant message '' @ block_kind_name kind @ '' block '' @ show_word i @ '' has not started'')
     | Some state \<Rightarrow>
         if encoder_kind state \<noteq> kind
         then Inl (''Assistant message block '' @ show_word i @ '' is '' @ block_kind_name (encoder_kind state) @
           '', not '' @ block_kind_name kind)
         else Inr state)"

definition end_block :: "u64 \<Rightarrow> block_kind \<Rightarrow> frame_encoder \<Rightarrow> string + frame_encoder" where
  "end_block i kind enc =
     rbind (encoder_block i kind enc) (\<lambda>_. Inr (enc\<lparr>fe_blocks := bt_remove i (fe_blocks enc)\<rparr>))"

definition wrong_block :: "string \<Rightarrow> 'j assistant_content \<Rightarrow> u64 \<Rightarrow> string" where
  "wrong_block ty block i =
     ty @ '' event points to '' @ block_kind_name (content_kind block) @ '' block at index '' @ show_word i"

definition clone_start_message :: "('j, 'f::zero) assistant_message \<Rightarrow> ('j, 'f) assistant_message" where
  "clone_start_message m =
     (assistant_message_new (am_api m) (am_provider m) (am_model m) (am_timestamp m))
       \<lparr>am_response_model := am_response_model m, am_response_id := am_response_id m,
        am_provider_thinking_level := am_provider_thinking_level m, am_diagnostics := am_diagnostics m,
        am_usage := am_usage m, am_stop_reason := Sr_Pending\<rparr>"

definition encode_start :: "('j, 'f::zero) assistant_message \<Rightarrow> frame_encoder \<Rightarrow> ('j, 'f) encoded" where
  "encode_start partial enc =
     (if fe_started enc then Inl ''Assistant message stream contains more than one start event''
      else Inr (Some (FrStart (clone_start_message partial)), enc\<lparr>fe_started := True\<rparr>))"

definition encode_done :: "frame_encoder \<Rightarrow> ('j, 'f) encoded" where
  "encode_done enc =
     (if \<not> fe_started enc then Inl ''Assistant message done event appears before start''
      else Inr (None, enc\<lparr>fe_terminal := True\<rparr>))"

definition encode_text_start :: "u64 \<Rightarrow> ('j, 'f) assistant_message \<Rightarrow> frame_encoder \<Rightarrow> ('j, 'f) encoded" where
  "encode_text_start i partial enc =
     rbind (event_block partial i ''text_start'') (\<lambda>block.
     case block of
       AssistantText content \<Rightarrow>
         rbind (start_block i EncText enc) (\<lambda>enc. Inr (Some (FrTextStart i content), enc))
     | _ \<Rightarrow> Inl (wrong_block ''text_start'' block i))"

definition encode_text_end :: "u64 \<Rightarrow> string \<Rightarrow> ('j, 'f) assistant_message \<Rightarrow> frame_encoder \<Rightarrow> ('j, 'f) encoded" where
  "encode_text_end i content partial enc =
     rbind (event_block partial i ''text_end'') (\<lambda>block.
     case block of
       AssistantText t \<Rightarrow>
         rbind (end_block i BkText enc) (\<lambda>enc. Inr (Some (FrTextEnd i content (tc_text_signature t)), enc))
     | _ \<Rightarrow> Inl (wrong_block ''text_end'' block i))"

definition encode_thinking_start :: "u64 \<Rightarrow> ('j, 'f) assistant_message \<Rightarrow> frame_encoder \<Rightarrow> ('j, 'f) encoded" where
  "encode_thinking_start i partial enc =
     rbind (event_block partial i ''thinking_start'') (\<lambda>block.
     case block of
       AssistantThinking content \<Rightarrow>
         rbind (start_block i EncThinking enc) (\<lambda>enc. Inr (Some (FrThinkingStart i content), enc))
     | _ \<Rightarrow> Inl (wrong_block ''thinking_start'' block i))"

definition encode_thinking_end :: "u64 \<Rightarrow> string \<Rightarrow> ('j, 'f) assistant_message \<Rightarrow> frame_encoder \<Rightarrow> ('j, 'f) encoded" where
  "encode_thinking_end i content partial enc =
     rbind (event_block partial i ''thinking_end'') (\<lambda>block.
     case block of
       AssistantThinking t \<Rightarrow>
         rbind (end_block i BkThinking enc) (\<lambda>enc.
         Inr (Some (FrThinkingEnd i content (th_thinking_signature t) (th_redacted t)), enc))
     | _ \<Rightarrow> Inl (wrong_block ''thinking_end'' block i))"

definition serialized :: "'j args_ops \<Rightarrow> (string \<times> 'j) list \<Rightarrow> string + string" where
  "serialized ao arguments = ok_or (ao_serialize ao arguments) ''Tool-call arguments are not JSON-serializable''"

definition encode_tool_call_start ::
  "'j args_ops \<Rightarrow> u64 \<Rightarrow> ('j, 'f) assistant_message \<Rightarrow> frame_encoder \<Rightarrow> ('j, 'f) encoded" where
  "encode_tool_call_start ao i partial enc =
     rbind (event_block partial i ''toolcall_start'') (\<lambda>block.
     case block of
       AssistantToolCall call \<Rightarrow>
         rbind (serialized ao (tl_arguments call)) (\<lambda>snapshot_arguments.
         rbind (serialized ao (ao_parse ao [])) (\<lambda>empty_arguments.
         let caught_up = snapshot_arguments = empty_arguments in
         rbind (start_block i (EncToolCall caught_up [] (if caught_up then [] else snapshot_arguments)) enc) (\<lambda>enc.
         Inr (Some (FrToolCallStart i call), enc))))
     | _ \<Rightarrow> Inl (wrong_block ''toolcall_start'' block i))"

definition encode_tool_call_end ::
  "u64 \<Rightarrow> 'j tool_call \<Rightarrow> ('j, 'f) assistant_message \<Rightarrow> frame_encoder \<Rightarrow> ('j, 'f) encoded" where
  "encode_tool_call_end i call partial enc =
     rbind (event_block partial i ''toolcall_end'') (\<lambda>block.
     case block of
       AssistantToolCall _ \<Rightarrow>
         rbind (end_block i BkToolCall enc) (\<lambda>enc.
         Inr (Some (FrToolCallEnd i (tl_id call) (tl_name call) (tl_arguments call) (tl_thought_signature call)
           (tl_namespace call)), enc))
     | _ \<Rightarrow> Inl (wrong_block ''toolcall_end'' block i))"

definition encode_text_delta :: "u64 \<Rightarrow> string \<Rightarrow> block_kind \<Rightarrow> frame_encoder \<Rightarrow> ('j, 'f) encoded" where
  "encode_text_delta i delta kind enc =
     rbind (encoder_block i kind enc) (\<lambda>_.
     Inr (if delta = [] then None
          else Some (if kind = BkText then FrTextDelta i delta else FrThinkingDelta i delta), enc))"

definition encode_tool_call_delta :: "'j args_ops \<Rightarrow> u64 \<Rightarrow> string \<Rightarrow> frame_encoder \<Rightarrow> ('j, 'f) encoded" where
  "encode_tool_call_delta ao i delta enc =
     rbind (encoder_block i BkToolCall enc) (\<lambda>state.
     case state of
       EncToolCall caught_up catchup_json snapshot_arguments \<Rightarrow>
         if caught_up then Inr (if delta = [] then None else Some (FrToolCallDelta i delta), enc)
         else
           let json = catchup_json @ delta;
               arguments = ao_parse ao json in
           rbind (serialized ao arguments) (\<lambda>text.
           if text \<noteq> snapshot_arguments \<and> \<not> ao_prefix ao (ao_parse ao snapshot_arguments) arguments
           then Inr (None, enc\<lparr>fe_blocks := bt_insert i (EncToolCall False json snapshot_arguments) (fe_blocks enc)\<rparr>)
           else Inr (if json = [] then None else Some (FrToolCallCheckpoint i json),
             enc\<lparr>fe_blocks := bt_insert i (EncToolCall True [] []) (fe_blocks enc)\<rparr>))
     | _ \<Rightarrow> Inl ''Unreachable tool-call encoder state'')"

fun encode_event :: "'j args_ops \<Rightarrow> ('j, 'f::zero) assistant_event \<Rightarrow> frame_encoder \<Rightarrow> ('j, 'f) encoded" where
  "encode_event ao (EvStart partial) enc = encode_start partial enc"
| "encode_event ao (EvDone _ _) enc = encode_done enc"
| "encode_event ao (EvError _ _) enc = Inr (None, enc\<lparr>fe_terminal := True\<rparr>)"
| "encode_event ao (EvTextStart i partial) enc = encode_text_start i partial enc"
| "encode_event ao (EvTextDelta i delta _) enc = encode_text_delta i delta BkText enc"
| "encode_event ao (EvTextEnd i content partial) enc = encode_text_end i content partial enc"
| "encode_event ao (EvThinkingStart i partial) enc = encode_thinking_start i partial enc"
| "encode_event ao (EvThinkingDelta i delta _) enc = encode_text_delta i delta BkThinking enc"
| "encode_event ao (EvThinkingEnd i content partial) enc = encode_thinking_end i content partial enc"
| "encode_event ao (EvToolCallStart i partial) enc = encode_tool_call_start ao i partial enc"
| "encode_event ao (EvToolCallDelta i delta _) enc = encode_tool_call_delta ao i delta enc"
| "encode_event ao (EvToolCallEnd i call partial) enc = encode_tool_call_end i call partial enc"

fun opens_stream :: "('j, 'f) assistant_event \<Rightarrow> bool" where
  "opens_stream (EvStart _) = True"
| "opens_stream (EvDone _ _) = True"
| "opens_stream (EvError _ _) = True"
| "opens_stream _ = False"

definition encode_frame :: "'j args_ops \<Rightarrow> ('j, 'f::zero) assistant_event \<Rightarrow> frame_encoder \<Rightarrow> ('j, 'f) encoded" where
  "encode_frame ao event enc =
     (if fe_terminal enc
      then Inl (''Assistant message event '' @ event_type event @ '' follows a terminal event'')
      else if \<not> fe_started enc \<and> \<not> opens_stream event
      then Inl (''Assistant message '' @ event_type event @ '' event appears before start'')
      else encode_event ao event enc)"

text \<open>The frames of a sequence of events.\<close>

fun encode_all ::
  "'j args_ops \<Rightarrow> ('j, 'f::zero) assistant_event list \<Rightarrow> frame_encoder
    \<Rightarrow> string + ('j, 'f) assistant_frame list \<times> frame_encoder" where
  "encode_all ao [] enc = Inr ([], enc)"
| "encode_all ao (event # events) enc =
     rbind (encode_frame ao event enc) (\<lambda>(frame, enc).
     rbind (encode_all ao events enc) (\<lambda>(frames, enc).
     Inr ((case frame of None \<Rightarrow> frames | Some f \<Rightarrow> f # frames), enc)))"

section \<open>The reducer\<close>

datatype reducer_block = RedText bool | RedThinking bool | RedToolCall bool string

fun reducer_kind :: "reducer_block \<Rightarrow> block_kind" where
  "reducer_kind (RedText _) = BkText"
| "reducer_kind (RedThinking _) = BkThinking"
| "reducer_kind (RedToolCall _ _) = BkToolCall"

fun reducer_ended :: "reducer_block \<Rightarrow> bool" where
  "reducer_ended (RedText ended) = ended"
| "reducer_ended (RedThinking ended) = ended"
| "reducer_ended (RedToolCall ended _) = ended"

type_synonym reducer_states = "(u64, reducer_block) btree_map"
type_synonym ('j, 'f) reducing = "('j, 'f) assistant_message \<times> reducer_states"

definition append_block ::
  "u64 \<Rightarrow> 'j assistant_content \<Rightarrow> reducer_block \<Rightarrow> ('j, 'f) reducing \<Rightarrow> string + ('j, 'f) reducing" where
  "append_block i block state = (\<lambda>(message, states).
     rbind (checked_index i) (\<lambda>index.
     if index \<noteq> length (am_content message)
     then Inl (''Cannot start assistant message block at index '' @ show_word i @ '': '' @
       (if index < length (am_content message) then ''already exists'' else ''would leave a gap''))
     else Inr (message\<lparr>am_content := am_content message @ [block]\<rparr>, bt_insert i state states)))"

definition active_block ::
  "u64 \<Rightarrow> block_kind \<Rightarrow> string \<Rightarrow> ('j, 'f) reducing \<Rightarrow> string + 'j assistant_content \<times> reducer_block" where
  "active_block i kind ty = (\<lambda>(message, states).
     rbind (checked_index i) (\<lambda>index.
     case bt_get states i of
       None \<Rightarrow> Inl (ty @ '' frame has no started block at index '' @ show_word i)
     | Some state \<Rightarrow>
         if \<not> index < length (am_content message)
         then Inl (ty @ '' frame has no started block at index '' @ show_word i)
         else
           let block = am_content message ! index in
           if reducer_kind state \<noteq> kind \<or> content_kind block \<noteq> kind
           then Inl (ty @ '' frame expected '' @ block_kind_name kind @ '' block at index '' @ show_word i @
             '', found '' @ block_kind_name (content_kind block))
           else if reducer_ended state
           then Inl (ty @ '' frame follows the end of block at index '' @ show_word i)
           else Inr (block, state)))"

text \<open>Writing through the two references \<open>active_block\<close> returns.\<close>

definition put_block ::
  "u64 \<Rightarrow> 'j assistant_content \<Rightarrow> reducer_block \<Rightarrow> ('j, 'f) reducing \<Rightarrow> ('j, 'f) reducing" where
  "put_block i block state = (\<lambda>(message, states).
     (message\<lparr>am_content := (am_content message)[unat i := block]\<rparr>, bt_insert i state states))"

fun reduce_frame ::
  "'j args_ops \<Rightarrow> ('j, 'f) assistant_frame \<Rightarrow> ('j, 'f) reducing \<Rightarrow> string + ('j, 'f) reducing" where
  "reduce_frame ao (FrStart _) cur = Inl ''Assistant message frame sequence contains more than one start frame''"
| "reduce_frame ao (FrTextStart i content) cur = append_block i (AssistantText content) (RedText False) cur"
| "reduce_frame ao (FrTextDelta i delta) cur =
     rbind (active_block i BkText ''text_delta'' cur) (\<lambda>(block, state).
     case block of
       AssistantText t \<Rightarrow> Inr (put_block i (AssistantText (t\<lparr>tc_text := tc_text t @ delta\<rparr>)) state cur)
     | _ \<Rightarrow> Inl ''Unreachable text frame state'')"
| "reduce_frame ao (FrTextEnd i content signature) cur =
     rbind (active_block i BkText ''text_end'' cur) (\<lambda>(block, state).
     case (block, state) of
       (AssistantText t, RedText _) \<Rightarrow>
         Inr (put_block i (AssistantText (t\<lparr>tc_text := content, tc_text_signature := signature\<rparr>)) (RedText True) cur)
     | (AssistantText _, _) \<Rightarrow> Inl ''Unreachable text reducer state''
     | _ \<Rightarrow> Inl ''Unreachable text frame state'')"
| "reduce_frame ao (FrThinkingStart i content) cur =
     append_block i (AssistantThinking content) (RedThinking False) cur"
| "reduce_frame ao (FrThinkingDelta i delta) cur =
     rbind (active_block i BkThinking ''thinking_delta'' cur) (\<lambda>(block, state).
     case block of
       AssistantThinking t \<Rightarrow>
         Inr (put_block i (AssistantThinking (t\<lparr>th_thinking := th_thinking t @ delta\<rparr>)) state cur)
     | _ \<Rightarrow> Inl ''Unreachable thinking frame state'')"
| "reduce_frame ao (FrThinkingEnd i content signature redacted) cur =
     rbind (active_block i BkThinking ''thinking_end'' cur) (\<lambda>(block, state).
     case (block, state) of
       (AssistantThinking t, RedThinking _) \<Rightarrow>
         Inr (put_block i (AssistantThinking
           (t\<lparr>th_thinking := content, th_thinking_signature := signature, th_redacted := redacted\<rparr>)) (RedThinking True) cur)
     | (AssistantThinking _, _) \<Rightarrow> Inl ''Unreachable thinking reducer state''
     | _ \<Rightarrow> Inl ''Unreachable thinking frame state'')"
| "reduce_frame ao (FrToolCallStart i call) cur =
     append_block i (AssistantToolCall call) (RedToolCall False []) cur"
| "reduce_frame ao (FrToolCallCheckpoint i json) cur =
     rbind (active_block i BkToolCall ''toolcall_checkpoint'' cur) (\<lambda>(block, state).
     case (block, state) of
       (AssistantToolCall call, RedToolCall ended _) \<Rightarrow>
         Inr (put_block i (AssistantToolCall (call\<lparr>tl_arguments := ao_parse ao json\<rparr>)) (RedToolCall ended json) cur)
     | _ \<Rightarrow> Inl ''Unreachable tool-call checkpoint state'')"
| "reduce_frame ao (FrToolCallDelta i delta) cur =
     rbind (active_block i BkToolCall ''toolcall_delta'' cur) (\<lambda>(block, state).
     case state of
       RedToolCall ended json \<Rightarrow> Inr (put_block i block (RedToolCall ended (json @ delta)) cur)
     | _ \<Rightarrow> Inl ''Unreachable tool-call frame state'')"
| "reduce_frame ao (FrToolCallEnd i ident name arguments thought_signature namespace) cur =
     rbind (active_block i BkToolCall ''toolcall_end'' cur) (\<lambda>(block, state).
     case (block, state) of
       (AssistantToolCall call, RedToolCall _ json) \<Rightarrow>
         Inr (put_block i (AssistantToolCall (call\<lparr>tl_id := ident, tl_name := name, tl_arguments := arguments,
           tl_thought_signature := thought_signature, tl_namespace := namespace\<rparr>)) (RedToolCall True json) cur)
     | (AssistantToolCall _, _) \<Rightarrow> Inl ''Unreachable tool-call reducer state''
     | _ \<Rightarrow> Inl ''Unreachable tool-call frame state'')"

text \<open>The loop over the frames: the message once it has started, and the first frame before that.\<close>

fun reduce_loop ::
  "'j args_ops \<Rightarrow> ('j, 'f) assistant_frame list \<Rightarrow> ('j, 'f) reducing option \<Rightarrow> string option
    \<Rightarrow> string + ('j, 'f) reducing option" where
  "reduce_loop ao [] cur before = Inr cur"
| "reduce_loop ao (FrStart partial # frames) (Some cur) before =
     Inl ''Assistant message frame sequence contains more than one start frame''"
| "reduce_loop ao (FrStart partial # frames) None (Some ty) = Inl (ty @ '' frame appears before the start frame'')"
| "reduce_loop ao (FrStart partial # frames) None None = reduce_loop ao frames (Some (partial, [])) None"
| "reduce_loop ao (frame # frames) None before =
     reduce_loop ao frames None (if before = None then Some (frame_type frame) else before)"
| "reduce_loop ao (frame # frames) (Some cur) before =
     rbind (reduce_frame ao frame cur) (\<lambda>cur. reduce_loop ao frames (Some cur) before)"

text \<open>Tool calls without an end frame get the arguments their text amounts to.\<close>

fun finish_calls ::
  "'j args_ops \<Rightarrow> (u64 \<times> reducer_block) list \<Rightarrow> ('j, 'f) assistant_message \<Rightarrow> string + ('j, 'f) assistant_message" where
  "finish_calls ao [] message = Inr message"
| "finish_calls ao ((i, RedToolCall False json) # states) message =
     (if json = [] then finish_calls ao states message
      else rbind (checked_index i) (\<lambda>index.
        if index < length (am_content message)
        then (case am_content message ! index of
            AssistantToolCall call \<Rightarrow> finish_calls ao states (message\<lparr>am_content :=
              (am_content message)[index := AssistantToolCall (call\<lparr>tl_arguments := ao_parse ao json\<rparr>)]\<rparr>)
          | _ \<Rightarrow> Inl ''Unreachable tool-call frame state'')
        else Inl ''Unreachable tool-call frame state''))"
| "finish_calls ao (_ # states) message = finish_calls ao states message"

definition reduce_assistant_message_frames ::
  "'j args_ops \<Rightarrow> ('j, 'f) assistant_frame list \<Rightarrow> string + ('j, 'f) assistant_message option" where
  "reduce_assistant_message_frames ao frames =
     rbind (reduce_loop ao frames None None) (\<lambda>cur.
     case cur of
       None \<Rightarrow> Inr None
     | Some (message, states) \<Rightarrow> rbind (finish_calls ao states message) (\<lambda>message. Inr (Some message)))"

definition reduce_persisted_frames ::
  "'j args_ops \<Rightarrow> ('j, 'f) assistant_frame list \<Rightarrow> session_error + ('j, 'f) assistant_message" where
  "reduce_persisted_frames ao frames =
     rbind (map_err Invariant (reduce_assistant_message_frames ao frames)) (\<lambda>reduced.
     ok_or reduced (Invariant ''assistant message frames contain no start frame''))"

end
