(* ===== verification/Assistant_Replay.thy ===== *)
theory Assistant_Replay
  imports Assistant_Frames
begin

text \<open>
  Replaying stored frames: the reducer accepts whatever the encoder produced, and rebuilds the
  message the provider had last shown.
\<close>

section \<open>Encoder and reducer in step\<close>

definition in_step :: "frame_encoder \<Rightarrow> ('j, 'f) reducing \<Rightarrow> bool" where
  "in_step enc = (\<lambda>(message, states).
     bt_ok (fe_blocks enc) \<and> bt_ok states \<and> unat (fe_next_content_index enc) = length (am_content message) \<and>
     (\<forall>i st. bt_get (fe_blocks enc) i = Some st \<longrightarrow>
        (\<exists>rs. bt_get states i = Some rs \<and> reducer_kind rs = encoder_kind st \<and> \<not> reducer_ended rs)) \<and>
     (\<forall>i rs. bt_get states i = Some rs \<longrightarrow>
        i \<le> frame_index_limit \<and> unat i < length (am_content message) \<and>
        content_kind (am_content message ! unat i) = reducer_kind rs))"

lemma unat_index_add1: "i \<le> frame_index_limit \<Longrightarrow> unat (i + 1) = unat i + 1"
  by (auto simp: frame_index_limit_def word_le_nat_alt unat_word_ariths)

lemma checked_index_Inr: "checked_index i = Inr n \<longleftrightarrow> i \<le> frame_index_limit \<and> n = unat i"
  by (auto simp: checked_index_def)

lemma encoder_block_Inr:
  "encoder_block i kind enc = Inr st \<longleftrightarrow>
     i \<le> frame_index_limit \<and> bt_get (fe_blocks enc) i = Some st \<and> encoder_kind st = kind"
  by (auto simp: encoder_block_def rbind_eq_Inr_iff checked_index_Inr split: option.splits if_splits)

lemma start_block_Inr:
  "start_block i st enc = Inr enc' \<longleftrightarrow>
     i \<le> frame_index_limit \<and> bt_get (fe_blocks enc) i = None \<and> i = fe_next_content_index enc \<and>
     enc' = enc\<lparr>fe_blocks := bt_insert i st (fe_blocks enc), fe_next_content_index := i + 1\<rparr>"
  by (auto simp: start_block_def rbind_eq_Inr_iff checked_index_Inr split: if_splits)

lemma end_block_Inr:
  "end_block i kind enc = Inr enc' \<longleftrightarrow>
     (\<exists>st. encoder_block i kind enc = Inr st) \<and> enc' = enc\<lparr>fe_blocks := bt_remove i (fe_blocks enc)\<rparr>"
  by (auto simp: end_block_def rbind_eq_Inr_iff)

lemma event_block_Inr:
  "event_block partial i ty = Inr block \<longleftrightarrow>
     i \<le> frame_index_limit \<and> unat i < length (am_content partial) \<and> am_content partial ! unat i = block"
  by (auto simp: event_block_def rbind_eq_Inr_iff checked_index_Inr)

lemmas encoder_Inr = rbind_eq_Inr_iff start_block_Inr end_block_Inr event_block_Inr encoder_block_Inr

lemma append_in_step:
  assumes "in_step enc (message, states)" and "start_block i st enc = Inr enc'"
    and "content_kind block = reducer_kind rs" and "reducer_kind rs = encoder_kind st" and "\<not> reducer_ended rs"
  shows "append_block i block rs (message, states) =
      Inr (message\<lparr>am_content := am_content message @ [block]\<rparr>, bt_insert i rs states)"
    and "in_step enc' (message\<lparr>am_content := am_content message @ [block]\<rparr>, bt_insert i rs states)"
proof -
  from assms have i: "i \<le> frame_index_limit" "unat i = length (am_content message)"
    and enc': "enc' = enc\<lparr>fe_blocks := bt_insert i st (fe_blocks enc), fe_next_content_index := i + 1\<rparr>"
    by (auto simp: in_step_def start_block_Inr)
  then show "append_block i block rs (message, states) =
      Inr (message\<lparr>am_content := am_content message @ [block]\<rparr>, bt_insert i rs states)"
    by (simp add: append_block_def checked_index_def not_less)
  show "in_step enc' (message\<lparr>am_content := am_content message @ [block]\<rparr>, bt_insert i rs states)"
    using assms i unfolding enc'
    by (fastforce simp: in_step_def bt_simps bt_get_insert nth_append unat_index_add1 intro: less_SucI split: if_splits)
qed

lemma active_in_step:
  assumes "in_step enc cur" and "bt_get (fe_blocks enc) i = Some st"
  obtains block rs where "bt_get (snd cur) i = Some rs" and "active_block i (encoder_kind st) ty cur = Inr (block, rs)"
    and "block = am_content (fst cur) ! unat i" and "content_kind block = encoder_kind st"
    and "reducer_kind rs = encoder_kind st" and "\<not> reducer_ended rs" and "unat i < length (am_content (fst cur))"
proof -
  obtain message states where cur: "cur = (message, states)" by fastforce
  from assms obtain rs where rs: "bt_get states i = Some rs" "reducer_kind rs = encoder_kind st" "\<not> reducer_ended rs"
    unfolding cur in_step_def by (auto; blast)
  moreover from assms rs(1) have "i \<le> frame_index_limit" "unat i < length (am_content message)"
    "content_kind (am_content message ! unat i) = reducer_kind rs"
    unfolding cur in_step_def by auto
  ultimately show thesis
    by (intro that [of rs "am_content message ! unat i"]) (simp_all add: cur active_block_def checked_index_def not_less)
qed

lemma put_in_step:
  assumes "in_step enc cur" and "bt_get (snd cur) i = Some rs" and "content_kind block = reducer_kind rs"
    and "reducer_kind rs' = reducer_kind rs" and "\<not> reducer_ended rs \<Longrightarrow> reducer_ended rs' \<Longrightarrow> bt_get (fe_blocks enc) i = None"
    and "\<not> reducer_ended rs"
  shows "in_step enc (put_block i block rs' cur)"
  using assms
  by (fastforce simp: in_step_def put_block_def bt_simps bt_get_insert nth_list_update word_unat_eq_iff [symmetric]
      split: prod.splits if_splits)

lemma ended_in_step: "in_step enc cur \<Longrightarrow> in_step (enc\<lparr>fe_blocks := bt_remove i (fe_blocks enc)\<rparr>) cur"
  by (auto simp: in_step_def bt_simps bt_get_remove split: prod.splits if_splits)

lemma tool_state_in_step:
  "in_step enc cur \<Longrightarrow> bt_get (fe_blocks enc) i = Some (EncToolCall a b c) \<Longrightarrow>
   in_step (enc\<lparr>fe_blocks := bt_insert i (EncToolCall a' b' c') (fe_blocks enc)\<rparr>) cur"
  by (fastforce simp: in_step_def bt_simps bt_get_insert split: prod.splits if_splits)

lemma flags_in_step [simp]:
  "in_step (enc\<lparr>fe_started := b\<rparr>) cur = in_step enc cur" "in_step (enc\<lparr>fe_terminal := b\<rparr>) cur = in_step enc cur"
  by (simp_all add: in_step_def split: prod.splits)

lemma reduce_loop_step [simp]:
  "(\<And>p. f \<noteq> FrStart p) \<Longrightarrow>
   reduce_loop ao (f # frames) (Some cur) before = rbind (reduce_frame ao f cur) (\<lambda>cur. reduce_loop ao frames (Some cur) before)"
  by (cases f) simp_all

text \<open>One event after the start: the frame it gives is accepted, and leaves the two in step.\<close>

definition accepts :: "'j args_ops \<Rightarrow> ('j, 'f) assistant_frame option \<Rightarrow> ('j, 'f) reducing \<Rightarrow> ('j, 'f) reducing \<Rightarrow> bool" where
  "accepts ao frame cur cur' \<longleftrightarrow> (case frame of None \<Rightarrow> cur' = cur | Some f \<Rightarrow> (\<forall>p. f \<noteq> FrStart p) \<and> reduce_frame ao f cur = Inr cur')"

lemma start_accepted:
  assumes "in_step enc cur" and "start_block i st enc = Inr enc'"
    and "content_kind block = reducer_kind rs" and "reducer_kind rs = encoder_kind st" and "\<not> reducer_ended rs"
  shows "\<exists>cur'. append_block i block rs cur = Inr cur' \<and> in_step enc' cur'"
  using append_in_step [of enc "fst cur" "snd cur" i st enc' block rs] assms by auto

lemma kind_cases:
  "content_kind block = BkText \<longleftrightarrow> (\<exists>t. block = AssistantText t)"
  "content_kind block = BkThinking \<longleftrightarrow> (\<exists>t. block = AssistantThinking t)"
  "content_kind block = BkToolCall \<longleftrightarrow> (\<exists>t. block = AssistantToolCall t)"
  "reducer_kind rs = BkText \<longleftrightarrow> (\<exists>b. rs = RedText b)"
  "reducer_kind rs = BkThinking \<longleftrightarrow> (\<exists>b. rs = RedThinking b)"
  "reducer_kind rs = BkToolCall \<longleftrightarrow> (\<exists>b json. rs = RedToolCall b json)"
  "encoder_kind st = BkText \<longleftrightarrow> st = EncText"
  "encoder_kind st = BkThinking \<longleftrightarrow> st = EncThinking"
  "encoder_kind st = BkToolCall \<longleftrightarrow> (\<exists>a b c. st = EncToolCall a b c)"
  by (cases block; cases rs; cases st; simp)+

lemma delta_accepted:
  assumes step: "in_step enc cur" and blk: "encoder_block i kind enc = Inr st"
    and frame: "\<And>block rs. active_block i kind ty cur = Inr (block, rs) \<Longrightarrow> content_kind block = kind \<Longrightarrow>
      reducer_kind rs = kind \<Longrightarrow> \<not> reducer_ended rs \<Longrightarrow>
      \<exists>block' rs'. reduce_frame ao f cur = Inr (put_block i block' rs' cur) \<and> content_kind block' = kind \<and>
        reducer_kind rs' = kind \<and> \<not> reducer_ended rs'"
  shows "\<exists>cur'. reduce_frame ao f cur = Inr cur' \<and> in_step enc cur'"
proof -
  from blk have st: "bt_get (fe_blocks enc) i = Some st" "encoder_kind st = kind" by (auto simp: encoder_block_Inr)
  from active_in_step [OF step st(1), of ty] obtain block rs
    where a: "bt_get (snd cur) i = Some rs" "active_block i kind ty cur = Inr (block, rs)" "content_kind block = kind"
      "reducer_kind rs = kind" "\<not> reducer_ended rs"
    unfolding st(2) by blast
  from frame [OF a(2-5)] obtain block' rs' where b: "reduce_frame ao f cur = Inr (put_block i block' rs' cur)"
    "content_kind block' = kind" "reducer_kind rs' = kind" "\<not> reducer_ended rs'" by blast
  with put_in_step [OF step a(1), of block' rs'] a(4,5) show ?thesis by simp
qed

lemma end_accepted:
  assumes step: "in_step enc cur" and blk: "end_block i kind enc = Inr enc'"
    and frame: "\<And>block rs. active_block i kind ty cur = Inr (block, rs) \<Longrightarrow> content_kind block = kind \<Longrightarrow>
      reducer_kind rs = kind \<Longrightarrow>
      \<exists>block' rs'. reduce_frame ao f cur = Inr (put_block i block' rs' cur) \<and> content_kind block' = kind \<and>
        reducer_kind rs' = kind"
  shows "\<exists>cur'. reduce_frame ao f cur = Inr cur' \<and> in_step enc' cur'"
proof -
  from blk obtain st where st: "bt_get (fe_blocks enc) i = Some st" "encoder_kind st = kind"
    and enc': "enc' = enc\<lparr>fe_blocks := bt_remove i (fe_blocks enc)\<rparr>" by (auto simp: encoder_block_Inr end_block_Inr)
  from active_in_step [OF step st(1), of ty] obtain block rs
    where a: "bt_get (snd cur) i = Some rs" "active_block i kind ty cur = Inr (block, rs)" "content_kind block = kind"
      "reducer_kind rs = kind" "\<not> reducer_ended rs"
    unfolding st(2) by blast
  from frame [OF a(2-4)] obtain block' rs' where b: "reduce_frame ao f cur = Inr (put_block i block' rs' cur)"
    "content_kind block' = kind" "reducer_kind rs' = kind" by blast
  have "in_step enc' cur" "bt_get (fe_blocks enc') i = None"
    using ended_in_step [OF step] by (simp_all add: enc' bt_get_remove)
  with put_in_step [of enc' cur i rs block' rs'] a b show ?thesis by simp
qed

text \<open>When the encoder accepts an event, and what it makes of it.\<close>

lemma encode_text_start_Inr:
  "encode_text_start i p enc = Inr (fr, enc') \<longleftrightarrow> (\<exists>t. event_block p i ''text_start'' = Inr (AssistantText t) \<and>
     start_block i EncText enc = Inr enc' \<and> fr = Some (FrTextStart i t))"
  by (cases "event_block p i ''text_start''") (auto simp: encode_text_start_def rbind_eq_Inr_iff split: assistant_content.split)

lemma encode_thinking_start_Inr:
  "encode_thinking_start i p enc = Inr (fr, enc') \<longleftrightarrow> (\<exists>t. event_block p i ''thinking_start'' = Inr (AssistantThinking t) \<and>
     start_block i EncThinking enc = Inr enc' \<and> fr = Some (FrThinkingStart i t))"
  by (cases "event_block p i ''thinking_start''") (auto simp: encode_thinking_start_def rbind_eq_Inr_iff split: assistant_content.split)

lemma encode_tool_call_start_Inr:
  "encode_tool_call_start ao i p enc = Inr (fr, enc') \<longleftrightarrow> (\<exists>call s e. event_block p i ''toolcall_start'' = Inr (AssistantToolCall call) \<and>
     ao_serialize ao (tl_arguments call) = Some s \<and> ao_serialize ao (ao_parse ao []) = Some e \<and>
     start_block i (EncToolCall (s = e) [] (if s = e then [] else s)) enc = Inr enc' \<and> fr = Some (FrToolCallStart i call))"
  by (cases "event_block p i ''toolcall_start''")
    (auto simp: encode_tool_call_start_def serialized_def rbind_eq_Inr_iff Let_def split: assistant_content.split)

lemma encode_text_end_Inr:
  "encode_text_end i c p enc = Inr (fr, enc') \<longleftrightarrow> (\<exists>t. event_block p i ''text_end'' = Inr (AssistantText t) \<and>
     end_block i BkText enc = Inr enc' \<and> fr = Some (FrTextEnd i c (tc_text_signature t)))"
  by (cases "event_block p i ''text_end''") (auto simp: encode_text_end_def rbind_eq_Inr_iff split: assistant_content.split)

lemma encode_thinking_end_Inr:
  "encode_thinking_end i c p enc = Inr (fr, enc') \<longleftrightarrow> (\<exists>t. event_block p i ''thinking_end'' = Inr (AssistantThinking t) \<and>
     end_block i BkThinking enc = Inr enc' \<and> fr = Some (FrThinkingEnd i c (th_thinking_signature t) (th_redacted t)))"
  by (cases "event_block p i ''thinking_end''") (auto simp: encode_thinking_end_def rbind_eq_Inr_iff split: assistant_content.split)

lemma encode_tool_call_end_Inr:
  "encode_tool_call_end i call p enc = Inr (fr, enc') \<longleftrightarrow> (\<exists>t. event_block p i ''toolcall_end'' = Inr (AssistantToolCall t) \<and>
     end_block i BkToolCall enc = Inr enc' \<and>
     fr = Some (FrToolCallEnd i (tl_id call) (tl_name call) (tl_arguments call) (tl_thought_signature call) (tl_namespace call)))"
  by (cases "event_block p i ''toolcall_end''") (auto simp: encode_tool_call_end_def rbind_eq_Inr_iff split: assistant_content.split)

lemma encode_text_delta_Inr:
  "encode_text_delta i d kind enc = Inr (fr, enc') \<longleftrightarrow> (\<exists>st. encoder_block i kind enc = Inr st) \<and> enc' = enc \<and>
     fr = (if d = [] then None else Some (if kind = BkText then FrTextDelta i d else FrThinkingDelta i d))"
  by (auto simp: encode_text_delta_def rbind_eq_Inr_iff)

text \<open>The snapshot a tool call started with, reached by the text received since.\<close>

definition reached :: "'j args_ops \<Rightarrow> string \<Rightarrow> string \<Rightarrow> bool" where
  "reached ao snapshot json \<longleftrightarrow>
     ao_serialize ao (ao_parse ao json) = Some snapshot \<or> ao_prefix ao (ao_parse ao snapshot) (ao_parse ao json)"

lemma encode_tool_call_delta_Inr:
  assumes "encode_tool_call_delta ao i d enc = Inr (fr, enc')"
  obtains cu json snap where "encoder_block i BkToolCall enc = Inr (EncToolCall cu json snap)"
    and "cu \<Longrightarrow> enc' = enc \<and> fr = (if d = [] then None else Some (FrToolCallDelta i d))"
    and "\<not> cu \<Longrightarrow> \<not> reached ao snap (json @ d) \<Longrightarrow>
      fr = None \<and> enc' = enc\<lparr>fe_blocks := bt_insert i (EncToolCall False (json @ d) snap) (fe_blocks enc)\<rparr>"
    and "\<not> cu \<Longrightarrow> reached ao snap (json @ d) \<Longrightarrow>
      fr = (if json @ d = [] then None else Some (FrToolCallCheckpoint i (json @ d))) \<and>
      enc' = enc\<lparr>fe_blocks := bt_insert i (EncToolCall True [] []) (fe_blocks enc)\<rparr>"
proof -
  from assms obtain st where st: "encoder_block i BkToolCall enc = Inr st"
    by (auto simp: encode_tool_call_delta_def rbind_eq_Inr_iff)
  then obtain cu json snap where "st = EncToolCall cu json snap"
    by (auto simp: encoder_block_Inr kind_cases)
  with assms st show thesis
    by (intro that [of cu json snap])
      (auto simp: encode_tool_call_delta_def serialized_def reached_def Let_def rbind_eq_Inr_iff split: if_splits)
qed

lemmas encode_Inr = encode_text_start_Inr encode_thinking_start_Inr encode_tool_call_start_Inr encode_text_end_Inr
  encode_thinking_end_Inr encode_tool_call_end_Inr encode_text_delta_Inr

lemma frames_accepted:
  assumes "in_step enc cur"
  shows "encoder_block i BkText enc = Inr st \<Longrightarrow>
      \<exists>cur'. reduce_frame ao (FrTextDelta i d) cur = Inr cur' \<and> in_step enc cur'"
    and "encoder_block i BkThinking enc = Inr st \<Longrightarrow>
      \<exists>cur'. reduce_frame ao (FrThinkingDelta i d) cur = Inr cur' \<and> in_step enc cur'"
    and "encoder_block i BkToolCall enc = Inr st \<Longrightarrow>
      \<exists>cur'. reduce_frame ao (FrToolCallDelta i d) cur = Inr cur' \<and> in_step enc cur'"
    and "encoder_block i BkToolCall enc = Inr st \<Longrightarrow>
      \<exists>cur'. reduce_frame ao (FrToolCallCheckpoint i d) cur = Inr cur' \<and> in_step enc cur'"
    and "end_block i BkText enc = Inr enc' \<Longrightarrow>
      \<exists>cur'. reduce_frame ao (FrTextEnd i d sig) cur = Inr cur' \<and> in_step enc' cur'"
    and "end_block i BkThinking enc = Inr enc' \<Longrightarrow>
      \<exists>cur'. reduce_frame ao (FrThinkingEnd i d sig red) cur = Inr cur' \<and> in_step enc' cur'"
    and "end_block i BkToolCall enc = Inr enc' \<Longrightarrow>
      \<exists>cur'. reduce_frame ao (FrToolCallEnd i d nam arg sig nsp) cur = Inr cur' \<and> in_step enc' cur'"
    and "start_block i EncText enc = Inr enc' \<Longrightarrow>
      \<exists>cur'. reduce_frame ao (FrTextStart i t) cur = Inr cur' \<and> in_step enc' cur'"
    and "start_block i EncThinking enc = Inr enc' \<Longrightarrow>
      \<exists>cur'. reduce_frame ao (FrThinkingStart i th) cur = Inr cur' \<and> in_step enc' cur'"
    and "start_block i (EncToolCall cu json snap) enc = Inr enc' \<Longrightarrow>
      \<exists>cur'. reduce_frame ao (FrToolCallStart i call) cur = Inr cur' \<and> in_step enc' cur'"
proof -
  note [simp] = kind_cases
  show "encoder_block i BkText enc = Inr st \<Longrightarrow>
      \<exists>cur'. reduce_frame ao (FrTextDelta i d) cur = Inr cur' \<and> in_step enc cur'"
    by (rule delta_accepted [OF assms, where ty = "''text_delta''"]) (assumption | (clarsimp, (rule exI)+, rule conjI, rule refl, fastforce))+
  show "encoder_block i BkThinking enc = Inr st \<Longrightarrow>
      \<exists>cur'. reduce_frame ao (FrThinkingDelta i d) cur = Inr cur' \<and> in_step enc cur'"
    by (rule delta_accepted [OF assms, where ty = "''thinking_delta''"]) (assumption | (clarsimp, (rule exI)+, rule conjI, rule refl, fastforce))+
  show "encoder_block i BkToolCall enc = Inr st \<Longrightarrow>
      \<exists>cur'. reduce_frame ao (FrToolCallDelta i d) cur = Inr cur' \<and> in_step enc cur'"
    by (rule delta_accepted [OF assms, where ty = "''toolcall_delta''"]) (assumption | (clarsimp, (rule exI)+, rule conjI, rule refl, fastforce))+
  show "encoder_block i BkToolCall enc = Inr st \<Longrightarrow>
      \<exists>cur'. reduce_frame ao (FrToolCallCheckpoint i d) cur = Inr cur' \<and> in_step enc cur'"
    by (rule delta_accepted [OF assms, where ty = "''toolcall_checkpoint''"]) (assumption | (clarsimp, (rule exI)+, rule conjI, rule refl, fastforce))+
  show "end_block i BkText enc = Inr enc' \<Longrightarrow>
      \<exists>cur'. reduce_frame ao (FrTextEnd i d sig) cur = Inr cur' \<and> in_step enc' cur'"
    by (rule end_accepted [OF assms, where ty = "''text_end''"]) (assumption | (clarsimp, (rule exI)+, rule conjI, rule refl, fastforce))+
  show "end_block i BkThinking enc = Inr enc' \<Longrightarrow>
      \<exists>cur'. reduce_frame ao (FrThinkingEnd i d sig red) cur = Inr cur' \<and> in_step enc' cur'"
    by (rule end_accepted [OF assms, where ty = "''thinking_end''"]) (assumption | (clarsimp, (rule exI)+, rule conjI, rule refl, fastforce))+
  show "end_block i BkToolCall enc = Inr enc' \<Longrightarrow>
      \<exists>cur'. reduce_frame ao (FrToolCallEnd i d nam arg sig nsp) cur = Inr cur' \<and> in_step enc' cur'"
    by (rule end_accepted [OF assms, where ty = "''toolcall_end''"]) (assumption | (clarsimp, (rule exI)+, rule conjI, rule refl, fastforce))+
  show "start_block i EncText enc = Inr enc' \<Longrightarrow>
      \<exists>cur'. reduce_frame ao (FrTextStart i t) cur = Inr cur' \<and> in_step enc' cur'"
    and "start_block i EncThinking enc = Inr enc' \<Longrightarrow>
      \<exists>cur'. reduce_frame ao (FrThinkingStart i th) cur = Inr cur' \<and> in_step enc' cur'"
    and "start_block i (EncToolCall cu json snap) enc = Inr enc' \<Longrightarrow>
      \<exists>cur'. reduce_frame ao (FrToolCallStart i call) cur = Inr cur' \<and> in_step enc' cur'"
    using start_accepted [OF assms] by simp_all
qed

lemma encode_in_step:
  assumes step: "in_step enc cur" and enc: "encode_event ao ev enc = Inr (frame, enc')" and "\<And>p. ev \<noteq> EvStart p"
  shows "\<exists>cur'. accepts ao frame cur cur' \<and> in_step enc' cur'"
proof (cases "\<exists>i d p. ev = EvToolCallDelta i d p")
  case True
  then obtain i d p where ev: "ev = EvToolCallDelta i d p" by blast
  then have "encode_tool_call_delta ao i d enc = Inr (frame, enc')" using enc by simp
  then show ?thesis
  proof (cases rule: encode_tool_call_delta_Inr)
    case (1 cu json snap)
    note up = frames_accepted(3,4) [OF step 1(1), of ao]
    have state: "in_step (enc\<lparr>fe_blocks := bt_insert i (EncToolCall a b c) (fe_blocks enc)\<rparr>) cur'"
      if "in_step enc cur'" for a b c cur'
      using tool_state_in_step [OF that, of i cu json snap a b c] 1(1) by (simp add: encoder_block_Inr)
    show ?thesis
    proof (cases "cu \<or> \<not> reached ao snap (json @ d)")
      case True
      with 1 up(1) [of d] state [OF step] step show ?thesis by (cases cu) (auto simp: accepts_def simp del: split_paired_Ex)
    next
      case False
      with 1 up(2) [of "json @ d"] state state [OF step] step show ?thesis
        by (cases "json @ d = []") (auto simp: accepts_def simp del: split_paired_Ex split_paired_All reduce_frame.simps)
    qed
  qed
next
  case False
  with assms show ?thesis
    using frames_accepted [OF step, where ao = ao]
    by (cases ev) (auto simp: accepts_def encode_Inr encode_done_def simp del: split_paired_Ex reduce_frame.simps split: if_splits)
qed

lemma encode_started:
  "encode_event ao ev enc = Inr (frame, enc') \<Longrightarrow> fe_started enc \<Longrightarrow> fe_started enc'"
proof (cases "\<exists>i d p. ev = EvToolCallDelta i d p")
  case True
  moreover assume "encode_event ao ev enc = Inr (frame, enc')" "fe_started enc"
  ultimately show ?thesis
    by (auto elim!: encode_tool_call_delta_Inr)
next
  case False
  moreover assume "encode_event ao ev enc = Inr (frame, enc')" "fe_started enc"
  ultimately show ?thesis
    by (cases ev) (auto simp: encode_Inr encode_start_def encode_done_def start_block_Inr end_block_Inr split: if_splits)
qed

lemma encode_frame_Inr:
  "encode_frame ao ev enc = Inr x \<Longrightarrow> encode_event ao ev enc = Inr x"
  by (auto simp: encode_frame_def split: if_splits)

lemma started_not_start:
  "encode_frame ao ev enc = Inr x \<Longrightarrow> fe_started enc \<Longrightarrow> ev \<noteq> EvStart p"
  by (auto simp: encode_frame_def encode_start_def split: if_splits)

lemma reduce_loop_accepts:
  "accepts ao frame cur cur' \<Longrightarrow>
   reduce_loop ao (case frame of None \<Rightarrow> frames | Some f \<Rightarrow> f # frames) (Some cur) before = reduce_loop ao frames (Some cur') before"
  by (auto simp: accepts_def split: option.splits)

lemma encode_all_accepted:
  assumes "encode_all ao events enc = Inr (frames, enc')" and "in_step enc cur" and "fe_started enc"
  shows "\<exists>cur'. reduce_loop ao frames (Some cur) before = Inr (Some cur') \<and> in_step enc' cur'"
  using assms
proof (induction events arbitrary: enc cur frames)
  case (Cons ev events)
  then obtain frame enc1 rest where ev: "encode_frame ao ev enc = Inr (frame, enc1)"
    and rest: "encode_all ao events enc1 = Inr (rest, enc')" "frames = (case frame of None \<Rightarrow> rest | Some f \<Rightarrow> f # rest)"
    by (auto simp: rbind_eq_Inr_iff)
  note e = encode_frame_Inr [OF ev]
  obtain cur1 where "accepts ao frame cur cur1" "in_step enc1 cur1"
    using encode_in_step [OF Cons.prems(2) e started_not_start [OF ev Cons.prems(3)]] by blast
  with Cons.IH [OF rest(1) _ encode_started [OF e Cons.prems(3)]] show ?case
    by (simp add: rest(2) reduce_loop_accepts)
qed auto

text \<open>What is stored when a response breaks off is the encoding of the events that came first.\<close>

lemma encode_all_take:
  assumes "encode_all ao events enc = Inr (frames, enc')"
  shows "\<exists>events' enc1. encode_all ao events' enc = Inr (take k frames, enc1)"
  using assms
proof (induction events arbitrary: enc frames k)
  case (Cons ev events)
  then obtain frame enc1 rest where ev: "encode_frame ao ev enc = Inr (frame, enc1)"
    and rest: "encode_all ao events enc1 = Inr (rest, enc')" "frames = (case frame of None \<Rightarrow> rest | Some f \<Rightarrow> f # rest)"
    by (auto simp: rbind_eq_Inr_iff)
  show ?case
  proof (cases "k = 0")
    case True
    then show ?thesis by (intro exI [of _ "[]"] exI [of _ enc]) simp
  next
    case False
    let ?k = "case frame of None \<Rightarrow> k | Some _ \<Rightarrow> k - 1"
    obtain events' enc2 where "encode_all ao events' enc1 = Inr (take ?k rest, enc2)"
      using Cons.IH [OF rest(1)] by blast
    with ev rest(2) False show ?thesis
      by (intro exI [of _ "ev # events'"] exI [of _ enc2]) (auto simp: take_Cons' split: option.splits)
  qed
qed (auto intro: exI [of _ "[]"])

section \<open>Unfinished tool calls\<close>

fun finished :: "'j args_ops \<Rightarrow> reducer_block option \<Rightarrow> 'j assistant_content \<Rightarrow> 'j assistant_content" where
  "finished ao (Some (RedToolCall False json)) (AssistantToolCall call) =
     AssistantToolCall (if json = [] then call else call\<lparr>tl_arguments := ao_parse ao json\<rparr>)"
| "finished ao _ block = block"

lemma finished_None [simp]: "finished ao None block = block"
  by (cases block) simp_all

lemma finish_calls_content:
  assumes "distinct (map fst states)" and "length (am_content message) \<le> 2 ^ 64"
    and "\<forall>(i, rs) \<in> set states. i \<le> frame_index_limit \<and> unat i < length (am_content message) \<and>
      content_kind (am_content message ! unat i) = reducer_kind rs"
  shows "finish_calls ao states message = Inr (message\<lparr>am_content :=
    map (\<lambda>n. finished ao (map_of states (of_nat n)) (am_content message ! n)) [0..<length (am_content message)]\<rparr>)"
  using assms
proof (induction ao states message rule: finish_calls.induct)
  case (1 ao message)
  then show ?case by (simp add: map_nth)
next
  case (2 ao i json states message)
  from 2(5) obtain call where call: "am_content message ! unat i = AssistantToolCall call"
    and i: "i \<le> frame_index_limit" "unat i < length (am_content message)"
    by (auto simp: kind_cases)
  have fresh: "map_of states i = None"
    using 2(3) by (simp add: map_of_eq_None_iff)
  have eq: "of_nat n = i \<longleftrightarrow> n = unat i" if "n < length (am_content message)" for n
    using that 2(4) by (auto simp: unsigned_of_nat word_unat_eq_iff take_bit_nat_eq_self)
  show ?case
  proof (cases "json = []")
    case True
    with 2 show ?thesis
      by (auto simp: call eq fresh intro!: arg_cong [where f = "\<lambda>c. message\<lparr>am_content := c\<rparr>"] nth_equalityI)
  next
    case False
    let ?m = "message\<lparr>am_content := (am_content message)[unat i := AssistantToolCall (call\<lparr>tl_arguments := ao_parse ao json\<rparr>)]\<rparr>"
    have "finish_calls ao states ?m = Inr (?m\<lparr>am_content :=
      map (\<lambda>n. finished ao (map_of states (of_nat n)) (am_content ?m ! n)) [0..<length (am_content ?m)]\<rparr>)"
      by (rule 2(2) [OF False i(2) call]) (use 2(3-5) call in \<open>auto simp: nth_list_update split: prod.splits\<close>)
    then show ?thesis
      using False i call
      by (auto simp: checked_index_def not_less eq fresh nth_list_update
          intro!: arg_cong [where f = "\<lambda>c. message\<lparr>am_content := c\<rparr>"] nth_equalityI)
  qed
qed (auto intro!: arg_cong [where f = "\<lambda>c. message\<lparr>am_content := c\<rparr>" for message] nth_equalityI
      simp flip: map_of_eq_None_iff)

lemma in_step_finish:
  assumes "in_step enc (message, states)"
  shows "finish_calls ao states message = Inr (message\<lparr>am_content :=
    map (\<lambda>n. finished ao (bt_get states (of_nat n)) (am_content message ! n)) [0..<length (am_content message)]\<rparr>)"
proof (rule finish_calls_content)
  from assms have ok: "bt_ok states" and len: "unat (fe_next_content_index enc) = length (am_content message)"
    by (auto simp: in_step_def)
  show "distinct (map fst states)" by (rule bt.elems_distinct [OF ok])
  show "length (am_content message) \<le> 2 ^ 64"
    using unsigned_less [of "fe_next_content_index enc", where 'a = nat] len by simp
  show "\<forall>(i, rs) \<in> set states. i \<le> frame_index_limit \<and> unat i < length (am_content message) \<and>
      content_kind (am_content message ! unat i) = reducer_kind rs"
    using assms bt.mem_elems_iff [OF ok] by (auto simp: in_step_def)
qed

section \<open>The message a provider shows\<close>

text \<open>\<open>stream.rs\<close>: the snapshot a non-terminal event after the start carries.\<close>

fun event_partial :: "('j, 'f) assistant_event \<Rightarrow> ('j, 'f) assistant_message option" where
  "event_partial (EvTextStart _ p) = Some p"
| "event_partial (EvTextDelta _ _ p) = Some p"
| "event_partial (EvTextEnd _ _ p) = Some p"
| "event_partial (EvThinkingStart _ p) = Some p"
| "event_partial (EvThinkingDelta _ _ p) = Some p"
| "event_partial (EvThinkingEnd _ _ p) = Some p"
| "event_partial (EvToolCallStart _ p) = Some p"
| "event_partial (EvToolCallDelta _ _ p) = Some p"
| "event_partial (EvToolCallEnd _ _ p) = Some p"
| "event_partial (EvStart _) = None"
| "event_partial (EvDone _ _) = None"
| "event_partial (EvError _ _) = None"

definition shown :: "'j assistant_content list \<Rightarrow> ('j, 'f) assistant_event \<Rightarrow> 'j assistant_content list" where
  "shown content event = (case event_partial event of None \<Rightarrow> content | Some p \<Rightarrow> am_content p)"

text \<open>
  A provider that shows what it streams: each event's snapshot is the one before it with the event
  applied. For a tool call it keeps whether the argument text received since the block started has
  reached the arguments it started with, and that text; until then the snapshot is ahead of the text.
\<close>

type_synonym received = "u64 \<Rightarrow> bool \<times> string"

definition starts_block :: "block_kind \<Rightarrow> u64 \<Rightarrow> 'j assistant_content list \<Rightarrow> 'j assistant_content list \<Rightarrow> bool" where
  "starts_block kind i content content' \<longleftrightarrow>
     unat i = length content \<and> length content' = Suc (length content) \<and> take (length content) content' = content \<and>
     content_kind (content' ! length content) = kind"

fun receive :: "'j args_ops \<Rightarrow> ('j, 'f) assistant_event \<Rightarrow> 'j assistant_content list \<Rightarrow> received \<Rightarrow> received" where
  "receive ao (EvToolCallStart i p) content r = r(i :=
     (case am_content p ! unat i of
        AssistantToolCall call \<Rightarrow> ao_serialize ao (tl_arguments call) = ao_serialize ao (ao_parse ao [])
      | _ \<Rightarrow> False, []))"
| "receive ao (EvToolCallDelta i d p) content r = r(i :=
     (fst (r i) \<or> (case content ! unat i of
        AssistantToolCall call \<Rightarrow> (case ao_serialize ao (tl_arguments call) of
          Some snapshot \<Rightarrow> reached ao snapshot (snd (r i) @ d) | None \<Rightarrow> False)
      | _ \<Rightarrow> False), snd (r i) @ d))"
| "receive ao _ content r = r"

fun live_event :: "'j args_ops \<Rightarrow> ('j, 'f) assistant_event \<Rightarrow> 'j assistant_content list \<Rightarrow> received \<Rightarrow> bool" where
  "live_event ao (EvTextStart i p) content r \<longleftrightarrow> starts_block BkText i content (am_content p)"
| "live_event ao (EvTextDelta i d p) content r \<longleftrightarrow> (case content ! unat i of
     AssistantText t \<Rightarrow> am_content p = content[unat i := AssistantText (t\<lparr>tc_text := tc_text t @ d\<rparr>)] | _ \<Rightarrow> False)"
| "live_event ao (EvTextEnd i c p) content r \<longleftrightarrow> (case am_content p ! unat i of
     AssistantText t \<Rightarrow> tc_text t = c \<and> am_content p = content[unat i := AssistantText t] | _ \<Rightarrow> False)"
| "live_event ao (EvThinkingStart i p) content r \<longleftrightarrow> starts_block BkThinking i content (am_content p)"
| "live_event ao (EvThinkingDelta i d p) content r \<longleftrightarrow> (case content ! unat i of
     AssistantThinking t \<Rightarrow> am_content p = content[unat i := AssistantThinking (t\<lparr>th_thinking := th_thinking t @ d\<rparr>)] | _ \<Rightarrow> False)"
| "live_event ao (EvThinkingEnd i c p) content r \<longleftrightarrow> (case am_content p ! unat i of
     AssistantThinking t \<Rightarrow> th_thinking t = c \<and> am_content p = content[unat i := AssistantThinking t] | _ \<Rightarrow> False)"
| "live_event ao (EvToolCallStart i p) content r \<longleftrightarrow> starts_block BkToolCall i content (am_content p)"
| "live_event ao (EvToolCallDelta i d p) content r \<longleftrightarrow>
     (let (up, json) = receive ao (EvToolCallDelta i d p) content r i in
      case content ! unat i of
        AssistantToolCall call \<Rightarrow>
          am_content p = content[unat i :=
            AssistantToolCall (if up \<and> json \<noteq> [] then call\<lparr>tl_arguments := ao_parse ao json\<rparr> else call)]
      | _ \<Rightarrow> False)"
| "live_event ao (EvToolCallEnd i call p) content r \<longleftrightarrow> am_content p = content[unat i := AssistantToolCall call]"
| "live_event ao (EvStart _) content r \<longleftrightarrow> False"
| "live_event ao (EvDone _ _) content r \<longleftrightarrow> True"
| "live_event ao (EvError _ _) content r \<longleftrightarrow> True"

fun live_events :: "'j args_ops \<Rightarrow> ('j, 'f) assistant_event list \<Rightarrow> 'j assistant_content list \<Rightarrow> received \<Rightarrow> bool" where
  "live_events ao [] content r \<longleftrightarrow> True"
| "live_events ao (ev # events) content r \<longleftrightarrow>
     live_event ao ev content r \<and> live_events ao events (shown content ev) (receive ao ev content r)"

text \<open>What the reducer has, compared with what the provider shows.\<close>

definition rebuilt ::
  "'j args_ops \<Rightarrow> frame_encoder \<Rightarrow> ('j, 'f) reducing \<Rightarrow> 'j assistant_content list \<Rightarrow> received \<Rightarrow> bool" where
  "rebuilt ao enc = (\<lambda>(message, states) content r.
     length content = length (am_content message) \<and>
     (\<forall>i. unat i < length content \<longrightarrow> content ! unat i = finished ao (bt_get states i) (am_content message ! unat i)) \<and>
     (\<forall>i up text snap. bt_get (fe_blocks enc) i = Some (EncToolCall up text snap) \<longrightarrow>
        fst (r i) = up \<and> bt_get states i = Some (RedToolCall False (if up then snd (r i) else [])) \<and>
        (\<not> up \<longrightarrow> text = snd (r i) \<and>
           (\<exists>call. content ! unat i = AssistantToolCall call \<and> ao_serialize ao (tl_arguments call) = Some snap))))"

text \<open>The state of the tool call at index \<open>i\<close>, when the encoder has one open there.\<close>

definition call_rebuilt ::
  "'j args_ops \<Rightarrow> encoder_state option \<Rightarrow> reducer_block option \<Rightarrow> 'j assistant_content \<Rightarrow> bool \<times> string \<Rightarrow> bool" where
  "call_rebuilt ao est rs block r \<longleftrightarrow> (\<forall>up text snap. est = Some (EncToolCall up text snap) \<longrightarrow>
     fst r = up \<and> rs = Some (RedToolCall False (if up then snd r else [])) \<and>
     (\<not> up \<longrightarrow> text = snd r \<and> (\<exists>call. block = AssistantToolCall call \<and> ao_serialize ao (tl_arguments call) = Some snap)))"

lemma rebuilt_iff:
  "rebuilt ao enc (message, states) content r \<longleftrightarrow>
     length content = length (am_content message) \<and>
     (\<forall>i. unat i < length content \<longrightarrow> content ! unat i = finished ao (bt_get states i) (am_content message ! unat i)) \<and>
     (\<forall>i. call_rebuilt ao (bt_get (fe_blocks enc) i) (bt_get states i) (content ! unat i) (r i))"
  by (auto simp: rebuilt_def call_rebuilt_def)

lemma call_rebuilt_plain [simp]:
  "call_rebuilt ao None rs block r" "call_rebuilt ao (Some EncText) rs block r" "call_rebuilt ao (Some EncThinking) rs block r"
  by (simp_all add: call_rebuilt_def)

lemma rebuilt_append:
  assumes "in_step enc (message, states)" and "rebuilt ao enc (message, states) content r"
    and "start_block i est enc = Inr enc'" and "finished ao (Some rs) block = block"
    and "call_rebuilt ao (Some est) (Some rs) block (r' i)" and "\<And>j. j \<noteq> i \<Longrightarrow> r' j = r j"
  shows "rebuilt ao enc' (message\<lparr>am_content := am_content message @ [block]\<rparr>, bt_insert i rs states) (content @ [block]) r'"
proof -
  have i: "unat i = length content"
    using assms(1-3) by (auto simp: in_step_def start_block_Inr rebuilt_iff)
  have open_below: "unat j < length content" if "bt_get (fe_blocks enc) j = Some st" for j st
    using assms(1,2) that by (fastforce simp: in_step_def rebuilt_iff)
  have block_at: "(content @ [block]) ! unat j = (if j = i then block else content ! unat j)" if "unat j \<le> length content" for j
    using that i by (auto simp: nth_append word_unat_eq_iff)
  have calls: "call_rebuilt ao (bt_get (bt_insert i est (fe_blocks enc)) j) (bt_get (bt_insert i rs states) j)
      ((content @ [block]) ! unat j) (r' j)" for j
  proof (cases "j = i")
    case False
    have "call_rebuilt ao (bt_get (fe_blocks enc) j) (bt_get states j) (content ! unat j) (r j)"
      using assms(2) by (simp add: rebuilt_iff)
    with False show ?thesis
      using assms(6) open_below [of j] block_at [of j] by (cases "bt_get (fe_blocks enc) j") (simp_all add: bt_get_insert)
  qed (use assms(5) block_at [of i] i in \<open>simp add: bt_get_insert\<close>)
  show ?thesis
    unfolding rebuilt_iff
  proof (intro conjI allI impI)
    show "length (content @ [block]) = length (am_content (message\<lparr>am_content := am_content message @ [block]\<rparr>))"
      using assms(2) by (simp add: rebuilt_iff)
    fix j
    show "call_rebuilt ao (bt_get (fe_blocks enc') j) (bt_get (bt_insert i rs states) j) ((content @ [block]) ! unat j) (r' j)"
      using calls [of j] assms(3) by (simp add: start_block_Inr)
    assume "unat j < length (content @ [block])"
    then show "(content @ [block]) ! unat j = finished ao (bt_get (bt_insert i rs states) j)
        (am_content (message\<lparr>am_content := am_content message @ [block]\<rparr>) ! unat j)"
      using assms(2,4) i by (cases "j = i") (auto simp: rebuilt_iff bt_get_insert nth_append word_unat_eq_iff)
  qed
qed

lemma rebuilt_put:
  assumes "rebuilt ao enc (message, states) content r" and "unat i < length content"
    and "finished ao (Some rs) block = block'" and "call_rebuilt ao est (Some rs) block' (r' i)"
    and "bt_get (fe_blocks enc') = (bt_get (fe_blocks enc))(i := est)" and "\<And>j. j \<noteq> i \<Longrightarrow> r' j = r j"
  shows "rebuilt ao enc' (put_block i block rs (message, states)) (content[unat i := block']) r'"
  using assms by (auto simp: rebuilt_iff put_block_def bt_get_insert nth_list_update word_unat_eq_iff [symmetric])

lemma rebuilt_idle:
  assumes "rebuilt ao enc (message, states) content r" and "call_rebuilt ao est (bt_get states i) (content ! unat i) (r' i)"
    and "bt_get (fe_blocks enc') = (bt_get (fe_blocks enc))(i := est)" and "\<And>j. j \<noteq> i \<Longrightarrow> r' j = r j"
  shows "rebuilt ao enc' (message, states) content r'"
  using assms by (auto simp: rebuilt_iff)

lemma starts_block_content:
  assumes "starts_block kind i content content'"
  shows "content' = content @ [content' ! unat i]" and "content_kind (content' ! unat i) = kind"
proof -
  have "drop (length content) content' = [content' ! length content]"
    using assms by (intro nth_equalityI) (auto simp: starts_block_def)
  then show "content' = content @ [content' ! unat i]"
    using assms append_take_drop_id [of "length content" content'] by (simp add: starts_block_def)
  show "content_kind (content' ! unat i) = kind"
    using assms by (simp add: starts_block_def)
qed

lemma rebuilt_start:
  assumes "in_step enc (message, states)" and "rebuilt ao enc (message, states) content r" and "start_block i est enc = Inr enc'"
    and "starts_block kind i content (am_content p)" and "kind = encoder_kind est" "kind = reducer_kind rs" "\<not> reducer_ended rs"
    and "finished ao (Some rs) (am_content p ! unat i) = am_content p ! unat i"
    and "call_rebuilt ao (Some est) (Some rs) (am_content p ! unat i) (r' i)" and "\<And>j. j \<noteq> i \<Longrightarrow> r' j = r j"
    and "append_block i (am_content p ! unat i) rs (message, states) = Inr cur'"
  shows "rebuilt ao enc' cur' (am_content p) r'"
proof -
  note p = starts_block_content [OF assms(4)]
  have "cur' = (message\<lparr>am_content := am_content message @ [am_content p ! unat i]\<rparr>, bt_insert i rs states)"
    using append_in_step(1) [OF assms(1,3), of "am_content p ! unat i" rs] p(2) assms(5-7,11) by simp
  with rebuilt_append [OF assms(1-3,8-10)] show ?thesis
    by (simp flip: p(1))
qed

lemma rebuilt_block:
  assumes "in_step enc (message, states)" and "rebuilt ao enc (message, states) content r" and "bt_get (fe_blocks enc) i = Some est"
  shows "unat i < length content"
    and "content ! unat i = finished ao (bt_get states i) (am_content message ! unat i)"
    and "\<exists>rs. bt_get states i = Some rs \<and> reducer_kind rs = encoder_kind est \<and> \<not> reducer_ended rs \<and>
      active_block i (encoder_kind est) ty (message, states) = Inr (am_content message ! unat i, rs) \<and>
      content_kind (am_content message ! unat i) = encoder_kind est"
    and "call_rebuilt ao (Some est) (bt_get states i) (content ! unat i) (r i)"
proof -
  from active_in_step [OF assms(1,3), of ty] obtain rs where
    "bt_get states i = Some rs" "active_block i (encoder_kind est) ty (message, states) = Inr (am_content message ! unat i, rs)"
    "content_kind (am_content message ! unat i) = encoder_kind est" "reducer_kind rs = encoder_kind est" "\<not> reducer_ended rs"
    "unat i < length (am_content message)" by auto
  moreover have "call_rebuilt ao (bt_get (fe_blocks enc) i) (bt_get states i) (content ! unat i) (r i)"
    using assms(2) by (simp add: rebuilt_iff)
  ultimately show "unat i < length content"
    and "content ! unat i = finished ao (bt_get states i) (am_content message ! unat i)"
    and "\<exists>rs. bt_get states i = Some rs \<and> reducer_kind rs = encoder_kind est \<and> \<not> reducer_ended rs \<and>
      active_block i (encoder_kind est) ty (message, states) = Inr (am_content message ! unat i, rs) \<and>
      content_kind (am_content message ! unat i) = encoder_kind est"
    and "call_rebuilt ao (Some est) (bt_get states i) (content ! unat i) (r i)"
    using assms(2,3) by (auto simp: rebuilt_iff)
qed

lemma rebuilt_text_delta:
  assumes step: "in_step enc (message, states)" and reb: "rebuilt ao enc (message, states) content r"
    and blk: "encoder_block i BkText enc = Inr st"
    and live: "live_event ao (EvTextDelta i d p) content r" and red: "reduce_frame ao (FrTextDelta i d) (message, states) = Inr cur'"
  shows "rebuilt ao enc cur' (am_content p) r"
proof -
  from blk have st: "bt_get (fe_blocks enc) i = Some EncText" by (auto simp: encoder_block_Inr kind_cases)
  note b = rebuilt_block [OF step reb st]
  from b(3) [of "''text_delta''"] obtain t where rs: "bt_get states i = Some (RedText False)"
    "active_block i BkText ''text_delta'' (message, states) = Inr (AssistantText t, RedText False)"
    "am_content message ! unat i = AssistantText t"
    by (auto simp: kind_cases)
  then have t: "content ! unat i = AssistantText t" using b(2) by simp
  have "cur' = put_block i (AssistantText (t\<lparr>tc_text := tc_text t @ d\<rparr>)) (RedText False) (message, states)"
    using red rs by simp
  with live t show ?thesis
    by (auto intro!: rebuilt_put [OF reb b(1), where est = "Some EncText"] simp: st fun_upd_idem)
qed

lemma rebuilt_thinking_delta:
  assumes step: "in_step enc (message, states)" and reb: "rebuilt ao enc (message, states) content r"
    and blk: "encoder_block i BkThinking enc = Inr st"
    and live: "live_event ao (EvThinkingDelta i d p) content r" and red: "reduce_frame ao (FrThinkingDelta i d) (message, states) = Inr cur'"
  shows "rebuilt ao enc cur' (am_content p) r"
proof -
  from blk have st: "bt_get (fe_blocks enc) i = Some EncThinking" by (auto simp: encoder_block_Inr kind_cases)
  note b = rebuilt_block [OF step reb st]
  from b(3) [of "''thinking_delta''"] obtain t where rs: "bt_get states i = Some (RedThinking False)"
    "active_block i BkThinking ''thinking_delta'' (message, states) = Inr (AssistantThinking t, RedThinking False)"
    "am_content message ! unat i = AssistantThinking t"
    by (auto simp: kind_cases)
  then have t: "content ! unat i = AssistantThinking t" using b(2) by simp
  have "cur' = put_block i (AssistantThinking (t\<lparr>th_thinking := th_thinking t @ d\<rparr>)) (RedThinking False) (message, states)"
    using red rs by simp
  with live t show ?thesis
    by (auto intro!: rebuilt_put [OF reb b(1), where est = "Some EncThinking"] simp: st fun_upd_idem)
qed

text \<open>An end frame carries the whole block, so nothing of what came before it matters.\<close>

lemma rebuilt_end:
  assumes step: "in_step enc (message, states)" and reb: "rebuilt ao enc (message, states) content r"
    and blk: "end_block i kind enc = Inr enc'" and p: "am_content p = content[unat i := block]"
    and red: "\<And>block0 rs. active_block i kind ty (message, states) = Inr (block0, rs) \<Longrightarrow> content_kind block0 = kind \<Longrightarrow> reducer_kind rs = kind \<Longrightarrow>
      \<exists>rs'. cur' = put_block i block rs' (message, states) \<and> finished ao (Some rs') block = block"
  shows "rebuilt ao enc' cur' (am_content p) r"
proof -
  from blk obtain st where st: "bt_get (fe_blocks enc) i = Some st" "encoder_kind st = kind"
    and enc': "enc' = enc\<lparr>fe_blocks := bt_remove i (fe_blocks enc)\<rparr>" by (auto simp: encoder_block_Inr end_block_Inr)
  note b = rebuilt_block [OF step reb st(1)]
  from b(3) [of ty] red st(2) obtain rs' where "cur' = put_block i block rs' (message, states)" "finished ao (Some rs') block = block"
    by blast
  then show ?thesis
    unfolding p by (simp add: rebuilt_put [OF reb b(1), where est = None] enc' bt_get_remove)
qed

text \<open>
  A delta of a tool call: the call as the reducer has it, what the provider showed before, and what
  it shows now, with \<open>r'\<close> the text received.
\<close>

definition with_text :: "'j args_ops \<Rightarrow> bool \<times> string \<Rightarrow> 'j tool_call \<Rightarrow> 'j tool_call" where
  "with_text ao r call = (if fst r \<and> snd r \<noteq> [] then call\<lparr>tl_arguments := ao_parse ao (snd r)\<rparr> else call)"

lemma call_delta_live:
  assumes step: "in_step enc (message, states)" and reb: "rebuilt ao enc (message, states) content r"
    and st: "bt_get (fe_blocks enc) i = Some (EncToolCall up json snap)"
    and live: "live_event ao (EvToolCallDelta i d p) content r" and r': "r' = receive ao (EvToolCallDelta i d p) content r"
  obtains call where
    "\<And>ty. active_block i BkToolCall ty (message, states) = Inr (AssistantToolCall call, RedToolCall False (if up then snd (r i) else []))"
    and "content ! unat i = AssistantToolCall (with_text ao (r i) call)"
    and "am_content p = content[unat i := AssistantToolCall (with_text ao (r' i) call)]"
    and "r' i = (up \<or> reached ao snap (snd (r i) @ d), snd (r i) @ d)" and "\<And>j. j \<noteq> i \<Longrightarrow> r' j = r j"
    and "fst (r i) = up" and "\<not> up \<Longrightarrow> json = snd (r i) \<and> ao_serialize ao (tl_arguments call) = Some snap"
    and "bt_get states i = Some (RedToolCall False (if up then snd (r i) else []))"
proof -
  note b = rebuilt_block [OF step reb st]
  have old: "fst (r i) = up" "bt_get states i = Some (RedToolCall False (if up then snd (r i) else []))"
    "\<not> up \<Longrightarrow> json = snd (r i) \<and> (\<exists>call. content ! unat i = AssistantToolCall call \<and> ao_serialize ao (tl_arguments call) = Some snap)"
    using b(4) by (auto simp: call_rebuilt_def)
  obtain call where act: "\<And>ty. active_block i BkToolCall ty (message, states) =
      Inr (AssistantToolCall call, RedToolCall False (if up then snd (r i) else []))"
    "am_content message ! unat i = AssistantToolCall call"
    using b(3) old(2) by (auto simp: kind_cases split: if_splits)
  have shown: "content ! unat i = AssistantToolCall (with_text ao (r i) call)"
    using b(2) act(2) old(1,2) by (auto simp: with_text_def)
  have "r' i = (up \<or> reached ao snap (snd (r i) @ d), snd (r i) @ d)" "\<And>j. j \<noteq> i \<Longrightarrow> r' j = r j"
    using old(1,3) shown unfolding r' by (cases up; auto)+
  with that act(1) shown old live show thesis
    by (auto simp: Let_def r' with_text_def split: if_splits)
qed

lemma rebuilt_call_up:
  assumes step: "in_step enc (message, states)" and reb: "rebuilt ao enc (message, states) content r"
    and st: "bt_get (fe_blocks enc) i = Some (EncToolCall True json snap)"
    and live: "live_event ao (EvToolCallDelta i d p) content r" and r': "r' = receive ao (EvToolCallDelta i d p) content r"
    and red: "accepts ao (if d = [] then None else Some (FrToolCallDelta i d)) (message, states) cur'"
  shows "rebuilt ao enc cur' (am_content p) r'"
  using call_delta_live [OF step reb st live r']
proof cases
  case (1 call)
  show ?thesis
  proof (cases "d = []")
    case True
    have "with_text ao (r' i) call = with_text ao (r i) call"
      using 1(4,6) True by (simp add: with_text_def)
    then have "am_content p = content"
      using 1(2,3) list_update_id [of content "unat i"] by simp
    moreover have "rebuilt ao enc (message, states) content r'"
      by (rule rebuilt_idle [OF reb, where i = i and est = "Some (EncToolCall True json snap)"])
        (use True st 1 in \<open>auto simp: call_rebuilt_def fun_upd_idem\<close>)
    ultimately show ?thesis using red True by (simp add: accepts_def)
  next
    case False
    have cur': "cur' = put_block i (AssistantToolCall call) (RedToolCall False (snd (r i) @ d)) (message, states)"
      using red False 1(1) [of "''toolcall_delta''"] by (simp add: accepts_def)
    show ?thesis
      unfolding cur' 1(3)
      by (rule rebuilt_put [OF reb rebuilt_block(1) [OF step reb st], where est = "Some (EncToolCall True json snap)"])
        (use False st 1 in \<open>auto simp: with_text_def call_rebuilt_def fun_upd_idem\<close>)
  qed
qed

lemma rebuilt_call_behind:
  assumes step: "in_step enc (message, states)" and reb: "rebuilt ao enc (message, states) content r"
    and st: "bt_get (fe_blocks enc) i = Some (EncToolCall False json snap)"
    and live: "live_event ao (EvToolCallDelta i d p) content r" and r': "r' = receive ao (EvToolCallDelta i d p) content r"
    and enc': "bt_get (fe_blocks enc') = (bt_get (fe_blocks enc))(i \<mapsto>
      (if reached ao snap (json @ d) then EncToolCall True [] [] else EncToolCall False (json @ d) snap))"
    and red: "accepts ao (if \<not> reached ao snap (json @ d) \<or> json @ d = [] then None
      else Some (FrToolCallCheckpoint i (json @ d))) (message, states) cur'"
  shows "rebuilt ao enc' cur' (am_content p) r'"
  using call_delta_live [OF step reb st live r']
proof cases
  case (1 call)
  show ?thesis
  proof (cases "\<not> reached ao snap (json @ d) \<or> json @ d = []")
    case True
    then have "am_content p = content"
      using 1(2,3,4,6,7) list_update_id [of content "unat i"] by (auto simp: with_text_def)
    moreover have "rebuilt ao enc' (message, states) content r'"
      by (rule rebuilt_idle [OF reb _ enc']) (use True 1 in \<open>auto simp: call_rebuilt_def with_text_def\<close>)
    moreover have "cur' = (message, states)" using red True by (auto simp: accepts_def)
    ultimately show ?thesis by simp
  next
    case False
    then have cur': "cur' = put_block i (AssistantToolCall (call\<lparr>tl_arguments := ao_parse ao (json @ d)\<rparr>))
        (RedToolCall False (json @ d)) (message, states)"
      using red 1(1) [of "''toolcall_checkpoint''"] by (auto simp: accepts_def)
    show ?thesis
      unfolding cur' 1(3)
      by (rule rebuilt_put [OF reb rebuilt_block(1) [OF step reb st] _ _ enc'])
        (use False 1 in \<open>auto simp: with_text_def call_rebuilt_def\<close>)
  qed
qed

lemma rebuilt_call_delta:
  assumes "in_step enc (message, states)" and "rebuilt ao enc (message, states) content r"
    and enc: "encode_tool_call_delta ao i d enc = Inr (frame, enc')"
    and "live_event ao (EvToolCallDelta i d p) content r" and red: "accepts ao frame (message, states) cur'"
  shows "rebuilt ao enc' cur' (am_content p) (receive ao (EvToolCallDelta i d p) content r)"
  using enc
proof (cases rule: encode_tool_call_delta_Inr)
  case (1 up json snap)
  then have st: "bt_get (fe_blocks enc) i = Some (EncToolCall up json snap)" by (simp add: encoder_block_Inr)
  show ?thesis
  proof (cases up)
    case True
    with 1(2) have e: "enc' = enc" "frame = (if d = [] then None else Some (FrToolCallDelta i d))" by simp_all
    show ?thesis
      unfolding e(1) by (rule rebuilt_call_up [OF assms(1,2) st [unfolded eqTrueI [OF True]] assms(4) refl red [unfolded e(2)]])
  next
    case False
    show ?thesis
      by (rule rebuilt_call_behind [OF assms(1,2) st [unfolded Eq_FalseI [OF False]] assms(4) refl])
        (use 1(3,4) False red in \<open>cases "reached ao snap (json @ d)"; auto simp: bt_get_insert\<close>)+
  qed
qed

lemma overwrite_block [simp]:
  "(t' :: text_content)\<lparr>tc_text := tc_text t, tc_text_signature := tc_text_signature t\<rparr> = t"
  "(h' :: thinking_content)\<lparr>th_thinking := th_thinking h, th_thinking_signature := th_thinking_signature h, th_redacted := th_redacted h\<rparr> = h"
  "(c' :: 'j tool_call)\<lparr>tl_id := tl_id c, tl_name := tl_name c, tl_arguments := tl_arguments c,
     tl_thought_signature := tl_thought_signature c, tl_namespace := tl_namespace c\<rparr> = c"
  by simp_all

lemma rebuilt_step:
  assumes step: "in_step enc cur" and reb: "rebuilt ao enc cur content r"
    and enc: "encode_event ao ev enc = Inr (frame, enc')" and live: "live_event ao ev content r" and red: "accepts ao frame cur cur'"
  shows "rebuilt ao enc' cur' (shown content ev) (receive ao ev content r)"
proof -
  obtain message states where cur: "cur = (message, states)" by fastforce
  note s = step [unfolded cur] and b = reb [unfolded cur] and a = red [unfolded cur accepts_def]
  show ?thesis
  proof (cases ev)
    case (EvTextStart i p)
    with enc live a show ?thesis
      by (auto simp: shown_def encode_Inr event_block_Inr intro!: rebuilt_start [OF s b, where rs = "RedText False" and kind = BkText])
  next
    case (EvThinkingStart i p)
    with enc live a show ?thesis
      by (auto simp: shown_def encode_Inr event_block_Inr intro!: rebuilt_start [OF s b, where rs = "RedThinking False" and kind = BkThinking])
  next
    case (EvToolCallStart i p)
    with enc live a show ?thesis
      by (auto simp: shown_def encode_Inr event_block_Inr call_rebuilt_def
          intro!: rebuilt_start [OF s b, where rs = "RedToolCall False []" and kind = BkToolCall])
  next
    case (EvTextDelta i d p)
    then obtain st where st: "encoder_block i BkText enc = Inr st" and e: "enc' = enc" and f: "frame = (if d = [] then None else Some (FrTextDelta i d))"
      using enc by (auto simp: encode_Inr)
    show ?thesis
    proof (cases "d = []")
      case True
      with live EvTextDelta have "am_content p = content"
        by (auto split: assistant_content.splits) (metis list_update_id)
      with True a f e b EvTextDelta show ?thesis by (simp add: shown_def)
    next
      case False
      with a f e EvTextDelta live rebuilt_text_delta [OF s b st, of d p cur'] show ?thesis by (simp add: shown_def)
    qed
  next
    case (EvThinkingDelta i d p)
    then obtain st where st: "encoder_block i BkThinking enc = Inr st" and e: "enc' = enc"
      and f: "frame = (if d = [] then None else Some (FrThinkingDelta i d))"
      using enc by (auto simp: encode_Inr)
    show ?thesis
    proof (cases "d = []")
      case True
      with live EvThinkingDelta have "am_content p = content"
        by (auto split: assistant_content.splits) (metis list_update_id)
      with True a f e b EvThinkingDelta show ?thesis by (simp add: shown_def)
    next
      case False
      with a f e EvThinkingDelta live rebuilt_thinking_delta [OF s b st, of d p cur'] show ?thesis by (simp add: shown_def)
    qed
  next
    case (EvTextEnd i c p)
    then obtain t where t: "am_content p = content[unat i := AssistantText t]" "end_block i BkText enc = Inr enc'"
      and f: "frame = Some (FrTextEnd i (tc_text t) (tc_text_signature t))"
      using enc live by (auto simp: encode_Inr event_block_Inr)
    from rebuilt_end [OF s b t(2,1), of "''text_end''" cur'] a f EvTextEnd show ?thesis
      by (fastforce simp: shown_def kind_cases)
  next
    case (EvThinkingEnd i c p)
    then obtain t where t: "am_content p = content[unat i := AssistantThinking t]" "end_block i BkThinking enc = Inr enc'"
      and f: "frame = Some (FrThinkingEnd i (th_thinking t) (th_thinking_signature t) (th_redacted t))"
      using enc live by (auto simp: encode_Inr event_block_Inr)
    from rebuilt_end [OF s b t(2,1), of "''thinking_end''" cur'] a f EvThinkingEnd show ?thesis
      by (fastforce simp: shown_def kind_cases)
  next
    case (EvToolCallEnd i call p)
    then have t: "am_content p = content[unat i := AssistantToolCall call]" "end_block i BkToolCall enc = Inr enc'"
      and f: "frame = Some (FrToolCallEnd i (tl_id call) (tl_name call) (tl_arguments call) (tl_thought_signature call) (tl_namespace call))"
      using enc live by (auto simp: encode_Inr)
    from rebuilt_end [OF s b t(2,1), of "''toolcall_end''" cur'] a f EvToolCallEnd show ?thesis
      by (fastforce simp: shown_def kind_cases)
  next
    case (EvToolCallDelta i d p)
    then show ?thesis
      using enc live red rebuilt_call_delta [OF s b, of i d frame enc' p cur'] by (simp add: shown_def cur)
  qed (use enc live a b in \<open>auto simp: shown_def encode_done_def cur rebuilt_iff split: if_splits\<close>)
qed

lemma rebuilt_all:
  assumes "encode_all ao events enc = Inr (frames, enc')" and "in_step enc cur" and "fe_started enc"
    and "rebuilt ao enc cur content r" and "live_events ao events content r"
  shows "\<exists>cur' r'. reduce_loop ao frames (Some cur) before = Inr (Some cur') \<and> in_step enc' cur' \<and>
    rebuilt ao enc' cur' (foldl shown content events) r'"
  using assms
proof (induction events arbitrary: enc cur frames content r)
  case (Cons ev events)
  then obtain frame enc1 rest where ev: "encode_frame ao ev enc = Inr (frame, enc1)"
    and rest: "encode_all ao events enc1 = Inr (rest, enc')" "frames = (case frame of None \<Rightarrow> rest | Some f \<Rightarrow> f # rest)"
    by (auto simp: rbind_eq_Inr_iff)
  note e = encode_frame_Inr [OF ev]
  obtain cur1 where c: "accepts ao frame cur cur1" "in_step enc1 cur1"
    using encode_in_step [OF Cons.prems(2) e started_not_start [OF ev Cons.prems(3)]] by blast
  have "rebuilt ao enc1 cur1 (shown content ev) (receive ao ev content r)"
    using rebuilt_step [OF Cons.prems(2,4) e _ c(1)] Cons.prems(5) by simp
  with Cons.IH [OF rest(1) c(2) encode_started [OF e Cons.prems(3)]] Cons.prems(5) c(1) show ?case
    by (simp add: rest(2) reduce_loop_accepts)
qed auto

lemma in_step_new: "in_step (frame_encoder_new\<lparr>fe_started := True\<rparr>) (message, [])" if "am_content message = []"
  using that by (simp add: in_step_def frame_encoder_new_def bt_ok_def)

lemma clone_start_content [simp]: "am_content (clone_start_message p) = []"
  by (simp add: clone_start_message_def assistant_message_new_def)

lemma encode_all_start:
  assumes "encode_all ao events frame_encoder_new = Inr (f # frames, enc)"
  obtains p events' where "f = FrStart (clone_start_message p)"
    and "encode_all ao events' (frame_encoder_new\<lparr>fe_started := True\<rparr>) = Inr (frames, enc)"
    and "events = EvStart p # events'"
proof (cases events)
  case (Cons ev events')
  with assms obtain frame enc1 rest where ev: "encode_frame ao ev frame_encoder_new = Inr (frame, enc1)"
    and rest: "encode_all ao events' enc1 = Inr (rest, enc)" "f # frames = (case frame of None \<Rightarrow> rest | Some g \<Rightarrow> g # rest)"
    by (auto simp: rbind_eq_Inr_iff)
  show thesis
  proof (cases ev)
    case (EvStart p)
    with ev rest Cons that show thesis by (auto simp: encode_frame_def encode_start_def frame_encoder_new_def)
  next
    case (EvError reason m)
    with ev rest show thesis
      by (cases events') (auto simp: encode_frame_def frame_encoder_new_def)
  qed (use ev in \<open>auto simp: encode_frame_def encode_done_def frame_encoder_new_def\<close>)
qed (use assms in simp)

end
