(* ===== verification/Lane_Stream.thy ===== *)
theory Lane_Stream
  imports Lane_Runtime Assistant_Replay Harness_Gate
begin

text \<open>
  The stream of one assistant response (\<open>harness/stream.rs\<close>) and the observer that stores its
  progress (\<open>ResponseObserver\<close> of \<open>harness/runtime/drive.rs\<close>). Hooks, the conversion to provider
  messages and the provider itself come from outside: each is a function of its input and of the
  world. A provider stream is the list of items it yields; other tasks run before each of them.
  Events to listeners are left out.
\<close>

section \<open>What a drive is given\<close>

datatype hook_error = HookGate "(unit, harness_fault) gate_rejection" | HookHandler harness_fault

text \<open>A hook, when one is registered.\<close>

type_synonym ('w, 'e, 'r) hook = "('e \<Rightarrow> 'w \<Rightarrow> (hook_error + 'r) \<times> 'w) option"

datatype stream_error =
  StreamGate "(unit, harness_fault) gate_rejection"
| StreamFault harness_fault
| StreamProvider string
| StreamPreparation harness_error

datatype 'v map_patch = PatchUnchanged | PatchClear | PatchMerge "(string \<times> 'v option) list"

record 'j stream_options_patch =
  sq_transport :: "transport option option"
  sq_timeout_ms :: "u64 option option"
  sq_max_retries :: "u32 option option"
  sq_max_retry_delay_ms :: "u64 option option"
  sq_headers :: "string map_patch"
  sq_metadata :: "'j map_patch"
  sq_cache_retention :: "cache_retention option option"
  sq_deferred :: "deferred_request option option"

datatype request_step = StepAssistant | StepDeferred | StepCompaction | StepBranchSummary

record ('j, 'f) compact_result =
  cr_summary :: string
  cr_tokens_before :: u64
  cr_usage :: "'f usage option"
  cr_retained_tail :: "('j, 'f) agent_message list"
  cr_details :: "'j option"

record 'f branch_summary_result =
  bs_summary :: string
  bs_usage :: "'f usage option"
  bs_read_files :: "string list"
  bs_modified_files :: "string list"

text \<open>What a provider request is made of, and what a tool call returns.\<close>

record ('j, 'f) provider_request =
  pq_model :: model
  pq_session_id :: string
  pq_system_prompt :: string
  pq_messages :: "('j, 'f) llm_message list"
  pq_tools :: "'j tool list"
  pq_thinking_level :: thinking_level
  pq_stream_options :: "'j stream_options"

datatype 'j tool_outcome = ToolReturned "'j agent_tool_result" | ToolFailed string | ToolCancelled

text \<open>
  \<open>dv_tool\<close> runs a registered tool, given the operation, the turn and the result entry of its
  invocation: it may use the session (memos) and the lane's public calls, so it acts on the lane.
  \<open>dv_next_tool\<close> picks which of the tools running together goes on next. \<open>mm_summary\<close> stands for \<open>compact_with_request\<close> and
  \<open>generate_branch_summary_with_request\<close>, with the code and text of their errors; \<open>dv_json_files\<close> for
  the JSON object of the two file lists. \<open>dv_sleep\<close> tells whether a wait was cut short by the abort of
  the drive.
\<close>

record ('w, 'j, 'f) drive_hooks =
  hk_before_drive :: "('w, lane_name \<times> operation_id \<times> operation_kind, unit) hook"
  hk_before_run :: "('w, lane_name \<times> operation_id \<times> ('j, 'f) agent_message list, ('j, 'f) agent_message list option option) hook"
  hk_before_run_end :: "('w, lane_name \<times> operation_id \<times> ('j, 'f) agent_message list, string option option) hook"
  hk_before_request :: "('w, lane_name \<times> operation_id \<times> model \<times> request_step \<times> u64 \<times> 'j stream_options,
    'j stream_options_patch option option) hook"
  hk_transform_context :: "('w, lane_name \<times> operation_id \<times> ('j, 'f) agent_message list \<times> string,
    (('j, 'f) agent_message list option \<times> string option) option) hook"
  hk_after_response :: "('w, lane_name \<times> operation_id \<times> ('j, 'f) assistant_message,
    ('j, 'f) assistant_message option option) hook"

record ('w, 'j, 'f) drive_models =
  mm_to_provider :: "('j, 'f) agent_message list \<Rightarrow> 'w \<Rightarrow> (harness_error + ('j, 'f) llm_message list) \<times> 'w"
  mm_stream :: "('j, 'f) provider_request \<Rightarrow> 'w \<Rightarrow> (string + ('j, 'f) assistant_event) list \<times> 'w"
  mm_fetch_deferred :: "model \<Rightarrow> ('j, 'f) deferred_handle \<Rightarrow> thinking_level \<Rightarrow> 'j stream_options \<Rightarrow> 'w
    \<Rightarrow> (string + ('j, 'f) assistant_event) list \<times> 'w"
  mm_cancel_deferred :: "model \<Rightarrow> ('j, 'f) deferred_handle \<Rightarrow> 'w \<Rightarrow> unit \<times> 'w"
  mm_summary :: "('j, 'f) structural_preparation \<Rightarrow> string option \<Rightarrow> model \<Rightarrow> thinking_level \<Rightarrow> 'j stream_options \<Rightarrow> u64 \<Rightarrow> 'w
    \<Rightarrow> ((string \<times> string) + ('j, 'f) compact_result + 'f branch_summary_result) \<times> 'w"

record ('w, 'm, 'g, 'j, 'f) drive_env =
  dv_lane :: "('w, 'm, 'g, 'j, 'f) lane_env"
  dv_hooks :: "('w, 'j, 'f) drive_hooks"
  dv_models :: "('w, 'j, 'f) drive_models"
  dv_args :: "'j args_ops"
  dv_frame :: "('j, ('j, 'f) assistant_frame) codec"
  dv_context_messages :: "'j runtime_config \<Rightarrow> ('j, 'f) entry list \<Rightarrow> session_error + ('j, 'f) agent_message list"
  dv_system_prompt :: "('w \<Rightarrow> (harness_error + string) \<times> 'w) option"
  dv_tool_context :: "('w \<Rightarrow> (harness_error + unit) \<times> 'w) option"
  dv_provider_tool :: "string \<Rightarrow> 'j tool"
  dv_tool :: "'j tool_call \<Rightarrow> operation_id \<Rightarrow> string \<Rightarrow> entry_id \<Rightarrow> ('w, 'm, 'g, 'j) lane_runtime
    \<Rightarrow> 'j tool_outcome \<times> ('w, 'm, 'g, 'j) lane_runtime"
  dv_next_tool :: "('w, 'm, 'g, 'j) lane_runtime \<Rightarrow> nat"
  dv_empty_object :: 'j
  dv_json_files :: "string list \<Rightarrow> string list \<Rightarrow> 'j"
  dv_sleep :: "u64 \<Rightarrow> ('w, 'm, 'g, 'j) lane_runtime \<Rightarrow> bool"

section \<open>The gate of a drive\<close>

fun harness_error_message :: "harness_error \<Rightarrow> string" where
  "harness_error_message (LaneBusy _ _ _ m) = m"
| "harness_error_message (OperationMismatch _ _ _ _ m) = m"
| "harness_error_message (NoActiveRun _ m) = m"
| "harness_error_message (NoActiveOperation _ m) = m"
| "harness_error_message (NothingToResume _ m) = m"
| "harness_error_message (NothingToCompact _ m) = m"
| "harness_error_message (InvalidMessage _ _ m) = m"
| "harness_error_message (InvalidNavigation _ _ m) = m"
| "harness_error_message (UnknownSkill _ m) = m"
| "harness_error_message (UnknownTemplate _ m) = m"
| "harness_error_message (HarnessUnknownTarget _ m) = m"
| "harness_error_message (InvalidLane _ _ m) = m"
| "harness_error_message (InvalidRetryPolicy _ _ m) = m"
| "harness_error_message (FaultSealed m _) = m"
| "harness_error_message (HarnessClosed m) = m"

text \<open>Sealing a lane closes the gate of its drive with the fault, or with the text of a plain close.\<close>

definition lane_gate :: "('w, 'm, 'g, 'j) lane_runtime \<Rightarrow> (unit, harness_fault) gate_shared" where
  "lane_gate rt =
     \<lparr>gt_state = (if lr_closed rt
        then GateClosed (case lr_fault rt of Some f \<Rightarrow> f
          | None \<Rightarrow> \<lparr>hf_message = ''harness is closed'', hf_cause = ''harness close requested''\<rparr>)
        else if lr_abort rt then GateAborting () else GateOpen),
      gt_cancelled = (lr_closed rt \<or> lr_abort rt)\<rparr>"

definition admitted :: "('w, 'm, 'g, 'j) lane_runtime \<Rightarrow> (unit, harness_fault) gate_rejection + unit" where
  "admitted rt = fst (admit (Pair ()) (lane_gate rt))"

definition token_cancelled :: "('w, 'm, 'g, 'j) lane_runtime \<Rightarrow> bool" where
  "token_cancelled rt = gt_cancelled (lane_gate rt)"

definition cancellation_fault :: harness_fault where
  "cancellation_fault = \<lparr>hf_message = ''caller context was cancelled'', hf_cause = ''context cancelled''\<rparr>"

text \<open>A step of the world, during which other tasks run.\<close>

definition outside ::
  "('w, 'm, 'g, 'j, 'f) drive_env \<Rightarrow> ('w \<Rightarrow> 'a \<times> 'w) \<Rightarrow> ('e, ('w, 'm, 'g, 'j) lane_runtime, 'a) eop" where
  "outside env f = (\<lambda>rt. let (a, w) = f (lr_world rt) in (Inr a, en_meanwhile (dv_lane env) (rt\<lparr>lr_world := w\<rparr>)))"

definition pause :: "('w, 'm, 'g, 'j, 'f) drive_env \<Rightarrow> ('e, ('w, 'm, 'g, 'j) lane_runtime, unit) eop" where
  "pause env = (\<lambda>rt. (Inr (), en_meanwhile (dv_lane env) rt))"

text \<open>\<open>HookRegistry::run_with_gate\<close>: the outcome is returned, never raised.\<close>

definition run_with_gate ::
  "('w, 'm, 'g, 'j, 'f) drive_env \<Rightarrow> ('x \<Rightarrow> 'w \<Rightarrow> (hook_error + 'r) \<times> 'w) \<Rightarrow> 'x \<Rightarrow> call_context
    \<Rightarrow> ('e, ('w, 'm, 'g, 'j) lane_runtime, hook_error + 'r) eop" where
  "run_with_gate env hook event cx =
     (if cx_cancelled cx then op_return (Inl (HookGate (GateRejectedClosed cancellation_fault)))
      else (\<lambda>rt. case admitted rt of
          Inl rejection \<Rightarrow> (Inr (Inl (HookGate rejection)), rt)
        | Inr () \<Rightarrow> outside env (hook event) rt))"

section \<open>The observer\<close>

type_synonym ('w, 'm, 'g, 'j, 'a) stream_op = "(stream_error, ('w, 'm, 'g, 'j) lane_runtime, 'a) eop"

definition protocol_fault :: "string \<Rightarrow> stream_error" where
  "protocol_fault message = StreamFault \<lparr>hf_message = message, hf_cause = message\<rparr>"

definition observer_fault :: "string \<Rightarrow> stream_error" where
  "observer_fault message = StreamFault \<lparr>hf_message = message, hf_cause = ''runtime observer failed: '' @ message\<rparr>"

definition encoding_fault :: "string \<Rightarrow> stream_error" where
  "encoding_fault message = StreamFault \<lparr>hf_message = message, hf_cause = ''frame encoding failed: '' @ message\<rparr>"

definition gate_admit :: "('w, 'm, 'g, 'j, unit) stream_op" where
  "gate_admit = op_read (\<lambda>rt. map_err StreamGate (admitted rt))"

definition observer_commit ::
  "('m, 'j, 'f) storage_ops \<Rightarrow> ('j, 'f) session_write list \<Rightarrow> call_context \<Rightarrow> ('w, 'm, 'g, 'j, unit) stream_op" where
  "observer_commit ops writes cx = (\<lambda>rt.
     let (r, s) = op_bind (begin_mutation cx) (\<lambda>_. mutation_commit ops writes cx) (lr_session rt)
     in (map_err (\<lambda>e. observer_fault (session_error_text e)) (rbind r (\<lambda>_. Inr ())), rt\<lparr>lr_session := s\<rparr>))"

definition observe_message ::
  "('w, 'm, 'g, 'j, 'f) drive_env \<Rightarrow> ('j, 'f) assistant_message \<Rightarrow> ('w, 'm, 'g, 'j, unit) stream_op" where
  "observe_message env message =
     op_read (\<lambda>_. map_err observer_fault (rbind (ld_assistant_to (en_serde (dv_lane env)) message) (\<lambda>_. Inr ())))"

text \<open>\<open>start\<close> and \<open>update\<close>: the frame of an event is stored before the event is passed on.\<close>

definition observe_event ::
  "('m, 'j, 'f::zero) storage_ops \<Rightarrow> ('w, 'm, 'g, 'j, 'f) drive_env \<Rightarrow> operation_id \<Rightarrow> entry_id \<Rightarrow> call_context
    \<Rightarrow> ('j, 'f) assistant_event \<Rightarrow> ('j, 'f) assistant_message \<Rightarrow> frame_encoder \<Rightarrow> ('w, 'm, 'g, 'j, frame_encoder) stream_op" where
  "observe_event ops env i response cx event message enc =
     op_bind gate_admit (\<lambda>_.
     op_bind (op_read (\<lambda>_. map_err encoding_fault (encode_frame (dv_args env) event enc))) (\<lambda>(frame, enc).
     op_bind (case frame of
         None \<Rightarrow> op_return ()
       | Some f \<Rightarrow>
           op_bind (op_read (\<lambda>_. map_err (\<lambda>e. encoding_fault (session_error_text e))
             (append_list (pending_assistant_frames i response) (cd_to (dv_frame env) f)))) (\<lambda>write.
           observer_commit ops [write] cx)) (\<lambda>_.
     op_bind (observe_message env message) (\<lambda>_. op_return enc))))"

section \<open>Consuming a stream\<close>

record ('j, 'f) stream_progress =
  sg_started :: bool
  sg_terminal :: "('j, 'f) assistant_message option"
  sg_encoder :: frame_encoder

definition consume_event ::
  "('m, 'j, 'f::zero) storage_ops \<Rightarrow> ('w, 'm, 'g, 'j, 'f) drive_env \<Rightarrow> operation_id \<Rightarrow> entry_id \<Rightarrow> call_context
    \<Rightarrow> ('j, 'f) assistant_event \<Rightarrow> ('j, 'f) stream_progress \<Rightarrow> ('w, 'm, 'g, 'j, ('j, 'f) stream_progress) stream_op" where
  "consume_event ops env i response cx event sg =
     (if sg_terminal sg \<noteq> None
      then op_fail (protocol_fault ''assistant message stream emitted an event after its terminal event'')
      else case event of
        EvStart partial \<Rightarrow>
          if sg_started sg then op_fail (protocol_fault ''assistant message stream emitted more than one start event'')
          else op_bind (observe_event ops env i response cx event partial (sg_encoder sg)) (\<lambda>enc.
            op_return (sg\<lparr>sg_started := True, sg_encoder := enc\<rparr>))
      | EvDone _ message \<Rightarrow>
          if \<not> sg_started sg then op_fail (protocol_fault ''assistant message stream emitted done before start'')
          else op_return (sg\<lparr>sg_terminal := Some message\<rparr>)
      | EvError _ error \<Rightarrow> op_return (sg\<lparr>sg_terminal := Some error\<rparr>)
      | _ \<Rightarrow>
          (case event_partial event of
             None \<Rightarrow> op_fail (protocol_fault ''assistant message stream emitted an unknown non-terminal event'')
           | Some partial \<Rightarrow>
               if \<not> sg_started sg
               then op_fail (protocol_fault (''assistant message stream emitted '' @ event_type event @ '' before start''))
               else op_bind (observe_event ops env i response cx event partial (sg_encoder sg)) (\<lambda>enc.
                 op_return (sg\<lparr>sg_encoder := enc\<rparr>))))"

fun consume_items ::
  "('m, 'j, 'f::zero) storage_ops \<Rightarrow> ('w, 'm, 'g, 'j, 'f) drive_env \<Rightarrow> operation_id \<Rightarrow> entry_id \<Rightarrow> call_context
    \<Rightarrow> (string + ('j, 'f) assistant_event) list \<Rightarrow> ('j, 'f) stream_progress \<Rightarrow> ('w, 'm, 'g, 'j, ('j, 'f) stream_progress) stream_op" where
  "consume_items ops env i response cx [] sg = op_bind (pause env) (\<lambda>_. op_return sg)"
| "consume_items ops env i response cx (item # items) sg =
     op_bind (pause env) (\<lambda>_.
     case item of
       Inl error \<Rightarrow> op_fail (StreamProvider error)
     | Inr event \<Rightarrow>
         op_bind (consume_event ops env i response cx event sg) (\<lambda>sg.
         consume_items ops env i response cx items sg))"

definition apply_after_response ::
  "('w, 'm, 'g, 'j, 'f) drive_env \<Rightarrow> operation_id \<Rightarrow> call_context \<Rightarrow> ('j, 'f) assistant_message
    \<Rightarrow> ('w, 'm, 'g, 'j, ('j, 'f) assistant_message) stream_op" where
  "apply_after_response env i cx settled =
     (case hk_after_response (dv_hooks env) of
        None \<Rightarrow> op_return settled
      | Some hook \<Rightarrow>
          with_lane (\<lambda>rt.
          case admitted rt of
            Inl (GateAborted _) \<Rightarrow> op_bind (pause env) (\<lambda>_. op_return settled)
          | Inl rejection \<Rightarrow> op_fail (StreamGate rejection)
          | Inr _ \<Rightarrow>
              op_bind (run_with_gate env hook (lr_name rt, i, settled) cx) (\<lambda>result.
              case result of
                Inr (Some (Some message)) \<Rightarrow> op_return message
              | Inr _ \<Rightarrow> op_return settled
              | Inl (HookGate (GateAborted _)) \<Rightarrow> op_bind (pause env) (\<lambda>_. op_return settled)
              | Inl (HookGate rejection) \<Rightarrow> op_fail (StreamGate rejection)
              | Inl (HookHandler fault) \<Rightarrow> op_fail (StreamGate (GateRejectedClosed fault)))))"

definition observe_end ::
  "('w, 'm, 'g, 'j, 'f) drive_env \<Rightarrow> ('j, 'f) assistant_message \<Rightarrow> ('w, 'm, 'g, 'j, unit) stream_op" where
  "observe_end env message =
     with_lane (\<lambda>rt.
     case admitted rt of
       Inr _ \<Rightarrow> observe_message env message
     | Inl (GateAborted _) \<Rightarrow> op_bind (pause env) (\<lambda>_. observe_message env message)
     | Inl rejection \<Rightarrow> op_fail (StreamGate rejection))"

definition consume_stream ::
  "('m, 'j, 'f::zero) storage_ops \<Rightarrow> ('w, 'm, 'g, 'j, 'f) drive_env \<Rightarrow> operation_id \<Rightarrow> entry_id \<Rightarrow> call_context
    \<Rightarrow> (string + ('j, 'f) assistant_event) list \<Rightarrow> ('w, 'm, 'g, 'j, ('j, 'f) assistant_message) stream_op" where
  "consume_stream ops env i response cx items =
     op_bind (consume_items ops env i response cx items
       \<lparr>sg_started = False, sg_terminal = None, sg_encoder = frame_encoder_new\<rparr>) (\<lambda>sg.
     op_bind (op_read (\<lambda>_. ok_or (sg_terminal sg)
       (protocol_fault ''assistant message stream ended without a terminal event''))) (\<lambda>terminal.
     op_bind (op_read (\<lambda>_. map_err (\<lambda>_. protocol_fault ''assistant message is still pending'')
       (settled_assistant_message_new terminal))) (\<lambda>settled.
     op_bind (apply_after_response env i cx settled) (\<lambda>message.
     op_bind (observe_end env message) (\<lambda>_. op_return message)))))"

definition lane_session_id :: "('w, 'm, 'g, 'j) lane_runtime \<Rightarrow> string" where
  "lane_session_id rt = md_id (bk_metadata (lr_session rt)) @ '':'' @ lr_name rt"

text \<open>The context of a request, after its hook.\<close>

definition transform_context ::
  "('w, 'm, 'g, 'j, 'f) drive_env \<Rightarrow> operation_id \<Rightarrow> call_context \<Rightarrow> ('j, 'f) agent_message list \<Rightarrow> string
    \<Rightarrow> ('w, 'm, 'g, 'j, ('j, 'f) agent_message list \<times> string) stream_op" where
  "transform_context env i cx messages system_prompt =
     (case hk_transform_context (dv_hooks env) of
        None \<Rightarrow> op_return (messages, system_prompt)
      | Some hook \<Rightarrow>
          op_bind gate_admit (\<lambda>_.
          with_lane (\<lambda>rt.
          op_bind (run_with_gate env hook (lr_name rt, i, messages, system_prompt) cx) (\<lambda>result.
          case result of
            Inr None \<Rightarrow> op_return (messages, system_prompt)
          | Inr (Some (new_messages, new_prompt)) \<Rightarrow>
              op_return (unwrap_or new_messages messages, unwrap_or new_prompt system_prompt)
          | Inl (HookGate rejection) \<Rightarrow> op_fail (StreamGate rejection)
          | Inl (HookHandler fault) \<Rightarrow> op_fail (StreamGate (GateRejectedClosed fault))))))"

definition stream_harness_assistant ::
  "('m, 'j, 'f::zero) storage_ops \<Rightarrow> ('w, 'm, 'g, 'j, 'f) drive_env \<Rightarrow> operation_id \<Rightarrow> entry_id \<Rightarrow> call_context
    \<Rightarrow> ('j, 'f) agent_message list \<Rightarrow> model \<Rightarrow> string \<Rightarrow> 'j tool list \<Rightarrow> thinking_level \<Rightarrow> 'j stream_options
    \<Rightarrow> ('w, 'm, 'g, 'j, ('j, 'f) assistant_message) stream_op" where
  "stream_harness_assistant ops env i response cx messages model system_prompt tools level options =
     op_bind (transform_context env i cx messages system_prompt) (\<lambda>(messages, system_prompt).
     op_bind gate_admit (\<lambda>_.
     op_bind (outside env (mm_to_provider (dv_models env) messages)) (\<lambda>converted.
     op_bind (op_read (\<lambda>_. map_err StreamPreparation converted)) (\<lambda>provider_messages.
     op_bind gate_admit (\<lambda>_.
     with_lane (\<lambda>rt.
     op_bind (outside env (mm_stream (dv_models env)
       \<lparr>pq_model = model, pq_session_id = lane_session_id rt, pq_system_prompt = system_prompt,
        pq_messages = provider_messages, pq_tools = tools, pq_thinking_level = level, pq_stream_options = options\<rparr>)) (\<lambda>items.
     consume_stream ops env i response cx items)))))))"

definition stream_harness_deferred ::
  "('m, 'j, 'f::zero) storage_ops \<Rightarrow> ('w, 'm, 'g, 'j, 'f) drive_env \<Rightarrow> operation_id \<Rightarrow> entry_id \<Rightarrow> call_context
    \<Rightarrow> model \<Rightarrow> ('j, 'f) deferred_handle \<Rightarrow> thinking_level \<Rightarrow> 'j stream_options
    \<Rightarrow> ('w, 'm, 'g, 'j, ('j, 'f) assistant_message) stream_op" where
  "stream_harness_deferred ops env i response cx model handle level options =
     op_bind gate_admit (\<lambda>_.
     op_bind (outside env (mm_fetch_deferred (dv_models env) model handle level options)) (\<lambda>items.
     consume_stream ops env i response cx items))"

section \<open>Option patches\<close>

definition apply_map_patch :: "(string \<times> 'v) list option \<Rightarrow> 'v map_patch \<Rightarrow> (string \<times> 'v) list option" where
  "apply_map_patch slot patch =
     (case patch of
        PatchUnchanged \<Rightarrow> slot
      | PatchClear \<Rightarrow> None
      | PatchMerge changes \<Rightarrow>
          if slot = None \<and> changes \<noteq> [] \<and> \<not> list_ex (\<lambda>(k, v). v \<noteq> None) changes then slot
          else Some (foldl (\<lambda>m (k, v). case v of None \<Rightarrow> bt_remove k m | Some v \<Rightarrow> bt_insert k v m)
            (case slot of None \<Rightarrow> [] | Some m \<Rightarrow> m) changes))"

definition apply_stream_options_patch :: "'j stream_options \<Rightarrow> 'j stream_options_patch \<Rightarrow> 'j stream_options" where
  "apply_stream_options_patch base patch =
     \<lparr>sp_transport = unwrap_or (sq_transport patch) (sp_transport base),
      sp_timeout_ms = unwrap_or (sq_timeout_ms patch) (sp_timeout_ms base),
      sp_max_retries = unwrap_or (sq_max_retries patch) (sp_max_retries base),
      sp_max_retry_delay_ms = unwrap_or (sq_max_retry_delay_ms patch) (sp_max_retry_delay_ms base),
      sp_headers = apply_map_patch (sp_headers base) (sq_headers patch),
      sp_metadata = apply_map_patch (sp_metadata base) (sq_metadata patch),
      sp_cache_retention = unwrap_or (sq_cache_retention patch) (sp_cache_retention base),
      sp_deferred = unwrap_or (sq_deferred patch) (sp_deferred base)\<rparr>"

definition diff_map :: "(string \<times> 'v) list option \<Rightarrow> (string \<times> 'v) list option \<Rightarrow> 'v map_patch" where
  "diff_map before after =
     (case (before, after) of
        (None, None) \<Rightarrow> PatchUnchanged
      | (Some _, None) \<Rightarrow> PatchClear
      | (None, Some after) \<Rightarrow> PatchMerge (map (\<lambda>(k, v). (k, Some v)) after)
      | (Some before, Some after) \<Rightarrow>
          let removed = foldl (\<lambda>m (k, _). if bt_contains after k then m else bt_insert k None m) [] before;
              changes = foldl (\<lambda>m (k, v). if bt_get before k \<noteq> Some v then bt_insert k (Some v) m else m) removed after
          in if changes = [] then PatchUnchanged else PatchMerge changes)"

definition create_stream_options_patch :: "'j stream_options \<Rightarrow> 'j stream_options \<Rightarrow> 'j stream_options_patch" where
  "create_stream_options_patch before after =
     \<lparr>sq_transport = (if sp_transport before \<noteq> sp_transport after then Some (sp_transport after) else None),
       sq_timeout_ms = (if sp_timeout_ms before \<noteq> sp_timeout_ms after then Some (sp_timeout_ms after) else None),
       sq_max_retries = (if sp_max_retries before \<noteq> sp_max_retries after then Some (sp_max_retries after) else None),
       sq_max_retry_delay_ms =
         (if sp_max_retry_delay_ms before \<noteq> sp_max_retry_delay_ms after then Some (sp_max_retry_delay_ms after) else None),
       sq_headers = diff_map (sp_headers before) (sp_headers after),
       sq_metadata = diff_map (sp_metadata before) (sp_metadata after),
       sq_cache_retention = (if sp_cache_retention before \<noteq> sp_cache_retention after then Some (sp_cache_retention after) else None),
       sq_deferred = (if sp_deferred before \<noteq> sp_deferred after then Some (sp_deferred after) else None)\<rparr>"

end
