(* ===== verification/Lane_Drive.thy ===== *)
theory Lane_Drive
  imports Lane_Stream Lane_Restore
begin

text \<open>
  The steps of the operation driver (\<open>harness/runtime/drive.rs\<close>) that every operation shares:
  transitions, settlement, the inbox, and the publication and recovery of assistant responses. A
  step takes the operation as the loop read it and acts on the lane as it is then; \<open>pause\<close> stands
  where it waits for the lane's lock, and other tasks may have run. Events and notifications are
  left out, and so are the reads that only feed them.
\<close>

datatype ('j, 'f) drive_step =
  StepContinue
| StepWaitingRetry i64
| StepWaitingDeferred "('j, 'f) deferred_handle"
| StepSettled "'j operation_result_record"

section \<open>Transitions\<close>

definition check_current :: "'j operation \<Rightarrow> string \<Rightarrow> ('w, 'm, 'g, 'j, unit) lane_op" where
  "check_current operation activity = with_lane (\<lambda>rt.
     case la_operation (lr_data rt) of
       None \<Rightarrow> op_fail (harness_invariant (''operation disappeared during '' @ activity))
     | Some current \<Rightarrow>
         if op_id current \<noteq> op_id operation
         then op_fail (OperationMismatch (lr_name rt) (op_id operation) (Some (op_id current))
           (ls_last_operation_id (la_state (lr_data rt))) (''operation changed during '' @ activity))
         else op_return ())"

definition put_operation :: "operation_meta_record \<Rightarrow> 'j op_state \<Rightarrow> ('w, 'm, 'g, 'j, unit) lane_op" where
  "put_operation meta state = put_data (\<lambda>d. d\<lparr>la_operation := Some \<lparr>op_meta = meta, op_state_of = state\<rparr>\<rparr>)"

definition drive_serde :: "('w, 'm, 'g, 'j, 'f) drive_env \<Rightarrow> ('j, 'f) lane_serde" where
  "drive_serde env = en_serde (dv_lane env)"

definition state_write ::
  "('w, 'm, 'g, 'j, 'f) drive_env \<Rightarrow> 'j operation \<Rightarrow> 'j op_state \<Rightarrow> ('w, 'm, 'g, 'j, ('j, 'f) session_write) lane_op" where
  "state_write env operation state = lane_write (operation_state (op_id operation)) (ld_op_state (drive_serde env)) state"

definition tip_write ::
  "('w, 'm, 'g, 'j, 'f) drive_env \<Rightarrow> lane_name \<Rightarrow> entry_id option \<Rightarrow> ('w, 'm, 'g, 'j, ('j, 'f) session_write) lane_op" where
  "tip_write env name tip = lane_write (branch_tip name) (tip_codec (ld_serde (drive_serde env))) tip"

definition transition_with_writes ::
  "('m, 'j, 'f) storage_ops \<Rightarrow> ('w, 'm, 'g, 'j, 'f) drive_env \<Rightarrow> 'j operation \<Rightarrow> 'j op_state
    \<Rightarrow> ('j, 'f) session_write list \<Rightarrow> call_context \<Rightarrow> ('w, 'm, 'g, 'j, unit) lane_op" where
  "transition_with_writes ops env operation state writes cx =
     op_bind (pause env) (\<lambda>_.
     op_bind (check_current operation ''transition'') (\<lambda>_.
     op_bind (state_write env operation state) (\<lambda>write.
     op_bind (lane_commit ops (writes @ [write]) cx) (\<lambda>_.
     put_operation (op_meta operation) state))))"

definition transition ::
  "('m, 'j, 'f) storage_ops \<Rightarrow> ('w, 'm, 'g, 'j, 'f) drive_env \<Rightarrow> 'j operation \<Rightarrow> 'j op_state
    \<Rightarrow> call_context \<Rightarrow> ('w, 'm, 'g, 'j, unit) lane_op" where
  "transition ops env operation state cx = transition_with_writes ops env operation state [] cx"

definition transition_with_preparation ::
  "('m, 'j, 'f) storage_ops \<Rightarrow> ('w, 'm, 'g, 'j, 'f) drive_env \<Rightarrow> 'j operation \<Rightarrow> string \<Rightarrow> ('j, 'f) structural_preparation
    \<Rightarrow> 'j op_state \<Rightarrow> call_context \<Rightarrow> ('w, 'm, 'g, 'j, unit) lane_op" where
  "transition_with_preparation ops env operation task_id preparation state cx =
     op_bind (pause env) (\<lambda>_.
     op_bind (check_current operation ''preparation'') (\<lambda>_.
     op_bind (lane_write (operation_preparation (op_id operation) task_id) (ld_preparation (drive_serde env)) preparation) (\<lambda>prepared.
     op_bind (state_write env operation state) (\<lambda>write.
     op_bind (lane_commit ops [prepared, write] cx) (\<lambda>_.
     put_operation (op_meta operation) state)))))"

section \<open>Settlement\<close>

fun response_id_of :: "'j op_state \<Rightarrow> entry_id option" where
  "response_id_of (AssistantEffectPending _ _ _ response _ _ _) = Some response"
| "response_id_of (DeferredEffectPending _ response _) = Some response"
| "response_id_of _ = None"

definition lane_scan ::
  "('m, 'j, 'f) storage_ops \<Rightarrow> ('j, 'a) codec \<Rightarrow> value_address \<Rightarrow> call_context \<Rightarrow> ('w, 'm, 'g, 'j, value_address list) lane_op" where
  "lane_scan ops codec pre cx = lane_read (\<lambda>s.
     rbind (typed_scan_values (\<lambda>a. session_scan_values_json ops s a cx) (cd_from codec) pre) (\<lambda>values.
     Inr (map sv_address values)))"

definition operation_cleanup_writes ::
  "('m, 'j, 'f) storage_ops \<Rightarrow> ('w, 'm, 'g, 'j, 'f) drive_env \<Rightarrow> operation_id \<Rightarrow> entry_id option \<Rightarrow> call_context
    \<Rightarrow> ('w, 'm, 'g, 'j, ('j, 'f) session_write list) lane_op" where
  "operation_cleanup_writes ops env i response cx =
     op_bind (lane_scan ops (ld_preparation (drive_serde env)) (operation_preparation_prefix i) cx) (\<lambda>preparations.
     op_bind (lane_scan ops (ld_args (drive_serde env)) (operation_tool_args_prefix i None) cx) (\<lambda>tool_args.
     op_bind (lane_scan ops (ld_memo (drive_serde env)) (operation_tool_memo_prefix i None) cx) (\<lambda>tool_memos.
     op_bind (lane_scan ops (ld_staged (drive_serde env)) (pending_tool_output_prefix i) cx) (\<lambda>outputs.
     op_return (op_cleanup_writes i response @
       map delete_value preparations @ map delete_value tool_args @ map delete_value tool_memos @ map delete_value outputs)))))"

definition settle ::
  "('m, 'j, 'f) storage_ops \<Rightarrow> ('w, 'm, 'g, 'j, 'f) drive_env \<Rightarrow> 'j operation \<Rightarrow> terminal_status \<Rightarrow> 'j operation_error option
    \<Rightarrow> call_context \<Rightarrow> ('w, 'm, 'g, 'j, 'j operation_result_record) lane_op" where
  "settle ops env operation status error cx =
     op_bind (operation_cleanup_writes ops env (op_id operation) (response_id_of (op_state_of operation)) cx) (\<lambda>cleanup.
     op_bind (pause env) (\<lambda>_.
     op_bind (lane_now (dv_lane env)) (\<lambda>ended_at.
     with_lane (\<lambda>rt.
     let record = \<lparr>or_operation_id = op_id operation, or_kind = operation_kind_of (om_intent (op_meta operation)),
           or_status = status, or_error = error, or_from_tip_id = om_source_tip_id (op_meta operation),
           or_tip_id = la_tip (lr_data rt), or_started_at = om_started_at (op_meta operation), or_ended_at = ended_at\<rparr>;
         state = (la_state (lr_data rt))\<lparr>ls_current_operation_id := None, ls_last_operation_id := Some (op_id operation)\<rparr> in
     op_bind (lane_write (lane_state_address (lr_name rt)) (ld_state (drive_serde env)) state) (\<lambda>write.
     op_bind (lane_write (operation_result (op_id operation)) (ld_result (drive_serde env)) record) (\<lambda>result_write.
     op_bind (lane_commit ops ([write, result_write] @ cleanup) cx) (\<lambda>_.
     op_bind (put_data (\<lambda>d. d\<lparr>la_state := state, la_operation := None, la_last_result := Some record\<rparr>)) (\<lambda>_.
     op_return record))))))))"

definition plain_error :: "string \<Rightarrow> string \<Rightarrow> 'j operation_error" where
  "plain_error code message = \<lparr>oe_code = code, oe_message = message, oe_details = None\<rparr>"

definition settle_failure ::
  "('m, 'j, 'f) storage_ops \<Rightarrow> ('w, 'm, 'g, 'j, 'f) drive_env \<Rightarrow> 'j operation \<Rightarrow> string \<Rightarrow> string \<Rightarrow> call_context
    \<Rightarrow> ('w, 'm, 'g, 'j, 'j operation_result_record) lane_op" where
  "settle_failure ops env operation code message cx = settle ops env operation Failed (Some (plain_error code message)) cx"

definition settled_step ::
  "('w, 'm, 'g, 'j, 'j operation_result_record) lane_op \<Rightarrow> ('w, 'm, 'g, 'j, ('j, 'f) drive_step) lane_op" where
  "settled_step m = op_bind m (\<lambda>record. op_return (StepSettled record))"

definition model_unavailable :: "lane_configuration \<Rightarrow> string" where
  "model_unavailable config =
     ''configured model '' @ mi_provider (lc_model config) @ ''/'' @ mi_model_id (lc_model config) @ '' is unavailable''"

definition lookup_model :: "('w, 'm, 'g, 'j, 'f) drive_env \<Rightarrow> lane_configuration \<Rightarrow> model option" where
  "lookup_model env config = en_get_model (dv_lane env) (mi_provider (lc_model config)) (mi_model_id (lc_model config))"

section \<open>The inbox\<close>

record ('j, 'f) inbox_drain =
  dr_messages :: "('j, 'f) agent_message list"
  dr_trigger :: "entry_id option"
  dr_committed :: bool

fun drain_messages :: "(inbox_item \<times> ('j, 'f) pending_payload) list \<Rightarrow> ('j, 'f) agent_message list" where
  "drain_messages [] = []"
| "drain_messages ((item, PendingMessage message) # rest) = message # drain_messages rest"
| "drain_messages ((item, PendingCustom _ _) # rest) = drain_messages rest"

text \<open>The last drained entry able to start an assistant step.\<close>

fun drain_trigger :: "string list \<Rightarrow> entry_id option \<Rightarrow> (inbox_item \<times> ('j, 'f) pending_payload) list \<Rightarrow> entry_id option" where
  "drain_trigger projectors trigger [] = trigger"
| "drain_trigger projectors trigger ((item, PendingMessage _) # rest) =
     drain_trigger projectors (Some (ii_entry_id item)) rest"
| "drain_trigger projectors trigger ((item, PendingCustom custom_type _) # rest) =
     drain_trigger projectors (if custom_type \<in> set projectors then Some (ii_entry_id item) else trigger) rest"

definition drain_inbox ::
  "('m, 'j, 'f) storage_ops \<Rightarrow> ('w, 'm, 'g, 'j, 'f) drive_env \<Rightarrow> 'j operation \<Rightarrow> call_context
    \<Rightarrow> ('w, 'm, 'g, 'j, ('j, 'f) inbox_drain) lane_op" where
  "drain_inbox ops env operation cx =
     op_bind (pause env) (\<lambda>_.
     with_lane (\<lambda>rt.
     let state = la_state (lr_data rt);
         settings = sc_settings (op_scope operation);
         selected = select_inbox (ls_inbox state) (rs_steering_mode settings) (rs_follow_up_mode settings) in
     if selected = [] then op_return \<lparr>dr_messages = [], dr_trigger = None, dr_committed = False\<rparr>
     else
       op_bind (on_session (begin_mutation cx)) (\<lambda>_.
       op_bind (guarded_pending ops (dv_lane env) selected cx) (\<lambda>pending.
       let parent = last_parent (la_tip (lr_data rt)) (map (\<lambda>p. ii_entry_id (fst p)) pending);
           next = \<lparr>ls_current_operation_id = Some (op_id operation), ls_last_operation_id = ls_last_operation_id state,
             ls_inbox = remaining_inbox (ls_inbox state) selected\<rparr> in
       op_bind (lane_write (lane_state_address (lr_name rt)) (ld_state (drive_serde env)) next) (\<lambda>write.
       op_bind (tip_write env (lr_name rt) parent) (\<lambda>tip.
       op_bind (faulting_commit ops (pending_writes (la_tip (lr_data rt)) pending @ [write, tip]) cx) (\<lambda>_.
       op_bind (put_data (\<lambda>d. d\<lparr>la_tip := parent, la_state := next\<rparr>)) (\<lambda>_.
       op_return \<lparr>dr_messages = drain_messages pending,
         dr_trigger = drain_trigger (rc_projectors (lr_config rt)) None pending, dr_committed = True\<rparr>))))))))"

text \<open>Messages a hook injects at the start of a run.\<close>

definition append_injected_messages ::
  "('m, 'j, 'f) storage_ops \<Rightarrow> ('w, 'm, 'g, 'j, 'f) drive_env \<Rightarrow> ('j, 'f) agent_message list \<Rightarrow> call_context
    \<Rightarrow> ('w, 'm, 'g, 'j, unit) lane_op" where
  "append_injected_messages ops env messages cx =
     op_bind (pause env) (\<lambda>_.
     with_lane (\<lambda>rt.
     op_bind (message_writes (dv_lane env) (la_tip (lr_data rt)) messages) (\<lambda>(ids, writes).
     let parent = last_parent (la_tip (lr_data rt)) ids in
     op_bind (tip_write env (lr_name rt) parent) (\<lambda>tip.
     op_bind (lane_commit ops (writes @ [tip]) cx) (\<lambda>_.
     put_data (\<lambda>d. d\<lparr>la_tip := parent\<rparr>))))))"

section \<open>Assistant responses\<close>

record ('j, 'f) assistant_commit =
  ac_response_id :: entry_id
  ac_assistant :: "('j, 'f) agent_message"
  ac_usage :: "'f usage"
  ac_usage_id :: usage_id
  ac_next_state :: "'j op_state"
  ac_status :: terminal_status
  ac_error :: "'j operation_error option"

text \<open>The states after which the operation stays open.\<close>

fun keeps_operation :: "'j op_state \<Rightarrow> bool" where
  "keeps_operation (DeferredSuspended _) = True"
| "keeps_operation (AssistantRetryWait _ _ _) = True"
| "keeps_operation (Checkpoint _ _) = True"
| "keeps_operation (Tools _ _) = True"
| "keeps_operation _ = False"

definition commit_assistant ::
  "('m, 'j, 'f) storage_ops \<Rightarrow> ('w, 'm, 'g, 'j, 'f) drive_env \<Rightarrow> 'j operation \<Rightarrow> ('j, 'f) assistant_commit \<Rightarrow> call_context
    \<Rightarrow> ('w, 'm, 'g, 'j, 'j operation_result_record) lane_op" where
  "commit_assistant ops env operation commit cx =
     op_bind (pause env) (\<lambda>_.
     op_bind (with_lane (\<lambda>rt.
       let response = ac_response_id commit; next = ac_next_state commit in
       op_bind (state_write env operation next) (\<lambda>write.
       op_bind (tip_write env (lr_name rt) (Some response)) (\<lambda>tip.
       op_bind (lane_commit ops
         [entry_write response (la_tip (lr_data rt)) (ac_assistant commit) False,
          WriteUsage \<lparr>nu_id = ac_usage_id commit, nu_usage = ac_usage commit, nu_entry_id = Some response,
            nu_adjustment = False, nu_details = None\<rparr>,
          write, tip, delete_list (pending_assistant_frames (op_id operation) response)] cx) (\<lambda>_.
       op_bind (put_data (\<lambda>d. d\<lparr>la_tip := Some response\<rparr>)) (\<lambda>_.
       if keeps_operation next
       then (case la_operation (lr_data rt) of
           None \<Rightarrow> op_fail (harness_invariant ''assistant operation disappeared'')
         | Some current \<Rightarrow> put_operation (op_meta current) next)
       else op_return ())))))) (\<lambda>_.
     op_bind (lane_read (\<lambda>s. session_get_entry ops s (ac_response_id commit) cx)) (\<lambda>entry.
     if entry = None then op_fail (harness_invariant ''assistant entry was not committed'')
     else if ac_status commit = Failed \<and> ac_error commit \<noteq> None \<and> state_at (ac_next_state commit) = At_Checkpoint
     then settle ops env operation (ac_status commit) (ac_error commit) cx
     else op_bind (lane_now (dv_lane env)) (\<lambda>ended_at.
       op_return \<lparr>or_operation_id = op_id operation, or_kind = KindRun, or_status = ac_status commit, or_error = ac_error commit,
         or_from_tip_id = om_source_tip_id (op_meta operation), or_tip_id = Some (ac_response_id commit),
         or_started_at = om_started_at (op_meta operation), or_ended_at = ended_at\<rparr>))))"

section \<open>Recovery and abort\<close>

definition INTERRUPTED :: "'j operation_error" where
  "INTERRUPTED = plain_error ''interrupted'' ''assistant response was interrupted''"

definition synthesize_interrupted_assistant ::
  "('w, 'm, 'g, 'j, 'f::zero) drive_env \<Rightarrow> 'j generation_context \<Rightarrow> ('w, 'm, 'g, 'j, ('j, 'f) assistant_message option) lane_op" where
  "synthesize_interrupted_assistant env context =
     (let config = gc_configuration context in
      case (case mi_api (lc_model config) of Some api \<Rightarrow> Some api
          | None \<Rightarrow> map_option mo_api (lookup_model env config)) of
        None \<Rightarrow> op_return None
      | Some api \<Rightarrow>
          op_bind (lane_now (dv_lane env)) (\<lambda>now.
          op_return (Some ((assistant_message_new api (mi_provider (lc_model config)) (mi_model_id (lc_model config)) now)
            \<lparr>am_stop_reason := Sr_Aborted,
             am_error_message := Some ''assistant response interrupted before completion''\<rparr>))))"

definition rebuild_interrupted_assistant ::
  "('w, 'm, 'g, 'j, 'f) drive_env \<Rightarrow> ('j, 'f) assistant_frame list \<Rightarrow> ('w, 'm, 'g, 'j, ('j, 'f) assistant_message option) lane_op" where
  "rebuild_interrupted_assistant env frames =
     op_bind (lane_read (\<lambda>_. reduce_persisted_frames (dv_args env) frames)) (\<lambda>message.
     op_bind (lane_now (dv_lane env)) (\<lambda>now.
     op_return (Some (message\<lparr>am_stop_reason := Sr_Aborted,
       am_error_message := Some ''assistant response interrupted during recovery'', am_timestamp := now\<rparr>))))"

definition read_frames ::
  "('m, 'j, 'f) storage_ops \<Rightarrow> ('w, 'm, 'g, 'j, 'f) drive_env \<Rightarrow> operation_id \<Rightarrow> entry_id \<Rightarrow> call_context
    \<Rightarrow> ('w, 'm, 'g, 'j, ('j, 'f) assistant_frame list) lane_op" where
  "read_frames ops env i response cx = lane_read (\<lambda>s.
     rbind (typed_read_list (\<lambda>a. session_read_list_json ops s a None cx) (cd_from (dv_frame env))
       (pending_assistant_frames i response)) (\<lambda>elements. Inr (map le_value elements)))"

definition recover_assistant_effect ::
  "('m, 'j, 'f::zero) storage_ops \<Rightarrow> ('w, 'm, 'g, 'j, 'f) drive_env \<Rightarrow> 'j operation \<Rightarrow> call_context
    \<Rightarrow> ('w, 'm, 'g, 'j, ('j, 'f) drive_step) lane_op" where
  "recover_assistant_effect ops env operation cx =
     (case op_state_of operation of
        AssistantEffectPending scope context attempt response usage limit window \<Rightarrow>
          op_bind (read_frames ops env (op_id operation) response cx) (\<lambda>frames.
          op_bind (if frames = [] then synthesize_interrupted_assistant env context
            else rebuild_interrupted_assistant env frames) (\<lambda>partial.
          case partial of
            None \<Rightarrow> settled_step (settle_failure ops env operation ''model_unavailable''
              (model_unavailable (gc_configuration context)) cx)
          | Some message \<Rightarrow>
              op_bind (op_read (\<lambda>_. map_err HarnessClosed (ld_assistant_to (drive_serde env) message))) (\<lambda>assistant.
              op_bind (commit_assistant ops env operation
                \<lparr>ac_response_id = response, ac_assistant = assistant, ac_usage = usage_default, ac_usage_id = usage,
                 ac_next_state = Checkpoint scope \<lparr>cp_continuation = MayFinish True, cp_trigger_entry_id = response\<rparr>,
                 ac_status = Aborted, ac_error = Some INTERRUPTED\<rparr> cx) (\<lambda>_.
              settled_step (settle ops env operation Aborted (Some INTERRUPTED) cx)))))
      | _ \<Rightarrow> op_fail (harness_invariant ''assistant recovery received another state''))"

definition deferred_handle ::
  "('m, 'j, 'f) storage_ops \<Rightarrow> ('w, 'm, 'g, 'j, 'f) drive_env \<Rightarrow> 'j deferred_scope \<Rightarrow> call_context
    \<Rightarrow> ('w, 'm, 'g, 'j, ('j, 'f) deferred_handle) lane_op" where
  "deferred_handle ops env deferred cx =
     op_bind (lane_read (\<lambda>s. session_get_entry ops s (df_source_entry_id deferred) cx)) (\<lambda>entry.
     op_read (\<lambda>_.
     rbind (ok_or entry (harness_invariant ''deferred source entry is missing'')) (\<lambda>entry.
     rbind (ok_or (Option.bind (entry_message entry) (ld_assistant_of (drive_serde env)))
       (harness_invariant ''deferred source entry is not assistant'')) (\<lambda>message.
     ok_or (am_deferred message) (harness_invariant ''deferred source entry has no handle'')))))"

text \<open>Errors of the cancellation are dropped, so only its effect on the world is left.\<close>

definition cancel_deferred_best_effort ::
  "('m, 'j, 'f) storage_ops \<Rightarrow> ('w, 'm, 'g, 'j, 'f) drive_env \<Rightarrow> 'j deferred_scope \<Rightarrow> call_context
    \<Rightarrow> ('w, 'm, 'g, 'j, unit) lane_op" where
  "cancel_deferred_best_effort ops env deferred cx = (\<lambda>rt.
     case deferred_handle ops env deferred cx rt of
       (Inl _, rt) \<Rightarrow> (Inr (), rt)
     | (Inr handle, rt) \<Rightarrow>
         (case lookup_model env (df_configuration deferred) of
            None \<Rightarrow> (Inr (), rt)
          | Some model \<Rightarrow> outside env (mm_cancel_deferred (dv_models env) model handle) rt))"

definition reconcile_abort ::
  "('m, 'j, 'f::zero) storage_ops \<Rightarrow> ('w, 'm, 'g, 'j, 'f) drive_env \<Rightarrow> 'j operation \<Rightarrow> call_context
    \<Rightarrow> ('w, 'm, 'g, 'j, ('j, 'f) drive_step) lane_op" where
  "reconcile_abort ops env operation cx =
     op_bind (\<lambda>rt. (Inr (), rt\<lparr>lr_abort := True\<rparr>)) (\<lambda>_.
     op_bind (case op_state_of operation of
         DeferredSuspended deferred \<Rightarrow> cancel_deferred_best_effort ops env deferred cx
       | DeferredEffectPending deferred _ _ \<Rightarrow> cancel_deferred_best_effort ops env deferred cx
       | _ \<Rightarrow> op_return ()) (\<lambda>_.
     if state_at (op_state_of operation) = At_AssistantEffectPending then recover_assistant_effect ops env operation cx
     else settled_step (settle ops env operation Aborted (Some (plain_error ''aborted'' ''operation aborted'')) cx)))"

definition publish_interrupted ::
  "('m, 'j, 'f) storage_ops \<Rightarrow> ('w, 'm, 'g, 'j, 'f) drive_env \<Rightarrow> 'j operation \<Rightarrow> entry_id \<Rightarrow> call_context
    \<Rightarrow> ('w, 'm, 'g, 'j, 'j operation_result_record) lane_op" where
  "publish_interrupted ops env operation response cx =
     op_bind (lane_read (\<lambda>s. session_get_entry ops s response cx)) (\<lambda>_.
     settle ops env operation Aborted (Some (plain_error ''aborted'' ''assistant request aborted'')) cx)"

text \<open>The operation the lane has now, and whether its abort has been asked for.\<close>

definition current_operation :: "('w, 'm, 'g, 'j, 'j operation option) lane_op" where
  "current_operation = op_read (\<lambda>rt. Inr (la_operation (lr_data rt)))"

definition boundary_cancelled :: "('w, 'm, 'g, 'j) lane_runtime \<Rightarrow> bool" where
  "boundary_cancelled rt \<longleftrightarrow>
     token_cancelled rt \<or> (case la_operation (lr_data rt) of Some operation \<Rightarrow> op_cancelled operation | None \<Rightarrow> False)"

end
