(* ===== verification/Lane_Run.thy ===== *)
theory Lane_Run
  imports Lane_Drive
begin

text \<open>
  The steps of a run (\<open>harness/runtime/drive.rs\<close>): its start, its checkpoints, the requests to the
  model with their retries, and deferred responses.
\<close>

section \<open>Retries\<close>

text \<open>\<open>u64::checked_shl\<close>: only the shift count is checked; bits shifted out are lost.\<close>

definition checked_shl :: "u64 \<Rightarrow> u32 \<Rightarrow> u64 option" where
  "checked_shl x n = (if unat n < 64 then Some (push_bit (unat n) x) else None)"

definition retry_delay :: "u64 \<Rightarrow> u64 \<Rightarrow> harness_error + u64" where
  "retry_delay base attempt =
     (let shift = min (saturating_sub attempt 1) 63 in
      rbind (if unat shift < 2 ^ 32 then Inr (ucast shift) else Inl (HarnessClosed ''retry shift overflow'')) (\<lambda>n.
      ok_or (checked_shl base n) (HarnessClosed ''retry delay overflow'')))"

definition i64_try_from :: "u64 \<Rightarrow> i64 option" where
  "i64_try_from x = (if uint x < 2 ^ 63 then Some (uint x) else None)"

definition i64_checked_add :: "i64 \<Rightarrow> i64 \<Rightarrow> i64 option" where
  "i64_checked_add a b = (if - (2 ^ 63) \<le> a + b \<and> a + b < 2 ^ 63 then Some (a + b) else None)"

text \<open>
  The wait before the next attempt, or \<open>None\<close> when the attempts are used up. \<open>kind\<close> is the prefix of
  the error texts: empty for an assistant request, \<open>summary \<close> for a summary.
\<close>

definition schedule_retry ::
  "string \<Rightarrow> normalized_retry_policy \<Rightarrow> u64 \<Rightarrow> i64 \<Rightarrow> string \<Rightarrow> harness_error + retry_wait option" where
  "schedule_retry kind policy attempt now message =
     (if attempt < nr_max_attempts policy
      then rbind (retry_delay (nr_base_delay_ms policy) attempt) (\<lambda>delay.
           rbind (ok_or (i64_try_from delay) (HarnessClosed (kind @ ''retry delay exceeds timestamp range''))) (\<lambda>delay.
           rbind (ok_or (i64_checked_add now delay) (HarnessClosed (kind @ ''retry timestamp overflow''))) (\<lambda>not_before.
           rbind (ok_or (checked_add attempt 1) (HarnessClosed (kind @ ''retry attempt overflow''))) (\<lambda>next_attempt.
           Inr (Some \<lparr>rw_next_attempt = next_attempt, rw_not_before = not_before, rw_error_message = message\<rparr>)))))
      else Inr None)"

definition retry_wait ::
  "('m, 'j, 'f::zero) storage_ops \<Rightarrow> ('w, 'm, 'g, 'j, 'f) drive_env \<Rightarrow> 'j operation \<Rightarrow> bool \<Rightarrow> call_context
    \<Rightarrow> ('w, 'm, 'g, 'j, ('j, 'f) drive_step) lane_op" where
  "retry_wait ops env operation wait cx =
     (case (case op_state_of operation of
         AssistantRetryWait scope context retry \<Rightarrow> Some (retry, AssistantReady scope context (rw_next_attempt retry))
       | SummaryRetryWait scope generation retry \<Rightarrow> Some (retry, SummaryReady scope generation (rw_next_attempt retry))
       | _ \<Rightarrow> None) of
        None \<Rightarrow> op_fail (harness_invariant ''retry wait dispatcher received another state'')
      | Some (retry, next) \<Rightarrow>
          if \<not> wait then op_return (StepWaitingRetry (rw_not_before retry))
          else
            op_bind (lane_now (dv_lane env)) (\<lambda>now.
            op_bind (if now < rw_not_before retry
              then with_lane (\<lambda>rt. op_bind (pause env) (\<lambda>_.
                op_return (dv_sleep env (word_of_int (min (rw_not_before retry - now) (2 ^ 63 - 1))) rt)))
              else op_return False) (\<lambda>cut_short.
            if cut_short then reconcile_abort ops env operation cx
            else op_bind (transition ops env operation next cx) (\<lambda>_. op_return StepContinue))))"

section \<open>Starting a run\<close>

definition hook_failure :: "hook_error \<Rightarrow> harness_error" where
  "hook_failure error = (case error of
     HookGate _ \<Rightarrow> HarnessClosed ''hook was aborted''
   | HookHandler fault \<Rightarrow> HarnessClosed (hf_message fault))"

definition read_entries_by_id ::
  "('m, 'j, 'f) storage_ops \<Rightarrow> entry_id list \<Rightarrow> call_context \<Rightarrow> ('w, 'm, 'g, 'j, ('j, 'f) agent_message list) lane_op" where
  "read_entries_by_id ops ids cx = lane_read (\<lambda>s.
     rbind (session_get_entries ops s ids cx) (\<lambda>entries.
     Inr (List.map_filter (\<lambda>i. Option.bind (bt_get entries i) entry_message) ids)))"

definition prompt_ids :: "operation_intent \<Rightarrow> entry_id list" where
  "prompt_ids intent = (case intent of IntentRun ids \<Rightarrow> ids | _ \<Rightarrow> [])"

definition start_run ::
  "('m, 'j, 'f) storage_ops \<Rightarrow> ('w, 'm, 'g, 'j, 'f) drive_env \<Rightarrow> 'j operation \<Rightarrow> call_context
    \<Rightarrow> ('w, 'm, 'g, 'j, ('j, 'f) drive_step) lane_op" where
  "start_run ops env operation cx =
     op_bind (case (prompt_ids (om_intent (op_meta operation)), hk_before_run (dv_hooks env)) of
         (i # ids, Some hook) \<Rightarrow>
           op_bind (read_entries_by_id ops (i # ids) cx) (\<lambda>prompt.
           with_lane (\<lambda>rt.
           op_bind (run_with_gate env hook (lr_name rt, op_id operation, prompt) cx) (\<lambda>result.
           case result of
             Inr (Some (Some messages)) \<Rightarrow> append_injected_messages ops env messages cx
           | Inr _ \<Rightarrow> op_return ()
           | Inl error \<Rightarrow> op_fail (hook_failure error))))
       | _ \<Rightarrow> op_return ()) (\<lambda>_.
     op_bind (pause env) (\<lambda>_.
     with_lane (\<lambda>rt.
     case la_tip (lr_data rt) of
       None \<Rightarrow> op_fail (InvalidMessage (lr_name rt) ''missing_prompt'' ''run has no prompt entry'')
     | Some trigger \<Rightarrow>
         op_bind (transition ops env operation (Checkpoint (op_scope operation)
           \<lparr>cp_continuation = NeedAssistant False, cp_trigger_entry_id = trigger\<rparr>) cx) (\<lambda>_.
         op_return StepContinue))))"

section \<open>Checkpoints\<close>

definition generation_context ::
  "('w, 'm, 'g, 'j, 'f) drive_env \<Rightarrow> 'j operation \<Rightarrow> entry_id \<Rightarrow> bool \<Rightarrow> ('w, 'm, 'g, 'j, 'j generation_context) lane_op" where
  "generation_context env operation trigger overflow_recovery_used =
     op_bind (pause env) (\<lambda>_.
     op_read (\<lambda>rt.
     rbind (normalized_retry (rc_retry (lr_config rt))) (\<lambda>policy.
     Inr \<lparr>gc_step_id = op_id operation @ '':'' @ trigger, gc_trigger_entry_id = trigger,
       gc_configuration = la_config (lr_data rt), gc_stream_options = rc_stream_options (lr_config rt),
       gc_retry_policy = policy, gc_overflow_recovery_used = overflow_recovery_used\<rparr>)))"

definition ready_for_assistant ::
  "('m, 'j, 'f) storage_ops \<Rightarrow> ('w, 'm, 'g, 'j, 'f) drive_env \<Rightarrow> 'j operation \<Rightarrow> entry_id \<Rightarrow> bool \<Rightarrow> call_context
    \<Rightarrow> ('w, 'm, 'g, 'j, ('j, 'f) drive_step) lane_op" where
  "ready_for_assistant ops env operation trigger overflow_recovery_used cx =
     op_bind (generation_context env operation trigger overflow_recovery_used) (\<lambda>context.
     op_bind (transition ops env operation (AssistantReady (op_scope operation) context 1) cx) (\<lambda>_.
     op_return StepContinue))"

definition renew_assistant_ready ::
  "('m, 'j, 'f) storage_ops \<Rightarrow> ('w, 'm, 'g, 'j, 'f) drive_env \<Rightarrow> 'j operation \<Rightarrow> entry_id \<Rightarrow> call_context
    \<Rightarrow> ('w, 'm, 'g, 'j, ('j, 'f) drive_step) lane_op" where
  "renew_assistant_ready ops env operation trigger cx = ready_for_assistant ops env operation trigger False cx"

definition append_run_follow_up ::
  "('m, 'j, 'f) storage_ops \<Rightarrow> ('w, 'm, 'g, 'j, 'f) drive_env \<Rightarrow> 'j operation \<Rightarrow> string \<Rightarrow> call_context
    \<Rightarrow> ('w, 'm, 'g, 'j, ('j, 'f) drive_step) lane_op" where
  "append_run_follow_up ops env operation follow_up cx =
     op_bind (new_id (dv_lane env)) (\<lambda>i.
     op_bind (lane_now (dv_lane env)) (\<lambda>now.
     op_bind (generation_context env operation i False) (\<lambda>context.
     op_bind (pause env) (\<lambda>_.
     op_bind (check_current operation ''follow-up'') (\<lambda>_.
     op_bind (with_lane (\<lambda>rt.
       let next = AssistantReady (op_scope operation) context 1 in
       op_bind (tip_write env (lr_name rt) (Some i)) (\<lambda>tip.
       op_bind (state_write env operation next) (\<lambda>write.
       op_bind (lane_commit ops [entry_write i (la_tip (lr_data rt)) (user_text follow_up [] now) False, tip, write] cx) (\<lambda>_.
       op_bind (put_data (\<lambda>d. d\<lparr>la_tip := Some i\<rparr>)) (\<lambda>_.
       put_operation (op_meta operation) next))))) ) (\<lambda>_.
     op_bind (lane_read (\<lambda>s. session_get_entry ops s i cx)) (\<lambda>entry.
     if entry = None then op_fail (harness_invariant ''follow-up entry was not committed'') else op_return StepContinue)))))))"

definition session_context_messages ::
  "('m, 'j, 'f) storage_ops \<Rightarrow> ('w, 'm, 'g, 'j, 'f) drive_env \<Rightarrow> call_context
    \<Rightarrow> ('w, 'm, 'g, 'j, ('j, 'f) agent_message list) lane_op" where
  "session_context_messages ops env cx =
     op_bind (lane_branch ops (dv_lane env) cx) (\<lambda>branch.
     op_bind (lane_read (branch_entries ops (dv_lane env) branch cx)) (\<lambda>entries.
     op_read (\<lambda>rt. map_err map_session_error (dv_context_messages env (lr_config rt) entries))))"

datatype 'r boundary = Aborted_boundary | Reached 'r

text \<open>The end of a run: its hook, work that arrived meanwhile, a follow-up, or settlement.\<close>

definition run_end_hook ::
  "('m, 'j, 'f) storage_ops \<Rightarrow> ('w, 'm, 'g, 'j, 'f) drive_env \<Rightarrow> 'j operation \<Rightarrow> call_context
    \<Rightarrow> ('w, 'm, 'g, 'j, string option boundary) lane_op" where
  "run_end_hook ops env operation cx =
     (case hk_before_run_end (dv_hooks env) of
        None \<Rightarrow> op_return (Reached None)
      | Some hook \<Rightarrow>
          op_bind (session_context_messages ops env cx) (\<lambda>messages.
          with_lane (\<lambda>rt.
          op_bind (run_with_gate env hook (lr_name rt, op_id operation, messages) cx) (\<lambda>result.
          case result of
            Inr None \<Rightarrow> op_return (Reached None)
          | Inr (Some follow_up) \<Rightarrow> op_return (Reached follow_up)
          | Inl (HookGate (GateAborted _)) \<Rightarrow> op_bind (pause env) (\<lambda>_. op_return Aborted_boundary)
          | Inl error \<Rightarrow> op_fail (hook_failure error)))))"

definition finish_run_boundary ::
  "('m, 'j, 'f::zero) storage_ops \<Rightarrow> ('w, 'm, 'g, 'j, 'f) drive_env \<Rightarrow> 'j operation \<Rightarrow> bool \<Rightarrow> call_context
    \<Rightarrow> ('w, 'm, 'g, 'j, ('j, 'f) drive_step) lane_op" where
  "finish_run_boundary ops env operation include_final_assistant cx =
     with_lane (\<lambda>rt.
     if boundary_cancelled rt then op_return StepContinue
     else
       op_bind (run_end_hook ops env operation cx) (\<lambda>hook.
       case hook of
         Aborted_boundary \<Rightarrow> reconcile_abort ops env operation cx
       | Reached follow_up \<Rightarrow>
           with_lane (\<lambda>rt.
           if boundary_cancelled rt then op_return StepContinue
           else
             op_bind (drain_inbox ops env operation cx) (\<lambda>redrain.
             case dr_trigger redrain of
               Some trigger \<Rightarrow> renew_assistant_ready ops env operation trigger cx
             | None \<Rightarrow>
                 (case (dr_committed redrain, follow_up) of
                    (False, Some text) \<Rightarrow> append_run_follow_up ops env operation text cx
                  | _ \<Rightarrow>
                      op_bind (pause env) (\<lambda>_.
                      with_lane (\<lambda>rt.
                      if la_tip (lr_data rt) = None then op_fail (harness_invariant ''completed run has no tip'')
                      else if include_final_assistant \<and> sc_latest_assistant_entry_id (op_scope operation) = None
                      then op_fail (harness_invariant ''completed run is missing its final assistant'')
                      else settled_step (settle ops env operation Completed None cx))))))))"

definition is_length_response ::
  "('m, 'j, 'f) storage_ops \<Rightarrow> ('w, 'm, 'g, 'j, 'f) drive_env \<Rightarrow> entry_id \<Rightarrow> call_context \<Rightarrow> ('w, 'm, 'g, 'j, bool) lane_op" where
  "is_length_response ops env i cx =
     op_bind (lane_read (\<lambda>s. session_get_entry ops s i cx)) (\<lambda>entry.
     case entry of
       None \<Rightarrow> op_fail (harness_invariant ''overflow checkpoint trigger entry is missing'')
     | Some entry \<Rightarrow>
         op_return (case Option.bind (entry_message entry) (ld_assistant_of (drive_serde env)) of
             Some message \<Rightarrow> am_stop_reason message = Sr_Length
           | None \<Rightarrow> False))"

definition should_compact :: "u64 \<Rightarrow> u64 \<Rightarrow> compaction_settings \<Rightarrow> bool" where
  "should_compact context_tokens window settings \<longleftrightarrow>
     cs_enabled settings \<and> saturating_sub window (cs_reserve_tokens settings) < context_tokens"

definition compaction_threshold_met ::
  "('w, 'm, 'g, 'j, 'f) drive_env \<Rightarrow> ('j, 'f) entry list \<Rightarrow> model \<Rightarrow> compaction_settings \<Rightarrow> harness_error + bool" where
  "compaction_threshold_met env entries model settings =
     rbind (map_err map_session_error (en_context_tokens (dv_lane env) entries)) (\<lambda>tokens.
     Inr (should_compact tokens (if mo_context_window model = 0 then 128000 else mo_context_window model) settings))"

definition maybe_start_compaction ::
  "('m, 'j, 'f) storage_ops \<Rightarrow> ('w, 'm, 'g, 'j, 'f) drive_env \<Rightarrow> 'j operation \<Rightarrow> entry_id \<Rightarrow> bool \<Rightarrow> call_context
    \<Rightarrow> ('w, 'm, 'g, 'j, ('j, 'f) drive_step option) lane_op" where
  "maybe_start_compaction ops env operation trigger force cx =
     (let settings = rs_compaction (sc_settings (op_scope operation)) in
      if \<not> cs_enabled settings then op_return None
      else
        op_bind (pause env) (\<lambda>_.
        op_bind get_data (\<lambda>d.
        case lookup_model env (la_config d) of
          None \<Rightarrow> op_bind (settled_step (settle_failure ops env operation ''model_unavailable''
            (model_unavailable (la_config d)) cx)) (\<lambda>step. op_return (Some step))
        | Some model \<Rightarrow>
            op_bind (lane_branch ops (dv_lane env) cx) (\<lambda>branch.
            op_bind (lane_read (branch_entries ops (dv_lane env) branch cx)) (\<lambda>entries.
            op_bind (if force then op_return True
              else op_read (\<lambda>_. compaction_threshold_met env entries model settings)) (\<lambda>due.
            if \<not> due then op_return None
            else case en_prepare_compaction (dv_lane env) entries settings of
                Inr None \<Rightarrow> op_return None
              | Inl (code, text) \<Rightarrow> op_bind (settled_step (settle_failure ops env operation code text cx)) (\<lambda>step. op_return (Some step))
              | Inr (Some preparation) \<Rightarrow>
                  let task_id = op_id operation @ '':compaction:'' @ trigger;
                      task = \<lparr>st_task_id = task_id, st_reason = Some (if force then Overflow else Threshold),
                        st_custom_instructions = None,
                        st_boundary = ResumeCheckpoint \<lparr>cp_continuation = NeedAssistant force, cp_trigger_entry_id = trigger\<rparr>\<rparr> in
                  op_bind (transition_with_preparation ops env operation task_id preparation
                    (SummaryDeciding (op_scope operation) task) cx) (\<lambda>_.
                  op_return (Some StepContinue))))))))"

definition checkpoint ::
  "('m, 'j, 'f::zero) storage_ops \<Rightarrow> ('w, 'm, 'g, 'j, 'f) drive_env \<Rightarrow> 'j operation \<Rightarrow> call_context
    \<Rightarrow> ('w, 'm, 'g, 'j, ('j, 'f) drive_step) lane_op" where
  "checkpoint ops env operation cx =
     (case op_state_of operation of
        Checkpoint scope point \<Rightarrow>
          op_bind (drain_inbox ops env operation cx) (\<lambda>drained.
          op_bind (if dr_messages drained = [] then op_return (cp_trigger_entry_id point)
            else op_bind (pause env) (\<lambda>_. op_read (\<lambda>rt. ok_or (la_tip (lr_data rt)) (harness_invariant ''drained queue has no branch tip'')))) (\<lambda>trigger.
          case cp_continuation point of
            NeedAssistant used \<Rightarrow>
              op_bind (if used then is_length_response ops env trigger cx else op_return False) (\<lambda>force.
              op_bind (maybe_start_compaction ops env operation trigger force cx) (\<lambda>started.
              case started of
                Some step \<Rightarrow> op_return step
              | None \<Rightarrow> ready_for_assistant ops env operation trigger used cx))
          | MayFinish include_final_assistant \<Rightarrow>
              (case dr_trigger drained of
                 Some trigger \<Rightarrow> renew_assistant_ready ops env operation trigger cx
               | None \<Rightarrow> finish_run_boundary ops env operation include_final_assistant cx)))
      | _ \<Rightarrow> op_fail (harness_invariant ''checkpoint dispatcher received another state''))"

end
