(* ===== verification/Streaming_Json.thy ===== *)
theory Streaming_Json
  imports Assistant_Frames
begin

text \<open>
  Argument text of a tool call while it is still arriving: \<open>parse_streaming_json\<close> and its helpers
  (\<open>pi-ai/src/providers/shared.rs\<close>), and the comparison of argument objects
  (\<open>serialized_arguments\<close>, \<open>is_json_prefix\<close> of \<open>assistant_message_frame.rs\<close>). A JSON number is a value
  of the type \<open>'n\<close>; \<open>serde_json\<close> itself is the record \<open>json_lib\<close>: \<open>from_str\<close>, \<open>to_string\<close>, and the
  \<open>f64\<close> a number stands for (\<open>None\<close> when it has none that is finite), with negative zero as zero.
\<close>

datatype 'n json =
  JNull
| JBool bool
| JNumber 'n
| JString string
| JArray "'n json list"
| JObject "(string \<times> 'n json) list"

record 'n json_lib =
  jl_from_str :: "string \<Rightarrow> 'n json option"
  jl_to_string :: "'n json \<Rightarrow> string"
  jl_finite :: "'n \<Rightarrow> 'n option"
  jl_same_bits :: "'n \<Rightarrow> 'n \<Rightarrow> bool"

section \<open>Repair\<close>

definition quote :: char where
  "quote = CHR 0x22"

definition backslash :: char where
  "backslash = CHR 0x5C"

definition is_hex :: "char \<Rightarrow> bool" where
  "is_hex c \<longleftrightarrow> (let n = of_char c :: nat in 48 \<le> n \<and> n \<le> 57 \<or> 65 \<le> n \<and> n \<le> 70 \<or> 97 \<le> n \<and> n \<le> 102)"

definition hex_digit :: "nat \<Rightarrow> char" where
  "hex_digit d = (if d < 10 then char_of (48 + d) else char_of (87 + d))"

definition simple_escapes :: string where
  "simple_escapes = [quote, backslash, CHR ''/'', CHR ''b'', CHR ''f'', CHR ''n'', CHR ''r'', CHR ''t'']"

text \<open>A character inside a string literal that is neither a quote nor a backslash.\<close>

definition repair_char :: "char \<Rightarrow> string" where
  "repair_char c =
     (let n = of_char c :: nat in
      if n = 8 then [backslash, CHR ''b'']
      else if n = 12 then [backslash, CHR ''f'']
      else if n = 10 then [backslash, CHR ''n'']
      else if n = 13 then [backslash, CHR ''r'']
      else if n = 9 then [backslash, CHR ''t'']
      else if n \<le> 31 then backslash # ''u00'' @ [hex_digit (n div 16), hex_digit (n mod 16)]
      else [c])"

definition valid_unicode :: "string \<Rightarrow> bool" where
  "valid_unicode rest \<longleftrightarrow> (case rest of
     c # digits \<Rightarrow> c = CHR ''u'' \<and> 4 \<le> length digits \<and> list_all is_hex (take 4 digits) | [] \<Rightarrow> False)"

function (sequential) repair_loop :: "bool \<Rightarrow> string \<Rightarrow> string" where
  "repair_loop in_string [] = []"
| "repair_loop False (c # cs) = c # repair_loop (c = quote) cs"
| "repair_loop True (c # cs) =
     (if c = quote then c # repair_loop False cs
      else if c = backslash
      then (if cs = [] then [backslash, backslash]
            else if valid_unicode cs then c # take 5 cs @ repair_loop True (drop 5 cs)
            else if hd cs \<in> set simple_escapes then [backslash, hd cs] @ repair_loop True (tl cs)
            else [backslash, backslash] @ repair_loop True cs)
      else repair_char c @ repair_loop True cs)"
  by pat_completeness auto
termination by (relation "measure (length \<circ> snd)") auto

definition repair_json :: "string \<Rightarrow> string" where
  "repair_json input = repair_loop False input"

section \<open>Completion\<close>

text \<open>What a scan of the text has open: the closing brackets, innermost first, and the literal.\<close>

record json_scan =
  sc_stack :: string
  sc_in_string :: bool
  sc_escaped :: bool

definition scan_start :: json_scan where
  "scan_start = \<lparr>sc_stack = [], sc_in_string = False, sc_escaped = False\<rparr>"

definition scan_char :: "json_scan \<Rightarrow> char \<Rightarrow> json_scan" where
  "scan_char s c =
     (if sc_in_string s
      then if sc_escaped s then s\<lparr>sc_escaped := False\<rparr>
           else if c = backslash then s\<lparr>sc_escaped := True\<rparr>
           else if c = quote then s\<lparr>sc_in_string := False\<rparr>
           else s
      else if c = quote then s\<lparr>sc_in_string := True\<rparr>
      else if c = CHR 0x7B then s\<lparr>sc_stack := CHR 0x7D # sc_stack s\<rparr>
      else if c = CHR 0x5B then s\<lparr>sc_stack := CHR 0x5D # sc_stack s\<rparr>
      else if (c = CHR 0x7D \<or> c = CHR 0x5D) \<and> sc_stack s \<noteq> [] \<and> hd (sc_stack s) = c
      then s\<lparr>sc_stack := tl (sc_stack s)\<rparr>
      else s)"

definition json_scan_of :: "string \<Rightarrow> json_scan" where
  "json_scan_of input = foldl scan_char scan_start input"

definition complete_json :: "string \<Rightarrow> string" where
  "complete_json input =
     (let s = json_scan_of input;
          output = (if sc_escaped s then butlast input else input);
          output = (if sc_in_string s then output @ [quote] else output)
      in output @ sc_stack s)"

section \<open>Parsing\<close>

function parse_partial_object :: "'n json_lib \<Rightarrow> string \<Rightarrow> (string \<times> 'n json) list option" where
  "parse_partial_object jl candidate =
     (case jl_from_str jl (complete_json candidate) of
        Some (JObject members) \<Rightarrow> Some members
      | _ \<Rightarrow> if candidate = [] then None else parse_partial_object jl (butlast candidate))"
  by pat_completeness auto
termination by (relation "measure (length \<circ> snd)") auto

declare parse_partial_object.simps [simp del]

text \<open>\<open>str::trim\<close>, over the characters below 256.\<close>

definition is_space :: "char \<Rightarrow> bool" where
  "is_space c \<longleftrightarrow> (let n = of_char c :: nat in 9 \<le> n \<and> n \<le> 13 \<or> n = 32 \<or> n = 0x85 \<or> n = 0xA0)"

definition trim :: "string \<Rightarrow> string" where
  "trim s = rev (dropWhile is_space (rev (dropWhile is_space s)))"

definition parse_streaming_json :: "'n json_lib \<Rightarrow> string \<Rightarrow> (string \<times> 'n json) list" where
  "parse_streaming_json jl text =
     (let input = trim text in
      if input = [] then []
      else case parse_partial_object jl (repair_json input) of
          Some members \<Rightarrow> members
        | None \<Rightarrow> (case parse_partial_object jl input of Some members \<Rightarrow> members | None \<Rightarrow> []))"

section \<open>Comparing arguments\<close>

fun normalized_json :: "'n json_lib \<Rightarrow> 'n json \<Rightarrow> 'n json option" where
  "normalized_json jl (JNumber n) = map_option JNumber (jl_finite jl n)"
| "normalized_json jl (JArray values) =
     (let vs = map (normalized_json jl) values in if None \<in> set vs then None else Some (JArray (map the vs)))"
| "normalized_json jl (JObject members) =
     (let vs = map (\<lambda>(k, v). (k, normalized_json jl v)) members
      in if None \<in> snd ` set vs then None else Some (JObject (map (\<lambda>(k, v). (k, the v)) vs)))"
| "normalized_json jl v = Some v"

definition serialized_arguments :: "'n json_lib \<Rightarrow> (string \<times> 'n json) list \<Rightarrow> string option" where
  "serialized_arguments jl arguments = map_option (jl_to_string jl) (normalized_json jl (JObject arguments))"

function (sequential) is_json_prefix :: "'n json_lib \<Rightarrow> 'n json \<Rightarrow> 'n json \<Rightarrow> bool" where
  "is_json_prefix jl (JString snapshot) (JString current) = prefix snapshot current"
| "is_json_prefix jl (JArray snapshot) (JArray current) =
     (length snapshot \<le> length current \<and> list_all (\<lambda>(s, c). is_json_prefix jl s c) (zip snapshot current))"
| "is_json_prefix jl (JObject snapshot) (JObject current) =
     list_all (\<lambda>(k, v). case map_of current k of None \<Rightarrow> False | Some c \<Rightarrow> is_json_prefix jl v c) snapshot"
| "is_json_prefix jl (JNumber snapshot) (JNumber current) = jl_same_bits jl snapshot current"
| "is_json_prefix jl snapshot current =
     (case (snapshot, current) of
        (JObject _, _) \<Rightarrow> False | (JArray _, _) \<Rightarrow> False | (_, JObject _) \<Rightarrow> False | (_, JArray _) \<Rightarrow> False
      | _ \<Rightarrow> snapshot = current)"
  by pat_completeness auto
termination
proof (relation "measure (\<lambda>(jl, snapshot, current). size snapshot)")
  fix snapshot current :: "'n json list" and jl :: "'n json_lib" and p a b
  assume "p \<in> set (zip snapshot current)" and "(a, b) = p"
  then have "a \<in> set snapshot" by (metis set_zip_leftD)
  then show "((jl, a, b), jl, JArray snapshot, JArray current) \<in> measure (\<lambda>(jl, snapshot, current). size snapshot)"
    by (induction snapshot) auto
next
  fix snapshot current :: "(string \<times> 'n json) list" and jl :: "'n json_lib" and p k v c
  assume "p \<in> set snapshot" and "(k, v) = p"
  then show "((jl, v, c), jl, JObject snapshot, JObject current) \<in> measure (\<lambda>(jl, snapshot, current). size snapshot)"
    by (induction snapshot) auto
qed auto

definition json_args :: "'n json_lib \<Rightarrow> 'n json args_ops" where
  "json_args jl = \<lparr>ao_parse = parse_streaming_json jl, ao_serialize = serialized_arguments jl,
     ao_prefix = (\<lambda>snapshot current. is_json_prefix jl (JObject snapshot) (JObject current))\<rparr>"

section \<open>What completion and repair give\<close>

lemma json_scan_snoc: "json_scan_of (xs @ [c]) = scan_char (json_scan_of xs) c"
  by (simp add: json_scan_of_def)

definition scan_ok :: "json_scan \<Rightarrow> bool" where
  "scan_ok s \<longleftrightarrow> set (sc_stack s) \<subseteq> {CHR 0x7D, CHR 0x5D} \<and> (sc_escaped s \<longrightarrow> sc_in_string s)"

lemma scan_char_ok: "scan_ok s \<Longrightarrow> scan_ok (scan_char s c)"
  by (auto simp: scan_ok_def scan_char_def dest: list.set_sel(2))

lemma json_scan_ok: "scan_ok (json_scan_of xs)"
proof (induction xs rule: rev_induct)
  case Nil
  then show ?case by (simp add: json_scan_of_def scan_start_def scan_ok_def)
next
  case (snoc c xs)
  then show ?case by (simp add: json_scan_snoc scan_char_ok)
qed

lemma json_scan_escaped:
  assumes "sc_escaped (json_scan_of input)"
  shows "json_scan_of (butlast input) = (json_scan_of input)\<lparr>sc_escaped := False\<rparr>"
proof (cases input rule: rev_cases)
  case Nil
  with assms show ?thesis by (simp add: json_scan_of_def scan_start_def)
next
  case (snoc xs c)
  then show ?thesis
    using assms json_scan_ok [of xs] by (auto simp: json_scan_snoc scan_char_def scan_ok_def split: if_splits)
qed

lemma scan_closers:
  "set closers \<subseteq> {CHR 0x7D, CHR 0x5D} \<Longrightarrow>
   foldl scan_char \<lparr>sc_stack = closers, sc_in_string = False, sc_escaped = False\<rparr> closers = scan_start"
  by (induction closers) (auto simp: scan_char_def scan_start_def quote_def)

text \<open>A completed text leaves nothing open.\<close>

lemma complete_json_closed: "json_scan_of (complete_json input) = scan_start"
proof -
  define s where "s = json_scan_of input"
  define body where "body = (if sc_escaped s then butlast input else input)"
  have "json_scan_of body = s\<lparr>sc_escaped := False\<rparr>"
    unfolding body_def using json_scan_escaped [of input] by (auto simp: s_def)
  then have body: "json_scan_of (if sc_in_string s then body @ [quote] else body) =
      \<lparr>sc_stack = sc_stack s, sc_in_string = False, sc_escaped = False\<rparr>"
    by (simp add: json_scan_snoc scan_char_def quote_def backslash_def)
  have "json_scan_of (complete_json input) = foldl scan_char (json_scan_of (if sc_in_string s then body @ [quote] else body)) (sc_stack s)"
    by (simp add: complete_json_def Let_def body_def s_def json_scan_of_def)
  also have "\<dots> = scan_start"
    unfolding body using json_scan_ok [of input] by (intro scan_closers) (simp add: scan_ok_def s_def)
  finally show ?thesis .
qed

lemma complete_json_id: "json_scan_of input = scan_start \<Longrightarrow> complete_json input = input"
  by (simp add: complete_json_def scan_start_def)

lemma hex_digit_hex: "d < 16 \<Longrightarrow> is_hex (hex_digit d)"
  by (auto simp: is_hex_def hex_digit_def Let_def)

lemma repair_char_again:
  assumes "c \<noteq> quote" and "c \<noteq> backslash"
  shows "repair_loop True (repair_char c @ rest) = repair_char c @ repair_loop True rest"
proof (cases "of_char c \<le> (31 :: nat)")
  case False
  then have "repair_char c = [c]" by (auto simp: repair_char_def Let_def)
  with assms show ?thesis by simp
next
  case True
  have "is_hex (hex_digit (of_char c div 16))" "is_hex (hex_digit (of_char c mod 16))"
    using True by (intro hex_digit_hex; simp)+
  moreover have "is_hex (CHR ''0'')" by (simp add: is_hex_def)
  ultimately show ?thesis
    using True
    by (auto simp: repair_char_def Let_def valid_unicode_def simple_escapes_def quote_def backslash_def take_Cons' drop_Cons')
qed

lemma repair_loop_idem: "repair_loop in_string (repair_loop in_string s) = repair_loop in_string s"
proof (induction in_string s rule: repair_loop.induct)
  case (3 c cs)
  show ?case
  proof (cases "c = backslash")
    case False
    with 3 repair_char_again [of c "repair_loop True cs"] show ?thesis by auto
  next
    case True
    have q: "backslash \<noteq> quote" by (simp add: backslash_def quote_def)
    show ?thesis
    proof (cases "valid_unicode cs")
      case uni: True
      then have cs: "cs \<noteq> []" "valid_unicode (take 5 cs @ rest)" for rest
        by (auto simp: valid_unicode_def split: list.splits)
      have len: "length (take 5 cs) = 5" using uni by (auto simp: valid_unicode_def split: list.splits)
      show ?thesis
        using 3(2) True q uni cs len by simp
    next
      case no: False
      have esc: "\<not> valid_unicode (x # rest)" if "x \<in> set simple_escapes" for x rest
        using that by (auto simp: valid_unicode_def simple_escapes_def quote_def backslash_def)
      have bs: "backslash \<in> set simple_escapes" by (simp add: simple_escapes_def)
      show ?thesis
        using 3(3,4) True q no esc bs by auto
    qed
  qed
qed auto

section \<open>What completion is for\<close>

text \<open>
  Text whose string literals and brackets are closed, without reference to the scan: the inside of a
  literal, and a sequence of plain characters, literals and bracketed texts.
\<close>

inductive literal :: "string \<Rightarrow> bool" where
  literal_Nil: "literal []"
| literal_plain: "c \<noteq> quote \<Longrightarrow> c \<noteq> backslash \<Longrightarrow> literal s \<Longrightarrow> literal (c # s)"
| literal_escape: "literal s \<Longrightarrow> literal (backslash # c # s)"

definition brackets :: "(char \<times> char) set" where
  "brackets = {(CHR 0x7B, CHR 0x7D), (CHR 0x5B, CHR 0x5D)}"

inductive well_closed :: "string \<Rightarrow> bool" where
  closed_Nil: "well_closed []"
| closed_plain: "c \<noteq> quote \<Longrightarrow> c \<notin> fst ` brackets \<union> snd ` brackets \<Longrightarrow> well_closed s \<Longrightarrow> well_closed (c # s)"
| closed_literal: "literal b \<Longrightarrow> well_closed s \<Longrightarrow> well_closed (quote # b @ quote # s)"
| closed_bracket: "(x, y) \<in> brackets \<Longrightarrow> well_closed b \<Longrightarrow> well_closed s \<Longrightarrow> well_closed (x # b @ y # s)"

abbreviation scan_at :: "string \<Rightarrow> bool \<Rightarrow> bool \<Rightarrow> json_scan" where
  "scan_at stack in_string escaped \<equiv> \<lparr>sc_stack = stack, sc_in_string = in_string, sc_escaped = escaped\<rparr>"

lemmas scan_simps = scan_char_def quote_def backslash_def brackets_def

lemma literal_scan: "literal b \<Longrightarrow> foldl scan_char (scan_at stack True False) b = scan_at stack True False"
  by (induction rule: literal.induct) (auto simp: scan_simps)

lemma closed_scan: "well_closed s \<Longrightarrow> foldl scan_char (scan_at stack False False) s = scan_at stack False False"
proof (induction arbitrary: stack rule: well_closed.induct)
  case (closed_literal b s)
  have "scan_char (scan_at stack False False) quote = scan_at stack True False"
    and "scan_char (scan_at stack True False) quote = scan_at stack False False"
    by (simp_all add: scan_simps)
  with closed_literal show ?case by (simp add: literal_scan)
next
  case (closed_bracket x y b s)
  have "scan_char (scan_at stack False False) x = scan_at (y # stack) False False"
    and "scan_char (scan_at (y # stack) False False) y = scan_at stack False False"
    using closed_bracket(1) by (auto simp: scan_simps)
  with closed_bracket show ?case by simp
qed (auto simp: scan_simps)

text \<open>A prefix of the inside of a literal is one itself, up to a backslash at its end.\<close>

lemma literal_cut:
  assumes "literal b"
  shows "prefix p b \<Longrightarrow> \<exists>body e. (\<forall>stack. foldl scan_char (scan_at stack True False) p = scan_at stack True e) \<and>
    literal body \<and> p = body @ (if e then [backslash] else [])"
  using assms
proof (induction arbitrary: p rule: literal.induct)
  case literal_Nil
  then show ?case by (intro exI [of _ "[]"] exI [of _ False]) (simp add: literal.literal_Nil)
next
  case (literal_plain c s)
  show ?case
  proof (cases p)
    case Nil
    then show ?thesis by (intro exI [of _ "[]"] exI [of _ False]) (simp add: literal.literal_Nil)
  next
    case (Cons c' q)
    with literal_plain(5) have "c' = c" "prefix q s" by auto
    then obtain body e where "\<forall>stack. foldl scan_char (scan_at stack True False) q = scan_at stack True e"
      "literal body" "q = body @ (if e then [backslash] else [])"
      using literal_plain(4) by blast
    moreover have "scan_char (scan_at stack True False) c = scan_at stack True False" for stack
      using literal_plain(1,2) by (simp add: scan_char_def)
    ultimately show ?thesis
      using literal_plain(1,2) Cons \<open>c' = c\<close>
      by (intro exI [of _ "c # body"] exI [of _ e]) (simp add: literal.literal_plain)
  qed
next
  case (literal_escape s c)
  have esc: "scan_char (scan_at stack True False) backslash = scan_at stack True True"
    "scan_char (scan_at stack True True) c = scan_at stack True False" for stack
    by (simp_all add: scan_simps)
  consider "p = []" | "p = [backslash]" | q where "p = backslash # c # q" "prefix q s"
    using literal_escape(3) by (auto simp: prefix_Cons)
  then show ?case
  proof cases
    case 1
    then show ?thesis by (intro exI [of _ "[]"] exI [of _ False]) (simp add: literal.literal_Nil)
  next
    case 2
    then show ?thesis by (intro exI [of _ "[]"] exI [of _ True]) (simp add: literal.literal_Nil esc)
  next
    case 3
    then obtain body e where "\<forall>stack. foldl scan_char (scan_at stack True False) q = scan_at stack True e"
      "literal body" "q = body @ (if e then [backslash] else [])"
      using literal_escape(2) by blast
    with 3 show ?thesis
      by (intro exI [of _ "backslash # c # body"] exI [of _ e]) (simp add: esc literal.literal_escape)
  qed
qed

text \<open>
  A cut through well closed text: what the scan has open there, and the text before the cut closed with
  exactly that.
\<close>

definition cut :: "string \<Rightarrow> string \<Rightarrow> bool \<Rightarrow> bool \<Rightarrow> string \<Rightarrow> bool" where
  "cut p closers in_string escaped body \<longleftrightarrow>
     (\<forall>stack. foldl scan_char (scan_at stack False False) p = scan_at (closers @ stack) in_string escaped) \<and>
     p = body @ (if escaped then [backslash] else []) \<and>
     well_closed (body @ (if in_string then [quote] else []) @ closers)"

lemma cutD:
  assumes "cut p closers in_string escaped body"
  shows "foldl scan_char (scan_at stack False False) p = scan_at (closers @ stack) in_string escaped"
    and "p = body @ (if escaped then [backslash] else [])"
    and "well_closed (body @ (if in_string then [quote] else []) @ closers)"
  using assms unfolding cut_def by blast+

lemma cut_Nil: "cut [] [] False False []"
  by (simp add: cut_def well_closed.closed_Nil)

lemma cut_after:
  assumes "cut p closers in_string escaped body" and "\<And>stack. foldl scan_char (scan_at stack False False) pre = scan_at stack False False"
    and "\<And>s. well_closed s \<Longrightarrow> well_closed (pre @ s)"
  shows "cut (pre @ p) closers in_string escaped (pre @ body)"
  unfolding cut_def
proof (intro conjI allI)
  show "foldl scan_char (scan_at stack False False) (pre @ p) = scan_at (closers @ stack) in_string escaped" for stack
    by (simp add: assms(2) cutD(1) [OF assms(1)])
  show "pre @ p = (pre @ body) @ (if escaped then [backslash] else [])"
    using cutD(2) [OF assms(1)] by (simp only: append.assoc)
  show "well_closed ((pre @ body) @ (if in_string then [quote] else []) @ closers)"
    using assms(3) [OF cutD(3) [OF assms(1)]] by (simp only: append.assoc)
qed

lemma cut_inside:
  assumes "cut p closers in_string escaped body" and "(x, y) \<in> brackets"
  shows "cut (x # p) (closers @ [y]) in_string escaped (x # body)"
proof -
  have x: "scan_char (scan_at stack False False) x = scan_at (y # stack) False False" for stack
    using assms(2) by (auto simp: scan_simps)
  have closed: "well_closed (x # (body @ (if in_string then [quote] else []) @ closers) @ y # [])"
    using assms(2) cutD(3) [OF assms(1)] by (intro closed_bracket closed_Nil)
  show ?thesis
    unfolding cut_def
  proof (intro conjI allI)
    show "foldl scan_char (scan_at stack False False) (x # p) = scan_at ((closers @ [y]) @ stack) in_string escaped" for stack
      by (simp add: x cutD(1) [OF assms(1)])
    show "x # p = (x # body) @ (if escaped then [backslash] else [])"
      using cutD(2) [OF assms(1)] by (simp only: append.simps)
    show "well_closed ((x # body) @ (if in_string then [quote] else []) @ closers @ [y])"
      using closed by (simp only: append.simps append.assoc)
  qed
qed

lemma closed_cut: "well_closed t \<Longrightarrow> prefix p t \<Longrightarrow> \<exists>closers in_string escaped body. cut p closers in_string escaped body"
proof (induction arbitrary: p rule: well_closed.induct)
  case closed_Nil
  then show ?case using cut_Nil by auto
next
  case (closed_plain c s)
  show ?case
  proof (cases p)
    case Nil
    then show ?thesis using cut_Nil by blast
  next
    case (Cons c' q)
    with closed_plain(5) have q: "p = [c] @ q" "prefix q s" by auto
    with closed_plain(4) obtain closers i e body where "cut q closers i e body" by blast
    then have "cut ([c] @ q) closers i e ([c] @ body)"
      by (rule cut_after) (use closed_plain(1,2) in \<open>auto simp: scan_simps intro: well_closed.closed_plain\<close>)
    with q show ?thesis by blast
  qed
next
  case (closed_literal b s)
  have q: "scan_char (scan_at stack False False) quote = scan_at stack True False"
    "scan_char (scan_at stack True False) quote = scan_at stack False False" for stack
    by (simp_all add: scan_simps)
  consider "p = []" | r where "p = quote # r" "prefix r b" | r where "p = (quote # b @ [quote]) @ r" "prefix r s"
    using closed_literal(4) by (auto simp: prefix_Cons prefix_append)
  then show ?case
  proof cases
    case 1
    then show ?thesis using cut_Nil by blast
  next
    case 2
    with literal_cut [OF closed_literal(1)] obtain body e where
      "\<forall>stack. foldl scan_char (scan_at stack True False) r = scan_at stack True e" "literal body"
      "r = body @ (if e then [backslash] else [])"
      by blast
    moreover have "well_closed (quote # body @ quote # [])"
      using \<open>literal body\<close> by (intro well_closed.closed_literal well_closed.closed_Nil)
    ultimately have "cut p [] True e (quote # body)"
      using 2 by (simp add: cut_def q)
    then show ?thesis by blast
  next
    case 3
    with closed_literal(3) obtain closers i e body where "cut r closers i e body" by blast
    then have "cut ((quote # b @ [quote]) @ r) closers i e ((quote # b @ [quote]) @ body)"
      by (rule cut_after) (use closed_literal(1) in \<open>auto simp: q literal_scan intro: well_closed.closed_literal\<close>)
    with 3 show ?thesis by blast
  qed
next
  case (closed_bracket x y b s)
  consider "p = []" | r where "p = x # r" "prefix r b" | r where "p = (x # b @ [y]) @ r" "prefix r s"
    using closed_bracket(6) by (auto simp: prefix_Cons prefix_append)
  then show ?case
  proof cases
    case 1
    then show ?thesis using cut_Nil by blast
  next
    case 2
    with closed_bracket(4) obtain closers i e body where "cut r closers i e body" by blast
    with cut_inside [OF _ closed_bracket(1)] 2 show ?thesis by blast
  next
    case 3
    have pre: "well_closed ((x # b @ [y]) @ u)" if "well_closed u" for u
      using well_closed.closed_bracket [OF closed_bracket(1,2) that] by simp
    from 3 closed_bracket(5) obtain closers i e body where "cut r closers i e body" by blast
    then have "cut ((x # b @ [y]) @ r) closers i e ((x # b @ [y]) @ body)"
      by (rule cut_after) (use closed_scan [OF pre [OF well_closed.closed_Nil]] pre in simp_all)
    with 3 show ?thesis by blast
  qed
qed

text \<open>A character closes at most one thing.\<close>

definition open_count :: "json_scan \<Rightarrow> nat" where
  "open_count st = length (sc_stack st) + (if sc_in_string st then 1 else 0)"

lemma scan_char_count: "open_count st \<le> Suc (open_count (scan_char st c))"
  by (auto simp: open_count_def scan_char_def)

lemma scan_count: "open_count st \<le> length u + open_count (foldl scan_char st u)"
proof (induction u arbitrary: st)
  case (Cons c u)
  then show ?case using scan_char_count [of st c] le_trans by fastforce
qed simp

text \<open>The completion of text that can be closed is the shortest way to close it.\<close>

lemma complete_json_shortest:
  assumes "well_closed (s @ rest)"
  shows "\<exists>body tail. complete_json s = body @ tail \<and> (body = s \<or> s = body @ [backslash]) \<and>
    set tail \<subseteq> insert quote (snd ` brackets) \<and> well_closed (body @ tail) \<and> (\<forall>u. well_closed (body @ u) \<longrightarrow> length tail \<le> length u)"
proof -
  from closed_cut [OF assms, of s] obtain closers i e body where c: "cut s closers i e body" by auto
  let ?tail = "(if i then [quote] else []) @ closers"
  have scan: "json_scan_of s = scan_at closers i e"
    using cutD(1) [OF c, of "[]"] by (simp add: json_scan_of_def scan_start_def)
  note s = cutD(2) [OF c] and closed = cutD(3) [OF c]
  have eq: "complete_json s = body @ ?tail"
    unfolding complete_json_def scan Let_def using s by (auto simp: butlast_append)
  have "set closers \<subseteq> snd ` brackets"
    using json_scan_ok [of s] by (simp add: scan scan_ok_def brackets_def)
  moreover have "length ?tail \<le> length u" if "well_closed (body @ u)" for u
  proof -
    have "json_scan_of body = scan_at closers i False"
      using json_scan_escaped [of s] scan s by (cases e) auto
    moreover have "json_scan_of (body @ u) = scan_at [] False False"
      using closed_scan [OF that, of "[]"] by (simp add: json_scan_of_def scan_start_def)
    ultimately show ?thesis
      using scan_count [of "scan_at closers i False" u] by (auto simp: json_scan_of_def open_count_def split: if_splits)
  qed
  ultimately show ?thesis
    using eq s closed by (intro exI [of _ body] exI [of _ ?tail]) auto
qed

section \<open>What repair is for\<close>

text \<open>
  Text whose literals hold only what JSON allows in them: no control characters, and only the escapes
  JSON has. The flag tells whether the text starts inside a literal.
\<close>

inductive clean :: "bool \<Rightarrow> string \<Rightarrow> bool" where
  clean_Nil: "clean in_string []"
| clean_outside: "c \<noteq> quote \<Longrightarrow> clean False s \<Longrightarrow> clean False (c # s)"
| clean_quote: "clean (\<not> in_string) s \<Longrightarrow> clean in_string (quote # s)"
| clean_inside: "c \<noteq> quote \<Longrightarrow> c \<noteq> backslash \<Longrightarrow> 31 < (of_char c :: nat) \<Longrightarrow> clean True s \<Longrightarrow> clean True (c # s)"
| clean_escape: "c \<in> set simple_escapes \<Longrightarrow> clean True s \<Longrightarrow> clean True (backslash # c # s)"
| clean_unicode: "length digits = 4 \<Longrightarrow> list_all is_hex digits \<Longrightarrow> clean True s \<Longrightarrow> clean True (backslash # CHR ''u'' # digits @ s)"

lemma clean_repair_char:
  assumes "c \<noteq> quote" and "c \<noteq> backslash" and "clean True s"
  shows "clean True (repair_char c @ s)"
proof (cases "31 < (of_char c :: nat)")
  case True
  with assms show ?thesis by (auto simp: repair_char_def Let_def intro: clean.intros)
next
  case False
  let ?d = "[CHR ''0'', CHR ''0'', hex_digit (of_char c div 16), hex_digit (of_char c mod 16)]"
  have "list_all is_hex ?d"
    using False by (simp add: hex_digit_hex) (simp add: is_hex_def)
  then have "clean True (backslash # CHR ''u'' # ?d @ s)"
    using assms(3) by (intro clean_unicode) simp_all
  with False assms(3) show ?thesis
    by (auto simp: repair_char_def Let_def simple_escapes_def intro: clean_escape)
qed

lemma repair_loop_clean: "clean in_string (repair_loop in_string s)"
proof (induction in_string s rule: repair_loop.induct)
  case (2 c cs)
  show ?case
  proof (cases "c = quote")
    case True
    with 2 show ?thesis by (simp add: clean_quote)
  next
    case False
    with 2 show ?thesis by (simp add: clean_outside)
  qed
next
  case (3 c cs)
  show ?case
  proof (cases "c = backslash \<and> valid_unicode cs")
    case True
    then obtain digits rest where "cs = CHR ''u'' # digits @ rest" "length digits = 4" "list_all is_hex digits"
      by (auto simp: valid_unicode_def split: list.splits) (metis append_take_drop_id length_take min.absorb2)
    with True 3(2) show ?thesis
      by (auto simp: quote_def backslash_def intro: clean_unicode [unfolded backslash_def])
  next
    case False
    have bs: "backslash \<in> set simple_escapes" "backslash \<noteq> quote" by (simp_all add: simple_escapes_def quote_def backslash_def)
    consider "c = quote" | "c \<noteq> quote" "c \<noteq> backslash" | "c = backslash" "cs = []"
      | "c = backslash" "cs \<noteq> []" "\<not> valid_unicode cs" "hd cs \<in> set simple_escapes"
      | "c = backslash" "cs \<noteq> []" "\<not> valid_unicode cs" "hd cs \<notin> set simple_escapes"
      using False by blast
    then show ?thesis
    proof cases
      case 1
      with 3(1) show ?thesis using clean_quote [of True] by simp
    next
      case 2
      with 3(5) show ?thesis by (simp add: clean_repair_char)
    next
      case 3
      with bs show ?thesis by (simp add: clean_escape clean_Nil)
    next
      case 4
      with 3(3) bs show ?thesis by (simp add: clean_escape)
    next
      case 5
      with 3(4) bs show ?thesis by (simp add: clean_escape)
    qed
  qed
qed (simp add: clean_Nil)

lemma repair_loop_id: "clean in_string s \<Longrightarrow> repair_loop in_string s = s"
proof (induction rule: clean.induct)
  case (clean_quote in_string s)
  then show ?case by (cases in_string) auto
next
  case (clean_inside c s)
  then show ?case by (simp add: repair_char_def Let_def)
next
  case (clean_escape c s)
  then have "\<not> valid_unicode (c # s)"
    by (auto simp: valid_unicode_def simple_escapes_def quote_def backslash_def)
  with clean_escape show ?case by (simp add: backslash_def quote_def)
next
  case (clean_unicode digits s)
  then have "valid_unicode (CHR ''u'' # digits @ s)"
    by (simp add: valid_unicode_def)
  with clean_unicode show ?case by (simp add: backslash_def quote_def)
qed auto

end
