(* ===== verification/Stream_Properties.thy ===== *)
theory Stream_Properties
  imports Lane_Run Streaming_Json
begin

text \<open>
  What is proved of a streamed response: its stored frames, the argument text of its tool calls, the
  option patches of its request and the waits between its attempts.
\<close>

section \<open>Frames\<close>

text \<open>Reducing frames changes the content of the message only.\<close>

lemma reduce_frame_keeps:
  "reduce_frame ao f cur = Inr cur' \<Longrightarrow> fst cur' = (fst cur)\<lparr>am_content := am_content (fst cur')\<rparr>"
  by (cases f; cases cur)
    (auto simp: rbind_eq_Inr_iff append_block_def put_block_def split: if_splits,
      auto simp: put_block_def split: assistant_content.split_asm reducer_block.split_asm)

lemma reduce_loop_keeps:
  "reduce_loop ao frames (Some cur) before = Inr (Some cur') \<Longrightarrow> fst cur' = (fst cur)\<lparr>am_content := am_content (fst cur')\<rparr>"
proof (induction frames arbitrary: cur)
  case (Cons f frames)
  then have "\<And>p. f \<noteq> FrStart p" by auto
  with Cons.prems obtain cur1 where c: "reduce_frame ao f cur = Inr cur1" "reduce_loop ao frames (Some cur1) before = Inr (Some cur')"
    by (auto simp: rbind_eq_Inr_iff)
  obtain content where r: "fst cur1 = (fst cur)\<lparr>am_content := content\<rparr>"
    using reduce_frame_keeps [OF c(1)] by blast
  show ?case
    by (rule trans [OF Cons.IH [OF c(2)]]) (simp add: r)
qed simp

definition sample_args :: "nat args_ops" where
  "sample_args = \<lparr>ao_parse = (\<lambda>text. if text = [] then [] else [(text, 0)]), ao_serialize = (\<lambda>args. Some (concat (map fst args))),
     ao_prefix = (\<lambda>snapshot current. snapshot = [])\<rparr>"

definition partial_of :: "nat assistant_content list \<Rightarrow> (nat, nat) assistant_message" where
  "partial_of content = (assistant_message_new ''api'' ''provider'' ''model'' 3)\<lparr>am_content := content\<rparr>"

definition text_of :: "string \<Rightarrow> nat assistant_content" where
  "text_of t = AssistantText \<lparr>tc_text = t, tc_text_signature = None\<rparr>"

definition call_of :: "(string \<times> nat) list \<Rightarrow> nat assistant_content" where
  "call_of args = AssistantToolCall \<lparr>tl_id = ''c'', tl_name = ''read'', tl_arguments = args, tl_thought_signature = None, tl_namespace = None\<rparr>"

definition sample_events :: "(nat, nat) assistant_event list" where
  "sample_events =
     [EvTextStart 0 (partial_of [text_of '''']), EvTextDelta 0 ''hi'' (partial_of [text_of ''hi'']),
      EvTextEnd 0 ''hi'' (partial_of [text_of ''hi'']),
      EvToolCallStart 1 (partial_of [text_of ''hi'', call_of []]),
      EvToolCallDelta 1 ''pa'' (partial_of [text_of ''hi'', call_of [(''pa'', 0)]]),
      EvToolCallDelta 1 ''th'' (partial_of [text_of ''hi'', call_of [(''path'', 0)]])]"

definition sample_frames :: "(nat, nat) assistant_frame list" where
  "sample_frames =
     [FrStart (clone_start_message (partial_of [])), FrTextStart 0 \<lparr>tc_text = '''', tc_text_signature = None\<rparr>, FrTextDelta 0 ''hi'',
      FrTextEnd 0 ''hi'' None,
      FrToolCallStart 1 \<lparr>tl_id = ''c'', tl_name = ''read'', tl_arguments = [], tl_thought_signature = None, tl_namespace = None\<rparr>,
      FrToolCallDelta 1 ''pa'', FrToolCallDelta 1 ''th'']"

lemma sample_encoded:
  "encode_all sample_args (EvStart (partial_of []) # sample_events) frame_encoder_new =
   Inr (sample_frames, \<lparr>fe_started = True, fe_terminal = False, fe_blocks = [(1, EncToolCall True [] [])], fe_next_content_index = 2\<rparr>)"
  by (simp add: sample_events_def sample_frames_def encode_frame_def encode_start_def frame_encoder_new_def encode_text_start_def encode_text_delta_def encode_text_end_def
     encode_tool_call_start_def encode_tool_call_delta_def event_block_def checked_index_def frame_index_limit_def start_block_def
     encoder_block_def end_block_def partial_of_def text_of_def call_of_def sample_args_def serialized_def assistant_message_new_def bt_remove_def
     Let_def dom_def)

lemma sample_live: "live_events sample_args sample_events [] (\<lambda>_. (False, []))"
  by (simp add: sample_events_def starts_block_def shown_def partial_of_def text_of_def call_of_def sample_args_def assistant_message_new_def
     reached_def Let_def)


text \<open>
  C12. Progress frames lose nothing. When the encoder accepted the events of a response, and the provider
  shows in each event what it has streamed so far, reducing the stored frames gives back the
  content of the last event, in a message whose other fields are those of the start.
\<close>

theorem frames_rebuild_message:
  assumes "encode_all ao (EvStart p # events) frame_encoder_new = Inr (frames, enc)" and "live_events ao events [] r"
  shows "reduce_persisted_frames ao frames = Inr ((clone_start_message p)\<lparr>am_content := foldl shown [] events\<rparr>)"
proof -
  from assms(1) obtain rest where f: "frames = FrStart (clone_start_message p) # rest"
    and rest: "encode_all ao events (frame_encoder_new\<lparr>fe_started := True\<rparr>) = Inr (rest, enc)"
    by (auto simp: rbind_eq_Inr_iff encode_frame_def encode_start_def frame_encoder_new_def split: if_splits)
  have "rebuilt ao (frame_encoder_new\<lparr>fe_started := True\<rparr>) (clone_start_message p, []) [] r"
    by (simp add: rebuilt_def frame_encoder_new_def)
  from rebuilt_all [OF rest in_step_new [OF clone_start_content] _ this assms(2), where before = None]
  obtain message states r' where m: "reduce_loop ao rest (Some (clone_start_message p, [])) None = Inr (Some (message, states))"
    "in_step enc (message, states)" "rebuilt ao enc (message, states) (foldl shown [] events) r'"
    by auto
  have "finished ao (bt_get states (of_nat n)) (am_content message ! n) = foldl shown [] events ! n"
    if "n < length (am_content message)" for n
  proof -
    have "n < 2 ^ 64"
      using that m(2) unsigned_less [of "fe_next_content_index enc", where 'a = nat] by (simp add: in_step_def)
    then have "unat (of_nat n :: u64) = n" by (simp add: unsigned_of_nat take_bit_nat_eq_self)
    with m(3) that show ?thesis by (auto simp: rebuilt_iff dest: spec [of _ "of_nat n"])
  qed
  then have "finish_calls ao states message = Inr (message\<lparr>am_content := foldl shown [] events\<rparr>)"
    unfolding in_step_finish [OF m(2)] using m(3)
    by (auto simp: rebuilt_iff intro!: arg_cong [where f = "\<lambda>c. message\<lparr>am_content := c\<rparr>"] nth_equalityI)
  moreover have "message\<lparr>am_content := c\<rparr> = (clone_start_message p)\<lparr>am_content := c\<rparr>" for c
    using arg_cong [OF reduce_loop_keeps [OF m(1)], of "\<lambda>m. m\<lparr>am_content := c\<rparr>"] by simp
  ultimately show ?thesis
    using m(1) by (simp add: f reduce_persisted_frames_def reduce_assistant_message_frames_def)
qed

theorem frames_rebuild_message_witness:
  "reduce_persisted_frames sample_args sample_frames =
     Inr ((clone_start_message (partial_of []))\<lparr>am_content := [text_of ''hi'', call_of [(''path'', 0)]]\<rparr>)"
  using frames_rebuild_message [OF sample_encoded sample_live]
  by (simp add: sample_events_def shown_def partial_of_def)


text \<open>
  C29. Whatever was stored when a response broke off can be read back: every prefix of the frames the
  encoder produced is accepted by the reducer, and gives a message unless nothing had been stored.
\<close>

theorem stored_frames_always_reduce:
  assumes "encode_all ao events frame_encoder_new = Inr (frames, enc)"
  shows "\<exists>r. reduce_assistant_message_frames ao (take k frames) = Inr r \<and> (r = None \<longleftrightarrow> take k frames = [])"
proof (cases "take k frames")
  case Nil
  then show ?thesis unfolding Nil by (simp add: reduce_assistant_message_frames_def)
next
  case (Cons f rest)
  obtain events' enc1 where "encode_all ao events' frame_encoder_new = Inr (take k frames, enc1)"
    using encode_all_take [OF assms] by blast
  then obtain p events1 where f: "f = FrStart (clone_start_message p)"
    and rest: "encode_all ao events1 (frame_encoder_new\<lparr>fe_started := True\<rparr>) = Inr (rest, enc1)"
    unfolding Cons by (elim encode_all_start)
  obtain message states where "reduce_loop ao rest (Some (clone_start_message p, [])) None = Inr (Some (message, states))"
    and "in_step enc1 (message, states)"
    using encode_all_accepted [OF rest in_step_new [OF clone_start_content], of p None] by auto
  with in_step_finish [of enc1 message states ao] show ?thesis
    unfolding Cons by (simp add: f reduce_assistant_message_frames_def)
qed

theorem stored_frames_always_reduce_witness:
  "\<exists>message. reduce_assistant_message_frames sample_args (take 3 sample_frames) = Inr (Some message)"
  using stored_frames_always_reduce [OF sample_encoded, of 3] by (auto simp: sample_frames_def)

section \<open>Argument text\<close>

definition object_of :: "'n json_lib \<Rightarrow> string \<Rightarrow> (string \<times> 'n json) list option" where
  "object_of jl candidate = (case jl_from_str jl (complete_json candidate) of Some (JObject members) \<Rightarrow> Some members | _ \<Rightarrow> None)"

lemma parse_partial_object_step:
  "parse_partial_object jl s = (case object_of jl s of Some members \<Rightarrow> Some members
     | None \<Rightarrow> if s = [] then None else parse_partial_object jl (butlast s))"
  by (subst parse_partial_object.simps) (auto simp: object_of_def split: option.splits json.splits)


text \<open>The object of the longest prefix whose completion is one.\<close>

definition shows_object :: "'n json_lib \<Rightarrow> string \<Rightarrow> (string \<times> 'n json) list \<Rightarrow> bool" where
  "shows_object jl s members \<longleftrightarrow>
     (\<exists>n \<le> length s. object_of jl (take n s) = Some members \<and> (\<forall>k \<in> {n<..length s}. object_of jl (take k s) = None))"

lemma parse_partial_object_iff: "parse_partial_object jl s = Some members \<longleftrightarrow> shows_object jl s members"
  unfolding shows_object_def
proof (induction s rule: rev_induct)
  case Nil
  then show ?case by (subst parse_partial_object_step) (auto split: option.splits)
next
  case (snoc c s)
  show ?case
  proof (cases "object_of jl (s @ [c])")
    case None
    have "n \<noteq> Suc (length s)" if "object_of jl (take n (s @ [c])) = Some members" for n
      using that None by auto
    with None snoc show ?thesis
      by (subst parse_partial_object_step) (force simp: le_Suc_eq)
  next
    case (Some found)
    then have "parse_partial_object jl (s @ [c]) = Some found"
      by (subst parse_partial_object_step) simp
    moreover have "n = Suc (length s)" if "n \<le> Suc (length s)" "\<forall>k \<in> {n<..Suc (length s)}. object_of jl (take k (s @ [c])) = None" for n
      using that Some by (cases "n = Suc (length s)") (auto dest!: bspec [of _ _ "Suc (length s)"])
    ultimately show ?thesis
      using Some by fastforce
  qed
qed

text \<open>
  C30. The arguments of a tool call while they arrive. The text, trimmed, is first repaired, and the
  object shown is that of the longest prefix of the repaired text whose completion is a JSON object;
  when no prefix of it has one, that of the longest such prefix of the text itself, and the empty
  object when there is none either. Repairing gives text whose literals hold only what JSON allows, and
  leaves such text alone. Completing text that can be continued to well closed text (all literals
  and brackets closed) keeps it, up to a backslash at its end, and adds the shortest tail that closes it.
\<close>

theorem partial_object_longest:
  assumes "input = trim text" and "members = parse_streaming_json jl text"
  shows "(if input \<noteq> [] \<and> (\<exists>m. shows_object jl (repair_json input) m) then shows_object jl (repair_json input) members
      else if input \<noteq> [] \<and> (\<exists>m. shows_object jl input m) then shows_object jl input members
      else members = []) \<and>
    clean False (repair_json s) \<and> (clean False s \<longrightarrow> repair_json s = s) \<and>
    (well_closed (s @ rest) \<longrightarrow>
      (\<exists>body tail. complete_json s = body @ tail \<and> (body = s \<or> s = body @ [backslash]) \<and>
        set tail \<subseteq> insert quote (snd ` brackets) \<and> well_closed (body @ tail) \<and>
        (\<forall>u. well_closed (body @ u) \<longrightarrow> length tail \<le> length u)))"
proof (intro conjI impI)
  have found: "(\<exists>m. shows_object jl s m) \<longleftrightarrow> parse_partial_object jl s \<noteq> None"
    "parse_partial_object jl s = Some m \<Longrightarrow> shows_object jl s m" for s m
    using parse_partial_object_iff [of jl s] by auto
  show "if input \<noteq> [] \<and> (\<exists>m. shows_object jl (repair_json input) m) then shows_object jl (repair_json input) members
      else if input \<noteq> [] \<and> (\<exists>m. shows_object jl input m) then shows_object jl input members else members = []"
    unfolding found(1) assms by (auto simp: parse_streaming_json_def Let_def intro: found(2))
qed (simp_all add: repair_json_def repair_loop_clean repair_loop_id complete_json_shortest)

definition brace_lib :: "nat json_lib" where
  "brace_lib = \<lparr>jl_from_str = (\<lambda>s. if s = [CHR 0x7B, CHR 0x7D] then Some (JObject []) else None), jl_to_string = (\<lambda>_. []),
     jl_finite = Some, jl_same_bits = (=)\<rparr>"

text \<open>A cut inside a literal, behind a backslash: the literal and the bracket are closed.\<close>

theorem partial_object_longest_witness:
  "shows_object brace_lib [CHR 0x7B, CHR ''x''] (parse_streaming_json brace_lib [CHR '' '', CHR 0x7B, CHR ''x'']) \<and>
   (\<exists>body tail. complete_json [CHR 0x7B, quote, backslash] = body @ tail \<and> well_closed (body @ tail) \<and> body @ tail = [CHR 0x7B, quote, quote, CHR 0x7D])"
proof
  have "object_of brace_lib [CHR 0x7B, CHR ''x''] = None" "object_of brace_lib [CHR 0x7B] = Some []"
    by (simp_all add: object_of_def complete_json_def json_scan_of_def scan_char_def scan_start_def brace_lib_def quote_def backslash_def)
  then have "shows_object brace_lib [CHR 0x7B, CHR ''x''] []"
    unfolding shows_object_def by (intro exI [of _ 1]) (auto simp: numeral_2_eq_2 le_Suc_eq)
  moreover have "trim [CHR '' '', CHR 0x7B, CHR ''x''] = [CHR 0x7B, CHR ''x'']" "repair_json [CHR 0x7B, CHR ''x''] = [CHR 0x7B, CHR ''x'']"
    by (simp_all add: trim_def is_space_def repair_json_def quote_def)
  ultimately show "shows_object brace_lib [CHR 0x7B, CHR ''x''] (parse_streaming_json brace_lib [CHR '' '', CHR 0x7B, CHR ''x''])"
    using partial_object_longest [OF refl refl, THEN conjunct1, of "[CHR '' '', CHR 0x7B, CHR ''x'']" brace_lib]
    by (simp only: list.distinct not_False_eq_True) (metis (no_types, lifting) list.distinct(1))
  have "well_closed ([CHR 0x7B] @ (quote # [backslash, CHR ''n''] @ quote # []) @ CHR 0x7D # [])"
    using closed_bracket [of "CHR 0x7B" "CHR 0x7D" "quote # [backslash, CHR ''n''] @ quote # []" "[]"]
      closed_literal [OF literal_escape [OF literal_Nil] closed_Nil] closed_Nil by (simp add: brackets_def)
  then have "well_closed ([CHR 0x7B, quote, backslash] @ [CHR ''n'', quote, CHR 0x7D])"
    by simp
  with partial_object_longest [OF refl refl, where s = "[CHR 0x7B, quote, backslash]" and rest = "[CHR ''n'', quote, CHR 0x7D]"]
  have "\<exists>body tail. complete_json [CHR 0x7B, quote, backslash] = body @ tail \<and> well_closed (body @ tail)"
    by blast
  then show "\<exists>body tail. complete_json [CHR 0x7B, quote, backslash] = body @ tail \<and> well_closed (body @ tail) \<and>
      body @ tail = [CHR 0x7B, quote, quote, CHR 0x7D]"
    by (simp add: complete_json_def json_scan_of_def scan_char_def scan_start_def quote_def backslash_def) metis
qed

text \<open>
  Completing a JSON text leaves no literal and no bracket open, and does nothing to a text that was
  completed before; repairing a text twice is repairing it once.
\<close>

theorem completion_closes:
  "json_scan_of (complete_json s) = scan_start \<and> complete_json (complete_json s) = complete_json s \<and>
   repair_json (repair_json s) = repair_json s"
  using complete_json_closed complete_json_id [of "complete_json s"] repair_loop_idem [of False s]
  by (simp add: repair_json_def)

section \<open>Option patches\<close>

lemma bt_ok_distinct: "bt_ok m \<Longrightarrow> distinct (map fst m)"
  by (simp add: bt_ok_def strict_sorted_iff)

lemma bt_ext:
  assumes "bt_ok m" and "bt_ok m'" and "bt_get m = bt_get m'"
  shows "m = m'"
proof -
  have keys: "map fst m = map fst m'"
  proof (rule sorted_distinct_set_unique)
    show "sorted (map fst m)" "distinct (map fst m)" "sorted (map fst m')" "distinct (map fst m')"
      using assms(1,2) by (simp_all add: bt_ok_def strict_sorted_iff)
    show "set (map fst m) = set (map fst m')"
      using arg_cong [OF assms(3), of dom] by (simp add: dom_map_of_conv_image_fst)
  qed
  have "map (\<lambda>k. (k, the (bt_get m k))) (map fst m) = m" if "bt_ok m" for m :: "('a, 'b) btree_map"
    using bt_ok_distinct [OF that] by (auto simp: map_of_is_SomeI intro!: map_idI)
  with assms keys show ?thesis by metis
qed

lemma foldl_insert_get:
  assumes "distinct (map fst xs)"
  shows "bt_get (foldl (\<lambda>m (k, v). if P k v then bt_insert k (g k v) m else m) m0 xs) k =
    (case map_of xs k of Some v \<Rightarrow> if P k v then Some (g k v) else bt_get m0 k | None \<Rightarrow> bt_get m0 k)"
  using assms
proof (induction xs arbitrary: m0)
  case (Cons x xs)
  obtain l v where x: "x = (l, v)" by (cases x)
  have "map_of xs l = None" using Cons.prems by (simp add: x map_of_eq_None_iff)
  with Cons show ?case by (auto simp: x bt_get_insert split: option.splits)
qed simp

lemma foldl_insert_ok: "bt_ok m \<Longrightarrow> bt_ok (foldl (\<lambda>m (k, v). if P k v then bt_insert k (g k v) m else m) m xs)"
  by (induction xs arbitrary: m) (auto simp: bt_ok_insert)

definition patched :: "'v option \<Rightarrow> 'v option option \<Rightarrow> 'v option" where
  "patched old change = (case change of None \<Rightarrow> old | Some v \<Rightarrow> v)"

lemma foldl_patch_get:
  assumes "distinct (map fst changes)"
  shows "bt_get (foldl (\<lambda>m (k, v). case v of None \<Rightarrow> bt_remove k m | Some v \<Rightarrow> bt_insert k v m) m changes) k =
    patched (bt_get m k) (map_of changes k)"
  using assms
proof (induction changes arbitrary: m)
  case (Cons x changes)
  obtain l v where x: "x = (l, v)" by (cases x)
  have "map_of changes l = None" using Cons.prems by (simp add: x map_of_eq_None_iff)
  with Cons show ?case by (auto simp: x patched_def bt_get_insert bt_get_remove split: option.splits)
qed (simp add: patched_def)

lemma foldl_patch_ok:
  "bt_ok m \<Longrightarrow> bt_ok (foldl (\<lambda>m (k, v). case v of None \<Rightarrow> bt_remove k m | Some v \<Rightarrow> bt_insert k v m) m changes)"
  by (induction changes arbitrary: m) (auto simp: bt_ok_insert bt_ok_remove split: option.splits)

definition map_ok :: "(string \<times> 'v) list option \<Rightarrow> bool" where
  "map_ok slot \<longleftrightarrow> (case slot of None \<Rightarrow> True | Some m \<Rightarrow> bt_ok m)"

lemma diff_map_some:
  assumes "bt_ok old" and "bt_ok new"
  shows "apply_map_patch (Some old) (diff_map (Some old) (Some new)) = Some new"
proof -
  define removed :: "(string \<times> 'a option) list" where
    "removed = foldl (\<lambda>m (k, _). if bt_contains new k then m else bt_insert k None m) [] old"
  define changes where
    "changes = foldl (\<lambda>m (k, v). if bt_get old k \<noteq> Some v then bt_insert k (Some v) m else m) removed new"
  have removed: "removed = foldl (\<lambda>m (k, v). if \<not> bt_contains new k then bt_insert k None m else m) [] old"
    unfolding removed_def by (rule arg_cong [where f = "\<lambda>f. foldl f [] old"]) (auto simp: fun_eq_iff)
  have ok: "bt_ok changes"
    unfolding changes_def removed by (intro foldl_insert_ok) (simp add: bt_simps)
  have get: "patched (bt_get old k) (bt_get changes k) = bt_get new k" for k
    unfolding changes_def removed foldl_insert_get [OF bt_ok_distinct [OF assms(2)]] foldl_insert_get [OF bt_ok_distinct [OF assms(1)]]
    by (auto simp: patched_def split: option.splits)
  have merge: "foldl (\<lambda>m (k, v). case v of None \<Rightarrow> bt_remove k m | Some v \<Rightarrow> bt_insert k v m) old changes = new"
    by (rule bt_ext) (simp_all add: foldl_patch_ok assms fun_eq_iff foldl_patch_get [OF bt_ok_distinct [OF ok]] get)
  have "diff_map (Some old) (Some new) = (if changes = [] then PatchUnchanged else PatchMerge changes)"
    by (simp add: diff_map_def changes_def removed_def Let_def)
  with merge show ?thesis by (auto simp: apply_map_patch_def)
qed

lemma diff_map_fresh:
  assumes "bt_ok new"
  shows "apply_map_patch None (PatchMerge (map (\<lambda>(k, v). (k, Some v)) new)) = Some new"
proof -
  have keys: "map fst (map (\<lambda>(k, v). (k, Some v)) new) = map fst new" by (auto intro: map_cong)
  have get: "map_of (map (\<lambda>(k, v). (k, Some v)) new) k = map_option Some (map_of new k)" for k
    by (induction new) auto
  have "distinct (map fst (map (\<lambda>(k, v). (k, Some v)) new))" unfolding keys by (rule bt_ok_distinct [OF assms])
  note merged = foldl_patch_get [OF this]
  have "foldl (\<lambda>m (k, v). case v of None \<Rightarrow> bt_remove k m | Some v \<Rightarrow> bt_insert k v m) [] (map (\<lambda>(k, v). (k, Some v)) new) = new"
  proof (rule bt_ext [OF foldl_patch_ok assms])
    show "bt_get (foldl (\<lambda>m (k, v). case v of None \<Rightarrow> bt_remove k m | Some v \<Rightarrow> bt_insert k v m) [] (map (\<lambda>(k, v). (k, Some v)) new)) = bt_get new"
      unfolding fun_eq_iff merged get by (simp add: patched_def split: option.splits)
  qed (simp add: bt_simps)
  then show ?thesis
    by (cases new) (auto simp: apply_map_patch_def)
qed

lemma apply_diff_map: "map_ok old \<Longrightarrow> map_ok new \<Longrightarrow> apply_map_patch old (diff_map old new) = new"
proof (cases old; cases new)
  fix a b assume "map_ok old" "map_ok new" "old = Some a" "new = Some b"
  then show ?thesis by (simp add: map_ok_def diff_map_some)
next
  fix b assume "map_ok new" "old = None" "new = Some b"
  then show ?thesis by (simp add: map_ok_def diff_map_def diff_map_fresh)
qed (simp_all add: diff_map_def apply_map_patch_def)


text \<open>
  C31. The patch made from two sets of stream options turns the first into the second.
\<close>

theorem options_patch_roundtrip:
  assumes "map_ok (sp_headers old)" "map_ok (sp_metadata old)" "map_ok (sp_headers new)" "map_ok (sp_metadata new)"
  shows "apply_stream_options_patch old (create_stream_options_patch old new) = new"
  using assms by (simp add: apply_stream_options_patch_def create_stream_options_patch_def apply_diff_map unwrap_or_def)

definition sample_options :: "(string \<times> string) list option \<Rightarrow> (string \<times> nat) list option \<Rightarrow> nat stream_options" where
  "sample_options headers metadata = \<lparr>sp_transport = None, sp_timeout_ms = Some 5, sp_max_retries = None, sp_max_retry_delay_ms = None,
     sp_headers = headers, sp_metadata = metadata, sp_cache_retention = None, sp_deferred = None\<rparr>"

theorem options_patch_roundtrip_witness:
  "apply_stream_options_patch (sample_options (Some [(''a'', ''1''), (''b'', ''2'')]) (Some [(''m'', 1)]))
     (create_stream_options_patch (sample_options (Some [(''a'', ''1''), (''b'', ''2'')]) (Some [(''m'', 1)]))
       (sample_options (Some [(''b'', ''3''), (''c'', ''4'')]) None)) = sample_options (Some [(''b'', ''3''), (''c'', ''4'')]) None"
  by (rule options_patch_roundtrip) (simp_all add: sample_options_def map_ok_def bt_ok_def)

section \<open>Retries\<close>

lemma retry_delay_eq: "retry_delay base attempt = Inr (of_nat (unat base * 2 ^ min (unat attempt - 1) 63))"
proof -
  define n where "n = min (unat attempt - 1) 63"
  have n: "n < 64" by (simp add: n_def)
  have shift: "unat (min (saturating_sub attempt 1) 63) = n"
    by (simp add: n_def unat_saturating_sub min_def word_le_nat_alt)
  have "unat (ucast (min (saturating_sub attempt 1) 63) :: u32) = n"
    using n by (simp add: unsigned_ucast_eq shift take_bit_nat_eq_self)
  moreover have "push_bit n base = of_nat (unat base * 2 ^ n)"
    by (simp add: push_bit_eq_mult)
  ultimately show ?thesis
    using n unfolding retry_delay_def Let_def shift checked_shl_def n_def [symmetric] by simp
qed


text \<open>
  C32. A scheduled retry counts one attempt more and never passes the attempts the policy allows. It is due
  after the base delay doubled with each attempt, taken modulo \<open>2 ^ 64\<close>: the shift drops the bits that
  do not fit, so that a long back-off can come out short or zero, and is never refused for overflow.
\<close>

theorem retry_schedule:
  assumes "schedule_retry kind policy attempt now message = Inr (Some wait)"
  shows "unat (rw_next_attempt wait) = unat attempt + 1 \<and> rw_next_attempt wait \<le> nr_max_attempts policy \<and>
    now \<le> rw_not_before wait \<and> rw_not_before wait < 2 ^ 63 \<and>
    rw_not_before wait = now + (int (unat (nr_base_delay_ms policy)) * 2 ^ min (unat attempt - 1) 63) mod 2 ^ 64"
proof -
  from assms obtain next_attempt where lt: "attempt < nr_max_attempts policy"
    and nxt: "checked_add attempt 1 = Some next_attempt" "rw_next_attempt wait = next_attempt"
    and nb: "i64_try_from (of_nat (unat (nr_base_delay_ms policy) * 2 ^ min (unat attempt - 1) 63)) = Some (rw_not_before wait - now)"
      "i64_checked_add now (rw_not_before wait - now) = Some (rw_not_before wait)"
    by (auto simp: schedule_retry_def retry_delay_eq rbind_eq_Inr_iff ok_or_eq_Inr_iff i64_checked_add_def split: if_splits)
  define delay where "delay = unat (nr_base_delay_ms policy) * 2 ^ min (unat attempt - 1) 63"
  have "uint (of_nat delay :: u64) = int delay mod 2 ^ 64"
    by (simp add: unsigned_of_nat take_bit_eq_mod zmod_int)
  then have "rw_not_before wait = now + int delay mod 2 ^ 64" and "rw_not_before wait < 2 ^ 63"
    using nb unfolding delay_def [symmetric] by (simp_all add: i64_try_from_def i64_checked_add_def split: if_splits)
  moreover have "int delay mod 2 ^ 64 \<ge> 0" by simp
  ultimately show ?thesis
    using lt checked_add_SomeD [OF nxt(1)] nxt(2) unfolding delay_def
    by (auto simp: word_less_nat_alt word_le_nat_alt)
qed

theorem retry_schedule_witness:
  "\<exists>wait. schedule_retry [] \<lparr>nr_max_attempts = 3, nr_base_delay_ms = 2000\<rparr> 2 50 ''overloaded'' = Inr (Some wait) \<and>
     rw_not_before wait = 4050 \<and> rw_next_attempt wait = 3"
proof -
  have "schedule_retry [] \<lparr>nr_max_attempts = 3, nr_base_delay_ms = 2000\<rparr> 2 50 ''overloaded'' =
      Inr (Some \<lparr>rw_next_attempt = 3, rw_not_before = 4050, rw_error_message = ''overloaded''\<rparr>)"
    by (simp add: schedule_retry_def retry_delay_eq i64_try_from_def i64_checked_add_def checked_add_def)
  with retry_schedule [OF this] show ?thesis by simp
qed

end
