(* ===== verification/Lane_Response.thy ===== *)
theory Lane_Response
  imports Lane_Run
begin

text \<open>
  Requests to the model and their responses (\<open>harness/runtime/drive.rs\<close>): what a request is made of,
  the state a response leads to, its publication, failures of the stream, and responses the provider
  defers.
\<close>

section \<open>Requests\<close>

definition fail_with_fault :: "harness_fault \<Rightarrow> ('w, 'm, 'g, 'j, 'a) lane_op" where
  "fail_with_fault fault = (\<lambda>rt. let rt = owner_fault fault rt in (Inl (closed_error_of rt), rt))"

fun configured_tools ::
  "('w, 'm, 'g, 'j, 'f) drive_env \<Rightarrow> 'j runtime_config \<Rightarrow> string list \<Rightarrow> harness_error + 'j tool list" where
  "configured_tools env config [] = Inr []"
| "configured_tools env config (name # names) =
     (if name \<in> fst ` set (rc_tools config)
      then rbind (configured_tools env config names) (\<lambda>tools. Inr (dv_provider_tool env name # tools))
      else Inl (HarnessClosed (''configured tool '' @ name @ '' is unavailable'')))"

text \<open>A source the configuration may have, run outside the harness.\<close>

definition run_source ::
  "('w, 'm, 'g, 'j, 'f) drive_env \<Rightarrow> ('w \<Rightarrow> (harness_error + 'a) \<times> 'w) \<Rightarrow> ('w, 'm, 'g, 'j, 'a) lane_op" where
  "run_source env f = op_bind (outside env f) (\<lambda>r. op_read (\<lambda>_. r))"

definition resolve_tool_context :: "('w, 'm, 'g, 'j, 'f) drive_env \<Rightarrow> ('w, 'm, 'g, 'j, unit) lane_op" where
  "resolve_tool_context env = (case dv_tool_context env of None \<Rightarrow> op_return () | Some source \<Rightarrow> run_source env source)"

definition resolve_system_prompt :: "('w, 'm, 'g, 'j, 'f) drive_env \<Rightarrow> ('w, 'm, 'g, 'j, string) lane_op" where
  "resolve_system_prompt env =
     (case dv_system_prompt env of
        None \<Rightarrow> op_return []
      | Some source \<Rightarrow>
          op_bind (resolve_tool_context env) (\<lambda>_.
          with_lane (\<lambda>rt.
          case admitted rt of
            Inl (GateRejectedClosed fault) \<Rightarrow> op_fail (HarnessClosed (hf_message fault))
          | Inl (GateAborted _) \<Rightarrow> op_fail (HarnessClosed ''system prompt was aborted'')
          | Inr _ \<Rightarrow> run_source env source)))"

definition before_request_options ::
  "('w, 'm, 'g, 'j, 'f) drive_env \<Rightarrow> 'j operation \<Rightarrow> model \<Rightarrow> request_step \<Rightarrow> u64 \<Rightarrow> 'j stream_options \<Rightarrow> call_context
    \<Rightarrow> ('w, 'm, 'g, 'j, hook_error + 'j stream_options) lane_op" where
  "before_request_options env operation model step attempt options cx =
     (case hk_before_request (dv_hooks env) of
        None \<Rightarrow> op_return (Inr options)
      | Some hook \<Rightarrow>
          with_lane (\<lambda>rt.
          op_bind (run_with_gate env hook (lr_name rt, op_id operation, model, step, attempt, options) cx) (\<lambda>result.
          op_return (case result of
              Inl error \<Rightarrow> Inl error
            | Inr (Some (Some patch)) \<Rightarrow> Inr (apply_stream_options_patch options patch)
            | Inr _ \<Rightarrow> Inr options))))"

text \<open>The options of a request: an abort met in the hook is reconciled, another failure is raised.\<close>

definition with_request_options ::
  "('m, 'j, 'f::zero) storage_ops \<Rightarrow> ('w, 'm, 'g, 'j, 'f) drive_env \<Rightarrow> 'j operation \<Rightarrow> model \<Rightarrow> request_step \<Rightarrow> u64
    \<Rightarrow> 'j stream_options \<Rightarrow> call_context \<Rightarrow> ('j stream_options \<Rightarrow> ('w, 'm, 'g, 'j, ('j, 'f) drive_step) lane_op)
    \<Rightarrow> ('w, 'm, 'g, 'j, ('j, 'f) drive_step) lane_op" where
  "with_request_options ops env operation model step attempt options cx continue =
     op_bind (before_request_options env operation model step attempt options cx) (\<lambda>result.
     case result of
       Inr options \<Rightarrow> continue options
     | Inl (HookGate (GateAborted _)) \<Rightarrow> op_bind (pause env) (\<lambda>_. reconcile_abort ops env operation cx)
     | Inl error \<Rightarrow> op_fail (hook_failure error))"

section \<open>What a response leads to\<close>

definition assistant_tool_calls :: "('j, 'f) assistant_message \<Rightarrow> (u32 \<times> 'j tool_call) list" where
  "assistant_tool_calls message = List.map_filter (\<lambda>(i, block). case block of
       AssistantToolCall call \<Rightarrow> if i < 2 ^ 32 then Some (of_nat i, call) else None
     | _ \<Rightarrow> None) (enumerate 0 (am_content message))"

definition pending_response_id :: "'j op_state \<Rightarrow> harness_error + entry_id" where
  "pending_response_id state = (case state of
     AssistantEffectPending _ _ _ response _ _ _ \<Rightarrow> Inr response
   | DeferredEffectPending _ response _ \<Rightarrow> Inr response
   | _ \<Rightarrow> Inl (harness_invariant ''response publication without response reservation''))"

definition pending_usage_id :: "'j op_state \<Rightarrow> harness_error + usage_id" where
  "pending_usage_id state = (case state of
     AssistantEffectPending _ _ _ _ usage _ _ \<Rightarrow> Inr usage
   | DeferredEffectPending _ _ usage \<Rightarrow> Inr usage
   | _ \<Rightarrow> Inl (harness_invariant ''response publication without pending state''))"

record 'j response_transition =
  rx_next_state :: "'j op_state"
  rx_status :: terminal_status
  rx_error :: "'j operation_error option"

definition may_finish :: "operation_scope \<Rightarrow> entry_id \<Rightarrow> 'j op_state" where
  "may_finish scope trigger = Checkpoint scope \<lparr>cp_continuation = MayFinish True, cp_trigger_entry_id = trigger\<rparr>"

definition retry_generation_context :: "'j runtime_config \<Rightarrow> 'j op_state \<Rightarrow> harness_error + 'j generation_context" where
  "retry_generation_context config pending = (case pending of
     AssistantEffectPending _ context _ _ _ _ _ \<Rightarrow> Inr context
   | DeferredEffectPending deferred _ _ \<Rightarrow>
       rbind (normalized_retry (rc_retry config)) (\<lambda>policy.
       Inr \<lparr>gc_step_id = df_step_id deferred, gc_trigger_entry_id = df_source_entry_id deferred,
         gc_configuration = df_configuration deferred, gc_stream_options = df_stream_options deferred,
         gc_retry_policy = policy, gc_overflow_recovery_used = False\<rparr>)
   | _ \<Rightarrow> Inl (harness_invariant ''error response without generation context''))"

text \<open>The clock is read only when an attempt is left.\<close>

definition retry_or_stop ::
  "('w, 'm, 'g, 'j, 'f) drive_env \<Rightarrow> string \<Rightarrow> normalized_retry_policy \<Rightarrow> u64 \<Rightarrow> string
    \<Rightarrow> ('w, 'm, 'g, 'j, retry_wait option) lane_op" where
  "retry_or_stop env kind policy attempt message =
     (if attempt < nr_max_attempts policy
      then op_bind (lane_now (dv_lane env)) (\<lambda>now. op_read (\<lambda>_. schedule_retry kind policy attempt now message))
      else op_return None)"

definition error_response_state ::
  "('w, 'm, 'g, 'j, 'f) drive_env \<Rightarrow> 'j op_state \<Rightarrow> ('j, 'f) assistant_message \<Rightarrow> entry_id
    \<Rightarrow> ('w, 'm, 'g, 'j, 'j response_transition) lane_op" where
  "error_response_state env pending message response =
     (let attempt = (case pending of AssistantEffectPending _ _ attempt _ _ _ _ \<Rightarrow> attempt | _ \<Rightarrow> 1);
          scope = state_scope pending;
          text = unwrap_or (am_error_message message) ''provider returned an error'' in
      op_bind (op_read (\<lambda>rt. retry_generation_context (lr_config rt) pending)) (\<lambda>context.
      op_bind (retry_or_stop env [] (gc_retry_policy context) attempt text) (\<lambda>retry.
      op_return (case retry of
          Some wait \<Rightarrow> \<lparr>rx_next_state = AssistantRetryWait scope context wait, rx_status = Failed, rx_error = None\<rparr>
        | None \<Rightarrow> \<lparr>rx_next_state = may_finish scope response, rx_status = Failed,
            rx_error = Some (plain_error ''provider_error'' text)\<rparr>))))"

definition length_response_state :: "'j op_state \<Rightarrow> entry_id \<Rightarrow> harness_error + 'j response_transition" where
  "length_response_state pending response =
     rbind (case pending of
         AssistantEffectPending scope context _ reserved _ _ _ \<Rightarrow> Inr (scope, reserved, gc_overflow_recovery_used context)
       | DeferredEffectPending deferred _ _ \<Rightarrow> Inr (df_scope deferred, response, True)
       | _ \<Rightarrow> Inl (harness_invariant ''length response without generation context'')) (\<lambda>(scope, trigger, used).
     Inr (if used
       then \<lparr>rx_next_state = may_finish scope trigger, rx_status = Failed,
         rx_error = Some (plain_error ''context_overflow'' ''assistant response exceeded the context window after compaction'')\<rparr>
       else \<lparr>rx_next_state = Checkpoint scope \<lparr>cp_continuation = NeedAssistant True, cp_trigger_entry_id = trigger\<rparr>,
         rx_status = Completed, rx_error = None\<rparr>))"

definition deferred_response_state ::
  "'j op_state \<Rightarrow> ('j, 'f) assistant_message \<Rightarrow> entry_id \<Rightarrow> harness_error + 'j response_transition" where
  "deferred_response_state pending message response =
     (if am_deferred message = None then Inl (HarnessClosed ''deferred response omitted its handle'')
      else rbind (case pending of
          AssistantEffectPending scope context _ _ _ _ _ \<Rightarrow>
            Inr (scope, gc_configuration context, gc_stream_options context, gc_step_id context)
        | DeferredEffectPending deferred _ _ \<Rightarrow>
            Inr (df_scope deferred, df_configuration deferred, df_stream_options deferred, df_step_id deferred)
        | _ \<Rightarrow> Inl (harness_invariant ''deferred response without scope'')) (\<lambda>(scope, configuration, options, step).
      Inr \<lparr>rx_next_state = DeferredSuspended \<lparr>df_scope = scope, df_step_id = step, df_source_entry_id = response,
          df_poll = 0, df_configuration = configuration, df_stream_options = options\<rparr>,
        rx_status = Completed, rx_error = None\<rparr>))"

fun plan_calls ::
  "('w, 'm, 'g, 'j, 'f) drive_env \<Rightarrow> (u32 \<times> 'j tool_call) list \<Rightarrow> ('w, 'm, 'g, 'j, tool_call_record list) lane_op" where
  "plan_calls env [] = op_return []"
| "plan_calls env ((source, call) # calls) =
     op_bind (new_id (dv_lane env)) (\<lambda>i.
     op_bind (plan_calls env calls) (\<lambda>records.
     op_return (\<lparr>tcr_source_index = source, tcr_result_entry_id = i, tcr_status = Planned\<rparr> # records)))"

definition tool_use_response_state ::
  "('w, 'm, 'g, 'j, 'f) drive_env \<Rightarrow> 'j op_state \<Rightarrow> (u32 \<times> 'j tool_call) list \<Rightarrow> entry_id
    \<Rightarrow> ('w, 'm, 'g, 'j, 'j response_transition) lane_op" where
  "tool_use_response_state env pending calls response =
     op_bind (op_read (\<lambda>_. case pending of
         AssistantEffectPending scope context _ _ _ _ _ \<Rightarrow> Inr (scope, gc_configuration context, gc_step_id context)
       | DeferredEffectPending deferred _ _ \<Rightarrow> Inr (df_scope deferred, df_configuration deferred, df_step_id deferred)
       | _ \<Rightarrow> Inl (harness_invariant ''tool response without scope''))) (\<lambda>(scope, configuration, step).
     op_bind (plan_calls env calls) (\<lambda>records.
     op_return \<lparr>rx_next_state = Tools (scope\<lparr>sc_latest_assistant_entry_id := Some response\<rparr>)
         \<lparr>tb_assistant_entry_id = response, tb_configuration = configuration, tb_turn_id = step, tb_calls = records\<rparr>,
       rx_status = Completed, rx_error = None\<rparr>))"

definition finish_response_state :: "'j op_state \<Rightarrow> entry_id \<Rightarrow> 'j response_transition" where
  "finish_response_state pending response =
     \<lparr>rx_next_state = may_finish ((state_scope pending)\<lparr>sc_latest_assistant_entry_id := Some response\<rparr>) response,
      rx_status = Completed, rx_error = None\<rparr>"

definition assistant_response_state ::
  "('w, 'm, 'g, 'j, 'f) drive_env \<Rightarrow> 'j op_state \<Rightarrow> ('j, 'f) assistant_message \<Rightarrow> (u32 \<times> 'j tool_call) list \<Rightarrow> entry_id
    \<Rightarrow> ('w, 'm, 'g, 'j, 'j response_transition) lane_op" where
  "assistant_response_state env pending message calls response =
     (if am_stop_reason message = Sr_Error then error_response_state env pending message response
      else if am_stop_reason message = Sr_Length then op_read (\<lambda>_. length_response_state pending response)
      else if am_stop_reason message = Sr_Deferred then op_read (\<lambda>_. deferred_response_state pending message response)
      else if calls \<noteq> [] \<and> am_stop_reason message = Sr_ToolUse then tool_use_response_state env pending calls response
      else op_return (finish_response_state pending response))"

section \<open>Publication\<close>

definition publish_response ::
  "('m, 'j, 'f::zero) storage_ops \<Rightarrow> ('w, 'm, 'g, 'j, 'f) drive_env \<Rightarrow> 'j operation \<Rightarrow> 'j op_state
    \<Rightarrow> ('j, 'f) assistant_message \<Rightarrow> call_context \<Rightarrow> ('w, 'm, 'g, 'j, ('j, 'f) drive_step) lane_op" where
  "publish_response ops env operation pending message cx =
     op_bind (op_read (\<lambda>_. pending_response_id pending)) (\<lambda>response.
     op_bind (op_read (\<lambda>_. pending_usage_id pending)) (\<lambda>usage.
     op_bind (op_read (\<lambda>_. map_err HarnessClosed (ld_assistant_to (drive_serde env) message))) (\<lambda>assistant.
     op_bind (assistant_response_state env pending message (assistant_tool_calls message) response) (\<lambda>next.
     op_bind (commit_assistant ops env operation
       \<lparr>ac_response_id = response, ac_assistant = assistant, ac_usage = am_usage message, ac_usage_id = usage,
        ac_next_state = rx_next_state next, ac_status = rx_status next, ac_error = rx_error next\<rparr> cx) (\<lambda>record.
     if or_status record = Failed \<and> or_error record \<noteq> None then op_return (StepSettled record)
     else if state_at (op_state_of operation) = At_AssistantEffectPending \<and> am_stop_reason message = Sr_Deferred
     then op_bind (op_read (\<lambda>_. ok_or (am_deferred message) (HarnessClosed ''deferred response omitted its handle''))) (\<lambda>handle.
       op_return (StepWaitingDeferred handle))
     else if am_stop_reason message = Sr_Error \<and> or_status record = Failed
     then op_bind (pause env) (\<lambda>_.
       op_bind current_operation (\<lambda>current.
       case current of
         None \<Rightarrow> op_fail (harness_invariant ''retry state disappeared'')
       | Some current \<Rightarrow>
           op_return (case op_state_of current of
               AssistantRetryWait _ _ retry \<Rightarrow> StepWaitingRetry (rw_not_before retry)
             | _ \<Rightarrow> StepContinue)))
     else op_return StepContinue)))))"

text \<open>A response that arrived: dropped when the operation is to be aborted, published otherwise.\<close>

definition publish_unless_cancelled ::
  "('m, 'j, 'f::zero) storage_ops \<Rightarrow> ('w, 'm, 'g, 'j, 'f) drive_env \<Rightarrow> string \<Rightarrow> 'j operation
    \<Rightarrow> ('j, 'f) assistant_message \<Rightarrow> call_context \<Rightarrow> ('w, 'm, 'g, 'j, ('j, 'f) drive_step) lane_op" where
  "publish_unless_cancelled ops env kind operation message cx =
     op_bind (pause env) (\<lambda>_.
     op_bind current_operation (\<lambda>pending.
     case pending of
       None \<Rightarrow> op_fail (harness_invariant (kind @ '' operation disappeared before publication''))
     | Some pending \<Rightarrow>
         if op_cancelled pending
         then op_bind (op_read (\<lambda>_. pending_response_id (op_state_of pending))) (\<lambda>response.
           settled_step (publish_interrupted ops env pending response cx))
         else publish_response ops env operation (op_state_of pending) message cx))"

definition stream_failure ::
  "('m, 'j, 'f::zero) storage_ops \<Rightarrow> ('w, 'm, 'g, 'j, 'f) drive_env \<Rightarrow> 'j operation \<Rightarrow> 'j generation_context \<Rightarrow> u64
    \<Rightarrow> stream_error \<Rightarrow> call_context \<Rightarrow> ('w, 'm, 'g, 'j, ('j, 'f) drive_step) lane_op" where
  "stream_failure ops env operation context attempt error cx = (case error of
     StreamGate (GateAborted _) \<Rightarrow> reconcile_abort ops env operation cx
   | StreamGate (GateRejectedClosed fault) \<Rightarrow> op_fail (HarnessClosed (hf_message fault))
   | StreamFault fault \<Rightarrow> fail_with_fault fault
   | StreamPreparation error \<Rightarrow>
       settled_step (settle_failure ops env operation ''request_preparation'' (harness_error_message error) cx)
   | StreamProvider message \<Rightarrow>
       op_bind (pause env) (\<lambda>_.
       with_lane (\<lambda>rt.
       if boundary_cancelled rt then reconcile_abort ops env operation cx
       else
         op_bind (retry_or_stop env [] (gc_retry_policy context) attempt message) (\<lambda>retry.
         case retry of
           Some wait \<Rightarrow>
             op_bind (transition ops env operation (AssistantRetryWait (op_scope operation) context wait) cx) (\<lambda>_.
             op_return (StepWaitingRetry (rw_not_before wait)))
         | None \<Rightarrow> settled_step (settle_failure ops env operation ''provider_error'' message cx)))))"

text \<open>The outcome of a stream, as a value the caller looks at.\<close>

definition try_stream :: "('w, 'm, 'g, 'j, 'a) stream_op \<Rightarrow> ('w, 'm, 'g, 'j, stream_error + 'a) lane_op" where
  "try_stream m = (\<lambda>rt. let (r, rt) = m rt in (Inr r, rt))"

definition generation ::
  "('m, 'j, 'f::zero) storage_ops \<Rightarrow> ('w, 'm, 'g, 'j, 'f) drive_env \<Rightarrow> 'j operation \<Rightarrow> call_context
    \<Rightarrow> ('w, 'm, 'g, 'j, ('j, 'f) drive_step) lane_op" where
  "generation ops env operation cx =
     (case op_state_of operation of
        AssistantReady scope context next_attempt \<Rightarrow>
          (case lookup_model env (gc_configuration context) of
             None \<Rightarrow> settled_step (settle_failure ops env operation ''model_unavailable''
               (model_unavailable (gc_configuration context)) cx)
           | Some model \<Rightarrow>
               let config = gc_configuration context;
                   context = context\<lparr>gc_configuration := config\<lparr>lc_model := (lc_model config)\<lparr>mi_api := Some (mo_api model)\<rparr>\<rparr>\<rparr> in
               op_bind (op_read (\<lambda>rt. configured_tools env (lr_config rt) (lc_active_tool_names config))) (\<lambda>tools.
               op_bind (session_context_messages ops env cx) (\<lambda>messages.
               op_bind (resolve_system_prompt env) (\<lambda>system_prompt.
               with_request_options ops env operation model StepAssistant next_attempt (gc_stream_options context) cx (\<lambda>options.
               op_bind (new_id (dv_lane env)) (\<lambda>response.
               op_bind (new_id (dv_lane env)) (\<lambda>usage.
               op_bind (transition ops env operation
                 (AssistantEffectPending scope context next_attempt response usage (response_limit model) (context_window model)) cx) (\<lambda>_.
               op_bind (try_stream (stream_harness_assistant ops env (op_id operation) response cx messages model system_prompt tools
                 (lc_thinking_level config) options)) (\<lambda>result.
               case result of
                 Inl error \<Rightarrow> stream_failure ops env operation context next_attempt error cx
               | Inr message \<Rightarrow> publish_unless_cancelled ops env ''assistant'' operation message cx)))))))))
      | _ \<Rightarrow> op_fail (harness_invariant ''generation dispatcher received another state''))"

section \<open>Deferred responses\<close>

definition deferred_model :: "('w, 'm, 'g, 'j, 'f) drive_env \<Rightarrow> lane_configuration \<Rightarrow> harness_error + model" where
  "deferred_model env config = ok_or (lookup_model env config)
     (HarnessClosed (''deferred model '' @ mi_provider (lc_model config) @ ''/'' @ mi_model_id (lc_model config) @ '' is unavailable''))"

definition deferred_stream_failure ::
  "('m, 'j, 'f::zero) storage_ops \<Rightarrow> ('w, 'm, 'g, 'j, 'f) drive_env \<Rightarrow> 'j operation \<Rightarrow> stream_error \<Rightarrow> call_context
    \<Rightarrow> ('w, 'm, 'g, 'j, ('j, 'f) drive_step) lane_op" where
  "deferred_stream_failure ops env operation error cx = (case error of
     StreamGate (GateAborted _) \<Rightarrow> op_bind (pause env) (\<lambda>_. reconcile_abort ops env operation cx)
   | StreamGate (GateRejectedClosed fault) \<Rightarrow> op_fail (HarnessClosed (hf_message fault))
   | StreamFault fault \<Rightarrow> fail_with_fault fault
   | StreamPreparation error \<Rightarrow> op_fail error
   | StreamProvider message \<Rightarrow>
       fail_with_fault \<lparr>hf_message = ''deferred provider poll failed: '' @ message, hf_cause = message\<rparr>)"

text \<open>
  One poll: the pending state with its new response is stored (with \<open>writes\<close>), the provider is asked,
  and what it answers is published.
\<close>

definition poll_deferred ::
  "('m, 'j, 'f::zero) storage_ops \<Rightarrow> ('w, 'm, 'g, 'j, 'f) drive_env \<Rightarrow> 'j operation \<Rightarrow> 'j deferred_scope \<Rightarrow> 'j deferred_scope
    \<Rightarrow> ('j, 'f) session_write list \<Rightarrow> ('j, 'f) deferred_handle \<Rightarrow> model \<Rightarrow> call_context
    \<Rightarrow> ('w, 'm, 'g, 'j, ('j, 'f) drive_step) lane_op" where
  "poll_deferred ops env operation deferred next_deferred writes handle model cx =
     with_request_options ops env operation model StepDeferred (ucast (df_poll next_deferred)) (df_stream_options deferred) cx (\<lambda>options.
     op_bind (new_id (dv_lane env)) (\<lambda>response.
     op_bind (new_id (dv_lane env)) (\<lambda>usage.
     op_bind (transition_with_writes ops env operation (DeferredEffectPending next_deferred response usage) writes cx) (\<lambda>_.
     op_bind (try_stream (stream_harness_deferred ops env (op_id operation) response cx model handle
       (lc_thinking_level (df_configuration deferred)) options)) (\<lambda>result.
     case result of
       Inl error \<Rightarrow> deferred_stream_failure ops env operation error cx
     | Inr message \<Rightarrow> publish_unless_cancelled ops env ''deferred'' operation message cx)))))"

definition deferred_suspended ::
  "('m, 'j, 'f::zero) storage_ops \<Rightarrow> ('w, 'm, 'g, 'j, 'f) drive_env \<Rightarrow> 'j operation \<Rightarrow> bool \<Rightarrow> call_context
    \<Rightarrow> ('w, 'm, 'g, 'j, ('j, 'f) drive_step) lane_op" where
  "deferred_suspended ops env operation poll cx =
     (case op_state_of operation of
        DeferredSuspended deferred \<Rightarrow>
          op_bind (deferred_handle ops env deferred cx) (\<lambda>handle.
          if \<not> poll then op_return (StepWaitingDeferred handle)
          else
            op_bind (op_read (\<lambda>_. deferred_model env (df_configuration deferred))) (\<lambda>model.
            op_bind (op_read (\<lambda>_. ok_or (checked_add (df_poll deferred) 1) (HarnessClosed ''deferred poll count overflow''))) (\<lambda>poll_attempt.
            poll_deferred ops env operation deferred (deferred\<lparr>df_poll := poll_attempt\<rparr>) [] handle model cx)))
      | _ \<Rightarrow> op_fail (harness_invariant ''deferred dispatcher received another state''))"

definition recover_deferred_effect ::
  "('m, 'j, 'f::zero) storage_ops \<Rightarrow> ('w, 'm, 'g, 'j, 'f) drive_env \<Rightarrow> 'j operation \<Rightarrow> bool \<Rightarrow> call_context
    \<Rightarrow> ('w, 'm, 'g, 'j, ('j, 'f) drive_step) lane_op" where
  "recover_deferred_effect ops env operation poll cx =
     (case op_state_of operation of
        DeferredEffectPending deferred old_response _ \<Rightarrow>
          op_bind (deferred_handle ops env deferred cx) (\<lambda>handle.
          if \<not> poll then op_return (StepWaitingDeferred handle)
          else
            op_bind (op_read (\<lambda>_. deferred_model env (df_configuration deferred))) (\<lambda>model.
            poll_deferred ops env operation deferred deferred
              [delete_list (pending_assistant_frames (op_id operation) old_response)] handle model cx))
      | _ \<Rightarrow> op_fail (harness_invariant ''deferred effect recovery received another state''))"

end
