(* ===== verification/Lane_Tool.thy ===== *)
theory Lane_Tool
  imports Lane_Response
begin

text \<open>
  The tool calls of an assistant response (\<open>harness/runtime/drive.rs\<close>): one after the other or
  together, each recorded as begun before its tool runs and staged when it has returned, and the
  entries their results become. Of tools running together any one may go on next, first to begin and
  then to return; what a tool does before it returns counts as done by other tasks until then.
\<close>

section \<open>One call\<close>

definition error_tool_result :: "('w, 'm, 'g, 'j, 'f) drive_env \<Rightarrow> string \<Rightarrow> 'j agent_tool_result" where
  "error_tool_result env message =
     \<lparr>tres_content = [ToolResultText \<lparr>tc_text = message, tc_text_signature = None\<rparr>], tres_details = dv_empty_object env,
      tres_added_tool_names = None, tres_terminate = None\<rparr>"

text \<open>The first half of \<open>execute_tool\<close>: \<open>None\<close> when the tool is to run, otherwise the error it counts as.\<close>

definition start_tool ::
  "('w, 'm, 'g, 'j, 'f) drive_env \<Rightarrow> 'j operation \<Rightarrow> 'j tool_call \<Rightarrow> ('w, 'm, 'g, 'j, 'j agent_tool_result option) lane_op" where
  "start_tool env operation call = with_lane (\<lambda>rt.
     if op_cancelled operation \<or> token_cancelled rt then op_return (Some (error_tool_result env ''tool execution aborted''))
     else if tl_name call \<in> fst ` set (rc_tools (lr_config rt)) then op_bind (resolve_tool_context env) (\<lambda>_. op_return None)
     else op_return (Some (error_tool_result env (''tool '' @ tl_name call @ '' is not registered''))))"

definition run_tool ::
  "('w, 'm, 'g, 'j, 'f) drive_env \<Rightarrow> operation_id \<Rightarrow> string \<Rightarrow> entry_id \<Rightarrow> 'j tool_call
    \<Rightarrow> ('w, 'm, 'g, 'j, 'j agent_tool_result \<times> bool) lane_op" where
  "run_tool env i turn entry call = (\<lambda>rt.
     let (outcome, rt) = dv_tool env call i turn entry rt in
     (Inr (case outcome of
          ToolReturned result \<Rightarrow> (result, False)
        | ToolFailed message \<Rightarrow> (error_tool_result env message, True)
        | ToolCancelled \<Rightarrow> (error_tool_result env ''tool execution aborted'', True)), rt))"

definition tool_result_message_new ::
  "string \<Rightarrow> string \<Rightarrow> tool_result_content list \<Rightarrow> bool \<Rightarrow> i64 \<Rightarrow> 'j tool_result_message" where
  "tool_result_message_new call_id name content is_error now =
     \<lparr>rm_tool_call_id = call_id, rm_tool_name = name, rm_content = content, rm_details = None, rm_added_tool_names = None,
      rm_is_error = is_error, rm_timestamp = now\<rparr>"

type_synonym 'j executed = "'j tool_result_message \<times> bool \<times> 'j staged_tool_result"

definition tool_executed ::
  "('w, 'm, 'g, 'j, 'f) drive_env \<Rightarrow> 'j tool_call \<Rightarrow> 'j agent_tool_result \<times> bool \<Rightarrow> ('w, 'm, 'g, 'j, 'j executed) lane_op" where
  "tool_executed env call = (\<lambda>(result, is_error).
     let terminate = unwrap_or (tres_terminate result) False in
     op_bind (lane_now (dv_lane env)) (\<lambda>now.
     op_return (tool_result_message_new (tl_id call) (tl_name call) (tres_content result) is_error now, terminate,
       \<lparr>sg_result = result\<lparr>tres_terminate := Some terminate\<rparr>, sg_is_error = is_error\<rparr>)))"

definition execute_tool ::
  "('w, 'm, 'g, 'j, 'f) drive_env \<Rightarrow> 'j operation \<Rightarrow> string \<Rightarrow> entry_id \<Rightarrow> 'j tool_call \<Rightarrow> ('w, 'm, 'g, 'j, 'j executed) lane_op" where
  "execute_tool env operation turn entry call =
     op_bind (start_tool env operation call) (\<lambda>decided.
     op_bind (case decided of
         Some result \<Rightarrow> op_return (result, True)
       | None \<Rightarrow> op_bind (pause env) (\<lambda>_. run_tool env (op_id operation) turn entry call)) (tool_executed env call))"

definition staged_tool_result ::
  "('m, 'j, 'f) storage_ops \<Rightarrow> ('w, 'm, 'g, 'j, 'f) drive_env \<Rightarrow> operation_id \<Rightarrow> entry_id \<Rightarrow> call_context
    \<Rightarrow> ('w, 'm, 'g, 'j, 'j staged_tool_result option) lane_op" where
  "staged_tool_result ops env i entry cx = lane_read (\<lambda>s.
     rbind (lane_get ops (ld_staged (drive_serde env)) (pending_tool_output i entry) cx s) (\<lambda>stored.
     Inr (map_option sv_value stored)))"

definition native_tool_result :: "'j tool_call \<Rightarrow> 'j staged_tool_result \<Rightarrow> i64 \<Rightarrow> 'j tool_result_message" where
  "native_tool_result call staged now =
     (tool_result_message_new (tl_id call) (tl_name call) (tres_content (sg_result staged)) (sg_is_error staged) now)
       \<lparr>rm_details := Some (tres_details (sg_result staged)), rm_added_tool_names := tres_added_tool_names (sg_result staged)\<rparr>"

section \<open>The batch\<close>

definition batch_scope :: "'j operation \<Rightarrow> tool_batch \<Rightarrow> operation_scope" where
  "batch_scope operation batch = (op_scope operation)\<lparr>sc_latest_assistant_entry_id := Some (tb_assistant_entry_id batch)\<rparr>"

definition tools_state :: "'j operation \<Rightarrow> tool_batch \<Rightarrow> 'j op_state" where
  "tools_state operation batch = Tools (batch_scope operation batch) batch"

definition set_status :: "nat \<Rightarrow> tool_call_status \<Rightarrow> tool_batch \<Rightarrow> tool_batch" where
  "set_status index status batch =
     batch\<lparr>tb_calls := (tb_calls batch)[index := (tb_calls batch ! index)\<lparr>tcr_status := status\<rparr>]\<rparr>"

fun call_position :: "u32 \<Rightarrow> tool_call_record list \<Rightarrow> nat option" where
  "call_position source [] = None"
| "call_position source (record # records) =
     (if tcr_source_index record = source then Some 0 else map_option Suc (call_position source records))"

fun may_run :: "tool_call_status \<Rightarrow> bool" where
  "may_run Planned = True"
| "may_run (EffectPending policy) = (policy = Safe)"
| "may_run (OutcomeReady _) = False"
| "may_run (CallCompleted _) = False"

definition stage_output ::
  "('m, 'j, 'f) storage_ops \<Rightarrow> ('w, 'm, 'g, 'j, 'f) drive_env \<Rightarrow> 'j operation \<Rightarrow> entry_id \<Rightarrow> 'j staged_tool_result \<Rightarrow> call_context
    \<Rightarrow> ('w, 'm, 'g, 'j, unit) lane_op" where
  "stage_output ops env operation entry durable cx =
     op_bind (lane_write (pending_tool_output (op_id operation) entry) (ld_staged (drive_serde env)) durable) (\<lambda>write.
     op_bind (lane_commit ops [write] cx) (\<lambda>_. op_return ()))"

definition args_write ::
  "('w, 'm, 'g, 'j, 'f) drive_env \<Rightarrow> 'j operation \<Rightarrow> string \<Rightarrow> u32 \<Rightarrow> 'j tool_call \<Rightarrow> ('w, 'm, 'g, 'j, ('j, 'f) session_write) lane_op" where
  "args_write env operation turn source call =
     lane_write (operation_tool_args (op_id operation) turn source) (ld_args (drive_serde env)) (tl_arguments call)"

section \<open>Calls one after the other\<close>

definition recover_sequential_tool ::
  "('m, 'j, 'f) storage_ops \<Rightarrow> ('w, 'm, 'g, 'j, 'f) drive_env \<Rightarrow> 'j operation \<Rightarrow> tool_call_record \<Rightarrow> 'j tool_call \<Rightarrow> call_context
    \<Rightarrow> ('w, 'm, 'g, 'j, 'j operation_result_record + 'j tool_result_message \<times> bool) lane_op" where
  "recover_sequential_tool ops env operation record call cx =
     op_bind (staged_tool_result ops env (op_id operation) (tcr_result_entry_id record) cx) (\<lambda>staged.
     case staged of
       None \<Rightarrow>
         op_bind (settle_failure ops env operation ''tool_effect_unknown''
           (''tool result '' @ tcr_result_entry_id record @ '' is unavailable during recovery'') cx) (\<lambda>failure.
         op_return (Inl failure))
     | Some staged \<Rightarrow>
         op_bind (lane_now (dv_lane env)) (\<lambda>now.
         op_return (Inr (native_tool_result call staged now, unwrap_or (tres_terminate (sg_result staged)) False))))"

definition run_sequential_tool ::
  "('m, 'j, 'f) storage_ops \<Rightarrow> ('w, 'm, 'g, 'j, 'f) drive_env \<Rightarrow> 'j operation \<Rightarrow> tool_batch \<Rightarrow> nat \<Rightarrow> 'j tool_call \<Rightarrow> call_context
    \<Rightarrow> ('w, 'm, 'g, 'j, tool_batch \<times> ('j operation_result_record + 'j tool_result_message \<times> bool)) lane_op" where
  "run_sequential_tool ops env operation batch index call cx =
     (let record = tb_calls batch ! index in
      if may_run (tcr_status record)
      then
        let pending = set_status index (EffectPending Never) batch in
        op_bind (args_write env operation (tb_turn_id batch) (tcr_source_index record) call) (\<lambda>write.
        op_bind (transition_with_writes ops env operation (tools_state operation pending) [write] cx) (\<lambda>_.
        op_bind (execute_tool env operation (tb_turn_id pending) (tcr_result_entry_id record) call) (\<lambda>(message, terminate, durable).
        op_bind (stage_output ops env operation (tcr_result_entry_id record) durable cx) (\<lambda>_.
        let ready = set_status index (OutcomeReady terminate) pending in
        op_bind (transition ops env operation (tools_state operation ready) cx) (\<lambda>_.
        op_return (ready, Inr (message, terminate)))))))
      else
        op_bind (recover_sequential_tool ops env operation record call cx) (\<lambda>outcome. op_return (batch, outcome)))"

fun sequential_tools ::
  "('m, 'j, 'f) storage_ops \<Rightarrow> ('w, 'm, 'g, 'j, 'f) drive_env \<Rightarrow> 'j operation \<Rightarrow> call_context \<Rightarrow> (u32 \<times> 'j tool_call) list
    \<Rightarrow> tool_batch \<Rightarrow> 'j tool_result_message list \<Rightarrow> bool
    \<Rightarrow> ('w, 'm, 'g, 'j, 'j operation_result_record + tool_batch \<times> 'j tool_result_message list \<times> bool) lane_op" where
  "sequential_tools ops env operation cx [] batch results terminate = op_return (Inr (batch, results, terminate))"
| "sequential_tools ops env operation cx ((source, call) # calls) batch results terminate =
     (case call_position source (tb_calls batch) of
        None \<Rightarrow> op_fail (harness_invariant ''tool batch call index is missing'')
      | Some index \<Rightarrow>
          op_bind (run_sequential_tool ops env operation batch index call cx) (\<lambda>(batch, outcome).
          case outcome of
            Inl record \<Rightarrow> op_return (Inl record)
          | Inr (message, ends) \<Rightarrow>
              sequential_tools ops env operation cx calls batch (results @ [message]) (terminate \<or> ends)))"

section \<open>Publishing results\<close>

fun tool_result_writes ::
  "('w, 'm, 'g, 'j, 'f) drive_env \<Rightarrow> operation_id \<Rightarrow> bool \<Rightarrow> tool_call_record list \<Rightarrow> 'j tool_result_message list \<Rightarrow> entry_id option
    \<Rightarrow> harness_error + ('j, 'f) session_write list \<times> entry_id option" where
  "tool_result_writes env i terminate calls [] parent = Inr ([], parent)"
| "tool_result_writes env i terminate [] (result # results) parent = Inl (harness_invariant ''tool result order exceeds batch'')"
| "tool_result_writes env i terminate (call # calls) (result # results) parent =
     rbind (map_err HarnessClosed (ld_tool_result_to (drive_serde env) result)) (\<lambda>message.
     rbind (tool_result_writes env i terminate calls results (Some (tcr_result_entry_id call))) (\<lambda>(writes, tip).
     Inr (entry_write (tcr_result_entry_id call) parent message (rm_is_error result \<or> terminate)
       # delete_value (pending_tool_output i (tcr_result_entry_id call)) # writes, tip)))"

text \<open>The reads after the commit only look whether the entries are there.\<close>

fun entries_committed ::
  "('m, 'j, 'f) storage_ops \<Rightarrow> entry_id list \<Rightarrow> string \<Rightarrow> call_context \<Rightarrow> ('w, 'm, 'g, 'j, unit) lane_op" where
  "entries_committed ops [] text cx = op_return ()"
| "entries_committed ops (i # ids) text cx =
     op_bind (lane_read (\<lambda>s. session_get_entry ops s i cx)) (\<lambda>entry.
     if entry = None then op_fail (harness_invariant text) else entries_committed ops ids text cx)"

definition commit_tool_results ::
  "('m, 'j, 'f) storage_ops \<Rightarrow> ('w, 'm, 'g, 'j, 'f) drive_env \<Rightarrow> 'j operation \<Rightarrow> tool_batch \<Rightarrow> 'j tool_result_message list \<Rightarrow> bool
    \<Rightarrow> call_context \<Rightarrow> ('w, 'm, 'g, 'j, 'j operation_result_record) lane_op" where
  "commit_tool_results ops env operation batch results terminate cx =
     op_bind (pause env) (\<lambda>_.
     op_bind (with_lane (\<lambda>rt.
       op_bind (op_read (\<lambda>_. tool_result_writes env (op_id operation) terminate (tb_calls batch) results (la_tip (lr_data rt)))) (\<lambda>(writes, parent).
       op_bind (op_read (\<lambda>_. ok_or parent (harness_invariant ''tool results have no tip''))) (\<lambda>trigger.
       let next = Checkpoint (batch_scope operation batch)
             \<lparr>cp_continuation = (if terminate then MayFinish False else NeedAssistant False), cp_trigger_entry_id = trigger\<rparr> in
       op_bind (state_write env operation next) (\<lambda>write.
       op_bind (tip_write env (lr_name rt) parent) (\<lambda>tip.
       op_bind (lane_commit ops (writes @ [write, tip]) cx) (\<lambda>_.
       op_bind (put_data (\<lambda>d. d\<lparr>la_tip := parent\<rparr>)) (\<lambda>_.
       op_bind (put_operation (op_meta operation) next) (\<lambda>_. op_return parent))))))))) (\<lambda>parent.
     op_bind (entries_committed ops (map tcr_result_entry_id (take (length results) (tb_calls batch)))
       ''tool result entry was not committed'' cx) (\<lambda>_.
     op_bind (lane_now (dv_lane env)) (\<lambda>ended_at.
     op_return \<lparr>or_operation_id = op_id operation, or_kind = KindRun, or_status = Completed, or_error = None,
       or_from_tip_id = om_source_tip_id (op_meta operation), or_tip_id = parent,
       or_started_at = om_started_at (op_meta operation), or_ended_at = ended_at\<rparr>))))"

definition continue_after_tools :: "'j operation_result_record \<Rightarrow> ('j, 'f) drive_step" where
  "continue_after_tools record = (if or_status record = Completed then StepContinue else StepSettled record)"

section \<open>Calls together\<close>

fun prepare_calls ::
  "('w, 'm, 'g, 'j, 'f) drive_env \<Rightarrow> 'j operation \<Rightarrow> (u32 \<times> 'j tool_call) list \<Rightarrow> tool_batch
    \<Rightarrow> ('w, 'm, 'g, 'j, ('j, 'f) session_write list \<times> tool_batch) lane_op" where
  "prepare_calls env operation [] batch = op_return ([], batch)"
| "prepare_calls env operation ((source, call) # calls) batch =
     (case call_position source (tb_calls batch) of
        None \<Rightarrow> op_fail (harness_invariant ''parallel tool batch call index is missing'')
      | Some index \<Rightarrow>
          if \<not> may_run (tcr_status (tb_calls batch ! index))
          then op_fail (harness_invariant ''parallel tool batch contains an ineligible call'')
          else
            op_bind (args_write env operation (tb_turn_id batch) source call) (\<lambda>write.
            op_bind (prepare_calls env operation calls (set_status index (EffectPending Never) batch)) (\<lambda>(writes, batch).
            op_return (write # writes, batch))))"

definition prepare_parallel_tools ::
  "('m, 'j, 'f) storage_ops \<Rightarrow> ('w, 'm, 'g, 'j, 'f) drive_env \<Rightarrow> 'j operation \<Rightarrow> tool_batch \<Rightarrow> (u32 \<times> 'j tool_call) list \<Rightarrow> call_context
    \<Rightarrow> ('w, 'm, 'g, 'j, tool_batch) lane_op" where
  "prepare_parallel_tools ops env operation batch calls cx =
     op_bind (prepare_calls env operation calls batch) (\<lambda>(writes, pending).
     op_bind (transition_with_writes ops env operation (tools_state operation pending) writes cx) (\<lambda>_.
     op_return pending))"

text \<open>A call handed to the executor: its index in the batch, its result entry, and whether its tool has begun.\<close>

record 'j running_call =
  rn_index :: nat
  rn_entry :: entry_id
  rn_call :: "'j tool_call"
  rn_begun :: bool

fun queue_calls :: "tool_call_record list \<Rightarrow> (u32 \<times> 'j tool_call) list \<Rightarrow> harness_error + 'j running_call list" where
  "queue_calls records [] = Inr []"
| "queue_calls records ((source, call) # calls) =
     (case call_position source records of
        None \<Rightarrow> Inl (harness_invariant ''parallel tool call index is missing'')
      | Some index \<Rightarrow>
          rbind (queue_calls records calls) (\<lambda>running.
          Inr (\<lparr>rn_index = index, rn_entry = tcr_result_entry_id (records ! index), rn_call = call, rn_begun = False\<rparr> # running)))"

definition commit_parallel_tool_result ::
  "('m, 'j, 'f::zero) storage_ops \<Rightarrow> ('w, 'm, 'g, 'j, 'f) drive_env \<Rightarrow> 'j operation \<Rightarrow> tool_batch \<Rightarrow> nat \<Rightarrow> 'j executed \<Rightarrow> call_context
    \<Rightarrow> ('w, 'm, 'g, 'j, ('j, 'f) drive_step + tool_batch) lane_op" where
  "commit_parallel_tool_result ops env operation batch index = (\<lambda>(message, terminate, durable) cx.
     op_bind (pause env) (\<lambda>_.
     with_lane (\<lambda>rt.
     if boundary_cancelled rt then op_bind (reconcile_abort ops env operation cx) (\<lambda>step. op_return (Inl step))
     else if \<not> index < length (tb_calls batch) then op_fail (harness_invariant ''parallel tool result call disappeared'')
     else
       op_bind (stage_output ops env operation (tcr_result_entry_id (tb_calls batch ! index)) durable cx) (\<lambda>_.
       op_bind (pause env) (\<lambda>_.
       op_bind current_operation (\<lambda>current.
       case current of
         None \<Rightarrow> op_fail (harness_invariant ''parallel tool operation disappeared'')
       | Some current \<Rightarrow>
           if op_cancelled current then op_bind (reconcile_abort ops env current cx) (\<lambda>step. op_return (Inl step))
           else
             let batch = set_status index (OutcomeReady terminate) batch in
             op_bind (transition ops env current (tools_state current batch) cx) (\<lambda>_. op_return (Inr batch))))))))"

definition calls_left :: "'j running_call list \<Rightarrow> nat" where
  "calls_left running = sum_list (map (\<lambda>call. if rn_begun call then 1 else 2) running)"

lemma calls_left_begin:
  assumes "k < length running" and "\<not> rn_begun (running ! k)"
  shows "calls_left (running[k := (running ! k)\<lparr>rn_begun := True\<rparr>]) < calls_left running"
proof -
  have "calls_left running = calls_left (take k running @ running ! k # drop (Suc k) running)"
    using id_take_nth_drop [OF assms(1)] by simp
  then show ?thesis using assms by (simp add: calls_left_def upd_conv_take_nth_drop)
qed

lemma calls_left_return:
  assumes "k < length running"
  shows "calls_left (take k running @ drop (Suc k) running) < calls_left running"
proof -
  have "calls_left running = calls_left (take k running @ running ! k # drop (Suc k) running)"
    using id_take_nth_drop [OF assms] by simp
  then show ?thesis by (simp add: calls_left_def)
qed

function (sequential) parallel_loop ::
  "('m, 'j, 'f::zero) storage_ops \<Rightarrow> ('w, 'm, 'g, 'j, 'f) drive_env \<Rightarrow> 'j operation \<Rightarrow> string \<Rightarrow> call_context \<Rightarrow> 'j running_call list
    \<Rightarrow> tool_batch \<Rightarrow> 'j tool_result_message option list \<Rightarrow> bool
    \<Rightarrow> ('w, 'm, 'g, 'j, ('j, 'f) drive_step + tool_batch \<times> 'j tool_result_message option list \<times> bool) lane_op" where
  "parallel_loop ops env operation turn cx [] batch results terminate = op_return (Inr (batch, results, terminate))"
| "parallel_loop ops env operation turn cx (r # rs) batch results terminate =
     op_bind (pause env) (\<lambda>_.
     with_lane (\<lambda>rt.
     let k = dv_next_tool env rt mod length (r # rs);
         call = (r # rs) ! k;
         returned = (\<lambda>result.
           op_bind (tool_executed env (rn_call call) result) (\<lambda>executed.
           op_bind (commit_parallel_tool_result ops env operation batch (rn_index call) executed cx) (\<lambda>outcome.
           case outcome of
             Inl step \<Rightarrow> op_return (Inl step)
           | Inr batch \<Rightarrow>
               parallel_loop ops env operation turn cx (take k (r # rs) @ drop (Suc k) (r # rs)) batch
                 (results[rn_index call := Some (fst executed)]) (terminate \<or> fst (snd executed))))) in
     if rn_begun call
     then op_bind (run_tool env (op_id operation) turn (rn_entry call) (rn_call call)) returned
     else
       op_bind (start_tool env operation (rn_call call)) (\<lambda>decided.
       case decided of
         Some result \<Rightarrow> returned (result, True)
       | None \<Rightarrow>
           parallel_loop ops env operation turn cx ((r # rs)[k := call\<lparr>rn_begun := True\<rparr>]) batch results terminate)))"
  by pat_completeness auto
termination
  by (relation "measure (\<lambda>(ops, env, operation, turn, cx, running, batch, results, terminate). calls_left running)")
    (simp_all add: calls_left_begin calls_left_return mod_less_divisor del: list.size drop_Suc_Cons list_update.simps)

declare parallel_loop.simps [simp del]

definition execute_parallel_tools ::
  "('m, 'j, 'f::zero) storage_ops \<Rightarrow> ('w, 'm, 'g, 'j, 'f) drive_env \<Rightarrow> 'j operation \<Rightarrow> tool_batch \<Rightarrow> (u32 \<times> 'j tool_call) list \<Rightarrow> call_context
    \<Rightarrow> ('w, 'm, 'g, 'j, ('j, 'f) drive_step + tool_batch \<times> 'j operation \<times> 'j tool_result_message list \<times> bool) lane_op" where
  "execute_parallel_tools ops env operation batch calls cx =
     op_bind (op_read (\<lambda>_. queue_calls (tb_calls batch) calls)) (\<lambda>running.
     op_bind (parallel_loop ops env operation (tb_turn_id batch) cx running batch (replicate (length (tb_calls batch)) None) False) (\<lambda>outcome.
     case outcome of
       Inl step \<Rightarrow> op_return (Inl step)
     | Inr (batch, results, terminate) \<Rightarrow>
         if None \<in> set results then op_fail (harness_invariant ''parallel tool result is missing'')
         else
           op_bind (pause env) (\<lambda>_.
           op_bind current_operation (\<lambda>current.
           case current of
             None \<Rightarrow> op_fail (harness_invariant ''parallel tool operation disappeared before commit'')
           | Some current \<Rightarrow>
               op_bind (pause env) (\<lambda>_.
               with_lane (\<lambda>rt.
               if boundary_cancelled rt then op_bind (reconcile_abort ops env current cx) (\<lambda>step. op_return (Inl step))
               else op_return (Inr (batch, current, map the results, terminate))))))))"

definition parallel_tools ::
  "('m, 'j, 'f::zero) storage_ops \<Rightarrow> ('w, 'm, 'g, 'j, 'f) drive_env \<Rightarrow> 'j operation \<Rightarrow> tool_batch \<Rightarrow> (u32 \<times> 'j tool_call) list \<Rightarrow> call_context
    \<Rightarrow> ('w, 'm, 'g, 'j, ('j, 'f) drive_step) lane_op" where
  "parallel_tools ops env operation batch calls cx =
     op_bind (prepare_parallel_tools ops env operation batch calls cx) (\<lambda>pending.
     op_bind (execute_parallel_tools ops env operation pending calls cx) (\<lambda>outcome.
     case outcome of
       Inl step \<Rightarrow> op_return step
     | Inr (batch, current, results, terminate) \<Rightarrow>
         op_bind (commit_tool_results ops env current batch results terminate cx) (\<lambda>record.
         op_return (continue_after_tools record))))"

section \<open>The step\<close>

definition all_calls_parallel ::
  "'j runtime_config \<Rightarrow> operation_scope \<Rightarrow> tool_batch \<Rightarrow> (u32 \<times> 'j tool_call) list \<Rightarrow> bool" where
  "all_calls_parallel config scope batch calls \<longleftrightarrow>
     rs_tool_execution (sc_settings scope) = Parallel \<and>
     list_all (\<lambda>(source, _). case call_position source (tb_calls batch) of
         None \<Rightarrow> False | Some index \<Rightarrow> may_run (tcr_status (tb_calls batch ! index))) calls \<and>
     list_all (\<lambda>(_, call). case map_of (rc_tools config) (tl_name call) of
         None \<Rightarrow> True | Some mode \<Rightarrow> mode = Parallel) calls"

definition tools ::
  "('m, 'j, 'f::zero) storage_ops \<Rightarrow> ('w, 'm, 'g, 'j, 'f) drive_env \<Rightarrow> 'j operation \<Rightarrow> call_context
    \<Rightarrow> ('w, 'm, 'g, 'j, ('j, 'f) drive_step) lane_op" where
  "tools ops env operation cx =
     (case op_state_of operation of
        Tools _ batch \<Rightarrow>
          op_bind (lane_read (\<lambda>s. session_get_entry ops s (tb_assistant_entry_id batch) cx)) (\<lambda>entry.
          op_bind (op_read (\<lambda>_.
            rbind (ok_or entry (harness_invariant ''tool batch assistant entry is missing'')) (\<lambda>entry.
            ok_or (Option.bind (entry_message entry) (ld_assistant_of (drive_serde env)))
              (harness_invariant ''tool batch assistant entry is not assistant'')))) (\<lambda>assistant.
          let calls = assistant_tool_calls assistant in
          with_lane (\<lambda>rt.
          if all_calls_parallel (lr_config rt) (op_scope operation) batch calls \<and> 1 < length calls
          then parallel_tools ops env operation batch calls cx
          else
            op_bind (sequential_tools ops env operation cx calls batch [] False) (\<lambda>outcome.
            case outcome of
              Inl record \<Rightarrow> op_return (StepSettled record)
            | Inr (batch, results, terminate) \<Rightarrow>
                op_bind (commit_tool_results ops env operation batch results terminate cx) (\<lambda>record.
                op_return (continue_after_tools record))))))
      | _ \<Rightarrow> op_fail (harness_invariant ''tools dispatcher received another state''))"

end
