(* ===== verification/Lane_Summary.thy ===== *)
theory Lane_Summary
  imports Lane_Response
begin

text \<open>
  Summaries and navigation (\<open>harness/runtime/drive.rs\<close>): the generation of a compaction or branch
  summary from its stored preparation, its retries, the entries it becomes, and the move of a lane's
  tip. The planning of a summary and its text come from \<open>harness/compaction\<close>, which the environment
  stands for, with the request it makes.
\<close>

definition load_structural_preparation ::
  "('m, 'j, 'f) storage_ops \<Rightarrow> ('w, 'm, 'g, 'j, 'f) drive_env \<Rightarrow> 'j operation \<Rightarrow> string \<Rightarrow> call_context
    \<Rightarrow> ('w, 'm, 'g, 'j, ('j, 'f) structural_preparation) lane_op" where
  "load_structural_preparation ops env operation task_id cx =
     op_bind (lane_read (lane_get ops (ld_preparation (drive_serde env)) (operation_preparation (op_id operation) task_id) cx)) (\<lambda>stored.
     op_read (\<lambda>_. ok_or (map_option sv_value stored) (harness_invariant ''summary preparation is missing'')))"

fun summarizes :: "operation_intent \<Rightarrow> bool" where
  "summarizes (IntentNavigation _ summarize _ _) = summarize"
| "summarizes _ = False"

fun is_branch_preparation :: "('j, 'f) structural_preparation \<Rightarrow> bool" where
  "is_branch_preparation (PrepBranchSummary _ _ _) = True"
| "is_branch_preparation (PrepCompaction _ _ _ _ _ _ _ _) = False"

section \<open>Generation\<close>

definition start_summary_generation ::
  "('m, 'j, 'f) storage_ops \<Rightarrow> ('w, 'm, 'g, 'j, 'f) drive_env \<Rightarrow> 'j operation \<Rightarrow> summary_task \<Rightarrow> call_context
    \<Rightarrow> ('w, 'm, 'g, 'j, ('j, 'f) drive_step) lane_op" where
  "start_summary_generation ops env operation task cx =
     op_bind (load_structural_preparation ops env operation (st_task_id task) cx) (\<lambda>durable.
     if is_branch_preparation durable \<noteq> summarizes (om_intent (op_meta operation))
     then op_fail (harness_invariant ''summary preparation does not match operation intent'')
     else
       op_bind get_config (\<lambda>config.
       case en_get_model (dv_lane env) (mo_provider (rc_model config)) (mo_id (rc_model config)) of
         None \<Rightarrow> settled_step (settle_failure ops env operation ''model_unavailable''
           (''configured model '' @ mo_provider (rc_model config) @ ''/'' @ mo_id (rc_model config) @ '' is unavailable'') cx)
       | Some _ \<Rightarrow>
           op_bind (new_id (dv_lane env)) (\<lambda>result_entry_id.
           op_bind (op_read (\<lambda>_. normalized_retry (rc_retry config))) (\<lambda>policy.
           op_bind (transition ops env operation (SummaryReady (op_scope operation)
             \<lparr>sn_task = task, sn_summary_context =
               \<lparr>sx_result_entry_id = result_entry_id, sx_configuration = captured_configuration config,
                sx_stream_options = rc_stream_options config, sx_retry_policy = policy\<rparr>\<rparr> 1) cx) (\<lambda>_.
           op_return StepContinue)))))"

definition ensure_summary_request ::
  "('m, 'j, 'f) storage_ops \<Rightarrow> ('w, 'm, 'g, 'j, 'f) drive_env \<Rightarrow> 'j operation \<Rightarrow> 'j summary_generation \<Rightarrow> u64 \<Rightarrow> call_context
    \<Rightarrow> ('w, 'm, 'g, 'j, summary_request_ref) lane_op" where
  "ensure_summary_request ops env operation gen attempt cx =
     (case op_state_of operation of
        SummaryEffectPending _ _ _ (Some request) _ \<Rightarrow> op_return request
      | state \<Rightarrow>
          op_bind (new_id (dv_lane env)) (\<lambda>usage_id.
          op_bind (op_read (\<lambda>_. let index = saturating_sub attempt 1 in
            if unat index < 2 ^ 32 then Inr (ucast index) else Inl (HarnessClosed ''summary request index overflow''))) (\<lambda>index.
          let request = \<lparr>sq_index = index, sq_usage_id = usage_id\<rparr>;
              usage_ids = (case state of SummaryEffectPending _ _ _ _ usage_ids \<Rightarrow> usage_ids | _ \<Rightarrow> []) in
          op_bind (transition ops env operation
            (SummaryEffectPending (op_scope operation) gen attempt (Some request) usage_ids) cx) (\<lambda>_.
          op_return request))))"

definition summary_model :: "('w, 'm, 'g, 'j, 'f) drive_env \<Rightarrow> 'j summary_generation \<Rightarrow> harness_error + model" where
  "summary_model env gen =
     (let model = lc_model (sx_configuration (sn_summary_context gen)) in
      ok_or (en_get_model (dv_lane env) (mi_provider model) (mi_model_id model))
        (HarnessClosed (''summary model '' @ mi_provider model @ ''/'' @ mi_model_id model @ '' is unavailable'')))"

text \<open>\<open>execute_summary\<close>, with the base options of \<open>summary_request\<close>: a summary is never deferred.\<close>

definition execute_summary ::
  "('w, 'm, 'g, 'j, 'f) drive_env \<Rightarrow> ('j, 'f) structural_preparation \<Rightarrow> 'j summary_generation \<Rightarrow> model \<Rightarrow> u64
    \<Rightarrow> ('w, 'm, 'g, 'j, (string \<times> string) + ('j, 'f) compact_result + 'f branch_summary_result) lane_op" where
  "execute_summary env durable gen model attempt =
     outside env (mm_summary (dv_models env) durable (st_custom_instructions (sn_task gen)) model
       (lc_thinking_level (sx_configuration (sn_summary_context gen)))
       ((sx_stream_options (sn_summary_context gen))\<lparr>sp_deferred := Some (DeferredFlag False)\<rparr>) attempt)"

definition summary_failure ::
  "('m, 'j, 'f::zero) storage_ops \<Rightarrow> ('w, 'm, 'g, 'j, 'f) drive_env \<Rightarrow> 'j operation \<Rightarrow> 'j summary_generation \<Rightarrow> u64
    \<Rightarrow> string \<Rightarrow> string \<Rightarrow> call_context \<Rightarrow> ('w, 'm, 'g, 'j, ('j, 'f) drive_step) lane_op" where
  "summary_failure ops env operation gen attempt code message cx =
     op_bind (pause env) (\<lambda>_.
     with_lane (\<lambda>rt.
     if boundary_cancelled rt then reconcile_abort ops env operation cx
     else
       op_bind (retry_or_stop env ''summary '' (sx_retry_policy (sn_summary_context gen)) attempt message) (\<lambda>retry.
       case retry of
         Some wait \<Rightarrow>
           op_bind (transition ops env operation (SummaryRetryWait (op_scope operation) gen wait) cx) (\<lambda>_.
           op_return (StepWaitingRetry (rw_not_before wait)))
       | None \<Rightarrow> settled_step (settle_failure ops env operation code message cx))))"

section \<open>Publication\<close>

definition summary_usage_writes :: "summary_request_ref \<Rightarrow> entry_id \<Rightarrow> 'f usage option \<Rightarrow> ('j, 'f) session_write list" where
  "summary_usage_writes request entry usage = (case usage of
     None \<Rightarrow> []
   | Some usage \<Rightarrow> [WriteUsage \<lparr>nu_id = sq_usage_id request, nu_usage = usage, nu_entry_id = Some entry,
       nu_adjustment = False, nu_details = None\<rparr>])"

text \<open>The checkpoint a run goes on from; after an overflow the summary is what the assistant answers.\<close>

definition next_checkpoint :: "'j operation \<Rightarrow> 'j summary_generation \<Rightarrow> entry_id \<Rightarrow> 'j op_state option" where
  "next_checkpoint operation gen summary_id = (case st_boundary (sn_task gen) of
     ResumeCheckpoint resume_after \<Rightarrow>
       Some (Checkpoint (op_scope operation)
         (if cp_continuation resume_after = NeedAssistant True then resume_after\<lparr>cp_trigger_entry_id := summary_id\<rparr> else resume_after))
   | _ \<Rightarrow> None)"

definition compaction_writes ::
  "('w, 'm, 'g, 'j, 'f) drive_env \<Rightarrow> 'j operation \<Rightarrow> lane_name \<Rightarrow> 'j op_state option \<Rightarrow> summary_request_ref \<Rightarrow> ('j, 'f) compact_result
    \<Rightarrow> entry_id option \<Rightarrow> entry_id \<Rightarrow> ('w, 'm, 'g, 'j, ('j, 'f) session_write list) lane_op" where
  "compaction_writes env operation name next request result parent summary_id =
     op_bind (tip_write env name (Some summary_id)) (\<lambda>tip.
     op_bind (case next of
         None \<Rightarrow> op_return []
       | Some state \<Rightarrow> op_bind (state_write env operation state) (\<lambda>write. op_return [write])) (\<lambda>state_writes.
     op_return ([WriteEntry \<lparr>ne_id = summary_id, ne_parent_id = parent,
         ne_body = BodyCompaction (cr_summary result) (cr_retained_tail result) (cr_tokens_before result) (cr_details result)
           (cr_usage result) False\<rparr>, tip] @
       summary_usage_writes request summary_id (cr_usage result) @ state_writes)))"

definition commit_compaction ::
  "('m, 'j, 'f) storage_ops \<Rightarrow> ('w, 'm, 'g, 'j, 'f) drive_env \<Rightarrow> 'j operation \<Rightarrow> 'j summary_generation \<Rightarrow> summary_request_ref
    \<Rightarrow> ('j, 'f) compact_result \<Rightarrow> call_context \<Rightarrow> ('w, 'm, 'g, 'j, ('j, 'f) drive_step) lane_op" where
  "commit_compaction ops env operation gen request result cx =
     (let summary_id = sx_result_entry_id (sn_summary_context gen);
          next = next_checkpoint operation gen summary_id in
      op_bind (pause env) (\<lambda>_.
      op_bind (with_lane (\<lambda>rt.
        op_bind (compaction_writes env operation (lr_name rt) next request result (la_tip (lr_data rt)) summary_id) (\<lambda>writes.
        op_bind (lane_commit ops writes cx) (\<lambda>_.
        op_bind (put_data (\<lambda>d. d\<lparr>la_tip := Some summary_id\<rparr>)) (\<lambda>_.
        case next of None \<Rightarrow> op_return () | Some state \<Rightarrow> put_operation (op_meta operation) state))))) (\<lambda>_.
      op_bind (lane_read (\<lambda>s. session_get_entry ops s summary_id cx)) (\<lambda>entry.
      if entry = None then op_fail (harness_invariant ''compaction entry was not committed'')
      else if next \<noteq> None then op_return StepContinue
      else settled_step (settle ops env operation Completed None cx)))))"

definition commit_branch_summary ::
  "('m, 'j, 'f) storage_ops \<Rightarrow> ('w, 'm, 'g, 'j, 'f) drive_env \<Rightarrow> 'j operation \<Rightarrow> 'j summary_generation \<Rightarrow> summary_request_ref
    \<Rightarrow> 'f branch_summary_result \<Rightarrow> call_context \<Rightarrow> ('w, 'm, 'g, 'j, ('j, 'f) drive_step) lane_op" where
  "commit_branch_summary ops env operation gen request result cx =
     (case om_intent (op_meta operation) of
        IntentNavigation target True label _ \<Rightarrow>
          op_bind (pause env) (\<lambda>_.
          op_bind get_data (\<lambda>d.
          op_bind (case (la_tip d, target) of
              (Some old_tip, Some target) \<Rightarrow>
                op_bind (lane_branch ops (dv_lane env) cx) (\<lambda>branch.
                op_bind (lane_read (\<lambda>s. en_collect_branch (dv_lane env) s branch old_tip target cx)) (\<lambda>(_, ancestor).
                op_return ancestor))
            | _ \<Rightarrow> op_return None) (\<lambda>from_id.
          let summary_id = sx_result_entry_id (sn_summary_context gen);
              next = NavigationReadyToCommit (op_scope operation) target label in
          op_bind (with_lane (\<lambda>rt. tip_write env (lr_name rt) (Some summary_id))) (\<lambda>tip.
          op_bind (state_write env operation next) (\<lambda>write.
          op_bind (lane_commit ops ([WriteEntry \<lparr>ne_id = summary_id, ne_parent_id = la_tip d,
              ne_body = BodyBranchSummary from_id (bs_summary result)
                (Some (dv_json_files env (bs_read_files result) (bs_modified_files result))) (bs_usage result) False\<rparr>, tip, write] @
            summary_usage_writes request summary_id (bs_usage result)) cx) (\<lambda>_.
          op_bind (pause env) (\<lambda>_.
          op_bind (put_data (\<lambda>d. d\<lparr>la_tip := Some summary_id\<rparr>)) (\<lambda>_.
          op_bind (put_operation (op_meta operation) next) (\<lambda>_.
          op_bind (lane_read (\<lambda>s. session_get_entry ops s summary_id cx)) (\<lambda>entry.
          if entry = None then op_fail (harness_invariant ''branch summary entry was not committed'')
          else op_return StepContinue))))))))))
      | _ \<Rightarrow> op_fail (harness_invariant ''branch summary belongs to navigation''))"

section \<open>The steps\<close>

definition structural ::
  "('m, 'j, 'f::zero) storage_ops \<Rightarrow> ('w, 'm, 'g, 'j, 'f) drive_env \<Rightarrow> 'j operation \<Rightarrow> call_context
    \<Rightarrow> ('w, 'm, 'g, 'j, ('j, 'f) drive_step) lane_op" where
  "structural ops env operation cx =
     (let generate = (\<lambda>gen attempt.
        op_bind (load_structural_preparation ops env operation (st_task_id (sn_task gen)) cx) (\<lambda>durable.
        op_bind (ensure_summary_request ops env operation gen attempt cx) (\<lambda>request.
        op_bind (op_read (\<lambda>_. summary_model env gen)) (\<lambda>model.
        op_bind (execute_summary env durable gen model attempt) (\<lambda>result.
        case result of
          Inl (code, message) \<Rightarrow> summary_failure ops env operation gen attempt code message cx
        | Inr (Inl compaction) \<Rightarrow> commit_compaction ops env operation gen request compaction cx
        | Inr (Inr branch) \<Rightarrow> commit_branch_summary ops env operation gen request branch cx))))) in
      case op_state_of operation of
        SummaryDeciding _ task \<Rightarrow> start_summary_generation ops env operation task cx
      | SummaryReady _ gen next_attempt \<Rightarrow> generate gen next_attempt
      | SummaryEffectPending _ gen attempt _ _ \<Rightarrow> generate gen attempt
      | _ \<Rightarrow> op_fail (harness_invariant ''structural dispatcher received another state''))"

definition navigation ::
  "('m, 'j, 'f) storage_ops \<Rightarrow> ('w, 'm, 'g, 'j, 'f) drive_env \<Rightarrow> 'j operation \<Rightarrow> call_context
    \<Rightarrow> ('w, 'm, 'g, 'j, ('j, 'f) drive_step) lane_op" where
  "navigation ops env operation cx =
     (case op_state_of operation of
        NavigationReadyToCommit _ target label \<Rightarrow>
          op_bind (case target of
              None \<Rightarrow> op_return ()
            | Some i \<Rightarrow>
                op_bind (lane_read (\<lambda>s. session_get_entry ops s i cx)) (\<lambda>entry.
                if entry = None then op_fail (HarnessUnknownTarget i ''navigation target disappeared'') else op_return ())) (\<lambda>_.
          op_bind (pause env) (\<lambda>_.
          with_lane (\<lambda>rt.
          op_bind (tip_write env (lr_name rt) target) (\<lambda>tip.
          op_bind (case label of
              None \<Rightarrow> op_return []
            | Some text \<Rightarrow>
                (case target of
                   None \<Rightarrow> op_fail (InvalidNavigation (lr_name rt) ''root_label'' ''a root navigation cannot carry a label'')
                 | Some i \<Rightarrow> op_bind (lane_write (entry_label i) (string_codec (ld_serde (drive_serde env))) text) (\<lambda>write.
                     op_return [write]))) (\<lambda>label_writes.
          op_bind (lane_now (dv_lane env)) (\<lambda>ended_at.
          let record = \<lparr>or_operation_id = op_id operation, or_kind = KindNavigation, or_status = Completed, or_error = None,
                or_from_tip_id = la_tip (lr_data rt), or_tip_id = target,
                or_started_at = om_started_at (op_meta operation), or_ended_at = ended_at\<rparr>;
              state = (la_state (lr_data rt))\<lparr>ls_current_operation_id := None, ls_last_operation_id := Some (op_id operation)\<rparr> in
          op_bind (lane_write (lane_state_address (lr_name rt)) (ld_state (drive_serde env)) state) (\<lambda>write.
          op_bind (lane_write (operation_result (op_id operation)) (ld_result (drive_serde env)) record) (\<lambda>result_write.
          op_bind (lane_commit ops (tip # label_writes @ [write, result_write] @ op_cleanup_writes (op_id operation) None) cx) (\<lambda>_.
          op_bind (put_data (\<lambda>d. d\<lparr>la_tip := target, la_state := state, la_operation := None, la_last_result := Some record\<rparr>)) (\<lambda>_.
          op_return (StepSettled record)))))))))))
      | _ \<Rightarrow> op_fail (harness_invariant ''navigation dispatcher received another state''))"

end
