(* ===== verification/Lane_Loop.thy ===== *)
theory Lane_Loop
  imports Lane_Tool Lane_Summary
begin

text \<open>
  The drive of an operation (\<open>harness/runtime/drive.rs\<close>): the choice of the step from the stored
  state, and the loop that takes steps until the operation waits or has settled. The loop may go on
  for ever, as a model that keeps calling tools makes it do: it has the value \<open>None\<close> then.
\<close>

record drive_options =
  do_operation_id :: operation_id
  do_wait_for_retry :: bool
  do_poll_deferred :: bool

definition current_drive_operation ::
  "('w, 'm, 'g, 'j, 'f) drive_env \<Rightarrow> drive_options \<Rightarrow> ('w, 'm, 'g, 'j, 'j operation) lane_op" where
  "current_drive_operation env options =
     op_bind (pause env) (\<lambda>_.
     op_read (\<lambda>rt.
     let last = ls_last_operation_id (la_state (lr_data rt)) in
     case la_operation (lr_data rt) of
       None \<Rightarrow> Inl (OperationMismatch (lr_name rt) (do_operation_id options) None last ''operation is no longer current'')
     | Some operation \<Rightarrow>
         if op_id operation \<noteq> do_operation_id options
         then Inl (OperationMismatch (lr_name rt) (do_operation_id options) (Some (op_id operation)) last
           ''drive operation id does not match current operation'')
         else Inr operation))"

definition run_before_drive ::
  "('w, 'm, 'g, 'j, 'f) drive_env \<Rightarrow> 'j operation \<Rightarrow> call_context \<Rightarrow> ('w, 'm, 'g, 'j, unit) lane_op" where
  "run_before_drive env operation cx =
     (case hk_before_drive (dv_hooks env) of
        None \<Rightarrow> op_return ()
      | Some hook \<Rightarrow>
          if op_cancelled operation then op_return ()
          else with_lane (\<lambda>rt.
            op_bind (run_with_gate env hook (lr_name rt, op_id operation, operation_kind_of (om_intent (op_meta operation))) cx) (\<lambda>result.
            case result of
              Inr _ \<Rightarrow> op_return ()
            | Inl (HookGate (GateAborted _)) \<Rightarrow> pause env
            | Inl error \<Rightarrow> op_fail (hook_failure error))))"

definition dispatch_state ::
  "('m, 'j, 'f::zero) storage_ops \<Rightarrow> ('w, 'm, 'g, 'j, 'f) drive_env \<Rightarrow> 'j operation \<Rightarrow> drive_options \<Rightarrow> call_context
    \<Rightarrow> ('w, 'm, 'g, 'j, ('j, 'f) drive_step) lane_op" where
  "dispatch_state ops env operation options cx = (case state_at (op_state_of operation) of
     At_Starting \<Rightarrow> start_run ops env operation cx
   | At_Checkpoint \<Rightarrow> checkpoint ops env operation cx
   | At_AssistantReady \<Rightarrow> generation ops env operation cx
   | At_AssistantEffectPending \<Rightarrow> recover_assistant_effect ops env operation cx
   | At_AssistantRetryWait \<Rightarrow> retry_wait ops env operation (do_wait_for_retry options) cx
   | At_SummaryRetryWait \<Rightarrow> retry_wait ops env operation (do_wait_for_retry options) cx
   | At_Tools \<Rightarrow> tools ops env operation cx
   | At_DeferredSuspended \<Rightarrow> deferred_suspended ops env operation (do_poll_deferred options) cx
   | At_DeferredEffectPending \<Rightarrow> recover_deferred_effect ops env operation (do_poll_deferred options) cx
   | At_SummaryDeciding \<Rightarrow> structural ops env operation cx
   | At_SummaryReady \<Rightarrow> structural ops env operation cx
   | At_SummaryEffectPending \<Rightarrow> structural ops env operation cx
   | At_NavigationReadyToCommit \<Rightarrow> navigation ops env operation cx)"

definition drive_outcome_of :: "operation_id \<Rightarrow> ('j, 'f) drive_step \<Rightarrow> harness_error + ('j, 'f) drive_outcome" where
  "drive_outcome_of i step = (case step of
     StepContinue \<Rightarrow> Inl (harness_invariant ''terminal drive step requested for continue'')
   | StepWaitingRetry not_before \<Rightarrow> Inr (DriveWaitingRetry i not_before)
   | StepWaitingDeferred handle \<Rightarrow> Inr (DriveWaitingDeferred i handle)
   | StepSettled record \<Rightarrow> Inr (DriveSettled record))"

text \<open>One turn of the loop: the outcome, or \<open>None\<close> to go on.\<close>

definition drive_turn ::
  "('m, 'j, 'f::zero) storage_ops \<Rightarrow> ('w, 'm, 'g, 'j, 'f) drive_env \<Rightarrow> drive_options \<Rightarrow> call_context \<Rightarrow> bool
    \<Rightarrow> ('w, 'm, 'g, 'j, ('j, 'f) drive_outcome option) lane_op" where
  "drive_turn ops env options cx before_drive_invoked =
     op_bind (op_read lane_ensure_open) (\<lambda>_.
     op_bind (current_drive_operation env options) (\<lambda>operation.
     op_bind (if before_drive_invoked then op_return () else run_before_drive env operation cx) (\<lambda>_.
     if op_cancelled operation
     then
       op_bind (reconcile_abort ops env operation cx) (\<lambda>step.
       if step = StepContinue then op_return None
       else op_bind (op_read (\<lambda>_. drive_outcome_of (do_operation_id options) step)) (\<lambda>outcome. op_return (Some outcome)))
     else
       op_bind (dispatch_state ops env operation options cx) (\<lambda>step.
       if step = StepContinue
       then
         op_bind (pause env) (\<lambda>_.
         op_bind current_operation (\<lambda>current.
         case current of
           None \<Rightarrow> op_fail (harness_invariant ''drive continued after operation disappeared'')
         | Some current \<Rightarrow>
             if op_state_of current = op_state_of operation \<and> \<not> op_cancelled current
             then op_fail (harness_invariant ''drive procedure made no progress'')
             else op_return None))
       else op_bind (op_read (\<lambda>_. drive_outcome_of (do_operation_id options) step)) (\<lambda>outcome. op_return (Some outcome))))))"

partial_function (option) drive_loop ::
  "('m, 'j, 'f::zero) storage_ops \<Rightarrow> ('w, 'm, 'g, 'j, 'f) drive_env \<Rightarrow> drive_options \<Rightarrow> call_context \<Rightarrow> bool
    \<Rightarrow> ('w, 'm, 'g, 'j) lane_runtime \<Rightarrow> ((harness_error + ('j, 'f) drive_outcome) \<times> ('w, 'm, 'g, 'j) lane_runtime) option" where
  "drive_loop ops env options cx before_drive_invoked rt =
     (case drive_turn ops env options cx before_drive_invoked rt of
        (Inl e, rt') \<Rightarrow> Some (Inl e, rt')
      | (Inr (Some outcome), rt') \<Rightarrow> Some (Inr outcome, rt')
      | (Inr None, rt') \<Rightarrow> drive_loop ops env options cx True rt')"

text \<open>
  \<open>drive\<close>, where no drive of the same operation is under way (one is waited for); \<open>active\<close> is the
  operation another drive has claimed the lane for. A new drive has a gate of its own.
\<close>

definition drive ::
  "('m, 'j, 'f::zero) storage_ops \<Rightarrow> ('w, 'm, 'g, 'j, 'f) drive_env \<Rightarrow> operation_id option \<Rightarrow> drive_options \<Rightarrow> call_context
    \<Rightarrow> ('w, 'm, 'g, 'j) lane_runtime \<Rightarrow> ((harness_error + ('j, 'f) drive_outcome) \<times> ('w, 'm, 'g, 'j) lane_runtime) option" where
  "drive ops env active options cx rt =
     (case lane_ensure_open rt of
        Inl e \<Rightarrow> Some (Inl e, rt)
      | Inr _ \<Rightarrow>
          (case active of
             Some i \<Rightarrow>
               Some (Inl (LaneBusy (lr_name rt) i
                 (case la_operation (lr_data rt) of Some operation \<Rightarrow> operation_kind_of (om_intent (op_meta operation)) | None \<Rightarrow> KindRun)
                 ''another operation is currently driving this lane''), rt)
           | None \<Rightarrow> drive_loop ops env options cx False (rt\<lparr>lr_abort := False\<rparr>)))"

end
