(* ===== verification/Drive_Rules.thy ===== *)
theory Drive_Rules
  imports Lane_Loop Lane_Contract
begin

text \<open>
  Rules for the procedures of a drive. Unlike the calls of a lane, a drive gives way to other tasks
  in its middle, so its procedures are followed with a postcondition for each way they end, and an
  invariant that other tasks keep.
\<close>

section \<open>Triples\<close>

text \<open>
  \<open>leads val v m Q E\<close>: started in a lane with the view \<open>v\<close>, the step \<open>m\<close> ends with a result \<open>a\<close> and a
  view for which \<open>Q a\<close> holds, or with an error and a view for which \<open>E\<close> holds.
\<close>

definition leads ::
  "('m \<Rightarrow> slot \<rightharpoonup> 'j) \<Rightarrow> 'j lane_view \<Rightarrow> ('e, ('w, 'm, 'g, 'j) lane_runtime, 'a) eop
    \<Rightarrow> ('a \<Rightarrow> 'j lane_view \<Rightarrow> bool) \<Rightarrow> ('j lane_view \<Rightarrow> bool) \<Rightarrow> bool" where
  "leads val v m Q E \<longleftrightarrow> (\<forall>rt. view_of val rt = v \<longrightarrow>
     (case m rt of (Inr a, rt') \<Rightarrow> Q a (view_of val rt') | (Inl _, rt') \<Rightarrow> E (view_of val rt')))"

named_theorems leads_rules \<open>structural rules for triples\<close>

lemma leadsI:
  "(\<And>rt a rt'. view_of val rt = v \<Longrightarrow> m rt = (Inr a, rt') \<Longrightarrow> Q a (view_of val rt')) \<Longrightarrow>
   (\<And>rt e rt'. view_of val rt = v \<Longrightarrow> m rt = (Inl e, rt') \<Longrightarrow> E (view_of val rt')) \<Longrightarrow> leads val v m Q E"
  by (auto simp: leads_def split: prod.split sum.split)

lemma leads_Inr: "leads val v m Q E \<Longrightarrow> view_of val rt = v \<Longrightarrow> m rt = (Inr a, rt') \<Longrightarrow> Q a (view_of val rt')"
  and leads_Inl: "leads val v m Q E \<Longrightarrow> view_of val rt = v \<Longrightarrow> m rt = (Inl e, rt') \<Longrightarrow> E (view_of val rt')"
  by (force simp: leads_def)+

lemma leads_snd:
  assumes "leads val v m (\<lambda>_. P) P" and "view_of val rt = v"
  shows "P (view_of val (snd (m rt)))"
  using leads_Inr [OF assms] leads_Inl [OF assms] by (cases "m rt"; cases "fst (m rt)") simp_all

lemma leads_seq:
  assumes "leads val v m Q' E" and "\<And>a v'. Q' a v' \<Longrightarrow> leads val v' (f a) Q E"
  shows "leads val v (op_bind m f) Q E"
  using assms unfolding leads_def op_bind_def by (fastforce split: prod.splits sum.splits)

lemma leads_weaken:
  assumes "leads val v m Q' E'" and "\<And>a v. Q' a v \<Longrightarrow> Q a v" and "\<And>v. E' v \<Longrightarrow> E v"
  shows "leads val v m Q E"
  using assms unfolding leads_def by (fastforce split: prod.splits sum.splits)

lemma leads_silent: "keeps (view_of val) m \<Longrightarrow> E v \<Longrightarrow> (\<And>a. Q a v) \<Longrightarrow> leads val v m Q E"
  by (rule leadsI) (metis keeps_def snd_conv)+

lemma leads_silent_bind:
  assumes "keeps (view_of val) m" and "E v" and "\<And>a. leads val v (f a) Q E"
  shows "leads val v (op_bind m f) Q E"
  by (rule leads_seq [OF leads_silent [OF assms(1), of E v "\<lambda>_ v'. v' = v"]]) (use assms in auto)

lemma leads_basic [leads_rules]:
  "Q a v \<Longrightarrow> leads val v (op_return a) Q E" "E v \<Longrightarrow> leads val v (op_fail e) Q E"
  by (simp_all add: leads_def)

lemma op_bind_fail: "op_bind (op_fail e) f = op_fail e"
  by (rule ext) (simp add: op_bind_def)

lemma leads_with [leads_rules]:
  "(\<And>rt. view_of val rt = v \<Longrightarrow> leads val v (F rt) Q E) \<Longrightarrow> leads val v (with_lane F) Q E"
  by (simp add: leads_def with_lane_def)

lemma leads_with_bind [leads_rules]:
  "(\<And>rt. view_of val rt = v \<Longrightarrow> leads val v (op_bind (F rt) f) Q E) \<Longrightarrow> leads val v (op_bind (with_lane F) f) Q E"
  by (simp add: leads_def with_lane_def op_bind_def)

lemma leads_read:
  "E v \<Longrightarrow> (\<And>rt a. view_of val rt = v \<Longrightarrow> g rt = Inr a \<Longrightarrow> Q a v) \<Longrightarrow> leads val v (op_read g) Q E"
  by (auto simp: leads_def split: sum.splits)

lemma leads_read_bind [leads_rules]:
  assumes "E v" and "\<And>rt a. view_of val rt = v \<Longrightarrow> g rt = Inr a \<Longrightarrow> leads val v (f a) Q E"
  shows "leads val v (op_bind (op_read g) f) Q E"
  by (rule leads_seq [OF leads_read [where Q = "\<lambda>a v'. v' = v \<and> (\<exists>rt. view_of val rt = v \<and> g rt = Inr a)"]])
    (use assms in auto)

lemma leads_if [leads_rules]:
  "(c \<Longrightarrow> leads val v a Q E) \<Longrightarrow> (\<not> c \<Longrightarrow> leads val v b Q E) \<Longrightarrow> leads val v (if c then a else b) Q E"
  by simp

lemma leads_option [leads_rules]:
  "(x = None \<Longrightarrow> leads val v a Q E) \<Longrightarrow> (\<And>y. x = Some y \<Longrightarrow> leads val v (f y) Q E) \<Longrightarrow>
   leads val v (case x of None \<Rightarrow> a | Some y \<Rightarrow> f y) Q E"
  by (cases x) simp_all

lemma leads_sum [leads_rules]:
  "(\<And>y. x = Inl y \<Longrightarrow> leads val v (f y) Q E) \<Longrightarrow> (\<And>y. x = Inr y \<Longrightarrow> leads val v (g y) Q E) \<Longrightarrow>
   leads val v (case x of Inl y \<Rightarrow> f y | Inr y \<Rightarrow> g y) Q E"
  by (cases x) simp_all

lemma leads_prod [leads_rules]:
  "(\<And>a b. p = (a, b) \<Longrightarrow> leads val v (f a b) Q E) \<Longrightarrow> leads val v (case p of (a, b) \<Rightarrow> f a b) Q E"
  by (cases p) simp

lemma leads_hook_case [leads_rules]:
  "(\<And>rejection. x = HookGate rejection \<Longrightarrow> leads val v (f rejection) Q E) \<Longrightarrow>
   (\<And>fault. x = HookHandler fault \<Longrightarrow> leads val v (g fault) Q E) \<Longrightarrow>
   leads val v (case x of HookGate rejection \<Rightarrow> f rejection | HookHandler fault \<Rightarrow> g fault) Q E"
  by (cases x) simp_all

lemma leads_gate_case [leads_rules]:
  "(\<And>a. x = GateAborted a \<Longrightarrow> leads val v (f a) Q E) \<Longrightarrow> (\<And>e. x = GateRejectedClosed e \<Longrightarrow> leads val v (g e) Q E) \<Longrightarrow>
   leads val v (case x of GateAborted a \<Rightarrow> f a | GateRejectedClosed e \<Rightarrow> g e) Q E"
  by (cases x) simp_all

lemma leads_bool [leads_rules]:
  "(x \<Longrightarrow> leads val v a Q E) \<Longrightarrow> (\<not> x \<Longrightarrow> leads val v b Q E) \<Longrightarrow> leads val v (case x of True \<Rightarrow> a | False \<Rightarrow> b) Q E"
  by (cases x) simp_all

lemma leads_boundary [leads_rules]:
  "(x = Aborted_boundary \<Longrightarrow> leads val v a Q E) \<Longrightarrow> (\<And>r. x = Reached r \<Longrightarrow> leads val v (f r) Q E) \<Longrightarrow>
   leads val v (case x of Aborted_boundary \<Rightarrow> a | Reached r \<Rightarrow> f r) Q E"
  by (cases x) simp_all

lemma leads_continuation [leads_rules]:
  "(\<And>used. x = NeedAssistant used \<Longrightarrow> leads val v (f used) Q E) \<Longrightarrow> (\<And>final. x = MayFinish final \<Longrightarrow> leads val v (g final) Q E) \<Longrightarrow>
   leads val v (case x of NeedAssistant used \<Rightarrow> f used | MayFinish final \<Rightarrow> g final) Q E"
  by (cases x) simp_all

lemma leads_put: "Q () (v\<lparr>v_data := g (v_data v)\<rparr>) \<Longrightarrow> leads val v (put_data g) Q E"
  by (auto simp: leads_def put_data_def view_of_def)

lemma leads_put_bind:
  "leads val (v\<lparr>v_data := g (v_data v)\<rparr>) (f ()) Q E \<Longrightarrow> leads val v (op_bind (put_data g) f) Q E"
  by (rule leads_seq [OF leads_put [where Q = "\<lambda>_ v'. v' = v\<lparr>v_data := g (v_data v)\<rparr>"]]) auto

lemma leads_write [leads_rules]:
  assumes "E v" and "\<And>j. cd_to c x = Inr j \<Longrightarrow> leads val v (f (WriteValue (ValueSet (va_namespace a) (va_key a) j))) Q E"
  shows "leads val v (op_bind (lane_write a c x) f) Q E"
proof (cases "cd_to c x")
  case (Inl e)
  then show ?thesis
    using assms(1) by (simp add: leads_def op_bind_def lane_write_def lane_read_def set_json_def set_value_def)
next
  case (Inr j)
  then show ?thesis
    using assms by (simp add: leads_def op_bind_def lane_write_def lane_read_def set_json_def set_value_def)
qed

text \<open>An error of a stream becomes a value.\<close>

lemma leads_try:
  "leads val v m (\<lambda>a. Q (Inr a)) (\<lambda>v. \<forall>e. Q (Inl e) v) \<Longrightarrow> leads val v (try_stream m) Q E"
proof (rule leadsI)
  fix rt a rt'
  assume m: "leads val v m (\<lambda>a. Q (Inr a)) (\<lambda>v. \<forall>e. Q (Inl e) v)" and v: "view_of val rt = v" and "try_stream m rt = (Inr a, rt')"
  then have "m rt = (a, rt')" by (simp add: try_stream_def Let_def split: prod.splits)
  with leads_Inr [OF m v] leads_Inl [OF m v] show "Q a (view_of val rt')" by (cases a) auto
qed (simp add: try_stream_def Let_def split: prod.splits)

section \<open>Other tasks\<close>

text \<open>What other tasks and running tools may do to a lane while a drive waits: whatever keeps \<open>J\<close>.\<close>

definition undisturbed ::
  "('m \<Rightarrow> slot \<rightharpoonup> 'j) \<Rightarrow> ('w, 'm, 'g, 'j, 'f) drive_env \<Rightarrow> ('j lane_view \<Rightarrow> bool) \<Rightarrow> bool" where
  "undisturbed val env J \<longleftrightarrow>
     (\<forall>rt. J (view_of val rt) \<longrightarrow> J (view_of val (en_meanwhile (dv_lane env) rt))) \<and>
     (\<forall>call i turn entry rt. J (view_of val rt) \<longrightarrow> J (view_of val (snd (dv_tool env call i turn entry rt))))"

lemma leads_pause: "undisturbed val env J \<Longrightarrow> J v \<Longrightarrow> leads val v (pause env) (\<lambda>_. J) E"
  by (auto simp: leads_def pause_def undisturbed_def)

lemma view_world [simp]: "view_of val (rt\<lparr>lr_world := w\<rparr>) = view_of val rt"
  by (simp add: view_of_def)

lemma leads_outside: "undisturbed val env J \<Longrightarrow> J v \<Longrightarrow> leads val v (outside env f) (\<lambda>_. J) E"
  by (auto simp: leads_def outside_def undisturbed_def split: prod.splits)

lemma run_with_gate_eq:
  "run_with_gate env hook event cx = (if cx_cancelled cx then op_return (Inl (HookGate (GateRejectedClosed cancellation_fault)))
     else with_lane (\<lambda>rt. case admitted rt of Inl rejection \<Rightarrow> op_return (Inl (HookGate rejection)) | Inr _ \<Rightarrow> outside env (hook event)))"
proof (rule ext)
  show "run_with_gate env hook event cx rt = (if cx_cancelled cx then op_return (Inl (HookGate (GateRejectedClosed cancellation_fault)))
     else with_lane (\<lambda>rt. case admitted rt of Inl rejection \<Rightarrow> op_return (Inl (HookGate rejection)) | Inr _ \<Rightarrow> outside env (hook event))) rt" for rt
    by (cases "admitted rt") (simp_all add: run_with_gate_def with_lane_def split: unit.splits)
qed

lemma leads_hook: "undisturbed val env J \<Longrightarrow> J v \<Longrightarrow> leads val v (run_with_gate env hook event cx) (\<lambda>_. J) E"
  unfolding run_with_gate_eq by (rule leads_rules leads_outside | assumption)+

lemma leads_pause_bind:
  "undisturbed val env J \<Longrightarrow> J v \<Longrightarrow> (\<And>v'. J v' \<Longrightarrow> leads val v' (f ()) Q E) \<Longrightarrow> leads val v (op_bind (pause env) f) Q E"
  by (rule leads_seq [OF leads_pause [where J = J]]) auto

lemma leads_outside_bind:
  "undisturbed val env J \<Longrightarrow> J v \<Longrightarrow> (\<And>a v'. J v' \<Longrightarrow> leads val v' (f a) Q E) \<Longrightarrow> leads val v (op_bind (outside env g) f) Q E"
  by (rule leads_seq [OF leads_outside [where J = J]]) auto

lemma leads_hook_bind:
  "undisturbed val env J \<Longrightarrow> J v \<Longrightarrow> (\<And>a v'. J v' \<Longrightarrow> leads val v' (f a) Q E) \<Longrightarrow>
   leads val v (op_bind (run_with_gate env hook event cx) f) Q E"
  by (rule leads_seq [OF leads_hook [where J = J]]) auto

lemmas leads_others = leads_pause_bind leads_outside_bind leads_hook_bind

section \<open>Commits\<close>

text \<open>The addresses a scan finds are in the namespace it was asked for.\<close>

lemma collect_results_mem:
  "collect_results f xs = Inr ys \<Longrightarrow> y \<in> set ys \<Longrightarrow> \<exists>x. f x = Inr y"
  by (induction xs arbitrary: ys) (auto simp: rbind_eq_Inr_iff)

lemma leads_scan_bind:
  assumes "E v" and "\<And>addresses. \<forall>a \<in> set addresses. va_namespace a = va_namespace pre \<Longrightarrow> leads val v (f addresses) Q E"
  shows "leads val v (op_bind (lane_scan ops codec pre cx) f :: ('w, 'm, 'g, 'j, 'b) lane_op) Q E"
  unfolding lane_scan_def lane_read_def
proof (rule leads_read_bind, rule assms(1), rule assms(2), rule ballI)
  fix rt :: "('w, 'm, 'g, 'j) lane_runtime" and addresses a
  assume found: "map_err map_session_error (rbind (typed_scan_values (\<lambda>a. session_scan_values_json ops (lr_session rt) a cx) (cd_from codec) pre)
      (\<lambda>values. Inr (map sv_address values))) = Inr addresses" and "a \<in> set addresses"
  then obtain rows sv where "typed_scan_values (\<lambda>a. session_scan_values_json ops (lr_session rt) a cx) (cd_from codec) pre = Inr rows"
    "sv \<in> set rows" "a = sv_address sv"
    by (auto simp: rbind_eq_Inr_iff map_err_eq_Inr_iff)
  then show "va_namespace a = va_namespace pre"
    by (auto simp: typed_scan_values_def rbind_eq_Inr_iff map_err_eq_Inr_iff value_new_def dest!: collect_results_mem split: if_splits)
qed

context storage_contract
begin

lemma leads_faulting:
  assumes "E v" and "\<And>f. E (v\<lparr>v_fault := Some f, v_closed := True\<rparr>)"
    and "\<And>c. leads val (v\<lparr>v_slots := foldl value_effect (v_slots v) ws\<rparr>) (k c) Q E"
  shows "leads val v (op_bind (faulting_commit ops ws cx) k :: ('w, 'm, 'g, 'j, 'a) lane_op) Q E"
proof (rule leads_seq, rule leadsI)
  fix rt :: "('w, 'm, 'g, 'j) lane_runtime" and c rt'
  assume "view_of val rt = v" and "faulting_commit ops ws cx rt = (Inr c, rt')"
  then show "view_of val rt' = v\<lparr>v_slots := foldl value_effect (v_slots v) ws\<rparr>"
    using faulting_commit_ok by blast
next
  fix rt :: "('w, 'm, 'g, 'j) lane_runtime" and e rt'
  assume "view_of val rt = v" and "faulting_commit ops ws cx rt = (Inl e, rt')"
  then show "E (view_of val rt')"
    using faulting_commit_refused assms(1,2) by metis
qed (use assms(3) in auto)

lemma leads_commit:
  assumes "E v" and "\<And>f. E (v\<lparr>v_fault := Some f, v_closed := True\<rparr>)"
    and "\<And>c. leads val (v\<lparr>v_slots := foldl value_effect (v_slots v) ws\<rparr>) (k c) Q E"
  shows "leads val v (op_bind (lane_commit ops ws cx) k :: ('w, 'm, 'g, 'j, 'a) lane_op) Q E"
  unfolding lane_commit_def op_bind_assoc
  by (rule leads_silent_bind [OF _ assms(1) leads_faulting [OF assms]]) (rule keeps_rules)

end

end
