(* ===== verification/Drive_Invariant.thy ===== *)
theory Drive_Invariant
  imports Drive_Rules
begin

text \<open>
  The invariant of a drive: while an operation is driven, the lane's cache says what is stored, the
  other lanes of the session are untouched, and the operation is in a state its intent allows.
\<close>

section \<open>States of an operation\<close>

fun summary_task_of :: "'j op_state \<Rightarrow> summary_task option" where
  "summary_task_of (SummaryDeciding _ task) = Some task"
| "summary_task_of (SummaryReady _ gen _) = Some (sn_task gen)"
| "summary_task_of (SummaryEffectPending _ gen _ _ _) = Some (sn_task gen)"
| "summary_task_of (SummaryRetryWait _ gen _) = Some (sn_task gen)"
| "summary_task_of _ = None"

definition run_state :: "'j op_state \<Rightarrow> bool" where
  "run_state state \<longleftrightarrow> summary_task_of state = None \<and> state_at state \<noteq> At_NavigationReadyToCommit"

text \<open>
  A state \<open>validate_state_intent\<close> accepts, in an operation that will not leave these states: a run
  that does not compact its context (compaction is enabled by default, so this is a run configured
  otherwise), or a summary that does not lead back into a run. Without \<open>strict\<close> every state fits.
\<close>

definition fits :: "bool \<Rightarrow> operation_meta_record \<Rightarrow> 'j op_state \<Rightarrow> bool" where
  "fits strict M state \<longleftrightarrow> (strict \<longrightarrow>
     validate_state_intent (om_intent M) state = Inr () \<and>
     (case om_intent M of
        IntentRun _ \<Rightarrow> \<not> cs_enabled (rs_compaction (sc_settings (state_scope state)))
      | _ \<Rightarrow> (\<forall>task c. summary_task_of state = Some task \<longrightarrow> st_boundary task \<noteq> ResumeCheckpoint c)))"

definition opok :: "bool \<Rightarrow> operation_meta_record \<Rightarrow> 'j operation \<Rightarrow> bool" where
  "opok strict M operation \<longleftrightarrow> op_meta operation = M \<and> fits strict M (op_state_of operation)"

lemma validate_Inr [simp]:
  "validate_state_intent intent state = Inr () \<longleftrightarrow> operation_kind_of intent = state_kind intent state"
  by (simp add: validate_state_intent_def)

lemma run_state_kind: "run_state state \<Longrightarrow> state_kind intent state = KindRun"
  by (cases state) (simp_all add: run_state_def state_kind_def)

lemma fits_run:
  assumes "opok strict M operation" and "run_state (op_state_of operation)" and "run_state state"
    and "sc_settings (state_scope state) = sc_settings (op_scope operation)"
  shows "fits strict M state"
  using assms by (cases "om_intent M") (auto simp: fits_def opok_def op_scope_def run_state_kind)

lemma summary_kind:
  "summary_task_of state = Some task \<Longrightarrow> state_kind intent state = (case intent of IntentNavigation _ True _ _ \<Rightarrow> KindNavigation | _ \<Rightarrow> KindCompaction)"
  by (cases state) (simp_all add: state_kind_def)

lemma fits_summary:
  assumes "opok strict M operation" and "summary_task_of (op_state_of operation) = Some task" and "summary_task_of state = Some task"
    and "sc_settings (state_scope state) = sc_settings (op_scope operation)"
  shows "fits strict M state"
  using assms by (cases "om_intent M") (auto simp: fits_def opok_def op_scope_def summary_kind)

section \<open>The invariant\<close>

definition agreed :: "('j, 'f) lane_serde \<Rightarrow> 'j lanes \<Rightarrow> 'j lane_view \<Rightarrow> bool" where
  "agreed ld rest v \<longleftrightarrow>
     durable_lane ld (v_slots v) (v_name v) (v_data v) \<and> others ld rest (v_name v) (v_slots v) \<and>
     (v_fault v \<noteq> None \<longrightarrow> v_closed v)"

definition running :: "('j, 'f) lane_serde \<Rightarrow> 'j lanes \<Rightarrow> bool \<Rightarrow> operation_meta_record \<Rightarrow> 'j lane_view \<Rightarrow> bool" where
  "running ld rest strict M v \<longleftrightarrow>
     agreed ld rest v \<and> (\<exists>operation. la_operation (v_data v) = Some operation \<and> opok strict M operation)"

text \<open>Once the operation has settled there is none.\<close>

definition ended :: "('j, 'f) lane_serde \<Rightarrow> 'j lanes \<Rightarrow> bool \<Rightarrow> operation_meta_record \<Rightarrow> 'j lane_view \<Rightarrow> bool" where
  "ended ld rest strict M v \<longleftrightarrow>
     agreed ld rest v \<and> (\<forall>operation. la_operation (v_data v) = Some operation \<longrightarrow> opok strict M operation)"

text \<open>
  Then its result is the lane's last one, in the cache and in the session.
\<close>

definition concluded ::
  "('j, 'f) lane_serde \<Rightarrow> 'j lanes \<Rightarrow> operation_meta_record \<Rightarrow> 'j operation_result_record \<Rightarrow> 'j lane_view \<Rightarrow> bool" where
  "concluded ld rest M rec v \<longleftrightarrow>
     agreed ld rest v \<and> la_operation (v_data v) = None \<and> or_operation_id rec = om_operation_id M \<and>
     la_last_result (v_data v) = Some rec \<and> ls_last_operation_id (la_state (v_data v)) = Some (om_operation_id M) \<and>
     stored_result ld (v_slots v) (Some (om_operation_id M)) = Some rec"

lemma running_ended: "running ld rest strict M v \<Longrightarrow> ended ld rest strict M v"
  by (auto simp: running_def ended_def)

lemma running_fault: "running ld rest strict M v \<Longrightarrow> running ld rest strict M (v\<lparr>v_fault := Some f, v_closed := True\<rparr>)"
  by (simp add: running_def agreed_def)

lemma ended_coherent: "ended ld rest True M v \<Longrightarrow> coherent ld rest v"
  by (cases "la_operation (v_data v)")
    (simp_all add: ended_def agreed_def coherent_def resumable_def opok_def fits_def)

lemma agreed_batch:
  assumes "agreed ld rest (v\<lparr>v_slots := foldl value_effect (v_slots v) (filter (\<lambda>w. \<not> foreign_write w) ws), v_data := d\<rparr>)"
  shows "agreed ld rest (v\<lparr>v_slots := foldl value_effect (v_slots v) ws, v_data := d\<rparr>)"
  using assms durable_lane_cong [OF same_lanes_filter [of "v_slots v" ws], of ld]
  unfolding agreed_def others_def by simp

lemma running_foreign:
  assumes "running ld rest strict M v" and "filter (\<lambda>w. \<not> foreign_write w) ws = []"
  shows "running ld rest strict M (v\<lparr>v_slots := foldl value_effect (v_slots v) ws\<rparr>)"
proof -
  have "agreed ld rest (v\<lparr>v_slots := foldl value_effect (v_slots v) (filter (\<lambda>w. \<not> foreign_write w) ws), v_data := v_data v\<rparr>)"
    using assms by (simp add: running_def)
  from agreed_batch [OF this] assms(1) show ?thesis by (simp add: running_def)
qed

lemma running_durable:
  assumes "running ld rest strict M v"
  shows "om_lane M = v_name v" and "ls_current_operation_id (la_state (v_data v)) = Some (om_operation_id M)"
    and "stored (ld_meta ld) (v_slots v) (operation_meta (om_operation_id M)) M"
    and "others ld rest (v_name v) (v_slots v)" and "durable_lane ld (v_slots v) (v_name v) (v_data v)"
    and "v_fault v \<noteq> None \<longrightarrow> v_closed v"
  using assms by (auto simp: running_def agreed_def durable_lane_def durable_operation_def opok_def)

text \<open>The slots of the operation belong to this lane.\<close>

lemma running_others:
  assumes "running ld rest strict M v"
  shows "others ld rest (v_name v) ((v_slots v)((''pi.op.state'', om_operation_id M) := x))"
    and "others ld rest (v_name v) ((v_slots v)((''pi.op.meta'', om_operation_id M) := x, (''pi.op.state'', om_operation_id M) := y))"
  using others_operation [OF running_durable(4) [OF assms] disjI1, OF conjI [OF running_durable(3,1) [OF assms]]] by blast+

lemmas batch_simps = running_durable durable_lane_def durable_operation_def

text \<open>The batches of a drive.\<close>

lemma running_state:
  assumes R: "running ld rest strict M v" and ok: "lane_serde_ok ld" and "cd_to (ld_op_state ld) state = Inr j" and "fits strict M state"
    and ws: "filter (\<lambda>w. \<not> foreign_write w) ws = [WriteValue (ValueSet ''pi.op.state'' (om_operation_id M) j)]"
  shows "running ld rest strict M (v\<lparr>v_slots := foldl value_effect (v_slots v) ws,
    v_data := (v_data v)\<lparr>la_operation := Some \<lparr>op_meta = M, op_state_of = state\<rparr>\<rparr>\<rparr>)"
proof -
  have "agreed ld rest (v\<lparr>v_slots := foldl value_effect (v_slots v) ws,
      v_data := (v_data v)\<lparr>la_operation := Some \<lparr>op_meta = M, op_state_of = state\<rparr>\<rparr>\<rparr>)"
    by (rule agreed_batch)
      (use running_durable [OF R] lane_roundtrip(4) [OF ok assms(3)] in
        \<open>simp add: ws agreed_def durable_lane_def durable_operation_def running_others(1) [OF R]\<close>)
  with assms(4) show ?thesis by (simp add: running_def opok_def)
qed

lemma running_tip:
  assumes R: "running ld rest strict M v" and ok: "lane_serde_ok ld" and tip: "cd_to (tip_codec (ld_serde ld)) tip = Inr t"
    and ws: "filter (\<lambda>w. \<not> foreign_write w) ws = [WriteValue (ValueSet ''pi.branch.tip'' (v_name v) t)]"
  shows "running ld rest strict M (v\<lparr>v_slots := foldl value_effect (v_slots v) ws, v_data := (v_data v)\<lparr>la_tip := tip\<rparr>\<rparr>)"
proof -
  have "agreed ld rest (v\<lparr>v_slots := foldl value_effect (v_slots v) ws, v_data := (v_data v)\<lparr>la_tip := tip\<rparr>\<rparr>)"
    by (rule agreed_batch)
      (use running_durable [OF R] lane_roundtrip(6) [OF ok tip] others_slot(1) [OF running_durable(4) [OF R]] in
        \<open>auto simp: ws agreed_def durable_lane_def durable_operation_def split: option.splits\<close>)
  with R show ?thesis by (simp add: running_def)
qed

lemma running_tip_state:
  assumes R: "running ld rest strict M v" and ok: "lane_serde_ok ld" and "cd_to (ld_op_state ld) state = Inr j" and "fits strict M state"
    and tip: "cd_to (tip_codec (ld_serde ld)) tip = Inr t"
    and ws: "filter (\<lambda>w. \<not> foreign_write w) ws =
        [WriteValue (ValueSet ''pi.op.state'' (om_operation_id M) j), WriteValue (ValueSet ''pi.branch.tip'' (v_name v) t)] \<or>
      filter (\<lambda>w. \<not> foreign_write w) ws =
        [WriteValue (ValueSet ''pi.branch.tip'' (v_name v) t), WriteValue (ValueSet ''pi.op.state'' (om_operation_id M) j)]"
  shows "running ld rest strict M (v\<lparr>v_slots := foldl value_effect (v_slots v) ws,
    v_data := (v_data v)\<lparr>la_tip := tip, la_operation := Some \<lparr>op_meta = M, op_state_of = state\<rparr>\<rparr>\<rparr>)"
proof -
  let ?ws1 = "[WriteValue (ValueSet ''pi.branch.tip'' (v_name v) t)]"
  let ?ws2 = "[WriteValue (ValueSet ''pi.op.state'' (om_operation_id M) j)]"
  have slots: "foldl value_effect (v_slots v) (filter (\<lambda>w. \<not> foreign_write w) ws) =
      (v_slots v)((''pi.branch.tip'', v_name v) \<mapsto> t, (''pi.op.state'', om_operation_id M) \<mapsto> j)"
    using ws by (auto simp: fun_upd_twist)
  have "running ld rest strict M (v\<lparr>v_slots := foldl value_effect (v_slots v) ?ws1, v_data := (v_data v)\<lparr>la_tip := tip\<rparr>\<rparr>)"
    by (rule running_tip [OF R ok tip]) simp
  from running_state [OF this ok assms(3,4), of ?ws2]
  have "agreed ld rest (v\<lparr>v_slots := foldl value_effect (v_slots v) (filter (\<lambda>w. \<not> foreign_write w) ws),
      v_data := (v_data v)\<lparr>la_tip := tip, la_operation := Some \<lparr>op_meta = M, op_state_of = state\<rparr>\<rparr>\<rparr>)"
    by (simp add: slots running_def)
  from agreed_batch [OF this] assms(4) show ?thesis by (simp add: running_def opok_def)
qed

lemma running_inbox:
  assumes R: "running ld rest strict M v" and ok: "lane_serde_ok ld" and st: "cd_to (ld_state ld) state = Inr j"
    and pointer: "ls_current_operation_id state = Some (om_operation_id M)" and tip: "cd_to (tip_codec (ld_serde ld)) tip = Inr t"
    and ws: "filter (\<lambda>w. \<not> foreign_write w) ws =
      [WriteValue (ValueSet ''pi.lane.state'' (v_name v) j), WriteValue (ValueSet ''pi.branch.tip'' (v_name v) t)]"
  shows "running ld rest strict M (v\<lparr>v_slots := foldl value_effect (v_slots v) ws,
    v_data := (v_data v)\<lparr>la_tip := tip, la_state := state\<rparr>\<rparr>)"
proof -
  have "agreed ld rest (v\<lparr>v_slots := foldl value_effect (v_slots v) ws, v_data := (v_data v)\<lparr>la_tip := tip, la_state := state\<rparr>\<rparr>)"
    by (rule agreed_batch)
      (use running_durable [OF R] lane_roundtrip(6) [OF ok tip] lane_roundtrip(1) [OF ok st] pointer
        others_slot(1) [OF others_slot(3) [OF running_durable(4) [OF R]]] in
        \<open>auto simp: ws agreed_def durable_lane_def durable_operation_def split: option.splits\<close>)
  with R show ?thesis by (simp add: running_def)
qed

text \<open>Settlement: the operation's records go, and the lane no longer names it.\<close>

lemma ended_settled:
  assumes R: "running ld rest strict M v" and ok: "lane_serde_ok ld" and st: "cd_to (ld_state ld) state = Inr j"
    and pointer: "ls_current_operation_id state = None"
    and ws: "filter (\<lambda>w. \<not> foreign_write w) ws = WriteValue (ValueSet ''pi.lane.state'' (v_name v) j) #
      [delete_value (operation_meta (om_operation_id M)), delete_value (operation_state (om_operation_id M))]"
  shows "agreed ld rest (v\<lparr>v_slots := foldl value_effect (v_slots v) ws,
    v_data := (v_data v)\<lparr>la_state := state, la_operation := None, la_last_result := r\<rparr>\<rparr>)"
proof (rule agreed_batch)
  let ?vs = "(v_slots v)((''pi.op.meta'', om_operation_id M) := None, (''pi.op.state'', om_operation_id M) := None)"
  have slots: "foldl value_effect (v_slots v) (filter (\<lambda>w. \<not> foreign_write w) ws) = ?vs((''pi.lane.state'', v_name v) \<mapsto> j)"
    by (auto simp: ws delete_value_def fun_upd_twist)
  show "agreed ld rest (v\<lparr>v_slots := foldl value_effect (v_slots v) (filter (\<lambda>w. \<not> foreign_write w) ws),
      v_data := (v_data v)\<lparr>la_state := state, la_operation := None, la_last_result := r\<rparr>\<rparr>)"
    unfolding slots
    using running_durable [OF R] lane_roundtrip(1) [OF ok st] pointer others_slot(3) [OF running_others(2) [OF R]]
    by (auto simp: agreed_def durable_lane_def durable_operation_def)
qed

text \<open>A navigation moves the tip when it settles.\<close>

lemma ended_navigated:
  assumes R: "running ld rest strict M v" and ok: "lane_serde_ok ld" and st: "cd_to (ld_state ld) state = Inr j"
    and pointer: "ls_current_operation_id state = None" and tip: "cd_to (tip_codec (ld_serde ld)) tip = Inr t"
    and ws: "filter (\<lambda>w. \<not> foreign_write w) ws = WriteValue (ValueSet ''pi.branch.tip'' (v_name v) t) #
      WriteValue (ValueSet ''pi.lane.state'' (v_name v) j) #
      [delete_value (operation_meta (om_operation_id M)), delete_value (operation_state (om_operation_id M))]"
  shows "agreed ld rest (v\<lparr>v_slots := foldl value_effect (v_slots v) ws,
    v_data := (v_data v)\<lparr>la_tip := tip, la_state := state, la_operation := None, la_last_result := r\<rparr>\<rparr>)"
proof (rule agreed_batch)
  have "running ld rest strict M (v\<lparr>v_slots := foldl value_effect (v_slots v) [WriteValue (ValueSet ''pi.branch.tip'' (v_name v) t)],
      v_data := (v_data v)\<lparr>la_tip := tip\<rparr>\<rparr>)"
    by (rule running_tip [OF R ok tip]) simp
  from ended_settled [OF this ok st pointer, of "WriteValue (ValueSet ''pi.lane.state'' (v_name v) j) #
      [delete_value (operation_meta (om_operation_id M)), delete_value (operation_state (om_operation_id M))]" r]
  show "agreed ld rest (v\<lparr>v_slots := foldl value_effect (v_slots v) (filter (\<lambda>w. \<not> foreign_write w) ws),
      v_data := (v_data v)\<lparr>la_tip := tip, la_state := state, la_operation := None, la_last_result := r\<rparr>\<rparr>)"
    by (simp add: ws)
qed

end
