(* ===== verification/Drive_Steps.thy ===== *)
theory Drive_Steps
  imports Drive_Invariant
begin

text \<open>
  Every procedure of a drive keeps the drive's invariant, while other tasks do what they like to the
  lane as long as they keep it too. A navigation that summarizes the branch it leaves is set apart:
  it commits its summary before it takes the lane's lock to update the cache.
\<close>

locale drive_run = storage_contract ops live val ent view core
  for ops :: "('m, 'j, 'f::zero) storage_ops" and live val ent view core +
  fixes env :: "('w, 'm, 'g, 'j, 'f) drive_env" and rest :: "'j lanes" and strict :: bool and M :: operation_meta_record
  assumes serde: "lane_serde_ok (drive_serde env)"
    and others_keep: "undisturbed val env (running (drive_serde env) rest strict M)"
    and plain: "\<not> summarizes (om_intent M)"
begin

abbreviation "R \<equiv> running (drive_serde env) rest strict M"
abbreviation "N \<equiv> ended (drive_serde env) rest strict M"
abbreviation "D rec \<equiv> concluded (drive_serde env) rest M rec"
abbreviation "S step v \<equiv> (case step of StepSettled rec \<Rightarrow> D rec v | _ \<Rightarrow> R v)"
abbreviation "ok_op \<equiv> opok strict M"

lemma R_N: "R v \<Longrightarrow> N v"
  by (rule running_ended)

lemma N_fault: "R v \<Longrightarrow> N (v\<lparr>v_fault := Some f, v_closed := True\<rparr>)"
  by (intro running_ended running_fault)

lemma pause_bind: "R v \<Longrightarrow> (\<And>v'. R v' \<Longrightarrow> leads val v' (f ()) Q N) \<Longrightarrow> leads val v (op_bind (pause env) f) Q N"
  by (rule leads_pause_bind [OF others_keep])

lemma outside_bind: "R v \<Longrightarrow> (\<And>a v'. R v' \<Longrightarrow> leads val v' (f a) Q N) \<Longrightarrow> leads val v (op_bind (outside env g) f) Q N"
  by (rule leads_outside_bind [OF others_keep])

lemma hook_bind:
  "R v \<Longrightarrow> (\<And>a v'. R v' \<Longrightarrow> leads val v' (f a) Q N) \<Longrightarrow> leads val v (op_bind (run_with_gate env hook event cx) f) Q N"
  by (rule leads_hook_bind [OF others_keep])

lemma call_bind:
  "leads val v m (\<lambda>_. R) N \<Longrightarrow> (\<And>a v'. R v' \<Longrightarrow> leads val v' (f a) Q N) \<Longrightarrow> leads val v (op_bind m f) Q N"
  by (rule leads_seq)

lemma silent_bind: "keeps (view_of val) m \<Longrightarrow> R v \<Longrightarrow> (\<And>a. leads val v (f a) Q N) \<Longrightarrow> leads val v (op_bind m f) Q N"
  by (rule leads_silent_bind) (auto intro: R_N)

lemma commit_bind:
  "R v \<Longrightarrow> (\<And>c. leads val (v\<lparr>v_slots := foldl value_effect (v_slots v) ws\<rparr>) (k c) Q N) \<Longrightarrow>
   leads val v (op_bind (lane_commit ops ws cx) k) Q N"
  by (rule leads_commit) (auto intro: R_N N_fault)

lemma write_bind:
  "R v \<Longrightarrow> (\<And>j. cd_to c x = Inr j \<Longrightarrow> leads val v (f (WriteValue (ValueSet (va_namespace a) (va_key a) j))) Q N) \<Longrightarrow>
   leads val v (op_bind (lane_write a c x) f) Q N"
  by (rule leads_write) (auto intro: R_N)

lemma read_bind:
  "R v \<Longrightarrow> (\<And>rt a. view_of val rt = v \<Longrightarrow> g rt = Inr a \<Longrightarrow> leads val v (f a) Q N) \<Longrightarrow> leads val v (op_bind (op_read g) f) Q N"
  by (rule leads_read_bind) (auto intro: R_N)

lemma current_bind:
  assumes "R v" and "\<And>operation. ok_op operation \<Longrightarrow> leads val v (f (Some operation)) Q N"
  shows "leads val v (op_bind current_operation f) Q N"
  unfolding current_operation_def using assms by (intro read_bind) (auto simp: running_def)

lemmas run_binds = pause_bind outside_bind hook_bind current_bind write_bind commit_bind

lemma keeps_check [keeps_rules]: "keeps (view_of val) (check_current operation activity)"
  unfolding check_current_def by (rule keeps_rules)+

lemma ok_meta: "ok_op operation \<Longrightarrow> op_meta operation = M"
  by (simp add: opok_def)

text \<open>The cache catches up with a commit.\<close>

lemma put_state_bind:
  assumes "R v" and "cd_to (ld_op_state (drive_serde env)) state = Inr j" and "fits strict M state"
    and "filter (\<lambda>w. \<not> foreign_write w) ws = [WriteValue (ValueSet ''pi.op.state'' (om_operation_id M) j)]"
    and "\<And>v'. R v' \<Longrightarrow> leads val v' (f ()) Q N"
  shows "leads val (v\<lparr>v_slots := foldl value_effect (v_slots v) ws\<rparr>) (op_bind (put_operation M state) f) Q N"
  unfolding put_operation_def
  by (rule leads_put_bind) (use running_state [OF assms(1) serde assms(2-4)] assms(5) in simp)

lemma put_tip_bind:
  assumes "R v" and "cd_to (tip_codec (ld_serde (drive_serde env))) tip = Inr t"
    and "filter (\<lambda>w. \<not> foreign_write w) ws = [WriteValue (ValueSet ''pi.branch.tip'' (v_name v) t)]"
    and "\<And>v'. R v' \<Longrightarrow> leads val v' (f ()) Q N"
  shows "leads val (v\<lparr>v_slots := foldl value_effect (v_slots v) ws\<rparr>) (op_bind (put_data (\<lambda>d. d\<lparr>la_tip := tip\<rparr>)) f) Q N"
  by (rule leads_put_bind) (use running_tip [OF assms(1) serde assms(2,3)] assms(4) in simp)

lemma put_tip_state_bind:
  assumes "R v" and "cd_to (ld_op_state (drive_serde env)) state = Inr j" and "fits strict M state"
    and "cd_to (tip_codec (ld_serde (drive_serde env))) tip = Inr t"
    and "filter (\<lambda>w. \<not> foreign_write w) ws =
        [WriteValue (ValueSet ''pi.op.state'' (om_operation_id M) j), WriteValue (ValueSet ''pi.branch.tip'' (v_name v) t)] \<or>
      filter (\<lambda>w. \<not> foreign_write w) ws =
        [WriteValue (ValueSet ''pi.branch.tip'' (v_name v) t), WriteValue (ValueSet ''pi.op.state'' (om_operation_id M) j)]"
    and "\<And>v'. R v' \<Longrightarrow> leads val v' (f ()) Q N"
  shows "leads val (v\<lparr>v_slots := foldl value_effect (v_slots v) ws\<rparr>)
    (op_bind (put_data (\<lambda>d. d\<lparr>la_tip := tip\<rparr>)) (\<lambda>_. op_bind (put_operation M state) f)) Q N"
  unfolding put_operation_def
  by (rule leads_put_bind, rule leads_put_bind) (use running_tip_state [OF assms(1) serde assms(2-5)] assms(6) in simp)

lemma put_state:
  assumes "R v" and "cd_to (ld_op_state (drive_serde env)) state = Inr j" and "fits strict M state"
    and "filter (\<lambda>w. \<not> foreign_write w) ws = [WriteValue (ValueSet ''pi.op.state'' (om_operation_id M) j)]"
  shows "leads val (v\<lparr>v_slots := foldl value_effect (v_slots v) ws\<rparr>) (put_operation M state) (\<lambda>_. R) N"
  unfolding put_operation_def by (rule leads_put) (use running_state [OF assms(1) serde assms(2-4)] in simp)

lemma put_tip:
  assumes "R v" and "cd_to (tip_codec (ld_serde (drive_serde env))) tip = Inr t"
    and "filter (\<lambda>w. \<not> foreign_write w) ws = [WriteValue (ValueSet ''pi.branch.tip'' (v_name v) t)]"
  shows "leads val (v\<lparr>v_slots := foldl value_effect (v_slots v) ws\<rparr>) (put_data (\<lambda>d. d\<lparr>la_tip := tip\<rparr>)) (\<lambda>_. R) N"
  by (rule leads_put) (use running_tip [OF assms(1) serde assms(2,3)] in simp)

section \<open>Transitions and settlement\<close>

lemma transition_with_writes_leads:
  assumes "R v" and "ok_op operation" and "fits strict M state" and "list_all foreign_write writes"
  shows "leads val v (transition_with_writes ops env operation state writes cx) (\<lambda>_. R) N"
  unfolding transition_with_writes_def state_write_def ok_meta [OF assms(2)]
  by (rule assms run_binds silent_bind keeps_check put_state | assumption | (use assms(4) in simp))+

lemma transition_leads:
  assumes "R v" and "ok_op operation" and "fits strict M state"
  shows "leads val v (transition ops env operation state cx) (\<lambda>_. R) N"
  unfolding transition_def by (rule transition_with_writes_leads [OF assms]) simp

lemma transition_with_preparation_leads:
  assumes "R v" and "ok_op operation" and "fits strict M state"
  shows "leads val v (transition_with_preparation ops env operation task_id preparation state cx) (\<lambda>_. R) N"
  unfolding transition_with_preparation_def state_write_def ok_meta [OF assms(2)]
  by (rule assms run_binds silent_bind keeps_check put_state | assumption | simp)+

lemma prefix_namespace:
  "va_namespace (operation_preparation_prefix i) = ''pi.op.preparation''" "va_namespace (operation_tool_args_prefix i turn) = ''pi.op.tool_args''"
  "va_namespace (operation_tool_memo_prefix i entry) = ''pi.op.tool_memo''" "va_namespace (pending_tool_output_prefix i) = ''pi.pending.tool_output''"
  by (simp_all add: operation_preparation_prefix_def operation_tool_args_prefix_def operation_tool_memo_prefix_def pending_tool_output_prefix_def)

lemma foreign_deleted:
  "\<forall>a \<in> set addresses. va_namespace a = ns \<Longrightarrow> ns \<notin> lane_namespaces \<Longrightarrow>
   filter (\<lambda>w. \<not> foreign_write w) (map delete_value addresses) = []"
  by (auto simp: filter_empty_conv)

lemma put_settled:
  assumes "R v" and "cd_to (ld_state (drive_serde env)) state = Inr j" and "ls_current_operation_id state = None"
    and "ls_last_operation_id state = Some (om_operation_id M)" and "or_operation_id rec = om_operation_id M"
    and "cd_to (ld_result (drive_serde env)) rec = Inr j'" and "foldl value_effect (v_slots v) ws (''pi.result'', om_operation_id M) = Some j'"
    and "filter (\<lambda>w. \<not> foreign_write w) ws = WriteValue (ValueSet ''pi.lane.state'' (v_name v) j) #
      [delete_value (operation_meta (om_operation_id M)), delete_value (operation_state (om_operation_id M))]"
    and "\<And>v'. D rec v' \<Longrightarrow> Q rec v'"
  shows "leads val (v\<lparr>v_slots := foldl value_effect (v_slots v) ws\<rparr>)
    (op_bind (put_data (\<lambda>d. d\<lparr>la_state := state, la_operation := None, la_last_result := Some rec\<rparr>)) (\<lambda>_. op_return rec)) Q N"
  by (rule leads_put_bind, rule leads_basic, rule assms(9))
    (use ended_settled [OF assms(1) serde assms(2,3,8)] assms(4-7) lane_roundtrip(5) [OF serde assms(6)] in
      \<open>simp add: concluded_def stored_result_def\<close>)

lemma deleted_elsewhere:
  "\<forall>a \<in> set addresses. va_namespace a = ns \<Longrightarrow> ns \<noteq> ''pi.result'' \<Longrightarrow>
   foldl value_effect vs (map delete_value addresses) (''pi.result'', k) = vs (''pi.result'', k)"
  by (induction addresses arbitrary: vs) (auto simp: delete_value_def)

lemma cleanup_batch:
  assumes "\<forall>a \<in> set preparations. va_namespace a = ''pi.op.preparation''" "\<forall>a \<in> set tool_args. va_namespace a = ''pi.op.tool_args''"
    "\<forall>a \<in> set memos. va_namespace a = ''pi.op.tool_memo''" "\<forall>a \<in> set outputs. va_namespace a = ''pi.pending.tool_output''"
  shows "filter (\<lambda>w. \<not> foreign_write w) (op_cleanup_writes i response @ map delete_value preparations @ map delete_value tool_args @
      map delete_value memos @ map delete_value outputs) = [delete_value (operation_meta i), delete_value (operation_state i)]"
  using assms by (simp add: op_cleanup_writes_def foreign_deleted split: option.split)

lemma cleanup_result:
  assumes "\<forall>a \<in> set preparations. va_namespace a = ''pi.op.preparation''" "\<forall>a \<in> set tool_args. va_namespace a = ''pi.op.tool_args''"
    "\<forall>a \<in> set memos. va_namespace a = ''pi.op.tool_memo''" "\<forall>a \<in> set outputs. va_namespace a = ''pi.pending.tool_output''"
  shows "foldl value_effect vs (op_cleanup_writes i response @ map delete_value preparations @ map delete_value tool_args @
      map delete_value memos @ map delete_value outputs) (''pi.result'', k) = vs (''pi.result'', k)"
  by (simp add: foldl_append assms [THEN deleted_elsewhere])
    (simp add: op_cleanup_writes_def delete_value_def delete_list_def operation_meta_def operation_state_def split: option.split)

text \<open>What a settlement leaves: no operation, and the record of how it ended.\<close>

abbreviation "settled_as status error rec v \<equiv> D rec v \<and> or_status rec = status \<and> or_error rec = error"

lemma settle_leads:
  assumes "R v" and "ok_op operation"
  shows "leads val v (settle ops env operation status error cx) (settled_as status error) N"
  unfolding settle_def operation_cleanup_writes_def op_bind_assoc op_bind_return' Let_def ok_meta [OF assms(2)]
proof (rule leads_scan_bind, rule R_N [OF assms(1)], rule leads_scan_bind, rule R_N [OF assms(1)], rule leads_scan_bind, rule R_N [OF assms(1)],
    rule leads_scan_bind, rule R_N [OF assms(1)], rule pause_bind, rule assms(1), rule silent_bind, rule keeps_rules, assumption, rule leads_with,
    rule write_bind, assumption, rule write_bind, assumption, rule commit_bind, assumption, rule put_settled, assumption, assumption, simp, simp, simp, assumption)
  fix preparations tool_args memos outputs :: "value_address list" and v and rt :: "('w, 'm, 'g, 'j) lane_runtime" and j j' ended_at
  assume "\<forall>a \<in> set preparations. va_namespace a = va_namespace (operation_preparation_prefix (om_operation_id M))"
    "\<forall>a \<in> set tool_args. va_namespace a = va_namespace (operation_tool_args_prefix (om_operation_id M) None)"
    "\<forall>a \<in> set memos. va_namespace a = va_namespace (operation_tool_memo_prefix (om_operation_id M) None)"
    "\<forall>a \<in> set outputs. va_namespace a = va_namespace (pending_tool_output_prefix (om_operation_id M))"
    and v: "view_of val rt = v"
  note batch = cleanup_batch [OF this(1-4) [unfolded prefix_namespace]] and kept = cleanup_result [OF this(1-4) [unfolded prefix_namespace]]
  show "foldl value_effect (v_slots v)
        ([WriteValue (ValueSet (va_namespace (lane_state_address (lr_name rt))) (va_key (lane_state_address (lr_name rt))) j),
          WriteValue (ValueSet (va_namespace (operation_result (om_operation_id M))) (va_key (operation_result (om_operation_id M))) j')] @
         op_cleanup_writes (om_operation_id M) (response_id_of (op_state_of operation)) @
         map delete_value preparations @ map delete_value tool_args @ map delete_value memos @ map delete_value outputs)
        (''pi.result'', om_operation_id M) = Some j'"
    by (subst foldl_append, subst kept) (simp add: operation_result_def)
  show "filter (\<lambda>w. \<not> foreign_write w)
        ([WriteValue (ValueSet (va_namespace (lane_state_address (lr_name rt))) (va_key (lane_state_address (lr_name rt))) j),
          WriteValue (ValueSet (va_namespace (operation_result (om_operation_id M))) (va_key (operation_result (om_operation_id M))) j')] @
         op_cleanup_writes (om_operation_id M) (response_id_of (op_state_of operation)) @
         map delete_value preparations @ map delete_value tool_args @ map delete_value memos @ map delete_value outputs) =
      WriteValue (ValueSet ''pi.lane.state'' (v_name v) j) #
      [delete_value (operation_meta (om_operation_id M)), delete_value (operation_state (om_operation_id M))]"
    using v by (subst filter_append, subst batch) auto
qed simp

lemma settled_step_leads:
  assumes "R v" and "ok_op operation"
  shows "leads val v (settled_step (settle ops env operation status error cx)) S N"
  unfolding settled_step_def by (rule leads_seq [OF settle_leads [OF assms]], rule leads_basic) simp

lemma settle_failure_leads:
  assumes "R v" and "ok_op operation"
  shows "leads val v (settled_step (settle_failure ops env operation code message cx)) S N"
  unfolding settle_failure_def by (rule settled_step_leads [OF assms])

section \<open>The inbox\<close>

lemma faulting_bind:
  "R v \<Longrightarrow> (\<And>c. leads val (v\<lparr>v_slots := foldl value_effect (v_slots v) ws\<rparr>) (k c) Q N) \<Longrightarrow>
   leads val v (op_bind (faulting_commit ops ws cx) k) Q N"
  by (rule leads_faulting) (auto intro: R_N N_fault)

lemma yields_bind_leads:
  assumes "yields val v m P" and "keeps (view_of val) m" and "R v" and "\<And>a. P a \<Longrightarrow> leads val v (f a) Q N"
  shows "leads val v (op_bind m f) Q N"
proof (rule leads_seq)
  show "leads val v m (\<lambda>a v'. P a \<and> v' = v) N"
    using assms(1-3) by (intro leadsI) (auto simp: yields_def keeps_def intro: R_N, (metis snd_conv R_N)+)
qed (use assms(4) in auto)

lemma put_inbox_bind:
  assumes "R v" and "cd_to (ld_state (drive_serde env)) state = Inr j" and "ls_current_operation_id state = Some (om_operation_id M)"
    and "cd_to (tip_codec (ld_serde (drive_serde env))) tip = Inr t"
    and "filter (\<lambda>w. \<not> foreign_write w) ws =
      [WriteValue (ValueSet ''pi.lane.state'' (v_name v) j), WriteValue (ValueSet ''pi.branch.tip'' (v_name v) t)]"
    and "\<And>v'. R v' \<Longrightarrow> leads val v' (f ()) Q N"
  shows "leads val (v\<lparr>v_slots := foldl value_effect (v_slots v) ws\<rparr>) (op_bind (put_data (\<lambda>d. d\<lparr>la_tip := tip, la_state := state\<rparr>)) f) Q N"
  by (rule leads_put_bind) (use running_inbox [OF assms(1) serde assms(2-5)] assms(6) in simp)

lemma drain_inbox_leads:
  assumes "R v" and "ok_op operation"
  shows "leads val v (drain_inbox ops env operation cx) (\<lambda>_. R) N"
  unfolding drain_inbox_def Let_def tip_write_def ok_meta [OF assms(2)]
proof (rule pause_bind, rule assms(1), rule leads_with, rule leads_if, rule leads_basic, assumption,
    rule silent_bind, rule keeps_rules, assumption, rule silent_bind, rule keeps_rules, assumption,
    rule write_bind, assumption, rule write_bind, assumption, rule faulting_bind, assumption,
    rule put_inbox_bind, assumption, assumption, simp, assumption)
qed (auto intro: leads_basic)

lemma append_injected_leads:
  assumes "R v"
  shows "leads val v (append_injected_messages ops env messages cx) (\<lambda>_. R) N"
  unfolding append_injected_messages_def Let_def tip_write_def
proof (rule pause_bind, rule assms, rule leads_with, rule yields_bind_leads, rule yields_message_writes, rule keeps_rules, assumption,
    rule leads_prod, rule write_bind, assumption, rule commit_bind, assumption, rule put_tip, assumption, assumption)
qed auto

section \<open>Assistant responses\<close>

lemma put_tip_state:
  assumes "R v" and "cd_to (ld_op_state (drive_serde env)) state = Inr j" and "fits strict M state"
    and "cd_to (tip_codec (ld_serde (drive_serde env))) tip = Inr t"
    and "filter (\<lambda>w. \<not> foreign_write w) ws =
        [WriteValue (ValueSet ''pi.op.state'' (om_operation_id M) j), WriteValue (ValueSet ''pi.branch.tip'' (v_name v) t)] \<or>
      filter (\<lambda>w. \<not> foreign_write w) ws =
        [WriteValue (ValueSet ''pi.branch.tip'' (v_name v) t), WriteValue (ValueSet ''pi.op.state'' (om_operation_id M) j)]"
  shows "leads val (v\<lparr>v_slots := foldl value_effect (v_slots v) ws\<rparr>)
    (op_bind (put_data (\<lambda>d. d\<lparr>la_tip := tip\<rparr>)) (\<lambda>_. put_operation M state)) (\<lambda>_. R) N"
  unfolding put_operation_def
  by (rule leads_put_bind, rule leads_put) (use running_tip_state [OF assms(1) serde assms(2-5)] in simp)

abbreviation "committed status error rec v \<equiv> or_status rec = status \<and> or_error rec = error \<and>
  (if status = Failed \<and> error \<noteq> None then D rec v else R v)"

lemma R_operation:
  assumes "R v" and "view_of val rt = v"
  obtains current where "la_operation (lr_data rt) = Some current" and "op_meta current = M" and "ok_op current"
  using assms by (auto simp: running_def opok_def)

lemma assistant_block_leads:
  assumes "R v" and "ok_op operation" and "fits strict M state" and "keeps_operation state"
  shows "leads val v (with_lane (\<lambda>rt.
     op_bind (state_write env operation state) (\<lambda>write.
     op_bind (tip_write env (lr_name rt) (Some response)) (\<lambda>tip.
     op_bind (lane_commit ops [entry_write response (la_tip (lr_data rt)) message False, WriteUsage usage, write, tip, delete_list frames] cx) (\<lambda>_.
     op_bind (put_data (\<lambda>d. d\<lparr>la_tip := Some response\<rparr>)) (\<lambda>_.
     if keeps_operation state
     then (case la_operation (lr_data rt) of
         None \<Rightarrow> op_fail (harness_invariant ''assistant operation disappeared'')
       | Some current \<Rightarrow> put_operation (op_meta current) state)
     else op_return ())))))) (\<lambda>_. R) N"
  unfolding if_P [OF assms(4)] state_write_def tip_write_def ok_meta [OF assms(2)]
proof (rule leads_with)
  fix rt :: "('w, 'm, 'g, 'j) lane_runtime"
  assume v: "view_of val rt = v"
  obtain current where current: "la_operation (lr_data rt) = Some current" "op_meta current = M"
    using R_operation [OF assms(1) v] by blast
  show "leads val v (op_bind (lane_write (operation_state (om_operation_id M)) (ld_op_state (drive_serde env)) state) (\<lambda>write.
     op_bind (lane_write (branch_tip (lr_name rt)) (tip_codec (ld_serde (drive_serde env))) (Some response)) (\<lambda>tip.
     op_bind (lane_commit ops [entry_write response (la_tip (lr_data rt)) message False, WriteUsage usage, write, tip, delete_list frames] cx) (\<lambda>_.
     op_bind (put_data (\<lambda>d. d\<lparr>la_tip := Some response\<rparr>)) (\<lambda>_.
     case la_operation (lr_data rt) of
       None \<Rightarrow> op_fail (harness_invariant ''assistant operation disappeared'')
     | Some current \<Rightarrow> put_operation (op_meta current) state))))) (\<lambda>_. R) N"
    unfolding current option.case by (rule write_bind assms commit_bind put_tip_state | assumption | (use v in auto))+
qed

lemma commit_assistant_leads:
  assumes R: "R v" and op: "ok_op operation" and "fits strict M (ac_next_state commit)" and "keeps_operation (ac_next_state commit)"
    and stops: "ac_status commit = Failed \<Longrightarrow> ac_error commit \<noteq> None \<Longrightarrow> state_at (ac_next_state commit) = At_Checkpoint"
  shows "leads val v (commit_assistant ops env operation commit cx) (committed (ac_status commit) (ac_error commit)) N"
  unfolding commit_assistant_def Let_def
proof (rule pause_bind, rule R, rule call_bind, rule assistant_block_leads, assumption, rule op, rule assms(3), rule assms(4),
    rule silent_bind, rule keeps_rules, assumption, rule leads_if, rule leads_basic, rule R_N, assumption, rule leads_if)
  fix v'
  assume "R v'" and "ac_status commit = Failed \<and> ac_error commit \<noteq> None \<and> state_at (ac_next_state commit) = At_Checkpoint"
  then show "leads val v' (settle ops env operation (ac_status commit) (ac_error commit) cx) (committed (ac_status commit) (ac_error commit)) N"
    by (intro leads_weaken [OF settle_leads [OF _ op]]) auto
next
  fix v'
  assume "R v'" and "\<not> (ac_status commit = Failed \<and> ac_error commit \<noteq> None \<and> state_at (ac_next_state commit) = At_Checkpoint)"
  then show "leads val v' (op_bind (lane_now (dv_lane env)) (\<lambda>ended_at.
     op_return \<lparr>or_operation_id = op_id operation, or_kind = KindRun, or_status = ac_status commit, or_error = ac_error commit,
       or_from_tip_id = om_source_tip_id (op_meta operation), or_tip_id = Some (ac_response_id commit),
       or_started_at = om_started_at (op_meta operation), or_ended_at = ended_at\<rparr>)) (committed (ac_status commit) (ac_error commit)) N"
    using stops by (intro silent_bind keeps_rules leads_basic) auto
qed

end

end
