(* ===== verification/Drive_Checkpoints.thy ===== *)
theory Drive_Checkpoints
  imports Drive_Steps
begin

text \<open>
  The invariant of a drive through aborts, recoveries, retries, the start of a run and its
  checkpoints.
\<close>

context drive_run
begin

lemmas steps = pause_bind outside_bind hook_bind current_bind leads_if leads_option leads_sum leads_prod leads_hook_case leads_gate_case
  leads_bool leads_boundary leads_continuation leads_with

lemma fail_step: "R v \<Longrightarrow> leads val v (op_fail e) Q N"
  by (intro leads_basic R_N)

section \<open>Abort and recovery\<close>

lemma keeps_recovery [keeps_rules]:
  "keeps (view_of val) (synthesize_interrupted_assistant env context)" "keeps (view_of val) (rebuild_interrupted_assistant env frames)"
  "keeps (view_of val) (read_frames ops env i response cx)" "keeps (view_of val) (deferred_handle ops env deferred cx)"
  unfolding synthesize_interrupted_assistant_def rebuild_interrupted_assistant_def read_frames_def deferred_handle_def
  by (rule keeps_rules)+

lemmas quiet = keeps_lane keeps_basic keeps_check keeps_recovery

lemma cancel_deferred_leads:
  assumes "R v"
  shows "leads val v (cancel_deferred_best_effort ops env deferred cx) (\<lambda>_. R) N"
proof -
  have "view_of val rt' = view_of val rt" if "deferred_handle ops env deferred cx rt = (r, rt')" for r rt and rt' :: "('w, 'm, 'g, 'j) lane_runtime"
    using keeps_recovery(4) [of deferred cx] that unfolding keeps_def by (metis snd_conv)
  moreover have "leads val v (outside env f) (\<lambda>_. R) N" for f :: "'w \<Rightarrow> unit \<times> 'w"
    by (rule leads_outside [OF others_keep assms])
  ultimately show ?thesis
    using assms unfolding leads_def cancel_deferred_best_effort_def
    by (fastforce split: prod.splits sum.splits option.splits)
qed

lemma aborted_commit_leads:
  assumes "R v" and "ok_op operation" and "ac_status commit = Aborted" and "fits strict M (ac_next_state commit)"
    and "keeps_operation (ac_next_state commit)"
  shows "leads val v (op_bind (commit_assistant ops env operation commit cx) (\<lambda>_. settled_step (settle ops env operation status error cx))) S N"
  by (rule leads_seq [OF commit_assistant_leads [OF assms(1,2,4,5)]], simp add: assms(3), rule settled_step_leads [OF _ assms(2)])
    (simp add: assms(3))

lemma recover_assistant_leads:
  assumes R: "R v" and op: "ok_op operation"
  shows "leads val v (recover_assistant_effect ops env operation cx) S N"
proof (cases "op_state_of operation")
  case (AssistantEffectPending scope gc attempt response usage limit window)
  have fits: "fits strict M (Checkpoint scope point)" for point
    by (rule fits_run [OF op]) (simp_all add: AssistantEffectPending run_state_def op_scope_def)
  show ?thesis
    unfolding recover_assistant_effect_def AssistantEffectPending op_state.case
    by (rule R op steps settle_failure_leads aborted_commit_leads | assumption | (rule silent_bind, rule quiet)
      | (rule silent_bind, (rule keeps_if keeps_recovery)+) | (simp add: fits))+
qed (use R in \<open>simp_all add: recover_assistant_effect_def fail_step\<close>)

lemma reconcile_abort_leads:
  assumes "R v" and "ok_op operation"
  shows "leads val v (reconcile_abort ops env operation cx) S N"
proof -
  have "leads val v (case op_state_of operation of
         DeferredSuspended deferred \<Rightarrow> cancel_deferred_best_effort ops env deferred cx
       | DeferredEffectPending deferred _ _ \<Rightarrow> cancel_deferred_best_effort ops env deferred cx
       | _ \<Rightarrow> op_return ()) (\<lambda>_. R) N"
    using assms(1) cancel_deferred_leads by (cases "op_state_of operation") (simp_all add: leads_basic)
  then show ?thesis
    unfolding reconcile_abort_def using assms
    by (intro silent_bind keeps_rules call_bind leads_if recover_assistant_leads settled_step_leads) assumption+
qed

lemma publish_interrupted_leads:
  assumes "R v" and "ok_op operation"
  shows "leads val v (settled_step (publish_interrupted ops env operation response cx)) S N"
  unfolding publish_interrupted_def settled_step_def op_bind_assoc
  by (rule silent_bind, rule keeps_rules, rule assms, rule settled_step_leads [OF assms, unfolded settled_step_def])

section \<open>Retries and the start of a run\<close>

lemma go_on:
  "R v \<Longrightarrow> leads val v (op_return StepContinue) S N" "R v \<Longrightarrow> leads val v (op_return (StepWaitingRetry not_before)) S N"
  "R v \<Longrightarrow> leads val v (op_return (StepWaitingDeferred handle)) S N" "R v \<Longrightarrow> leads val v (op_return x) (\<lambda>_. R) N"
  by (simp_all add: leads_basic)

lemma transition_bind:
  assumes "R v" and "ok_op operation" and "fits strict M state" and "\<And>v'. R v' \<Longrightarrow> leads val v' (f ()) Q N"
  shows "leads val v (op_bind (transition ops env operation state cx) f) Q N"
  by (rule call_bind [OF transition_leads [OF assms(1-3)]]) (use assms(4) in simp)

lemma sleep_leads:
  "R v \<Longrightarrow> leads val v (if c then with_lane (\<lambda>rt. op_bind (pause env) (\<lambda>_. op_return (dv_sleep env (n rt) rt))) else op_return b) (\<lambda>_. R) N"
  by (rule steps go_on | assumption)+

lemma retry_wait_leads:
  assumes R: "R v" and op: "ok_op operation"
  shows "leads val v (retry_wait ops env operation wait cx) S N"
proof (cases "op_state_of operation")
  case (AssistantRetryWait scope gc retry)
  have "fits strict M (AssistantReady scope gc (rw_next_attempt retry))"
    by (rule fits_run [OF op]) (simp_all add: AssistantRetryWait run_state_def op_scope_def)
  then show ?thesis
    unfolding retry_wait_def AssistantRetryWait op_state.case option.case prod.case
    by - (rule R op go_on transition_bind reconcile_abort_leads sleep_leads | assumption | (rule silent_bind, rule quiet) |
      rule call_bind steps)+
next
  case (SummaryRetryWait scope gen retry)
  have "fits strict M (SummaryReady scope gen (rw_next_attempt retry))"
    by (rule fits_summary [OF op]) (simp_all add: SummaryRetryWait op_scope_def)
  then show ?thesis
    unfolding retry_wait_def SummaryRetryWait op_state.case option.case prod.case
    by - (rule R op go_on transition_bind reconcile_abort_leads sleep_leads | assumption | (rule silent_bind, rule quiet) |
      rule call_bind steps)+
qed (use R in \<open>simp_all add: retry_wait_def fail_step\<close>)

lemma start_run_leads:
  assumes R: "R v" and op: "ok_op operation" and at: "state_at (op_state_of operation) = At_Starting"
  shows "leads val v (start_run ops env operation cx) S N"
proof -
  have fits: "fits strict M (Checkpoint (op_scope operation) point)" for point
    by (rule fits_run [OF op]) (use at in \<open>cases "op_state_of operation", simp_all add: run_state_def\<close>)
  have "leads val v (op_bind (read_entries_by_id ops ids cx) (\<lambda>prompt.
           with_lane (\<lambda>rt.
           op_bind (run_with_gate env hook (lr_name rt, op_id operation, prompt) cx) (\<lambda>result.
           case result of
             Inr (Some (Some messages)) \<Rightarrow> append_injected_messages ops env messages cx
           | Inr _ \<Rightarrow> op_return ()
           | Inl error \<Rightarrow> op_fail (hook_failure error))))) (\<lambda>_. R) N" for ids hook
    unfolding read_entries_by_id_def
    by (rule R go_on append_injected_leads steps fail_step | assumption | (rule silent_bind, rule quiet))+
  then have "leads val v (case (prompt_ids (om_intent (op_meta operation)), hk_before_run (dv_hooks env)) of
         (i # ids, Some hook) \<Rightarrow>
           op_bind (read_entries_by_id ops (i # ids) cx) (\<lambda>prompt.
           with_lane (\<lambda>rt.
           op_bind (run_with_gate env hook (lr_name rt, op_id operation, prompt) cx) (\<lambda>result.
           case result of
             Inr (Some (Some messages)) \<Rightarrow> append_injected_messages ops env messages cx
           | Inr _ \<Rightarrow> op_return ()
           | Inl error \<Rightarrow> op_fail (hook_failure error))))
       | _ \<Rightarrow> op_return ()) (\<lambda>_. R) N"
    by (auto split: list.split option.split intro: go_on(4) R)
  then show ?thesis
    unfolding start_run_def by (rule call_bind) (rule op fits go_on transition_bind fail_step steps | assumption)+
qed

section \<open>Checkpoints\<close>

lemma run_state_at: "run_state state \<longleftrightarrow> state_at state \<notin>
    {At_SummaryDeciding, At_SummaryReady, At_SummaryEffectPending, At_SummaryRetryWait, At_NavigationReadyToCommit}"
  by (cases state) (simp_all add: run_state_def)

lemma generation_context_bind:
  assumes "R v" and "\<And>gc v'. R v' \<Longrightarrow> leads val v' (f gc) Q N"
  shows "leads val v (op_bind (generation_context env operation trigger used) f) Q N"
  unfolding generation_context_def op_bind_assoc
  by (rule assms steps | assumption | (rule silent_bind, rule quiet))+

lemma ready_leads:
  assumes R: "R v" and op: "ok_op operation" and run: "run_state (op_state_of operation)"
  shows "leads val v (ready_for_assistant ops env operation trigger used cx) S N"
proof -
  have fits: "fits strict M (AssistantReady (op_scope operation) gc n)" for gc n
    by (rule fits_run [OF op run]) (simp_all add: run_state_def)
  show ?thesis
    unfolding ready_for_assistant_def by (rule R op fits generation_context_bind transition_bind go_on | assumption)+
qed

lemma follow_up_leads:
  assumes R: "R v" and op: "ok_op operation" and run: "run_state (op_state_of operation)"
  shows "leads val v (append_run_follow_up ops env operation follow_up cx) S N"
proof -
  have fits: "fits strict M (AssistantReady (op_scope operation) gc n)" for gc n
    by (rule fits_run [OF op run]) (simp_all add: run_state_def)
  have block: "leads val v (with_lane (\<lambda>rt.
       op_bind (tip_write env (lr_name rt) (Some i)) (\<lambda>tip.
       op_bind (state_write env operation (AssistantReady (op_scope operation) gc 1)) (\<lambda>write.
       op_bind (lane_commit ops [entry_write i (la_tip (lr_data rt)) message False, tip, write] cx) (\<lambda>_.
       op_bind (put_data (\<lambda>d. d\<lparr>la_tip := Some i\<rparr>)) (\<lambda>_.
       put_operation (op_meta operation) (AssistantReady (op_scope operation) gc 1))))))) (\<lambda>_. R) N" if "R v" for v i gc message
    unfolding tip_write_def state_write_def ok_meta [OF op]
    by (rule that fits leads_with write_bind commit_bind put_tip_state | assumption | auto)+
  show ?thesis
    unfolding append_run_follow_up_def Let_def
    by (rule R block generation_context_bind pause_bind leads_if go_on fail_step | assumption | (rule silent_bind, rule quiet) | rule call_bind)+
qed

lemma context_messages_leads: "R v \<Longrightarrow> leads val v (session_context_messages ops env cx) (\<lambda>_. R) N"
  unfolding session_context_messages_def by (rule leads_silent, (rule keeps_rules)+) (auto intro: R_N)

lemma run_end_hook_leads: "R v \<Longrightarrow> leads val v (run_end_hook ops env operation cx) (\<lambda>_. R) N"
  unfolding run_end_hook_def
  by (rule steps go_on fail_step | assumption | rule call_bind context_messages_leads)+

lemma finish_leads:
  assumes R: "R v" and op: "ok_op operation" and run: "run_state (op_state_of operation)"
  shows "leads val v (finish_run_boundary ops env operation final cx) S N"
  unfolding finish_run_boundary_def renew_assistant_ready_def prod.case
  by (rule R op run run_end_hook_leads reconcile_abort_leads drain_inbox_leads ready_leads follow_up_leads settled_step_leads
    go_on fail_step | assumption | rule steps | rule call_bind)+

text \<open>A compaction in the middle of a run: never while it is disabled.\<close>

lemma fits_compacting:
  assumes "ok_op operation" and "run_state (op_state_of operation)" and "cs_enabled (rs_compaction (sc_settings (op_scope operation)))"
  shows "fits strict M state"
  using assms by (cases "om_intent M") (auto simp: opok_def fits_def op_scope_def run_state_kind)

abbreviation "SO started v \<equiv> (case started of None \<Rightarrow> R v | Some step \<Rightarrow> S step v)"

lemma some_step: "leads val v m S N \<Longrightarrow> leads val v (op_bind m (\<lambda>step. op_return (Some step))) SO N"
  by (erule leads_seq, rule leads_basic) simp

lemma compaction_leads:
  assumes R: "R v" and op: "ok_op operation" and run: "run_state (op_state_of operation)"
  shows "leads val v (maybe_start_compaction ops env operation trigger force cx) SO N"
proof (cases "cs_enabled (rs_compaction (sc_settings (op_scope operation)))")
  case True
  note fits = fits_compacting [OF op run True]
  have none: "leads val v (op_return None) SO N" "leads val v (op_return (Some StepContinue)) SO N" if "R v" for v
    using that by (simp_all add: leads_basic)
  show ?thesis
    unfolding maybe_start_compaction_def Let_def
    by (rule R op fits none some_step settle_failure_leads transition_with_preparation_leads fail_step | assumption
      | (rule silent_bind, (rule quiet | (rule keeps_if, rule quiet, rule quiet)))
      | rule steps | rule call_bind)+
qed (use R in \<open>simp add: maybe_start_compaction_def leads_basic\<close>)

lemma checkpoint_leads:
  assumes R: "R v" and op: "ok_op operation"
  shows "leads val v (checkpoint ops env operation cx) S N"
proof (cases "op_state_of operation")
  case (Checkpoint scope point)
  then have run: "run_state (op_state_of operation)" by (simp add: run_state_def)
  have trigger: "leads val v (if c then op_return t else op_bind (pause env) (\<lambda>_. op_read g)) (\<lambda>_. R) N"
    if "R v" for v c g and t :: entry_id
    using that by (intro leads_if go_on pause_bind leads_silent keeps_basic R_N) auto
  have start: "leads val v (case started of Some step \<Rightarrow> op_return step | None \<Rightarrow> ready_for_assistant ops env operation t used cx) S N"
    if "SO started v" for v started t used
    using that ready_leads [OF _ op run] by (cases started) (auto intro: leads_basic)
  have forced: "leads val v (if c then is_length_response ops env i cx else op_return False) (\<lambda>_. R) N" if "R v" for v c i
    unfolding is_length_response_def using that by (intro leads_if go_on silent_bind keeps_rules leads_option fail_step)
  show ?thesis
    unfolding checkpoint_def Checkpoint op_state.case renew_assistant_ready_def
    by (rule R op run drain_inbox_leads trigger finish_leads ready_leads forced | assumption | (erule start) | rule leads_continuation leads_option
      | (rule leads_seq, rule compaction_leads) | rule call_bind)+
qed (use R in \<open>simp_all add: checkpoint_def fail_step\<close>)

end

end
