(* ===== verification/Drive_Responses.thy ===== *)
theory Drive_Responses
  imports Drive_Checkpoints
begin

text \<open>
  The invariant of a drive through the requests to the model: the stream of a response, what it
  leads to and its publication, failures, and deferred responses.
\<close>

section \<open>What a response leads to\<close>

definition response_ok :: "'j op_state \<Rightarrow> 'j response_transition \<Rightarrow> bool" where
  "response_ok pending t \<longleftrightarrow> run_state (rx_next_state t) \<and> keeps_operation (rx_next_state t) \<and>
     sc_settings (state_scope (rx_next_state t)) = sc_settings (state_scope pending) \<and>
     (rx_status t = Failed \<longrightarrow> rx_error t \<noteq> None \<longrightarrow> state_at (rx_next_state t) = At_Checkpoint)"

lemma awaited_cases:
  assumes "pending_response_id pending = Inr response"
  obtains (assistant) scope gc n u l w where "pending = AssistantEffectPending scope gc n response u l w"
  | (deferred) d u where "pending = DeferredEffectPending d response u"
  using assms by (auto simp: pending_response_id_def split: op_state.splits)

lemma error_state_ok:
  assumes "error_response_state env pending message response rt = (Inr t, rt')"
  shows "response_ok pending t"
  using assms
  by (auto simp: error_response_state_def Let_def op_bind_def response_ok_def run_state_def may_finish_def
    split: prod.splits sum.splits option.splits)

lemma response_state_ok:
  assumes "assistant_response_state env pending message calls response rt = (Inr t, rt')"
    and "pending_response_id pending = Inr response"
  shows "response_ok pending t"
proof (cases "am_stop_reason message = Sr_Error")
  case True
  with assms(1) show ?thesis by (auto simp: assistant_response_state_def intro: error_state_ok)
next
  case False
  then show ?thesis
    using assms(1) by (cases rule: awaited_cases [OF assms(2)])
      (auto simp: assistant_response_state_def length_response_state_def deferred_response_state_def tool_use_response_state_def
        finish_response_state_def may_finish_def response_ok_def run_state_def op_bind_def
        split: if_splits prod.splits sum.splits)
qed

lemma fits_response:
  assumes "opok strict M operation" and "pending_response_id (op_state_of operation) = Inr response" and "response_ok (op_state_of operation) t"
  shows "fits strict M (rx_next_state t)"
proof (rule fits_run [OF assms(1)])
  show "run_state (op_state_of operation)"
    by (cases rule: awaited_cases [OF assms(2)]) (simp_all add: run_state_def)
qed (use assms(3) in \<open>simp_all add: response_ok_def op_scope_def\<close>)

section \<open>The stream\<close>

lemma session_errors_silent:
  "append_list a x = Inr w \<Longrightarrow> foreign_write w"
  by (auto simp: append_list_def rbind_eq_Inr_iff)

context drive_run
begin

text \<open>An error of a stream leaves the operation as it is.\<close>

abbreviation "streams v m \<equiv> leads val v m (\<lambda>_. R) R"

lemma stream_atoms:
  assumes "R v"
  shows "streams v (pause env)" and "streams v (outside env g)" and "streams v (run_with_gate env hook event cx)"
    and "streams v (op_return a)" and "streams v (op_fail e)" and "streams v (op_read h)"
  using leads_pause [OF others_keep assms] leads_outside [OF others_keep assms] leads_hook [OF others_keep assms] assms
  by (auto intro: leads_basic leads_read)

lemma stream_bind: "streams v m \<Longrightarrow> (\<And>a v'. R v' \<Longrightarrow> streams v' (f a)) \<Longrightarrow> streams v (op_bind m f)"
  by (rule leads_seq)

lemma observer_commit_leads:
  assumes R: "R v" and ws: "list_all foreign_write ws"
  shows "streams v (observer_commit ops ws cx :: ('w, 'm, 'g, 'j, unit) stream_op)"
proof -
  have view: "R (view_of val (snd (observer_commit ops ws cx rt)))" if v: "view_of val rt = v" for rt :: "('w, 'm, 'g, 'j) lane_runtime"
  proof (cases "mutation_commit ops ws cx (lr_session rt)")
    case (Pair r s)
    obtain b where b: "begin_mutation cx (lr_session rt) = (b, lr_session rt)"
      using keeps_begin [of id cx] unfolding keeps_def id_def by (metis prod.collapse)
    have "R (view_of val (rt\<lparr>lr_session := s\<rparr>))"
    proof (cases r)
      case (Inl e)
      with Pair have "mutation_commit ops ws cx (lr_session rt) = (Inl e, s)" by simp
      from core_obs [OF mutation_commit_Inl [OF this]] have "view_of val (rt\<lparr>lr_session := s\<rparr>) = v"
        using v by (auto simp: view_of_def)
      with R show ?thesis by simp
    next
      case (Inr c)
      with mutation_commit_Inr Pair obtain m where m: "so_commit ops ws (without_cancellation cx) (bk_storage (lr_session rt)) = (Inr c, m)"
        "s = (lr_session rt)\<lparr>bk_storage := m\<rparr>" by blast
      have "view_of val (rt\<lparr>lr_session := s\<rparr>) = v\<lparr>v_slots := foldl value_effect (v_slots v) ws\<rparr>"
        using commit_ok [OF m(1)] m(2) v by (auto simp: view_of_def)
      then show ?thesis using running_foreign [OF R filter_foreign [OF ws]] by simp
    qed
    with Pair b R v show ?thesis
      by (auto simp: observer_commit_def op_bind_def split: sum.splits)
  qed
  show ?thesis by (rule leadsI) (metis view snd_conv)+
qed

lemma observe_event_leads:
  assumes "R v"
  shows "streams v (observe_event ops env i response cx event message enc)"
proof -
  have store: "streams v (op_bind (op_read (\<lambda>_. map_err g (append_list a x))) (\<lambda>write. observer_commit ops [write] cx)
      :: ('w, 'm, 'g, 'j, unit) stream_op)" if "R v" for v g a x
  proof (rule leads_read_bind, rule that)
    fix rt and w :: "('j, 'f) session_write"
    assume "map_err g (append_list a x) = Inr w"
    then have "foreign_write w" by (auto simp: map_err_eq_Inr_iff intro: session_errors_silent)
    then show "streams v (observer_commit ops [w] cx :: ('w, 'm, 'g, 'j, unit) stream_op)"
      by (intro observer_commit_leads that) simp
  qed
  show ?thesis
    unfolding observe_event_def gate_admit_def observe_message_def
    by (rule assms store stream_atoms leads_prod leads_option | assumption | rule stream_bind)+
qed

lemma consume_event_leads:
  assumes "R v"
  shows "streams v (consume_event ops env i response cx event sg)"
  unfolding consume_event_def
  using assms by (cases event) (simp_all, (rule impI conjI stream_bind observe_event_leads stream_atoms leads_if leads_option | assumption)+)

lemma consume_items_leads: "R v \<Longrightarrow> streams v (consume_items ops env i response cx items sg)"
proof (induction items arbitrary: v sg)
  case (Cons item items)
  then show ?case
    unfolding consume_items.simps
    by (cases item) (simp_all, (rule stream_bind consume_event_leads stream_atoms | assumption | rule Cons)+)
qed (unfold consume_items.simps, (rule stream_bind stream_atoms | assumption)+)

lemma consume_stream_leads:
  assumes "R v"
  shows "streams v (consume_stream ops env i response cx items)"
  unfolding consume_stream_def apply_after_response_def observe_end_def observe_message_def
  by (rule assms consume_items_leads stream_atoms leads_if leads_option leads_sum leads_prod leads_hook_case leads_gate_case leads_with
    | assumption | rule stream_bind)+

lemma stream_assistant_leads:
  "R v \<Longrightarrow> streams v (stream_harness_assistant ops env i response cx messages model prompt offered level options)"
  unfolding stream_harness_assistant_def transform_context_def gate_admit_def
  by (rule consume_stream_leads stream_atoms leads_option leads_sum leads_prod leads_hook_case leads_with | assumption | rule stream_bind)+

lemma stream_deferred_leads:
  "R v \<Longrightarrow> streams v (stream_harness_deferred ops env i response cx model handle level options)"
  unfolding stream_harness_deferred_def gate_admit_def
  by (rule consume_stream_leads stream_atoms | assumption | rule stream_bind)+

section \<open>Publication\<close>

lemma keeps_plan [keeps_rules]: "keeps (view_of val) (plan_calls env calls)"
proof (induction calls)
  case (Cons call calls)
  then show ?case by (cases call) (simp only: plan_calls.simps, (rule keeps_rules | assumption)+)
qed (unfold plan_calls.simps, rule keeps_rules)

lemma keeps_response_state: "keeps (view_of val) (assistant_response_state env pending message calls response)"
  unfolding assistant_response_state_def error_response_state_def tool_use_response_state_def retry_or_stop_def Let_def
  by (rule keeps_rules)+

lemma yields_response_state:
  "pending_response_id pending = Inr response \<Longrightarrow>
   yields val v (assistant_response_state env pending message calls response) (response_ok pending)"
  by (auto simp: yields_def intro: response_state_ok)

lemma committed_cases:
  "committed status error rec v \<Longrightarrow> or_status rec = Failed \<and> or_error rec \<noteq> None \<Longrightarrow> leads val v (op_return (StepSettled rec)) S N"
  "committed status error rec v \<Longrightarrow> \<not> (or_status rec = Failed \<and> or_error rec \<noteq> None) \<Longrightarrow> R v"
  by (auto intro: leads_basic split: if_splits)

lemma publish_response_leads:
  assumes R: "R v" and op: "ok_op operation" and pend: "ok_op pending"
  shows "leads val v (publish_response ops env operation (op_state_of pending) message cx) S N"
  unfolding publish_response_def
proof (rule read_bind, rule R, rule read_bind, rule R, rule read_bind, rule R, rule yields_bind_leads, erule yields_response_state,
    rule keeps_response_state, rule R, rule leads_seq)
  fix response usage assistant and t :: "'j response_transition"
  assume "pending_response_id (op_state_of pending) = Inr response" and t: "response_ok (op_state_of pending) t"
  then have "fits strict M (rx_next_state t)" by (intro fits_response [OF pend])
  with t show "leads val v (commit_assistant ops env operation
       \<lparr>ac_response_id = response, ac_assistant = assistant, ac_usage = am_usage message, ac_usage_id = usage,
        ac_next_state = rx_next_state t, ac_status = rx_status t, ac_error = rx_error t\<rparr> cx) (committed (rx_status t) (rx_error t)) N"
    using commit_assistant_leads [OF R op, of "\<lparr>ac_response_id = response, ac_assistant = assistant, ac_usage = am_usage message,
      ac_usage_id = usage, ac_next_state = rx_next_state t, ac_status = rx_status t, ac_error = rx_error t\<rparr>" cx]
    by (simp add: response_ok_def)
qed (rule leads_if, erule committed_cases, assumption,
  (rule go_on steps fail_step | assumption | (erule committed_cases(2), assumption) | (rule silent_bind, rule quiet)
    | (rule leads_basic, simp split: op_state.split))+)

lemma publish_unless_cancelled_leads:
  assumes R: "R v" and op: "ok_op operation"
  shows "leads val v (publish_unless_cancelled ops env kind operation message cx) S N"
  unfolding publish_unless_cancelled_def
  by (rule R op publish_response_leads publish_interrupted_leads fail_step steps | assumption | (rule silent_bind, rule quiet) | simp)+

section \<open>Failures\<close>

lemma keeps_retry [keeps_rules]: "keeps (view_of val) (retry_or_stop env kind policy n message)"
  unfolding retry_or_stop_def by (rule keeps_rules)+

lemma N_owner_fault: "R (view_of val rt) \<Longrightarrow> N (view_of val (owner_fault fault rt))"
  using view_owner_fault [of val fault rt] R_N N_fault by (metis (no_types))

lemma fail_with_fault_leads: "R v \<Longrightarrow> leads val v (fail_with_fault fault) Q N"
  by (auto simp: leads_def fail_with_fault_def Let_def intro: N_owner_fault)

lemma stream_failure_leads:
  assumes R: "R v" and op: "ok_op operation" and run: "run_state (op_state_of operation)"
  shows "leads val v (stream_failure ops env operation gc n error cx) S N"
proof -
  have fits: "fits strict M (AssistantRetryWait (op_scope operation) gc wait)" for wait
    by (rule fits_run [OF op run]) (simp_all add: run_state_def)
  show ?thesis
    unfolding stream_failure_def
    by (cases error) (simp_all only: stream_error.case,
      (rule R op fits reconcile_abort_leads fail_with_fault_leads settle_failure_leads transition_bind fail_step go_on steps | assumption
        | (rule silent_bind, rule keeps_retry))+)
qed

lemma deferred_failure_leads:
  assumes R: "R v" and op: "ok_op operation"
  shows "leads val v (deferred_stream_failure ops env operation error cx) S N"
  unfolding deferred_stream_failure_def
  by (cases error) (simp_all only: stream_error.case,
    (rule R op reconcile_abort_leads fail_with_fault_leads fail_step steps | assumption)+)

section \<open>Requests\<close>

lemma request_options_leads:
  assumes R: "R v" and op: "ok_op operation" and "\<And>options v'. R v' \<Longrightarrow> leads val v' (f options) S N"
  shows "leads val v (with_request_options ops env operation model step n options cx f) S N"
proof -
  have "leads val v (before_request_options env operation model step n options cx) (\<lambda>_. R) N"
    unfolding before_request_options_def by (rule R go_on steps | assumption)+
  then show ?thesis
    unfolding with_request_options_def
    by (rule call_bind) (rule op assms(3) reconcile_abort_leads fail_step steps | assumption)+
qed

lemma read_leads: "R v \<Longrightarrow> leads val v (op_read g) (\<lambda>_. R) N"
  by (intro leads_silent keeps_basic R_N)

lemma tool_context_leads: "R v \<Longrightarrow> leads val v (resolve_tool_context env) (\<lambda>_. R) N"
  unfolding resolve_tool_context_def run_source_def by (rule go_on steps read_leads | assumption)+

lemma prompt_leads: "R v \<Longrightarrow> leads val v (resolve_system_prompt env) (\<lambda>_. R) N"
  unfolding resolve_system_prompt_def run_source_def
  by (rule go_on steps read_leads fail_step | assumption | rule call_bind tool_context_leads)+

lemma stream_call:
  assumes "streams v m" and "\<And>r v'. R v' \<Longrightarrow> leads val v' (f r) Q N"
  shows "leads val v (op_bind (try_stream m) f) Q N"
  by (rule leads_seq [OF leads_try [where Q = "\<lambda>_. R"]]) (use assms in auto)

lemma generation_leads:
  assumes R: "R v" and op: "ok_op operation"
  shows "leads val v (generation ops env operation cx) S N"
proof (cases "op_state_of operation")
  case (AssistantReady scope gc n)
  then have run: "run_state (op_state_of operation)" by (simp add: run_state_def)
  have fits: "fits strict M (AssistantEffectPending scope gc' n response usage limit window)" for gc' response usage limit window
    by (rule fits_run [OF op run]) (simp_all add: AssistantReady run_state_def op_scope_def)
  show ?thesis
    unfolding generation_def AssistantReady op_state.case Let_def
    by (rule R op run fits settle_failure_leads request_options_leads transition_bind stream_call stream_assistant_leads
        stream_failure_leads publish_unless_cancelled_leads context_messages_leads prompt_leads fail_step
      | assumption | rule leads_option leads_sum | (rule silent_bind, rule quiet) | rule call_bind)+
qed (use R in \<open>simp_all add: generation_def fail_step\<close>)

lemma poll_leads:
  assumes R: "R v" and op: "ok_op operation" and run: "run_state (op_state_of operation)"
    and "sc_settings (df_scope deferred') = sc_settings (op_scope operation)" and writes: "list_all foreign_write writes"
  shows "leads val v (poll_deferred ops env operation deferred deferred' writes handle model cx) S N"
proof -
  have fits: "fits strict M (DeferredEffectPending deferred' response usage)" for response usage
    by (rule fits_run [OF op run]) (simp_all add: assms(4) run_state_def)
  show ?thesis
    unfolding poll_deferred_def
    by (rule R op run fits writes request_options_leads transition_with_writes_leads stream_call stream_deferred_leads
        deferred_failure_leads publish_unless_cancelled_leads
      | assumption | rule leads_sum | (rule silent_bind, rule quiet) | rule call_bind)+
qed

lemma deferred_leads:
  assumes R: "R v" and op: "ok_op operation"
  shows "leads val v (deferred_suspended ops env operation poll cx) S N" "leads val v (recover_deferred_effect ops env operation poll cx) S N"
proof -
  show "leads val v (deferred_suspended ops env operation poll cx) S N"
  proof (cases "op_state_of operation")
    case (DeferredSuspended d)
    show ?thesis
      unfolding deferred_suspended_def DeferredSuspended op_state.case
      by (rule R op poll_leads go_on leads_if | assumption | (rule silent_bind, rule quiet) | simp add: DeferredSuspended run_state_def op_scope_def)+
  qed (use R in \<open>simp_all add: deferred_suspended_def fail_step\<close>)
  show "leads val v (recover_deferred_effect ops env operation poll cx) S N"
  proof (cases "op_state_of operation")
    case (DeferredEffectPending d response usage)
    show ?thesis
      unfolding recover_deferred_effect_def DeferredEffectPending op_state.case
      by (rule R op poll_leads go_on leads_if | assumption | (rule silent_bind, rule quiet) | simp add: DeferredEffectPending run_state_def op_scope_def)+
  qed (use R in \<open>simp_all add: recover_deferred_effect_def fail_step\<close>)
qed

end

end
