(* ===== verification/Drive_Tools.thy ===== *)
theory Drive_Tools
  imports Drive_Responses
begin

text \<open>The invariant of a drive through tool calls, one after the other and together.\<close>

context drive_run
begin

definition running_op :: "'j operation \<Rightarrow> bool" where
  "running_op operation \<longleftrightarrow> opok strict M operation \<and>
  (\<forall>state :: 'j op_state. run_state state \<longrightarrow> sc_settings (state_scope state) = sc_settings (op_scope operation) \<longrightarrow> fits strict M state)"

lemma running_op_run: "ok_op operation \<Longrightarrow> run_state (op_state_of operation) \<Longrightarrow> running_op operation"
  by (auto simp: running_op_def intro: fits_run)

lemma running_op_ok: "running_op operation \<Longrightarrow> ok_op operation"
  by (simp add: running_op_def)

text \<open>The operation read again is still one of a run.\<close>

lemma running_op_current:
  assumes "running_op operation" and "run_state (op_state_of operation)" and "ok_op current"
  shows "running_op current"
  using assms unfolding running_op_def
proof (cases "om_intent M")
  case (IntentRun ids)
  then show "ok_op current \<and> (\<forall>state :: 'j op_state. run_state state \<longrightarrow>
      sc_settings (state_scope state) = sc_settings (op_scope current) \<longrightarrow> fits strict M state)"
    using assms(3) by (auto simp: fits_def opok_def run_state_kind op_scope_def)
qed (auto simp: fits_def opok_def run_state_kind)

lemma fits_tools: "running_op operation \<Longrightarrow> fits strict M (tools_state operation batch)"
  and fits_batch: "running_op operation \<Longrightarrow> fits strict M (Checkpoint (batch_scope operation batch) point :: 'j op_state)"
  by (simp_all add: running_op_def tools_state_def batch_scope_def run_state_def)

section \<open>One call\<close>

lemma run_tool_leads: "R v \<Longrightarrow> leads val v (run_tool env i turn entry call) (\<lambda>_. R) N"
  using others_keep by (auto simp: leads_def run_tool_def undisturbed_def split: prod.split) (metis snd_conv)

lemma start_tool_leads: "R v \<Longrightarrow> leads val v (start_tool env operation call) (\<lambda>_. R) N"
  unfolding start_tool_def by (rule go_on tool_context_leads steps | assumption | rule call_bind)+

lemma keeps_executed [keeps_rules]: "keeps (view_of val) (tool_executed env call outcome)"
  unfolding tool_executed_def Let_def by (rule keeps_rules)+

lemma executed_leads: "R v \<Longrightarrow> leads val v (tool_executed env call outcome) (\<lambda>_. R) N"
  by (intro leads_silent keeps_rules R_N)

lemma execute_tool_leads: "R v \<Longrightarrow> leads val v (execute_tool env operation turn entry call) (\<lambda>_. R) N"
  unfolding execute_tool_def
  by (rule start_tool_leads run_tool_leads executed_leads go_on pause_bind leads_option | assumption | rule call_bind)+

lemma foreign_commit_bind:
  assumes "R v" and "list_all foreign_write ws" and "\<And>c v'. R v' \<Longrightarrow> leads val v' (k c) Q N"
  shows "leads val v (op_bind (lane_commit ops ws cx) k) Q N"
  by (rule commit_bind, rule assms(1), rule assms(3), rule running_foreign [OF assms(1)]) (use assms(2) in simp)

lemma stage_output_leads: "R v \<Longrightarrow> leads val v (stage_output ops env operation entry staged cx) (\<lambda>_. R) N"
  unfolding stage_output_def by (rule write_bind foreign_commit_bind go_on | assumption | simp)+

section \<open>Calls one after the other\<close>

abbreviation "TO outcome v \<equiv> (case outcome of Inl rec \<Rightarrow> D rec v | Inr _ \<Rightarrow> R v)"

lemma recover_tool_leads:
  assumes "R v" and "ok_op operation"
  shows "leads val v (recover_sequential_tool ops env operation rec call cx) TO N"
  unfolding recover_sequential_tool_def settle_failure_def staged_tool_result_def
  by (rule assms leads_option | (rule silent_bind, rule quiet) | (rule leads_seq, rule settle_leads) | (rule leads_basic, simp))+

lemma run_sequential_leads:
  assumes R: "R v" and op: "running_op operation"
  shows "leads val v (run_sequential_tool ops env operation batch index call cx) (\<lambda>(_, outcome). TO outcome) N"
  unfolding run_sequential_tool_def Let_def args_write_def
  by (rule R running_op_ok op fits_tools transition_with_writes_leads transition_leads execute_tool_leads stage_output_leads
      leads_if write_bind leads_prod | assumption | (rule leads_basic, simp) | simp | (rule leads_seq, rule recover_tool_leads) | rule call_bind)+

lemma sequential_leads:
  assumes op: "running_op operation"
  shows "R v \<Longrightarrow> leads val v (sequential_tools ops env operation cx calls batch results terminate) TO N"
proof (induction calls arbitrary: v batch results terminate)
  case (Cons c calls)
  have next_call: "leads val v (case p of (batch, outcome) \<Rightarrow> case outcome of
        Inl rec \<Rightarrow> op_return (Inl rec)
      | Inr (message, ends) \<Rightarrow> sequential_tools ops env operation cx calls batch (results @ [message]) (terminate \<or> ends)) TO N"
    if "(case p of (_, outcome) \<Rightarrow> TO outcome) v" for p v
    using that Cons.IH by (cases p; cases "snd p") (auto intro: leads_basic)
  show ?case
    using Cons.prems op by (cases c) (auto intro!: leads_option fail_step leads_seq [OF run_sequential_leads next_call])
qed (simp add: leads_basic)

section \<open>Publishing results\<close>

lemma foreign_results:
  "tool_result_writes env i terminate calls results parent = Inr (writes, tip) \<Longrightarrow> list_all foreign_write writes"
  by (induction env i terminate calls results parent arbitrary: writes tip rule: tool_result_writes.induct)
    (auto simp: rbind_eq_Inr_iff)

lemma keeps_entries_committed [keeps_rules]: "keeps (view_of val) (entries_committed ops ids text cx)"
  by (induction ids) (simp_all only: entries_committed.simps, (rule keeps_rules | assumption)+)

lemma commit_results_leads:
  assumes R: "R v" and op: "running_op operation"
  shows "leads val v (commit_tool_results ops env operation batch results terminate cx) (\<lambda>rec v. or_status rec = Completed \<and> R v) N"
proof -
  have block: "leads val v (with_lane (\<lambda>rt.
       op_bind (op_read (\<lambda>_. tool_result_writes env (op_id operation) terminate (tb_calls batch) results (la_tip (lr_data rt)))) (\<lambda>(writes, parent).
       op_bind (op_read (\<lambda>_. ok_or parent (harness_invariant ''tool results have no tip''))) (\<lambda>trigger.
       op_bind (state_write env operation (state trigger)) (\<lambda>write.
       op_bind (tip_write env (lr_name rt) parent) (\<lambda>tip.
       op_bind (lane_commit ops (writes @ [write, tip]) cx) (\<lambda>_.
       op_bind (put_data (\<lambda>d. d\<lparr>la_tip := parent\<rparr>)) (\<lambda>_.
       op_bind (put_operation (op_meta operation) (state trigger)) (\<lambda>_. op_return parent))))))))) (\<lambda>_. R) N"
    if "R v" and "\<And>t. fits strict M (state t)" for v state
    unfolding state_write_def tip_write_def ok_meta [OF running_op_ok [OF op]]
    by (rule that leads_with leads_prod read_bind write_bind commit_bind put_tip_state_bind go_on | assumption
      | (auto dest: foreign_results))+
  show ?thesis
    unfolding commit_tool_results_def Let_def
    by (rule R block fits_batch op pause_bind | assumption | (rule silent_bind, rule keeps_entries_committed quiet)
      | (rule leads_basic, simp) | rule call_bind)+
qed

lemma results_step:
  assumes "R v" and "running_op operation"
  shows "leads val v (op_bind (commit_tool_results ops env operation batch results terminate cx) (\<lambda>rec. op_return (continue_after_tools rec))) S N"
  by (rule leads_seq [OF commit_results_leads [OF assms]], rule leads_basic) (simp add: continue_after_tools_def)

section \<open>Calls together\<close>

abbreviation "PO outcome v \<equiv> (case outcome of Inl step \<Rightarrow> S step v | Inr _ \<Rightarrow> R v)"

lemma keeps_prepare [keeps_rules]: "keeps (view_of val) (prepare_calls env operation calls batch)"
proof (induction calls arbitrary: batch)
  case (Cons c calls)
  show ?case
    by (cases c) (simp only: prepare_calls.simps args_write_def, (rule keeps_rules Cons.IH)+)
qed (simp only: prepare_calls.simps, rule keeps_rules)

lemma yields_prepare: "yields val v (prepare_calls env operation calls batch) (\<lambda>(writes, _). list_all foreign_write writes)"
proof (induction calls arbitrary: batch)
  case (Cons c calls)
  obtain source call where c: "c = (source, call)" by (cases c)
  show ?case
  proof (cases "call_position source (tb_calls batch)")
    case (Some index)
    have "yields val v (op_bind (args_write env operation (tb_turn_id batch) source call) (\<lambda>write.
          op_bind (prepare_calls env operation calls (set_status index (EffectPending Never) batch)) (\<lambda>(writes, batch).
          op_return (write # writes, batch)))) (\<lambda>(writes, _). list_all foreign_write writes)"
      unfolding args_write_def
      by (rule yields_bind, rule yields_write, rule keeps_rules, rule yields_bind, rule Cons.IH, rule keeps_rules)
        (auto intro!: yields_return)
    then show ?thesis unfolding c prepare_calls.simps Some option.case by (simp add: yields_def)
  qed (simp add: c yields_def)
qed (simp add: yields_def)

lemma prepare_leads:
  assumes "R v" and "running_op operation"
  shows "leads val v (prepare_parallel_tools ops env operation batch calls cx) (\<lambda>_. R) N"
  unfolding prepare_parallel_tools_def
  by (rule yields_bind_leads, rule yields_prepare, rule keeps_rules, rule assms, rule leads_prod, rule call_bind,
    rule transition_with_writes_leads) (use assms in \<open>auto intro: running_op_ok fits_tools go_on\<close>)

lemma left_step: "leads val v m S N \<Longrightarrow> leads val v (op_bind m (\<lambda>step. op_return (Inl step))) PO N"
  by (erule leads_seq, rule leads_basic) simp

lemma commit_parallel_leads:
  assumes R: "R v" and op: "running_op operation" and run: "run_state (op_state_of operation)"
  shows "leads val v (commit_parallel_tool_result ops env operation batch index executed cx) PO N"
  unfolding commit_parallel_tool_result_def Let_def
  by (cases executed) (simp only: prod.case, (assumption | rule R running_op_ok [OF op] left_step reconcile_abort_leads stage_output_leads
    transition_leads fits_tools running_op_current [OF op run] fail_step steps | (rule leads_basic, simp) | rule call_bind | simp)+)

text \<open>One turn among the tools running together.\<close>

lemma parallel_loop_leads:
  assumes op: "running_op operation" and run: "run_state (op_state_of operation)"
  shows "R v \<Longrightarrow> leads val v (parallel_loop ops env operation turn cx calls batch results terminate) PO N"
proof (induction calls arbitrary: v batch results terminate rule: measure_induct_rule [where f = calls_left])
  case (less calls)
  show ?case
  proof (cases calls)
    case Nil
    show ?thesis unfolding Nil parallel_loop.simps by (rule leads_basic) (use less.prems in simp)
  next
    case (Cons r rs)
    have k: "n mod length (r # rs) < length (r # rs)" for n by simp
    note left = calls_left_begin [of _ "r # rs"] calls_left_return [of _ "r # rs"]
    note again = less.IH [unfolded Cons]
    have go: "leads val v (case outcome of Inl step \<Rightarrow> op_return (Inl step) | Inr batch \<Rightarrow>
        parallel_loop ops env operation turn cx (take k (r # rs) @ drop (Suc k) (r # rs)) batch results terminate) PO N"
      if "PO outcome v" and "k < length (r # rs)" for outcome v k results terminate
      using that again [OF left(2)] by (cases outcome) (auto intro: leads_basic)
    show ?thesis
      unfolding Cons parallel_loop.simps Let_def
      by (assumption | rule less.prems go k again [OF left(1)] run_tool_leads start_tool_leads executed_leads pause_bind leads_with leads_if
          leads_option | (rule leads_seq, rule commit_parallel_leads [OF _ op run]) | rule call_bind)+
  qed
qed

abbreviation "EO outcome v \<equiv> (case outcome of Inl step \<Rightarrow> S step v | Inr (_, current, _, _) \<Rightarrow> running_op current \<and> R v)"

lemma execute_parallel_leads:
  assumes R: "R v" and op: "running_op operation" and run: "run_state (op_state_of operation)"
  shows "leads val v (execute_parallel_tools ops env operation batch calls cx) EO N"
proof -
  have stop: "leads val v (op_return (Inl step)) EO N" if "S step v" for step v
    using that by (simp add: leads_basic)
  have abort: "leads val v (op_bind (reconcile_abort ops env current cx) (\<lambda>step. op_return (Inl step))) EO N"
    if "R v" and "ok_op current" for v current
    by (rule leads_seq [OF reconcile_abort_leads [OF that]], rule stop)
  have finish: "leads val v (if None \<in> set results then op_fail (harness_invariant ''parallel tool result is missing'')
         else
           op_bind (pause env) (\<lambda>_.
           op_bind current_operation (\<lambda>current.
           case current of
             None \<Rightarrow> op_fail (harness_invariant ''parallel tool operation disappeared before commit'')
           | Some current \<Rightarrow>
               op_bind (pause env) (\<lambda>_.
               with_lane (\<lambda>rt.
               if boundary_cancelled rt then op_bind (reconcile_abort ops env current cx) (\<lambda>step. op_return (Inl step))
               else op_return (Inr (batch, current, map the results, terminate))))))) EO N" if "R v" for v batch results terminate
    by (rule that abort fail_step steps | assumption | (rule leads_basic, use running_op_current [OF op run] in simp) | simp)+
  show ?thesis
    unfolding execute_parallel_tools_def
    by (rule silent_bind, rule quiet, rule R, rule leads_seq, rule parallel_loop_leads [OF op run], rule R)
      (rule leads_sum leads_prod finish stop | simp)+
qed

lemma parallel_tools_leads:
  assumes R: "R v" and op: "running_op operation" and run: "run_state (op_state_of operation)"
  shows "leads val v (parallel_tools ops env operation batch calls cx) S N"
  unfolding parallel_tools_def
  by (rule call_bind, rule prepare_leads [OF R op], rule leads_seq, rule execute_parallel_leads [OF _ op run], assumption)
    (rule leads_sum leads_prod results_step | simp | (rule leads_basic, simp))+

lemma tools_leads:
  assumes R: "R v" and op: "ok_op operation"
  shows "leads val v (tools ops env operation cx) S N"
proof (cases "op_state_of operation")
  case (Tools scope batch)
  then have run: "run_state (op_state_of operation)" by (simp add: run_state_def)
  note rop = running_op_run [OF op run]
  have results: "leads val v (case outcome of Inl rec \<Rightarrow> op_return (StepSettled rec)
      | Inr (batch, results, terminate) \<Rightarrow> op_bind (commit_tool_results ops env operation batch results terminate cx) (\<lambda>rec.
          op_return (continue_after_tools rec))) S N" if "TO outcome v" for outcome v
    using that results_step [OF _ rop] by (cases outcome) (auto intro: leads_basic)
  show ?thesis
    unfolding tools_def Tools op_state.case Let_def
    by (rule R rop run parallel_tools_leads results leads_with leads_if | assumption | (rule silent_bind, rule quiet)
      | (rule leads_seq, rule sequential_leads))+
qed (use R in \<open>simp_all add: tools_def fail_step\<close>)

end

end
