(* ===== verification/Drive_Summaries.thy ===== *)
theory Drive_Summaries
  imports Drive_Tools
begin

text \<open>The invariant of a drive through summaries and navigation.\<close>

context drive_run
begin

section \<open>Generation\<close>

lemma start_summary_leads:
  assumes R: "R v" and op: "ok_op operation" and task: "summary_task_of (op_state_of operation) = Some task"
  shows "leads val v (start_summary_generation ops env operation task cx) S N"
proof -
  have fits: "fits strict M (SummaryReady (op_scope operation) \<lparr>sn_task = task, sn_summary_context = sx\<rparr> n)" for sx n
    by (rule fits_summary [OF op task]) simp_all
  show ?thesis
    unfolding start_summary_generation_def load_structural_preparation_def op_bind_assoc
    by (rule R op fits settle_failure_leads transition_bind go_on fail_step leads_if leads_option | assumption | (rule silent_bind, rule quiet))+
qed

lemma ensure_request_leads:
  assumes R: "R v" and op: "ok_op operation" and task: "summary_task_of (op_state_of operation) = Some (sn_task gen)"
  shows "leads val v (ensure_summary_request ops env operation gen n cx) (\<lambda>_. R) N"
proof -
  have fits: "fits strict M (SummaryEffectPending (op_scope operation) gen n request ids)" for request ids
    by (rule fits_summary [OF op task]) simp_all
  show ?thesis
    unfolding ensure_summary_request_def Let_def
    by (cases "op_state_of operation") (simp_all only: op_state.case,
      (rule R op fits transition_bind go_on leads_option | assumption | (rule silent_bind, rule quiet))+)
qed

lemma summary_failure_leads:
  assumes R: "R v" and op: "ok_op operation" and task: "summary_task_of (op_state_of operation) = Some (sn_task gen)"
  shows "leads val v (summary_failure ops env operation gen n code message cx) S N"
proof -
  have fits: "fits strict M (SummaryRetryWait (op_scope operation) gen wait)" for wait
    by (rule fits_summary [OF op task]) simp_all
  show ?thesis
    unfolding summary_failure_def
    by (rule R op fits reconcile_abort_leads settle_failure_leads transition_bind go_on steps | assumption
      | (rule silent_bind, rule keeps_retry))+
qed

section \<open>Publication\<close>

text \<open>A summary that leads back into a run belongs to an operation that is not held to its intent.\<close>

lemma fits_resumed:
  assumes "ok_op operation" and "summary_task_of (op_state_of operation) = Some (sn_task gen)"
    and "next_checkpoint operation gen summary_id = Some state"
  shows "fits strict M state"
  using assms by (cases "om_intent M") (auto simp: next_checkpoint_def opok_def fits_def summary_kind split: result_boundary.splits)

lemma foreign_usage [simp]: "list_all foreign_write (summary_usage_writes request entry usage)"
  by (simp add: summary_usage_writes_def split: option.split)

lemma compaction_block_leads:
  assumes R: "R v" and op: "ok_op operation" and task: "summary_task_of (op_state_of operation) = Some (sn_task gen)"
    and nxt: "nxt = next_checkpoint operation gen summary_id"
  shows "leads val v (with_lane (\<lambda>rt.
        op_bind (compaction_writes env operation (lr_name rt) nxt request result (la_tip (lr_data rt)) summary_id) (\<lambda>writes.
        op_bind (lane_commit ops writes cx) (\<lambda>_.
        op_bind (put_data (\<lambda>d. d\<lparr>la_tip := Some summary_id\<rparr>)) (\<lambda>_.
        case nxt of None \<Rightarrow> op_return () | Some state \<Rightarrow> put_operation (op_meta operation) state))))) (\<lambda>_. R) N"
proof (cases nxt)
  case None
  show ?thesis
    unfolding None option.case compaction_writes_def tip_write_def op_bind_assoc op_bind_return'
    by (rule R leads_with write_bind commit_bind put_tip_bind go_on | assumption | auto)+
next
  case (Some state)
  have "fits strict M state" using fits_resumed [OF op task] nxt Some by simp
  then show ?thesis
    unfolding Some option.case compaction_writes_def tip_write_def state_write_def op_bind_assoc op_bind_return' ok_meta [OF op]
    by - (rule R leads_with write_bind commit_bind put_tip_state | assumption | auto)+
qed

lemma commit_compaction_leads:
  assumes R: "R v" and op: "ok_op operation" and task: "summary_task_of (op_state_of operation) = Some (sn_task gen)"
  shows "leads val v (commit_compaction ops env operation gen request result cx) S N"
  unfolding commit_compaction_def Let_def
  by (rule R op compaction_block_leads [OF _ op task refl] settled_step_leads pause_bind leads_if go_on fail_step | assumption
    | (rule silent_bind, rule quiet) | rule call_bind)+

section \<open>The steps\<close>

lemma execute_summary_leads: "R v \<Longrightarrow> leads val v (execute_summary env prep gen model n) (\<lambda>_. R) N"
  unfolding execute_summary_def by (rule leads_outside [OF others_keep])

lemma branch_summary_leads:
  "R v \<Longrightarrow> ok_op operation \<Longrightarrow> leads val v (commit_branch_summary ops env operation gen request result cx) Q N"
  using plain by (auto simp: commit_branch_summary_def opok_def fail_step split: operation_intent.split bool.split)

lemma structural_leads:
  assumes R: "R v" and op: "ok_op operation"
  shows "leads val v (structural ops env operation cx) S N"
proof -
  have generate: "leads val v (op_bind (load_structural_preparation ops env operation (st_task_id (sn_task gen)) cx) (\<lambda>prep.
        op_bind (ensure_summary_request ops env operation gen n cx) (\<lambda>request.
        op_bind (op_read (\<lambda>_. summary_model env gen)) (\<lambda>model.
        op_bind (execute_summary env prep gen model n) (\<lambda>result.
        case result of
          Inl (code, message) \<Rightarrow> summary_failure ops env operation gen n code message cx
        | Inr (Inl compaction) \<Rightarrow> commit_compaction ops env operation gen request compaction cx
        | Inr (Inr branch) \<Rightarrow> commit_branch_summary ops env operation gen request branch cx))))) S N"
    if "summary_task_of (op_state_of operation) = Some (sn_task gen)" for gen n
    unfolding load_structural_preparation_def op_bind_assoc
    by (rule R op that ensure_request_leads execute_summary_leads summary_failure_leads commit_compaction_leads branch_summary_leads
      leads_sum leads_prod | assumption | (rule silent_bind, rule quiet) | rule call_bind)+
  show ?thesis
    using R op generate start_summary_leads fail_step
    by (cases "op_state_of operation") (simp_all add: structural_def)
qed

lemma put_navigated:
  assumes "R v" and "cd_to (tip_codec (ld_serde (drive_serde env))) tip = Inr t" and "cd_to (ld_state (drive_serde env)) state = Inr j"
    and "ls_current_operation_id state = None" and "ls_last_operation_id state = Some (om_operation_id M)"
    and "or_operation_id rec = om_operation_id M" and "cd_to (ld_result (drive_serde env)) rec = Inr j'"
    and "foldl value_effect (v_slots v) ws (''pi.result'', om_operation_id M) = Some j'"
    and "filter (\<lambda>w. \<not> foreign_write w) ws = WriteValue (ValueSet ''pi.branch.tip'' (v_name v) t) #
      WriteValue (ValueSet ''pi.lane.state'' (v_name v) j) #
      [delete_value (operation_meta (om_operation_id M)), delete_value (operation_state (om_operation_id M))]"
  shows "leads val (v\<lparr>v_slots := foldl value_effect (v_slots v) ws\<rparr>)
    (op_bind (put_data (\<lambda>d. d\<lparr>la_tip := tip, la_state := state, la_operation := None, la_last_result := Some rec\<rparr>))
      (\<lambda>_. op_return (StepSettled rec))) S N"
  by (rule leads_put_bind, rule leads_basic)
    (use ended_navigated [OF assms(1) serde assms(3,4,2,9)] assms(5-8) lane_roundtrip(5) [OF serde assms(7)] in
      \<open>simp add: concluded_def stored_result_def\<close>)

lemma label_writes_leads:
  assumes "R v" and "\<And>writes. list_all foreign_write writes \<Longrightarrow> leads val v (f writes) Q N"
  shows "leads val v (op_bind (case label of
      None \<Rightarrow> op_return []
    | Some text \<Rightarrow> (case target of
         None \<Rightarrow> op_fail e
       | Some i \<Rightarrow> op_bind (lane_write (entry_label i) codec text) (\<lambda>write. op_return [write]))) f) Q N"
  using assms by (cases label; cases target) (auto simp: op_bind_assoc op_bind_return' op_bind_fail intro!: fail_step write_bind)

lemma navigation_leads:
  assumes R: "R v" and op: "ok_op operation"
  shows "leads val v (navigation ops env operation cx) S N"
proof (cases "op_state_of operation")
  case (NavigationReadyToCommit scope target label)
  have found: "leads val v (case target of
      None \<Rightarrow> op_return ()
    | Some i \<Rightarrow> op_bind (lane_read (\<lambda>s. session_get_entry ops s i cx)) (\<lambda>entry.
        if entry = None then op_fail (HarnessUnknownTarget i ''navigation target disappeared'') else op_return ())) (\<lambda>_. R) N"
    by (rule R leads_option leads_if go_on fail_step | (rule silent_bind, rule quiet))+
  show ?thesis
    unfolding navigation_def NavigationReadyToCommit op_state.case tip_write_def Let_def ok_meta [OF op]
    by (rule call_bind, rule found)
      (assumption | rule pause_bind leads_with label_writes_leads write_bind commit_bind put_navigated | (rule silent_bind, rule quiet)
        | (auto simp: op_cleanup_writes_def delete_value_def operation_meta_def operation_state_def operation_result_def foldl_append)[1])+
qed (use R in \<open>simp_all add: navigation_def fail_step\<close>)

end

end
