(* ===== verification/Drive_Safety.thy ===== *)
theory Drive_Safety
  imports Drive_Summaries
begin

text \<open>
  A whole drive keeps its invariant: the choice of the step, one turn of the loop, and the loop.
\<close>

context drive_run
begin

section \<open>One turn\<close>

lemma dispatch_leads:
  assumes "R v" and "ok_op operation"
  shows "leads val v (dispatch_state ops env operation options cx) S N"
  unfolding dispatch_state_def using assms
  by (auto intro: start_run_leads checkpoint_leads generation_leads recover_assistant_leads retry_wait_leads tools_leads deferred_leads
    structural_leads navigation_leads split: operation_at.split)

lemma before_drive_leads: "R v \<Longrightarrow> leads val v (run_before_drive env operation cx) (\<lambda>_. R) N"
  unfolding run_before_drive_def
  by (rule go_on steps fail_step leads_pause [OF others_keep] | assumption)+

lemma drive_operation_bind:
  assumes R: "R v" and f: "\<And>operation v'. R v' \<Longrightarrow> ok_op operation \<Longrightarrow> leads val v' (f operation) Q N"
  shows "leads val v (op_bind (current_drive_operation env options) f) Q N"
  unfolding current_drive_operation_def op_bind_assoc Let_def
proof (rule pause_bind, rule R, rule read_bind, assumption)
  fix v' a and rt :: "('w, 'm, 'g, 'j) lane_runtime"
  assume R': "R v'" and rt: "view_of val rt = v'" and a: "(case la_operation (lr_data rt) of
       None \<Rightarrow> Inl (OperationMismatch (lr_name rt) (do_operation_id options) None (ls_last_operation_id (la_state (lr_data rt)))
         ''operation is no longer current'')
     | Some operation \<Rightarrow>
         if op_id operation \<noteq> do_operation_id options
         then Inl (OperationMismatch (lr_name rt) (do_operation_id options) (Some (op_id operation))
           (ls_last_operation_id (la_state (lr_data rt))) ''drive operation id does not match current operation'')
         else Inr operation) = Inr a"
  obtain current where "la_operation (lr_data rt) = Some current" "ok_op current" by (rule R_operation [OF R' rt])
  with a f [OF R'] show "leads val v' (f a) Q N" by (auto split: if_splits)
qed

abbreviation "TQ outcome v \<equiv> (case outcome of Some (DriveSettled rec) \<Rightarrow> D rec v | _ \<Rightarrow> R v)"

lemma outcome_leads:
  assumes "S step v" and "step \<noteq> StepContinue"
  shows "leads val v (op_bind (op_read (\<lambda>_. drive_outcome_of i step)) (\<lambda>outcome. op_return (Some outcome))) TQ N"
  using assms by (cases step) (auto simp: leads_def op_bind_def drive_outcome_of_def)

lemma turn_leads:
  assumes R: "R v"
  shows "leads val v (drive_turn ops env options cx invoked) TQ N"
proof -
  have hook: "leads val v (if invoked then op_return () else run_before_drive env operation cx) (\<lambda>_. R) N" if "R v" for v operation
    using that by (auto intro: go_on before_drive_leads)
  have abort: "leads val v (if step = StepContinue then op_return None
      else op_bind (op_read (\<lambda>_. drive_outcome_of i step)) (\<lambda>outcome. op_return (Some outcome))) TQ N" if "S step v" for step v i
    using that by (intro leads_if outcome_leads) (auto intro: leads_basic)
  have go: "leads val v (if step = StepContinue
       then
         op_bind (pause env) (\<lambda>_.
         op_bind current_operation (\<lambda>current.
         case current of
           None \<Rightarrow> op_fail (harness_invariant ''drive continued after operation disappeared'')
         | Some current \<Rightarrow>
             if op_state_of current = op_state_of operation \<and> \<not> op_cancelled current
             then op_fail (harness_invariant ''drive procedure made no progress'')
             else op_return None))
       else op_bind (op_read (\<lambda>_. drive_outcome_of i step)) (\<lambda>outcome. op_return (Some outcome))) TQ N" if "S step v" for step v i operation
    using that by (intro leads_if outcome_leads)
      (simp_all, (rule steps fail_step | assumption | (rule leads_basic, simp))+)
  show ?thesis
    unfolding drive_turn_def
    by (rule silent_bind, rule quiet, rule R, rule drive_operation_bind, rule R, rule call_bind, erule hook, rule leads_if)
      ((rule leads_seq, rule reconcile_abort_leads, assumption, assumption, erule abort) |
       (rule leads_seq, rule dispatch_leads, assumption, assumption, erule go))+
qed

section \<open>The loop\<close>

abbreviation "LQ r v \<equiv> (case r of Inl _ \<Rightarrow> N v | Inr (DriveSettled rec) \<Rightarrow> D rec v | Inr _ \<Rightarrow> R v)"

lemma loop_leads:
  assumes "drive_loop ops env options cx invoked rt = Some y" and "R (view_of val rt)"
  shows "LQ (fst y) (view_of val (snd y))"
proof -
  let ?P = "\<lambda>o' e options cx invoked rt y. o' = ops \<longrightarrow> e = env \<longrightarrow> R (view_of val rt) \<longrightarrow> LQ (fst y) (view_of val (snd y))"
  have "?P ops env options cx invoked rt y"
  proof (rule drive_loop.raw_induct [where P = ?P, OF _ assms(1)], intro impI)
    fix loop o' e options cx invoked rt y
    assume IH: "\<And>o' e options cx invoked rt y. loop o' e options cx invoked rt = Some y \<Longrightarrow> ?P o' e options cx invoked rt y"
      and y: "(case drive_turn o' e options cx invoked rt of
        (Inl e, rt') \<Rightarrow> Some (Inl e, rt')
      | (Inr (Some outcome), rt') \<Rightarrow> Some (Inr outcome, rt')
      | (Inr None, rt') \<Rightarrow> loop o' e options cx True rt') = Some y"
      and eqs: "o' = ops" "e = env" and R: "R (view_of val rt)"
    obtain r rt1 where t: "drive_turn ops env options cx invoked rt = (r, rt1)" by fastforce
    note lead = leads_Inr [OF turn_leads [OF R] refl] leads_Inl [OF turn_leads [OF R] refl]
    show "LQ (fst y) (view_of val (snd y))"
    proof (cases r)
      case (Inl e)
      then show ?thesis using y t lead(2) eqs by auto
    next
      case (Inr outcome)
      with t have "TQ outcome (view_of val rt1)" by (intro lead(1)) simp
      moreover have "outcome = Some o'' \<Longrightarrow> y = (Inr o'', rt1)" for o'' using y t Inr eqs by simp
      moreover have "outcome = None \<Longrightarrow> R (view_of val rt1) \<Longrightarrow> LQ (fst y) (view_of val (snd y))"
        using y t Inr eqs IH [of ops env options cx True rt1 y] by simp
      ultimately show ?thesis by (cases outcome) (simp_all split: drive_outcome.splits)
    qed
  qed
  with assms(2) show ?thesis by simp
qed

lemma drive_leads:
  assumes "drive ops env active options cx rt = Some y" and "R (view_of val rt)"
  shows "LQ (fst y) (view_of val (snd y))"
proof -
  have "R (view_of val (rt\<lparr>lr_abort := False\<rparr>))" using assms(2) by (simp add: view_of_def)
  from loop_leads [OF _ this] show ?thesis
    using assms R_N by (cases "lane_ensure_open rt"; cases active) (auto simp: drive_def)
qed

end

end
