(* ===== verification/Drive_Others.thy ===== *)
theory Drive_Others
  imports Drive_Safety Lane_Properties
begin

text \<open>
  What other tasks may do while an operation is driven: the calls of a lane. They leave the open
  operation alone, or mark it as cancelled, so they keep the invariant of its drive.
\<close>

section \<open>Calls leave the open operation alone\<close>

abbreviation open_operation :: "('w, 'm, 'g, 'j) lane_runtime \<Rightarrow> 'j operation option" where
  "open_operation rt \<equiv> la_operation (lr_data rt)"

lemma keeps_open_session: "keeps open_operation (on_session f)"
  by (auto simp: keeps_def on_session_def split: prod.split)

lemma keeps_open_read: "keeps open_operation (lane_read g)"
  by (simp add: lane_read_def keeps_basic)

lemma keeps_open_get: "keeps open_operation (guarded_get ops c a cx)"
  unfolding guarded_get_def by (rule keeps_open_session)

lemma keeps_open_commit: "keeps open_operation (faulting_commit ops ws cx)"
  by (auto simp: keeps_def faulting_commit_def commit_fault_def owner_fault_def Let_def split: prod.split sum.split option.split)

lemma keeps_open:
  "keeps open_operation (new_id env)" "keeps open_operation (lane_now env)" "keeps open_operation (lane_write a c x)"
  "keeps open_operation (guarded_pending ops env items cx)" "keeps open_operation (durable_lane_state ops env cx)"
  "keeps open_operation (lane_commit ops ws cx)"
proof -
  show "keeps open_operation (lane_now env)" by (auto simp: keeps_def lane_now_def split: prod.split)
  show "keeps open_operation (durable_lane_state ops env cx)"
    unfolding durable_lane_state_def by (rule keeps_rules keeps_open_get)+
  show "keeps open_operation (lane_commit ops ws cx)"
    unfolding lane_commit_def by (rule keeps_bind [OF keeps_open_session keeps_open_commit])
qed (simp_all add: new_id_def lane_write_def guarded_pending_def keeps_open_session keeps_open_read)

lemmas keeps_opens = keeps_open_session keeps_open_read keeps_open_get keeps_open_commit keeps_open

lemma keeps_put_data: "(\<And>d. la_operation (f d) = la_operation d) \<Longrightarrow> keeps open_operation (put_data f)"
  by (simp add: keeps_def put_data_def)


lemma converge_operation [simp]: "la_operation (converge_state base next d) = la_operation d"
  by (simp add: converge_state_def)

lemma calls_keep_operation:
  "keeps open_operation (lane_enqueue ops env input kind cx)" "keeps open_operation (cancel_queued ops env i cx)"
  "keeps open_operation (append_message_impl ops env message cx)" "keeps open_operation (append_custom_impl ops env custom_type data cx)"
  "keeps open_operation (record_usage ops env usage entry details cx)" "keeps open_operation (set_lane_configuration ops env change cx)"
  unfolding lane_enqueue_def enqueue_commit_def enqueue_converge_def cancel_queued_def append_message_impl_def append_custom_impl_def
    lane_append_def record_usage_def set_lane_configuration_def Let_def
  by (rule keeps_opens keeps_put_data keeps_rules | simp)+

text \<open>A request for another operation is refused.\<close>

lemma accept_busy:
  assumes "la_operation (v_data v) \<noteq> None"
  shows "leads val v (accept ops env request cx) (\<lambda>_ v'. v' = v) (\<lambda>v'. v' = v)"
proof -
  have idle: "leads val v (op_bind (op_read ensure_idle) f) Q (\<lambda>v'. v' = v)" for f Q
    by (rule leads_read_bind) (use assms in \<open>auto simp: ensure_idle_def view_of_def\<close>)
  show ?thesis
    unfolding accept_def accept_run_def accept_compaction_def accept_navigation_def
    by (cases request) (simp_all only: operation_request.case,
      (rule idle leads_if leads_option leads_basic refl | (rule leads_silent_bind, (rule keeps_rules)+) | (rule leads_silent, rule keeps_basic))+)
qed

text \<open>An abort marks the operation it names.\<close>

definition marked :: "i64 \<Rightarrow> 'j operation \<Rightarrow> 'j operation" where
  "marked now operation = operation\<lparr>op_state_of := map_scope (\<lambda>scope. scope\<lparr>sc_control := CancelRequested now\<rparr>) (op_state_of operation)\<rparr>"

definition marks :: "'j operation \<Rightarrow> ('w, 'm, 'g, 'j, 'a) lane_op \<Rightarrow> bool" where
  "marks operation m \<longleftrightarrow> (\<forall>rt. open_operation rt = Some operation \<longrightarrow>
     open_operation (snd (m rt)) = Some operation \<or> (\<exists>now. open_operation (snd (m rt)) = Some (marked now operation)))"

lemma marks_bind: "keeps open_operation m \<Longrightarrow> (\<And>a. marks operation (f a)) \<Longrightarrow> marks operation (op_bind m f)"
  unfolding marks_def keeps_def op_bind_def by (auto split: prod.splits sum.splits) (metis snd_conv)+

lemma marks_keeps: "keeps open_operation m \<Longrightarrow> marks operation m"
  by (simp add: marks_def keeps_def)

lemma marks_put:
  assumes "\<And>d. la_operation d = Some operation \<Longrightarrow> la_operation (g d) = Some operation \<or> la_operation (g d) = Some (marked now operation)"
    and "\<And>a. keeps open_operation (f a)"
  shows "marks operation (op_bind (put_data g) f)"
  using assms by (fastforce simp: marks_def op_bind_def put_data_def keeps_def)

lemma marks_with: "(\<And>rt. open_operation rt = Some operation \<Longrightarrow> marks operation (F rt)) \<Longrightarrow> marks operation (with_lane F)"
  by (simp add: marks_def with_lane_def)

lemma marks_if: "marks operation a \<Longrightarrow> marks operation b \<Longrightarrow> marks operation (if c then a else b)"
  by simp

lemma abort_marks: "marks operation (request_abort ops env i cx)"
  unfolding request_abort_def Let_def
  by (rule marks_with, rule marks_bind, rule keeps_rules, simp only: option.case)
    (rule marks_if marks_put | (rule marks_bind, rule keeps_opens) | (rule marks_keeps, rule keeps_basic)
      | (auto simp: marked_def keeps_def op_bind_def)[1])+

lemma marked_fits:
  assumes "opok True M operation"
  shows "opok True M (marked now operation)" and "op_cancelled (marked now operation)"
  using assms by (cases "op_state_of operation";
    auto simp: opok_def fits_def marked_def state_kind_def op_cancelled_def op_scope_def split: operation_intent.splits)+

context storage_contract
begin

text \<open>The calls of a lane keep the invariant of the drive of its operation.\<close>

lemma call_running:
  fixes env :: "('w, 'm, 'g, 'j, 'f) lane_env"
  assumes ok: "lane_serde_ok (en_serde env)" and R: "running (en_serde env) rest True M (view_of val rt)"
  shows "running (en_serde env) rest True M (view_of val (perform_call ops env cx call rt))"
proof -
  obtain operation where op: "open_operation rt = Some operation" "opok True M operation"
    using R by (auto simp: running_def)
  have J: "coherent (en_serde env) rest (view_of val rt)" by (rule ended_coherent [OF running_ended [OF R]])
  have kept: "running (en_serde env) rest True M (view_of val (snd (m rt)))"
    if "carries val (coherent (en_serde env) rest) (view_of val rt) m" and "marks operation m" for m :: "('w, 'm, 'g, 'j, 'x) lane_op"
    using that op marked_fits(1) [OF op(2)]
    by (fastforce simp: carries_def marks_def running_def agreed_def coherent_def)
  note carried = lane_enqueue_carries [OF ok J] cancel_queued_carries [OF ok J] request_abort_carries [OF ok J]
    append_message_carries [OF ok J] append_custom_carries [OF ok J] record_usage_carries [OF J] set_lane_configuration_carries [OF ok J]
  show ?thesis
  proof (cases call)
    case (CallAccept request)
    have "view_of val (snd (accept ops env request cx rt)) = view_of val rt"
      by (rule leads_snd [OF accept_busy refl]) (simp add: op)
    with CallAccept R show ?thesis by simp
  next
    case (CallEnqueue input kind)
    then show ?thesis using kept [OF carried(1) marks_keeps [OF calls_keep_operation(1)]] by simp
  next
    case (CallCancelQueued i)
    then show ?thesis using kept [OF carried(2) marks_keeps [OF calls_keep_operation(2)]] by simp
  next
    case (CallAbort i)
    then show ?thesis using kept [OF carried(3) abort_marks] by simp
  next
    case (CallAppendMessage message)
    then show ?thesis using kept [OF carried(4) marks_keeps [OF calls_keep_operation(3)]] by simp
  next
    case (CallAppendCustom custom_type payload)
    then show ?thesis using kept [OF carried(5) marks_keeps [OF calls_keep_operation(4)]] by simp
  next
    case (CallRecordUsage usage entry details)
    then show ?thesis using kept [OF carried(6) marks_keeps [OF calls_keep_operation(5)]] by simp
  next
    case (CallConfigure change)
    then show ?thesis using kept [OF carried(7) marks_keeps [OF calls_keep_operation(6)]] by simp
  qed
qed

end

end
