(* ===== verification/Drive_Samples.thy ===== *)
theory Drive_Samples
  imports Lane_Loop Lane_Properties
begin

text \<open>
  A lane named \<open>main\<close> with the open run \<open>r\<close>, which waits for a retry, on a sample session file, and
  the surroundings of its drive: no hooks, a model that yields nothing, tools that all fail.
\<close>

definition sample_scope :: operation_scope where
  "sample_scope = \<lparr>sc_control = Running,
     sc_settings = \<lparr>rs_compaction = \<lparr>cs_enabled = False, cs_reserve_tokens = 0, cs_keep_recent_tokens = 0\<rparr>,
       rs_steering_mode = OneAtATime, rs_follow_up_mode = OneAtATime, rs_tool_execution = Sequential\<rparr>,
     sc_latest_assistant_entry_id = None\<rparr>"

definition sample_context :: "sample_doc generation_context" where
  "sample_context = \<lparr>gc_step_id = ''r:p'', gc_trigger_entry_id = ''p'',
     gc_configuration = captured_configuration (sample_runtime_config :: sample_doc runtime_config),
     gc_stream_options = rc_stream_options sample_runtime_config,
     gc_retry_policy = \<lparr>nr_max_attempts = 3, nr_base_delay_ms = 1000\<rparr>, gc_overflow_recovery_used = False\<rparr>"

definition run_operation :: "sample_doc op_state \<Rightarrow> sample_doc operation" where
  "run_operation state = \<lparr>op_meta = operation_meta_of ''r'' ''main'' None 7 (IntentRun [''p'']), op_state_of = state\<rparr>"

definition waiting_operation :: "sample_doc operation" where
  "waiting_operation = run_operation (AssistantRetryWait sample_scope sample_context
     \<lparr>rw_next_attempt = 2, rw_not_before = 1007, rw_error_message = ''overloaded''\<rparr>)"

definition run_data :: "sample_doc operation \<Rightarrow> sample_doc lane_data" where
  "run_data operation = new_lane_data\<lparr>la_state := lane_state_default\<lparr>ls_current_operation_id := Some ''r''\<rparr>,
     la_operation := Some operation\<rparr>"

definition run_serde :: "sample_doc operation \<Rightarrow> (sample_doc, nat) lane_serde" where
  "run_serde operation = doc_lane_serde\<lparr>ld_state := table_codec [(la_state (run_data operation), DocText ''state'')],
     ld_meta := table_codec [(op_meta operation, DocText ''meta'')],
     ld_op_state := table_codec [(op_state_of operation, DocText ''run'')]\<rparr>"

lemma run_serde_ok: "lane_serde_ok (run_serde operation)"
  by (simp add: lane_serde_ok_def run_serde_def doc_lane_serde_def doc_serde_ok table_codec_ok)

definition run_world :: "(sample_doc, nat) jsonl_world" where
  "run_world = doc_world (storage_new\<lparr>st_values :=
     [sample_slot ''pi.branch.tip'' ''main'' (DocText ''root''), sample_slot ''pi.lane.config'' ''main'' (DocText ''config''),
      sample_slot ''pi.lane.state'' ''main'' (DocText ''state''), sample_slot ''pi.op.meta'' ''r'' (DocText ''meta''),
      sample_slot ''pi.op.state'' ''r'' (DocText ''run'')]\<rparr>) []"

definition run_lane :: "sample_doc operation \<Rightarrow> (unit, (sample_doc, nat) jsonl_world, generator_state, sample_doc) lane_runtime" where
  "run_lane operation = lane_of run_world (run_data operation)"

definition run_env ::
  "sample_doc operation \<Rightarrow> (unit, (sample_doc, nat) jsonl_world, generator_state, sample_doc, nat) drive_env" where
  "run_env operation =
     \<lparr>dv_lane = doc_lane_env\<lparr>en_serde := run_serde operation\<rparr>,
      dv_hooks = \<lparr>hk_before_drive = None, hk_before_run = None, hk_before_run_end = None, hk_before_request = None,
        hk_transform_context = None, hk_after_response = None\<rparr>,
      dv_models = \<lparr>mm_to_provider = (\<lambda>_ w. (Inr [], w)), mm_stream = (\<lambda>_ w. ([], w)),
        mm_fetch_deferred = (\<lambda>_ _ _ _ w. ([], w)), mm_cancel_deferred = (\<lambda>_ _ w. ((), w)),
        mm_summary = (\<lambda>_ _ _ _ _ _ w. (Inl (''none'', ''none''), w))\<rparr>,
      dv_args = \<lparr>ao_parse = (\<lambda>_. []), ao_serialize = (\<lambda>_. None), ao_prefix = (\<lambda>_ _. False)\<rparr>,
      dv_frame = table_codec [], dv_context_messages = (\<lambda>_ _. Inr []), dv_system_prompt = None, dv_tool_context = None,
      dv_provider_tool = (\<lambda>name. \<lparr>to_name = name, to_description = [], to_parameters = DocText [], to_constrained_sampling = None\<rparr>),
      dv_tool = (\<lambda>_ _ _ _ rt. (ToolFailed ''broken'', rt)), dv_next_tool = (\<lambda>_. 0), dv_empty_object = DocText [],
      dv_json_files = (\<lambda>_ _. DocText []), dv_sleep = (\<lambda>_ _. False)\<rparr>"

lemma run_lane_durable:
  assumes "op_meta operation = operation_meta_of ''r'' ''main'' None 7 (IntentRun [''p''])"
  shows "durable_lane (run_serde operation) (jsonl_val run_world) ''main'' (run_data operation)"
  by (simp add: durable_lane_def durable_operation_def stored_def run_world_def jsonl_val_def mem_val_def doc_world_def
      sample_slot_def run_serde_def table_codec_def run_data_def new_lane_data_def lane_data_new_def doc_lane_serde_def
      tip_codec_def doc_serde_def doc_tip_of_def branch_tip_def)
    (simp add: assms operation_meta_of_def)

text \<open>A run in the middle of a compaction of its own, also waiting.\<close>

definition resting_operation :: "sample_doc operation" where
  "resting_operation = run_operation (SummaryRetryWait sample_scope
     \<lparr>sn_task = \<lparr>st_task_id = ''r:compaction:p'', st_reason = Some Threshold, st_custom_instructions = None,
        st_boundary = ResumeCheckpoint \<lparr>cp_continuation = NeedAssistant False, cp_trigger_entry_id = ''p''\<rparr>\<rparr>,
      sn_summary_context = \<lparr>sx_result_entry_id = ''e'', sx_configuration = gc_configuration sample_context,
        sx_stream_options = gc_stream_options sample_context, sx_retry_policy = gc_retry_policy sample_context\<rparr>\<rparr>
     \<lparr>rw_next_attempt = 2, rw_not_before = 1007, rw_error_message = ''overloaded''\<rparr>)"

text \<open>A run whose abort was asked for.\<close>

definition aborting_operation :: "sample_doc operation" where
  "aborting_operation = run_operation (Checkpoint (sample_scope\<lparr>sc_control := CancelRequested 9\<rparr>)
     \<lparr>cp_continuation = NeedAssistant False, cp_trigger_entry_id = ''p''\<rparr>)"

end
