(* ===== verification/Drive_Properties.thy ===== *)
theory Drive_Properties
  imports Drive_Others Drive_Samples
begin

text \<open>
  The properties of a drive on a durable session: it keeps the lane coherent while other tasks call
  the lane, an aborted operation ends, a response leads to a state of its run, and a tool call that
  had begun is never run again.
\<close>

section \<open>Other tasks\<close>

text \<open>
  Between the steps of a drive, and inside a tool, other code makes calls of the lane (each with its
  own file system and context) and changes the rest of the world.
\<close>

definition tasks_only_call ::
  "('j, 'f::plus) wire \<Rightarrow> ('w, ('j, 'f) jsonl_world, 'g, 'j, 'f) drive_env \<Rightarrow> bool" where
  "tasks_only_call w env \<longleftrightarrow>
     (\<forall>rt. \<exists>calls world. list_all (\<lambda>(io, e, cx, call). en_serde e = drive_serde env) calls \<and>
       en_meanwhile (dv_lane env) rt = (lane_calls w calls rt)\<lparr>lr_world := world\<rparr>) \<and>
     (\<forall>call i turn entry rt. \<exists>calls world. list_all (\<lambda>(io, e, cx, call). en_serde e = drive_serde env) calls \<and>
       snd (dv_tool env call i turn entry rt) = (lane_calls w calls rt)\<lparr>lr_world := world\<rparr>)"

lemma lane_calls_running:
  assumes "lane_serde_ok ld" and "list_all (\<lambda>(io, e, cx, call). en_serde e = ld) calls"
    and "running ld rest True M (view_of jsonl_val rt)"
  shows "running ld rest True M (view_of jsonl_val (lane_calls w calls rt))"
  using assms
proof (induction calls arbitrary: rt)
  case (Cons c calls)
  obtain io e cx call where c: "c = (io, e, cx, call)" by (cases c)
  from Cons.prems have "running ld rest True M (view_of jsonl_val (perform_call (jsonl_ops io w) e cx call rt))"
    using jsonl.call_running [of e rest M rt io w cx call] by (simp add: c)
  with Cons show ?case by (simp add: lane_calls_def c)
qed (simp add: lane_calls_def)

lemma tasks_undisturbed:
  assumes "lane_serde_ok (drive_serde env)" and "tasks_only_call w env"
  shows "undisturbed jsonl_val env (running (drive_serde env) rest True M)"
proof -
  have kept: "running (drive_serde env) rest True M (view_of jsonl_val rt')"
    if "\<exists>calls world. list_all (\<lambda>(io, e, cx, call). en_serde e = drive_serde env) calls \<and> rt' = (lane_calls w calls rt)\<lparr>lr_world := world\<rparr>"
      and "running (drive_serde env) rest True M (view_of jsonl_val rt)" for rt rt'
    using that lane_calls_running [OF assms(1)] by auto
  note tasks = assms(2) [unfolded tasks_only_call_def]
  show ?thesis
    unfolding undisturbed_def by (intro conjI allI impI) (erule kept [OF tasks [THEN conjunct1, rule_format]]
      kept [OF tasks [THEN conjunct2, rule_format]])+
qed

section \<open>Coherence\<close>

text \<open>What a drive has come to: how it leaves the operation.\<close>

definition drive_left ::
  "('j, 'f) lane_serde \<Rightarrow> 'j operation \<Rightarrow> harness_error + ('j, 'f) drive_outcome \<Rightarrow> 'j lane_view \<Rightarrow> bool" where
  "drive_left ld operation r v \<longleftrightarrow> (case r of
     Inr (DriveSettled rec) \<Rightarrow>
       or_operation_id rec = op_id operation \<and> la_operation (v_data v) = None \<and> la_last_result (v_data v) = Some rec \<and>
       stored_result ld (v_slots v) (ls_last_operation_id (la_state (v_data v))) = Some rec
   | Inr _ \<Rightarrow> \<exists>current. la_operation (v_data v) = Some current \<and> op_meta current = op_meta operation
   | Inl _ \<Rightarrow> True)"

context drive_run
begin

lemma drive_ended:
  assumes "drive ops env active options cx rt = Some (r, rt')" and "R (view_of val rt)" and "op_meta operation = M"
  shows "N (view_of val rt') \<and> drive_left (drive_serde env) operation r (view_of val rt')"
proof -
  have left: "LQ r (view_of val rt')" using drive_leads [OF assms(1,2)] by (simp only: fst_conv snd_conv)
  show ?thesis
  proof (cases r)
    case (Inl e)
    with left show ?thesis by (simp add: drive_left_def)
  next
    case (Inr outcome)
    with left assms(3) show ?thesis
      by (cases outcome) (auto simp: drive_left_def concluded_def ended_def running_def opok_def)
  qed
qed

end

text \<open>
  A drive on a session file, in the two surroundings for which the invariant is shown: among tasks
  that call the lane, for an operation that fits its intent to the end, and alone, for every operation
  but a navigation with a summary.
\<close>

definition alone :: "('w, 'm, 'g, 'j, 'f) drive_env \<Rightarrow> ('w, 'm, 'g, 'j, 'f) drive_env" where
  "alone env = env\<lparr>dv_lane := (dv_lane env)\<lparr>en_meanwhile := \<lambda>rt. rt\<rparr>,
     dv_tool := \<lambda>call i turn entry rt. let (outcome, rt') = dv_tool env call i turn entry rt in (outcome, rt\<lparr>lr_world := lr_world rt'\<rparr>)\<rparr>"

lemma alone_serde [simp]: "drive_serde (alone env) = drive_serde env"
  by (simp add: drive_serde_def alone_def)

lemma alone_undisturbed: "undisturbed val (alone env) J"
  by (simp add: undisturbed_def alone_def split: prod.split)

locale jsonl_drive =
  fixes io :: jsonl_env and w :: "('j, 'f::{plus, zero}) wire" and env :: "('w, ('j, 'f) jsonl_world, 'g, 'j, 'f) drive_env"
    and rest :: "'j lanes" and M :: operation_meta_record
  assumes serde: "lane_serde_ok (drive_serde env)" and plain: "\<not> summarizes (om_intent M)"

sublocale jsonl_drive \<subseteq> solo: drive_run "jsonl_ops io w" jsonl_live jsonl_val jsonl_ent "\<lambda>x. storage_view (state_of x)" jw_storage
    "alone env" rest False M
  by unfold_locales (simp_all add: serde plain alone_undisturbed)

context jsonl_drive
begin

lemmas drive_alone = solo.drive_ended

end

locale called_drive = jsonl_drive +
  assumes tasks: "tasks_only_call w env"

sublocale called_drive \<subseteq> shared: drive_run "jsonl_ops io w" jsonl_live jsonl_val jsonl_ent "\<lambda>x. storage_view (state_of x)" jw_storage
    env rest True M
  by unfold_locales (simp_all add: serde plain tasks_undisturbed [OF serde tasks])

context called_drive
begin

lemmas drive_among_tasks = shared.drive_ended

end

text \<open>
  C3. A drive keeps its lane coherent. Take an operation that \<open>fits\<close> its intent to the end (a run
  that does not compact its own context, a compaction, a navigation without summary), and let
  other tasks and tools make calls of the lane all the while, with any faults of the file system.
  However the drive returns, with an error too, the tip, the state, the configuration and the operation
  the lane caches are the ones stored, the operation can be restored, and other lanes of the session are
  untouched. When it has settled, the lane has no operation, and the record returned is the lane's last
  result, in the cache and in the session; while it waits, the same operation is still open.
\<close>

theorem drive_keeps_lane_coherent:
  assumes "lane_serde_ok (drive_serde env)" and "tasks_only_call w env"
    and "coherent (drive_serde env) rest (view_of jsonl_val rt)" and "la_operation (lr_data rt) = Some operation"
    and "fits True (op_meta operation) (op_state_of operation)" and "\<not> summarizes (om_intent (op_meta operation))"
    and "drive (jsonl_ops io w) env active options cx rt = Some (r, rt')"
  shows "coherent (drive_serde env) rest (view_of jsonl_val rt') \<and> drive_left (drive_serde env) operation r (view_of jsonl_val rt')"
proof -
  have "running (drive_serde env) rest True (op_meta operation) (view_of jsonl_val rt)"
    using assms(3-5) by (simp add: running_def agreed_def coherent_def opok_def)
  moreover have "called_drive w env (op_meta operation)"
    by (intro called_drive.intro jsonl_drive.intro called_drive_axioms.intro assms(1,2,6))
  ultimately show ?thesis
    using called_drive.drive_among_tasks [OF _ assms(7) _ refl] by (blast intro: ended_coherent)
qed

lemma run_env_serde: "drive_serde (run_env operation) = run_serde operation"
  by (simp add: drive_serde_def run_env_def)

lemma run_env_tasks: "tasks_only_call w (run_env operation)"
  unfolding tasks_only_call_def
  by (intro conjI allI) (rule exI [of _ "[]"], simp add: run_env_def doc_lane_env_def lane_calls_def)+

lemma waiting_coherent: "coherent (run_serde waiting_operation) {} (view_of jsonl_val (run_lane waiting_operation))"
proof -
  have "durable_lane (run_serde waiting_operation) (jsonl_val run_world) ''main'' (run_data waiting_operation)"
    by (rule run_lane_durable) (simp add: waiting_operation_def run_operation_def)
  moreover have "resumable (run_data waiting_operation)"
    by (simp add: resumable_def run_data_def waiting_operation_def run_operation_def operation_meta_of_def state_kind_def)
  ultimately show ?thesis
    by (simp add: coherent_def others_def view_of_def run_lane_def lane_of_def session_new_def)
qed

lemma waiting_drive:
  "drive ops (run_env waiting_operation) None \<lparr>do_operation_id = ''r'', do_wait_for_retry = False, do_poll_deferred = False\<rparr> sample_cx
     (run_lane waiting_operation) = Some (Inr (DriveWaitingRetry ''r'' 1007), run_lane waiting_operation)"
  by (simp add: drive_def drive_loop.simps drive_turn_def run_lane_def lane_of_def lane_ensure_open_def op_bind_def op_read_def
      current_drive_operation_def pause_def run_env_def doc_lane_env_def run_data_def waiting_operation_def run_operation_def
      operation_meta_of_def run_before_drive_def op_return_def dispatch_state_def retry_wait_def drive_outcome_of_def
      op_scope_def sample_scope_def op_cancelled_def Let_def)

interpretation waiting: called_drive io w "run_env waiting_operation" rest "op_meta waiting_operation" for io w rest
  by unfold_locales (simp_all add: run_env_serde run_serde_ok run_env_tasks waiting_operation_def run_operation_def operation_meta_of_def)

theorem drive_keeps_lane_coherent_witness:
  "\<exists>r rt'. drive (jsonl_ops (doc_env healthy 0) doc_wire) (run_env waiting_operation) None
     \<lparr>do_operation_id = ''r'', do_wait_for_retry = False, do_poll_deferred = False\<rparr> sample_cx (run_lane waiting_operation) = Some (r, rt') \<and>
   coherent (run_serde waiting_operation) {} (view_of jsonl_val rt') \<and>
   drive_left (run_serde waiting_operation) waiting_operation r (view_of jsonl_val rt')"
proof -
  have fits: "fits True (op_meta waiting_operation) (op_state_of waiting_operation)" "\<not> summarizes (om_intent (op_meta waiting_operation))"
    "la_operation (lr_data (run_lane waiting_operation)) = Some waiting_operation"
    by (simp_all add: fits_def waiting_operation_def run_operation_def operation_meta_of_def state_kind_def sample_scope_def
        run_lane_def lane_of_def run_data_def)
  show ?thesis
    using drive_keeps_lane_coherent [OF _ run_env_tasks _ fits(3,1,2) waiting_drive, of "{}"]
      waiting_drive [of "jsonl_ops (doc_env healthy 0) doc_wire"] waiting_coherent run_serde_ok [of waiting_operation]
    by (simp add: run_env_serde)
qed

text \<open>
  C13. A drive alone on its lane keeps the cache true. For every operation but a navigation that writes a
  summary, also for a run that compacts its context on the way: however the drive returns, and whatever
  the file system does, the tip, the state, the configuration and the operation the lane caches are the
  ones stored, and the other lanes of the session are untouched; a settled operation is gone, with its
  record as the last result, cached and stored.
\<close>

theorem drive_keeps_cache:
  assumes "lane_serde_ok (drive_serde env)" and "agreed (drive_serde env) rest (view_of jsonl_val rt)"
    and "la_operation (lr_data rt) = Some operation" and "\<not> summarizes (om_intent (op_meta operation))"
    and "drive (jsonl_ops io w) (alone env) active options cx rt = Some (r, rt')"
  shows "agreed (drive_serde env) rest (view_of jsonl_val rt') \<and> drive_left (drive_serde env) operation r (view_of jsonl_val rt')"
proof -
  have "jsonl_drive env (op_meta operation)" by (intro jsonl_drive.intro assms(1,4))
  moreover have "running (drive_serde env) rest False (op_meta operation) (view_of jsonl_val rt)"
    using assms(2,3) by (simp add: running_def opok_def fits_def)
  ultimately show ?thesis
    using jsonl_drive.drive_alone [OF _ assms(5) _ refl] by (simp add: ended_def)
qed

lemma resting_drive:
  "drive ops (alone (run_env resting_operation)) None \<lparr>do_operation_id = ''r'', do_wait_for_retry = False, do_poll_deferred = False\<rparr> sample_cx
     (run_lane resting_operation) = Some (Inr (DriveWaitingRetry ''r'' 1007), run_lane resting_operation)"
  by (simp add: drive_def drive_loop.simps drive_turn_def run_lane_def lane_of_def lane_ensure_open_def op_bind_def op_read_def
      current_drive_operation_def pause_def run_env_def alone_def doc_lane_env_def run_data_def resting_operation_def run_operation_def
      operation_meta_of_def run_before_drive_def op_return_def dispatch_state_def retry_wait_def drive_outcome_of_def
      op_scope_def sample_scope_def op_cancelled_def Let_def)

theorem drive_keeps_cache_witness:
  "\<exists>r rt'. drive (jsonl_ops (doc_env healthy 0) doc_wire) (alone (run_env resting_operation)) None
     \<lparr>do_operation_id = ''r'', do_wait_for_retry = False, do_poll_deferred = False\<rparr> sample_cx (run_lane resting_operation) = Some (r, rt') \<and>
   agreed (run_serde resting_operation) {} (view_of jsonl_val rt') \<and>
   drive_left (run_serde resting_operation) resting_operation r (view_of jsonl_val rt')"
proof -
  have "durable_lane (run_serde resting_operation) (jsonl_val run_world) ''main'' (run_data resting_operation)"
    by (rule run_lane_durable) (simp add: resting_operation_def run_operation_def)
  then have "agreed (run_serde resting_operation) {} (view_of jsonl_val (run_lane resting_operation))"
    by (simp add: agreed_def others_def view_of_def run_lane_def lane_of_def session_new_def)
  moreover have "\<not> summarizes (om_intent (op_meta resting_operation))"
    "la_operation (lr_data (run_lane resting_operation)) = Some resting_operation"
    by (simp_all add: resting_operation_def run_operation_def operation_meta_of_def run_lane_def lane_of_def run_data_def)
  ultimately show ?thesis
    using drive_keeps_cache [OF _ _ _ _ resting_drive, of "{}" resting_operation]
      resting_drive [of "jsonl_ops (doc_env healthy 0) doc_wire"] run_serde_ok [of resting_operation]
    by (simp add: run_env_serde)
qed

section \<open>Abort\<close>

definition aborting :: "('w, 'm, 'g, 'j) lane_runtime \<Rightarrow> bool" where
  "aborting rt \<longleftrightarrow> (\<exists>operation. la_operation (lr_data rt) = Some operation \<and> op_cancelled operation)"

text \<open>What a step returns, whatever it was started in.\<close>

definition gives :: "('e, 's, 'a) eop \<Rightarrow> ('a \<Rightarrow> bool) \<Rightarrow> bool" where
  "gives m P \<longleftrightarrow> (\<forall>s a s'. m s = (Inr a, s') \<longrightarrow> P a)"

lemma givesD: "gives m P \<Longrightarrow> m s = (Inr a, s') \<Longrightarrow> P a"
  unfolding gives_def by blast

lemma gives_bind: "(\<And>a. gives (f a) P) \<Longrightarrow> gives (op_bind m f) P"
  by (auto simp: gives_def op_bind_def split: prod.splits sum.splits)

lemma gives_basic: "P a \<Longrightarrow> gives (op_return a) P" "gives (op_fail e) P"
  by (simp_all add: gives_def)

lemma gives_with: "(\<And>rt. gives (F rt) P) \<Longrightarrow> gives (with_lane F) P"
  by (simp add: gives_def with_lane_def)

abbreviation ends_operation :: "('j, 'f) drive_step \<Rightarrow> bool" where
  "ends_operation step \<equiv> (case step of StepSettled rec \<Rightarrow> or_status rec = Aborted \<or> or_status rec = Failed | _ \<Rightarrow> False)"

lemma gives_seq: "gives m P' \<Longrightarrow> (\<And>a. P' a \<Longrightarrow> gives (f a) P) \<Longrightarrow> gives (op_bind m f) P"
  by (fastforce simp: gives_def op_bind_def split: prod.splits sum.splits)

lemma settle_gives: "gives (settle ops env operation status error cx) (\<lambda>rec. or_status rec = status)"
  unfolding settle_def Let_def
  by (rule gives_basic | rule gives_with | simp only: operation_result_record.simps | rule gives_bind)+

lemma settled_step_gives:
  "gives m (\<lambda>rec. or_status rec = status) \<Longrightarrow> status = Aborted \<or> status = Failed \<Longrightarrow> gives (settled_step m) ends_operation"
  unfolding settled_step_def by (erule gives_seq, rule gives_basic) simp

lemma recover_gives: "gives (recover_assistant_effect ops env operation cx) ends_operation"
proof (cases "op_state_of operation")
  case (AssistantEffectPending scope gc n response usage limit window)
  have partial: "gives (case partial of
            None \<Rightarrow> settled_step (settle_failure ops env operation code reason cx)
          | Some message \<Rightarrow> op_bind (m message) (\<lambda>assistant. op_bind (k assistant) (\<lambda>_.
              settled_step (settle ops env operation Aborted error cx)))) ends_operation" for partial code reason m k error
    by (cases partial) (auto simp: settle_failure_def intro!: gives_bind settled_step_gives [OF settle_gives])
  show ?thesis
    unfolding recover_assistant_effect_def AssistantEffectPending op_state.case by (rule gives_bind partial)+
qed (simp_all add: recover_assistant_effect_def gives_def)

lemma reconcile_gives: "gives (reconcile_abort ops env operation cx) ends_operation"
  unfolding reconcile_abort_def
  by (rule gives_bind)+ (simp add: recover_gives settled_step_gives [OF settle_gives])

lemma cancelled_operation:
  assumes "aborting (en_meanwhile (dv_lane env) rt)" and "current_drive_operation env options rt = (Inr operation, rt')"
  shows "op_cancelled operation"
  using assms by (auto simp: aborting_def current_drive_operation_def op_bind_def pause_def Let_def split: if_splits)

lemma aborting_turn:
  assumes "aborting (en_meanwhile (dv_lane env) rt)"
  shows "case fst (drive_turn ops env options cx invoked rt) of
      Inl _ \<Rightarrow> True
    | Inr (Some (DriveSettled rec)) \<Rightarrow> or_status rec = Aborted \<or> or_status rec = Failed
    | Inr _ \<Rightarrow> False"
proof -
  have ends: "gives (op_bind (reconcile_abort ops env operation cx) (\<lambda>step.
      if step = StepContinue then op_return None
      else op_bind (op_read (\<lambda>_. drive_outcome_of i step)) (\<lambda>outcome. op_return (Some outcome))))
    (\<lambda>outcome. case outcome of Some (DriveSettled rec) \<Rightarrow> or_status rec = Aborted \<or> or_status rec = Failed | _ \<Rightarrow> False)" for operation i
    by (rule gives_seq [OF reconcile_gives])
      (auto simp: gives_def op_bind_def drive_outcome_of_def split: drive_step.splits)
  obtain r rt1 where cur: "current_drive_operation env options rt = (r, rt1)" by fastforce
  show ?thesis
  proof (cases "lane_ensure_open rt")
    case (Inr u)
    show ?thesis
    proof (cases r)
      case (Inr operation)
      with cur have current: "current_drive_operation env options rt = (Inr operation, rt1)" by simp
      note cancelled = cancelled_operation [OF assms current]
      have hook: "(if invoked then op_return () else run_before_drive env operation cx) rt1 = (Inr (), rt1)"
        using cancelled by (simp add: run_before_drive_def split: option.split)
      have turn: "drive_turn ops env options cx invoked rt = op_bind (reconcile_abort ops env operation cx) (\<lambda>step.
          if step = StepContinue then op_return None
          else op_bind (op_read (\<lambda>_. drive_outcome_of (do_operation_id options) step)) (\<lambda>outcome. op_return (Some outcome))) rt1"
        using \<open>lane_ensure_open rt = Inr u\<close> current cancelled by (simp add: drive_turn_def op_bind_Inr [where m = "if _ then _ else _", OF hook])
      obtain o' rt2 where t: "drive_turn ops env options cx invoked rt = (o', rt2)" by fastforce
      have "o' = Inr x \<Longrightarrow> (case x of Some (DriveSettled rec) \<Rightarrow> or_status rec = Aborted \<or> or_status rec = Failed | _ \<Rightarrow> False)" for x
        using t unfolding turn by (intro givesD [OF ends]) (simp only:)
      then show ?thesis unfolding t fst_conv by (cases o') simp_all
    qed (simp add: drive_turn_def op_bind_def cur \<open>lane_ensure_open rt = Inr u\<close>)
  qed (simp add: drive_turn_def op_bind_def)
qed

text \<open>
  C11. The drive of an operation whose abort was asked for ends. As long as other tasks do not take the
  request back, it returns within one turn of its loop: with an error, or with the operation settled as
  aborted, or as failed when the response it was waiting for has no model any more. It never waits and
  never goes on.
\<close>

theorem aborted_drive_ends:
  assumes "\<And>rt. aborting rt \<Longrightarrow> aborting (en_meanwhile (dv_lane env) rt)" and "aborting rt"
  shows "\<exists>r rt'. drive ops env active options cx rt = Some (r, rt') \<and>
    (case r of Inl _ \<Rightarrow> True | Inr (DriveSettled rec) \<Rightarrow> or_status rec = Aborted \<or> or_status rec = Failed | Inr _ \<Rightarrow> False)"
proof (cases "lane_ensure_open rt")
  case (Inr u)
  show ?thesis
  proof (cases active)
    case None
    let ?rt = "rt\<lparr>lr_abort := False\<rparr>"
    have "aborting (en_meanwhile (dv_lane env) ?rt)" using assms by (simp add: aborting_def)
    note turn = aborting_turn [OF this, of ops options cx False]
    obtain r rt' where t: "drive_turn ops env options cx False ?rt = (r, rt')" by fastforce
    with turn show ?thesis
      using Inr None by (auto simp: drive_def drive_loop.simps split: sum.splits option.splits drive_outcome.splits)
  qed (simp add: drive_def Inr)
qed (simp add: drive_def)

theorem aborted_drive_ends_witness:
  "\<exists>r rt'. drive (jsonl_ops (doc_env healthy 0) doc_wire) (run_env aborting_operation) None
     \<lparr>do_operation_id = ''r'', do_wait_for_retry = True, do_poll_deferred = True\<rparr> sample_cx (run_lane aborting_operation) = Some (r, rt') \<and>
    (case r of Inl _ \<Rightarrow> True | Inr (DriveSettled rec) \<Rightarrow> or_status rec = Aborted \<or> or_status rec = Failed | Inr _ \<Rightarrow> False)"
  by (rule aborted_drive_ends)
    (simp_all add: run_env_def doc_lane_env_def aborting_def run_lane_def lane_of_def run_data_def aborting_operation_def run_operation_def
      op_cancelled_def op_scope_def)

section \<open>Responses\<close>

lemma response_point:
  assumes "pending_response_id pending = Inr response" and "assistant_response_state env pending message calls response rt = (Inr t, rt')"
  shows "state_at (rx_next_state t) = At_Tools \<longleftrightarrow> am_stop_reason message = Sr_ToolUse \<and> calls \<noteq> []"
    and "state_at (rx_next_state t) = At_DeferredSuspended \<longleftrightarrow> am_stop_reason message = Sr_Deferred"
    and "state_at (rx_next_state t) = At_AssistantRetryWait \<longrightarrow> am_stop_reason message = Sr_Error"
  using assms(2)
  by (cases rule: awaited_cases [OF assms(1)];
    auto simp: assistant_response_state_def error_response_state_def length_response_state_def deferred_response_state_def
      tool_use_response_state_def finish_response_state_def may_finish_def op_bind_def Let_def
      split: if_splits prod.splits sum.splits option.splits)+

text \<open>
  C14. A response leads to a state of its run. Whatever the model answered to a request that is waited
  for, the state chosen is one \<open>validate_state_intent\<close> accepts for a run, so that the run can be
  restored from it; it keeps the operation open with the settings of the run. Tool calls are
  run only after a response that stopped for them, a response is fetched later only when the provider
  deferred it, a request is repeated only after an error, and a failure with an error stands at a
  checkpoint, from which the run is settled.
\<close>

theorem response_state_valid:
  assumes "pending_response_id pending = Inr response"
    and "assistant_response_state env pending message calls response rt = (Inr t, rt')"
  shows "validate_state_intent (IntentRun prompts) (rx_next_state t) = Inr () \<and> keeps_operation (rx_next_state t) \<and>
    sc_settings (state_scope (rx_next_state t)) = sc_settings (state_scope pending) \<and>
    (state_at (rx_next_state t) = At_Tools \<longleftrightarrow> am_stop_reason message = Sr_ToolUse \<and> calls \<noteq> []) \<and>
    (state_at (rx_next_state t) = At_DeferredSuspended \<longleftrightarrow> am_stop_reason message = Sr_Deferred) \<and>
    (state_at (rx_next_state t) = At_AssistantRetryWait \<longrightarrow> am_stop_reason message = Sr_Error) \<and>
    (rx_status t = Failed \<and> rx_error t \<noteq> None \<longrightarrow> state_at (rx_next_state t) = At_Checkpoint)"
  using response_state_ok [OF assms(2,1)] response_point [OF assms] by (simp add: response_ok_def run_state_kind)

definition pending_sample :: "sample_doc op_state" where
  "pending_sample = AssistantEffectPending sample_scope sample_context 1 ''e'' ''u'' 100 1000"

definition error_message :: "(sample_doc, nat) assistant_message" where
  "error_message = (assistant_message_new ''a'' ''p'' ''m'' 7)\<lparr>am_stop_reason := Sr_Error\<rparr>"

lemma error_response:
  "assistant_response_state (run_env waiting_operation) pending_sample error_message [] ''e'' (run_lane waiting_operation) =
     (Inr \<lparr>rx_next_state = AssistantRetryWait sample_scope sample_context
          \<lparr>rw_next_attempt = 2, rw_not_before = 1007, rw_error_message = ''provider returned an error''\<rparr>,
        rx_status = Failed, rx_error = None\<rparr>, run_lane waiting_operation)"
  by (simp add: assistant_response_state_def error_message_def assistant_message_new_def error_response_state_def pending_sample_def
      retry_generation_context_def retry_or_stop_def sample_context_def schedule_retry_def retry_delay_def checked_shl_def i64_try_from_def
      i64_checked_add_def checked_add_def saturating_sub_def lane_now_def run_env_def doc_lane_env_def rbind_def ok_or_def Let_def)

theorem response_state_valid_witness:
  "\<exists>t rt'. assistant_response_state (run_env waiting_operation) pending_sample error_message [] ''e'' (run_lane waiting_operation) = (Inr t, rt') \<and>
     state_at (rx_next_state t) = At_AssistantRetryWait \<and> validate_state_intent (IntentRun [''p'']) (rx_next_state t) = Inr ()"
proof -
  have "pending_response_id pending_sample = Inr ''e''" by (simp add: pending_sample_def pending_response_id_def)
  from response_state_valid [OF this error_response, of "[''p'']"] error_response show ?thesis by (intro exI conjI) auto
qed

section \<open>Tool calls\<close>

lemma other_tool_fields:
  "dv_lane (env\<lparr>dv_tool := tool\<rparr>) = dv_lane env" "dv_tool_context (env\<lparr>dv_tool := tool\<rparr>) = dv_tool_context env"
  by simp_all

lemma other_tool [simp]:
  "pause (env\<lparr>dv_tool := tool\<rparr>) = pause env" "drive_serde (env\<lparr>dv_tool := tool\<rparr>) = drive_serde env"
  "outside (env\<lparr>dv_tool := tool\<rparr>) g = outside env g" "error_tool_result (env\<lparr>dv_tool := tool\<rparr>) message = error_tool_result env message"
  by (simp_all add: pause_def drive_serde_def outside_def error_tool_result_def)

lemma other_tool_steps [simp]:
  "resolve_tool_context (env\<lparr>dv_tool := tool\<rparr>) = resolve_tool_context env"
  "settle_failure ops (env\<lparr>dv_tool := tool\<rparr>) operation code message cx = settle_failure ops env operation code message cx"
  "transition_with_writes ops (env\<lparr>dv_tool := tool\<rparr>) operation state writes cx = transition_with_writes ops env operation state writes cx"
  "transition ops (env\<lparr>dv_tool := tool\<rparr>) operation state cx = transition ops env operation state cx"
  "args_write (env\<lparr>dv_tool := tool\<rparr>) operation turn source call = args_write env operation turn source call"
  "stage_output ops (env\<lparr>dv_tool := tool\<rparr>) operation entry staged cx = stage_output ops env operation entry staged cx"
  "tool_executed (env\<lparr>dv_tool := tool\<rparr>) call = tool_executed env call"
  unfolding resolve_tool_context_def run_source_def settle_failure_def settle_def operation_cleanup_writes_def transition_def
    transition_with_writes_def state_write_def args_write_def stage_output_def tool_executed_def other_tool other_tool_fields
  by (rule refl)+

lemma other_tool_start [simp]: "start_tool (env\<lparr>dv_tool := tool\<rparr>) operation call = start_tool env operation call"
  unfolding start_tool_def other_tool other_tool_steps by (rule refl)

lemma other_tool_results [simp]:
  "tool_result_writes (env\<lparr>dv_tool := tool\<rparr>) i terminate calls results parent = tool_result_writes env i terminate calls results parent"
  by (induction env i terminate calls results parent rule: tool_result_writes.induct) simp_all

lemma other_tool_commit [simp]:
  "commit_tool_results ops (env\<lparr>dv_tool := tool\<rparr>) operation batch results terminate cx =
     commit_tool_results ops env operation batch results terminate cx"
  "recover_sequential_tool ops (env\<lparr>dv_tool := tool\<rparr>) operation rec call cx = recover_sequential_tool ops env operation rec call cx"
  unfolding commit_tool_results_def recover_sequential_tool_def staged_tool_result_def state_write_def tip_write_def other_tool
    other_tool_steps other_tool_results other_tool_fields by (rule refl)+

lemma call_position_less: "call_position source records = Some index \<Longrightarrow> index < length records"
  by (induction records arbitrary: index) (auto split: if_splits)

lemma may_run_iff: "may_run status \<longleftrightarrow> status = Planned \<or> status = EffectPending Safe"
  by (cases status) simp_all

lemma begun_sequential:
  assumes "\<forall>rec \<in> set (tb_calls batch). \<not> may_run (tcr_status rec)"
  shows "sequential_tools ops (env\<lparr>dv_tool := tool\<rparr>) operation cx calls batch results terminate =
    sequential_tools ops env operation cx calls batch results terminate"
proof (induction calls arbitrary: results terminate)
  case (Cons c calls)
  obtain source call where c: "c = (source, call)" by (cases c)
  show ?case
  proof (cases "call_position source (tb_calls batch)")
    case (Some index)
    with assms have "\<not> may_run (tcr_status (tb_calls batch ! index))" using call_position_less by fastforce
    then show ?thesis
      by (intro ext) (simp add: c Some run_sequential_tool_def Let_def op_bind_def Cons.IH split: prod.split sum.split)
  qed (simp add: c)
qed simp

text \<open>
  C4. A tool call that had begun is never run again. When every call of a batch has begun, and is not
  marked as safe to replay, or has returned, as after a crash between the start of the calls and the
  commit of their results, the step of the driver does not depend on the tools at all: it publishes the outputs that were staged, or
  settles the operation because the effect of a call is unknown.
\<close>

theorem begun_calls_not_rerun:
  assumes "op_state_of operation = Tools scope batch"
    and "\<forall>rec \<in> set (tb_calls batch). tcr_status rec \<noteq> Planned \<and> tcr_status rec \<noteq> EffectPending Safe"
  shows "tools ops (env\<lparr>dv_tool := tool\<rparr>) operation cx = tools ops env operation cx"
proof -
  from assms(2) have begun: "\<forall>rec \<in> set (tb_calls batch). \<not> may_run (tcr_status rec)" by (simp add: may_run_iff)
  have serial: "\<not> (all_calls_parallel config (op_scope operation) batch calls \<and> 1 < length calls)"
    for config :: "'a runtime_config" and calls :: "(u32 \<times> 'a tool_call) list"
  proof (cases calls)
    case (Cons c calls')
    then show ?thesis
      using begun call_position_less by (fastforce simp: all_calls_parallel_def split: option.splits)
  qed simp
  show ?thesis
    unfolding tools_def assms(1) op_state.case Let_def if_not_P [OF serial] by (simp add: begun_sequential [OF begun])
qed

definition begun_batch :: "tool_batch" where
  "begun_batch = \<lparr>tb_assistant_entry_id = ''a'', tb_configuration = gc_configuration sample_context, tb_turn_id = ''r:p'',
     tb_calls = [\<lparr>tcr_source_index = 0, tcr_result_entry_id = ''t'', tcr_status = EffectPending Never\<rparr>]\<rparr>"

theorem begun_calls_not_rerun_witness:
  "tools (jsonl_ops (doc_env healthy 0) doc_wire) ((run_env waiting_operation)\<lparr>dv_tool := \<lambda>_ _ _ _ rt. (ToolCancelled, rt\<lparr>lr_closed := True\<rparr>)\<rparr>)
     (run_operation (Tools sample_scope begun_batch)) sample_cx =
   tools (jsonl_ops (doc_env healthy 0) doc_wire) (run_env waiting_operation) (run_operation (Tools sample_scope begun_batch)) sample_cx"
  by (rule begun_calls_not_rerun [where batch = begun_batch]) (simp add: run_operation_def, simp add: begun_batch_def)

text \<open>Two steps that do the same in every lane with the view \<open>v\<close>.\<close>

definition same_in ::
  "('m \<Rightarrow> slot \<rightharpoonup> 'j) \<Rightarrow> 'j lane_view \<Rightarrow> ('e, ('w, 'm, 'g, 'j) lane_runtime, 'a) eop \<Rightarrow> ('e, ('w, 'm, 'g, 'j) lane_runtime, 'a) eop \<Rightarrow> bool" where
  "same_in val v m m' \<longleftrightarrow> (\<forall>rt. view_of val rt = v \<longrightarrow> m rt = m' rt)"

lemma same_bind:
  fixes m :: "('e, ('w, 'm, 'g, 'j) lane_runtime, 'a) eop"
  assumes "leads val v m Q E" and "\<And>a v'. Q a v' \<Longrightarrow> same_in val v' (f a) (f' a)"
  shows "same_in val v (op_bind m f) (op_bind m f')"
  unfolding same_in_def
proof (intro allI impI)
  fix rt :: "('w, 'm, 'g, 'j) lane_runtime"
  assume v: "view_of val rt = v"
  obtain r rt' where m: "m rt = (r, rt')" by fastforce
  show "op_bind m f rt = op_bind m f' rt"
  proof (cases r)
    case (Inr a)
    with m leads_Inr [OF assms(1) v] assms(2) show ?thesis by (auto simp: op_bind_def same_in_def)
  qed (simp add: op_bind_def m)
qed

lemma same_head: "same_in val v m m' \<Longrightarrow> same_in val v (op_bind m f) (op_bind m' f)"
  by (simp add: same_in_def op_bind_def)

lemma same_refl: "same_in val v m m"
  by (simp add: same_in_def)

abbreviation pending_mark :: "('w, 'm, 'g, 'j, 'f) drive_env \<Rightarrow> 'j operation \<Rightarrow> tool_batch \<Rightarrow> nat \<Rightarrow> (slot \<rightharpoonup> 'j) \<Rightarrow> bool" where
  "pending_mark env operation batch index vs \<equiv> stored (ld_op_state (drive_serde env)) vs (operation_state (op_id operation))
     (tools_state operation (set_status index (EffectPending Never) batch))"

context storage_contract
begin

lemma transition_stores:
  fixes env :: "('w, 'm, 'g, 'j, 'f) drive_env"
  assumes ok: "lane_serde_ok (drive_serde env)"
  shows "leads val v (transition_with_writes ops env operation state writes cx)
    (\<lambda>_ v'. stored (ld_op_state (drive_serde env)) (v_slots v') (operation_state (op_id operation)) state) (\<lambda>_. True)"
  unfolding transition_with_writes_def state_write_def check_current_def put_operation_def
  by (rule leads_pause_bind [where J = "\<lambda>_. True"], simp add: undisturbed_def, simp, rule leads_silent_bind, (rule keeps_rules)+, simp,
    rule leads_write, simp, rule leads_commit, simp, simp, rule leads_put)
    (auto simp: stored_def foldl_append lane_roundtrip(4) [OF ok])

lemma execute_same:
  fixes env :: "('w, 'm, 'g, 'j, 'f) drive_env"
  assumes kept: "\<And>rt. pending_mark env operation batch index (val (bk_storage (lr_session rt))) \<Longrightarrow>
      pending_mark env operation batch index (val (bk_storage (lr_session (en_meanwhile (dv_lane env) rt))))"
    and tools: "\<And>rt. pending_mark env operation batch index (val (bk_storage (lr_session rt))) \<Longrightarrow>
      tool call (op_id operation) turn entry rt = tool' call (op_id operation) turn entry rt"
    and marked: "pending_mark env operation batch index (v_slots v)"
  shows "same_in val v (execute_tool (env\<lparr>dv_tool := tool\<rparr>) operation turn entry call) (execute_tool (env\<lparr>dv_tool := tool'\<rparr>) operation turn entry call)"
proof -
  let ?J = "\<lambda>v. pending_mark env operation batch index (v_slots v)"
  let ?env = "env\<lparr>dv_tool := \<lambda>_ _ _ _ rt. (ToolCancelled, rt)\<rparr>"
  have quiet: "undisturbed val ?env ?J"
    using kept by (simp add: undisturbed_def view_of_def)
  note pause = leads_pause [OF quiet, simplified other_tool] and outside = leads_outside [OF quiet, simplified other_tool]
  have "leads val v (resolve_tool_context env) (\<lambda>_. ?J) (\<lambda>_. True)"
    unfolding resolve_tool_context_def run_source_def
    by (rule leads_option, rule leads_basic, rule marked, rule leads_seq [OF outside [OF marked]], rule leads_read, simp)
  then have start: "leads val v (start_tool env operation call) (\<lambda>_. ?J) (\<lambda>_. True)"
    unfolding start_tool_def using marked by (intro leads_with leads_if leads_basic) (auto intro: leads_seq leads_basic)
  have run: "same_in val v' (run_tool (env\<lparr>dv_tool := tool\<rparr>) (op_id operation) turn entry call)
      (run_tool (env\<lparr>dv_tool := tool'\<rparr>) (op_id operation) turn entry call)" if "?J v'" for v'
    unfolding run_tool_def other_tool using that tools by (auto simp: same_in_def view_of_def)
  show ?thesis
    unfolding execute_tool_def other_tool_start other_tool_steps other_tool
    by (rule same_bind [OF start], rule same_head) (auto intro: same_refl same_bind [OF pause run] split: option.split)
qed

lemma sequential_same:
  fixes env :: "('w, 'm, 'g, 'j, 'f) drive_env"
  assumes ok: "lane_serde_ok (drive_serde env)"
    and kept: "\<And>rt. pending_mark env operation batch index (val (bk_storage (lr_session rt))) \<Longrightarrow>
      pending_mark env operation batch index (val (bk_storage (lr_session (en_meanwhile (dv_lane env) rt))))"
    and tools: "\<And>turn entry rt. pending_mark env operation batch index (val (bk_storage (lr_session rt))) \<Longrightarrow>
      tool call (op_id operation) turn entry rt = tool' call (op_id operation) turn entry rt"
  shows "same_in val v (run_sequential_tool ops (env\<lparr>dv_tool := tool\<rparr>) operation batch index call cx)
    (run_sequential_tool ops (env\<lparr>dv_tool := tool'\<rparr>) operation batch index call cx)"
proof (cases "may_run (tcr_status (tb_calls batch ! index))")
  case True
  have any: "leads val v (args_write env operation turn source call) (\<lambda>_ _. True) (\<lambda>_. True)" for v turn source
    by (rule leadsI) simp_all
  show ?thesis
    unfolding run_sequential_tool_def Let_def if_P [OF True] other_tool_steps
    by (rule same_bind [OF any], rule same_bind [OF transition_stores [OF ok]], rule same_head,
      rule execute_same [where env = env and batch = batch and index = index], erule kept, erule tools) assumption
qed (simp add: run_sequential_tool_def Let_def same_refl)

end

text \<open>
  C10. A tool is run only after its call is stored as begun. Of a call run in sequence, two tools that
  differ only in lanes where the session does not store the call as begun, not to be replayed, cannot be
  told apart, as long as other tasks leave that mark in place: whatever a tool does, the mark is durable
  before it does it, and the mark is what a restart goes by.
\<close>

theorem tool_marked_before_run:
  assumes "lane_serde_ok (drive_serde env)"
    and "\<And>rt. pending_mark env operation batch index (jsonl_val (bk_storage (lr_session rt))) \<Longrightarrow>
      pending_mark env operation batch index (jsonl_val (bk_storage (lr_session (en_meanwhile (dv_lane env) rt))))"
    and "\<And>turn entry rt. pending_mark env operation batch index (jsonl_val (bk_storage (lr_session rt))) \<Longrightarrow>
      tool call (op_id operation) turn entry rt = tool' call (op_id operation) turn entry rt"
  shows "run_sequential_tool (jsonl_ops io w) (env\<lparr>dv_tool := tool\<rparr>) operation batch index call cx rt =
    run_sequential_tool (jsonl_ops io w) (env\<lparr>dv_tool := tool'\<rparr>) operation batch index call cx rt"
proof -
  have "same_in jsonl_val (view_of jsonl_val rt) (run_sequential_tool (jsonl_ops io w) (env\<lparr>dv_tool := tool\<rparr>) operation batch index call cx)
      (run_sequential_tool (jsonl_ops io w) (env\<lparr>dv_tool := tool'\<rparr>) operation batch index call cx)"
    by (rule jsonl.sequential_same [where env = env and batch = batch and index = index], rule assms(1), erule assms(2), erule assms(3))
  then show ?thesis by (simp add: same_in_def)
qed

definition planned_batch :: "tool_batch" where
  "planned_batch = begun_batch\<lparr>tb_calls := [\<lparr>tcr_source_index = 0, tcr_result_entry_id = ''t'', tcr_status = Planned\<rparr>]\<rparr>"

definition planned_operation :: "sample_doc operation" where
  "planned_operation = run_operation (Tools sample_scope planned_batch)"

text \<open>The lane of the run, with a registered tool, and an encoding for what the call writes.\<close>

definition begun_state :: "sample_doc op_state" where
  "begun_state = tools_state planned_operation (set_status 0 (EffectPending Never) planned_batch)"

definition ready_batch :: "tool_batch" where
  "ready_batch = set_status 0 (OutcomeReady False) (set_status 0 (EffectPending Never) planned_batch)"

definition removal_output :: "sample_doc agent_tool_result" where
  "removal_output = \<lparr>tres_content = [ToolResultText \<lparr>tc_text = ''removed'', tc_text_signature = None\<rparr>], tres_details = DocText [],
     tres_added_tool_names = None, tres_terminate = None\<rparr>"

definition tool_serde :: "(sample_doc, nat) lane_serde" where
  "tool_serde = (run_serde planned_operation)\<lparr>ld_args := table_codec [([], DocText ''args'')],
     ld_op_state := table_codec [(op_state_of planned_operation, DocText ''run''), (begun_state, DocText ''begun''),
       (tools_state planned_operation ready_batch, DocText ''ready'')],
     ld_staged := table_codec [(\<lparr>sg_result = removal_output\<lparr>tres_terminate := Some False\<rparr>, sg_is_error = False\<rparr>, DocText ''output'')]\<rparr>"

lemma tool_serde_ok: "lane_serde_ok tool_serde"
  by (simp add: lane_serde_ok_def tool_serde_def run_serde_def doc_lane_serde_def doc_serde_ok table_codec_ok)

definition tool_env :: "(unit, (sample_doc, nat) jsonl_world, generator_state, sample_doc, nat) drive_env" where
  "tool_env = (run_env planned_operation)\<lparr>dv_lane := doc_lane_env\<lparr>en_serde := tool_serde\<rparr>\<rparr>"

definition tool_at ::
  "u64 \<Rightarrow> (sample_doc, nat) storage_state \<Rightarrow> utf8 \<Rightarrow> sample_doc op_state \<Rightarrow> (unit, (sample_doc, nat) jsonl_world, generator_state, sample_doc) lane_runtime" where
  "tool_at n s bytes state = (lane_of (doc_world (s\<lparr>st_next_seq := n\<rparr>) bytes) (run_data (run_operation state)))
     \<lparr>lr_config := sample_runtime_config\<lparr>rc_tools := [(''rm'', Sequential)]\<rparr>\<rparr>"

definition tool_lane :: "(unit, (sample_doc, nat) jsonl_world, generator_state, sample_doc) lane_runtime" where
  "tool_lane = tool_at 1 (state_of run_world) [104, 10] (op_state_of planned_operation)"

definition sample_call :: "sample_doc tool_call" where
  "sample_call = \<lparr>tl_id = ''c'', tl_name = ''rm'', tl_arguments = [], tl_thought_signature = None, tl_namespace = None\<rparr>"


lemma tool_commit:
  "\<exists>r s' bytes'. lane_commit (jsonl_ops (doc_env healthy 0) doc_wire) [WriteValue (ValueSet a b c), WriteValue (ValueSet a' b' c')] sample_cx
     (tool_at 1 s bytes state) = (Inr r, tool_at 3 s' bytes' state)"
  "\<exists>r s' bytes'. lane_commit (jsonl_ops (doc_env healthy 0) doc_wire) [WriteValue (ValueSet a b c)] sample_cx
     (tool_at 3 s bytes state) = (Inr r, tool_at 4 s' bytes' state)"
  "\<exists>r s' bytes'. lane_commit (jsonl_ops (doc_env healthy 0) doc_wire) [WriteValue (ValueSet a b c)] sample_cx
     (tool_at 4 s bytes state) = (Inr r, tool_at 5 s' bytes' state)"
  unfolding tool_at_def
  by (simp_all add: lane_commit_def lane_op_eval lane_of_def session_new_def jsonl_ops_def without_cancellation_def commit_eval io_defs doc_defs
      result_eval storage_eval doc_wire_def)
    (metis storage_state.surjective storage_state.update_convs)+


lemma tool_values:
  "drive_serde tool_env = tool_serde" "en_meanwhile (dv_lane tool_env) rt = rt" "en_now (dv_lane tool_env) w = (7, w)" "dv_tool_context tool_env = None"
  "cd_to (ld_args tool_serde) (tl_arguments sample_call) = Inr (DocText ''args'')"
  "cd_to (ld_op_state tool_serde) begun_state = Inr (DocText ''begun'')"
  "cd_to (ld_op_state tool_serde) (tools_state planned_operation ready_batch) = Inr (DocText ''ready'')"
  "cd_to (ld_staged tool_serde) \<lparr>sg_result = removal_output\<lparr>tres_terminate := Some False\<rparr>, sg_is_error = False\<rparr> = Inr (DocText ''output'')"
  by (simp_all add: tool_env_def drive_serde_def run_env_def doc_lane_env_def tool_serde_def table_codec_def sample_call_def
      begun_state_def ready_batch_def planned_operation_def planned_batch_def begun_batch_def run_operation_def tools_state_def set_status_def)

lemma tool_lane_values:
  "lr_data (tool_at n s bytes state) = run_data (run_operation state)" "rc_tools (lr_config (tool_at n s bytes state)) = [(''rm'', Sequential)]"
  "(tool_at n s bytes state)\<lparr>lr_data := run_data (run_operation state')\<rparr> = tool_at n s bytes state'"
  "(tool_at n s bytes state)\<lparr>lr_world := ()\<rparr> = tool_at n s bytes state"
  "\<not> token_cancelled (tool_at n s bytes state)" "\<not> op_cancelled planned_operation" "op_id planned_operation = ''r''"
  "la_operation (run_data (run_operation state)) = Some (run_operation state)" "op_id (run_operation state) = ''r''"
  "(run_data (run_operation state))\<lparr>la_operation := Some \<lparr>op_meta = op_meta planned_operation, op_state_of = state'\<rparr>\<rparr> =
     run_data (run_operation state')"
  by (simp_all add: tool_at_def lane_of_def run_data_def planned_operation_def run_operation_def operation_meta_of_def token_cancelled_def
      lane_gate_def op_cancelled_def op_scope_def sample_scope_def)

lemmas tool_step = op_bind_def pause_def check_current_def with_lane_def state_write_def put_operation_def put_data_def lane_write_def lane_read_def
  op_read_def map_err_def set_json_def set_value_def operation_state_def pending_tool_output_def operation_tool_args_def tool_values tool_lane_values

lemma tool_begins:
  "\<exists>s' bytes'. transition_with_writes (jsonl_ops (doc_env healthy 0) doc_wire) tool_env planned_operation begun_state
     [WriteValue (ValueSet a b c)] sample_cx (tool_at 1 s bytes state) = (Inr (), tool_at 3 s' bytes' begun_state)"
  using tool_commit(1) [of a b c "''pi.op.state''" "''r''" "DocText ''begun''" s bytes state]
  by (auto simp: tool_step transition_with_writes_def) blast

lemma tool_staged:
  "\<exists>s' bytes'. stage_output (jsonl_ops (doc_env healthy 0) doc_wire) tool_env planned_operation ''t''
     \<lparr>sg_result = removal_output\<lparr>tres_terminate := Some False\<rparr>, sg_is_error = False\<rparr> sample_cx
     (tool_at 3 s bytes state) = (Inr (), tool_at 4 s' bytes' state)"
  using tool_commit(2) [of "''pi.pending.tool_output''" "''r:t''" "DocText ''output''" s bytes state]
  by (auto simp: tool_step stage_output_def) blast

lemma tool_ready:
  "\<exists>s' bytes'. transition (jsonl_ops (doc_env healthy 0) doc_wire) tool_env planned_operation (tools_state planned_operation ready_batch)
     sample_cx (tool_at 4 s bytes state) = (Inr (), tool_at 5 s' bytes' (tools_state planned_operation ready_batch))"
  using tool_commit(3) [of "''pi.op.state''" "''r''" "DocText ''ready''" s bytes state]
  by (auto simp: tool_step transition_def transition_with_writes_def) blast

lemma tool_returns:
  "execute_tool (tool_env\<lparr>dv_tool := \<lambda>_ _ _ _ rt. (ToolReturned removal_output, rt)\<rparr>) planned_operation turn entry sample_call (tool_at n s bytes state) =
   (Inr (tool_result_message_new ''c'' ''rm'' (tres_content removal_output) False 7, False,
      \<lparr>sg_result = removal_output\<lparr>tres_terminate := Some False\<rparr>, sg_is_error = False\<rparr>), tool_at n s bytes state)"
proof -
  have "tl_id sample_call = ''c''" "tl_name sample_call = ''rm''" "tres_terminate removal_output = None"
    by (simp_all add: sample_call_def removal_output_def)
  then show ?thesis
    by (simp add: execute_tool_def start_tool_def run_tool_def tool_executed_def resolve_tool_context_def tool_step lane_now_def unwrap_or_def Let_def)
qed

lemma removal_run:
  "\<exists>rt'. run_sequential_tool (jsonl_ops (doc_env healthy 0) doc_wire) (tool_env\<lparr>dv_tool := \<lambda>_ _ _ _ rt. (ToolReturned removal_output, rt)\<rparr>)
     planned_operation planned_batch 0 sample_call sample_cx tool_lane =
   (Inr (ready_batch, Inr (tool_result_message_new ''c'' ''rm'' (tres_content removal_output) False 7, False)), rt')"
proof -
  have batch: "may_run (tcr_status (tb_calls planned_batch ! 0))" "tcr_result_entry_id (tb_calls planned_batch ! 0) = ''t''"
    by (simp_all add: planned_batch_def)
  obtain a b c where args: "\<And>rt. args_write tool_env planned_operation (tb_turn_id planned_batch) (tcr_source_index (tb_calls planned_batch ! 0)) sample_call rt =
      (Inr (WriteValue (ValueSet a b c)), rt)"
    by (simp add: args_write_def tool_step)
  obtain s1 b1 where begins: "transition_with_writes (jsonl_ops (doc_env healthy 0) doc_wire) tool_env planned_operation begun_state
     [WriteValue (ValueSet a b c)] sample_cx tool_lane = (Inr (), tool_at 3 s1 b1 begun_state)"
    unfolding tool_lane_def using tool_begins by blast
  obtain s2 b2 where staged: "stage_output (jsonl_ops (doc_env healthy 0) doc_wire) tool_env planned_operation ''t''
     \<lparr>sg_result = removal_output\<lparr>tres_terminate := Some False\<rparr>, sg_is_error = False\<rparr> sample_cx (tool_at 3 s1 b1 begun_state) =
       (Inr (), tool_at 4 s2 b2 begun_state)"
    using tool_staged by blast
  obtain s3 b3 where ready: "transition (jsonl_ops (doc_env healthy 0) doc_wire) tool_env planned_operation (tools_state planned_operation ready_batch)
     sample_cx (tool_at 4 s2 b2 begun_state) = (Inr (), tool_at 5 s3 b3 (tools_state planned_operation ready_batch))"
    using tool_ready by blast
  show ?thesis
    unfolding run_sequential_tool_def Let_def if_P [OF batch(1)] batch(2) other_tool_steps begun_state_def [symmetric]
    by (simp add: op_bind_def args begins tool_returns staged ready_batch_def [symmetric] ready)
qed

text \<open>A tool that destroys something when it is run without its mark.\<close>

definition careless_tool ::
  "sample_doc tool_call \<Rightarrow> operation_id \<Rightarrow> string \<Rightarrow> entry_id \<Rightarrow> (unit, (sample_doc, nat) jsonl_world, generator_state, sample_doc) lane_runtime
    \<Rightarrow> sample_doc tool_outcome \<times> (unit, (sample_doc, nat) jsonl_world, generator_state, sample_doc) lane_runtime" where
  "careless_tool call i turn entry rt =
     (if pending_mark tool_env planned_operation planned_batch 0 (jsonl_val (bk_storage (lr_session rt)))
      then (ToolReturned removal_output, rt) else (ToolCancelled, rt\<lparr>lr_data := new_lane_data\<rparr>))"

theorem tool_marked_before_run_witness:
  "run_sequential_tool (jsonl_ops (doc_env healthy 0) doc_wire) (tool_env\<lparr>dv_tool := careless_tool\<rparr>)
     planned_operation planned_batch 0 sample_call sample_cx tool_lane =
   run_sequential_tool (jsonl_ops (doc_env healthy 0) doc_wire) (tool_env\<lparr>dv_tool := \<lambda>_ _ _ _ rt. (ToolReturned removal_output, rt)\<rparr>)
     planned_operation planned_batch 0 sample_call sample_cx tool_lane \<and>
   (\<exists>rt'. run_sequential_tool (jsonl_ops (doc_env healthy 0) doc_wire) (tool_env\<lparr>dv_tool := careless_tool\<rparr>)
     planned_operation planned_batch 0 sample_call sample_cx tool_lane =
     (Inr (ready_batch, Inr (tool_result_message_new ''c'' ''rm'' (tres_content removal_output) False 7, False)), rt'))"
proof -
  have "run_sequential_tool (jsonl_ops (doc_env healthy 0) doc_wire) (tool_env\<lparr>dv_tool := careless_tool\<rparr>)
      planned_operation planned_batch 0 sample_call sample_cx tool_lane =
    run_sequential_tool (jsonl_ops (doc_env healthy 0) doc_wire) (tool_env\<lparr>dv_tool := \<lambda>_ _ _ _ rt. (ToolReturned removal_output, rt)\<rparr>)
      planned_operation planned_batch 0 sample_call sample_cx tool_lane"
    by (rule tool_marked_before_run) (simp_all add: careless_tool_def tool_values tool_serde_ok)
  with removal_run show ?thesis by simp
qed

end
