(* ===== verification/Spec2Isabelle.thy ===== *)
theory Spec2Isabelle
  imports Session_Properties Jsonl_Properties Runtime_Properties Lane_Properties Stream_Properties Drive_Properties
begin

text \<open>
  A verification library for the core of pi, a terminal coding agent written in Rust: its durable
  sessions, the lanes of the harness that run on them, and the driver that takes an operation through
  model responses, tool calls, summaries and recovery.

  \<^bold>\<open>The program.\<close> A \<^emph>\<open>session\<close> is the durable record of a conversation: a forest of entries,
  branch tips that point into it, typed values and lists under string addresses, usage records and
  provisional lane state. Everything that happens to it is a \<^emph>\<open>commit\<close>: a batch of writes that is
  validated as a whole, numbered with consecutive sequence numbers, applied to an in-memory index,
  and, for a session on disk, appended as one line to a file. A \<open>StorageBackedSession\<close> serialises
  mutations on one backend; a repository creates, opens, lists, forks and deletes sessions. A
  \<^emph>\<open>lane\<close> of the harness is one conversation on a branch of a session: it admits at most one
  \<^emph>\<open>operation\<close> at a time (a run, a compaction or a navigation), caches what is stored about it, and
  commits through one boundary that closes the lane when a commit fails. The driver reads the stored
  state of the operation, takes one step (asks the model, runs the tools it called, writes a summary,
  moves the branch), stores the next state, and goes on until the operation waits or has settled; after
  a crash the lane is restored from the session and driven on. While a response streams, its progress
  is stored as frames. Beside this, a queue feeds messages to the agent loop, a gate admits or refuses
  effects, tool output is truncated, and remote clients are served in length-prefixed frames.

  \<^bold>\<open>Data and commits.\<close>
  \<^item> \<open>Prelude\<close>: the fixed-width integer operations the sources call, \<open>Result\<close> as a sum, decimal
    printing, lines, UTF-8, and the generic list and map lemmas.
  \<^item> \<open>Session_Types\<close>: messages (\<open>pi-ai/src/types.rs\<close>, \<open>pi-agent/src/message.rs\<close>), entries
    (\<open>session/entry.rs\<close>), errors and lane state. \<open>Session_Address\<close>: addresses and scan queries
    (\<open>session/address.rs\<close>, \<open>session/scan.rs\<close>).
  \<^item> \<open>Session_Ids\<close>: the UUIDv7 generator (\<open>session/ids.rs\<close>): timestamps never go back and no two
    ids of one generator are equal.
  \<^item> \<open>Session_Write\<close>: writes and the validators \<open>commit_writes\<close> and \<open>replay_writes\<close>
    (\<open>session/write.rs\<close>), each proved to accept exactly what the declarative \<open>batch_ok\<close> and
    \<open>replay_ok\<close> describe.

  \<^bold>\<open>The state of a session.\<close>
  \<^item> \<open>Session_Memory\<close>: the record \<open>storage_state\<close> and one definition per method of
    \<open>InMemoryStorageState\<close> and \<open>InMemoryStorage\<close> (\<open>session/memory.rs\<close>).
  \<^item> \<open>Session_Storage_Inv\<close>: the invariant \<open>storage_wf\<close>, that commits and replays keep it, and that
    replaying everything committed rebuilds the state.
  \<^item> \<open>Session_Scan\<close>: the branch walk equals the window of the ancestry path that the query asks
    for; the sequence scans are complete; the pages of a list are its slices.
  \<^item> \<open>Session_Fork\<close>: snapshots and forks (\<open>session/fork.rs\<close>). A fork produces only what commit
    validation accepts, ends with the same tips, and copies exactly the ancestry of the branch.
  \<^item> \<open>Storage_Properties\<close>: the claims about these.

  \<^bold>\<open>Sessions and repositories in memory.\<close>
  \<^item> \<open>Session_Backed\<close>: \<open>StorageBackedSession\<close> and its branches (\<open>session/backed.rs\<close>), written once
    over a record \<open>storage_ops\<close> of the \<open>Storage\<close> trait's methods (\<open>session/traits.rs\<close>).
  \<^item> \<open>Session_Contract\<close>: the locale \<open>storage_contract\<close> is what a session relies on a backend for:
    reads do not change the durable state, and a commit either returns consecutive sequence numbers
    and the state those writes lead to or leaves the state alone. \<open>storage_progress\<close> extends it
    with success of valid commits on a live backend. The lemmas about sessions are proved inside
    them. \<open>mem\<close> interprets both at the in-memory backend.
  \<^item> \<open>Session_Lifecycle\<close>: mutations and \<open>close\<close> as a step relation over their await points.
  \<^item> \<open>Session_Repo\<close>: \<open>MemorySessionRepo\<close>. \<open>Session_Properties\<close>: the claims about these.

  \<^bold>\<open>Sessions on disk.\<close> (\<open>pi/src/core/harness_session/jsonl/\<close>)
  \<^item> \<open>Durable_File\<close>: a file system as a map from paths to bytes; atomic publication by rename
    (POSIX) or by a backup and two renames (Windows) with a fault or a crash possible at each
    stage; appending one line, which may stop after any number of bytes.
  \<^item> \<open>Jsonl_Codec\<close>: header and transaction lines (\<open>codec.rs\<close>).
  \<^item> \<open>Jsonl_Storage\<close>: create, open with repair of a torn last line, fork, commit, upgrade of an
    imported version-3 file, and the \<open>Storage\<close> methods (\<open>storage.rs\<close>).
  \<^item> \<open>Jsonl_Durable\<close>: the invariant \<open>durable\<close>, that reading the file again gives the state in
    memory. \<open>Jsonl_History\<close>: it holds after every history of commits, refusals, closes, reopens, and
    appends cut off at a character boundary and followed by a reopen. After a cut inside a character,
    or another commit behind a failed append, it does not; the claims say what happens then.
  \<^item> \<open>Jsonl_Contract\<close>: the functional refinement \<open>memory_of\<close> of the durable backend to the in-memory
    one, and the interpretations \<open>jsonl\<close> (of \<open>storage_contract\<close>, for every pattern of faults) and
    \<open>jsonl_fault_free\<close> (of \<open>storage_progress\<close>), which carry the session lemmas over to disk.
  \<^item> \<open>Jsonl_Drain\<close>: \<open>close\<close> waiting for running commits, with the permits of \<open>tokio::sync::Notify\<close>.
  \<^item> \<open>Jsonl_Samples\<close>, \<open>Jsonl_Properties\<close>: concrete inputs, and the claims about these.

  \<^bold>\<open>Lanes.\<close> (\<open>pi-agent/src/harness/runtime/\<close>)
  \<^item> \<open>Operation_Types\<close>: configurations, retry policies, operations with the states of their state machine,
    results and errors (\<open>session/configuration.rs\<close>, \<open>session/operation.rs\<close>, \<open>harness/result.rs\<close>).
  \<^item> \<open>Lane_Runtime\<close>: the record \<open>lane_runtime\<close>, its cached \<open>lane_data\<close>, and the commit boundary
    (\<open>lane.rs\<close>, \<open>support.rs\<close>). \<open>Lane_Admission\<close>: admission of operations with reservation and undo, the
    inbox, cancellation, appends, usage and configuration (\<open>admission.rs\<close>). \<open>Lane_Restore\<close>: restoring the
    lanes of a session and creating one (\<open>restore.rs\<close>, \<open>harness.rs\<close>).
  \<^item> \<open>Lane_Contract\<close>: \<open>coherent\<close> says that a lane's cache is what it would read back; every lane call keeps
    it. \<open>Lane_Samples\<close>, \<open>Lane_Properties\<close>: concrete lanes, and the claims about these.

  \<^bold>\<open>Responses.\<close>
  \<^item> \<open>Assistant_Frames\<close>: the encoder and the reducer of progress frames
    (\<open>pi-ai/src/assistant_message_frame.rs\<close>). \<open>Assistant_Replay\<close>: the reducer accepts what the encoder
    produced and rebuilds the message.
  \<^item> \<open>Streaming_Json\<close>: repair, completion and parsing of tool arguments that are still arriving
    (\<open>pi-ai/src/providers/shared.rs\<close>), and the prefix test of the encoder; \<open>well_closed\<close> and \<open>clean\<close> say
    what completion and repair achieve.
  \<^item> \<open>Lane_Stream\<close>: what a drive is given from outside (\<open>drive_env\<close>), the gate, the observer that stores the
    frames, consuming a provider stream, and option patches (\<open>harness/stream.rs\<close>, \<open>ResponseObserver\<close>).
  \<^item> \<open>Stream_Properties\<close>: the claims about these.

  \<^bold>\<open>The driver.\<close> (\<open>harness/runtime/drive.rs\<close>)
  \<^item> \<open>Lane_Drive\<close>: transitions, settlement, draining the inbox, committing and recovering responses,
    aborts. \<open>Lane_Run\<close>: the start of a run, checkpoints, its end, automatic compaction, retries.
    \<open>Lane_Response\<close>: requests, what a response leads to, its publication, deferred responses.
    \<open>Lane_Tool\<close>: tool calls in sequence and together. \<open>Lane_Summary\<close>: compactions, branch summaries and
    navigation. \<open>Lane_Loop\<close>: the choice of the step and the loop.
  \<^item> \<open>Drive_Rules\<close>: \<open>leads\<close>, a triple with a postcondition for each way a step ends, and its rules.
    \<open>Drive_Invariant\<close>: the invariant of a drive: the cache is what is stored, and the state \<open>fits\<close> the intent
    (strictly only for compactions, navigations without summary, and runs with compaction disabled).
  \<^item> \<open>Drive_Steps\<close>: the locale \<open>drive_run\<close> extends \<open>storage_contract\<close> with an operation and with other
    tasks that keep the invariant; \<open>Drive_Steps\<close>, \<open>Drive_Checkpoints\<close>, \<open>Drive_Responses\<close>, \<open>Drive_Tools\<close>,
    \<open>Drive_Summaries\<close> and \<open>Drive_Safety\<close> prove inside it that every step, every turn and the whole drive
    keep the invariant.
  \<^item> \<open>Drive_Others\<close>: the calls of a lane keep the invariant, so that they are allowed for other tasks.
    \<open>Drive_Samples\<close>, \<open>Drive_Properties\<close>: concrete operations; the locale at the durable backend, alone and with
    other tasks calling the lane; and the claims.

  \<^bold>\<open>Around the session.\<close> \<open>Agent_Queue\<close> (\<open>pi-agent/src/queue.rs\<close>), \<open>Harness_Gate\<close>
  (\<open>pi-agent/src/harness/gate.rs\<close>), \<open>Frame_Codec\<close> (\<open>pi/src/remote/framing.rs\<close>) and
  \<open>Tool_Truncate\<close> (\<open>pi/src/core/tools/truncate.rs\<close>), with their claims in \<open>Runtime_Properties\<close>.

  \<^bold>\<open>Conventions.\<close> A Rust struct is a record and an enum a datatype with the same constructors, with
  a prefix where names would clash. \<open>u64\<close> sequence numbers and counters are 64-bit words and keep
  the source's checked, saturating or wrapping arithmetic; \<open>usize\<close> lengths are \<open>nat\<close>. A method on
  \<open>&mut self\<close> takes the state and returns it with its result; \<open>Result\<close> is a sum with the error on
  the left, and a state returned beside an error is the state the source leaves behind. Text that
  is only compared is a \<open>string\<close>; bytes on disk and on the wire are lists of 8-bit words. A
  \<open>HashMap\<close> or \<open>BTreeMap\<close> is a finite map or an association list where its order is observed.

  \<^bold>\<open>Parameters.\<close> Code outside the repository is an argument: JSON values and the functions of
  \<open>serde_json\<close> that print and parse them, the text of a UUID, the clock and the random seed, the
  RFC 3339 timestamp parser, and the outcome of each system call. What the proofs need of them
  is a named hypothesis, such as \<open>wire_ok\<close> (what is printed parses back and has no line break) or
  \<open>lane_serde_ok\<close> (the records of a lane decode to what was encoded), and the witnesses instantiate them.
  A drive is also given its hooks, tools, providers and summary generator: each is a function of its
  input and the world (tools also of the lane). Other tasks are a function \<open>en_meanwhile\<close> on the lane that
  runs wherever the source awaits the lane's lock or something outside; what they may do is a hypothesis
  of each claim. The token estimate, the planning of a compaction and the normalization of version-3 files
  (the record \<open>legacy\<close>) are parameters as well.

  \<^bold>\<open>Bounds.\<close> No definition uses fuel. The loops are structural recursions or functions with a
  termination proof; the walk from a tip to the root keeps the set of ids it has seen, as the source
  does, and terminates because that set grows inside the stored ids; tool calls that run together
  terminate by the number of tool starts and returns left. Only the loop of a drive may run forever, as
  a model that keeps calling tools makes it: \<open>drive_loop\<close> is a partial function whose value is \<open>None\<close>
  then. The invariants of a drive are about every value it returns; that a drive returns is claimed for
  an operation whose abort was asked for.

  \<^bold>\<open>Not modelled.\<close> Events, watches and other notifications; the waiting of a second drive of the same
  operation for the first; the payload callback inside a provider request and the request closure inside
  the summary generator; the registry of hooks; the planning of a compaction (\<open>harness/compaction\<close>);
  \<open>serde\<close> encodings of individual types; the import of version-3 files, the directory layout and registry
  of the file repository (\<open>repo.rs\<close>, \<open>paths.rs\<close>) and the SQLite backend; model providers, extension host
  and the interactive, RPC and print modes, which are mostly network, process and terminal I/O. A
  navigation that writes a summary is modelled, but the invariant of a drive does not cover it: it
  commits its summary without the lane's lock.
\<close>

end
